(* ===== verification/Prelude.thy ===== *)
theory Prelude
  imports
    Complex_Main
    "HOL-Library.AList"
    "HOL-Library.Char_ord"
    "HOL-Library.List_Lexorder"
    "HOL-Library.Product_Lexorder"
begin

text \<open>
  Shared vocabulary of the development: Python dictionaries as association lists in
  insertion order, Python values as they occur in commands and payloads, the string
  operations the code uses, results of operations that may raise, and the generic lemmas
  about runs of operations that every component instantiates.

  Strings are lists of characters (ASCII code points): \<open>len\<close> is \<open>length\<close>, comparison is
  lexicographic. Python floats (times, costs, thresholds) are real numbers. Python integers
  are \<open>int\<close>. A value the code draws from the environment (the clock, a fresh identifier,
  the answer of a peer) is an argument of the definition that uses it.
\<close>

named_theorems dict_simps \<open>lookup, keys and well-formedness of dictionaries\<close>

section \<open>Dictionaries\<close>

type_synonym ('k, 'v) dict = "('k \<times> 'v) list"

abbreviation dkeys :: "('k, 'v) dict \<Rightarrow> 'k list" where
  "dkeys d \<equiv> map fst d"

abbreviation dvals :: "('k, 'v) dict \<Rightarrow> 'v list" where
  "dvals d \<equiv> map snd d"

abbreviation dget :: "('k, 'v) dict \<Rightarrow> 'k \<Rightarrow> 'v option" where
  "dget d k \<equiv> map_of d k"

abbreviation dwf :: "('k, 'v) dict \<Rightarrow> bool" where
  "dwf d \<equiv> distinct (dkeys d)"

text \<open>
  \<open>d[k] = v\<close> keeps the position of an existing key and appends a new one, as a Python
  dictionary does; \<open>dmod\<close> is a change of the object stored under a key through a reference, and
  \<open>dmap\<close> a loop that may change every stored object.
\<close>

definition dset :: "'k \<Rightarrow> 'v \<Rightarrow> ('k, 'v) dict \<Rightarrow> ('k, 'v) dict" where
  "dset k v d = AList.update k v d"

definition ddel :: "'k \<Rightarrow> ('k, 'v) dict \<Rightarrow> ('k, 'v) dict" where
  "ddel k d = filter (\<lambda>p. fst p \<noteq> k) d"

definition dmod :: "'k \<Rightarrow> ('v \<Rightarrow> 'v) \<Rightarrow> ('k, 'v) dict \<Rightarrow> ('k, 'v) dict" where
  "dmod k f d = map (\<lambda>p. if fst p = k then (fst p, f (snd p)) else p) d"

definition dmap :: "('v \<Rightarrow> 'v) \<Rightarrow> ('k, 'v) dict \<Rightarrow> ('k, 'v) dict" where
  "dmap f d = map (\<lambda>p. (fst p, f (snd p))) d"

lemma dset_Nil [simp]: "dset k v [] = [(k, v)]"
  by (simp add: dset_def)

lemma dset_Cons [simp]:
  "dset k v (p # d) = (if fst p = k then (k, v) # d else p # dset k v d)"
  by (simp add: dset_def)

lemma ddel_Nil [simp]: "ddel k [] = []"
  by (simp add: ddel_def)

lemma ddel_Cons [simp]:
  "ddel k (p # d) = (if fst p = k then ddel k d else p # ddel k d)"
  by (simp add: ddel_def)

lemma dmod_Nil [simp]: "dmod k f [] = []"
  by (simp add: dmod_def)

lemma dmod_Cons [simp]:
  "dmod k f (p # d) = (if fst p = k then (fst p, f (snd p)) # dmod k f d else p # dmod k f d)"
  by (simp add: dmod_def)

lemma dget_dset [dict_simps]: "dget (dset k v d) k' = (if k' = k then Some v else dget d k')"
  by (simp add: dset_def update_conv')

lemma dget_dset_map [dict_simps]: "map_of (dset k v d) = (map_of d)(k \<mapsto> v)"
  by (simp add: dset_def update_conv')

lemma dget_ddel [dict_simps]: "dget (ddel k d) k' = (if k' = k then None else dget d k')"
  by (induction d) auto

lemma dget_dmod [dict_simps]:
  "dget (dmod k f d) k' = (if k' = k then map_option f (dget d k) else dget d k')"
  by (induction d) auto

lemma dkeys_dmod [dict_simps, simp]: "dkeys (dmod k f d) = dkeys d"
  by (induction d) auto

lemma set_dkeys_dset [dict_simps]: "fst ` set (dset k v d) = insert k (fst ` set d)"
  by (induction d) auto

lemma dwf_dset [dict_simps, simp]: "dwf d \<Longrightarrow> dwf (dset k v d)"
  by (simp add: dset_def distinct_update)

lemma set_dkeys_ddel [dict_simps]: "fst ` set (ddel k d) = fst ` set d - {k}"
  by (induction d) auto

lemma dwf_ddel [dict_simps, simp]: "dwf d \<Longrightarrow> dwf (ddel k d)"
  by (induction d) (auto simp: ddel_def)

lemma dwf_filter [dict_simps, simp]: "dwf d \<Longrightarrow> dwf (filter P d)"
  by (induction d) auto

lemma length_dmod [dict_simps, simp]: "length (dmod k f d) = length d"
  by (simp add: dmod_def)

lemma dget_in_set: "dget d k = Some v \<Longrightarrow> (k, v) \<in> set d"
  by (rule map_of_SomeD)

lemma dget_iff_in_set: "dwf d \<Longrightarrow> dget d k = Some v \<longleftrightarrow> (k, v) \<in> set d"
  by (metis map_of_eq_Some_iff)

lemma dget_None_iff: "dget d k = None \<longleftrightarrow> k \<notin> set (dkeys d)"
  by (simp add: map_of_eq_None_iff)

lemma dget_dom: "k \<in> set (dkeys d) \<longleftrightarrow> (\<exists>v. dget d k = Some v)"
  by (metis dget_None_iff not_None_eq)

lemma in_set_dmod:
  "(k', v') \<in> set (dmod k f d) \<longleftrightarrow>
     (if k' = k then (\<exists>v. (k, v) \<in> set d \<and> v' = f v) else (k', v') \<in> set d)"
  by (induction d) auto

lemma in_set_dset:
  "dwf d \<Longrightarrow> (k', v') \<in> set (dset k v d) \<longleftrightarrow> (if k' = k then v' = v else (k', v') \<in> set d)"
  by (metis dget_dset dget_iff_in_set dwf_dset option.inject)

lemma dget_filter:
  "dwf d \<Longrightarrow> dget (filter P d) k =
     (case dget d k of None \<Rightarrow> None | Some v \<Rightarrow> if P (k, v) then Some v else None)"
  by (induction d) (auto simp: map_of_eq_None_iff image_iff split: option.splits)

lemma dget_dmap [dict_simps]: "dget (dmap f d) k = map_option f (dget d k)"
  by (induction d) (auto simp: dmap_def)

lemma dkeys_dmap [dict_simps, simp]: "dkeys (dmap f d) = dkeys d"
  by (simp add: dmap_def)

lemma dvals_dmap: "dvals (dmap f d) = map f (dvals d)"
  by (simp add: dmap_def)

lemma in_set_dmap: "(k, v') \<in> set (dmap f d) \<longleftrightarrow> (\<exists>v. (k, v) \<in> set d \<and> v' = f v)"
  by (force simp: dmap_def)

lemma dmap_idle: "(\<And>v. v \<in> set (dvals d) \<Longrightarrow> f v = v) \<Longrightarrow> dmap f d = d"
  unfolding dmap_def by (rule map_idI) auto

lemma dset_new: "k \<notin> set (dkeys d) \<Longrightarrow> dset k v d = d @ [(k, v)]"
  by (induction d) auto

text \<open>A dictionary read back from its values, under a key the values carry.\<close>

lemma fold_dset_dvals:
  "dwf (e @ d) \<Longrightarrow> (\<And>k r. (k, r) \<in> set d \<Longrightarrow> key r = k) \<Longrightarrow>
     fold (\<lambda>r. dset (key r) r) (dvals d) e = e @ d"
proof (induction d arbitrary: e)
  case (Cons p d)
  have "key (snd p) = fst p" using Cons.prems(2) [of "fst p" "snd p"] by simp
  moreover have "dset (fst p) (snd p) e = e @ [p]"
    using Cons.prems(1) by (subst dset_new) auto
  moreover have "fold (\<lambda>r. dset (key r) r) (dvals d) (e @ [p]) = (e @ [p]) @ d"
    using Cons.prems by (intro Cons.IH) auto
  ultimately show ?case by simp
qed simp

section \<open>Python values\<close>

text \<open>
  The values the code treats generically: log commands, payloads, results, snapshots.
  A float is a real, a tuple of the code is a list.
\<close>

datatype pyval =
    PNone
  | PBool bool
  | PInt int
  | PFloat real
  | PStr string
  | PList "pyval list"
  | PDict "(string \<times> pyval) list"

text \<open>\<open>d.get(k)\<close>: the stored value or \<open>None\<close>.\<close>

definition pget :: "(string, pyval) dict \<Rightarrow> string \<Rightarrow> pyval" where
  "pget d k = (case dget d k of None \<Rightarrow> PNone | Some v \<Rightarrow> v)"

definition is_str :: "pyval \<Rightarrow> bool" where
  "is_str v = (case v of PStr _ \<Rightarrow> True | _ \<Rightarrow> False)"

definition is_dict :: "pyval \<Rightarrow> bool" where
  "is_dict v = (case v of PDict _ \<Rightarrow> True | _ \<Rightarrow> False)"

text \<open>The truth value of an object.\<close>

definition truthy :: "pyval \<Rightarrow> bool" where
  "truthy v = (case v of PNone \<Rightarrow> False | PBool b \<Rightarrow> b | PInt i \<Rightarrow> i \<noteq> 0 | PFloat r \<Rightarrow> r \<noteq> 0
     | PStr s \<Rightarrow> s \<noteq> [] | PList l \<Rightarrow> l \<noteq> [] | PDict d \<Rightarrow> d \<noteq> [])"

section \<open>Strings\<close>

definition is_space :: "char \<Rightarrow> bool" where
  "is_space c = (let n = (of_char c :: nat) in (9 \<le> n \<and> n \<le> 13) \<or> (28 \<le> n \<and> n \<le> 32))"

definition py_strip :: "string \<Rightarrow> string" where
  "py_strip s = rev (dropWhile is_space (rev (dropWhile is_space s)))"

definition lower_char :: "char \<Rightarrow> char" where
  "lower_char c = (let n = (of_char c :: nat) in if 65 \<le> n \<and> n \<le> 90 then char_of (n + 32) else c)"

definition upper_char :: "char \<Rightarrow> char" where
  "upper_char c = (let n = (of_char c :: nat) in if 97 \<le> n \<and> n \<le> 122 then char_of (n - 32) else c)"

definition py_lower :: "string \<Rightarrow> string" where
  "py_lower s = map lower_char s"

definition py_upper :: "string \<Rightarrow> string" where
  "py_upper s = map upper_char s"

lemma lower_char_twice: "lower_char (lower_char c) = lower_char c"
  by (cases c rule: char.exhaust) (simp only: lower_char_def Let_def, auto)

lemma py_lower_twice [simp]: "py_lower (py_lower s) = py_lower s"
  by (simp add: py_lower_def o_def lower_char_twice)

lemma length_py_lower [simp]: "length (py_lower s) = length s"
  by (simp add: py_lower_def)

lemma length_py_upper [simp]: "length (py_upper s) = length s"
  by (simp add: py_upper_def)

text \<open>\<open>str(n)\<close> of an integer and \<open>sep.join(parts)\<close>.\<close>

fun show_nat :: "nat \<Rightarrow> string" where
  "show_nat n = (if n < 10 then [char_of (48 + n)] else show_nat (n div 10) @ [char_of (48 + n mod 10)])"

declare show_nat.simps [simp del]

definition show_int :: "int \<Rightarrow> string" where
  "show_int i = (if i < 0 then ''-'' @ show_nat (nat (- i)) else show_nat (nat i))"

fun join_sep :: "string \<Rightarrow> string list \<Rightarrow> string" where
  "join_sep sep [] = []"
| "join_sep sep [x] = x"
| "join_sep sep (x # y # xs) = x @ sep @ join_sep sep (y # xs)"

section \<open>Runs of operations\<close>

text \<open>
  A component is a state and a function that performs one operation; a run performs a list
  of them. \<open>legal\<close> says that every operation of a run satisfies, in the state it meets, the
  condition \<open>ok\<close> under which the environment issues it (fresh identifiers, for instance). An
  invariant the operations keep holds after every legal run, and a relation between the state
  before and after that is reflexive and transitive holds over every legal run.
\<close>

text \<open>An exception: the name of its class and its message.\<close>

type_synonym raised = "string \<times> string"

fun run :: "('s \<Rightarrow> 'op \<Rightarrow> 's) \<Rightarrow> 's \<Rightarrow> 'op list \<Rightarrow> 's" where
  "run step s [] = s"
| "run step s (x # xs) = run step (step s x) xs"

fun legal :: "('s \<Rightarrow> 'op \<Rightarrow> bool) \<Rightarrow> ('s \<Rightarrow> 'op \<Rightarrow> 's) \<Rightarrow> 's \<Rightarrow> 'op list \<Rightarrow> bool" where
  "legal ok step s [] \<longleftrightarrow> True"
| "legal ok step s (x # xs) \<longleftrightarrow> ok s x \<and> legal ok step (step s x) xs"

lemma run_append: "run step s (xs @ ys) = run step (run step s xs) ys"
  by (induction xs arbitrary: s) auto

lemma legal_append:
  "legal ok step s (xs @ ys) \<longleftrightarrow> legal ok step s xs \<and> legal ok step (run step s xs) ys"
  by (induction xs arbitrary: s) auto

text \<open>Checking a run and taking its final state in one pass.\<close>

fun legal_run :: "('s \<Rightarrow> 'op \<Rightarrow> bool) \<Rightarrow> ('s \<Rightarrow> 'op \<Rightarrow> 's) \<Rightarrow> 's \<Rightarrow> 'op list \<Rightarrow> 's option" where
  "legal_run ok step s [] = Some s"
| "legal_run ok step s (x # xs) = (if ok s x then legal_run ok step (step s x) xs else None)"

lemma legal_run_eq: "legal_run ok step s xs = (if legal ok step s xs then Some (run step s xs) else None)"
  by (induction xs arbitrary: s) simp_all

lemma legal_runD: "map_option f (legal_run ok step s xs) = Some y \<Longrightarrow> legal ok step s xs \<and> f (run step s xs) = y"
  by (simp add: legal_run_eq split: if_splits)

lemma legal_True [simp]: "legal (\<lambda>_ _. True) step s xs"
  by (induction xs arbitrary: s) auto

locale machine =
  fixes step :: "'s \<Rightarrow> 'op \<Rightarrow> 's"
    and ok :: "'s \<Rightarrow> 'op \<Rightarrow> bool"
    and inv :: "'s \<Rightarrow> bool"
    and progress :: "'s \<Rightarrow> 's \<Rightarrow> bool"
  assumes step_inv: "inv s \<Longrightarrow> ok s x \<Longrightarrow> inv (step s x)"
    and step_progress: "inv s \<Longrightarrow> ok s x \<Longrightarrow> progress s (step s x)"
    and progress_refl: "progress s s"
    and progress_trans: "progress s t \<Longrightarrow> progress t u \<Longrightarrow> progress s u"
begin

lemma run_inv: "inv s \<Longrightarrow> legal ok step s xs \<Longrightarrow> inv (run step s xs)"
  by (induction xs arbitrary: s) (auto intro: step_inv)

lemma run_progress: "inv s \<Longrightarrow> legal ok step s xs \<Longrightarrow> progress s (run step s xs)"
  by (induction xs arbitrary: s)
    (auto intro: progress_refl step_inv progress_trans [OF step_progress])

lemma run_between:
  "inv s \<Longrightarrow> legal ok step s (xs @ ys) \<Longrightarrow> progress (run step s xs) (run step s (xs @ ys))"
  by (simp add: run_append legal_append run_inv run_progress)

end

text \<open>
  A store of requests that are decided once: every request has a status, and a status that
  is final is never left again.
\<close>

locale decision_store = machine step ok inv progress
  for step :: "'s \<Rightarrow> 'op \<Rightarrow> 's" and ok :: "'s \<Rightarrow> 'op \<Rightarrow> bool"
    and inv :: "'s \<Rightarrow> bool" and progress :: "'s \<Rightarrow> 's \<Rightarrow> bool" +
  fixes status :: "'s \<Rightarrow> 'id \<Rightarrow> 'st option"
    and final :: "'st \<Rightarrow> bool"
  assumes progress_final:
    "progress s t \<Longrightarrow> status s i = Some x \<Longrightarrow> final x \<Longrightarrow> status t i = Some x"
begin

lemma decided_forever:
  "inv s \<Longrightarrow> legal ok step s (xs @ ys) \<Longrightarrow> status (run step s xs) i = Some x \<Longrightarrow> final x \<Longrightarrow>
     status (run step s (xs @ ys)) i = Some x"
  using run_between progress_final by blast

end

section \<open>Lists\<close>

text \<open>\<open>min(xs, key=f)\<close> and \<open>max(xs, key=f)\<close> return the first extremal element.\<close>

fun min_by :: "('a \<Rightarrow> 'b::linorder) \<Rightarrow> 'a \<Rightarrow> 'a list \<Rightarrow> 'a" where
  "min_by f x [] = x"
| "min_by f x (y # ys) = (if f y < f x then min_by f y ys else min_by f x ys)"

fun max_by :: "('a \<Rightarrow> 'b::linorder) \<Rightarrow> 'a \<Rightarrow> 'a list \<Rightarrow> 'a" where
  "max_by f x [] = x"
| "max_by f x (y # ys) = (if f x < f y then max_by f y ys else max_by f x ys)"

lemma min_by_in: "min_by f x ys \<in> set (x # ys)"
  by (induction ys arbitrary: x) auto

lemma min_by_le: "z \<in> set (x # ys) \<Longrightarrow> f (min_by f x ys) \<le> f z"
proof (induction ys arbitrary: x z)
  case (Cons y ys)
  have *: "f (min_by f w ys) \<le> f v" if "v = w \<or> v \<in> set ys" for v w
    using Cons.IH [of v w] that by simp
  show ?case
    using Cons.prems * [of y y] * [of x x] * [of z y] * [of z x] by auto
qed simp

lemma max_by_in: "max_by f x ys \<in> set (x # ys)"
  by (induction ys arbitrary: x) auto

lemma max_by_ge: "z \<in> set (x # ys) \<Longrightarrow> f z \<le> f (max_by f x ys)"
proof (induction ys arbitrary: x z)
  case (Cons y ys)
  have *: "f v \<le> f (max_by f w ys)" if "v = w \<or> v \<in> set ys" for v w
    using Cons.IH [of v w] that by simp
  show ?case
    using Cons.prems * [of y y] * [of x x] * [of z y] * [of z x] by auto
qed simp

text \<open>A search for a key, in a list whose keys are distinct.\<close>

lemma find_key_iff:
  "distinct (map k xs) \<Longrightarrow> find (\<lambda>x. k x = v) xs = Some x \<longleftrightarrow> x \<in> set xs \<and> k x = v"
  by (induction xs) (auto simp: image_iff)

lemma find_key_None: "find (\<lambda>x. k x = v) xs = None \<longleftrightarrow> v \<notin> k ` set xs"
  by (auto simp: find_None_iff)

lemma find_map: "find P (map h xs) = map_option h (find (\<lambda>x. P (h x)) xs)"
  by (induction xs) auto

lemma find_append: "find P (xs @ ys) = (case find P xs of None \<Rightarrow> find P ys | Some x \<Rightarrow> Some x)"
  by (induction xs) auto

lemma find_filter: "find P (filter Q xs) = find (\<lambda>x. Q x \<and> P x) xs"
  by (induction xs) auto

end
