(* ===== verification/Workflow.thy ===== *)
theory Workflow
  imports Prelude
begin

text \<open>
  The workflow aggregate of \<open>domain/workflow.py\<close>: tasks with a state machine, the
  dependency graph, its validation by Kahn's algorithm, and the operations that move tasks
  through their life cycle, including the cascading cancellation after a permanent failure.

  A set of dependencies is a list without repetition (the order in which the code iterates
  over the frozen set); fresh identifiers and the clock are arguments. An operation that may
  raise returns the error or its result together with the workflow as it is afterwards, so
  that what an operation has changed before it raises is visible. The code keys a task by its
  own identifier wherever it builds a task table (\<open>Workflow.create\<close>, \<open>_row_to_workflow\<close>);
  this is the predicate \<open>keyed\<close>.
\<close>

section \<open>Tasks\<close>

datatype task_state = PENDING | READY | RUNNING | COMPLETED | FAILED | CANCELLED

datatype wf_error =
    CycleDetected int
  | InvalidDependency string string
  | TaskNotFound string
  | InvalidTaskTransition string task_state task_state

fun allowed_task_transitions :: "task_state \<Rightarrow> task_state list" where
  "allowed_task_transitions PENDING = [READY, CANCELLED]"
| "allowed_task_transitions READY = [RUNNING, CANCELLED]"
| "allowed_task_transitions RUNNING = [COMPLETED, FAILED, PENDING]"
| "allowed_task_transitions COMPLETED = []"
| "allowed_task_transitions FAILED = []"
| "allowed_task_transitions CANCELLED = []"

record task_node =
  tn_name :: string
  tn_agent_id :: "string option"
  tn_depends_on :: "string list"
  tn_max_retries :: int
  tn_payload :: "(string, pyval) dict"
  tn_task_id :: string
  tn_state :: task_state
  tn_retry_count :: int
  tn_result :: pyval
  tn_error :: "string option"
  tn_created_at :: real
  tn_started_at :: "real option"
  tn_completed_at :: "real option"

definition transition_to :: "task_state \<Rightarrow> task_node \<Rightarrow> wf_error + task_node" where
  "transition_to target n =
     (if target \<notin> set (allowed_task_transitions (tn_state n))
      then Inl (InvalidTaskTransition (tn_task_id n) (tn_state n) target)
      else Inr (n\<lparr>tn_state := target\<rparr>))"

record task_spec =
  ts_name :: string
  ts_agent_id :: "string option"
  ts_depends_on :: "string list"
  ts_max_retries :: int
  ts_payload :: "(string, pyval) dict"

type_synonym tasks = "(string, task_node) dict"

record workflow =
  wf_id :: string
  wf_name :: string
  wf_tasks :: tasks
  wf_created_at :: real

section \<open>Validation of the dependency graph\<close>

text \<open>\<open>check_deps\<close> is the first pair of loops of \<open>_validate_no_cycles\<close>.\<close>

fun check_deps :: "string list \<Rightarrow> task_node list \<Rightarrow> wf_error + unit" where
  "check_deps ks [] = Inr ()"
| "check_deps ks (n # ns) =
     (case find (\<lambda>d. d \<notin> set ks) (tn_depends_on n) of
        Some d \<Rightarrow> Inl (InvalidDependency (tn_task_id n) d)
      | None \<Rightarrow> check_deps ks ns)"

text \<open>The second pair of loops: the dependents of a task and its in-degree.\<close>

definition add_edge ::
    "string \<Rightarrow> string \<Rightarrow> (string, string list) dict \<times> (string, int) dict
     \<Rightarrow> (string, string list) dict \<times> (string, int) dict" where
  "add_edge t d g = (dmod d (\<lambda>l. l @ [t]) (fst g), dmod t (\<lambda>k. k + 1) (snd g))"

definition build_graph :: "tasks \<Rightarrow> (string, string list) dict \<times> (string, int) dict" where
  "build_graph ts =
     fold (\<lambda>n. fold (add_edge (tn_task_id n)) (tn_depends_on n)) (dvals ts)
       (map (\<lambda>k. (k, [])) (dkeys ts), map (\<lambda>k. (k, 0)) (dkeys ts))"

text \<open>The inner loop of the sort: one dependency of each dependent is done.\<close>

fun release :: "string list \<Rightarrow> (string, int) dict \<Rightarrow> string list \<Rightarrow> (string, int) dict \<times> string list" where
  "release [] deg q = (deg, q)"
| "release (n # ns) deg q =
     (let deg' = dmod n (\<lambda>k. k - 1) deg
      in release ns deg' (if dget deg' n = Some 0 then q @ [n] else q))"

text \<open>The outer loop; \<open>queue.pop()\<close> takes the last element.\<close>

abbreviation open_count :: "(string, int) dict \<Rightarrow> nat" where
  "open_count deg \<equiv> length (filter (\<lambda>p. 0 < snd p) deg)"

lemma open_count_dec:
  "open_count (dmod n (\<lambda>k. k - 1) deg) + (if dget (dmod n (\<lambda>k. k - 1) deg) n = Some 0 then 1 else 0)
     \<le> open_count deg"
proof (induction deg)
  case (Cons p deg)
  have "open_count (dmod n (\<lambda>k. k - 1) deg) \<le> open_count deg"
    using Cons.IH by simp
  then show ?case using Cons.IH by (auto simp: dget_dmod)
qed simp

lemma release_measure:
  "length (snd (release ns deg q)) + open_count (fst (release ns deg q)) \<le> length q + open_count deg"
proof (induction ns deg q rule: release.induct)
  case (2 n ns deg q)
  show ?case
    using "2.IH" [OF refl] open_count_dec [of n deg] by (auto simp: Let_def)
qed simp

function kahn :: "(string, string list) dict \<Rightarrow> (string, int) dict \<Rightarrow> string list \<Rightarrow> nat \<Rightarrow> nat" where
  "kahn dependents deg queue visited =
     (if queue = [] then visited
      else let cur = last queue;
               nxts = (case dget dependents cur of None \<Rightarrow> [] | Some l \<Rightarrow> l);
               r = release nxts deg (butlast queue)
           in kahn dependents (fst r) (snd r) (visited + 1))"
  by pat_completeness auto
termination
proof (relation "measure (\<lambda>(dependents, deg, queue, visited). length queue + open_count deg)", goal_cases)
  case (2 dependents deg queue visited cur nxts r)
  have "length (snd r) + open_count (fst r) \<le> length (butlast queue) + open_count deg"
    using release_measure [of nxts deg "butlast queue"] unfolding 2(4) .
  moreover have "length (butlast queue) < length queue"
    using 2 by (cases queue rule: rev_cases) auto
  ultimately show ?case by simp
qed simp

declare kahn.simps [simp del]

definition validate_no_cycles :: "tasks \<Rightarrow> wf_error + unit" where
  "validate_no_cycles ts =
     (case check_deps (dkeys ts) (dvals ts) of
        Inl e \<Rightarrow> Inl e
      | Inr _ \<Rightarrow>
          (let g = build_graph ts;
               queue = map fst (filter (\<lambda>p. snd p = 0) (snd g));
               visited = kahn (fst g) (snd g) queue 0
           in if visited \<noteq> length ts then Inl (CycleDetected (int (length ts) - int visited))
              else Inr ()))"

section \<open>Creation\<close>

text \<open>
  \<open>new_id i\<close> is the identifier drawn for the \<open>i\<close>-th specification. A name that occurs
  twice keeps only the node of its last occurrence, as \<open>name_to_node\<close> does. Every name of a
  specification is a key of \<open>name_to_node\<close>, so the first \<open>None\<close> branch of \<open>build_tasks\<close>
  is never taken (lemma \<open>name_nodes_keys\<close> of the next theory).
\<close>

definition new_node :: "real \<Rightarrow> string \<Rightarrow> task_spec \<Rightarrow> task_node" where
  "new_node now tid s =
     \<lparr>tn_name = ts_name s, tn_agent_id = ts_agent_id s, tn_depends_on = [],
      tn_max_retries = ts_max_retries s, tn_payload = ts_payload s, tn_task_id = tid,
      tn_state = PENDING, tn_retry_count = 0, tn_result = PNone, tn_error = None,
      tn_created_at = now, tn_started_at = None, tn_completed_at = None\<rparr>"

fun name_nodes :: "real \<Rightarrow> (nat \<Rightarrow> string) \<Rightarrow> nat \<Rightarrow> task_spec list \<Rightarrow> (string, task_node) dict
    \<Rightarrow> (string, task_node) dict" where
  "name_nodes now new_id i [] m = m"
| "name_nodes now new_id i (s # ss) m =
     name_nodes now new_id (Suc i) ss (dset (ts_name s) (new_node now (new_id i) s) m)"

fun resolve_deps :: "(string, task_node) dict \<Rightarrow> string \<Rightarrow> string list \<Rightarrow> string list \<Rightarrow> wf_error + string list" where
  "resolve_deps m tid [] acc = Inr acc"
| "resolve_deps m tid (d # ds) acc =
     (case dget m d of
        None \<Rightarrow> Inl (InvalidDependency tid d)
      | Some n \<Rightarrow> resolve_deps m tid ds (if tn_task_id n \<in> set acc then acc else acc @ [tn_task_id n]))"

fun build_tasks :: "(string, task_node) dict \<Rightarrow> task_spec list \<Rightarrow> tasks \<Rightarrow> wf_error + tasks" where
  "build_tasks m [] ts = Inr ts"
| "build_tasks m (s # ss) ts =
     (case dget m (ts_name s) of
        None \<Rightarrow> build_tasks m ss ts
      | Some n \<Rightarrow>
          (case resolve_deps m (tn_task_id n) (ts_depends_on s) [] of
             Inl e \<Rightarrow> Inl e
           | Inr deps \<Rightarrow> build_tasks m ss (dset (tn_task_id n) (n\<lparr>tn_depends_on := deps\<rparr>) ts)))"

definition create_workflow ::
    "real \<Rightarrow> (nat \<Rightarrow> string) \<Rightarrow> string \<Rightarrow> string \<Rightarrow> task_spec list \<Rightarrow> wf_error + workflow" where
  "create_workflow now new_id wid name specs =
     (case build_tasks (name_nodes now new_id 0 specs []) specs [] of
        Inl e \<Rightarrow> Inl e
      | Inr ts \<Rightarrow>
          (case validate_no_cycles ts of
             Inl e \<Rightarrow> Inl e
           | Inr _ \<Rightarrow> Inr \<lparr>wf_id = wid, wf_name = name, wf_tasks = ts, wf_created_at = now\<rparr>))"

section \<open>Operations on a task\<close>

definition get_task :: "workflow \<Rightarrow> string \<Rightarrow> wf_error + task_node" where
  "get_task w tid =
     (case dget (wf_tasks w) tid of None \<Rightarrow> Inl (TaskNotFound tid) | Some n \<Rightarrow> Inr n)"

definition tstate :: "tasks \<Rightarrow> string \<Rightarrow> task_state option" where
  "tstate ts k = map_option tn_state (dget ts k)"

definition ready_tasks :: "workflow \<Rightarrow> task_node list" where
  "ready_tasks w =
     filter (\<lambda>n. tn_state n = PENDING \<and>
                 (\<forall>d\<in>set (tn_depends_on n). tstate (wf_tasks w) d = Some COMPLETED))
       (dvals (wf_tasks w))"

definition put_task :: "string \<Rightarrow> task_node \<Rightarrow> workflow \<Rightarrow> workflow" where
  "put_task tid n w = w\<lparr>wf_tasks := dmod tid (\<lambda>_. n) (wf_tasks w)\<rparr>"

definition mark_ready :: "workflow \<Rightarrow> string \<Rightarrow> (wf_error + task_node) \<times> workflow" where
  "mark_ready w tid =
     (case get_task w tid of
        Inl e \<Rightarrow> (Inl e, w)
      | Inr n \<Rightarrow>
          (case transition_to READY n of
             Inl e \<Rightarrow> (Inl e, w)
           | Inr n' \<Rightarrow> (Inr n', put_task tid n' w)))"

definition start_task :: "real \<Rightarrow> workflow \<Rightarrow> string \<Rightarrow> (wf_error + task_node) \<times> workflow" where
  "start_task now w tid =
     (case get_task w tid of
        Inl e \<Rightarrow> (Inl e, w)
      | Inr n \<Rightarrow>
          (case transition_to RUNNING n of
             Inl e \<Rightarrow> (Inl e, w)
           | Inr n' \<Rightarrow>
               (let n'' = n'\<lparr>tn_started_at := Some now\<rparr> in (Inr n'', put_task tid n'' w))))"

definition complete_task ::
    "real \<Rightarrow> workflow \<Rightarrow> string \<Rightarrow> pyval \<Rightarrow> (wf_error + task_node) \<times> workflow" where
  "complete_task now w tid res =
     (case get_task w tid of
        Inl e \<Rightarrow> (Inl e, w)
      | Inr n \<Rightarrow>
          (case transition_to COMPLETED n of
             Inl e \<Rightarrow> (Inl e, w)
           | Inr n' \<Rightarrow>
               (let n'' = n'\<lparr>tn_result := res, tn_completed_at := Some now\<rparr>
                in (Inr n'', put_task tid n'' w))))"

text \<open>One pass of the \<open>for\<close> loop of \<open>_cascade_cancel\<close>; the table changes during the pass.\<close>

definition terminal :: "task_state \<Rightarrow> bool" where
  "terminal s \<longleftrightarrow> s = COMPLETED \<or> s = FAILED \<or> s = CANCELLED"

definition depends_on_failed :: "tasks \<Rightarrow> task_node \<Rightarrow> bool" where
  "depends_on_failed ts n \<longleftrightarrow>
     (\<exists>d\<in>set (tn_depends_on n). tstate ts d = Some FAILED \<or> tstate ts d = Some CANCELLED)"

fun cascade_pass :: "string list \<Rightarrow> tasks \<Rightarrow> (wf_error + task_node list) \<times> tasks" where
  "cascade_pass [] ts = (Inr [], ts)"
| "cascade_pass (k # ks) ts =
     (case dget ts k of
        None \<Rightarrow> cascade_pass ks ts
      | Some n \<Rightarrow>
          if terminal (tn_state n) \<or> \<not> depends_on_failed ts n then cascade_pass ks ts
          else (case transition_to CANCELLED n of
                  Inl e \<Rightarrow> (Inl e, ts)
                | Inr n' \<Rightarrow>
                    (let r = cascade_pass ks (dmod k (\<lambda>_. n') ts)
                     in (map_sum id (\<lambda>cs. n' # cs) (fst r), snd r))))"

abbreviation live_count :: "tasks \<Rightarrow> nat" where
  "live_count ts \<equiv> length (filter (\<lambda>p. \<not> terminal (tn_state (snd p))) ts)"

lemma live_count_cancel_le:
  "terminal (tn_state n') \<Longrightarrow> live_count (dmod k (\<lambda>_. n') ts) \<le> live_count ts"
  by (induction ts) auto

lemma live_count_cancel:
  "dget ts k = Some n \<Longrightarrow> \<not> terminal (tn_state n) \<Longrightarrow> terminal (tn_state n') \<Longrightarrow>
     live_count (dmod k (\<lambda>_. n') ts) < live_count ts"
proof (induction ts)
  case (Cons p ts)
  then show ?case
    using live_count_cancel_le [of n' k ts] by (cases "fst p = k") auto
qed simp

lemma transition_to_state: "transition_to s n = Inr n' \<Longrightarrow> n' = n\<lparr>tn_state := s\<rparr>"
  by (auto simp: transition_to_def split: if_splits)

lemma cascade_pass_live:
  "live_count (snd (cascade_pass ks ts)) \<le> live_count ts \<and>
   (\<forall>c cs. fst (cascade_pass ks ts) = Inr (c # cs) \<longrightarrow> live_count (snd (cascade_pass ks ts)) < live_count ts)"
proof (induction ks arbitrary: ts)
  case (Cons k ks)
  show ?case
  proof (cases "dget ts k")
    case None
    then show ?thesis using Cons by simp
  next
    case (Some n)
    show ?thesis
    proof (cases "terminal (tn_state n) \<or> \<not> depends_on_failed ts n")
      case True
      then show ?thesis using Some Cons by simp
    next
      case False
      show ?thesis
      proof (cases "transition_to CANCELLED n")
        case (Inl e)
        then show ?thesis using Some False by simp
      next
        case (Inr n')
        then have "terminal (tn_state n')"
          by (auto dest: transition_to_state simp: terminal_def)
        then have "live_count (dmod k (\<lambda>_. n') ts) < live_count ts"
          using live_count_cancel Some False by blast
        then show ?thesis
          using Some False Inr Cons.IH [of "dmod k (\<lambda>_. n') ts"] by (auto simp: Let_def)
      qed
    qed
  qed
qed simp

text \<open>The \<open>while changed\<close> loop: another pass as long as the last one has cancelled a task.\<close>

function cascade_cancel :: "tasks \<Rightarrow> (wf_error + task_node list) \<times> tasks" where
  "cascade_cancel ts =
     (let r = cascade_pass (dkeys ts) ts
      in case fst r of
           Inl e \<Rightarrow> r
         | Inr [] \<Rightarrow> r
         | Inr (c # cs) \<Rightarrow>
             (let r' = cascade_cancel (snd r)
              in (map_sum id (\<lambda>cs'. (c # cs) @ cs') (fst r'), snd r')))"
  by pat_completeness auto
termination
  by (relation "measure live_count") (auto simp: cascade_pass_live)

declare cascade_cancel.simps [simp del]

text \<open>
  \<open>fail_task\<close> writes the error and the retry counter before the transition is checked, so
  they are changed even where it raises \<open>InvalidTaskTransition\<close>.
\<close>

definition fail_task ::
    "workflow \<Rightarrow> string \<Rightarrow> string \<Rightarrow> (wf_error + task_node \<times> task_node list) \<times> workflow" where
  "fail_task w tid err =
     (case get_task w tid of
        Inl e \<Rightarrow> (Inl e, w)
      | Inr n \<Rightarrow>
          (let n1 = n\<lparr>tn_error := Some err\<rparr>
           in if tn_retry_count n1 < tn_max_retries n1
              then (let n2 = n1\<lparr>tn_retry_count := tn_retry_count n1 + 1\<rparr>
                    in case transition_to PENDING n2 of
                         Inl e \<Rightarrow> (Inl e, put_task tid n2 w)
                       | Inr n3 \<Rightarrow> (Inr (n3, []), put_task tid n3 w))
              else (case transition_to FAILED n1 of
                      Inl e \<Rightarrow> (Inl e, put_task tid n1 w)
                    | Inr n2 \<Rightarrow>
                        (let r = cascade_cancel (dmod tid (\<lambda>_. n2) (wf_tasks w))
                         in (map_sum id (\<lambda>cs. (n2, cs)) (fst r), w\<lparr>wf_tasks := snd r\<rparr>)))))"

definition is_complete :: "workflow \<Rightarrow> bool" where
  "is_complete w \<longleftrightarrow> (\<forall>n\<in>set (dvals (wf_tasks w)). tn_state n = COMPLETED)"

definition has_permanent_failure :: "workflow \<Rightarrow> bool" where
  "has_permanent_failure w \<longleftrightarrow> (\<exists>n\<in>set (dvals (wf_tasks w)). tn_state n = FAILED)"

end
