(* ===== verification/Workflow_Graph.thy ===== *)
theory Workflow_Graph
  imports Workflow
begin

text \<open>
  The correctness of \<open>_validate_no_cycles\<close>: the dependency relation of a task table, the
  graph the code builds from it, the invariant of the topological sort, and the theorem that
  a table whose dependencies exist is accepted exactly when the relation is acyclic.
\<close>

section \<open>The dependency relation and the graph built from it\<close>

definition keyed :: "tasks \<Rightarrow> bool" where
  "keyed ts \<longleftrightarrow> (\<forall>(k, n)\<in>set ts. tn_task_id n = k)"

definition edges_of :: "task_node list \<Rightarrow> (string \<times> string) list" where
  "edges_of ns = concat (map (\<lambda>n. map (\<lambda>d. (d, tn_task_id n)) (tn_depends_on n)) ns)"

text \<open>\<open>(d, t)\<close> is in the relation when task \<open>t\<close> depends on task \<open>d\<close>.\<close>

definition dep_rel :: "tasks \<Rightarrow> (string \<times> string) set" where
  "dep_rel ts = {(d, t). \<exists>n. (t, n) \<in> set ts \<and> d \<in> set (tn_depends_on n)}"

definition deps_exist :: "tasks \<Rightarrow> bool" where
  "deps_exist ts \<longleftrightarrow> (\<forall>n\<in>set (dvals ts). set (tn_depends_on n) \<subseteq> set (dkeys ts))"

lemma edges_of_Cons [simp]:
  "edges_of (n # ns) = map (\<lambda>d. (d, tn_task_id n)) (tn_depends_on n) @ edges_of ns"
  by (simp add: edges_of_def)

lemma edges_of_Nil [simp]: "edges_of [] = []"
  by (simp add: edges_of_def)

lemma set_edges_of: "keyed ts \<Longrightarrow> set (edges_of (dvals ts)) = dep_rel ts"
proof -
  assume k: "keyed ts"
  have "set (edges_of (dvals ts)) = (\<Union>(k, n)\<in>set ts. (\<lambda>d. (d, tn_task_id n)) ` set (tn_depends_on n))"
    by (simp add: edges_of_def image_image case_prod_unfold)
  also have "\<dots> = (\<Union>(k, n)\<in>set ts. (\<lambda>d. (d, k)) ` set (tn_depends_on n))"
    using k by (intro SUP_cong) (auto simp: keyed_def)
  also have "\<dots> = dep_rel ts"
    by (auto simp: dep_rel_def)
  finally show ?thesis .
qed

lemma check_deps_ok:
  "check_deps ks ns = Inr () \<longleftrightarrow> (\<forall>n\<in>set ns. set (tn_depends_on n) \<subseteq> set ks)"
proof (induction ns)
  case (Cons n ns)
  show ?case
  proof (cases "find (\<lambda>d. d \<notin> set ks) (tn_depends_on n)")
    case None
    then have "set (tn_depends_on n) \<subseteq> set ks" by (auto simp: find_None_iff)
    then show ?thesis using Cons None by simp
  next
    case (Some d)
    then have "d \<in> set (tn_depends_on n)" "d \<notin> set ks"
      by (metis find_Some_iff nth_mem)+
    then show ?thesis using Some by auto
  qed
qed simp

lemma check_deps_not_cycle: "check_deps ks ns \<noteq> Inl (CycleDetected k)"
  by (induction ns) (auto split: option.splits)

lemma fold_add_edge:
  "fold (add_edge t) ds g =
     fold (\<lambda>e g. (dmod (fst e) (\<lambda>l. l @ [snd e]) (fst g), dmod (snd e) (\<lambda>k. k + 1) (snd g)))
       (map (\<lambda>d. (d, t)) ds) g"
  by (induction ds arbitrary: g) (auto simp: add_edge_def)

lemma build_graph_fold:
  "fold (\<lambda>n. fold (add_edge (tn_task_id n)) (tn_depends_on n)) ns g =
     fold (\<lambda>e g. (dmod (fst e) (\<lambda>l. l @ [snd e]) (fst g), dmod (snd e) (\<lambda>k. k + 1) (snd g)))
       (edges_of ns) g"
  by (induction ns arbitrary: g) (auto simp: fold_add_edge)

lemma fold_edges:
  fixes g :: "(string, string list) dict \<times> (string, int) dict"
  defines "r \<equiv> \<lambda>es g. fold (\<lambda>e g. (dmod (fst e) (\<lambda>l. l @ [snd e]) (fst g),
                dmod (snd e) (\<lambda>k. k + (1::int)) (snd g))) es g"
  shows "dkeys (fst (r es g)) = dkeys (fst g) \<and> dkeys (snd (r es g)) = dkeys (snd g) \<and>
    dget (fst (r es g)) d = map_option (\<lambda>l. l @ map snd (filter (\<lambda>e. fst e = d) es)) (dget (fst g) d) \<and>
    dget (snd (r es g)) t =
      map_option (\<lambda>k. k + int (length (filter (\<lambda>e. snd e = t) es))) (dget (snd g) t)"
proof (induction es arbitrary: g)
  case Nil
  show ?case by (simp add: r_def option.map_ident)
next
  case (Cons e es)
  show ?case
    using Cons.IH [of "(dmod (fst e) (\<lambda>l. l @ [snd e]) (fst g), dmod (snd e) (\<lambda>k. k + 1) (snd g))"]
    by (simp add: r_def dget_dmod option.map_comp comp_def add.assoc add.commute)
qed

lemma build_graph_spec:
  assumes "k \<in> set (dkeys ts)"
  shows "dget (fst (build_graph ts)) k = Some (map snd (filter (\<lambda>e. fst e = k) (edges_of (dvals ts))))"
    and "dget (snd (build_graph ts)) k = Some (int (length (filter (\<lambda>e. snd e = k) (edges_of (dvals ts)))))"
proof -
  have init: "dget (map (\<lambda>k. (k, c)) ks) k = (if k \<in> set ks then Some c else None)" for ks and c :: 'b
    by (induction ks) auto
  note F = fold_edges [of "edges_of (dvals ts)"
      "(map (\<lambda>k. (k, [])) (dkeys ts), map (\<lambda>k. (k, 0)) (dkeys ts))" k k]
  show "dget (fst (build_graph ts)) k = Some (map snd (filter (\<lambda>e. fst e = k) (edges_of (dvals ts))))"
    using F assms init [of "[]" "dkeys ts"] by (simp add: build_graph_def build_graph_fold)
  show "dget (snd (build_graph ts)) k = Some (int (length (filter (\<lambda>e. snd e = k) (edges_of (dvals ts)))))"
    using F assms init [of "0::int" "dkeys ts"] by (simp add: build_graph_def build_graph_fold)
qed

lemma build_graph_keys: "dkeys (snd (build_graph ts)) = dkeys ts"
  using fold_edges [of "edges_of (dvals ts)"
      "(map (\<lambda>k. (k, [])) (dkeys ts), map (\<lambda>k. (k, 0)) (dkeys ts))"]
  by (simp add: build_graph_def build_graph_fold comp_def)

section \<open>The inner loop\<close>

lemma release_spec:
  assumes "distinct q" and "\<forall>t\<in>set ns. t \<notin> set q"
    and "\<forall>t\<in>set ns. \<exists>k. dget deg t = Some k \<and> int (count_list ns t) \<le> k"
    and "release ns deg q = (deg', q')"
  shows "dkeys deg' = dkeys deg
    \<and> (\<forall>t. dget deg' t = map_option (\<lambda>k. k - int (count_list ns t)) (dget deg t))
    \<and> distinct q'
    \<and> set q' = set q \<union> {t \<in> set ns. dget deg t = Some (int (count_list ns t))}"
  using assms
proof (induction ns arbitrary: deg q)
  case Nil
  then show ?case by (simp add: option.map_ident)
next
  case (Cons n ns)
  let ?d = "dmod n (\<lambda>k. k - 1) deg"
  let ?q = "if dget ?d n = Some 0 then q @ [n] else q"
  have n: "n \<notin> set ns" if "dget ?d n = Some 0"
  proof
    assume "n \<in> set ns"
    then have "1 \<le> count_list ns n"
      by (metis count_list_0_iff less_one not_less)
    then show False using that Cons.prems(3) by (auto simp: dget_dmod)
  qed
  have p1: "distinct ?q" using Cons.prems by auto
  have p2: "\<forall>t\<in>set ns. t \<notin> set ?q" using Cons.prems n by auto
  have p3: "\<forall>t\<in>set ns. \<exists>k. dget ?d t = Some k \<and> int (count_list ns t) \<le> k"
  proof
    fix t assume "t \<in> set ns"
    then obtain k where "dget deg t = Some k" "int (count_list (n # ns) t) \<le> k"
      using Cons.prems(3) by (metis list.set_intros(2))
    then show "\<exists>k. dget ?d t = Some k \<and> int (count_list ns t) \<le> k"
      by (cases "t = n") (simp_all add: dget_dmod)
  qed
  have p4: "release ns ?d ?q = (deg', q')" using Cons.prems(4) by (simp add: Let_def)
  note IH = Cons.IH [OF p1 p2 p3 p4]
  have deg: "dget deg' t = map_option (\<lambda>k. k - int (count_list (n # ns) t)) (dget deg t)" for t
    using IH by (cases "dget deg t") (auto simp: dget_dmod)
  have "{t \<in> set (n # ns). dget deg t = Some (int (count_list (n # ns) t))} =
      (if dget ?d n = Some 0 then {n} else {}) \<union> {t \<in> set ns. dget ?d t = Some (int (count_list ns t))}"
  proof (intro set_eqI)
    fix t
    consider "t \<noteq> n" | "t = n" "n \<in> set ns" | "t = n" "n \<notin> set ns" by blast
    then show "t \<in> {t \<in> set (n # ns). dget deg t = Some (int (count_list (n # ns) t))} \<longleftrightarrow>
      t \<in> (if dget ?d n = Some 0 then {n} else {}) \<union> {t \<in> set ns. dget ?d t = Some (int (count_list ns t))}"
    proof cases
      case 1 then show ?thesis by (simp add: dget_dmod)
    next
      case 2 then show ?thesis using n by (cases "dget deg n") (auto simp: dget_dmod)
    next
      case 3
      then have "count_list ns n = 0" by (simp add: count_list_0_iff)
      then show ?thesis using 3 by (cases "dget deg n") (auto simp: dget_dmod)
    qed
  qed
  then show ?case using IH deg by (auto split: if_splits)
qed

section \<open>The outer loop\<close>

text \<open>
  The state of the sort over a list \<open>E\<close> of edges with nodes \<open>K\<close> when the nodes of \<open>V\<close> have
  been visited: a node's degree counts its dependencies that are not visited yet, the queue
  holds the unvisited nodes of degree zero, and the visited part of the graph is acyclic.
\<close>

definition pending :: "(string \<times> string) list \<Rightarrow> string set \<Rightarrow> string \<Rightarrow> nat" where
  "pending E V t = length (filter (\<lambda>e. snd e = t \<and> fst e \<notin> V) E)"

definition kahn_inv ::
    "string set \<Rightarrow> (string \<times> string) list \<Rightarrow> string set \<Rightarrow> (string, int) dict \<Rightarrow> string list \<Rightarrow> bool" where
  "kahn_inv K E V deg q \<longleftrightarrow>
     finite K \<and> V \<subseteq> K \<and> set q \<subseteq> K \<and> distinct q \<and> set q \<inter> V = {} \<and>
     (\<forall>t\<in>K. dget deg t = Some (int (pending E V t))) \<and>
     (\<forall>t\<in>K. pending E V t = 0 \<longleftrightarrow> t \<in> V \<union> set q) \<and>
     acyclic (set E \<inter> UNIV \<times> V)"

lemma pending_0: "pending E V t = 0 \<longleftrightarrow> (\<forall>d. (d, t) \<in> set E \<longrightarrow> d \<in> V)"
  by (force simp: pending_def filter_empty_conv)

lemma pending_insert:
  "c \<notin> V \<Longrightarrow> pending E V t = pending E (insert c V) t + count_list (map snd (filter (\<lambda>e. fst e = c) E)) t"
  by (induction E) (auto simp: pending_def)

lemma acyclic_add_sink:
  assumes "acyclic (R \<inter> UNIV \<times> V)" and "\<And>d v. v \<in> insert c V \<Longrightarrow> (d, v) \<in> R \<Longrightarrow> d \<in> V" and "c \<notin> V"
  shows "acyclic (R \<inter> UNIV \<times> insert c V)"
proof -
  let ?S = "R \<inter> UNIV \<times> insert c V"
  have dom: "x \<in> V" if "(x, y) \<in> ?S" for x y
    using that assms(2) by blast
  have up: "(x, y) \<in> (R \<inter> UNIV \<times> V)\<^sup>+ \<and> x \<in> V" if "(x, y) \<in> ?S\<^sup>+" and "y \<in> V" for x y
    using that
  proof (induction rule: converse_trancl_induct)
    case (base x)
    then show ?case using dom by auto
  next
    case (step x z)
    then have "z \<in> V" "(z, y) \<in> (R \<inter> UNIV \<times> V)\<^sup>+" by auto
    moreover have "(x, z) \<in> R \<inter> UNIV \<times> V" using step(1) \<open>z \<in> V\<close> by auto
    ultimately show ?case using dom step(1) by (auto intro: trancl_into_trancl2)
  qed
  show ?thesis
    unfolding acyclic_def
  proof (intro allI notI)
    fix x assume c: "(x, x) \<in> ?S\<^sup>+"
    then obtain z where "(x, z) \<in> ?S" by (meson tranclD)
    then have "x \<in> V" by (rule dom)
    with up [OF c] assms(1) show False by (auto simp: acyclic_def)
  qed
qed

lemma kahn_step:
  assumes inv: "kahn_inv K E V deg q" and ne: "q \<noteq> []" and sub: "fst ` set E \<subseteq> K" "snd ` set E \<subseteq> K"
    and rel: "release (map snd (filter (\<lambda>e. fst e = last q) E)) deg (butlast q) = (deg', q')"
  shows "kahn_inv K E (insert (last q) V) deg' q'"
proof -
  let ?c = "last q"
  let ?L = "map snd (filter (\<lambda>e. fst e = ?c) E)"
  have c: "?c \<in> set q" "?c \<notin> V" "?c \<in> K" and q: "set q = insert ?c (set (butlast q))" "?c \<notin> set (butlast q)"
    "distinct (butlast q)"
  proof -
    have "q = butlast q @ [?c]" using ne by simp
    then have "set q = set (butlast q @ [?c])" and d: "distinct (butlast q @ [?c])"
      using inv by (metis, metis kahn_inv_def)
    then show "set q = insert ?c (set (butlast q))" "?c \<notin> set (butlast q)" "distinct (butlast q)"
      by (auto simp: distinct_append)
    then show "?c \<in> set q" "?c \<notin> V" "?c \<in> K" using inv by (auto simp: kahn_inv_def)
  qed
  have pend: "pending E V t = pending E (insert ?c V) t + count_list ?L t" for t
    using pending_insert [OF c(2)] .
  have LK: "t \<in> K" if "t \<in> set ?L" for t using that sub by force
  have notq: "t \<notin> set q \<and> t \<notin> V" if "t \<in> set ?L" for t
  proof -
    have "0 < count_list ?L t" using that by (metis count_list_0_iff gr0I)
    then have "pending E V t \<noteq> 0" using pend [of t] by simp
    then show ?thesis using inv LK [OF that] by (auto simp: kahn_inv_def)
  qed
  have a1: "\<forall>t\<in>set ?L. t \<notin> set (butlast q)" using notq q(1) by blast
  have a2: "\<forall>t\<in>set ?L. \<exists>k. dget deg t = Some k \<and> int (count_list ?L t) \<le> k"
    using inv LK pend by (fastforce simp: kahn_inv_def)
  note R = release_spec [OF q(3) a1 a2 rel]
  have deg': "dget deg' t = Some (int (pending E (insert ?c V) t))" if "t \<in> K" for t
    using R inv that pend [of t] by (simp add: kahn_inv_def)
  have q': "set q' = set (butlast q) \<union> {t \<in> set ?L. pending E (insert ?c V) t = 0}"
    using R inv LK pend by (fastforce simp: kahn_inv_def)
  have zero: "pending E (insert ?c V) t = 0 \<longleftrightarrow> t \<in> insert ?c V \<union> set q'" if "t \<in> K" for t
  proof (cases "t \<in> set ?L")
    case True
    then show ?thesis using q' notq [OF True] c(1) q(1) by auto
  next
    case False
    then have "count_list ?L t = 0" by (simp add: count_list_0_iff)
    then have "pending E (insert ?c V) t = pending E V t" using pend [of t] by simp
    then show ?thesis using inv that False q' q(1) by (auto simp: kahn_inv_def)
  qed
  have ac: "acyclic (set E \<inter> UNIV \<times> insert ?c V)"
  proof (rule acyclic_add_sink)
    show "acyclic (set E \<inter> UNIV \<times> V)" using inv by (simp add: kahn_inv_def)
    show "?c \<notin> V" by (rule c(2))
    fix d v assume "v \<in> insert ?c V" "(d, v) \<in> set E"
    moreover from this have "pending E V v = 0" using inv c(1) by (auto simp: kahn_inv_def)
    ultimately show "d \<in> V" by (auto simp: pending_0)
  qed
  have q'K: "set q' \<subseteq> K"
  proof -
    have "set (butlast q) \<subseteq> K" using q inv by (auto simp: kahn_inv_def)
    then show ?thesis unfolding q' using LK by blast
  qed
  have q'V: "set q' \<inter> insert ?c V = {}"
  proof -
    have "set (butlast q) \<inter> insert ?c V = {}" using q inv by (auto simp: kahn_inv_def)
    moreover have "set ?L \<inter> insert ?c V = {}" using notq c(1) by blast
    ultimately show ?thesis unfolding q' by blast
  qed
  have K: "finite K" "insert ?c V \<subseteq> K" using inv c(3) by (auto simp: kahn_inv_def)
  have d: "distinct q'" using R by blast
  show ?thesis
    unfolding kahn_inv_def
    by (intro conjI ballI K q'K d q'V ac deg' zero)
qed

lemma kahn_result:
  assumes "kahn_inv K E V deg q" and "fst ` set E \<subseteq> K" "snd ` set E \<subseteq> K"
    and "\<And>k. k \<in> K \<Longrightarrow> dget dependents k = Some (map snd (filter (\<lambda>e. fst e = k) E))"
    and "n = card V"
  shows "\<exists>W deg'. kahn dependents deg q n = card W \<and> kahn_inv K E W deg' []"
  using assms
proof (induction dependents deg q n arbitrary: V rule: kahn.induct)
  case (1 dependents deg q n)
  show ?case
  proof (cases "q = []")
    case True
    then have "kahn dependents deg q n = card V \<and> kahn_inv K E V deg []"
      using "1.prems" by (simp add: kahn.simps [of dependents deg "[]"])
    then show ?thesis by blast
  next
    case False
    let ?L = "map snd (filter (\<lambda>e. fst e = last q) E)"
    obtain d' q' where rel: "release ?L deg (butlast q) = (d', q')" by fastforce
    have lastq: "last q \<in> K" "last q \<notin> V" "finite V"
    proof -
      have p: "finite K" "V \<subseteq> K" "set q \<subseteq> K" "set q \<inter> V = {}"
        using "1.prems"(1) by (simp_all add: kahn_inv_def)
      show "last q \<in> K" "last q \<notin> V" using p last_in_set [OF False] by blast+
      show "finite V" using p by (blast intro: finite_subset)
    qed
    have L: "(case dget dependents (last q) of None \<Rightarrow> [] | Some l \<Rightarrow> l) = ?L"
      using "1.prems"(4) [OF lastq(1)] by simp
    have inv': "kahn_inv K E (insert (last q) V) d' q'"
      using kahn_step "1.prems"(1-3) False rel by blast
    have "kahn dependents deg q n = kahn dependents d' q' (n + 1)"
      using False rel L by (simp add: kahn.simps [of dependents deg q n] Let_def)
    moreover have "\<exists>W deg'. kahn dependents d' q' (n + 1) = card W \<and> kahn_inv K E W deg' []"
      using "1.IH" [OF False refl refl refl, unfolded L rel fst_conv snd_conv, OF inv' "1.prems"(2-4)]
        "1.prems"(5) lastq by simp
    ultimately show ?thesis by simp
  qed
qed

section \<open>Acceptance and rejection\<close>

lemma kahn_initial:
  assumes "dwf ts" "keyed ts" "deps_exist ts"
  defines "E \<equiv> edges_of (dvals ts)"
  shows "kahn_inv (set (dkeys ts)) E {} (snd (build_graph ts))
     (map fst (filter (\<lambda>p. snd p = 0) (snd (build_graph ts))))"
proof -
  let ?deg = "snd (build_graph ts)"
  have deg: "dget ?deg t = Some (int (pending E {} t))" if "t \<in> set (dkeys ts)" for t
    using build_graph_spec(2) [OF that] by (simp add: pending_def E_def)
  have d: "dwf ?deg" and k: "dkeys ?deg = dkeys ts"
    using assms(1) by (simp_all add: build_graph_keys)
  have q: "t \<in> set (map fst (filter (\<lambda>p. snd p = 0) ?deg)) \<longleftrightarrow> dget ?deg t = Some 0" for t
    using d by (force simp: map_of_eq_Some_iff)
  have "set (map fst (filter (\<lambda>p. snd p = 0) ?deg)) \<subseteq> set (dkeys ts)"
    using k by (metis (no_types, lifting) image_mono list.set_map filter_is_subset)
  moreover have "distinct (map fst (filter (\<lambda>p. snd p = 0) ?deg))"
    using d by (rule dwf_filter)
  ultimately show ?thesis
    using deg q by (auto simp: kahn_inv_def acyclic_def)
qed

lemma kahn_accepts_acyclic:
  assumes "dwf ts" "keyed ts" "deps_exist ts"
  shows "\<exists>W. kahn (fst (build_graph ts)) (snd (build_graph ts))
        (map fst (filter (\<lambda>p. snd p = 0) (snd (build_graph ts)))) 0 = card W \<and>
       W \<subseteq> set (dkeys ts) \<and> (card W = length ts \<longleftrightarrow> acyclic (dep_rel ts))"
proof -
  let ?E = "edges_of (dvals ts)" and ?K = "set (dkeys ts)"
  have E: "set ?E = dep_rel ts" using set_edges_of [OF assms(2)] .
  have sub: "fst ` set ?E \<subseteq> ?K" "snd ` set ?E \<subseteq> ?K"
    using assms(3) by (force simp: E dep_rel_def deps_exist_def)+
  obtain W deg where W: "kahn (fst (build_graph ts)) (snd (build_graph ts))
        (map fst (filter (\<lambda>p. snd p = 0) (snd (build_graph ts)))) 0 = card W"
      and inv: "kahn_inv ?K ?E W deg []"
    using kahn_result [OF kahn_initial [OF assms] sub build_graph_spec(1)] by fastforce
  have cardK: "card ?K = length ts"
    using assms(1) by (metis distinct_card length_map)
  have "acyclic (dep_rel ts)" if "card W = length ts"
  proof -
    have "W = ?K" using that inv cardK
      by (simp add: kahn_inv_def card_subset_eq)
    moreover have "dep_rel ts \<subseteq> UNIV \<times> ?K" using sub(2) E by force
    ultimately have "set ?E \<inter> UNIV \<times> W = dep_rel ts" using E by auto
    then show ?thesis using inv by (simp add: kahn_inv_def)
  qed
  moreover have "card W = length ts" if ac: "acyclic (dep_rel ts)"
  proof (rule ccontr)
    assume "card W \<noteq> length ts"
    then have "?K - W \<noteq> {}" using inv cardK by (auto simp: kahn_inv_def)
    moreover have "wf (dep_rel ts)"
      using ac E by (metis List.finite_set finite_acyclic_wf)
    ultimately obtain z where z: "z \<in> ?K - W" and min: "\<And>y. (y, z) \<in> dep_rel ts \<Longrightarrow> y \<notin> ?K - W"
      by (metis ex_in_conv wfE_min)
    then have "pending ?E W z \<noteq> 0" using inv by (auto simp: kahn_inv_def)
    then obtain d where "(d, z) \<in> dep_rel ts" "d \<notin> W" by (auto simp: pending_0 E)
    then show False using min sub(1) E by force
  qed
  ultimately show ?thesis using W inv by (auto simp: kahn_inv_def)
qed

theorem validate_spec:
  assumes "dwf ts" "keyed ts"
  shows "validate_no_cycles ts = Inr () \<longleftrightarrow> deps_exist ts \<and> acyclic (dep_rel ts)"
    and "(\<exists>k. validate_no_cycles ts = Inl (CycleDetected k)) \<longleftrightarrow> deps_exist ts \<and> \<not> acyclic (dep_rel ts)"
    and "validate_no_cycles ts = Inl (CycleDetected k) \<Longrightarrow> 0 < k \<and> k \<le> int (length ts)"
proof -
  have ok: "check_deps (dkeys ts) (dvals ts) = Inr () \<longleftrightarrow> deps_exist ts"
    by (simp add: check_deps_ok deps_exist_def)
  have cardK: "card (set (dkeys ts)) = length ts"
    using assms(1) by (metis distinct_card length_map)
  let ?v = "kahn (fst (build_graph ts)) (snd (build_graph ts))
        (map fst (filter (\<lambda>p. snd p = 0) (snd (build_graph ts)))) 0"
  have v: "validate_no_cycles ts = (if ?v \<noteq> length ts
      then Inl (CycleDetected (int (length ts) - int ?v)) else Inr ())" if "deps_exist ts"
    using that ok by (simp add: validate_no_cycles_def Let_def)
  have le: "?v \<le> length ts \<and> (?v = length ts \<longleftrightarrow> acyclic (dep_rel ts))" if "deps_exist ts"
    using kahn_accepts_acyclic [OF assms that] cardK by (metis List.finite_set card_mono)
  have err: "\<exists>e. validate_no_cycles ts = Inl e \<and> (\<forall>k. e \<noteq> CycleDetected k)" if "\<not> deps_exist ts"
  proof (cases "check_deps (dkeys ts) (dvals ts)")
    case (Inl e)
    then show ?thesis using check_deps_not_cycle [of "dkeys ts" "dvals ts"]
      by (auto simp: validate_no_cycles_def)
  next
    case (Inr u)
    then show ?thesis using that ok by simp
  qed
  show "validate_no_cycles ts = Inr () \<longleftrightarrow> deps_exist ts \<and> acyclic (dep_rel ts)"
    using v le err by (cases "deps_exist ts") force+
  show "(\<exists>k. validate_no_cycles ts = Inl (CycleDetected k)) \<longleftrightarrow> deps_exist ts \<and> \<not> acyclic (dep_rel ts)"
    using v le err by (cases "deps_exist ts") force+
  show "0 < k \<and> k \<le> int (length ts)" if "validate_no_cycles ts = Inl (CycleDetected k)"
    using that v le err by (cases "deps_exist ts") (force split: if_splits)+
qed

end
