(* ===== verification/Workflow_Life.thy ===== *)
theory Workflow_Life
  imports Workflow_Graph
begin

text \<open>
  The life cycle of the tasks of a workflow: the invariant of its state (a task that has left
  \<open>PENDING\<close> towards execution has only completed dependencies; a task is cancelled exactly when
  a dependency has failed or been cancelled; the retry counter stays within its bound), its
  preservation by every operation on every branch, and the effect of the cascade.
\<close>

section \<open>Views of a task table\<close>

definition tdeps :: "tasks \<Rightarrow> string \<Rightarrow> string list" where
  "tdeps ts k = (case dget ts k of None \<Rightarrow> [] | Some n \<Rightarrow> tn_depends_on n)"

lemma dep_rel_tdeps: "dwf ts \<Longrightarrow> (d, t) \<in> dep_rel ts \<longleftrightarrow> d \<in> set (tdeps ts t)"
proof -
  assume "dwf ts"
  then have "(d, t) \<in> dep_rel ts \<longleftrightarrow> (\<exists>n. dget ts t = Some n \<and> d \<in> set (tn_depends_on n))"
    by (simp only: dep_rel_def mem_Collect_eq case_prod_conv dget_iff_in_set)
  then show ?thesis by (cases "dget ts t") (simp_all add: tdeps_def)
qed

definition graph_inv :: "tasks \<Rightarrow> bool" where
  "graph_inv ts \<longleftrightarrow> dwf ts \<and> keyed ts \<and> deps_exist ts \<and> acyclic (dep_rel ts)"

definition progressed :: "task_state option \<Rightarrow> bool" where
  "progressed s \<longleftrightarrow> s = Some READY \<or> s = Some RUNNING \<or> s = Some COMPLETED \<or> s = Some FAILED"

definition dead :: "task_state option \<Rightarrow> bool" where
  "dead s \<longleftrightarrow> s = Some FAILED \<or> s = Some CANCELLED"

definition state_inv :: "tasks \<Rightarrow> bool" where
  "state_inv ts \<longleftrightarrow>
     (\<forall>t. progressed (tstate ts t) \<longrightarrow> (\<forall>d\<in>set (tdeps ts t). tstate ts d = Some COMPLETED)) \<and>
     (\<forall>t. tstate ts t = Some CANCELLED \<longleftrightarrow> (\<exists>d\<in>set (tdeps ts t). dead (tstate ts d)))"

definition retry_ok :: "task_node \<Rightarrow> bool" where
  "retry_ok n \<longleftrightarrow> 0 \<le> tn_retry_count n \<and> tn_retry_count n \<le> max 0 (tn_max_retries n) \<and>
     (tn_state n = FAILED \<longrightarrow> tn_max_retries n \<le> tn_retry_count n)"

definition life_inv :: "tasks \<Rightarrow> bool" where
  "life_inv ts \<longleftrightarrow> graph_inv ts \<and> state_inv ts \<and> (\<forall>n\<in>set (dvals ts). retry_ok n)"

text \<open>What every operation leaves alone in a node.\<close>

definition same_shape :: "task_node \<Rightarrow> task_node \<Rightarrow> bool" where
  "same_shape n n' \<longleftrightarrow> tn_task_id n' = tn_task_id n \<and> tn_depends_on n' = tn_depends_on n \<and>
     tn_max_retries n' = tn_max_retries n"

lemma tstate_dmod:
  "tstate (dmod k (\<lambda>_. n) ts) t = (if t = k \<and> dget ts k \<noteq> None then Some (tn_state n) else tstate ts t)"
  by (auto simp: tstate_def dget_dmod)

lemma tdeps_dmod:
  "dget ts k = Some n \<Longrightarrow> same_shape n n' \<Longrightarrow> tdeps (dmod k (\<lambda>_. n') ts) = tdeps ts"
  by (auto simp: tdeps_def dget_dmod same_shape_def)

lemma dep_rel_dmod:
  assumes "dwf ts" "dget ts k = Some n" "same_shape n n'"
  shows "dep_rel (dmod k (\<lambda>_. n') ts) = dep_rel ts"
proof (intro set_eqI)
  fix p
  show "p \<in> dep_rel (dmod k (\<lambda>_. n') ts) \<longleftrightarrow> p \<in> dep_rel ts"
    using assms dep_rel_tdeps [of ts "fst p" "snd p"]
      dep_rel_tdeps [of "dmod k (\<lambda>_. n') ts" "fst p" "snd p"]
    by (simp add: tdeps_dmod)
qed

lemma deps_exist_tdeps:
  "dwf ts \<Longrightarrow> deps_exist ts \<longleftrightarrow> (\<forall>t. set (tdeps ts t) \<subseteq> set (dkeys ts))"
proof -
  assume d: "dwf ts"
  have "deps_exist ts \<longleftrightarrow> (\<forall>t n. (t, n) \<in> set ts \<longrightarrow> set (tn_depends_on n) \<subseteq> set (dkeys ts))"
    unfolding deps_exist_def set_map by force
  also have "\<dots> \<longleftrightarrow> (\<forall>t. set (tdeps ts t) \<subseteq> set (dkeys ts))"
    using d by (auto simp: tdeps_def dget_iff_in_set split: option.splits)
  finally show ?thesis .
qed

lemma graph_inv_dmod:
  assumes "graph_inv ts" "dget ts k = Some n" "same_shape n n'"
  shows "graph_inv (dmod k (\<lambda>_. n') ts)"
proof -
  have d: "dwf ts" "keyed ts" "deps_exist ts" using assms(1) by (auto simp: graph_inv_def)
  have "keyed (dmod k (\<lambda>_. n') ts)"
    unfolding keyed_def
  proof clarify
    fix k2 n2 assume m: "(k2, n2) \<in> set (dmod k (\<lambda>_. n') ts)"
    have "tn_task_id n = k" using assms(2) d(2) by (auto simp: keyed_def dest!: map_of_SomeD)
    then show "tn_task_id n2 = k2"
      using m assms(3) d(2) by (auto simp: in_set_dmod keyed_def same_shape_def split: if_splits)
  qed
  moreover have "deps_exist (dmod k (\<lambda>_. n') ts)"
    using d assms(2,3) by (simp add: deps_exist_tdeps tdeps_dmod)
  ultimately show ?thesis
    using assms dep_rel_dmod by (simp add: graph_inv_def)
qed

lemma retry_dmod:
  "\<forall>n\<in>set (dvals ts). retry_ok n \<Longrightarrow> retry_ok n' \<Longrightarrow> \<forall>n\<in>set (dvals (dmod k (\<lambda>_. n') ts)). retry_ok n"
  by (induction ts) auto

lemma life_inv_node:
  "life_inv ts \<Longrightarrow> dget ts k = Some n \<Longrightarrow> retry_ok n"
  by (force simp: life_inv_def dest!: map_of_SomeD)

text \<open>
  A change of one task that does not touch the dead states and keeps the requirement on
  dependencies keeps the invariant.
\<close>

lemma life_inv_dmod:
  assumes inv: "life_inv ts" and n: "dget ts k = Some n" "same_shape n n'" "retry_ok n'"
    and old: "tn_state n = tn_state n' \<or> tn_state n \<noteq> COMPLETED \<and> \<not> dead (Some (tn_state n))"
    and new: "tn_state n = tn_state n' \<or> \<not> dead (Some (tn_state n'))"
    and dep: "progressed (Some (tn_state n')) \<Longrightarrow> \<forall>d\<in>set (tdeps ts k). tstate ts d = Some COMPLETED"
  shows "life_inv (dmod k (\<lambda>_. n') ts)"
proof -
  let ?ts = "dmod k (\<lambda>_. n') ts"
  have st: "tstate ts k = Some (tn_state n)" using n(1) by (simp add: tstate_def)
  have ts': "tstate ?ts t = (if t = k then Some (tn_state n') else tstate ts t)" for t
    using n(1) by (simp add: tstate_dmod)
  have td: "tdeps ?ts = tdeps ts" using n by (simp add: tdeps_dmod)
  have dd: "dead (tstate ?ts t) \<longleftrightarrow> dead (tstate ts t)" for t
    using old new st by (auto simp: ts' dead_def)
  have cc: "tstate ts d = Some COMPLETED \<Longrightarrow> tstate ?ts d = Some COMPLETED" for d
    using old st by (auto simp: ts')
  have inv': "state_inv ts" using inv by (simp add: life_inv_def)
  have prog: "\<forall>d\<in>set (tdeps ?ts t). tstate ?ts d = Some COMPLETED" if "progressed (tstate ?ts t)" for t
  proof -
    have "\<forall>d\<in>set (tdeps ts t). tstate ts d = Some COMPLETED"
    proof (cases "t = k")
      case True
      then show ?thesis using that dep by (simp add: ts')
    next
      case False
      then show ?thesis using that inv' by (simp add: ts' state_inv_def)
    qed
    then show ?thesis using cc by (simp add: td)
  qed
  have canc: "tstate ?ts t = Some CANCELLED \<longleftrightarrow> (\<exists>d\<in>set (tdeps ?ts t). dead (tstate ?ts d))" for t
  proof -
    have "tstate ?ts t = Some CANCELLED \<longleftrightarrow> tstate ts t = Some CANCELLED"
      using old new st by (auto simp: ts' dead_def)
    then show ?thesis using inv' by (simp add: td dd state_inv_def)
  qed
  have "state_inv ?ts" unfolding state_inv_def using prog canc by blast
  moreover have "graph_inv ?ts"
    using graph_inv_dmod inv n(1,2) by (simp add: life_inv_def)
  moreover have "\<forall>m\<in>set (dvals ?ts). retry_ok m"
    by (rule retry_dmod) (use inv n(3) in \<open>simp_all add: life_inv_def\<close>)
  ultimately show ?thesis by (simp add: life_inv_def)
qed

section \<open>Operations other than a permanent failure\<close>

lemma transition_to_Inr:
  "transition_to s n = Inr n' \<longleftrightarrow> s \<in> set (allowed_task_transitions (tn_state n)) \<and> n' = n\<lparr>tn_state := s\<rparr>"
  by (auto simp: transition_to_def)

lemma allowed_task_iff:
  "s \<in> set (allowed_task_transitions s') \<longleftrightarrow>
     (s', s) \<in> {(PENDING, READY), (PENDING, CANCELLED), (READY, RUNNING), (READY, CANCELLED),
                (RUNNING, COMPLETED), (RUNNING, FAILED), (RUNNING, PENDING)}"
  by (cases s') auto

lemma get_task_Inr: "get_task w tid = Inr n \<longleftrightarrow> dget (wf_tasks w) tid = Some n"
  by (auto simp: get_task_def split: option.splits)

lemma life_inv_progressed:
  "life_inv ts \<Longrightarrow> dget ts k = Some n \<Longrightarrow> tn_state n \<in> {READY, RUNNING, COMPLETED, FAILED} \<Longrightarrow>
     \<forall>d\<in>set (tdeps ts k). tstate ts d = Some COMPLETED"
  by (auto simp: life_inv_def state_inv_def progressed_def tstate_def)

lemma mark_ready_inv:
  assumes inv: "life_inv (wf_tasks w)"
    and rdy: "\<And>n. dget (wf_tasks w) tid = Some n \<Longrightarrow> n \<in> set (ready_tasks w)"
    and op: "mark_ready w tid = (r, w')"
  shows "life_inv (wf_tasks w')"
proof (cases "get_task w tid")
  case (Inl e)
  then show ?thesis using op inv by (simp add: mark_ready_def)
next
  case (Inr n)
  show ?thesis
  proof (cases "transition_to READY n")
    case (Inl e)
    then show ?thesis using op inv Inr by (simp add: mark_ready_def)
  next
    case (Inr n')
    have n: "dget (wf_tasks w) tid = Some n" using \<open>get_task w tid = Inr n\<close> by (simp add: get_task_Inr)
    have n': "n' = n\<lparr>tn_state := READY\<rparr>" "tn_state n = PENDING"
      using Inr by (auto simp: transition_to_Inr allowed_task_iff)
    have "life_inv (dmod tid (\<lambda>_. n') (wf_tasks w))"
      using inv n
    proof (rule life_inv_dmod)
      show "retry_ok n'" using life_inv_node [OF inv n] n' by (simp add: retry_ok_def)
      show "\<forall>d\<in>set (tdeps (wf_tasks w) tid). tstate (wf_tasks w) d = Some COMPLETED"
        using rdy [OF n] n by (simp add: ready_tasks_def tdeps_def)
    qed (simp_all add: n' same_shape_def dead_def)
    then show ?thesis using op Inr \<open>get_task w tid = Inr n\<close> by (auto simp: mark_ready_def put_task_def)
  qed
qed

lemma start_task_inv:
  assumes inv: "life_inv (wf_tasks w)" and op: "start_task now w tid = (r, w')"
  shows "life_inv (wf_tasks w')"
proof (cases "get_task w tid")
  case (Inl e)
  then show ?thesis using op inv by (simp add: start_task_def)
next
  case (Inr n)
  show ?thesis
  proof (cases "transition_to RUNNING n")
    case (Inl e)
    then show ?thesis using op inv Inr by (simp add: start_task_def)
  next
    case (Inr n')
    have n: "dget (wf_tasks w) tid = Some n" using \<open>get_task w tid = Inr n\<close> by (simp add: get_task_Inr)
    have n': "n' = n\<lparr>tn_state := RUNNING\<rparr>" "tn_state n = READY"
      using Inr by (auto simp: transition_to_Inr allowed_task_iff)
    have "life_inv (dmod tid (\<lambda>_. n'\<lparr>tn_started_at := Some now\<rparr>) (wf_tasks w))"
      using inv n
    proof (rule life_inv_dmod)
      show "retry_ok (n'\<lparr>tn_started_at := Some now\<rparr>)"
        using life_inv_node [OF inv n] n' by (simp add: retry_ok_def)
      show "\<forall>d\<in>set (tdeps (wf_tasks w) tid). tstate (wf_tasks w) d = Some COMPLETED"
        using life_inv_progressed [OF inv n] n' by simp
    qed (simp_all add: n' same_shape_def dead_def)
    then show ?thesis
      using op Inr \<open>get_task w tid = Inr n\<close> by (auto simp: start_task_def put_task_def Let_def)
  qed
qed

lemma complete_task_inv:
  assumes inv: "life_inv (wf_tasks w)" and op: "complete_task now w tid res = (r, w')"
  shows "life_inv (wf_tasks w')"
proof (cases "get_task w tid")
  case (Inl e)
  then show ?thesis using op inv by (simp add: complete_task_def)
next
  case (Inr n)
  show ?thesis
  proof (cases "transition_to COMPLETED n")
    case (Inl e)
    then show ?thesis using op inv Inr by (simp add: complete_task_def)
  next
    case (Inr n')
    have n: "dget (wf_tasks w) tid = Some n" using \<open>get_task w tid = Inr n\<close> by (simp add: get_task_Inr)
    have n': "n' = n\<lparr>tn_state := COMPLETED\<rparr>" "tn_state n = RUNNING"
      using Inr by (auto simp: transition_to_Inr allowed_task_iff)
    have "life_inv (dmod tid (\<lambda>_. n'\<lparr>tn_result := res, tn_completed_at := Some now\<rparr>) (wf_tasks w))"
      using inv n
    proof (rule life_inv_dmod)
      show "retry_ok (n'\<lparr>tn_result := res, tn_completed_at := Some now\<rparr>)"
        using life_inv_node [OF inv n] n' by (simp add: retry_ok_def)
      show "\<forall>d\<in>set (tdeps (wf_tasks w) tid). tstate (wf_tasks w) d = Some COMPLETED"
        using life_inv_progressed [OF inv n] n' by simp
    qed (simp_all add: n' same_shape_def dead_def)
    then show ?thesis
      using op Inr \<open>get_task w tid = Inr n\<close> by (auto simp: complete_task_def put_task_def Let_def)
  qed
qed

section \<open>The cascade\<close>

text \<open>
  \<open>cancelled_from D ts0 ts\<close>: the table \<open>ts\<close> is \<open>ts0\<close> with some pending tasks of \<open>D\<close>
  cancelled. \<open>cascade_ready D ts0\<close>: the tasks the cascade may reach are pending tasks of \<open>D\<close>.
\<close>

definition cancelled_from :: "string set \<Rightarrow> tasks \<Rightarrow> tasks \<Rightarrow> bool" where
  "cancelled_from D ts0 ts \<longleftrightarrow> dkeys ts = dkeys ts0 \<and>
     (\<forall>k n0. dget ts0 k = Some n0 \<longrightarrow>
        dget ts k = Some n0 \<or>
        k \<in> D \<and> tn_state n0 = PENDING \<and> dget ts k = Some (n0\<lparr>tn_state := CANCELLED\<rparr>))"

definition cascade_ready :: "string set \<Rightarrow> tasks \<Rightarrow> bool" where
  "cascade_ready D ts0 \<longleftrightarrow>
     (\<forall>k n0 d. dget ts0 k = Some n0 \<longrightarrow> \<not> terminal (tn_state n0) \<longrightarrow> d \<in> set (tn_depends_on n0) \<longrightarrow>
        dead (tstate ts0 d) \<or> d \<in> D \<longrightarrow> k \<in> D \<and> tn_state n0 = PENDING)"

definition changed :: "tasks \<Rightarrow> tasks \<Rightarrow> string set" where
  "changed ts ts' = {k. tstate ts k \<noteq> tstate ts' k}"

definition cancels :: "tasks \<Rightarrow> tasks \<Rightarrow> bool" where
  "cancels ts ts' \<longleftrightarrow> (\<forall>k. tstate ts' k = tstate ts k \<or>
     tstate ts k \<noteq> Some CANCELLED \<and> tstate ts' k = Some CANCELLED)"

lemma cancels_refl [simp]: "cancels ts ts" and changed_refl [simp]: "changed ts ts = {}"
  by (simp_all add: cancels_def changed_def)

lemma cancels_trans: "cancels a b \<Longrightarrow> cancels b c \<Longrightarrow> cancels a c"
  unfolding cancels_def by metis

lemma changed_trans: "cancels a b \<Longrightarrow> cancels b c \<Longrightarrow> changed a c = changed a b \<union> changed b c"
proof (intro set_eqI)
  fix k assume a: "cancels a b" "cancels b c"
  then have "tstate b k = tstate a k \<or> tstate a k \<noteq> Some CANCELLED \<and> tstate b k = Some CANCELLED"
    "tstate c k = tstate b k \<or> tstate b k \<noteq> Some CANCELLED \<and> tstate c k = Some CANCELLED"
    by (simp_all add: cancels_def)
  then show "k \<in> changed a c \<longleftrightarrow> k \<in> changed a b \<union> changed b c"
    unfolding changed_def mem_Collect_eq Un_iff by metis
qed

lemma cancelled_from_refl: "cancelled_from D ts ts"
  by (simp add: cancelled_from_def)

lemma cancelled_fromD:
  "cancelled_from D ts0 ts \<Longrightarrow> dget ts0 k = Some n0 \<Longrightarrow> dget ts k = Some n0 \<or>
     k \<in> D \<and> tn_state n0 = PENDING \<and> dget ts k = Some (n0\<lparr>tn_state := CANCELLED\<rparr>)"
  by (simp add: cancelled_from_def)

lemma cancelled_from_keys: "cancelled_from D ts0 ts \<Longrightarrow> dget ts k = Some n \<Longrightarrow> \<exists>n0. dget ts0 k = Some n0"
  by (metis cancelled_from_def dget_dom)

lemma cancelled_from_dead:
  assumes "cancelled_from D ts0 ts" and "dead (tstate ts d)"
  shows "dead (tstate ts0 d) \<or> d \<in> D"
proof -
  obtain n where n: "dget ts d = Some n" using assms(2) by (auto simp: dead_def tstate_def)
  then obtain n0 where n0: "dget ts0 d = Some n0" using cancelled_from_keys [OF assms(1)] by blast
  show ?thesis
    using cancelled_fromD [OF assms(1) n0] assms(2) n n0 by (auto simp: tstate_def)
qed

lemma cancelled_from_step:
  assumes J: "cancelled_from D ts0 ts" and R: "cascade_ready D ts0"
    and n: "dget ts k = Some n" "\<not> terminal (tn_state n)" "depends_on_failed ts n"
  shows "transition_to CANCELLED n = Inr (n\<lparr>tn_state := CANCELLED\<rparr>)"
    and "cancelled_from D ts0 (dmod k (\<lambda>_. n\<lparr>tn_state := CANCELLED\<rparr>) ts)"
proof -
  obtain n0 where n0: "dget ts0 k = Some n0"
    using n(1) cancelled_from_keys [OF J] by blast
  have same: "n = n0"
    using cancelled_fromD [OF J n0] n by (auto simp: terminal_def)
  obtain d where "d \<in> set (tn_depends_on n)" "dead (tstate ts d)"
    using n(3) by (auto simp: depends_on_failed_def dead_def)
  then have p: "k \<in> D" "tn_state n = PENDING"
    using R n0 n(2) same cancelled_from_dead [OF J] by (auto simp: cascade_ready_def)
  then show "transition_to CANCELLED n = Inr (n\<lparr>tn_state := CANCELLED\<rparr>)"
    by (simp add: transition_to_def)
  show "cancelled_from D ts0 (dmod k (\<lambda>_. n\<lparr>tn_state := CANCELLED\<rparr>) ts)"
    unfolding cancelled_from_def
  proof (intro conjI allI impI)
    show "dkeys (dmod k (\<lambda>_. n\<lparr>tn_state := CANCELLED\<rparr>) ts) = dkeys ts0"
      using J by (simp add: cancelled_from_def)
    fix j m assume m: "dget ts0 j = Some m"
    show "dget (dmod k (\<lambda>_. n\<lparr>tn_state := CANCELLED\<rparr>) ts) j = Some m \<or> j \<in> D \<and> tn_state m = PENDING \<and>
        dget (dmod k (\<lambda>_. n\<lparr>tn_state := CANCELLED\<rparr>) ts) j = Some (m\<lparr>tn_state := CANCELLED\<rparr>)"
      using cancelled_fromD [OF J m] m n0 n(1) same p by (auto simp: dget_dmod)
  qed
qed

lemma cancelled_from_keyed:
  "cancelled_from D ts0 ts \<Longrightarrow> keyed ts0 \<Longrightarrow> dget ts k = Some n \<Longrightarrow> tn_task_id n = k"
proof -
  assume J: "cancelled_from D ts0 ts" and K: "keyed ts0" and n: "dget ts k = Some n"
  obtain n0 where n0: "dget ts0 k = Some n0"
    using n cancelled_from_keys [OF J] by blast
  then have "tn_task_id n0 = k" using K by (auto simp: keyed_def dest!: map_of_SomeD)
  then show ?thesis using cancelled_fromD [OF J n0] n by auto
qed

lemma cascade_pass_spec:
  assumes "cancelled_from D ts0 ts" "cascade_ready D ts0" "keyed ts0"
  shows "\<exists>cs ts'. cascade_pass ks ts = (Inr cs, ts') \<and> cancelled_from D ts0 ts' \<and> cancels ts ts' \<and>
     tn_task_id ` set cs = changed ts ts' \<and> (\<forall>c\<in>set cs. tn_state c = CANCELLED) \<and>
     (cs = [] \<longrightarrow> ts' = ts \<and>
        (\<forall>k\<in>set ks. \<forall>n. dget ts k = Some n \<longrightarrow> terminal (tn_state n) \<or> \<not> depends_on_failed ts n))"
  using assms
proof (induction ks arbitrary: ts)
  case Nil
  then show ?case by simp
next
  case (Cons k ks)
  show ?case
  proof (cases "dget ts k")
    case None
    then show ?thesis using Cons.IH [OF Cons.prems] by simp
  next
    case (Some n)
    show ?thesis
    proof (cases "terminal (tn_state n) \<or> \<not> depends_on_failed ts n")
      case True
      then show ?thesis using Cons.IH [OF Cons.prems] Some by fastforce
    next
      case False
      let ?n = "n\<lparr>tn_state := CANCELLED\<rparr>"
      let ?ts = "dmod k (\<lambda>_. ?n) ts"
      note S = cancelled_from_step [OF Cons.prems(1,2) Some]
      have t: "transition_to CANCELLED n = Inr ?n" and J: "cancelled_from D ts0 ?ts"
        using S False by auto
      obtain cs ts' where IH: "cascade_pass ks ?ts = (Inr cs, ts')" "cancelled_from D ts0 ts'"
          "cancels ?ts ts'" "tn_task_id ` set cs = changed ?ts ts'" "\<forall>c\<in>set cs. tn_state c = CANCELLED"
        using Cons.IH [OF J Cons.prems(2,3)] by blast
      have id: "tn_task_id n = k"
        using cancelled_from_keyed Cons.prems(1,3) Some by blast
      have st: "tstate ts k = Some (tn_state n)" "tn_state n \<noteq> CANCELLED"
        using Some False by (auto simp: tstate_def terminal_def)
      have c1: "cancels ts ?ts" "changed ts ?ts = {k}"
        using st Some by (auto simp: cancels_def changed_def tstate_dmod)
      have "cascade_pass (k # ks) ts = (Inr (?n # cs), ts')"
        using Some False t IH(1) by simp
      moreover have "changed ts ts' = tn_task_id ` set (?n # cs)"
        using changed_trans [OF c1(1) IH(3)] c1(2) IH(4) id by simp
      ultimately show ?thesis
        using IH(2,5) cancels_trans [OF c1(1) IH(3)] by fastforce
    qed
  qed
qed

lemma cascade_cancel_spec:
  assumes "cancelled_from D ts0 ts" "cascade_ready D ts0" "keyed ts0"
  shows "\<exists>cs ts'. cascade_cancel ts = (Inr cs, ts') \<and> cancelled_from D ts0 ts' \<and> cancels ts ts' \<and>
     tn_task_id ` set cs = changed ts ts' \<and> (\<forall>c\<in>set cs. tn_state c = CANCELLED) \<and>
     (\<forall>k n. dget ts' k = Some n \<longrightarrow> terminal (tn_state n) \<or> \<not> depends_on_failed ts' n)"
  using assms
proof (induction ts rule: cascade_cancel.induct)
  case (1 ts)
  obtain cs ts' where P: "cascade_pass (dkeys ts) ts = (Inr cs, ts')" "cancelled_from D ts0 ts'"
      "cancels ts ts'" "tn_task_id ` set cs = changed ts ts'" "\<forall>c\<in>set cs. tn_state c = CANCELLED"
      "cs = [] \<Longrightarrow> ts' = ts \<and> (\<forall>k\<in>set (dkeys ts). \<forall>n. dget ts k = Some n \<longrightarrow>
         terminal (tn_state n) \<or> \<not> depends_on_failed ts n)"
    using cascade_pass_spec [OF "1.prems"] by blast
  show ?case
  proof (cases cs)
    case Nil
    then have "cascade_cancel ts = (Inr [], ts')"
      using P(1) by (simp add: cascade_cancel.simps [of ts])
    then show ?thesis using P Nil by (metis dget_dom)
  next
    case (Cons c cs')
    obtain ds ts'' where Q: "cascade_cancel ts' = (Inr ds, ts'')" "cancelled_from D ts0 ts''"
        "cancels ts' ts''" "tn_task_id ` set ds = changed ts' ts''" "\<forall>c\<in>set ds. tn_state c = CANCELLED"
        "\<forall>k n. dget ts'' k = Some n \<longrightarrow> terminal (tn_state n) \<or> \<not> depends_on_failed ts'' n"
      using "1.IH" [OF refl, of cs c cs'] P(1,2) Cons "1.prems"(2,3) by auto
    have "cascade_cancel ts = (Inr (cs @ ds), ts'')"
      using P(1) Cons Q(1) by (simp add: cascade_cancel.simps [of ts] Let_def)
    moreover have "tn_task_id ` set (cs @ ds) = changed ts ts''"
      using changed_trans [OF P(3) Q(3)] P(4) Q(4) by (simp add: image_Un)
    ultimately show ?thesis
      using Q cancels_trans [OF P(3) Q(3)] P(5) by (metis Un_iff set_append)
  qed
qed

section \<open>Permanent failure\<close>

text \<open>The tasks that depend on a task, directly or through others.\<close>

definition dependents_of :: "tasks \<Rightarrow> string \<Rightarrow> string set" where
  "dependents_of ts tid = {k. (tid, k) \<in> (dep_rel ts)\<^sup>+}"

lemma dependents_progressed:
  assumes "state_inv ts" "dwf ts" "(a, b) \<in> (dep_rel ts)\<^sup>+" "progressed (tstate ts b)"
  shows "tstate ts a = Some COMPLETED"
  using assms(3,4)
proof (induction rule: converse_trancl_induct)
  case (base a)
  then show ?case using assms(1,2) by (auto simp: state_inv_def dep_rel_tdeps)
next
  case (step a c)
  then have "progressed (tstate ts c)" by (simp add: progressed_def)
  then show ?case using assms(1,2) step(1) by (auto simp: state_inv_def dep_rel_tdeps)
qed

lemma dependents_last:
  assumes "k \<in> dependents_of ts tid"
  shows "\<exists>d. (d, k) \<in> dep_rel ts \<and> (d = tid \<or> d \<in> dependents_of ts tid)"
  using assms by (auto simp: dependents_of_def elim: tranclE)

lemma fail_cascade_ready:
  assumes inv: "graph_inv ts" "state_inv ts" and n: "dget ts tid = Some n" "tn_state n = RUNNING"
    and n': "same_shape n n'" "tn_state n' = FAILED"
  shows "cascade_ready (dependents_of ts tid) (dmod tid (\<lambda>_. n') ts)"
  unfolding cascade_ready_def
proof (intro allI impI)
  fix k m d
  assume m: "dget (dmod tid (\<lambda>_. n') ts) k = Some m" and live: "\<not> terminal (tn_state m)"
    and d: "d \<in> set (tn_depends_on m)"
    and dead: "dead (tstate (dmod tid (\<lambda>_. n') ts) d) \<or> d \<in> dependents_of ts tid"
  have wf: "dwf ts" using inv(1) by (simp add: graph_inv_def)
  have k: "k \<noteq> tid" using m live n n' by (auto simp: dget_dmod terminal_def)
  then have mk: "dget ts k = Some m" using m by (simp add: dget_dmod)
  then have dk: "(d, k) \<in> dep_rel ts" using d wf by (simp add: dep_rel_tdeps tdeps_def)
  have "dead (tstate ts d) \<Longrightarrow> tstate ts k = Some CANCELLED"
    using inv(2) dk wf by (auto simp: state_inv_def dep_rel_tdeps)
  then have "\<not> dead (tstate ts d)" using live mk by (auto simp: tstate_def terminal_def)
  then have D: "d = tid \<or> d \<in> dependents_of ts tid"
    using dead n by (auto simp: tstate_dmod split: if_splits)
  then have kD: "(tid, k) \<in> (dep_rel ts)\<^sup>+"
    using dk by (auto simp: dependents_of_def intro: trancl_into_trancl)
  moreover have "tn_state m = PENDING"
  proof (rule ccontr)
    assume "tn_state m \<noteq> PENDING"
    then have "progressed (tstate ts k)"
      using live mk by (cases "tn_state m") (auto simp: progressed_def tstate_def terminal_def)
    then have "tstate ts tid = Some COMPLETED"
      using dependents_progressed [OF inv(2) wf kD] by simp
    then show False using n by (simp add: tstate_def)
  qed
  ultimately show "k \<in> dependents_of ts tid \<and> tn_state m = PENDING"
    by (simp add: dependents_of_def)
qed

text \<open>
  The state after the cascade: the failed task failed, its dependents cancelled, every other
  task as before.
\<close>

lemma fail_cascade_state:
  assumes inv: "graph_inv ts" "state_inv ts" and n: "dget ts tid = Some n" "tn_state n = RUNNING"
    and n': "same_shape n n'" "tn_state n' = FAILED"
    and J: "cancelled_from (dependents_of ts tid) (dmod tid (\<lambda>_. n') ts) ts'"
    and fin: "\<forall>k n. dget ts' k = Some n \<longrightarrow> terminal (tn_state n) \<or> \<not> depends_on_failed ts' n"
    and k: "k \<in> set (dkeys ts)"
  shows "tstate ts' k = (if k = tid then Some FAILED
     else if k \<in> dependents_of ts tid then Some CANCELLED else tstate ts k)"
proof -
  let ?f = "dmod tid (\<lambda>_. n') ts"
  have wf: "dwf ts" and ac: "acyclic (dep_rel ts)" and de: "deps_exist ts"
    using inv(1) by (auto simp: graph_inv_def)
  have tidD: "tid \<notin> dependents_of ts tid"
    using ac by (simp add: dependents_of_def acyclic_def)
  have ft: "dget ?f tid = Some n'" using n by (simp add: dget_dmod)
  have tid': "tstate ts' tid = Some FAILED"
    using cancelled_fromD [OF J ft] n' by (auto simp: tstate_def)
  have other: "tstate ts' j = tstate ts j" if "j \<noteq> tid" "j \<in> set (dkeys ts)" "j \<notin> dependents_of ts tid" for j
  proof -
    obtain m where m: "dget ts j = Some m" using \<open>j \<in> set (dkeys ts)\<close> dget_dom by metis
    then have "dget ?f j = Some m" using that by (simp add: dget_dmod)
    from cancelled_fromD [OF J this] show ?thesis using m that by (auto simp: tstate_def)
  qed
  have step: "tstate ts' j = Some CANCELLED"
    if dj: "(d, j) \<in> dep_rel ts" and dd: "dead (tstate ts' d)" and jD: "(tid, j) \<in> (dep_rel ts)\<^sup>+" for d j
  proof -
    have jt: "j \<noteq> tid" using jD ac by (auto simp: acyclic_def)
    obtain m where m: "dget ts j = Some m" and dm: "d \<in> set (tn_depends_on m)"
      using dj wf by (auto simp: dep_rel_tdeps tdeps_def split: option.splits)
    have fm: "dget ?f j = Some m" using m jt by (simp add: dget_dmod)
    from cancelled_fromD [OF J fm] show ?thesis
    proof
      assume m': "dget ts' j = Some m"
      then have "depends_on_failed ts' m" using dm dd by (auto simp: depends_on_failed_def dead_def)
      then have t: "terminal (tn_state m)" using fin m' by blast
      have "\<not> progressed (tstate ts j)"
        using dependents_progressed [OF inv(2) wf jD] n by (auto simp: tstate_def)
      then have "tn_state m = CANCELLED"
        using t m by (auto simp: progressed_def tstate_def terminal_def)
      then show ?thesis using m' by (simp add: tstate_def)
    qed (simp add: tstate_def)
  qed
  have canc: "tstate ts' j = Some CANCELLED" if "(tid, j) \<in> (dep_rel ts)\<^sup>+" for j
    using that
  proof (induction rule: trancl_induct)
    case (base j)
    then show ?case using step [OF base] tid' by (auto simp: dead_def)
  next
    case (step y z)
    then show ?case using \<open>\<And>d j. (d, j) \<in> dep_rel ts \<Longrightarrow> dead (tstate ts' d) \<Longrightarrow>
        (tid, j) \<in> (dep_rel ts)\<^sup>+ \<Longrightarrow> tstate ts' j = Some CANCELLED\<close> [OF step(2)]
      by (auto simp: dead_def intro: trancl_into_trancl)
  qed
  show ?thesis
    using tid' canc other [OF _ k] by (auto simp: dependents_of_def)
qed

lemma tdeps_cancelled_from:
  assumes "cancelled_from D ts0 ts"
  shows "tdeps ts = tdeps ts0"
proof
  fix k
  show "tdeps ts k = tdeps ts0 k"
  proof (cases "dget ts0 k")
    case None
    then have "dget ts k = None" using cancelled_from_keys [OF assms] by (metis not_Some_eq)
    then show ?thesis using None by (simp add: tdeps_def)
  next
    case (Some n0)
    then show ?thesis using cancelled_fromD [OF assms Some] by (auto simp: tdeps_def)
  qed
qed

lemma graph_inv_cancelled_from:
  assumes J: "cancelled_from D ts0 ts" and inv: "graph_inv ts0"
  shows "graph_inv ts"
proof -
  have k: "dkeys ts = dkeys ts0" using J by (simp add: cancelled_from_def)
  have wf: "dwf ts" "dwf ts0" using inv k by (auto simp: graph_inv_def)
  have "keyed ts"
    using cancelled_from_keyed [OF J] inv wf(1) by (auto simp: keyed_def graph_inv_def dget_iff_in_set)
  moreover have "dep_rel ts = dep_rel ts0"
    using tdeps_cancelled_from [OF J] wf by (auto simp: dep_rel_tdeps set_eq_iff)
  moreover have "deps_exist ts"
    using inv k wf tdeps_cancelled_from [OF J] by (simp add: deps_exist_tdeps graph_inv_def)
  ultimately show ?thesis using inv wf by (simp add: graph_inv_def)
qed

lemma retry_cancelled_from:
  assumes J: "cancelled_from D ts0 ts" and wf: "dwf ts" and r: "\<forall>n\<in>set (dvals ts0). retry_ok n"
  shows "\<forall>n\<in>set (dvals ts). retry_ok n"
proof
  fix n assume "n \<in> set (dvals ts)"
  then obtain k where n: "dget ts k = Some n" using wf by (auto simp: dget_iff_in_set)
  then obtain n0 where n0: "dget ts0 k = Some n0" using cancelled_from_keys [OF J] by blast
  then have "retry_ok n0" using r by (force dest!: map_of_SomeD)
  then show "retry_ok n" using cancelled_fromD [OF J n0] n by (auto simp: retry_ok_def)
qed

lemma fail_cascade_inv:
  assumes inv: "graph_inv ts" "state_inv ts" and n: "dget ts tid = Some n" "tn_state n = RUNNING"
    and n': "same_shape n n'" "tn_state n' = FAILED"
    and J: "cancelled_from (dependents_of ts tid) (dmod tid (\<lambda>_. n') ts) ts'"
    and fin: "\<forall>k n. dget ts' k = Some n \<longrightarrow> terminal (tn_state n) \<or> \<not> depends_on_failed ts' n"
  shows "state_inv ts'"
proof -
  have wf: "dwf ts" using inv(1) by (simp add: graph_inv_def)
  have td: "tdeps ts' = tdeps ts" using tdeps_cancelled_from [OF J] n n' by (simp add: tdeps_dmod)
  have keys: "set (dkeys ts') = set (dkeys ts)" using J by (simp add: cancelled_from_def)
  have none: "k \<notin> set (dkeys ts) \<Longrightarrow> tstate ts' k = None \<and> tdeps ts k = []" for k
    using keys dget_None_iff [of ts k] dget_None_iff [of ts' k] by (simp add: tstate_def tdeps_def)
  have tidk: "tid \<in> set (dkeys ts)" using n(1) dget_dom by metis
  have dk: "d \<in> set (dkeys ts)" if "d \<in> set (tdeps ts k)" for d k
    using that inv(1) wf deps_exist_tdeps by (auto simp: graph_inv_def)
  note st = fail_cascade_state [OF inv n n' J fin]
  have st_tid: "tstate ts tid = Some RUNNING" using n by (simp add: tstate_def)
  have prog: "tstate ts' d = Some COMPLETED"
    if p: "progressed (tstate ts' k)" and d: "d \<in> set (tdeps ts k)" for k d
  proof -
    have k: "k \<in> set (dkeys ts)" using d none by fastforce
    have pk: "progressed (tstate ts k)"
      using p st [OF k] st_tid by (auto simp: progressed_def split: if_splits)
    have c: "tstate ts d = Some COMPLETED" using inv(2) pk d by (simp add: state_inv_def)
    have "d \<noteq> tid" using c st_tid by auto
    moreover have "d \<notin> dependents_of ts tid"
    proof
      assume "d \<in> dependents_of ts tid"
      then have "tstate ts tid = Some COMPLETED"
        using dependents_progressed [OF inv(2) wf, of tid d] c
        by (simp add: dependents_of_def progressed_def)
      then show False using st_tid by simp
    qed
    ultimately show ?thesis using st [OF dk [OF d]] c by simp
  qed
  have canc: "tstate ts' k = Some CANCELLED \<longleftrightarrow> (\<exists>d\<in>set (tdeps ts k). dead (tstate ts' d))" for k
  proof
    assume c: "tstate ts' k = Some CANCELLED"
    then have k: "k \<in> set (dkeys ts)" using none by fastforce
    show "\<exists>d\<in>set (tdeps ts k). dead (tstate ts' d)"
    proof (cases "k \<in> dependents_of ts tid")
      case True
      then obtain d where d: "(d, k) \<in> dep_rel ts" "d = tid \<or> d \<in> dependents_of ts tid"
        using dependents_last by blast
      then have dd: "d \<in> set (tdeps ts k)" using wf by (simp add: dep_rel_tdeps)
      then have "dead (tstate ts' d)" using st [OF dk [OF dd]] d(2) by (auto simp: dead_def)
      then show ?thesis using dd by blast
    next
      case False
      then have "tstate ts k = Some CANCELLED"
        using c st [OF k] by (auto split: if_splits)
      then obtain d where d: "d \<in> set (tdeps ts k)" "dead (tstate ts d)"
        using inv(2) by (auto simp: state_inv_def)
      then have "dead (tstate ts' d)" using st [OF dk [OF d(1)]] by (auto simp: dead_def)
      then show ?thesis using d by blast
    qed
  next
    assume "\<exists>d\<in>set (tdeps ts k). dead (tstate ts' d)"
    then obtain d where d: "d \<in> set (tdeps ts k)" "dead (tstate ts' d)" by blast
    have k: "k \<in> set (dkeys ts)" using d(1) none by fastforce
    then obtain m where m: "dget ts' k = Some m" using keys dget_dom by metis
    have md: "tn_depends_on m = tdeps ts k" using m td by (metis option.simps(5) tdeps_def)
    then have "depends_on_failed ts' m" using d by (auto simp: depends_on_failed_def dead_def)
    then have t: "terminal (tn_state m)" using fin m by blast
    have "\<not> progressed (tstate ts' k)" using prog [of k d] d by (auto simp: dead_def)
    then show "tstate ts' k = Some CANCELLED"
      using t m by (auto simp: terminal_def progressed_def tstate_def)
  qed
  show ?thesis unfolding state_inv_def td using prog canc by blast
qed

text \<open>The branches of \<open>fail_task\<close> on a task that exists.\<close>

lemma fail_task_final:
  assumes inv: "life_inv (wf_tasks w)" and n: "dget (wf_tasks w) tid = Some n" "tn_state n = RUNNING"
    and full: "tn_max_retries n \<le> tn_retry_count n"
  shows "\<exists>cs w'. fail_task w tid err = (Inr (n\<lparr>tn_error := Some err, tn_state := FAILED\<rparr>, cs), w') \<and>
     life_inv (wf_tasks w') \<and>
     (\<forall>k\<in>set (dkeys (wf_tasks w)). tstate (wf_tasks w') k =
        (if k = tid then Some FAILED
         else if k \<in> dependents_of (wf_tasks w) tid then Some CANCELLED else tstate (wf_tasks w) k)) \<and>
     tn_task_id ` set cs =
       {k \<in> dependents_of (wf_tasks w) tid. tstate (wf_tasks w) k \<noteq> Some CANCELLED}"
proof -
  let ?ts = "wf_tasks w" and ?n = "n\<lparr>tn_error := Some err, tn_state := FAILED\<rparr>"
  let ?f = "dmod tid (\<lambda>_. ?n) ?ts" and ?D = "dependents_of ?ts tid"
  have inv': "graph_inv ?ts" "state_inv ?ts" using inv by (auto simp: life_inv_def)
  have shape: "same_shape n ?n" "tn_state ?n = FAILED" by (simp_all add: same_shape_def)
  have gf: "graph_inv ?f" using graph_inv_dmod [OF inv'(1) n(1) shape(1)] .
  have K: "keyed ?f" using gf by (simp add: graph_inv_def)
  obtain cs ts' where C: "cascade_cancel ?f = (Inr cs, ts')" "cancelled_from ?D ?f ts'" "cancels ?f ts'"
      "tn_task_id ` set cs = changed ?f ts'"
      "\<forall>k n. dget ts' k = Some n \<longrightarrow> terminal (tn_state n) \<or> \<not> depends_on_failed ts' n"
    using cascade_cancel_spec [OF cancelled_from_refl fail_cascade_ready [OF inv' n shape] K] by blast
  have ok: "retry_ok ?n" using life_inv_node [OF inv n(1)] full by (simp add: retry_ok_def)
  have rf: "\<forall>m\<in>set (dvals ?f). retry_ok m"
    by (rule retry_dmod [OF _ ok]) (use inv in \<open>simp add: life_inv_def\<close>)
  have gt: "graph_inv ts'" using graph_inv_cancelled_from [OF C(2) gf] .
  have life: "life_inv ts'"
    using gt fail_cascade_inv [OF inv' n shape C(2,5)] retry_cancelled_from [OF C(2) _ rf]
    by (simp add: life_inv_def graph_inv_def)
  have st: "tstate ts' k = (if k = tid then Some FAILED else if k \<in> ?D then Some CANCELLED else tstate ?ts k)"
    if "k \<in> set (dkeys ?ts)" for k
    using fail_cascade_state [OF inv' n shape C(2,5) that] .
  have Dk: "k \<in> set (dkeys ?ts)" if kD: "k \<in> ?D" for k
  proof -
    obtain d where "(d, k) \<in> dep_rel ?ts" using dependents_last [OF kD] by blast
    then show ?thesis by (force simp: dep_rel_def)
  qed
  have tidD: "tid \<notin> ?D" using inv'(1) by (auto simp: dependents_of_def graph_inv_def acyclic_def)
  have ch: "changed ?f ts' = {k \<in> ?D. tstate ?ts k \<noteq> Some CANCELLED}"
  proof (intro set_eqI)
    fix k
    show "k \<in> changed ?f ts' \<longleftrightarrow> k \<in> {k \<in> ?D. tstate ?ts k \<noteq> Some CANCELLED}"
    proof (cases "k \<in> set (dkeys ?ts)")
      case True
      then show ?thesis using st [OF True] tidD n by (auto simp: changed_def tstate_dmod)
    next
      case False
      then have "dget ?f k = None" "dget ts' k = None"
        using C(2) by (simp_all add: cancelled_from_def dget_None_iff)
      then show ?thesis using False Dk by (auto simp: changed_def tstate_def)
    qed
  qed
  have t: "transition_to FAILED (n\<lparr>tn_error := Some err\<rparr>) = Inr ?n"
    using n(2) by (simp add: transition_to_def)
  have "fail_task w tid err = (Inr (?n, cs), w\<lparr>wf_tasks := ts'\<rparr>)"
    using n full C(1) t by (simp add: fail_task_def get_task_def Let_def)
  then show ?thesis using life st C(4) ch by auto
qed

lemma fail_task_inv:
  assumes inv: "life_inv (wf_tasks w)" and op: "fail_task w tid err = (r, w')"
  shows "life_inv (wf_tasks w')"
proof (cases "dget (wf_tasks w) tid")
  case None
  then show ?thesis using op inv by (auto simp: fail_task_def get_task_def)
next
  case (Some n)
  have ok: "retry_ok n" using life_inv_node [OF inv Some] .
  have frame: "life_inv (dmod tid (\<lambda>_. m) (wf_tasks w))"
    if "same_shape n m" "retry_ok m" "tn_state m = tn_state n" for m
    using inv Some that(1,2)
  proof (rule life_inv_dmod)
    assume "progressed (Some (tn_state m))"
    then show "\<forall>d\<in>set (tdeps (wf_tasks w) tid). tstate (wf_tasks w) d = Some COMPLETED"
    proof -
      have "progressed (tstate (wf_tasks w) tid)"
        using \<open>progressed (Some (tn_state m))\<close> that(3) Some by (simp add: tstate_def)
      then show ?thesis using inv unfolding life_inv_def state_inv_def by blast
    qed
  qed (simp_all add: that)
  show ?thesis
  proof (cases "tn_retry_count n < tn_max_retries n")
    case True
    let ?m = "n\<lparr>tn_error := Some err, tn_retry_count := tn_retry_count n + 1\<rparr>"
    have okm: "retry_ok ?m" using ok True by (auto simp: retry_ok_def)
    show ?thesis
    proof (cases "tn_state n = RUNNING")
      case run: True
      have "life_inv (dmod tid (\<lambda>_. ?m\<lparr>tn_state := PENDING\<rparr>) (wf_tasks w))"
        using inv Some
        by (rule life_inv_dmod) (use okm run in \<open>auto simp: same_shape_def retry_ok_def dead_def progressed_def\<close>)
      then show ?thesis
        using op Some True run
        by (auto simp: fail_task_def get_task_def Let_def transition_to_def put_task_def)
    next
      case False
      have "transition_to PENDING ?m = Inl (InvalidTaskTransition (tn_task_id n) (tn_state n) PENDING)"
        using False by (cases "tn_state n") (auto simp: transition_to_def)
      then show ?thesis
        using op Some True frame [OF _ okm]
        by (auto simp: fail_task_def get_task_def Let_def put_task_def same_shape_def)
    qed
  next
    case False
    show ?thesis
    proof (cases "tn_state n = RUNNING")
      case run: True
      have full: "tn_max_retries n \<le> tn_retry_count n" using False by simp
      obtain cs v where "fail_task w tid err = (Inr (n\<lparr>tn_error := Some err, tn_state := FAILED\<rparr>, cs), v)"
          "life_inv (wf_tasks v)"
        using fail_task_final [OF inv Some run full, of err] by blast
      then show ?thesis using op by simp
    next
      case notrun: False
      have "transition_to FAILED (n\<lparr>tn_error := Some err\<rparr>) =
          Inl (InvalidTaskTransition (tn_task_id n) (tn_state n) FAILED)"
        using notrun by (cases "tn_state n") (auto simp: transition_to_def)
      then show ?thesis
        using op Some False frame [of "n\<lparr>tn_error := Some err\<rparr>"] ok
        by (auto simp: fail_task_def get_task_def Let_def put_task_def same_shape_def retry_ok_def)
    qed
  qed
qed

end
