(* ===== verification/Workflow_Create.thy ===== *)
theory Workflow_Create
  imports Workflow_Life
begin

text \<open>
  \<open>Workflow.create\<close>: what the factory builds from specifications, when it accepts them, and
  that the workflow it returns satisfies the invariant of the life cycle.
\<close>

section \<open>The two loops of the factory\<close>

lemma name_nodes_keys:
  "set (dkeys (name_nodes now f i ss m)) = ts_name ` set ss \<union> set (dkeys m)"
  by (induction ss arbitrary: i m) (auto simp: set_dkeys_dset)

lemma name_nodes_dwf [simp]: "dwf m \<Longrightarrow> dwf (name_nodes now f i ss m)"
  by (induction ss arbitrary: i m) auto

text \<open>With distinct names every specification has its own node.\<close>

lemma name_nodes_other:
  "k \<notin> ts_name ` set ss \<Longrightarrow> dget (name_nodes now f i ss m) k = dget m k"
  by (induction ss arbitrary: i m) (auto simp: dget_dset)

lemma name_nodes_nth:
  "distinct (map ts_name ss) \<Longrightarrow> j < length ss \<Longrightarrow>
     dget (name_nodes now f i ss m) (ts_name (ss ! j)) = Some (new_node now (f (i + j)) (ss ! j))"
proof (induction ss arbitrary: i j m)
  case (Cons s ss)
  show ?case
  proof (cases j)
    case 0
    then show ?thesis using Cons.prems by (simp add: name_nodes_other dget_dset)
  next
    case (Suc l)
    then show ?thesis using Cons.IH [of l "Suc i"] Cons.prems by simp
  qed
qed simp

definition id_of :: "(string, task_node) dict \<Rightarrow> string \<Rightarrow> string" where
  "id_of m k = (case dget m k of None \<Rightarrow> [] | Some n \<Rightarrow> tn_task_id n)"

lemma resolve_deps_ok:
  "set ds \<subseteq> set (dkeys m) \<Longrightarrow>
     \<exists>l. resolve_deps m tid ds acc = Inr l \<and> set l = set acc \<union> id_of m ` set ds"
proof (induction ds arbitrary: acc)
  case (Cons d ds)
  have "d \<in> set (dkeys m)" using Cons.prems by simp
  then obtain n where n: "dget m d = Some n" unfolding dget_dom by blast
  then show ?case
    using Cons.IH [of "if tn_task_id n \<in> set acc then acc else acc @ [tn_task_id n]"] Cons.prems
    by (auto simp: id_of_def)
qed simp

lemma resolve_deps_unknown:
  "\<not> set ds \<subseteq> set (dkeys m) \<Longrightarrow> \<exists>d. resolve_deps m tid ds acc = Inl (InvalidDependency tid d)"
proof (induction ds arbitrary: acc)
  case (Cons d ds)
  show ?case
  proof (cases "dget m d")
    case (Some n)
    then have "d \<in> set (dkeys m)" using dget_dom by metis
    then show ?thesis using Cons Some by auto
  qed simp
qed simp

text \<open>What the second loop keeps of the table it builds.\<close>

definition fresh_node :: "task_node \<Rightarrow> bool" where
  "fresh_node n \<longleftrightarrow> tn_state n = PENDING \<and> tn_retry_count n = 0"

lemma name_nodes_fresh:
  "\<forall>(k, n)\<in>set m. fresh_node n \<Longrightarrow> dwf m \<Longrightarrow> \<forall>(k, n)\<in>set (name_nodes now f i ss m). fresh_node n"
proof (induction ss arbitrary: i m)
  case (Cons s ss)
  have "\<forall>(k, n)\<in>set (dset (ts_name s) (new_node now (f i) s) m). fresh_node n"
    using Cons.prems by (auto simp: in_set_dset fresh_node_def new_node_def split: if_splits)
  then show ?case using Cons.IH Cons.prems by simp
qed simp

lemma build_tasks_fresh:
  assumes "build_tasks m ss ts = Inr ts'" "\<forall>(k, n)\<in>set m. fresh_node n"
    "dwf ts" "keyed ts" "\<forall>n\<in>set (dvals ts). fresh_node n"
  shows "dwf ts' \<and> keyed ts' \<and> (\<forall>n\<in>set (dvals ts'). fresh_node n)"
  using assms
proof (induction ss arbitrary: ts)
  case (Cons s ss)
  show ?case
  proof (cases "dget m (ts_name s)")
    case None
    then show ?thesis using Cons by simp
  next
    case (Some n)
    then obtain deps where deps: "resolve_deps m (tn_task_id n) (ts_depends_on s) [] = Inr deps"
      using Cons.prems(1) by (auto split: sum.splits)
    let ?ts = "dset (tn_task_id n) (n\<lparr>tn_depends_on := deps\<rparr>) ts"
    have "fresh_node n" using Some Cons.prems(2) by (auto dest!: map_of_SomeD)
    then have "\<forall>(k, n)\<in>set ?ts. fresh_node n \<and> tn_task_id n = k"
      using Cons.prems(3-5) by (force simp: in_set_dset fresh_node_def keyed_def split: if_splits)
    then have "dwf ?ts" "keyed ?ts" "\<forall>n\<in>set (dvals ?ts). fresh_node n"
      using Cons.prems(3) by (auto simp: keyed_def)
    then show ?thesis using Cons.IH [of ?ts] Cons.prems(1,2) Some deps by simp
  qed
qed simp

lemma fresh_life_inv:
  assumes "graph_inv ts" "\<forall>n\<in>set (dvals ts). fresh_node n"
  shows "life_inv ts"
proof -
  have "tstate ts k = Some s \<Longrightarrow> s = PENDING" for k s
    using assms(2) by (force simp: tstate_def fresh_node_def dest!: map_of_SomeD)
  then have "state_inv ts"
    by (fastforce simp: state_inv_def progressed_def dead_def)
  moreover have "\<forall>n\<in>set (dvals ts). retry_ok n"
    using assms(2) by (auto simp: fresh_node_def retry_ok_def)
  ultimately show ?thesis using assms(1) by (simp add: life_inv_def)
qed

lemma create_workflow_inv:
  assumes "create_workflow now f wid name specs = Inr w"
  shows "life_inv (wf_tasks w) \<and> (\<forall>n\<in>set (dvals (wf_tasks w)). fresh_node n)"
proof -
  let ?m = "name_nodes now f 0 specs []"
  obtain ts where b: "build_tasks ?m specs [] = Inr ts" and v: "validate_no_cycles ts = Inr ()"
    and w: "wf_tasks w = ts"
    using assms by (auto simp: create_workflow_def split: sum.splits)
  have f: "dwf ts \<and> keyed ts \<and> (\<forall>n\<in>set (dvals ts). fresh_node n)"
    by (rule build_tasks_fresh [OF b]) (use name_nodes_fresh [of "[]"] in \<open>auto simp: keyed_def\<close>)
  then have "graph_inv ts" using validate_spec(1) [of ts] v by (simp add: graph_inv_def)
  then show ?thesis using f fresh_life_inv w by simp
qed

section \<open>Acceptance in terms of the names\<close>

definition name_rel :: "task_spec list \<Rightarrow> (string \<times> string) set" where
  "name_rel specs = {(d, ts_name s) | d s. s \<in> set specs \<and> d \<in> set (ts_depends_on s)}"

definition names_known :: "task_spec list \<Rightarrow> bool" where
  "names_known specs \<longleftrightarrow> (\<forall>s\<in>set specs. set (ts_depends_on s) \<subseteq> ts_name ` set specs)"

lemma acyclic_image:
  assumes inj: "inj_on g (Field r)"
  shows "acyclic (map_prod g g ` r) \<longleftrightarrow> acyclic r"
proof -
  have up: "(a, b) \<in> r\<^sup>+ \<Longrightarrow> (g a, g b) \<in> (map_prod g g ` r)\<^sup>+" for a b
  proof (induction rule: trancl_induct)
    case (base y)
    then show ?case by (force intro!: r_into_trancl)
  next
    case (step y z)
    then have "(g y, g z) \<in> map_prod g g ` r" by force
    then show ?case using step by (meson trancl_into_trancl)
  qed
  have down: "(x, y) \<in> (map_prod g g ` r)\<^sup>+ \<Longrightarrow> \<exists>a b. x = g a \<and> y = g b \<and> (a, b) \<in> r\<^sup>+" for x y
  proof (induction rule: trancl_induct)
    case (base y)
    then show ?case by force
  next
    case (step y z)
    then obtain a b c d where *: "x = g a" "y = g b" "(a, b) \<in> r\<^sup>+" "y = g c" "z = g d" "(c, d) \<in> r"
      by auto
    have "b = c" using inj * by (meson FieldI1 FieldI2 inj_onD trancl.cases)
    then have "(a, d) \<in> r\<^sup>+" using * trancl_into_trancl [of a b r d] by simp
    then show ?case using * by blast
  qed
  have "\<not> acyclic r \<Longrightarrow> \<not> acyclic (map_prod g g ` r)"
    using up by (auto simp: acyclic_def)
  moreover have "\<not> acyclic (map_prod g g ` r) \<Longrightarrow> \<not> acyclic r"
  proof -
    assume "\<not> acyclic (map_prod g g ` r)"
    then obtain x where "(x, x) \<in> (map_prod g g ` r)\<^sup>+" by (auto simp: acyclic_def)
    then obtain a b where ab: "g a = g b" "(a, b) \<in> r\<^sup>+" using down by metis
    then have "a \<in> Field r" "b \<in> Field r"
      by (meson FieldI1 converse_tranclE, meson FieldI2 tranclE)
    then show "\<not> acyclic r" using inj ab by (auto simp: acyclic_def inj_on_def)
  qed
  ultimately show ?thesis by blast
qed

text \<open>The table built from specifications whose names and dependencies are in order.\<close>

lemma build_tasks_ok:
  assumes "\<forall>s\<in>set ss. ts_name s \<in> set (dkeys m) \<and> set (ts_depends_on s) \<subseteq> set (dkeys m)"
    "inj_on (id_of m) (set (dkeys m))" "distinct (map ts_name ss)" "dwf ts"
    "\<forall>s\<in>set ss. id_of m (ts_name s) \<notin> set (dkeys ts)"
  shows "\<exists>ts'. build_tasks m ss ts = Inr ts' \<and> dwf ts' \<and>
     set (dkeys ts') = set (dkeys ts) \<union> id_of m ` ts_name ` set ss \<and>
     dep_rel ts' = dep_rel ts \<union> {(id_of m d, id_of m (ts_name s)) | d s. s \<in> set ss \<and> d \<in> set (ts_depends_on s)}"
  using assms
proof (induction ss arbitrary: ts)
  case (Cons s ss)
  obtain n where n: "dget m (ts_name s) = Some n"
    using Cons.prems(1) by (metis dget_dom list.set_intros(1))
  have idn: "tn_task_id n = id_of m (ts_name s)" using n by (simp add: id_of_def)
  obtain deps where deps: "resolve_deps m (tn_task_id n) (ts_depends_on s) [] = Inr deps"
      "set deps = id_of m ` set (ts_depends_on s)"
    using resolve_deps_ok [of "ts_depends_on s" m "tn_task_id n" "[]"] Cons.prems(1) by auto
  let ?ts = "dset (tn_task_id n) (n\<lparr>tn_depends_on := deps\<rparr>) ts"
  have new: "tn_task_id n \<notin> set (dkeys ts)" using Cons.prems(5) idn by simp
  have rel: "dep_rel ?ts = dep_rel ts \<union> {(id_of m d, id_of m (ts_name s)) | d. d \<in> set (ts_depends_on s)}"
  proof (intro set_eqI)
    fix p
    have "(fst p, snd p) \<in> dep_rel ts \<Longrightarrow> snd p \<noteq> tn_task_id n"
      using new by (force simp: dep_rel_def)
    then show "p \<in> dep_rel ?ts \<longleftrightarrow> p \<in> dep_rel ts \<union> {(id_of m d, id_of m (ts_name s)) | d. d \<in> set (ts_depends_on s)}"
      using Cons.prems(4) deps(2) idn by (cases p) (auto simp: dep_rel_def in_set_dset)
  qed
  have "id_of m (ts_name s') \<noteq> tn_task_id n" if "s' \<in> set ss" for s'
  proof
    assume "id_of m (ts_name s') = tn_task_id n"
    then have "ts_name s' = ts_name s"
      using inj_onD [OF Cons.prems(2), of "ts_name s'" "ts_name s"] Cons.prems(1) that idn by simp
    then have "ts_name s \<in> ts_name ` set ss" using that by (metis imageI)
    then show False using Cons.prems(3) by simp
  qed
  then have "\<exists>ts'. build_tasks m ss ?ts = Inr ts' \<and> dwf ts' \<and>
     set (dkeys ts') = set (dkeys ?ts) \<union> id_of m ` ts_name ` set ss \<and>
     dep_rel ts' = dep_rel ?ts \<union> {(id_of m d, id_of m (ts_name s)) | d s. s \<in> set ss \<and> d \<in> set (ts_depends_on s)}"
    using Cons.prems by (intro Cons.IH) (auto simp: set_dkeys_dset)
  then obtain ts' where "build_tasks m ss ?ts = Inr ts'" "dwf ts'"
     "set (dkeys ts') = set (dkeys ?ts) \<union> id_of m ` ts_name ` set ss"
     "dep_rel ts' = dep_rel ?ts \<union> {(id_of m d, id_of m (ts_name s)) | d s. s \<in> set ss \<and> d \<in> set (ts_depends_on s)}"
    by blast
  then show ?case
    using n deps(1) rel idn by (intro exI [of _ ts']) (auto simp: set_dkeys_dset)
qed simp

lemma build_tasks_unknown:
  assumes "\<forall>s\<in>set ss. ts_name s \<in> set (dkeys m)" "\<exists>s\<in>set ss. \<not> set (ts_depends_on s) \<subseteq> set (dkeys m)"
  shows "\<exists>t d. build_tasks m ss ts = Inl (InvalidDependency t d)"
  using assms
proof (induction ss arbitrary: ts)
  case (Cons s ss)
  obtain n where n: "dget m (ts_name s) = Some n"
    using Cons.prems(1) by (metis dget_dom list.set_intros(1))
  show ?case
  proof (cases "set (ts_depends_on s) \<subseteq> set (dkeys m)")
    case True
    then obtain deps where "resolve_deps m (tn_task_id n) (ts_depends_on s) [] = Inr deps"
      using resolve_deps_ok by blast
    then show ?thesis using Cons n True by auto
  next
    case False
    then show ?thesis using resolve_deps_unknown [OF False, of "tn_task_id n" "[]"] n by auto
  qed
qed simp

lemma id_of_inj:
  assumes "distinct (map ts_name specs)" "inj_on f {..<length specs}"
  shows "inj_on (id_of (name_nodes now f 0 specs [])) (ts_name ` set specs)"
proof (rule inj_onI)
  fix a b assume ab: "a \<in> ts_name ` set specs" "b \<in> ts_name ` set specs"
    and eq: "id_of (name_nodes now f 0 specs []) a = id_of (name_nodes now f 0 specs []) b"
  obtain i j where "i < length specs" "a = ts_name (specs ! i)" "j < length specs" "b = ts_name (specs ! j)"
    using ab by (metis imageE in_set_conv_nth)
  then show "a = b"
    using eq assms by (auto simp: id_of_def name_nodes_nth new_node_def inj_on_def)
qed

theorem create_accepts:
  assumes "distinct (map ts_name specs)" "inj_on f {..<length specs}"
  shows "(\<exists>w. create_workflow now f wid name specs = Inr w) \<longleftrightarrow> names_known specs \<and> acyclic (name_rel specs)"
proof -
  let ?m = "name_nodes now f 0 specs []"
  have km: "set (dkeys ?m) = ts_name ` set specs" using name_nodes_keys [of now f 0 specs "[]"] by simp
  show ?thesis
  proof (cases "names_known specs")
    case False
    then have "\<exists>s\<in>set specs. \<not> set (ts_depends_on s) \<subseteq> set (dkeys ?m)"
      using km by (simp add: names_known_def)
    moreover have "\<forall>s\<in>set specs. ts_name s \<in> set (dkeys ?m)" using km by simp
    ultimately obtain t d where "build_tasks ?m specs [] = Inl (InvalidDependency t d)"
      using build_tasks_unknown [of specs ?m "[]"] by blast
    then show ?thesis using False by (simp add: create_workflow_def)
  next
    case True
    have inj: "inj_on (id_of ?m) (set (dkeys ?m))" using id_of_inj [OF assms] km by simp
    obtain ts where ts: "build_tasks ?m specs [] = Inr ts" "dwf ts" "set (dkeys ts) = id_of ?m ` ts_name ` set specs"
        "dep_rel ts = {(id_of ?m d, id_of ?m (ts_name s)) | d s. s \<in> set specs \<and> d \<in> set (ts_depends_on s)}"
      using build_tasks_ok [OF _ inj assms(1), of "[]"] True km by (force simp: names_known_def dep_rel_def)
    have rel: "dep_rel ts = map_prod (id_of ?m) (id_of ?m) ` name_rel specs"
      unfolding ts(4) name_rel_def by force
    have "dwf ts \<and> keyed ts \<and> (\<forall>n\<in>set (dvals ts). fresh_node n)"
      by (rule build_tasks_fresh [OF ts(1)]) (use name_nodes_fresh [of "[]"] in \<open>auto simp: keyed_def\<close>)
    moreover have "deps_exist ts"
    proof -
      have "d \<in> set (dkeys ts)" if "(t, n) \<in> set ts" "d \<in> set (tn_depends_on n)" for t n d
      proof -
        have "(d, t) \<in> dep_rel ts" using that by (auto simp: dep_rel_def)
        then obtain e s where e: "d = id_of ?m e" "s \<in> set specs" "e \<in> set (ts_depends_on s)"
          unfolding ts(4) by blast
        have "e \<in> ts_name ` set specs" using True e by (auto simp: names_known_def)
        then show ?thesis unfolding ts(3) e(1) by (rule imageI)
      qed
      then show ?thesis by (auto simp: deps_exist_def)
    qed
    moreover have "Field (name_rel specs) \<subseteq> ts_name ` set specs"
      using True by (auto simp: name_rel_def Field_def names_known_def)
    then have "acyclic (dep_rel ts) \<longleftrightarrow> acyclic (name_rel specs)"
      unfolding rel using inj km by (intro acyclic_image) (auto intro: inj_on_subset)
    ultimately have "validate_no_cycles ts = Inr () \<longleftrightarrow> acyclic (name_rel specs)"
      using validate_spec(1) [of ts] by simp
    then show ?thesis
      using ts(1) True by (auto simp: create_workflow_def split: sum.splits)
  qed
qed

end
