(* ===== verification/Orchestrator.thy ===== *)
theory Orchestrator
  imports Workflow_Create
begin

text \<open>
  The orchestration service (\<open>application/orchestrator_service.py\<close>) over the in-memory
  workflow repository (\<open>infrastructure/workflow_repository.py\<close>), and the processing of one
  queued task by a worker (\<open>application/task_worker.py\<close>).

  The repository hands out the stored object itself, so what an operation of the aggregate
  changes is in the store at once, also when it raises afterwards. Writes to the repository
  and publications are recorded, in their order, in a trace. The timestamp of an event is left
  out: nothing here reads it.
\<close>

section \<open>State and effects\<close>

record event =
  ev_name :: string
  ev_payload :: "(string, pyval) dict"

datatype effect = Persist workflow | Publish event

datatype orch_error = WorkflowNotFound string | AgentNotFound string | WfError wf_error

record orch =
  or_store :: "(string, workflow) dict"
  or_agents :: "string list"
  or_trace :: "effect list"

definition repo_add :: "workflow \<Rightarrow> orch \<Rightarrow> orch" where
  "repo_add w s = s\<lparr>or_store := dset (wf_id w) w (or_store s), or_trace := or_trace s @ [Persist w]\<rparr>"

definition repo_get :: "orch \<Rightarrow> string \<Rightarrow> orch_error + workflow" where
  "repo_get s wid = (case dget (or_store s) wid of None \<Rightarrow> Inl (WorkflowNotFound wid) | Some w \<Rightarrow> Inr w)"

definition repo_update :: "workflow \<Rightarrow> orch \<Rightarrow> (orch_error + unit) \<times> orch" where
  "repo_update w s =
     (case dget (or_store s) (wf_id w) of
        None \<Rightarrow> (Inl (WorkflowNotFound (wf_id w)), s)
      | Some _ \<Rightarrow> (Inr (), repo_add w s))"

definition list_workflows :: "orch \<Rightarrow> workflow list" where
  "list_workflows s = dvals (or_store s)"

definition publish :: "event list \<Rightarrow> orch \<Rightarrow> orch" where
  "publish evs s = s\<lparr>or_trace := or_trace s @ map Publish evs\<rparr>"

text \<open>A change of the stored object through a reference.\<close>

definition mutate :: "string \<Rightarrow> workflow \<Rightarrow> orch \<Rightarrow> orch" where
  "mutate wid w s = s\<lparr>or_store := dmod wid (\<lambda>_. w) (or_store s)\<rparr>"

section \<open>The service\<close>

definition wf_event :: "string \<Rightarrow> string \<Rightarrow> event" where
  "wf_event name wid = \<lparr>ev_name = name, ev_payload = [(''workflow_id'', PStr wid)]\<rparr>"

definition task_event :: "string \<Rightarrow> string \<Rightarrow> string \<Rightarrow> (string, pyval) dict \<Rightarrow> event" where
  "task_event name wid tid extra =
     \<lparr>ev_name = name, ev_payload = (''workflow_id'', PStr wid) # (''task_id'', PStr tid) # extra\<rparr>"

fun mark_all :: "task_node list \<Rightarrow> workflow \<Rightarrow> (wf_error + task_node list) \<times> workflow" where
  "mark_all [] w = (Inr [], w)"
| "mark_all (n # ns) w =
     (case mark_ready w (tn_task_id n) of
        (Inl e, w') \<Rightarrow> (Inl e, w')
      | (Inr n', w') \<Rightarrow> (let r = mark_all ns w' in (map_sum id (\<lambda>ms. n' # ms) (fst r), snd r)))"

definition mark_ready_tasks :: "workflow \<Rightarrow> (wf_error + task_node list) \<times> workflow" where
  "mark_ready_tasks w = mark_all (ready_tasks w) w"

definition ready_events :: "string \<Rightarrow> task_node list \<Rightarrow> event list" where
  "ready_events wid ns = map (\<lambda>n. task_event ''task.ready'' wid (tn_task_id n) []) ns"

fun check_agents :: "string list \<Rightarrow> task_spec list \<Rightarrow> orch_error + unit" where
  "check_agents ags [] = Inr ()"
| "check_agents ags (s # ss) =
     (case ts_agent_id s of
        None \<Rightarrow> check_agents ags ss
      | Some a \<Rightarrow> if a \<in> set ags then check_agents ags ss else Inl (AgentNotFound a))"

definition orch_create ::
    "real \<Rightarrow> (nat \<Rightarrow> string) \<Rightarrow> string \<Rightarrow> string \<Rightarrow> task_spec list \<Rightarrow> orch
     \<Rightarrow> (orch_error + workflow) \<times> orch" where
  "orch_create now new_id wid name specs s =
     (case check_agents (or_agents s) specs of
        Inl e \<Rightarrow> (Inl e, s)
      | Inr _ \<Rightarrow>
          (case create_workflow now new_id wid name specs of
             Inl e \<Rightarrow> (Inl (WfError e), s)
           | Inr w \<Rightarrow>
               (case mark_ready_tasks w of
                  (Inl e, w') \<Rightarrow> (Inl (WfError e), s)
                | (Inr promoted, w') \<Rightarrow>
                    (Inr w', publish (ready_events wid promoted @ [wf_event ''workflow.created'' wid])
                               (repo_add w' s)))))"

definition get_ready_tasks :: "orch \<Rightarrow> string \<Rightarrow> orch_error + task_node list" where
  "get_ready_tasks s wid =
     map_sum id (\<lambda>w. filter (\<lambda>n. tn_state n = READY) (dvals (wf_tasks w))) (repo_get s wid)"

text \<open>\<open>save w evs s\<close>: persist the aggregate, then publish the events.\<close>

definition save :: "workflow \<Rightarrow> event list \<Rightarrow> 'a \<Rightarrow> orch \<Rightarrow> (orch_error + 'a) \<times> orch" where
  "save w evs r s =
     (case repo_update w s of (Inl e, s') \<Rightarrow> (Inl e, s') | (Inr _, s') \<Rightarrow> (Inr r, publish evs s'))"

definition orch_start :: "real \<Rightarrow> string \<Rightarrow> string \<Rightarrow> orch \<Rightarrow> (orch_error + task_node) \<times> orch" where
  "orch_start now wid tid s =
     (case repo_get s wid of
        Inl e \<Rightarrow> (Inl e, s)
      | Inr w \<Rightarrow>
          (case start_task now w tid of
             (Inl e, w') \<Rightarrow> (Inl (WfError e), mutate wid w' s)
           | (Inr n, w') \<Rightarrow> save w' [task_event ''task.started'' wid tid []] n (mutate wid w' s)))"

definition orch_complete ::
    "real \<Rightarrow> string \<Rightarrow> string \<Rightarrow> pyval \<Rightarrow> orch \<Rightarrow> (orch_error + workflow) \<times> orch" where
  "orch_complete now wid tid res s =
     (case repo_get s wid of
        Inl e \<Rightarrow> (Inl e, s)
      | Inr w \<Rightarrow>
          (case complete_task now w tid res of
             (Inl e, w') \<Rightarrow> (Inl (WfError e), mutate wid w' s)
           | (Inr _, w') \<Rightarrow>
               (case mark_ready_tasks w' of
                  (Inl e, w'') \<Rightarrow> (Inl (WfError e), mutate wid w'' s)
                | (Inr promoted, w'') \<Rightarrow>
                    save w'' ([task_event ''task.completed'' wid tid []] @ ready_events wid promoted @
                              (if is_complete w'' then [wf_event ''workflow.completed'' wid] else []))
                      w'' (mutate wid w'' s))))"

definition cancel_events :: "string \<Rightarrow> string \<Rightarrow> task_node list \<Rightarrow> event list" where
  "cancel_events wid tid cs =
     map (\<lambda>c. task_event ''task.cancelled'' wid (tn_task_id c)
                [(''reason'', PStr (''upstream_failure:'' @ tid))]) cs"

definition orch_fail :: "string \<Rightarrow> string \<Rightarrow> string \<Rightarrow> orch \<Rightarrow> (orch_error + workflow) \<times> orch" where
  "orch_fail wid tid err s =
     (case repo_get s wid of
        Inl e \<Rightarrow> (Inl e, s)
      | Inr w \<Rightarrow>
          (case fail_task w tid err of
             (Inl e, w') \<Rightarrow> (Inl (WfError e), mutate wid w' s)
           | (Inr (n, cancelled), w') \<Rightarrow>
               if tn_state n = PENDING
               then (case mark_ready_tasks w' of
                       (Inl e, w'') \<Rightarrow> (Inl (WfError e), mutate wid w'' s)
                     | (Inr promoted, w'') \<Rightarrow>
                         save w'' (task_event ''task.retrying'' wid tid [(''attempt'', PInt (tn_retry_count n))]
                                   # ready_events wid promoted)
                           w'' (mutate wid w'' s))
               else save w' (task_event ''task.failed'' wid tid [(''error'', PStr err)]
                             # cancel_events wid tid cancelled
                             @ [task_event ''workflow.failed'' wid tid []])
                      w' (mutate wid w' s)))"

section \<open>The worker\<close>

text \<open>What the subscriber of \<open>task.ready\<close> puts on the queue.\<close>

definition enqueue :: "event \<Rightarrow> (pyval \<times> pyval) list" where
  "enqueue ev =
     (let wid = pget (ev_payload ev) ''workflow_id''; tid = pget (ev_payload ev) ''task_id''
      in if truthy wid \<and> truthy tid then [(wid, tid)] else [])"

text \<open>
  One queued task. \<open>lease\<close> is \<open>None\<close> without a coordinator and otherwise the answers of
  \<open>acquire\<close> and \<open>complete\<close>; \<open>res\<close> is the outcome of the executor, on an exception its text.
\<close>

definition process ::
    "real \<Rightarrow> (bool \<times> bool) option \<Rightarrow> string + pyval \<Rightarrow> string \<Rightarrow> string \<Rightarrow> orch \<Rightarrow> (orch_error + unit) \<times> orch" where
  "process now lease res wid tid s =
     (case orch_start now wid tid s of
        (Inl (WorkflowNotFound _), s1) \<Rightarrow> (Inr (), s1)
      | (Inl (WfError (TaskNotFound _)), s1) \<Rightarrow> (Inr (), s1)
      | (Inl e, s1) \<Rightarrow> (Inl e, s1)
      | (Inr _, s1) \<Rightarrow>
          apfst (map_sum id (\<lambda>_. ()))
            (if lease \<noteq> None \<and> \<not> fst (the lease)
             then orch_fail wid tid ''Cluster task lease was not committed.'' s1
             else case res of
                    Inl msg \<Rightarrow> orch_fail wid tid msg s1
                  | Inr v \<Rightarrow>
                      if lease \<noteq> None \<and> \<not> snd (the lease)
                      then orch_fail wid tid
                             ''Task result withheld: cluster completion was not committed.'' s1
                      else orch_complete now wid tid v s1))"

end
