(* ===== verification/Orchestrator_Inv.thy ===== *)
theory Orchestrator_Inv
  imports Orchestrator
begin

text \<open>
  What the operations of the aggregate and of the service keep: tasks only move forward (a
  terminal task and its result never change, the retry counter never falls, the shape of the
  graph is fixed), every stored workflow satisfies the invariant of the life cycle, and the
  events announce every task that becomes ready exactly once.
\<close>

section \<open>Tasks only move forward\<close>

definition node_le :: "task_node \<Rightarrow> task_node \<Rightarrow> bool" where
  "node_le n n' \<longleftrightarrow> same_shape n n' \<and> tn_retry_count n \<le> tn_retry_count n' \<and>
     (terminal (tn_state n) \<longrightarrow> tn_state n' = tn_state n \<and> tn_result n' = tn_result n)"

definition tasks_le :: "tasks \<Rightarrow> tasks \<Rightarrow> bool" where
  "tasks_le ts ts' \<longleftrightarrow> dkeys ts' = dkeys ts \<and>
     (\<forall>k n. dget ts k = Some n \<longrightarrow> (\<exists>n'. dget ts' k = Some n' \<and> node_le n n'))"

definition wf_le :: "workflow \<Rightarrow> workflow \<Rightarrow> bool" where
  "wf_le w w' \<longleftrightarrow> wf_id w' = wf_id w \<and> tasks_le (wf_tasks w) (wf_tasks w')"

lemma node_le_refl [simp]: "node_le n n"
  by (simp add: node_le_def same_shape_def)

lemma node_le_trans: "node_le a b \<Longrightarrow> node_le b c \<Longrightarrow> node_le a c"
  by (auto simp: node_le_def same_shape_def)

lemma tasks_le_refl [simp]: "tasks_le ts ts"
  by (simp add: tasks_le_def)

lemma tasks_le_trans: "tasks_le a b \<Longrightarrow> tasks_le b c \<Longrightarrow> tasks_le a c"
  unfolding tasks_le_def by (metis node_le_trans)

lemma wf_le_refl [simp]: "wf_le w w"
  by (simp add: wf_le_def)

lemma wf_le_trans: "wf_le a b \<Longrightarrow> wf_le b c \<Longrightarrow> wf_le a c"
  unfolding wf_le_def by (auto intro: tasks_le_trans)

lemma tasks_le_dmod: "dget ts k = Some n \<Longrightarrow> node_le n n' \<Longrightarrow> tasks_le ts (dmod k (\<lambda>_. n') ts)"
  by (auto simp: tasks_le_def dget_dmod)

lemma wf_le_put: "dget (wf_tasks w) k = Some n \<Longrightarrow> node_le n n' \<Longrightarrow> wf_le w (put_task k n' w)"
  by (simp add: wf_le_def put_task_def tasks_le_dmod)

lemma transition_not_terminal:
  "transition_to s n = Inr n' \<Longrightarrow> \<not> terminal (tn_state n)"
  by (auto simp: transition_to_Inr allowed_task_iff terminal_def)

lemma mark_ready_le: "mark_ready w tid = (r, w') \<Longrightarrow> wf_le w w'"
  by (auto simp: mark_ready_def get_task_Inr transition_to_Inr allowed_task_iff node_le_def
      same_shape_def terminal_def split: sum.splits intro!: wf_le_put)

lemma start_task_le: "start_task now w tid = (r, w') \<Longrightarrow> wf_le w w'"
  by (auto simp: start_task_def get_task_Inr transition_to_Inr allowed_task_iff node_le_def Let_def
      same_shape_def terminal_def split: sum.splits intro!: wf_le_put)

lemma complete_task_le: "complete_task now w tid res = (r, w') \<Longrightarrow> wf_le w w'"
  by (auto simp: complete_task_def get_task_Inr transition_to_Inr allowed_task_iff node_le_def Let_def
      same_shape_def terminal_def split: sum.splits intro!: wf_le_put)

lemma cascade_pass_le: "tasks_le ts (snd (cascade_pass ks ts))"
proof (induction ks ts rule: cascade_pass.induct)
  case (2 k ks ts)
  show ?case
  proof (cases "dget ts k")
    case None
    then show ?thesis using "2.IH"(1) by simp
  next
    case (Some n)
    show ?thesis
    proof (cases "terminal (tn_state n) \<or> \<not> depends_on_failed ts n")
      case True
      then show ?thesis using "2.IH"(2) [OF Some True] Some by simp
    next
      case False
      show ?thesis
      proof (cases "transition_to CANCELLED n")
        case (Inl e)
        then show ?thesis using Some False by simp
      next
        case (Inr n')
        then have "tasks_le ts (dmod k (\<lambda>_. n') ts)"
          using Some False by (intro tasks_le_dmod) (auto simp: transition_to_Inr node_le_def same_shape_def)
        then show ?thesis
          using "2.IH"(3) [OF Some False Inr] Some False Inr by (auto simp: Let_def intro: tasks_le_trans)
      qed
    qed
  qed
qed simp

lemma cascade_cancel_le: "tasks_le ts (snd (cascade_cancel ts))"
proof (induction ts rule: cascade_cancel.induct)
  case (1 ts)
  let ?r = "cascade_pass (dkeys ts) ts"
  have p: "tasks_le ts (snd ?r)" by (rule cascade_pass_le)
  show ?case
  proof (cases "fst ?r")
    case (Inl e)
    then show ?thesis using p by (simp add: cascade_cancel.simps [of ts] Let_def)
  next
    case (Inr cs)
    show ?thesis
    proof (cases cs)
      case Nil
      then show ?thesis using p Inr by (simp add: cascade_cancel.simps [of ts] Let_def)
    next
      case (Cons c cs')
      then have "tasks_le (snd ?r) (snd (cascade_cancel (snd ?r)))"
        using "1.IH" [OF refl] Inr by simp
      then have "tasks_le ts (snd (cascade_cancel (snd ?r)))" using p tasks_le_trans by blast
      then show ?thesis using Inr Cons by (simp add: cascade_cancel.simps [of ts] Let_def)
    qed
  qed
qed

lemma fail_task_le:
  assumes op: "fail_task w tid err = (r, w')"
  shows "wf_le w w'"
proof (cases "get_task w tid")
  case (Inl e)
  then show ?thesis using op by (simp add: fail_task_def)
next
  case (Inr n)
  then have n: "dget (wf_tasks w) tid = Some n" by (simp add: get_task_Inr)
  show ?thesis
  proof (cases "tn_retry_count n < tn_max_retries n")
    case True
    then show ?thesis using op Inr n
      by (auto simp: fail_task_def Let_def transition_to_Inr allowed_task_iff node_le_def
          same_shape_def terminal_def split: sum.splits intro!: wf_le_put)
  next
    case False
    show ?thesis
    proof (cases "transition_to FAILED (n\<lparr>tn_error := Some err\<rparr>)")
      case (Inl e)
      then show ?thesis using op \<open>get_task w tid = Inr n\<close> n False
        by (auto simp: fail_task_def Let_def node_le_def same_shape_def intro!: wf_le_put)
    next
      case (Inr n2)
      have "tasks_le (wf_tasks w) (dmod tid (\<lambda>_. n2) (wf_tasks w))"
        using n Inr by (intro tasks_le_dmod)
          (auto simp: transition_to_Inr allowed_task_iff node_le_def same_shape_def terminal_def)
      then have "tasks_le (wf_tasks w) (snd (cascade_cancel (dmod tid (\<lambda>_. n2) (wf_tasks w))))"
        using cascade_cancel_le tasks_le_trans by blast
      then show ?thesis using op \<open>get_task w tid = Inr n\<close> False Inr
        by (auto simp: fail_task_def Let_def wf_le_def)
    qed
  qed
qed

lemma mark_all_le: "mark_all ns w = (r, w') \<Longrightarrow> wf_le w w'"
proof (induction ns arbitrary: w r w')
  case (Cons n ns)
  obtain r1 w1 where m: "mark_ready w (tn_task_id n) = (r1, w1)" by fastforce
  show ?case
  proof (cases r1)
    case (Inl e)
    then show ?thesis using Cons.prems m mark_ready_le [OF m] by simp
  next
    case (Inr n1)
    then have "wf_le w1 (snd (mark_all ns w1))" using Cons.IH [of w1 "fst (mark_all ns w1)"] by simp
    then show ?thesis
      using Cons.prems m Inr mark_ready_le [OF m] by (auto simp: Let_def intro: wf_le_trans)
  qed
qed simp

section \<open>Promotion of the ready tasks\<close>

text \<open>The tasks the list names are ready in the table: pending, every dependency completed.\<close>

definition promotable :: "tasks \<Rightarrow> task_node list \<Rightarrow> bool" where
  "promotable ts ns \<longleftrightarrow> distinct (map tn_task_id ns) \<and>
     (\<forall>n\<in>set ns. dget ts (tn_task_id n) = Some n \<and> tn_state n = PENDING \<and>
        (\<forall>d\<in>set (tn_depends_on n). tstate ts d = Some COMPLETED))"

lemma ready_tasks_promotable:
  assumes "life_inv (wf_tasks w)"
  shows "promotable (wf_tasks w) (ready_tasks w)"
proof -
  have wf: "dwf (wf_tasks w)" "keyed (wf_tasks w)" using assms by (auto simp: life_inv_def graph_inv_def)
  then have ids: "map tn_task_id (dvals (wf_tasks w)) = dkeys (wf_tasks w)"
    unfolding keyed_def map_map by (intro map_cong) auto
  have "distinct (map tn_task_id (ready_tasks w))"
    unfolding ready_tasks_def by (rule distinct_map_filter) (simp only: ids wf(1))
  moreover have "dget (wf_tasks w) (tn_task_id n) = Some n" if nin: "n \<in> set (dvals (wf_tasks w))" for n
  proof -
    obtain k where k: "(k, n) \<in> set (wf_tasks w)" using nin by auto
    then have "tn_task_id n = k" using wf(2) by (auto simp: keyed_def)
    then show ?thesis using k wf(1) by (simp add: dget_iff_in_set)
  qed
  ultimately show ?thesis
    by (simp add: promotable_def ready_tasks_def)
qed

lemma mark_all_spec:
  assumes "life_inv (wf_tasks w)" "promotable (wf_tasks w) ns"
  shows "\<exists>ms w'. mark_all ns w = (Inr ms, w') \<and> life_inv (wf_tasks w') \<and>
     map tn_task_id ms = map tn_task_id ns \<and>
     (\<forall>k. tstate (wf_tasks w') k =
        (if k \<in> tn_task_id ` set ns then Some READY else tstate (wf_tasks w) k))"
  using assms
proof (induction ns arbitrary: w)
  case (Cons n ns)
  let ?k = "tn_task_id n" and ?n = "n\<lparr>tn_state := READY\<rparr>"
  let ?w = "put_task ?k ?n w"
  have n: "dget (wf_tasks w) ?k = Some n" "tn_state n = PENDING"
      "\<forall>d\<in>set (tn_depends_on n). tstate (wf_tasks w) d = Some COMPLETED"
    using Cons.prems(2) by (auto simp: promotable_def)
  have m: "mark_ready w ?k = (Inr ?n, ?w)"
    using n by (simp add: mark_ready_def get_task_def transition_to_def)
  have in_ready: "x \<in> set (ready_tasks w)" if "dget (wf_tasks w) ?k = Some x" for x
    using that n by (force simp: ready_tasks_def dest: map_of_SomeD)
  have inv: "life_inv (wf_tasks ?w)"
    using mark_ready_inv [OF Cons.prems(1) in_ready m] .
  have st: "tstate (wf_tasks ?w) k = (if k = ?k then Some READY else tstate (wf_tasks w) k)" for k
    using n by (simp add: put_task_def tstate_dmod)
  have "promotable (wf_tasks ?w) ns"
    unfolding promotable_def
  proof (intro conjI ballI)
    show "distinct (map tn_task_id ns)" using Cons.prems(2) by (simp add: promotable_def)
  next
    fix x assume x: "x \<in> set ns"
    then have "tn_task_id x \<noteq> ?k" using Cons.prems(2) by (force simp: promotable_def)
    then show "dget (wf_tasks ?w) (tn_task_id x) = Some x"
      using x Cons.prems(2) by (simp add: promotable_def put_task_def dget_dmod)
    show "tn_state x = PENDING" using x Cons.prems(2) by (simp add: promotable_def)
    fix d assume "d \<in> set (tn_depends_on x)"
    then have "tstate (wf_tasks w) d = Some COMPLETED" using x Cons.prems(2) by (simp add: promotable_def)
    then show "tstate (wf_tasks ?w) d = Some COMPLETED"
      using n(1,2) by (cases "d = ?k") (simp_all add: st, simp add: tstate_def)
  qed
  then obtain ms w' where ms: "mark_all ns ?w = (Inr ms, w')" "life_inv (wf_tasks w')"
      "map tn_task_id ms = map tn_task_id ns"
      "\<forall>k. tstate (wf_tasks w') k = (if k \<in> tn_task_id ` set ns then Some READY else tstate (wf_tasks ?w) k)"
    using Cons.IH [OF inv] by blast
  then show ?case using m st by (intro exI [of _ "?n # ms"] exI [of _ w']) (auto simp: Let_def)
qed (simp add: promotable_def)

lemma mark_ready_tasks_spec:
  assumes "life_inv (wf_tasks w)"
  shows "\<exists>ms w'. mark_ready_tasks w = (Inr ms, w') \<and> life_inv (wf_tasks w') \<and> wf_le w w' \<and>
     distinct (map tn_task_id ms) \<and>
     tn_task_id ` set ms = {k. tstate (wf_tasks w) k = Some PENDING \<and>
        (\<forall>d\<in>set (tdeps (wf_tasks w) k). tstate (wf_tasks w) d = Some COMPLETED)} \<and>
     (\<forall>k. tstate (wf_tasks w') k =
        (if k \<in> tn_task_id ` set ms then Some READY else tstate (wf_tasks w) k))"
proof -
  have p: "promotable (wf_tasks w) (ready_tasks w)" using ready_tasks_promotable [OF assms] .
  obtain ms w' where m: "mark_all (ready_tasks w) w = (Inr ms, w')" "life_inv (wf_tasks w')"
      "map tn_task_id ms = map tn_task_id (ready_tasks w)"
      "\<forall>k. tstate (wf_tasks w') k =
         (if k \<in> tn_task_id ` set (ready_tasks w) then Some READY else tstate (wf_tasks w) k)"
    using mark_all_spec [OF assms p] by blast
  have ids: "tn_task_id ` set ms = tn_task_id ` set (ready_tasks w)"
    using m(3) by (metis set_map)
  have wf: "dwf (wf_tasks w)" "keyed (wf_tasks w)" using assms by (auto simp: life_inv_def graph_inv_def)
  have "tn_task_id ` set (ready_tasks w) = {k. tstate (wf_tasks w) k = Some PENDING \<and>
        (\<forall>d\<in>set (tdeps (wf_tasks w) k). tstate (wf_tasks w) d = Some COMPLETED)}" (is "?A = ?B")
  proof (intro set_eqI iffI)
    fix k assume "k \<in> ?A"
    then obtain n where "n \<in> set (ready_tasks w)" "k = tn_task_id n" by blast
    then show "k \<in> ?B" using p by (auto simp: promotable_def tstate_def tdeps_def)
  next
    fix k assume k: "k \<in> ?B"
    then obtain n where n: "dget (wf_tasks w) k = Some n" "tn_state n = PENDING"
      by (auto simp: tstate_def)
    then have "n \<in> set (dvals (wf_tasks w))" "tn_task_id n = k"
      using wf by (force simp: keyed_def dest!: map_of_SomeD)+
    then have "n \<in> set (ready_tasks w)" using k n by (auto simp: ready_tasks_def tdeps_def)
    then show "k \<in> ?A" using \<open>tn_task_id n = k\<close> by blast
  qed
  moreover have "distinct (map tn_task_id ms)" using m(3) p by (simp add: promotable_def)
  ultimately show ?thesis
    using m mark_all_le [OF m(1)] ids by (auto simp: mark_ready_tasks_def)
qed

end
