(* ===== verification/Orchestrator_Run.thy ===== *)
theory Orchestrator_Run
  imports Orchestrator_Inv
begin

text \<open>
  The orchestration service as a machine: its operations, the invariant of its state and
  trace, and the interpretation of the generic machine on them.
\<close>

section \<open>Counting and reading events\<close>

lemma task_event_eq [simp]:
  "task_event n v t x = task_event n' v' t' x' \<longleftrightarrow> n = n' \<and> v = v' \<and> t = t' \<and> x = x'"
  by (simp add: task_event_def)

lemma wf_event_neq [simp]: "wf_event n v \<noteq> task_event n' v' t' x'" "task_event n' v' t' x' \<noteq> wf_event n v"
  by (simp_all add: task_event_def wf_event_def)

lemma count_map_inj: "inj f \<Longrightarrow> count_list (map f xs) (f x) = count_list xs x"
  by (induction xs) (auto simp: inj_eq)

lemma count_Publish [simp]: "count_list (map Publish evs) (Publish e) = count_list evs e"
  by (rule count_map_inj) (simp add: inj_def)

lemma count_ready_events:
  "distinct (map tn_task_id ms) \<Longrightarrow>
     count_list (ready_events wid ms) (task_event n v t x) =
       (if n = ''task.ready'' \<and> v = wid \<and> x = [] \<and> t \<in> tn_task_id ` set ms then 1 else 0)"
  by (induction ms) (auto simp: ready_events_def)

lemma count_cancel_events [simp]:
  "count_list (cancel_events wid tid cs) (task_event n v t []) = 0"
  by (induction cs) (auto simp: cancel_events_def)

text \<open>
  \<open>reports e w\<close>: the event describes the workflow as it is in \<open>w\<close>. \<open>ordered db tr\<close>: a reader
  who looks into the database at the moment of a publication finds the workflow in the state
  the event reports, the database holding what was last persisted.
\<close>

definition task_in_state :: "workflow \<Rightarrow> pyval \<Rightarrow> task_state list \<Rightarrow> bool" where
  "task_in_state w v sts =
     (case v of PStr t \<Rightarrow> (case tstate (wf_tasks w) t of None \<Rightarrow> False | Some st \<Rightarrow> st \<in> set sts) | _ \<Rightarrow> False)"

definition reports :: "event \<Rightarrow> workflow \<Rightarrow> bool" where
  "reports e w =
     (let n = ev_name e; t = pget (ev_payload e) ''task_id''
      in if n = ''task.ready'' then task_in_state w t [READY]
         else if n = ''task.started'' then task_in_state w t [RUNNING]
         else if n = ''task.completed'' then task_in_state w t [COMPLETED]
         else if n = ''task.retrying'' then task_in_state w t [PENDING, READY]
         else if n = ''task.failed'' then task_in_state w t [FAILED]
         else if n = ''task.cancelled'' then task_in_state w t [CANCELLED]
         else if n = ''workflow.completed'' then is_complete w
         else if n = ''workflow.failed'' then has_permanent_failure w
         else n = ''workflow.created'')"

definition reported :: "(string, workflow) dict \<Rightarrow> event \<Rightarrow> bool" where
  "reported db e =
     (case pget (ev_payload e) ''workflow_id'' of
        PStr wid \<Rightarrow> (case dget db wid of None \<Rightarrow> False | Some w \<Rightarrow> reports e w)
      | _ \<Rightarrow> False)"

fun ordered :: "(string, workflow) dict \<Rightarrow> effect list \<Rightarrow> bool" where
  "ordered db [] \<longleftrightarrow> True"
| "ordered db (Persist w # tr) \<longleftrightarrow> ordered (dset (wf_id w) w db) tr"
| "ordered db (Publish e # tr) \<longleftrightarrow> reported db e \<and> ordered db tr"

fun db_after :: "(string, workflow) dict \<Rightarrow> effect list \<Rightarrow> (string, workflow) dict" where
  "db_after db [] = db"
| "db_after db (Persist w # tr) = db_after (dset (wf_id w) w db) tr"
| "db_after db (Publish e # tr) = db_after db tr"

lemma ordered_append: "ordered db (tr @ tr') \<longleftrightarrow> ordered db tr \<and> ordered (db_after db tr) tr'"
  by (induction db tr rule: ordered.induct) auto

lemma ordered_publish: "ordered db (map Publish evs) \<longleftrightarrow> (\<forall>e\<in>set evs. reported db e)"
  by (induction evs) auto

lemma reports_task [simp]:
  "reports (task_event ''task.ready'' v t x) w \<longleftrightarrow> tstate (wf_tasks w) t = Some READY"
  "reports (task_event ''task.started'' v t x) w \<longleftrightarrow> tstate (wf_tasks w) t = Some RUNNING"
  "reports (task_event ''task.completed'' v t x) w \<longleftrightarrow> tstate (wf_tasks w) t = Some COMPLETED"
  "reports (task_event ''task.retrying'' v t x) w \<longleftrightarrow>
     tstate (wf_tasks w) t = Some PENDING \<or> tstate (wf_tasks w) t = Some READY"
  "reports (task_event ''task.failed'' v t x) w \<longleftrightarrow> tstate (wf_tasks w) t = Some FAILED"
  "reports (task_event ''task.cancelled'' v t x) w \<longleftrightarrow> tstate (wf_tasks w) t = Some CANCELLED"
  "reports (task_event ''workflow.failed'' v t x) w \<longleftrightarrow> has_permanent_failure w"
  "reports (wf_event ''workflow.completed'' v) w \<longleftrightarrow> is_complete w"
  "reports (wf_event ''workflow.created'' v) w"
  by (auto simp: reports_def task_event_def wf_event_def pget_def task_in_state_def split: option.splits)

lemma pget_event_wid [simp]:
  "pget (ev_payload (task_event n v t x)) ''workflow_id'' = PStr v"
  "pget (ev_payload (wf_event n v)) ''workflow_id'' = PStr v"
  by (simp_all add: task_event_def wf_event_def pget_def)

section \<open>Operations of the machine\<close>

datatype orch_op =
    OCreate real "nat \<Rightarrow> string" string string "task_spec list"
  | OStart real string string
  | OComplete real string string pyval
  | OFail string string string
  | OProcess real "(bool \<times> bool) option" "string + pyval" string string

fun orch_step :: "orch \<Rightarrow> orch_op \<Rightarrow> orch" where
  "orch_step s (OCreate now new_id wid name specs) = snd (orch_create now new_id wid name specs s)"
| "orch_step s (OStart now wid tid) = snd (orch_start now wid tid s)"
| "orch_step s (OComplete now wid tid res) = snd (orch_complete now wid tid res s)"
| "orch_step s (OFail wid tid err) = snd (orch_fail wid tid err s)"
| "orch_step s (OProcess now lease res wid tid) = snd (process now lease res wid tid s)"

text \<open>The identifier drawn for a new workflow is not in use.\<close>

fun orch_ok :: "orch \<Rightarrow> orch_op \<Rightarrow> bool" where
  "orch_ok s (OCreate now new_id wid name specs) \<longleftrightarrow> wid \<notin> set (dkeys (or_store s))"
| "orch_ok s _ \<longleftrightarrow> True"

definition task_in :: "orch \<Rightarrow> string \<Rightarrow> string \<Rightarrow> task_state option" where
  "task_in s wid tid =
     (case dget (or_store s) wid of None \<Rightarrow> None | Some w \<Rightarrow> tstate (wf_tasks w) tid)"

definition announced :: "string \<Rightarrow> string \<Rightarrow> string \<Rightarrow> effect list \<Rightarrow> nat" where
  "announced name wid tid tr = count_list tr (Publish (task_event name wid tid []))"

definition store_inv :: "(string, workflow) dict \<Rightarrow> bool" where
  "store_inv st \<longleftrightarrow> dwf st \<and> (\<forall>k w. dget st k = Some w \<longrightarrow> wf_id w = k \<and> life_inv (wf_tasks w))"

definition orch_inv :: "orch \<Rightarrow> bool" where
  "orch_inv s \<longleftrightarrow> store_inv (or_store s) \<and> ordered [] (or_trace s) \<and>
     (\<forall>wid tid. announced ''task.ready'' wid tid (or_trace s) =
        announced ''task.started'' wid tid (or_trace s) + (if task_in s wid tid = Some READY then 1 else 0))"

definition orch_le :: "orch \<Rightarrow> orch \<Rightarrow> bool" where
  "orch_le s s' \<longleftrightarrow> (\<exists>tr. or_trace s' = or_trace s @ tr) \<and>
     (\<forall>k w. dget (or_store s) k = Some w \<longrightarrow> (\<exists>w'. dget (or_store s') k = Some w' \<and> wf_le w w'))"

lemma orch_le_refl [simp]: "orch_le s s"
  by (auto simp: orch_le_def)

lemma orch_le_trans: "orch_le a b \<Longrightarrow> orch_le b c \<Longrightarrow> orch_le a c"
  unfolding orch_le_def by (elim conjE exE, intro conjI allI impI) (force, blast intro: wf_le_trans)

section \<open>Outcomes\<close>

text \<open>
  An operation on a stored workflow replaces it; on an error nothing is persisted or
  published, otherwise the new state is persisted and then events are published.
\<close>

definition outcome :: "string \<Rightarrow> workflow \<Rightarrow> event list option \<Rightarrow> orch \<Rightarrow> orch" where
  "outcome wid w' evs s =
     s\<lparr>or_store := dmod wid (\<lambda>_. w') (or_store s),
       or_trace := or_trace s @ (case evs of None \<Rightarrow> [] | Some es \<Rightarrow> Persist w' # map Publish es)\<rparr>"

definition balanced :: "string \<Rightarrow> tasks \<Rightarrow> tasks \<Rightarrow> event list \<Rightarrow> bool" where
  "balanced wid ts ts' evs \<longleftrightarrow>
     (\<forall>v t. count_list evs (task_event ''task.ready'' v t []) +
              (if v = wid \<and> tstate ts t = Some READY then 1 else 0) =
            count_list evs (task_event ''task.started'' v t []) +
              (if v = wid \<and> tstate ts' t = Some READY then (1::nat) else 0))"

definition good :: "string \<Rightarrow> workflow \<Rightarrow> workflow \<Rightarrow> event list option \<Rightarrow> bool" where
  "good wid w w' evs \<longleftrightarrow> wf_le w w' \<and> life_inv (wf_tasks w') \<and>
     (case evs of
        None \<Rightarrow> (\<forall>t. tstate (wf_tasks w') t = tstate (wf_tasks w) t)
      | Some es \<Rightarrow> balanced wid (wf_tasks w) (wf_tasks w') es \<and>
          (\<forall>e\<in>set es. pget (ev_payload e) ''workflow_id'' = PStr wid \<and> reports e w'))"

lemma outcome_None: "mutate wid w' s = outcome wid w' None s"
  by (simp add: mutate_def outcome_def)

lemma dset_dmod_same: "dwf d \<Longrightarrow> dget d k \<noteq> None \<Longrightarrow> dset k v (dmod k (\<lambda>_. v) d) = dmod k (\<lambda>_. v) d"
proof (induction d)
  case (Cons p d)
  then show ?case
  proof (cases "fst p = k")
    case True
    then have "k \<notin> set (dkeys d)" using Cons.prems(1) by auto
    then have "dmod k (\<lambda>_. v) d = d" by (induction d) auto
    then show ?thesis using True by simp
  qed auto
qed simp

lemma save_outcome:
  assumes "dwf (or_store s)" "dget (or_store s) wid = Some w" "wf_id w' = wid"
  shows "save w' es r (mutate wid w' s) = (Inr r, outcome wid w' (Some es) s)"
  using assms dset_dmod_same [of "or_store s" wid w']
  by (simp add: save_def repo_update_def mutate_def dget_dmod repo_add_def publish_def outcome_def)

lemma outcome_inv:
  assumes inv: "orch_inv s" and w: "dget (or_store s) wid = Some w" and g: "good wid w w' evs"
  shows "orch_inv (outcome wid w' evs s)" and "orch_le s (outcome wid w' evs s)"
proof -
  let ?s = "outcome wid w' evs s"
  have st: "dget (or_store ?s) k = (if k = wid then Some w' else dget (or_store s) k)" for k
    using w by (simp add: outcome_def dget_dmod)
  have wid: "wf_id w = wid" using inv w by (auto simp: orch_inv_def store_inv_def)
  then have wid': "wf_id w' = wid" using g by (simp add: good_def wf_le_def)
  have le: "wf_le w w'" using g by (simp add: good_def)
  show "orch_le s ?s"
    using st le w by (auto simp: orch_le_def outcome_def)
  have "dwf (or_store ?s)" using inv by (simp add: outcome_def orch_inv_def store_inv_def)
  moreover have "wf_id x = k \<and> life_inv (wf_tasks x)" if "dget (or_store ?s) k = Some x" for k x
    using that inv wid' g unfolding st by (auto simp: orch_inv_def store_inv_def good_def split: if_splits)
  ultimately have store: "store_inv (or_store ?s)" by (simp add: store_inv_def)
  have ti: "task_in ?s v t = (if v = wid then tstate (wf_tasks w') t else task_in s v t)" for v t
    unfolding task_in_def st by simp
  have tw: "task_in s wid t = tstate (wf_tasks w) t" for t using w by (simp add: task_in_def)
  show "orch_inv ?s"
  proof (cases evs)
    case None
    then have "task_in ?s v t = task_in s v t" for v t
      using g ti tw by (auto simp: good_def)
    then show ?thesis using inv store None by (simp add: orch_inv_def outcome_def)
  next
    case (Some es)
    have tr: "or_trace ?s = or_trace s @ Persist w' # map Publish es"
      using Some by (simp add: outcome_def)
    have "reported (db_after [] (or_trace s @ [Persist w'])) e" if "e \<in> set es" for e
    proof -
      have "db_after db (tr @ [Persist w']) = dset wid w' (db_after db tr)" for db tr
        using wid' by (induction db tr rule: db_after.induct) simp_all
      then show ?thesis using g Some that by (simp add: good_def reported_def dget_dset)
    qed
    then have "ordered [] ((or_trace s @ [Persist w']) @ map Publish es)"
      using inv by (simp only: ordered_append [of _ _ "map Publish es"] ordered_publish)
        (simp add: ordered_append orch_inv_def)
    then have "ordered [] (or_trace ?s)" by (simp add: tr)
    moreover have "announced ''task.ready'' v t (or_trace ?s) =
        announced ''task.started'' v t (or_trace ?s) + (if task_in ?s v t = Some READY then 1 else 0)" for v t
    proof -
      have "announced ''task.ready'' v t (or_trace s) =
          announced ''task.started'' v t (or_trace s) + (if task_in s v t = Some READY then 1 else 0)"
        using inv by (simp add: orch_inv_def)
      moreover have "count_list es (task_event ''task.ready'' v t []) +
              (if v = wid \<and> tstate (wf_tasks w) t = Some READY then 1 else 0) =
            count_list es (task_event ''task.started'' v t []) +
              (if v = wid \<and> tstate (wf_tasks w') t = Some READY then (1::nat) else 0)"
        using g Some by (simp add: good_def balanced_def)
      ultimately show ?thesis
        unfolding tr ti by (cases "v = wid") (simp_all add: announced_def tw)
    qed
    ultimately show ?thesis using store by (simp add: orch_inv_def)
  qed
qed

end
