(* ===== verification/Orchestrator_Machine.thy ===== *)
theory Orchestrator_Machine
  imports Orchestrator_Run
begin

text \<open>
  Every operation of the service on every branch, as an outcome in the sense of the previous
  theory, and the interpretation of the generic machine on the service.
\<close>

section \<open>The operations of the aggregate\<close>

lemma start_task_states:
  "start_task now w tid = (Inr n, w') \<Longrightarrow>
     tstate (wf_tasks w) tid = Some READY \<and>
     (\<forall>t. tstate (wf_tasks w') t = (if t = tid then Some RUNNING else tstate (wf_tasks w) t))"
  by (auto simp: start_task_def get_task_Inr transition_to_Inr allowed_task_iff Let_def put_task_def
      dget_dmod tstate_def split: sum.splits)

lemma start_task_error: "start_task now w tid = (Inl e, w') \<Longrightarrow> w' = w"
  by (auto simp: start_task_def Let_def split: sum.splits)

lemma complete_task_states:
  "complete_task now w tid res = (Inr n, w') \<Longrightarrow>
     tstate (wf_tasks w) tid = Some RUNNING \<and>
     (\<forall>t. tstate (wf_tasks w') t = (if t = tid then Some COMPLETED else tstate (wf_tasks w) t))"
  by (auto simp: complete_task_def get_task_Inr transition_to_Inr allowed_task_iff Let_def put_task_def
      dget_dmod tstate_def split: sum.splits)

lemma complete_task_error: "complete_task now w tid res = (Inl e, w') \<Longrightarrow> w' = w"
  by (auto simp: complete_task_def Let_def split: sum.splits)

lemma tasks_le_tdeps:
  assumes "tasks_le ts ts'" "dget ts k = Some n"
  shows "tdeps ts' k = tdeps ts k"
proof -
  obtain n' where "dget ts' k = Some n'" "node_le n n'" using assms by (auto simp: tasks_le_def)
  then show ?thesis using assms(2) by (simp add: tdeps_def node_le_def same_shape_def)
qed

text \<open>The three outcomes of \<open>fail_task\<close>.\<close>

lemma fail_task_cases:
  assumes inv: "life_inv (wf_tasks w)" and op: "fail_task w tid err = (r, w')"
  obtains (error) e where "r = Inl e" "\<forall>t. tstate (wf_tasks w') t = tstate (wf_tasks w) t"
      "tstate (wf_tasks w) tid \<noteq> Some RUNNING"
  | (retry) n where "r = Inr (n, [])" "tn_state n = PENDING" "tstate (wf_tasks w) tid = Some RUNNING"
      "\<forall>t. tstate (wf_tasks w') t = (if t = tid then Some PENDING else tstate (wf_tasks w) t)"
  | (failed) n cs where "r = Inr (n, cs)" "tn_state n = FAILED" "tstate (wf_tasks w) tid = Some RUNNING"
      "tid \<notin> dependents_of (wf_tasks w) tid"
      "\<forall>t. tstate (wf_tasks w') t =
         (if t = tid then Some FAILED
          else if t \<in> dependents_of (wf_tasks w) tid then Some CANCELLED else tstate (wf_tasks w) t)"
      "tn_task_id ` set cs = {k \<in> dependents_of (wf_tasks w) tid. tstate (wf_tasks w) k \<noteq> Some CANCELLED}"
proof (cases "dget (wf_tasks w) tid")
  case None
  then show ?thesis using op by (intro error) (auto simp: fail_task_def get_task_def tstate_def)
next
  case (Some n)
  show ?thesis
  proof (cases "tn_state n = RUNNING")
    case False
    then have "transition_to s m = Inl (InvalidTaskTransition (tn_task_id m) (tn_state m) s)"
      if "s = PENDING \<or> s = FAILED" "tn_state m = tn_state n" for s m
      using that by (cases "tn_state n") (auto simp: transition_to_def)
    then have "(\<exists>e. r = Inl e) \<and> (\<forall>t. tstate (wf_tasks w') t = tstate (wf_tasks w) t)"
      using op Some
      by (auto simp: fail_task_def get_task_def Let_def put_task_def dget_dmod tstate_def split: if_splits)
    then show ?thesis using error Some False by (auto simp: tstate_def)
  next
    case run: True
    show ?thesis
    proof (cases "tn_retry_count n < tn_max_retries n")
      case True
      then show ?thesis using op Some run
        by (intro retry [of "n\<lparr>tn_error := Some err, tn_retry_count := tn_retry_count n + 1, tn_state := PENDING\<rparr>"])
          (auto simp: fail_task_def get_task_def Let_def put_task_def transition_to_def dget_dmod tstate_def)
    next
      case False
      obtain cs v where f: "fail_task w tid err = (Inr (n\<lparr>tn_error := Some err, tn_state := FAILED\<rparr>, cs), v)"
          "\<forall>k\<in>set (dkeys (wf_tasks w)). tstate (wf_tasks v) k =
             (if k = tid then Some FAILED
              else if k \<in> dependents_of (wf_tasks w) tid then Some CANCELLED else tstate (wf_tasks w) k)"
          "tn_task_id ` set cs = {k \<in> dependents_of (wf_tasks w) tid. tstate (wf_tasks w) k \<noteq> Some CANCELLED}"
        using fail_task_final [OF inv Some run, of err] False by auto
      have keys: "dkeys (wf_tasks v) = dkeys (wf_tasks w)"
        using fail_task_le [OF f(1)] by (simp add: wf_le_def tasks_le_def)
      have "tstate (wf_tasks v) k = (if k = tid then Some FAILED
              else if k \<in> dependents_of (wf_tasks w) tid then Some CANCELLED else tstate (wf_tasks w) k)" for k
      proof (cases "k \<in> set (dkeys (wf_tasks w))")
        case True
        then show ?thesis using f(2) by blast
      next
        case out: False
        have "k \<noteq> tid" using out Some dget_dom by metis
        moreover have "k \<notin> dependents_of (wf_tasks w) tid"
        proof
          assume "k \<in> dependents_of (wf_tasks w) tid"
          then obtain d where "(d, k) \<in> dep_rel (wf_tasks w)" using dependents_last by blast
          then show False using out by (force simp: dep_rel_def)
        qed
        moreover have "dget (wf_tasks w) k = None" "dget (wf_tasks v) k = None"
          using out keys by (simp_all only: dget_None_iff not_False_eq_True)
        ultimately show ?thesis by (simp add: tstate_def)
      qed
      moreover have "tid \<notin> dependents_of (wf_tasks w) tid"
        using inv by (auto simp: dependents_of_def life_inv_def graph_inv_def acyclic_def)
      ultimately show ?thesis using op f(1,3) Some run
        by (intro failed [of "n\<lparr>tn_error := Some err, tn_state := FAILED\<rparr>" cs]) (auto simp: tstate_def)
    qed
  qed
qed

section \<open>The operations of the service\<close>

lemma stored: "orch_inv s \<Longrightarrow> dget (or_store s) wid = Some w \<Longrightarrow>
    dwf (or_store s) \<and> wf_id w = wid \<and> life_inv (wf_tasks w)"
  by (auto simp: orch_inv_def store_inv_def)

lemma orch_start_outcome:
  assumes inv: "orch_inv s" and w: "dget (or_store s) wid = Some w"
  shows "\<exists>w' evs. good wid w w' evs \<and> orch_start now wid tid s =
     (case fst (start_task now w tid) of Inl e \<Rightarrow> Inl (WfError e) | Inr n \<Rightarrow> Inr n, outcome wid w' evs s) \<and>
     (\<forall>n. fst (start_task now w tid) = Inr n \<longrightarrow> tstate (wf_tasks w') tid = Some RUNNING)"
proof -
  note W = stored [OF inv w]
  obtain r w' where op: "start_task now w tid = (r, w')" by fastforce
  have g: "wf_le w w'" "life_inv (wf_tasks w')"
    using start_task_le [OF op] start_task_inv [OF _ op] W by auto
  show ?thesis
  proof (cases r)
    case (Inl e)
    then have "w' = w" using start_task_error op by blast
    then have "good wid w w' None" using W by (auto simp: good_def)
    then show ?thesis using op w Inl by (auto simp: orch_start_def repo_get_def outcome_None)
  next
    case (Inr n)
    then have st: "tstate (wf_tasks w) tid = Some READY"
        "\<forall>t. tstate (wf_tasks w') t = (if t = tid then Some RUNNING else tstate (wf_tasks w) t)"
      using start_task_states op by auto
    let ?es = "[task_event ''task.started'' wid tid []]"
    have "good wid w w' (Some ?es)"
      using g st by (auto simp: good_def balanced_def)
    moreover have "save w' ?es n (mutate wid w' s) = (Inr n, outcome wid w' (Some ?es) s)"
      by (rule save_outcome [of s wid w]) (use W w g in \<open>auto simp: wf_le_def\<close>)
    ultimately show ?thesis using op w Inr st
      by (intro exI [of _ w'] exI [of _ "Some ?es"]) (simp add: orch_start_def repo_get_def)
  qed
qed

lemma orch_complete_outcome:
  assumes inv: "orch_inv s" and w: "dget (or_store s) wid = Some w"
  shows "\<exists>r w' evs. good wid w w' evs \<and> orch_complete now wid tid res s = (r, outcome wid w' evs s) \<and>
     (tstate (wf_tasks w) tid = Some RUNNING \<longrightarrow>
        (\<exists>v. r = Inr v) \<and> tstate (wf_tasks w') tid = Some COMPLETED)"
proof -
  note W = stored [OF inv w]
  obtain r w1 where op: "complete_task now w tid res = (r, w1)" by fastforce
  have g: "wf_le w w1" "life_inv (wf_tasks w1)"
    using complete_task_le [OF op] complete_task_inv [OF _ op] W by auto
  show ?thesis
  proof (cases r)
    case (Inl e)
    then have "w1 = w" using complete_task_error op by blast
    then have "good wid w w1 None" using W by (auto simp: good_def)
    moreover have "tstate (wf_tasks w) tid \<noteq> Some RUNNING"
      using op Inl by (auto simp: complete_task_def get_task_def tstate_def transition_to_def Let_def
          split: option.splits if_splits)
    ultimately show ?thesis using op w Inl by (auto simp: orch_complete_def repo_get_def outcome_None)
  next
    case (Inr n)
    then have st: "tstate (wf_tasks w) tid = Some RUNNING"
        "\<forall>t. tstate (wf_tasks w1) t = (if t = tid then Some COMPLETED else tstate (wf_tasks w) t)"
      using complete_task_states op by auto
    obtain ms w2 where m: "mark_ready_tasks w1 = (Inr ms, w2)" "life_inv (wf_tasks w2)" "wf_le w1 w2"
        "distinct (map tn_task_id ms)"
        "tn_task_id ` set ms = {k. tstate (wf_tasks w1) k = Some PENDING \<and>
           (\<forall>d\<in>set (tdeps (wf_tasks w1) k). tstate (wf_tasks w1) d = Some COMPLETED)}"
        "\<forall>k. tstate (wf_tasks w2) k =
           (if k \<in> tn_task_id ` set ms then Some READY else tstate (wf_tasks w1) k)"
      using mark_ready_tasks_spec [OF g(2)] by blast
    let ?es = "[task_event ''task.completed'' wid tid []] @ ready_events wid ms @
        (if is_complete w2 then [wf_event ''workflow.completed'' wid] else [])"
    have le: "wf_le w w2" using g m wf_le_trans by blast
    have ms: "t \<in> tn_task_id ` set ms \<Longrightarrow> tstate (wf_tasks w1) t = Some PENDING" for t
      unfolding m(5) by simp
    have fin: "tstate (wf_tasks w2) tid = Some COMPLETED" using m(6) st(2) ms [of tid] by auto
    have "balanced wid (wf_tasks w) (wf_tasks w2) ?es"
      unfolding balanced_def
    proof (intro allI)
      fix v t
      show "count_list ?es (task_event ''task.ready'' v t []) +
              (if v = wid \<and> tstate (wf_tasks w) t = Some READY then 1 else 0) =
            count_list ?es (task_event ''task.started'' v t []) +
              (if v = wid \<and> tstate (wf_tasks w2) t = Some READY then (1::nat) else 0)"
        using m(4,6) st ms [of t] by (auto simp: count_ready_events split: if_splits)
    qed
    moreover have "reports e w2 \<and> pget (ev_payload e) ''workflow_id'' = PStr wid" if "e \<in> set ?es" for e
      using that fin m(6) by (auto simp: ready_events_def split: if_splits)
    ultimately have "good wid w w2 (Some ?es)" using le m(2) by (simp only: good_def option.case) blast
    moreover have "save w2 ?es w2 (mutate wid w2 s) = (Inr w2, outcome wid w2 (Some ?es) s)"
      by (rule save_outcome [of s wid w]) (use W w le in \<open>auto simp: wf_le_def\<close>)
    then have "orch_complete now wid tid res s = (Inr w2, outcome wid w2 (Some ?es) s)"
      using op w Inr m(1) by (simp add: orch_complete_def repo_get_def)
    ultimately show ?thesis using fin by blast
  qed
qed

lemma orch_fail_outcome:
  assumes inv: "orch_inv s" and w: "dget (or_store s) wid = Some w"
  shows "\<exists>r w' evs. good wid w w' evs \<and> orch_fail wid tid err s = (r, outcome wid w' evs s) \<and>
     (tstate (wf_tasks w) tid = Some RUNNING \<longrightarrow>
        (\<exists>v. r = Inr v) \<and> tstate (wf_tasks w') tid \<in> {Some READY, Some FAILED})"
proof -
  note W = stored [OF inv w]
  obtain r w1 where op: "fail_task w tid err = (r, w1)" by fastforce
  have g: "wf_le w w1" "life_inv (wf_tasks w1)"
    using fail_task_le [OF op] fail_task_inv [OF _ op] W by auto
  have life: "life_inv (wf_tasks w)" using W by simp
  show ?thesis
  using life op
  proof (cases rule: fail_task_cases)
    case (error e)
    then have "good wid w w1 None" using g by (simp add: good_def)
    then show ?thesis using op w error by (auto simp: orch_fail_def repo_get_def outcome_None)
  next
    case (retry n)
    obtain ms w2 where m: "mark_ready_tasks w1 = (Inr ms, w2)" "life_inv (wf_tasks w2)" "wf_le w1 w2"
        "distinct (map tn_task_id ms)"
        "tn_task_id ` set ms = {k. tstate (wf_tasks w1) k = Some PENDING \<and>
           (\<forall>d\<in>set (tdeps (wf_tasks w1) k). tstate (wf_tasks w1) d = Some COMPLETED)}"
        "\<forall>k. tstate (wf_tasks w2) k =
           (if k \<in> tn_task_id ` set ms then Some READY else tstate (wf_tasks w1) k)"
      using mark_ready_tasks_spec [OF g(2)] by blast
    let ?es = "task_event ''task.retrying'' wid tid [(''attempt'', PInt (tn_retry_count n))] # ready_events wid ms"
    have le: "wf_le w w2" using g m wf_le_trans by blast
    have ms: "t \<in> tn_task_id ` set ms \<Longrightarrow> tstate (wf_tasks w1) t = Some PENDING" for t
      unfolding m(5) by simp
    have "balanced wid (wf_tasks w) (wf_tasks w2) ?es"
      unfolding balanced_def
    proof (intro allI)
      fix v t
      show "count_list ?es (task_event ''task.ready'' v t []) +
              (if v = wid \<and> tstate (wf_tasks w) t = Some READY then 1 else 0) =
            count_list ?es (task_event ''task.started'' v t []) +
              (if v = wid \<and> tstate (wf_tasks w2) t = Some READY then (1::nat) else 0)"
        using m(4,6) retry(3,4) ms [of t] by (auto simp: count_ready_events split: if_splits)
    qed
    moreover have "reports e w2 \<and> pget (ev_payload e) ''workflow_id'' = PStr wid" if "e \<in> set ?es" for e
      using that m(6) retry(4) by (auto simp: ready_events_def)
    ultimately have "good wid w w2 (Some ?es)" using le m(2) by (simp only: good_def option.case) blast
    moreover have "save w2 ?es w2 (mutate wid w2 s) = (Inr w2, outcome wid w2 (Some ?es) s)"
      by (rule save_outcome [of s wid w]) (use W w le in \<open>auto simp: wf_le_def\<close>)
    then have "orch_fail wid tid err s = (Inr w2, outcome wid w2 (Some ?es) s)"
      using op w retry m(1) by (simp add: orch_fail_def repo_get_def)
    moreover have "tid \<in> tn_task_id ` set ms"
    proof -
      obtain n0 where n0: "dget (wf_tasks w) tid = Some n0" "tn_state n0 = RUNNING"
        using retry(3) by (auto simp: tstate_def)
      have "\<forall>d\<in>set (tdeps (wf_tasks w) tid). tstate (wf_tasks w) d = Some COMPLETED"
        using life_inv_progressed [OF life n0(1)] n0(2) by simp
      moreover have "tdeps (wf_tasks w1) tid = tdeps (wf_tasks w) tid"
        using g(1) n0(1) by (simp add: wf_le_def tasks_le_tdeps)
      moreover have "d \<noteq> tid" if "tstate (wf_tasks w) d = Some COMPLETED" for d
        using that retry(3) by auto
      ultimately show ?thesis unfolding m(5) using retry(4) by auto
    qed
    then have "tstate (wf_tasks w2) tid = Some READY" using m(6) by simp
    ultimately show ?thesis by blast
  next
    case (failed n cs)
    let ?es = "task_event ''task.failed'' wid tid [(''error'', PStr err)]
               # cancel_events wid tid cs @ [task_event ''workflow.failed'' wid tid []]"
    have nready: "tstate (wf_tasks w) t \<noteq> Some READY" if "t \<in> dependents_of (wf_tasks w) tid" for t
    proof
      assume "tstate (wf_tasks w) t = Some READY"
      then have "tstate (wf_tasks w) tid = Some COMPLETED"
        using dependents_progressed [of "wf_tasks w" tid t] life that
        by (simp add: life_inv_def graph_inv_def dependents_of_def progressed_def)
      then show False using failed(3) by simp
    qed
    have "balanced wid (wf_tasks w) (wf_tasks w1) ?es"
      using failed(3,5) nready by (auto simp: balanced_def)
    moreover have "has_permanent_failure w1"
    proof -
      have "tstate (wf_tasks w1) tid = Some FAILED" using failed(5) by simp
      then obtain n1 where "dget (wf_tasks w1) tid = Some n1" "tn_state n1 = FAILED"
        by (auto simp: tstate_def)
      then show ?thesis by (force simp: has_permanent_failure_def dest!: map_of_SomeD)
    qed
    then have "reports e w1 \<and> pget (ev_payload e) ''workflow_id'' = PStr wid" if "e \<in> set ?es" for e
      using that failed(4-6) by (auto simp: cancel_events_def)
    ultimately have "good wid w w1 (Some ?es)" using g by (simp only: good_def option.case) blast
    moreover have "save w1 ?es w1 (mutate wid w1 s) = (Inr w1, outcome wid w1 (Some ?es) s)"
      by (rule save_outcome [of s wid w]) (use W w g in \<open>auto simp: wf_le_def\<close>)
    then have "orch_fail wid tid err s = (Inr w1, outcome wid w1 (Some ?es) s)"
      using op w failed(1,2) by (simp add: orch_fail_def repo_get_def)
    moreover have "tstate (wf_tasks w1) tid = Some FAILED" using failed(5) by simp
    ultimately show ?thesis by blast
  qed
qed

section \<open>Creation, the worker and the machine\<close>

lemma orch_create_inv:
  assumes inv: "orch_inv s" and fresh: "wid \<notin> set (dkeys (or_store s))"
    and op: "orch_create now new_id wid name specs s = (r, s')"
  shows "orch_inv s' \<and> orch_le s s'"
proof (cases "\<exists>w. check_agents (or_agents s) specs = Inr () \<and> create_workflow now new_id wid name specs = Inr w")
  case False
  then have "s' = s" using op by (auto simp: orch_create_def split: sum.splits)
  then show ?thesis using inv by simp
next
  case True
  then obtain w where c: "check_agents (or_agents s) specs = Inr ()"
      "create_workflow now new_id wid name specs = Inr w" by blast
  have w: "life_inv (wf_tasks w)" "\<forall>n\<in>set (dvals (wf_tasks w)). fresh_node n"
    using create_workflow_inv [OF c(2)] by auto
  have wid: "wf_id w = wid" using c(2) by (auto simp: create_workflow_def split: sum.splits)
  obtain ms w2 where m: "mark_ready_tasks w = (Inr ms, w2)" "life_inv (wf_tasks w2)" "wf_le w w2"
      "distinct (map tn_task_id ms)"
      "\<forall>k. tstate (wf_tasks w2) k =
         (if k \<in> tn_task_id ` set ms then Some READY else tstate (wf_tasks w) k)"
    using mark_ready_tasks_spec [OF w(1)] by blast
  have nr: "tstate (wf_tasks w) k \<noteq> Some READY" for k
    using w(2) by (force simp: tstate_def fresh_node_def dest!: map_of_SomeD)
  have rd: "tstate (wf_tasks w2) k = Some READY \<longleftrightarrow> k \<in> tn_task_id ` set ms" for k
    using m(5) nr by simp
  let ?es = "ready_events wid ms @ [wf_event ''workflow.created'' wid]"
  have s': "s' = publish ?es (repo_add w2 s)"
    using op c m(1) by (simp add: orch_create_def)
  have wid2: "wf_id w2 = wid" using m(3) wid by (simp add: wf_le_def)
  have st: "or_store s' = dset wid w2 (or_store s)" and tr: "or_trace s' = or_trace s @ Persist w2 # map Publish ?es"
    using s' wid2 by (simp_all add: publish_def repo_add_def)
  have none: "dget (or_store s) wid = None" using fresh dget_None_iff by metis
  have "store_inv (or_store s')"
    using inv m(2) wid2 unfolding st by (auto simp: store_inv_def orch_inv_def dget_dset split: if_splits)
  moreover have "ordered [] (or_trace s')"
  proof -
    have "db_after db (tr @ [Persist w2]) = dset wid w2 (db_after db tr)" for db tr
      using wid2 by (induction db tr rule: db_after.induct) simp_all
    moreover have "reports e w2 \<and> pget (ev_payload e) ''workflow_id'' = PStr wid" if "e \<in> set ?es" for e
      using that rd by (auto simp: ready_events_def)
    ultimately have "\<forall>e\<in>set ?es. reported (db_after [] (or_trace s @ [Persist w2])) e"
      by (simp add: reported_def dget_dset)
    then have "ordered [] ((or_trace s @ [Persist w2]) @ map Publish ?es)"
      using inv by (simp only: ordered_append [of _ _ "map Publish ?es"] ordered_publish)
        (simp add: ordered_append orch_inv_def)
    then show ?thesis by (simp add: tr)
  qed
  moreover have "announced ''task.ready'' v t (or_trace s') =
      announced ''task.started'' v t (or_trace s') + (if task_in s' v t = Some READY then 1 else 0)" for v t
  proof -
    have "announced ''task.ready'' v t (or_trace s) =
        announced ''task.started'' v t (or_trace s) + (if task_in s v t = Some READY then 1 else 0)"
      using inv by (simp add: orch_inv_def)
    moreover have "count_list ?es (task_event ''task.ready'' v t []) =
        (if v = wid \<and> tstate (wf_tasks w2) t = Some READY then 1 else 0)"
      "count_list ?es (task_event ''task.started'' v t []) = 0"
      using m(4) rd by (auto simp: count_ready_events)
    moreover have "task_in s' v t = (if v = wid then tstate (wf_tasks w2) t else task_in s v t)"
      "task_in s wid t = None"
      using none by (simp_all add: task_in_def st dget_dset)
    ultimately show ?thesis unfolding tr announced_def by (cases "v = wid") auto
  qed
  moreover have "orch_le s s'"
    unfolding orch_le_def st tr using none by (auto simp: dget_dset)
  ultimately show ?thesis by (simp add: orch_inv_def)
qed

lemma unknown_workflow:
  assumes "dget (or_store s) wid = None"
  shows "orch_start now wid tid s = (Inl (WorkflowNotFound wid), s)"
    "orch_complete now wid tid res s = (Inl (WorkflowNotFound wid), s)"
    "orch_fail wid tid err s = (Inl (WorkflowNotFound wid), s)"
    "process now lease out wid tid s = (Inr (), s)"
  using assms
  by (simp_all add: orch_start_def orch_complete_def orch_fail_def repo_get_def process_def)

definition orch_keeps :: "orch \<Rightarrow> orch \<Rightarrow> bool" where
  "orch_keeps s s' \<longleftrightarrow> (orch_inv s \<longrightarrow> orch_inv s' \<and> orch_le s s')"

lemma orch_keeps_trans: "orch_keeps a b \<Longrightarrow> orch_keeps b c \<Longrightarrow> orch_keeps a c"
  by (auto simp: orch_keeps_def intro: orch_le_trans)

lemma orch_keeps_refl [simp]: "orch_keeps s s"
  by (simp add: orch_keeps_def)

lemma orch_keeps_start: "orch_keeps s (snd (orch_start now wid tid s))"
  unfolding orch_keeps_def
proof
  assume inv: "orch_inv s"
  show "orch_inv (snd (orch_start now wid tid s)) \<and> orch_le s (snd (orch_start now wid tid s))"
  proof (cases "dget (or_store s) wid")
    case (Some w)
    then obtain w' evs where "good wid w w' evs" "snd (orch_start now wid tid s) = outcome wid w' evs s"
      using orch_start_outcome [OF inv Some] by (metis snd_conv)
    then show ?thesis using outcome_inv [OF inv Some] by simp
  qed (simp add: unknown_workflow inv)
qed

lemma orch_keeps_complete: "orch_keeps s (snd (orch_complete now wid tid res s))"
  unfolding orch_keeps_def
proof
  assume inv: "orch_inv s"
  show "orch_inv (snd (orch_complete now wid tid res s)) \<and> orch_le s (snd (orch_complete now wid tid res s))"
  proof (cases "dget (or_store s) wid")
    case (Some w)
    then obtain w' evs where "good wid w w' evs" "snd (orch_complete now wid tid res s) = outcome wid w' evs s"
      using orch_complete_outcome [OF inv Some] by (metis snd_conv)
    then show ?thesis using outcome_inv [OF inv Some] by simp
  qed (simp add: unknown_workflow inv)
qed

lemma orch_keeps_fail: "orch_keeps s (snd (orch_fail wid tid err s))"
  unfolding orch_keeps_def
proof
  assume inv: "orch_inv s"
  show "orch_inv (snd (orch_fail wid tid err s)) \<and> orch_le s (snd (orch_fail wid tid err s))"
  proof (cases "dget (or_store s) wid")
    case (Some w)
    then obtain w' evs where "good wid w w' evs" "snd (orch_fail wid tid err s) = outcome wid w' evs s"
      using orch_fail_outcome [OF inv Some] by (metis snd_conv)
    then show ?thesis using outcome_inv [OF inv Some] by simp
  qed (simp add: unknown_workflow inv)
qed

lemma process_start:
  "process now lease res wid tid s =
     (case fst (orch_start now wid tid s) of
        Inl (WorkflowNotFound _) \<Rightarrow> (Inr (), snd (orch_start now wid tid s))
      | Inl (WfError (TaskNotFound _)) \<Rightarrow> (Inr (), snd (orch_start now wid tid s))
      | Inl e \<Rightarrow> (Inl e, snd (orch_start now wid tid s))
      | Inr _ \<Rightarrow> (let s1 = snd (orch_start now wid tid s) in
          apfst (map_sum id (\<lambda>_. ()))
            (if lease \<noteq> None \<and> \<not> fst (the lease)
             then orch_fail wid tid ''Cluster task lease was not committed.'' s1
             else case res of
                    Inl msg \<Rightarrow> orch_fail wid tid msg s1
                  | Inr v \<Rightarrow>
                      if lease \<noteq> None \<and> \<not> snd (the lease)
                      then orch_fail wid tid
                             ''Task result withheld: cluster completion was not committed.'' s1
                      else orch_complete now wid tid v s1)))"
  by (auto simp: process_def Let_def split: prod.splits sum.splits orch_error.splits wf_error.splits)

lemma process_steps:
  "snd (process now lease res wid tid s) = snd (orch_start now wid tid s) \<or>
   (\<exists>e. snd (process now lease res wid tid s) = snd (orch_fail wid tid e (snd (orch_start now wid tid s)))) \<or>
   (\<exists>v. snd (process now lease res wid tid s) = snd (orch_complete now wid tid v (snd (orch_start now wid tid s))))"
  unfolding process_start Let_def by (auto split: sum.splits orch_error.splits wf_error.splits)

lemma orch_keeps_process: "orch_keeps s (snd (process now lease res wid tid s))"
proof -
  let ?s1 = "snd (orch_start now wid tid s)"
  have k: "orch_keeps s ?s1" by (rule orch_keeps_start)
  from process_steps [of now lease res wid tid s] show ?thesis
  proof (elim disjE exE)
    fix e assume e: "snd (process now lease res wid tid s) = snd (orch_fail wid tid e ?s1)"
    show ?thesis unfolding e by (rule orch_keeps_trans [OF k orch_keeps_fail])
  next
    fix v assume v: "snd (process now lease res wid tid s) = snd (orch_complete now wid tid v ?s1)"
    show ?thesis unfolding v by (rule orch_keeps_trans [OF k orch_keeps_complete])
  qed (simp only: k)
qed

interpretation om: machine orch_step orch_ok orch_inv orch_le
proof unfold_locales
  fix s x assume inv: "orch_inv s" and ok: "orch_ok s x"
  have "orch_inv (orch_step s x) \<and> orch_le s (orch_step s x)"
  proof (cases x)
    case (OCreate now new_id wid name specs)
    then show ?thesis using orch_create_inv [OF inv, of wid] ok by (metis orch_ok.simps(1) orch_step.simps(1) prod.collapse)
  qed (use inv orch_keeps_start orch_keeps_complete orch_keeps_fail orch_keeps_process
       in \<open>auto simp: orch_keeps_def\<close>)
  then show "orch_inv (orch_step s x)" "orch_le s (orch_step s x)" by auto
qed (auto intro: orch_le_trans)

text \<open>The empty service.\<close>

definition orch_init :: "string list \<Rightarrow> orch" where
  "orch_init ags = \<lparr>or_store = [], or_agents = ags, or_trace = []\<rparr>"

lemma orch_init_inv [simp]: "orch_inv (orch_init ags)"
  by (simp add: orch_init_def orch_inv_def store_inv_def announced_def task_in_def)

lemma orch_run_inv: "legal orch_ok orch_step (orch_init ags) ops \<Longrightarrow> orch_inv (run orch_step (orch_init ags) ops)"
  by (rule om.run_inv) simp_all

end
