(* ===== verification/Orchestrator_Props.thy ===== *)
theory Orchestrator_Props
  imports Orchestrator_Machine
begin

text \<open>
  The properties of workflows and of the orchestration service, with a small workflow of two
  tasks on which each is instantiated.
\<close>

definition demo_specs :: "task_spec list" where
  "demo_specs =
     [\<lparr>ts_name = ''b'', ts_agent_id = None, ts_depends_on = [''a''], ts_max_retries = 0, ts_payload = []\<rparr>,
      \<lparr>ts_name = ''a'', ts_agent_id = None, ts_depends_on = [], ts_max_retries = 0, ts_payload = []\<rparr>]"

definition demo_id :: "nat \<Rightarrow> string" where
  "demo_id i = (if i = 0 then ''t0'' else ''t1'')"

definition demo_workflow :: "workflow" where
  "demo_workflow = (case create_workflow 0 demo_id ''w'' ''demo'' demo_specs of Inr w \<Rightarrow> w)"

definition demo_ops :: "orch_op list" where
  "demo_ops = [OCreate 0 demo_id ''w'' ''demo'' demo_specs, OStart 1 ''w'' ''t1'']"

definition demo_state :: "orch" where
  "demo_state = run orch_step (orch_init []) demo_ops"

lemma demo_created: "create_workflow 0 demo_id ''w'' ''demo'' demo_specs = Inr demo_workflow"
  by code_simp

lemma demo_legal: "legal orch_ok orch_step (orch_init []) demo_ops"
  by code_simp

lemma demo_names: "distinct (map ts_name demo_specs)"
  by code_simp

lemma demo_ids: "inj_on demo_id {..<length demo_specs}"
  by (auto simp: inj_on_def demo_specs_def demo_id_def)

text \<open>
  C5: \<open>Workflow.create\<close> accepts a list of specifications with distinct names exactly when every
  dependency is the name of a specification and the dependency relation between the names is
  acyclic.
\<close>

theorem create_accepts_iff:
  assumes "distinct (map ts_name specs)" "inj_on new_id {..<length specs}"
  shows "(\<exists>w. create_workflow now new_id wid name specs = Inr w) \<longleftrightarrow>
     (\<forall>s\<in>set specs. set (ts_depends_on s) \<subseteq> ts_name ` set specs) \<and>
     acyclic {(d, ts_name s) | d s. s \<in> set specs \<and> d \<in> set (ts_depends_on s)}"
  using create_accepts [OF assms] by (simp add: names_known_def name_rel_def)

theorem create_accepts_iff_witness:
  "acyclic {(d, ts_name s) | d s. s \<in> set demo_specs \<and> d \<in> set (ts_depends_on s)}"
  using create_accepts_iff [OF demo_names demo_ids, of 0 "''w''" "''demo''"] demo_created by blast

text \<open>
  The topological sort reports a cycle exactly when every dependency exists and the
  dependency relation has a cycle; a table keyed by the identifiers of its tasks is meant.
\<close>

theorem validate_reports_cycle_iff:
  assumes "dwf ts" "keyed ts"
  shows "(\<exists>k. validate_no_cycles ts = Inl (CycleDetected k)) \<longleftrightarrow> deps_exist ts \<and> \<not> acyclic (dep_rel ts)"
  using assms by (rule validate_spec(2))

definition demo_cycle :: "tasks" where
  "demo_cycle =
     (let n = new_node 0 ''x'' (hd demo_specs) in
      [(''x'', n\<lparr>tn_depends_on := [''y'']\<rparr>), (''y'', n\<lparr>tn_task_id := ''y'', tn_depends_on := [''x'']\<rparr>)])"

theorem validate_reports_cycle_iff_witness:
  "\<not> acyclic (dep_rel demo_cycle)"
proof -
  have v: "validate_no_cycles demo_cycle = Inl (CycleDetected 2)" by code_simp
  have d: "dwf demo_cycle" by code_simp
  have k: "keyed demo_cycle" by (simp add: keyed_def demo_cycle_def Let_def new_node_def)
  show ?thesis using validate_reports_cycle_iff [OF d k] v by blast
qed

text \<open>
  C3: when a running task fails with its retries used up, it becomes \<open>FAILED\<close>, exactly the
  tasks that depend on it directly or indirectly become \<open>CANCELLED\<close> and are returned (those
  cancelled before apart), every other task keeps its state, and the invariant of the life
  cycle holds again.
\<close>

theorem fail_task_cascades:
  assumes "life_inv (wf_tasks w)" "dget (wf_tasks w) tid = Some n" "tn_state n = RUNNING"
    "tn_max_retries n \<le> tn_retry_count n"
  shows "\<exists>cs w'. fail_task w tid err = (Inr (n\<lparr>tn_error := Some err, tn_state := FAILED\<rparr>, cs), w') \<and>
     life_inv (wf_tasks w') \<and>
     (\<forall>k\<in>set (dkeys (wf_tasks w)). tstate (wf_tasks w') k =
        (if k = tid then Some FAILED
         else if (tid, k) \<in> (dep_rel (wf_tasks w))\<^sup>+ then Some CANCELLED else tstate (wf_tasks w) k)) \<and>
     tn_task_id ` set cs =
       {k. (tid, k) \<in> (dep_rel (wf_tasks w))\<^sup>+ \<and> tstate (wf_tasks w) k \<noteq> Some CANCELLED}"
  using fail_task_final [OF assms, of err] unfolding dependents_of_def mem_Collect_eq .

definition demo_started :: "workflow" where
  "demo_started = the (dget (or_store demo_state) ''w'')"

definition demo_task :: "task_node" where
  "demo_task = the (dget (wf_tasks demo_started) ''t1'')"

theorem fail_task_cascades_witness:
  "\<exists>cs w'. fail_task demo_started ''t1'' ''boom'' =
      (Inr (demo_task\<lparr>tn_error := Some ''boom'', tn_state := FAILED\<rparr>, cs), w') \<and>
      tn_task_id ` set cs = {k. (''t1'', k) \<in> (dep_rel (wf_tasks demo_started))\<^sup>+ \<and>
                               tstate (wf_tasks demo_started) k \<noteq> Some CANCELLED}"
proof -
  have "dget (or_store demo_state) ''w'' = Some demo_started" by code_simp
  then have l: "life_inv (wf_tasks demo_started)"
    using orch_run_inv [OF demo_legal] by (simp add: orch_inv_def store_inv_def demo_state_def)
  have n: "dget (wf_tasks demo_started) ''t1'' = Some demo_task" "tn_state demo_task = RUNNING"
      "tn_max_retries demo_task \<le> tn_retry_count demo_task"
    by code_simp+
  show ?thesis using fail_task_cascades [OF l n, of "''boom''"] by blast
qed

text \<open>
  C4: after any run of the service a task that is ready, running, completed or failed has
  only completed dependencies, and a task is cancelled exactly when one of its dependencies
  has failed or been cancelled.
\<close>

theorem run_respects_dependencies:
  assumes "legal orch_ok orch_step (orch_init ags) ops"
    "dget (or_store (run orch_step (orch_init ags) ops)) wid = Some w"
    "dget (wf_tasks w) tid = Some n"
  shows "(tn_state n \<in> {READY, RUNNING, COMPLETED, FAILED} \<longrightarrow>
            (\<forall>d\<in>set (tn_depends_on n). tstate (wf_tasks w) d = Some COMPLETED)) \<and>
         (tn_state n = CANCELLED \<longleftrightarrow>
            (\<exists>d\<in>set (tn_depends_on n). tstate (wf_tasks w) d \<in> {Some FAILED, Some CANCELLED}))"
proof -
  have l: "life_inv (wf_tasks w)"
    using orch_run_inv [OF assms(1)] assms(2) by (auto simp: orch_inv_def store_inv_def)
  then have "tstate (wf_tasks w) tid = Some CANCELLED \<longleftrightarrow>
      (\<exists>d\<in>set (tdeps (wf_tasks w) tid). dead (tstate (wf_tasks w) d))"
    by (auto simp: life_inv_def state_inv_def)
  then show ?thesis
    using life_inv_progressed [OF l assms(3)] assms(3) by (auto simp: tdeps_def tstate_def dead_def)
qed

definition demo_failed_ops :: "orch_op list" where
  "demo_failed_ops = demo_ops @ [OFail ''w'' ''t1'' ''boom'']"

definition demo_failed :: "workflow" where
  "demo_failed = the (dget (or_store (run orch_step (orch_init []) demo_failed_ops)) ''w'')"

definition demo_dependent :: "task_node" where
  "demo_dependent = the (dget (wf_tasks demo_failed) ''t0'')"

theorem run_respects_dependencies_witness:
  "\<exists>d\<in>set (tn_depends_on demo_dependent). tstate (wf_tasks demo_failed) d \<in> {Some FAILED, Some CANCELLED}"
proof -
  have "legal orch_ok orch_step (orch_init []) demo_failed_ops"
    "dget (or_store (run orch_step (orch_init []) demo_failed_ops)) ''w'' = Some demo_failed"
    "dget (wf_tasks demo_failed) ''t0'' = Some demo_dependent"
    by code_simp+
  note * = run_respects_dependencies [OF this]
  have "tn_state demo_dependent = CANCELLED" by code_simp
  then show ?thesis using * by blast
qed

text \<open>
  C1: in any run every event is published after the workflow it is about has been persisted
  in the state the event reports, so a consumer that reads the database when it receives the
  event never sees an older state.
\<close>

theorem persisted_before_published:
  assumes "legal orch_ok orch_step (orch_init ags) ops"
  shows "ordered [] (or_trace (run orch_step (orch_init ags) ops))"
  using orch_run_inv [OF assms] by (simp add: orch_inv_def)

theorem persisted_before_published_witness: "ordered [] (or_trace demo_state)"
  unfolding demo_state_def using demo_legal by (rule persisted_before_published)

text \<open>
  C2: in any run a task is announced by \<open>task.ready\<close> once for every time it is started, and
  once more exactly while it is \<open>READY\<close>: no ready task is forgotten and none is announced
  twice.
\<close>

theorem ready_announced_once:
  assumes "legal orch_ok orch_step (orch_init ags) ops"
  shows "announced ''task.ready'' wid tid (or_trace (run orch_step (orch_init ags) ops)) =
     announced ''task.started'' wid tid (or_trace (run orch_step (orch_init ags) ops)) +
     (if task_in (run orch_step (orch_init ags) ops) wid tid = Some READY then 1 else 0)"
  using orch_run_inv [OF assms] by (simp add: orch_inv_def)

theorem ready_announced_once_witness:
  "announced ''task.ready'' ''w'' ''t1'' (or_trace demo_state) = 1"
proof -
  have "announced ''task.started'' ''w'' ''t1'' (or_trace demo_state) = 1" by code_simp
  moreover have "task_in demo_state ''w'' ''t1'' = Some RUNNING" by code_simp
  ultimately show ?thesis
    using ready_announced_once [OF demo_legal, of "''w''" "''t1''"] by (simp add: demo_state_def)
qed

text \<open>
  C6: a completed, failed or cancelled task keeps its state and its result, and the retry
  counter of a task never falls, whatever operations follow.
\<close>

theorem terminal_tasks_stay:
  assumes "legal orch_ok orch_step (orch_init ags) (ops @ more_ops)"
    "dget (or_store (run orch_step (orch_init ags) ops)) wid = Some w" "dget (wf_tasks w) tid = Some n"
  shows "\<exists>w' n'. dget (or_store (run orch_step (orch_init ags) (ops @ more_ops))) wid = Some w' \<and>
     dget (wf_tasks w') tid = Some n' \<and> tn_retry_count n \<le> tn_retry_count n' \<and>
     tn_depends_on n' = tn_depends_on n \<and>
     (terminal (tn_state n) \<longrightarrow> tn_state n' = tn_state n \<and> tn_result n' = tn_result n)"
proof -
  have "orch_le (run orch_step (orch_init ags) ops) (run orch_step (orch_init ags) (ops @ more_ops))"
    by (rule om.run_between) (simp_all add: assms(1))
  then obtain w' where w': "dget (or_store (run orch_step (orch_init ags) (ops @ more_ops))) wid = Some w'"
      "wf_le w w'"
    using assms(2) by (auto simp: orch_le_def)
  obtain n' where "dget (wf_tasks w') tid = Some n'" "node_le n n'"
    using w'(2) assms(3) by (auto simp: wf_le_def tasks_le_def)
  then show ?thesis using w'(1) by (auto simp: node_le_def same_shape_def)
qed

definition demo_more :: "orch_op list" where
  "demo_more = [OFail ''w'' ''t1'' ''boom'', OComplete 2 ''w'' ''t1'' PNone]"

theorem terminal_tasks_stay_witness:
  "\<exists>w' n'. dget (or_store (run orch_step (orch_init []) (demo_ops @ demo_more))) ''w'' = Some w' \<and>
     dget (wf_tasks w') ''t1'' = Some n' \<and> tn_retry_count demo_task \<le> tn_retry_count n'"
proof -
  have "legal orch_ok orch_step (orch_init []) (demo_ops @ demo_more)"
    "dget (or_store (run orch_step (orch_init []) demo_ops)) ''w'' = Some demo_started"
    "dget (wf_tasks demo_started) ''t1'' = Some demo_task"
    by code_simp+
  from terminal_tasks_stay [OF this] show ?thesis by blast
qed

text \<open>
  C7: a worker that processes a ready task leaves it settled: it is completed or failed for
  good, or ready again for a retry, and never left running, whatever the coordinator and the
  executor answer.
\<close>

theorem process_settles:
  assumes "orch_inv s" "task_in s wid tid = Some READY"
  shows "fst (process now lease res wid tid s) = Inr () \<and>
     task_in (snd (process now lease res wid tid s)) wid tid \<in> {Some COMPLETED, Some FAILED, Some READY}"
proof -
  obtain w n where w: "dget (or_store s) wid = Some w" "dget (wf_tasks w) tid = Some n" "tn_state n = READY"
    using assms(2) by (auto simp: task_in_def tstate_def split: option.splits)
  then obtain m where m: "fst (start_task now w tid) = Inr m"
    by (auto simp: start_task_def get_task_def transition_to_def Let_def)
  obtain w1 evs where s1: "good wid w w1 evs" "orch_start now wid tid s = (Inr m, outcome wid w1 evs s)"
      "tstate (wf_tasks w1) tid = Some RUNNING"
    using orch_start_outcome [OF assms(1) w(1), of now tid] m by auto
  let ?s1 = "outcome wid w1 evs s"
  have inv1: "orch_inv ?s1" using outcome_inv [OF assms(1) w(1) s1(1)] by simp
  have w1: "dget (or_store ?s1) wid = Some w1" using w(1) by (simp add: outcome_def dget_dmod)
  have settled: "\<exists>v. fst p = Inr v \<and> task_in (snd p) wid tid \<in> {Some COMPLETED, Some FAILED, Some READY}"
    if "\<exists>r w' es. good wid w1 w' es \<and> p = (r, outcome wid w' es ?s1) \<and>
          (tstate (wf_tasks w1) tid = Some RUNNING \<longrightarrow> (\<exists>v. r = Inr v) \<and> tstate (wf_tasks w') tid \<in> T)"
      "T \<subseteq> {Some COMPLETED, Some FAILED, Some READY}" for p :: "(orch_error + workflow) \<times> orch" and T
    using that s1(3) w1 by (auto simp: task_in_def outcome_def dget_dmod)
  have F: "\<exists>v. fst (orch_fail wid tid e ?s1) = Inr v \<and>
      task_in (snd (orch_fail wid tid e ?s1)) wid tid \<in> {Some COMPLETED, Some FAILED, Some READY}" for e
    using orch_fail_outcome [OF inv1 w1, of tid e] by (rule settled) simp
  have C: "\<exists>v. fst (orch_complete now wid tid u ?s1) = Inr v \<and>
      task_in (snd (orch_complete now wid tid u ?s1)) wid tid \<in> {Some COMPLETED, Some FAILED, Some READY}" for u
    by (rule settled [where T = "{Some COMPLETED}"]) (use orch_complete_outcome [OF inv1 w1, of now tid u] in simp_all)
  let ?ok = "\<lambda>r. fst r = Inr () \<and> task_in (snd r) wid tid \<in> {Some COMPLETED, Some FAILED, Some READY}"
  have A: "?ok (apfst (map_sum id (\<lambda>_. ())) p)"
    if "\<exists>v. fst p = Inr v \<and> task_in (snd p) wid tid \<in> {Some COMPLETED, Some FAILED, Some READY}"
    for p :: "(orch_error + workflow) \<times> orch"
    using that by (cases p) auto
  show ?thesis
  proof (cases "lease \<noteq> None \<and> \<not> fst (the lease)")
    case True
    then show ?thesis using A [OF F] s1(2) by (simp only: process_start Let_def fst_conv snd_conv) simp
  next
    case notacq: False
    show ?thesis
    proof (cases res)
      case (Inl msg)
      then show ?thesis using A [OF F] s1(2) notacq
        by (simp only: process_start Let_def fst_conv snd_conv sum.case if_False)
    next
      case (Inr v)
      show ?thesis
      proof (cases "lease \<noteq> None \<and> \<not> snd (the lease)")
        case True
        then show ?thesis using A [OF F] s1(2) notacq Inr
          by (simp only: process_start Let_def fst_conv snd_conv sum.case if_False) simp
      next
        case False
        then show ?thesis using A [OF C] s1(2) notacq Inr
          by (simp only: process_start Let_def fst_conv snd_conv sum.case if_False)
      qed
    qed
  qed
qed

definition demo_created_state :: "orch" where
  "demo_created_state = run orch_step (orch_init []) [OCreate 0 demo_id ''w'' ''demo'' demo_specs]"

theorem process_settles_witness:
  "task_in (snd (process 1 (Some (True, False)) (Inr PNone) ''w'' ''t1'' demo_created_state)) ''w'' ''t1''
     \<in> {Some COMPLETED, Some FAILED, Some READY}"
proof -
  have "orch_inv demo_created_state"
    unfolding demo_created_state_def by (rule orch_run_inv) code_simp
  moreover have "task_in demo_created_state ''w'' ''t1'' = Some READY" by code_simp
  ultimately show ?thesis by (rule process_settles [THEN conjunct2])
qed

end
