(* ===== verification/Membership.thy ===== *)
theory Membership
  imports Prelude
begin

text \<open>
  Voter configurations of a Raft cell (\<open>cluster_network/membership.py\<close>) and the planner of
  replacements (\<open>cluster_network/recovery.py\<close>).

  A frozenset of identifiers is the sorted list of its elements without repetition, so that
  equality of sets is equality of lists; \<open>canon\<close> builds it.
\<close>

section \<open>Sets of identifiers\<close>

definition canon :: "string list \<Rightarrow> string list" where
  "canon xs = sort (remdups xs)"

lemma set_canon [simp]: "set (canon xs) = set xs"
  by (simp add: canon_def)

lemma canon_canonical [simp]: "sorted (canon xs)" "distinct (canon xs)"
  by (simp_all add: canon_def)

lemma canon_id: "sorted xs \<Longrightarrow> distinct xs \<Longrightarrow> canon xs = xs"
  by (simp add: canon_def distinct_remdups_id sorted_sort_id)

lemma canon_canon [simp]: "canon (canon xs) = canon xs"
  by (rule canon_id) simp_all

lemma canon_eq_iff: "canon xs = canon ys \<longleftrightarrow> set xs = set ys"
  by (metis canon_canonical set_canon sorted_distinct_set_unique)

text \<open>
  \<open>frozenset(v)\<close> of a Python value: the elements of a list, the characters of a string, the
  keys of a dictionary; an unhashable element or another value is a \<open>TypeError\<close>.
\<close>

definition py_frozenset :: "pyval \<Rightarrow> pyval list option" where
  "py_frozenset v =
     (case v of
        PList l \<Rightarrow> if \<exists>x\<in>set l. (case x of PList _ \<Rightarrow> True | PDict _ \<Rightarrow> True | _ \<Rightarrow> False) then None else Some l
      | PStr s \<Rightarrow> Some (map (\<lambda>c. PStr [c]) s)
      | PDict d \<Rightarrow> Some (map PStr (dkeys d))
      | _ \<Rightarrow> None)"

definition str_of :: "pyval \<Rightarrow> string" where
  "str_of v = (case v of PStr s \<Rightarrow> s | _ \<Rightarrow> [])"

section \<open>Voter configurations\<close>

datatype membership_error = MembershipError | MembershipTypeError

record voter_config =
  vc_voters :: "string list"
  vc_joint :: "string list option"

definition normalise_voters :: "pyval list \<Rightarrow> membership_error + string list" where
  "normalise_voters vs =
     (if vs = [] \<or> (\<exists>v\<in>set vs. \<not> is_str v \<or> str_of v = []) then Inl MembershipError
      else Inr (canon (map str_of vs)))"

definition majority_size :: "string list \<Rightarrow> nat" where
  "majority_size voters = length voters div 2 + 1"

definition make_config :: "pyval list \<Rightarrow> pyval list option \<Rightarrow> membership_error + voter_config" where
  "make_config vs joint =
     (case normalise_voters vs of
        Inl e \<Rightarrow> Inl e
      | Inr voters \<Rightarrow>
          (case joint of
             None \<Rightarrow> Inr \<lparr>vc_voters = voters, vc_joint = None\<rparr>
           | Some js \<Rightarrow>
               (case normalise_voters js of
                  Inl e \<Rightarrow> Inl e
                | Inr jv \<Rightarrow> Inr \<lparr>vc_voters = voters, vc_joint = Some jv\<rparr>)))"

definition all_voters :: "voter_config \<Rightarrow> string list" where
  "all_voters c = canon (vc_voters c @ (case vc_joint c of None \<Rightarrow> [] | Some j \<Rightarrow> j))"

definition peer_ids :: "voter_config \<Rightarrow> string \<Rightarrow> string list" where
  "peer_ids c me = filter (\<lambda>v. v \<noteq> me) (all_voters c)"

definition majority_of :: "string list \<Rightarrow> string list \<Rightarrow> bool" where
  "majority_of voters acks \<longleftrightarrow> majority_size voters \<le> length (filter (\<lambda>v. v \<in> set acks) voters)"

definition has_quorum :: "voter_config \<Rightarrow> string list \<Rightarrow> bool" where
  "has_quorum c acks \<longleftrightarrow>
     majority_of (vc_voters c) acks \<and>
     (case vc_joint c of None \<Rightarrow> True | Some j \<Rightarrow> majority_of j acks)"

definition to_payload :: "voter_config \<Rightarrow> (string, pyval) dict" where
  "to_payload c =
     (''voters'', PList (map PStr (vc_voters c))) #
     (case vc_joint c of None \<Rightarrow> [] | Some j \<Rightarrow> [(''joint_voters'', PList (map PStr j))])"

definition from_payload :: "pyval \<Rightarrow> membership_error + voter_config" where
  "from_payload p =
     (case p of
        PDict d \<Rightarrow>
          (case pget d ''voters'' of
             PList vs \<Rightarrow>
               (case pget d ''joint_voters'' of
                  PNone \<Rightarrow>
                    (case py_frozenset (PList vs) of
                       None \<Rightarrow> Inl MembershipTypeError
                     | Some fs \<Rightarrow> make_config fs None)
                | PList js \<Rightarrow>
                    (case (py_frozenset (PList vs), py_frozenset (PList js)) of
                       (Some fs, Some gs) \<Rightarrow> make_config fs (Some gs)
                     | _ \<Rightarrow> Inl MembershipTypeError)
                | _ \<Rightarrow> Inl MembershipError)
           | _ \<Rightarrow> Inl MembershipError)
      | _ \<Rightarrow> Inl MembershipError)"

text \<open>What \<open>__post_init__\<close> establishes.\<close>

definition voters_ok :: "string list \<Rightarrow> bool" where
  "voters_ok vs \<longleftrightarrow> vs \<noteq> [] \<and> [] \<notin> set vs \<and> sorted vs \<and> distinct vs"

definition config_ok :: "voter_config \<Rightarrow> bool" where
  "config_ok c \<longleftrightarrow> voters_ok (vc_voters c) \<and> (case vc_joint c of None \<Rightarrow> True | Some j \<Rightarrow> voters_ok j)"

lemma normalise_voters_ok: "normalise_voters vs = Inr xs \<Longrightarrow> voters_ok xs"
proof -
  assume n: "normalise_voters vs = Inr xs"
  then have xs: "xs = canon (map str_of vs)" and vs: "vs \<noteq> []" "\<forall>v\<in>set vs. str_of v \<noteq> []"
    by (auto simp: normalise_voters_def split: if_splits)
  have "set xs = str_of ` set vs" using xs by simp
  then have "xs \<noteq> []" "[] \<notin> set xs" using vs by (cases vs; force)+
  then show ?thesis using xs by (simp add: voters_ok_def)
qed

lemma make_config_ok: "make_config vs j = Inr c \<Longrightarrow> config_ok c"
  by (auto simp: make_config_def config_ok_def dest: normalise_voters_ok split: sum.splits option.splits)

lemma from_payload_ok: "from_payload p = Inr c \<Longrightarrow> config_ok c"
  by (auto simp: from_payload_def dest: make_config_ok split: pyval.splits option.splits prod.splits)

lemma normalise_strings: "voters_ok vs \<Longrightarrow> normalise_voters (map PStr vs) = Inr vs"
  by (auto simp: normalise_voters_def voters_ok_def is_str_def str_of_def comp_def canon_id)

lemma hashable_strings: "py_frozenset (PList (map PStr vs)) = Some (map PStr vs)"
  by (auto simp: py_frozenset_def)

lemma payload_roundtrip: "config_ok c \<Longrightarrow> from_payload (PDict (to_payload c)) = Inr c"
  by (cases "vc_joint c")
    (auto simp: from_payload_def to_payload_def pget_def hashable_strings make_config_def config_ok_def
      normalise_strings)

section \<open>Quorums\<close>

text \<open>Two majorities of one set of voters share a voter.\<close>

lemma majorities_meet:
  assumes "distinct vs" "majority_of vs a" "majority_of vs b"
  shows "\<exists>v\<in>set vs. v \<in> set a \<and> v \<in> set b"
proof (rule ccontr)
  assume no: "\<not> ?thesis"
  let ?A = "set vs \<inter> set a" and ?B = "set vs \<inter> set b"
  have card: "length (filter (\<lambda>v. v \<in> set xs) vs) = card (set vs \<inter> set xs)" for xs
    using assms(1) distinct_card [of "filter (\<lambda>v. v \<in> set xs) vs"] by (simp add: Int_def)
  have "card (?A \<union> ?B) = card ?A + card ?B"
    using no by (intro card_Un_disjoint) auto
  moreover have "card (?A \<union> ?B) \<le> card (set vs)" by (intro card_mono) auto
  moreover have "card (set vs) = length vs" using assms(1) by (rule distinct_card)
  ultimately show False
    using assms(2,3) card [of a] card [of b] by (simp add: majority_of_def majority_size_def)
qed

definition components :: "voter_config \<Rightarrow> string list list" where
  "components c = vc_voters c # (case vc_joint c of None \<Rightarrow> [] | Some j \<Rightarrow> [j])"

text \<open>
  Two configurations are compatible when they have a set of voters in common: the same
  configuration, or neighbours in the sequence old, joint, new.
\<close>

definition compatible :: "voter_config \<Rightarrow> voter_config \<Rightarrow> bool" where
  "compatible c d \<longleftrightarrow> (\<exists>vs\<in>set (components c). vs \<in> set (components d))"

lemma compatible_sym: "compatible c d \<Longrightarrow> compatible d c"
  by (auto simp: compatible_def)

text \<open>
  An election in a system whose quorums meet has one winner. The locale states the law the
  configurations promise and what follows for the winners of elections.
\<close>

locale quorum_system =
  fixes valid :: "'c \<Rightarrow> bool"
    and quorum :: "'c \<Rightarrow> 'v list \<Rightarrow> bool"
    and related :: "'c \<Rightarrow> 'c \<Rightarrow> bool"
  assumes quorums_meet:
    "valid c \<Longrightarrow> valid d \<Longrightarrow> related c d \<Longrightarrow> quorum c a \<Longrightarrow> quorum d b \<Longrightarrow> \<exists>v. v \<in> set a \<and> v \<in> set b"
begin

lemma one_winner:
  assumes "valid c" "valid d" "related c d" "quorum c a" "quorum d b"
    and "\<And>v. v \<in> set a \<Longrightarrow> votes v x" "\<And>v. v \<in> set b \<Longrightarrow> votes v y"
    and once: "\<And>v x y. votes v x \<Longrightarrow> votes v y \<Longrightarrow> x = y"
  shows "x = y"
  using quorums_meet [OF assms(1-5)] assms(6,7) once by blast

end

lemma has_quorum_component: "has_quorum c a \<Longrightarrow> vs \<in> set (components c) \<Longrightarrow> majority_of vs a"
  by (auto simp: has_quorum_def components_def split: option.splits)

lemma config_ok_component: "config_ok c \<Longrightarrow> vs \<in> set (components c) \<Longrightarrow> distinct vs"
  by (auto simp: config_ok_def components_def voters_ok_def split: option.splits)

interpretation cell: quorum_system config_ok has_quorum compatible
proof unfold_locales
  fix c d a b
  assume *: "config_ok c" "config_ok d" "compatible c d" "has_quorum c a" "has_quorum d b"
  then obtain vs where "vs \<in> set (components c)" "vs \<in> set (components d)"
    by (auto simp: compatible_def)
  then show "\<exists>v. v \<in> set a \<and> v \<in> set b"
    using majorities_meet [of vs a b] * has_quorum_component config_ok_component by blast
qed

section \<open>Planning replacements\<close>

record failure_window =
  fw_count :: int
  fw_first :: real

record replacement_plan =
  rp_failed :: string
  rp_standby :: string
  rp_failures :: int
  rp_first :: real

record planner =
  pl_threshold :: int
  pl_minimum :: real
  pl_failures :: "(string, failure_window) dict"
  pl_planned :: "string list"

definition new_planner :: "int \<Rightarrow> real \<Rightarrow> planner option" where
  "new_planner threshold minimum =
     (if threshold < 1 \<or> minimum < 0 then None
      else Some \<lparr>pl_threshold = threshold, pl_minimum = minimum, pl_failures = [], pl_planned = []\<rparr>)"

definition observe ::
    "string \<Rightarrow> bool \<Rightarrow> string list \<Rightarrow> string list \<Rightarrow> real \<Rightarrow> planner \<Rightarrow> replacement_plan option \<times> planner" where
  "observe peer alive voters standbys now p =
     (if alive then
        (None, p\<lparr>pl_failures := ddel peer (pl_failures p), pl_planned := removeAll peer (pl_planned p)\<rparr>)
      else if peer \<notin> set voters \<or> peer \<in> set (pl_planned p) then (None, p)
      else
        (let w = (case dget (pl_failures p) peer of
                    None \<Rightarrow> \<lparr>fw_count = 0, fw_first = now\<rparr> | Some w \<Rightarrow> w);
             w' = w\<lparr>fw_count := fw_count w + 1\<rparr>;
             p' = p\<lparr>pl_failures := dset peer w' (pl_failures p)\<rparr>
         in if fw_count w' < pl_threshold p \<or> now - fw_first w' < pl_minimum p then (None, p')
            else
              (case canon (filter (\<lambda>s. s \<notin> set voters \<and> s \<noteq> peer) standbys) of
                 [] \<Rightarrow> (None, p')
               | c # _ \<Rightarrow>
                   (Some \<lparr>rp_failed = peer, rp_standby = c, rp_failures = fw_count w', rp_first = fw_first w'\<rparr>,
                    p'\<lparr>pl_planned := peer # pl_planned p'\<rparr>))))"

definition retry_plan :: "string \<Rightarrow> planner \<Rightarrow> planner" where
  "retry_plan failed p = p\<lparr>pl_planned := removeAll failed (pl_planned p)\<rparr>"

definition resolve_plan :: "string \<Rightarrow> planner \<Rightarrow> planner" where
  "resolve_plan failed p =
     p\<lparr>pl_planned := removeAll failed (pl_planned p), pl_failures := ddel failed (pl_failures p)\<rparr>"

end
