(* ===== verification/Raft.thy ===== *)
theory Raft
  imports Membership
begin

text \<open>
  The consensus node of \<open>cluster_network/raft.py\<close> with its durable state
  (\<open>cluster_network/raft_storage.py\<close>).

  A block that holds the lock is one definition. Where the code releases the lock to call a
  peer (elections and heartbeats) the definition is split at that point: the values the code
  captured are a frame, the peer's answer is an argument (\<open>None\<close> is an exception), and other
  blocks may run in between. The callbacks of the owner are recorded in \<open>rf_calls\<close>; the
  snapshot the owner supplies is an argument. Timers are left out: an election may start and a
  heartbeat round may run at any time. A file is read back as it was written.
\<close>

section \<open>State\<close>

datatype role = Follower | Candidate | Leader

record log_entry =
  le_term :: int
  le_index :: int
  le_command :: pyval

datatype app_call = OnCommit log_entry | OnRestore pyval | OnLiveness string bool

text \<open>The two files of \<open>RaftStorage\<close>; \<open>None\<close> where a file does not exist.\<close>

record disk_state =
  ds_term :: int
  ds_voted_for :: "string option"
  ds_log :: "log_entry list"
  ds_commit :: int

record disk_snapshot =
  sn_index :: int
  sn_term :: int
  sn_data :: pyval
  sn_membership :: "pyval option"

record disk =
  dk_state :: "disk_state option"
  dk_snapshot :: "disk_snapshot option"

record raft =
  rf_id :: string
  rf_membership :: voter_config
  rf_pending_joint :: "string list option"
  rf_enforced :: bool
  rf_retired :: "string list"
  rf_learners :: "string list"
  rf_term :: int
  rf_voted_for :: "string option"
  rf_role :: role
  rf_log :: "log_entry list"
  rf_commit :: int
  rf_leader_id :: "string option"
  rf_snap_index :: int
  rf_snap_term :: int
  rf_restored :: "pyval option"
  rf_next :: "(string, int) dict"
  rf_match :: "(string, int) dict"
  rf_disk :: "disk option"
  rf_calls :: "app_call list"

section \<open>Storage\<close>

definition storage_save :: "int \<Rightarrow> string option \<Rightarrow> log_entry list \<Rightarrow> int \<Rightarrow> disk \<Rightarrow> disk" where
  "storage_save t v l c d =
     d\<lparr>dk_state := Some \<lparr>ds_term = t, ds_voted_for = v, ds_log = l, ds_commit = c\<rparr>\<rparr>"

definition storage_save_snapshot :: "int \<Rightarrow> int \<Rightarrow> pyval \<Rightarrow> pyval option \<Rightarrow> disk \<Rightarrow> disk" where
  "storage_save_snapshot i t data m d =
     d\<lparr>dk_snapshot := Some \<lparr>sn_index = i, sn_term = t, sn_data = data, sn_membership = m\<rparr>\<rparr>"

definition load_commit_index :: "disk \<Rightarrow> int" where
  "load_commit_index d = (case dk_state d of None \<Rightarrow> -1 | Some s \<Rightarrow> ds_commit s)"

definition load_snapshot_membership :: "disk \<Rightarrow> pyval option" where
  "load_snapshot_membership d =
     (case dk_snapshot d of
        None \<Rightarrow> None
      | Some s \<Rightarrow> (case sn_membership s of Some m \<Rightarrow> if is_dict m then Some m else None | None \<Rightarrow> None))"

definition persist :: "raft \<Rightarrow> raft" where
  "persist r =
     (case rf_disk r of
        None \<Rightarrow> r
      | Some d \<Rightarrow> r\<lparr>rf_disk := Some (storage_save (rf_term r) (rf_voted_for r) (rf_log r) (rf_commit r) d)\<rparr>)"

section \<open>Indices and terms\<close>

definition last_log_index :: "raft \<Rightarrow> int" where
  "last_log_index r = (if rf_log r = [] then rf_snap_index r else le_index (last (rf_log r)))"

definition last_log_term :: "raft \<Rightarrow> int" where
  "last_log_term r = (if rf_log r = [] then rf_snap_term r else le_term (last (rf_log r)))"

definition log_entry_at :: "raft \<Rightarrow> int \<Rightarrow> log_entry option" where
  "log_entry_at r i =
     (let pos = i - rf_snap_index r - 1
      in if 0 \<le> pos \<and> pos < int (length (rf_log r)) then Some (rf_log r ! nat pos) else None)"

definition term_at :: "raft \<Rightarrow> int \<Rightarrow> int" where
  "term_at r i =
     (if i = rf_snap_index r then rf_snap_term r
      else case log_entry_at r i of Some e \<Rightarrow> le_term e | None \<Rightarrow> 0)"

section \<open>Committed membership commands\<close>

text \<open>
  The voters of a command as a set: every failure (\<open>KeyError\<close>, \<open>TypeError\<close>,
  \<open>MembershipError\<close>) and a set with an element that is not a string, which equals no
  configuration, ends in the same \<open>return\<close>.
\<close>

definition command_voters :: "pyval \<Rightarrow> string \<Rightarrow> string list option" where
  "command_voters cmd k =
     (case cmd of
        PDict d \<Rightarrow>
          (case dget d k of
             None \<Rightarrow> None
           | Some v \<Rightarrow>
               (case py_frozenset v of
                  None \<Rightarrow> None
                | Some vs \<Rightarrow> (case normalise_voters vs of Inr xs \<Rightarrow> Some xs | Inl _ \<Rightarrow> None)))
      | _ \<Rightarrow> None)"

definition command_kind :: "pyval \<Rightarrow> pyval" where
  "command_kind cmd = (case cmd of PDict d \<Rightarrow> pget d ''kind'' | _ \<Rightarrow> PNone)"

definition set_minus :: "string list \<Rightarrow> string list \<Rightarrow> string list" where
  "set_minus xs ys = filter (\<lambda>x. x \<notin> set ys) xs"

definition apply_membership_command :: "pyval \<Rightarrow> raft \<Rightarrow> raft" where
  "apply_membership_command cmd r =
     (if command_kind cmd = PStr ''raft_membership_joint'' then
        (case (command_voters cmd ''old_voters'', command_voters cmd ''new_voters'') of
           (Some old, Some new) \<Rightarrow>
             if old \<noteq> vc_voters (rf_membership r) then r
             else r\<lparr>rf_membership := \<lparr>vc_voters = old, vc_joint = Some new\<rparr>,
                    rf_enforced := True, rf_pending_joint := None\<rparr>
         | _ \<Rightarrow> r)
      else if command_kind cmd = PStr ''raft_membership_finalize'' then
        (case (command_voters cmd ''old_voters'', command_voters cmd ''new_voters'') of
           (Some old, Some new) \<Rightarrow>
             if vc_voters (rf_membership r) \<noteq> old \<or> vc_joint (rf_membership r) \<noteq> Some new then r
             else r\<lparr>rf_membership := \<lparr>vc_voters = new, vc_joint = None\<rparr>,
                    rf_enforced := True,
                    rf_retired := canon (rf_retired r @ set_minus old new),
                    rf_learners := set_minus (rf_learners r) new,
                    rf_pending_joint := None\<rparr>
         | _ \<Rightarrow> r)
      else r)"

section \<open>Construction and restart\<close>

definition load_persisted_state :: "raft \<Rightarrow> membership_error + raft" where
  "load_persisted_state r =
     (case rf_disk r of
        None \<Rightarrow> Inr r
      | Some d \<Rightarrow>
          (case (case dk_snapshot d of
                   None \<Rightarrow> Inr r
                 | Some s \<Rightarrow>
                     (let r1 = r\<lparr>rf_snap_index := sn_index s, rf_snap_term := sn_term s\<rparr>
                      in case load_snapshot_membership d of
                           None \<Rightarrow> Inr (r1\<lparr>rf_restored := Some (sn_data s)\<rparr>)
                         | Some m \<Rightarrow>
                             (case from_payload m of
                                Inl e \<Rightarrow> Inl e
                              | Inr c \<Rightarrow> Inr (r1\<lparr>rf_membership := c, rf_restored := Some (sn_data s)\<rparr>)))) of
             Inl e \<Rightarrow> Inl e
           | Inr r2 \<Rightarrow>
               (case dk_state d of
                  None \<Rightarrow> Inr r2
                | Some s \<Rightarrow>
                    (let r3 = r2\<lparr>rf_term := ds_term s, rf_voted_for := ds_voted_for s, rf_log := ds_log s\<rparr>;
                         r4 = r3\<lparr>rf_commit := max (rf_snap_index r3) (min (load_commit_index d) (last_log_index r3))\<rparr>
                     in Inr (fold (\<lambda>e. apply_membership_command (le_command e))
                               (filter (\<lambda>e. le_index e \<le> rf_commit r4) (rf_log r4)) r4)))))"

definition new_raft ::
    "string \<Rightarrow> string list \<Rightarrow> bool \<Rightarrow> disk option \<Rightarrow> membership_error + raft" where
  "new_raft me peers strict dsk =
     (case make_config (map PStr (peers @ [me])) None of
        Inl e \<Rightarrow> Inl e
      | Inr c \<Rightarrow>
          load_persisted_state
            \<lparr>rf_id = me, rf_membership = c, rf_pending_joint = None, rf_enforced = strict,
             rf_retired = [], rf_learners = [], rf_term = 0, rf_voted_for = None, rf_role = Follower,
             rf_log = [], rf_commit = -1, rf_leader_id = None, rf_snap_index = -1, rf_snap_term = 0,
             rf_restored = None, rf_next = [], rf_match = [], rf_disk = dsk, rf_calls = []\<rparr>)"

section \<open>Compaction\<close>

definition compact_log :: "int option \<Rightarrow> pyval \<Rightarrow> raft \<Rightarrow> bool \<times> raft" where
  "compact_log limit data r =
     (let target = (case limit of None \<Rightarrow> rf_commit r | Some u \<Rightarrow> min u (rf_commit r))
      in if target \<le> rf_snap_index r then (False, r)
         else case log_entry_at r target of
                None \<Rightarrow> (False, r)
              | Some e \<Rightarrow>
                  (let r1 = r\<lparr>rf_log := drop (nat (target - rf_snap_index r)) (rf_log r),
                              rf_snap_index := target, rf_snap_term := le_term e\<rparr>
                   in case rf_disk r1 of
                        None \<Rightarrow> (True, r1)
                      | Some d \<Rightarrow>
                          (True, persist (r1\<lparr>rf_disk := Some (storage_save_snapshot target (le_term e) data
                                    (Some (PDict (to_payload (rf_membership r1)))) d)\<rparr>))))"

section \<open>Elections\<close>

definition step_down :: "int \<Rightarrow> raft \<Rightarrow> raft" where
  "step_down t r = persist (r\<lparr>rf_term := t, rf_role := Follower, rf_voted_for := None\<rparr>)"

text \<open>What \<open>_start_election\<close> captures in its first locked block, and the votes so far.\<close>

record election =
  el_term :: int
  el_last_index :: int
  el_last_term :: int
  el_peers :: "string list"
  el_votes :: "string list"

definition begin_election :: "raft \<Rightarrow> election option \<times> raft" where
  "begin_election r =
     (if rf_enforced r \<and> rf_id r \<notin> set (all_voters (rf_membership r)) then (None, r)
      else
        (let r1 = persist (r\<lparr>rf_term := rf_term r + 1, rf_role := Candidate, rf_voted_for := Some (rf_id r)\<rparr>)
         in (Some \<lparr>el_term = rf_term r1, el_last_index = last_log_index r1, el_last_term = last_log_term r1,
                   el_peers = peer_ids (rf_membership r1) (rf_id r1), el_votes = [rf_id r1]\<rparr>, r1)))"

definition vote_response ::
    "election \<Rightarrow> string \<Rightarrow> (int \<times> bool) option \<Rightarrow> raft \<Rightarrow> election option \<times> raft" where
  "vote_response el peer ans r =
     (case ans of
        None \<Rightarrow> (Some el, r)
      | Some (resp_term, granted) \<Rightarrow>
          if resp_term > rf_term r then (None, step_down resp_term r)
          else if rf_role r \<noteq> Candidate \<or> rf_term r \<noteq> el_term el then (None, r)
          else (Some (if granted then el\<lparr>el_votes := peer # el_votes el\<rparr> else el), r))"

definition become_leader :: "string list \<Rightarrow> raft \<Rightarrow> raft" where
  "become_leader peers r =
     r\<lparr>rf_role := Leader, rf_leader_id := Some (rf_id r),
       rf_next := fold (\<lambda>p. dset p (last_log_index r + 1)) peers (rf_next r),
       rf_match := fold (\<lambda>p. dset p (-1)) peers (rf_match r)\<rparr>"

definition finish_election :: "election \<Rightarrow> raft \<Rightarrow> raft" where
  "finish_election el r =
     (if rf_role r = Candidate \<and> rf_term r = el_term el \<and> has_quorum (rf_membership r) (el_votes el)
      then become_leader (el_peers el) r else r)"

text \<open>An election whose peers answer without other blocks running in between.\<close>

fun poll_peers ::
    "election \<Rightarrow> string list \<Rightarrow> (string \<Rightarrow> (int \<times> bool) option) \<Rightarrow> raft \<Rightarrow> election option \<times> raft" where
  "poll_peers el [] ans r = (Some el, r)"
| "poll_peers el (p # ps) ans r =
     (case vote_response el p (ans p) r of
        (None, r') \<Rightarrow> (None, r')
      | (Some el', r') \<Rightarrow> poll_peers el' ps ans r')"

definition start_election :: "(string \<Rightarrow> (int \<times> bool) option) \<Rightarrow> raft \<Rightarrow> raft" where
  "start_election ans r =
     (case begin_election r of
        (None, r1) \<Rightarrow> r1
      | (Some el, r1) \<Rightarrow>
          (case poll_peers el (el_peers el) ans r1 of
             (None, r2) \<Rightarrow> r2
           | (Some el', r2) \<Rightarrow> finish_election el' r2))"

definition handle_request_vote ::
    "int \<Rightarrow> string \<Rightarrow> int \<Rightarrow> int \<Rightarrow> raft \<Rightarrow> (int \<times> bool) \<times> raft" where
  "handle_request_vote t cand lli llt r =
     (if rf_enforced r \<and> (rf_id r \<notin> set (all_voters (rf_membership r)) \<or>
                          cand \<notin> set (all_voters (rf_membership r)))
      then ((rf_term r, False), r)
      else if t < rf_term r then ((rf_term r, False), r)
      else
        (let r1 = (if t > rf_term r then step_down t r else r);
             log_ok = (llt > last_log_term r1 \<or> llt = last_log_term r1 \<and> lli \<ge> last_log_index r1)
         in if (rf_voted_for r1 = None \<or> rf_voted_for r1 = Some cand) \<and> log_ok
            then (let r2 = persist (r1\<lparr>rf_voted_for := Some cand\<rparr>) in ((rf_term r2, True), r2))
            else ((rf_term r1, False), r1)))"

section \<open>Replication\<close>

text \<open>
  An entry of an AppendEntries request: its term and command, or \<open>None\<close> for a dictionary
  without them, on which the loop raises with the log as it is by then.
\<close>

datatype raft_error = BadEntry | BadMembership membership_error

fun append_loop ::
    "int \<Rightarrow> int \<Rightarrow> (int \<times> pyval) option list \<Rightarrow> log_entry list \<Rightarrow> bool \<Rightarrow> (raft_error + bool) \<times> log_entry list" where
  "append_loop base idx [] lg changed = (Inr changed, lg)"
| "append_loop base idx (e # es) lg changed =
     (if idx \<le> base then append_loop base (idx + 1) es lg changed
      else case e of
             None \<Rightarrow> (Inl BadEntry, lg)
           | Some (t, cmd) \<Rightarrow>
               (let entry = \<lparr>le_term = t, le_index = idx, le_command = cmd\<rparr>;
                    pos = nat (idx - base - 1)
                in if pos < length lg
                   then if le_term (lg ! pos) \<noteq> t
                        then append_loop base (idx + 1) es (take pos lg @ [entry]) True
                        else append_loop base (idx + 1) es lg changed
                   else append_loop base (idx + 1) es (lg @ [entry]) True))"

text \<open>\<open>_apply_committed\<close>: the entries are applied in order, then the index is stored.\<close>

definition commit_one :: "int \<Rightarrow> raft \<Rightarrow> raft" where
  "commit_one i r =
     (case log_entry_at r i of
        None \<Rightarrow> r
      | Some e \<Rightarrow>
          (let r1 = apply_membership_command (le_command e) r
           in r1\<lparr>rf_calls := rf_calls r1 @ [OnCommit e]\<rparr>))"

definition apply_committed :: "int \<Rightarrow> raft \<Rightarrow> raft" where
  "apply_committed n r =
     persist ((fold commit_one [rf_commit r + 1..n] r)\<lparr>rf_commit := n\<rparr>)"

definition handle_append_entries ::
    "int \<Rightarrow> string \<Rightarrow> int \<Rightarrow> int \<Rightarrow> (int \<times> pyval) option list \<Rightarrow> int \<Rightarrow> raft
     \<Rightarrow> (raft_error + int \<times> bool) \<times> raft" where
  "handle_append_entries t leader prev_i prev_t es lcommit r =
     (if t < rf_term r then (Inr (rf_term r, False), r)
      else
        (let r1 = (if t > rf_term r
                   then persist (r\<lparr>rf_term := t, rf_role := Follower, rf_leader_id := Some leader,
                                   rf_voted_for := None\<rparr>)
                   else r\<lparr>rf_role := Follower, rf_leader_id := Some leader\<rparr>)
         in if prev_i \<ge> 0 \<and> \<not> prev_i < rf_snap_index r1 \<and>
               (prev_i > last_log_index r1 \<or> term_at r1 prev_i \<noteq> prev_t)
            then (Inr (rf_term r1, False), r1)
            else
              (case append_loop (rf_snap_index r1) (prev_i + 1) es (rf_log r1) False of
                 (Inl e, log') \<Rightarrow> (Inl e, r1\<lparr>rf_log := log'\<rparr>)
               | (Inr changed, log') \<Rightarrow>
                   (let r2 = r1\<lparr>rf_log := log'\<rparr>;
                        r3 = (if changed then persist r2 else r2);
                        r4 = (if lcommit > rf_commit r3
                              then apply_committed (min lcommit (last_log_index r3)) r3 else r3)
                    in (Inr (rf_term r4, True), r4)))))"

text \<open>
  \<open>membership\<close> is the optional field of the request, \<open>PNone\<close> when it is missing. It is
  parsed after the snapshot has been written.
\<close>

definition handle_install_snapshot ::
    "int \<Rightarrow> string \<Rightarrow> int \<Rightarrow> int \<Rightarrow> pyval \<Rightarrow> pyval \<Rightarrow> raft \<Rightarrow> (raft_error + int \<times> bool) \<times> raft" where
  "handle_install_snapshot t leader lii lit data membership r =
     (if t < rf_term r then (Inr (rf_term r, False), r)
      else
        (let r1 = (if t > rf_term r then step_down t r else r);
             r2 = r1\<lparr>rf_role := Follower, rf_leader_id := Some leader\<rparr>
         in if lii \<le> rf_snap_index r2 then (Inr (rf_term r2, True), r2)
            else
              (let r3 = r2\<lparr>rf_log := filter (\<lambda>e. le_index e > lii) (rf_log r2),
                           rf_snap_index := lii, rf_snap_term := lit,
                           rf_commit := (if rf_commit r2 < lii then lii else rf_commit r2)\<rparr>;
                   r4 = (case rf_disk r3 of
                           None \<Rightarrow> r3
                         | Some d \<Rightarrow>
                             persist (r3\<lparr>rf_disk := Some (storage_save_snapshot lii lit data
                               (Some (if truthy membership then membership
                                      else PDict (to_payload (rf_membership r3)))) d)\<rparr>))
               in case (if membership = PNone then Inr r4
                        else case from_payload membership of
                               Inl e \<Rightarrow> Inl e
                             | Inr c \<Rightarrow> Inr (r4\<lparr>rf_membership := c\<rparr>)) of
                    Inl e \<Rightarrow> (Inl (BadMembership e), r4)
                  | Inr r5 \<Rightarrow>
                      (Inr (rf_term r5, True), r5\<lparr>rf_calls := rf_calls r5 @ [OnRestore data]\<rparr>))))"

definition replay_committed :: "raft \<Rightarrow> raft" where
  "replay_committed r =
     r\<lparr>rf_calls := rf_calls r @
        map OnCommit (List.map_filter (log_entry_at r) [rf_snap_index r + 1..rf_commit r])\<rparr>"

section \<open>The leader\<close>

definition propose :: "pyval \<Rightarrow> raft \<Rightarrow> bool \<times> raft" where
  "propose cmd r =
     (if rf_role r \<noteq> Leader then (False, r)
      else (True, persist (r\<lparr>rf_log := rf_log r @
              [\<lparr>le_term = rf_term r, le_index = last_log_index r + 1, le_command = cmd\<rparr>]\<rparr>)))"

text \<open>What a heartbeat round captures in its first locked block, and the acknowledgements.\<close>

record heartbeat =
  hb_term :: int
  hb_log :: "log_entry list"
  hb_base :: int
  hb_base_term :: int
  hb_commit :: int
  hb_peers :: "string list"
  hb_retired :: "string list"
  hb_acked :: "string list"

definition begin_heartbeat :: "raft \<Rightarrow> heartbeat option" where
  "begin_heartbeat r =
     (if rf_role r \<noteq> Leader then None
      else
        (let voters = peer_ids (rf_membership r) (rf_id r);
             joint = (case rf_pending_joint r of None \<Rightarrow> [] | Some j \<Rightarrow> filter (\<lambda>p. p \<noteq> rf_id r) j)
         in Some \<lparr>hb_term = rf_term r, hb_log = rf_log r, hb_base = rf_snap_index r,
                  hb_base_term = rf_snap_term r, hb_commit = rf_commit r,
                  hb_peers = canon (voters @ joint @ rf_retired r @ rf_learners r),
                  hb_retired = rf_retired r, hb_acked = []\<rparr>))"

text \<open>What is sent to a peer: the entries from \<open>next\<close> on, or the snapshot when they are gone.\<close>

datatype heartbeat_rpc =
    SendSnapshot int int
  | SendEntries int int "(int \<times> pyval) list" int

definition next_of :: "heartbeat \<Rightarrow> raft \<Rightarrow> string \<Rightarrow> int" where
  "next_of hb r p =
     (case dget (rf_next r) p of
        Some n \<Rightarrow> n
      | None \<Rightarrow> (if hb_log hb = [] then hb_base hb else le_index (last (hb_log hb))) + 1)"

definition entries_from :: "heartbeat \<Rightarrow> int \<Rightarrow> (int \<times> pyval) list" where
  "entries_from hb n =
     map (\<lambda>e. (le_term e, le_command e)) (filter (\<lambda>e. le_index e \<ge> n) (hb_log hb))"

definition prev_term_of :: "heartbeat \<Rightarrow> int \<Rightarrow> int" where
  "prev_term_of hb i =
     (if i = hb_base hb then hb_base_term hb
      else case find (\<lambda>e. le_index e = i) (hb_log hb) of Some e \<Rightarrow> le_term e | None \<Rightarrow> 0)"

definition heartbeat_message :: "heartbeat \<Rightarrow> raft \<Rightarrow> string \<Rightarrow> heartbeat_rpc" where
  "heartbeat_message hb r p =
     (let n = next_of hb r p
      in if n \<le> hb_base hb then SendSnapshot (hb_base hb) (hb_base_term hb)
         else SendEntries (n - 1) (prev_term_of hb (n - 1)) (entries_from hb n) (hb_commit hb))"

definition report_liveness :: "string \<Rightarrow> bool \<Rightarrow> raft \<Rightarrow> raft" where
  "report_liveness p alive r = r\<lparr>rf_calls := rf_calls r @ [OnLiveness p alive]\<rparr>"

text \<open>
  The answer of one peer, to the message sent with the \<open>next\<close> index \<open>n\<close>. The first component
  is \<open>None\<close> when the round ends here.
\<close>

definition heartbeat_response ::
    "heartbeat \<Rightarrow> int \<Rightarrow> string \<Rightarrow> (int \<times> bool) option \<Rightarrow> raft \<Rightarrow> heartbeat option \<times> raft" where
  "heartbeat_response hb n p ans r =
     (case ans of
        None \<Rightarrow> (Some hb, report_liveness p False r)
      | Some (resp_term, success) \<Rightarrow>
          if resp_term > rf_term r then (None, step_down resp_term r)
          else if rf_role r \<noteq> Leader then (None, r)
          else if success then
            (let m = (if n \<le> hb_base hb then hb_base hb else n + int (length (entries_from hb n)) - 1);
                 r1 = report_liveness p True r
             in (Some (if p \<in> set (hb_retired hb) then hb\<lparr>hb_acked := p # hb_acked hb\<rparr> else hb),
                 r1\<lparr>rf_match := dset p m (rf_match r1), rf_next := dset p (m + 1) (rf_next r1)\<rparr>))
          else if n \<le> hb_base hb then (Some hb, report_liveness p False r)
          else
            (let r1 = report_liveness p False r
             in (Some hb, r1\<lparr>rf_next := dset p
                   (max 0 ((case dget (rf_next r1) p of None \<Rightarrow> 0 | Some k \<Rightarrow> k) - 1)) (rf_next r1)\<rparr>)))"

definition acknowledged_by :: "raft \<Rightarrow> string list \<Rightarrow> int \<Rightarrow> string list" where
  "acknowledged_by r peers i =
     rf_id r # filter (\<lambda>p. (case dget (rf_match r) p of None \<Rightarrow> -1 | Some m \<Rightarrow> m) \<ge> i) peers"

definition can_commit :: "raft \<Rightarrow> string list \<Rightarrow> int \<Rightarrow> bool" where
  "can_commit r peers i =
     (case log_entry_at r i of
        None \<Rightarrow> False
      | Some e \<Rightarrow> le_term e = rf_term r \<and> has_quorum (rf_membership r) (acknowledged_by r peers i))"

definition maybe_advance_commit_index :: "string list \<Rightarrow> raft \<Rightarrow> raft" where
  "maybe_advance_commit_index peers r =
     (case find (can_commit r peers) (rev [rf_commit r + 1..last_log_index r]) of
        None \<Rightarrow> r
      | Some i \<Rightarrow> apply_committed i r)"

definition finish_heartbeat :: "heartbeat \<Rightarrow> raft \<Rightarrow> raft" where
  "finish_heartbeat hb r =
     (if rf_role r \<noteq> Leader then r
      else (let r1 = maybe_advance_commit_index (hb_peers hb) r
            in r1\<lparr>rf_retired := set_minus (rf_retired r1) (hb_acked hb)\<rparr>))"

text \<open>A round whose peers answer without other blocks running in between.\<close>

fun poll_heartbeat ::
    "heartbeat \<Rightarrow> string list \<Rightarrow> (string \<Rightarrow> (int \<times> bool) option) \<Rightarrow> raft \<Rightarrow> heartbeat option \<times> raft" where
  "poll_heartbeat hb [] ans r = (Some hb, r)"
| "poll_heartbeat hb (p # ps) ans r =
     (case heartbeat_response hb (next_of hb r p) p (ans p) r of
        (None, r') \<Rightarrow> (None, r')
      | (Some hb', r') \<Rightarrow> poll_heartbeat hb' ps ans r')"

definition send_heartbeats :: "(string \<Rightarrow> (int \<times> bool) option) \<Rightarrow> raft \<Rightarrow> raft" where
  "send_heartbeats ans r =
     (case begin_heartbeat r of
        None \<Rightarrow> r
      | Some hb \<Rightarrow>
          (case poll_heartbeat hb (hb_peers hb) ans r of
             (None, r') \<Rightarrow> r'
           | (Some hb', r') \<Rightarrow> finish_heartbeat hb' r'))"

text \<open>
  The waiting loop: one heartbeat round per element of the list until the deadline, which the
  end of the list stands for.
\<close>

fun wait_commit :: "int \<Rightarrow> (string \<Rightarrow> (int \<times> bool) option) list \<Rightarrow> raft \<Rightarrow> bool \<times> raft" where
  "wait_commit i [] r = (False, r)"
| "wait_commit i (ans # rounds) r =
     (let r1 = send_heartbeats ans r
      in if rf_commit r1 \<ge> i then (True, r1)
         else if rf_role r1 \<noteq> Leader then (False, r1)
         else wait_commit i rounds r1)"

definition propose_and_wait ::
    "pyval \<Rightarrow> (string \<Rightarrow> (int \<times> bool) option) list \<Rightarrow> raft \<Rightarrow> bool \<times> raft" where
  "propose_and_wait cmd rounds r =
     (case propose cmd r of
        (False, r1) \<Rightarrow> (False, r1)
      | (True, r1) \<Rightarrow> wait_commit (last_log_index r1) rounds r1)"

section \<open>Membership changes and status\<close>

definition membership_command :: "string \<Rightarrow> string list \<Rightarrow> string list \<Rightarrow> pyval" where
  "membership_command kind old new =
     PDict [(''kind'', PStr kind), (''old_voters'', PList (map PStr old)),
            (''new_voters'', PList (map PStr new))]"

definition propose_membership_change ::
    "string list \<Rightarrow> (string \<Rightarrow> (int \<times> bool) option) list \<Rightarrow> (string \<Rightarrow> (int \<times> bool) option) list
     \<Rightarrow> raft \<Rightarrow> bool \<times> raft" where
  "propose_membership_change ids rounds1 rounds2 r =
     (case make_config (map PStr ids) None of
        Inl _ \<Rightarrow> (False, r)
      | Inr cand \<Rightarrow>
          if rf_role r \<noteq> Leader \<or> vc_joint (rf_membership r) \<noteq> None \<or> rf_pending_joint r \<noteq> None
          then (False, r)
          else if vc_voters cand = vc_voters (rf_membership r) then (False, r)
          else
            (let old = vc_voters (rf_membership r);
                 new = vc_voters cand;
                 r1 = r\<lparr>rf_pending_joint := Some new\<rparr>
             in case propose_and_wait (membership_command ''raft_membership_joint'' old new) rounds1 r1 of
                  (False, r2) \<Rightarrow> (False, r2)
                | (True, r2) \<Rightarrow>
                    propose_and_wait (membership_command ''raft_membership_finalize'' old new) rounds2 r2))"

definition install_membership_snapshot :: "pyval \<Rightarrow> raft \<Rightarrow> (raft_error + bool) \<times> raft" where
  "install_membership_snapshot m r =
     (case from_payload m of
        Inl MembershipError \<Rightarrow> (Inr False, r)
      | Inl e \<Rightarrow> (Inl (BadMembership e), r)
      | Inr c \<Rightarrow>
          if rf_commit r \<ge> 0 \<or> rf_log r \<noteq> [] \<or> rf_enforced r then (Inr False, r)
          else (Inr True, r\<lparr>rf_membership := c, rf_enforced := True\<rparr>))"

definition register_learner :: "string \<Rightarrow> raft \<Rightarrow> bool \<times> raft" where
  "register_learner p r =
     (if p = [] \<or> p = rf_id r \<or> p \<in> set (all_voters (rf_membership r)) then (False, r)
      else (True, r\<lparr>rf_learners := canon (p # rf_learners r)\<rparr>))"

definition is_learner :: "string \<Rightarrow> raft \<Rightarrow> bool" where
  "is_learner p r \<longleftrightarrow> p \<in> set (rf_learners r)"

fun role_value :: "role \<Rightarrow> string" where
  "role_value Follower = ''follower''"
| "role_value Candidate = ''candidate''"
| "role_value Leader = ''leader''"

definition opt_str :: "string option \<Rightarrow> pyval" where
  "opt_str s = (case s of None \<Rightarrow> PNone | Some x \<Rightarrow> PStr x)"

definition raft_status :: "raft \<Rightarrow> (string, pyval) dict" where
  "raft_status r =
     [(''node_id'', PStr (rf_id r)),
      (''role'', PStr (role_value (rf_role r))),
      (''term'', PInt (rf_term r)),
      (''leader_id'', opt_str (rf_leader_id r)),
      (''log_length'', PInt (int (length (rf_log r)))),
      (''commit_index'', PInt (rf_commit r)),
      (''snapshot_last_included_index'', PInt (rf_snap_index r)),
      (''voters'', PList (map PStr (vc_voters (rf_membership r)))),
      (''joint_voters'', (case vc_joint (rf_membership r) of None \<Rightarrow> PNone | Some j \<Rightarrow> PList (map PStr j))),
      (''learners'', PList (map PStr (rf_learners r)))]"

definition membership_snapshot :: "raft \<Rightarrow> (string, pyval) dict" where
  "membership_snapshot r = to_payload (rf_membership r)"

end
