(* ===== verification/Raft_Node.thy ===== *)
theory Raft_Node
  imports Raft
begin

text \<open>
  What every block of one consensus node keeps: its term never falls, a vote is changed only
  with the term, the durable copy of term and vote is current, the configuration is well
  formed, and leadership is neither gained nor carried into another term except by an
  election.
\<close>

section \<open>The durable copy\<close>

definition durable :: "raft \<Rightarrow> bool" where
  "durable r \<longleftrightarrow>
     (case rf_disk r of
        None \<Rightarrow> False
      | Some d \<Rightarrow>
          (case dk_state d of
             None \<Rightarrow> rf_term r = 0 \<and> rf_voted_for r = None
           | Some s \<Rightarrow> ds_term s = rf_term r \<and> ds_voted_for s = rf_voted_for r))"

definition node_ok :: "raft \<Rightarrow> bool" where
  "node_ok r \<longleftrightarrow> durable r \<and> config_ok (rf_membership r)"

text \<open>A block that is not an election: \<open>calm r r'\<close>.\<close>

definition calm :: "raft \<Rightarrow> raft \<Rightarrow> bool" where
  "calm r r' \<longleftrightarrow> rf_id r' = rf_id r \<and> (node_ok r \<longrightarrow> node_ok r') \<and> rf_term r \<le> rf_term r' \<and>
     (rf_term r' = rf_term r \<longrightarrow> rf_voted_for r' = rf_voted_for r) \<and>
     (rf_role r' = Leader \<longrightarrow> rf_role r = Leader \<and> rf_term r' = rf_term r)"

lemma calm_refl [simp]: "calm r r"
  by (simp add: calm_def)

lemma calm_trans: "calm a b \<Longrightarrow> calm b c \<Longrightarrow> calm a c"
  by (auto simp: calm_def)

lemma persist_fields [simp]:
  "rf_id (persist r) = rf_id r" "rf_membership (persist r) = rf_membership r"
  "rf_term (persist r) = rf_term r" "rf_voted_for (persist r) = rf_voted_for r"
  "rf_role (persist r) = rf_role r" "rf_log (persist r) = rf_log r"
  "rf_commit (persist r) = rf_commit r" "rf_snap_index (persist r) = rf_snap_index r"
  "rf_snap_term (persist r) = rf_snap_term r" "rf_enforced (persist r) = rf_enforced r"
  "rf_calls (persist r) = rf_calls r" "rf_pending_joint (persist r) = rf_pending_joint r"
  "rf_next (persist r) = rf_next r" "rf_match (persist r) = rf_match r"
  "rf_leader_id (persist r) = rf_leader_id r" "rf_retired (persist r) = rf_retired r"
  "rf_learners (persist r) = rf_learners r" "rf_restored (persist r) = rf_restored r"
  "rf_disk (persist r) = None \<longleftrightarrow> rf_disk r = None"
  by (auto simp: persist_def split: option.splits)

lemma persist_durable: "rf_disk r \<noteq> None \<Longrightarrow> durable (persist r)"
  by (auto simp: durable_def persist_def storage_save_def split: option.splits)

lemma durable_disk: "durable r \<Longrightarrow> rf_disk r \<noteq> None"
  by (auto simp: durable_def split: option.splits)

lemma calm_persist:
  assumes "rf_id r' = rf_id r" "rf_disk r' = None \<longleftrightarrow> rf_disk r = None" "rf_term r \<le> rf_term r'"
    "rf_term r' = rf_term r \<longrightarrow> rf_voted_for r' = rf_voted_for r"
    "rf_role r' = Leader \<longrightarrow> rf_role r = Leader \<and> rf_term r' = rf_term r"
    "config_ok (rf_membership r) \<longrightarrow> config_ok (rf_membership r')"
  shows "calm r (persist r')"
  using assms persist_durable [of r'] durable_disk [of r] by (auto simp: calm_def node_ok_def)

lemma calm_frame:
  assumes "rf_id r' = rf_id r" "rf_disk r' = rf_disk r" "rf_term r' = rf_term r"
    "rf_voted_for r' = rf_voted_for r" "rf_role r' = Leader \<longrightarrow> rf_role r = Leader"
    "config_ok (rf_membership r) \<longrightarrow> config_ok (rf_membership r')"
  shows "calm r r'"
proof -
  have "durable r' \<longleftrightarrow> durable r" using assms by (auto simp: durable_def split: option.split)
  then show ?thesis using assms by (auto simp: calm_def node_ok_def)
qed

section \<open>The blocks\<close>

lemma command_voters_ok: "command_voters cmd k = Some vs \<Longrightarrow> voters_ok vs"
  by (auto simp: command_voters_def dest: normalise_voters_ok split: pyval.splits option.splits sum.splits)

lemma apply_membership_fields [simp]:
  "rf_id (apply_membership_command cmd r) = rf_id r"
  "rf_term (apply_membership_command cmd r) = rf_term r"
  "rf_voted_for (apply_membership_command cmd r) = rf_voted_for r"
  "rf_role (apply_membership_command cmd r) = rf_role r"
  "rf_log (apply_membership_command cmd r) = rf_log r"
  "rf_commit (apply_membership_command cmd r) = rf_commit r"
  "rf_snap_index (apply_membership_command cmd r) = rf_snap_index r"
  "rf_snap_term (apply_membership_command cmd r) = rf_snap_term r"
  "rf_disk (apply_membership_command cmd r) = rf_disk r"
  "rf_calls (apply_membership_command cmd r) = rf_calls r"
  by (auto simp: apply_membership_command_def split: option.splits)

lemma apply_membership_config:
  "config_ok (rf_membership r) \<Longrightarrow> config_ok (rf_membership (apply_membership_command cmd r))"
  by (auto simp: apply_membership_command_def config_ok_def dest: command_voters_ok split: option.splits)

lemma commit_one_fields [simp]:
  "rf_id (commit_one i r) = rf_id r" "rf_term (commit_one i r) = rf_term r"
  "rf_voted_for (commit_one i r) = rf_voted_for r" "rf_role (commit_one i r) = rf_role r"
  "rf_log (commit_one i r) = rf_log r" "rf_commit (commit_one i r) = rf_commit r"
  "rf_snap_index (commit_one i r) = rf_snap_index r" "rf_snap_term (commit_one i r) = rf_snap_term r"
  "rf_disk (commit_one i r) = rf_disk r"
  by (auto simp: commit_one_def Let_def split: option.splits)

lemma commit_one_config: "config_ok (rf_membership r) \<Longrightarrow> config_ok (rf_membership (commit_one i r))"
  by (auto simp: commit_one_def Let_def apply_membership_config split: option.splits)

lemma fold_commit_fields [simp]:
  "rf_id (fold commit_one is r) = rf_id r" "rf_term (fold commit_one is r) = rf_term r"
  "rf_voted_for (fold commit_one is r) = rf_voted_for r" "rf_role (fold commit_one is r) = rf_role r"
  "rf_log (fold commit_one is r) = rf_log r" "rf_commit (fold commit_one is r) = rf_commit r"
  "rf_snap_index (fold commit_one is r) = rf_snap_index r"
  "rf_snap_term (fold commit_one is r) = rf_snap_term r"
  "rf_disk (fold commit_one is r) = rf_disk r"
  by (induction "is" arbitrary: r) simp_all

lemma fold_commit_config:
  "config_ok (rf_membership r) \<Longrightarrow> config_ok (rf_membership (fold commit_one is r))"
  by (induction "is" arbitrary: r) (simp_all add: commit_one_config)

lemma calm_apply_committed: "calm r (apply_committed n r)"
  unfolding apply_committed_def by (rule calm_persist) (simp_all add: fold_commit_config)

lemma apply_committed_fields [simp]:
  "rf_id (apply_committed n r) = rf_id r" "rf_term (apply_committed n r) = rf_term r"
  "rf_voted_for (apply_committed n r) = rf_voted_for r" "rf_role (apply_committed n r) = rf_role r"
  "rf_log (apply_committed n r) = rf_log r" "rf_commit (apply_committed n r) = n"
  "rf_snap_index (apply_committed n r) = rf_snap_index r"
  "rf_snap_term (apply_committed n r) = rf_snap_term r"
  by (simp_all add: apply_committed_def)

lemma calm_step_down: "rf_term r < t \<Longrightarrow> calm r (step_down t r)"
  unfolding step_down_def by (rule calm_persist) simp_all

lemma calm_append:
  assumes "handle_append_entries t l pvi pvt es lc r = (res, r')"
  shows "calm r r'"
proof (cases "t < rf_term r")
  case True
  then show ?thesis using assms by (simp add: handle_append_entries_def)
next
  case False
  define r1 where "r1 = (if t > rf_term r
     then persist (r\<lparr>rf_term := t, rf_role := Follower, rf_leader_id := Some l, rf_voted_for := None\<rparr>)
     else r\<lparr>rf_role := Follower, rf_leader_id := Some l\<rparr>)"
  have 1: "calm r r1"
  proof (cases "t > rf_term r")
    case True
    then show ?thesis unfolding r1_def by (simp only: if_True) (rule calm_persist, simp_all)
  next
    case False
    then show ?thesis unfolding r1_def by (simp only: if_False) (rule calm_frame, simp_all)
  qed
  have set_log: "calm r (r1\<lparr>rf_log := lg\<rparr>)" for lg
    by (rule calm_trans [OF 1]) (rule calm_frame, simp_all)
  have set_log': "calm r (persist (r1\<lparr>rf_log := lg\<rparr>))" for lg
    by (rule calm_trans [OF 1]) (rule calm_persist, simp_all)
  have finish: "calm r (if c then apply_committed n r3 else r3)" if "calm r r3" for c n r3
    using that calm_trans [OF that calm_apply_committed] by simp
  have eq: "(res, r') =
      (if pvi \<ge> 0 \<and> \<not> pvi < rf_snap_index r1 \<and> (pvi > last_log_index r1 \<or> term_at r1 pvi \<noteq> pvt)
       then (Inr (rf_term r1, False), r1)
       else
         (case append_loop (rf_snap_index r1) (pvi + 1) es (rf_log r1) False of
            (Inl e, log') \<Rightarrow> (Inl e, r1\<lparr>rf_log := log'\<rparr>)
          | (Inr changed, log') \<Rightarrow>
              (let r2 = r1\<lparr>rf_log := log'\<rparr>;
                   r3 = (if changed then persist r2 else r2);
                   r4 = (if lc > rf_commit r3
                         then apply_committed (min lc (last_log_index r3)) r3 else r3)
               in (Inr (rf_term r4, True), r4))))"
    using assms False unfolding r1_def by (simp only: handle_append_entries_def Let_def if_False)
  show ?thesis
  proof (cases "pvi \<ge> 0 \<and> \<not> pvi < rf_snap_index r1 \<and> (pvi > last_log_index r1 \<or> term_at r1 pvi \<noteq> pvt)")
    case True
    then show ?thesis using eq 1 by (simp only: if_True) simp
  next
    case acc: False
    obtain a lg where loop: "append_loop (rf_snap_index r1) (pvi + 1) es (rf_log r1) False = (a, lg)" by fastforce
    show ?thesis
    proof (cases a)
      case (Inl e)
      then show ?thesis using eq acc loop set_log [of lg]
        by (simp only: if_False prod.case sum.case) simp
    next
      case (Inr changed)
      show ?thesis
      proof (cases changed)
        case True
        then show ?thesis using eq acc loop Inr finish [OF set_log' [of lg]]
          by (simp only: if_False if_True prod.case sum.case Let_def prod.inject)
      next
        case False
        then show ?thesis using eq acc loop Inr finish [OF set_log [of lg]]
          by (simp only: if_False if_True prod.case sum.case Let_def prod.inject)
      qed
    qed
  qed
qed

lemma calm_install:
  assumes "handle_install_snapshot t l lii lit data m r = (res, r')"
  shows "calm r r'"
proof (cases "t < rf_term r")
  case True
  then show ?thesis using assms by (simp add: handle_install_snapshot_def)
next
  case False
  let ?r2 = "(if t > rf_term r then step_down t r else r)\<lparr>rf_role := Follower, rf_leader_id := Some l\<rparr>"
  have "calm r (if t > rf_term r then step_down t r else r)" by (simp add: calm_step_down)
  then have 2: "calm r ?r2" by (rule calm_trans) (rule calm_frame, simp_all)
  show ?thesis
  proof (cases "lii \<le> rf_snap_index ?r2")
    case True
    then show ?thesis using assms False 2 by (simp add: handle_install_snapshot_def Let_def split: if_splits)
  next
    case new: False
    let ?r3 = "?r2\<lparr>rf_log := filter (\<lambda>e. le_index e > lii) (rf_log ?r2), rf_snap_index := lii,
       rf_snap_term := lit, rf_commit := (if rf_commit ?r2 < lii then lii else rf_commit ?r2)\<rparr>"
    let ?r4 = "case rf_disk ?r3 of None \<Rightarrow> ?r3 | Some d \<Rightarrow>
         persist (?r3\<lparr>rf_disk := Some (storage_save_snapshot lii lit data
           (Some (if truthy m then m else PDict (to_payload (rf_membership ?r3)))) d)\<rparr>)"
    have 3: "calm r ?r3" by (rule calm_trans [OF 2]) (rule calm_frame, simp_all)
    have "calm ?r3 ?r4"
    proof (cases "rf_disk ?r3")
      case (Some d)
      then show ?thesis by (simp only: option.case) (rule calm_persist, simp_all)
    qed simp
    then have 4: "calm r ?r4" using 3 calm_trans by blast
    define r4 where "r4 = ?r4"
    have eq: "(res, r') =
        (case (if m = PNone then Inr r4
               else case from_payload m of Inl e \<Rightarrow> Inl e | Inr c \<Rightarrow> Inr (r4\<lparr>rf_membership := c\<rparr>)) of
           Inl e \<Rightarrow> (Inl (BadMembership e), r4)
         | Inr r5 \<Rightarrow> (Inr (rf_term r5, True), r5\<lparr>rf_calls := rf_calls r5 @ [OnRestore data]\<rparr>))"
      using assms False new unfolding r4_def by (simp only: handle_install_snapshot_def Let_def if_False)
    have calls: "calm r4 (r4\<lparr>rf_calls := cs\<rparr>)" for cs by (intro calm_frame) simp_all
    have member: "calm r4 (r4\<lparr>rf_membership := c, rf_calls := cs\<rparr>)" if "config_ok c" for c cs
      using that by (intro calm_frame) simp_all
    have "calm r4 r'"
    proof (cases "m = PNone")
      case True
      then show ?thesis using eq calls by simp
    next
      case False
      then show ?thesis using eq member from_payload_ok by (cases "from_payload m") auto
    qed
    then show ?thesis using 4 calm_trans unfolding r4_def by blast
  qed
qed

lemma calm_compact: "calm r (snd (compact_log limit data r))"
proof -
  have "calm r (persist (r\<lparr>rf_log := l, rf_snap_index := i, rf_snap_term := t,
      rf_disk := Some (storage_save_snapshot i t data m d)\<rparr>))" if "rf_disk r = Some d" for l i t m d
    using that by (intro calm_persist) simp_all
  moreover have "calm r (r\<lparr>rf_log := l, rf_snap_index := i, rf_snap_term := t\<rparr>)" for l i t
    by (intro calm_frame) simp_all
  ultimately show ?thesis
    by (auto simp: compact_log_def Let_def split: option.splits)
qed

lemma calm_propose: "calm r (snd (propose cmd r))"
  by (auto simp: propose_def intro!: calm_persist)

lemma calm_heartbeat_response: "calm r (snd (heartbeat_response hb n p ans r))"
  by (auto simp: heartbeat_response_def report_liveness_def Let_def calm_step_down
      split: option.splits intro!: calm_frame)

lemma calm_advance: "calm r (maybe_advance_commit_index peers r)"
  by (auto simp: maybe_advance_commit_index_def calm_apply_committed split: option.splits)

lemma calm_finish_heartbeat: "calm r (finish_heartbeat hb r)"
proof (cases "rf_role r = Leader")
  case True
  have "calm r ((maybe_advance_commit_index (hb_peers hb) r)\<lparr>rf_retired := xs\<rparr>)" for xs
    by (rule calm_trans [OF calm_advance]) (rule calm_frame, auto)
  then show ?thesis using True by (simp add: finish_heartbeat_def Let_def)
qed (simp add: finish_heartbeat_def)

lemma calm_seed:
  "install_membership_snapshot m r = (res, r') \<Longrightarrow> calm r r'"
  by (auto simp: install_membership_snapshot_def dest: from_payload_ok
      split: sum.splits membership_error.splits if_splits intro!: calm_frame)

lemma calm_learner: "calm r (snd (register_learner p r))"
  by (auto simp: register_learner_def intro!: calm_frame)

section \<open>Restart\<close>

lemma fold_membership_fields [simp]:
  "rf_id (fold (\<lambda>e. apply_membership_command (le_command e)) es r) = rf_id r"
  "rf_term (fold (\<lambda>e. apply_membership_command (le_command e)) es r) = rf_term r"
  "rf_voted_for (fold (\<lambda>e. apply_membership_command (le_command e)) es r) = rf_voted_for r"
  "rf_role (fold (\<lambda>e. apply_membership_command (le_command e)) es r) = rf_role r"
  "rf_log (fold (\<lambda>e. apply_membership_command (le_command e)) es r) = rf_log r"
  "rf_commit (fold (\<lambda>e. apply_membership_command (le_command e)) es r) = rf_commit r"
  "rf_snap_index (fold (\<lambda>e. apply_membership_command (le_command e)) es r) = rf_snap_index r"
  "rf_snap_term (fold (\<lambda>e. apply_membership_command (le_command e)) es r) = rf_snap_term r"
  "rf_disk (fold (\<lambda>e. apply_membership_command (le_command e)) es r) = rf_disk r"
  by (induction es arbitrary: r) simp_all

lemma fold_membership_config:
  "config_ok (rf_membership r) \<Longrightarrow>
     config_ok (rf_membership (fold (\<lambda>e. apply_membership_command (le_command e)) es r))"
  by (induction es arbitrary: r) (simp_all add: apply_membership_config)

text \<open>A restarted node has the term and vote of its disk, and is a follower.\<close>

lemma restart_spec:
  assumes "new_raft me peers strict (Some d) = Inr r"
  shows "rf_id r = me \<and> rf_disk r = Some d \<and> rf_role r = Follower \<and> config_ok (rf_membership r) \<and>
     (rf_term r, rf_voted_for r) =
       (case dk_state d of None \<Rightarrow> (0, None) | Some s \<Rightarrow> (ds_term s, ds_voted_for s))"
  using assms
  by (auto simp: new_raft_def load_persisted_state_def Let_def fold_membership_config
      dest!: make_config_ok from_payload_ok split: sum.splits option.splits)

lemma restart_calm:
  assumes "new_raft (rf_id r) peers strict (rf_disk r) = Inr r'" "durable r"
  shows "calm r r' \<and> rf_role r' = Follower"
proof -
  obtain d where d: "rf_disk r = Some d" using durable_disk [OF assms(2)] by blast
  then have new: "new_raft (rf_id r) peers strict (Some d) = Inr r'" using assms(1) by simp
  show ?thesis
    using restart_spec [OF new] assms(2) d
    by (auto simp: calm_def node_ok_def durable_def split: option.splits)
qed

end
