(* ===== verification/Raft_Election.thy ===== *)
theory Raft_Election
  imports Raft_Node
begin

text \<open>
  A cell of consensus nodes that call each other. Every locked block of every node is a step,
  in any order; a request for a vote and its answer are separate steps, either may be lost,
  and a node may crash and restart from its disk at any time. Requests to append entries or
  to install a snapshot, and the answers to heartbeats, are arbitrary: nothing is assumed of
  them.

  Two histories that no step reads are recorded: the votes given (term, voter, candidate) and
  the elections won (term, winner, the configuration it counted in, the votes it counted).
\<close>

section \<open>The cell\<close>

record campaign =
  cp_election :: election
  cp_todo :: "string list"
  cp_reply :: "(int \<times> bool) option"

record cell =
  ce_nodes :: "(string, raft) dict"
  ce_campaigns :: "(string, campaign) dict"
  ce_votes :: "(int \<times> string \<times> string) list"
  ce_elected :: "(int \<times> string \<times> voter_config \<times> string list) list"

datatype cell_op =
    Begin string
  | Request string
  | Lose string
  | Reply string
  | Finish string
  | Append string int string int int "(int \<times> pyval) option list" int
  | Install string int string int int pyval pyval
  | Beat string heartbeat int string "(int \<times> bool) option"
  | BeatEnd string heartbeat
  | Propose string pyval
  | Pending string "string list"
  | Learner string string
  | Compact string "int option" pyval
  | Seed string pyval
  | Restart string "string list" bool

definition put_node :: "string \<Rightarrow> raft \<Rightarrow> cell \<Rightarrow> cell" where
  "put_node i r c = c\<lparr>ce_nodes := dmod i (\<lambda>_. r) (ce_nodes c)\<rparr>"

definition local_step :: "string \<Rightarrow> (raft \<Rightarrow> raft) \<Rightarrow> cell \<Rightarrow> cell" where
  "local_step i f c = (case dget (ce_nodes c) i of None \<Rightarrow> c | Some r \<Rightarrow> put_node i (f r) c)"

definition end_campaign :: "string \<Rightarrow> cell \<Rightarrow> cell" where
  "end_campaign i c = c\<lparr>ce_campaigns := ddel i (ce_campaigns c)\<rparr>"

definition set_campaign :: "string \<Rightarrow> campaign \<Rightarrow> cell \<Rightarrow> cell" where
  "set_campaign i f c = c\<lparr>ce_campaigns := dset i f (ce_campaigns c)\<rparr>"

definition begin_step :: "string \<Rightarrow> cell \<Rightarrow> cell" where
  "begin_step i c =
     (case dget (ce_nodes c) i of
        None \<Rightarrow> c
      | Some r \<Rightarrow>
          (case begin_election r of
             (None, r') \<Rightarrow> put_node i r' c
           | (Some el, r') \<Rightarrow>
               (put_node i r' (set_campaign i \<lparr>cp_election = el, cp_todo = el_peers el, cp_reply = None\<rparr> c))
                 \<lparr>ce_votes := (el_term el, i, i) # ce_votes c\<rparr>))"

text \<open>The next peer handles the request; its answer travels back.\<close>

definition request_step :: "string \<Rightarrow> cell \<Rightarrow> cell" where
  "request_step i c =
     (case dget (ce_campaigns c) i of
        None \<Rightarrow> c
      | Some f \<Rightarrow>
          (case cp_todo f of
             [] \<Rightarrow> c
           | p # _ \<Rightarrow>
               (case dget (ce_nodes c) p of
                  None \<Rightarrow> c
                | Some r \<Rightarrow>
                    (let el = cp_election f;
                         q = handle_request_vote (el_term el) i (el_last_index el) (el_last_term el) r;
                         c1 = set_campaign i (f\<lparr>cp_reply := Some (fst q)\<rparr>) (put_node p (snd q) c)
                     in if snd (fst q) then c1\<lparr>ce_votes := (el_term el, p, i) # ce_votes c\<rparr> else c1))))"

text \<open>The call failed before or after the peer handled it.\<close>

definition lose_step :: "string \<Rightarrow> cell \<Rightarrow> cell" where
  "lose_step i c =
     (case dget (ce_campaigns c) i of
        None \<Rightarrow> c
      | Some f \<Rightarrow> set_campaign i (f\<lparr>cp_todo := tl (cp_todo f), cp_reply := None\<rparr>) c)"

definition reply_step :: "string \<Rightarrow> cell \<Rightarrow> cell" where
  "reply_step i c =
     (case (dget (ce_campaigns c) i, dget (ce_nodes c) i) of
        (Some f, Some r) \<Rightarrow>
          (case (cp_todo f, cp_reply f) of
             (p # ps, Some ans) \<Rightarrow>
               (case vote_response (cp_election f) p (Some ans) r of
                  (None, r') \<Rightarrow> put_node i r' (end_campaign i c)
                | (Some el, r') \<Rightarrow>
                    put_node i r' (set_campaign i \<lparr>cp_election = el, cp_todo = ps, cp_reply = None\<rparr> c))
           | _ \<Rightarrow> c)
      | _ \<Rightarrow> c)"

definition finish_step :: "string \<Rightarrow> cell \<Rightarrow> cell" where
  "finish_step i c =
     (case (dget (ce_campaigns c) i, dget (ce_nodes c) i) of
        (Some f, Some r) \<Rightarrow>
          if cp_todo f \<noteq> [] then c
          else
            (let el = cp_election f; r' = finish_election el r;
                 c1 = put_node i r' (end_campaign i c)
             in if rf_role r = Candidate \<and> rf_role r' = Leader
                then c1\<lparr>ce_elected := (rf_term r', i, rf_membership r', el_votes el) # ce_elected c\<rparr>
                else c1)
      | _ \<Rightarrow> c)"

text \<open>A node that cannot restart stays down.\<close>

definition restart_step :: "string \<Rightarrow> string list \<Rightarrow> bool \<Rightarrow> cell \<Rightarrow> cell" where
  "restart_step i peers strict c =
     (case dget (ce_nodes c) i of
        None \<Rightarrow> c
      | Some r \<Rightarrow>
          (case new_raft (rf_id r) peers strict (rf_disk r) of
             Inl _ \<Rightarrow> (end_campaign i c)\<lparr>ce_nodes := ddel i (ce_nodes c)\<rparr>
           | Inr r' \<Rightarrow> put_node i r' (end_campaign i c)))"

fun cell_step :: "cell \<Rightarrow> cell_op \<Rightarrow> cell" where
  "cell_step c (Begin i) = begin_step i c"
| "cell_step c (Request i) = request_step i c"
| "cell_step c (Lose i) = lose_step i c"
| "cell_step c (Reply i) = reply_step i c"
| "cell_step c (Finish i) = finish_step i c"
| "cell_step c (Append i t l pvi pvt es lc) =
     local_step i (\<lambda>r. snd (handle_append_entries t l pvi pvt es lc r)) c"
| "cell_step c (Install i t l lii lit data m) =
     local_step i (\<lambda>r. snd (handle_install_snapshot t l lii lit data m r)) c"
| "cell_step c (Beat i hb n p ans) = local_step i (\<lambda>r. snd (heartbeat_response hb n p ans r)) c"
| "cell_step c (BeatEnd i hb) = local_step i (finish_heartbeat hb) c"
| "cell_step c (Propose i cmd) = local_step i (\<lambda>r. snd (propose cmd r)) c"
| "cell_step c (Pending i vs) = local_step i (\<lambda>r. r\<lparr>rf_pending_joint := Some vs\<rparr>) c"
| "cell_step c (Learner i p) = local_step i (\<lambda>r. snd (register_learner p r)) c"
| "cell_step c (Compact i limit data) = local_step i (\<lambda>r. snd (compact_log limit data r)) c"
| "cell_step c (Seed i m) = local_step i (\<lambda>r. snd (install_membership_snapshot m r)) c"
| "cell_step c (Restart i peers strict) = restart_step i peers strict c"

text \<open>New nodes with empty disks.\<close>

definition empty_disk :: "disk" where
  "empty_disk = \<lparr>dk_state = None, dk_snapshot = None\<rparr>"

definition new_cell :: "(string \<times> string list \<times> bool) list \<Rightarrow> cell" where
  "new_cell specs =
     \<lparr>ce_nodes = fold (\<lambda>(i, peers, strict) d.
          (case new_raft i peers strict (Some empty_disk) of Inl _ \<Rightarrow> d | Inr r \<Rightarrow> dset i r d)) specs [],
      ce_campaigns = [], ce_votes = [], ce_elected = []\<rparr>"

section \<open>The invariant\<close>

definition nodes_ok :: "cell \<Rightarrow> bool" where
  "nodes_ok c \<longleftrightarrow> (\<forall>i r. dget (ce_nodes c) i = Some r \<longrightarrow> rf_id r = i \<and> node_ok r \<and>
     (\<forall>t x. (t, i, x) \<in> set (ce_votes c) \<longrightarrow>
        t \<le> rf_term r \<and> (t = rf_term r \<longrightarrow> rf_voted_for r = Some x)) \<and>
     (rf_role r = Leader \<longrightarrow> (\<exists>cfg vs. (rf_term r, i, cfg, vs) \<in> set (ce_elected c))))"

definition votes_once :: "cell \<Rightarrow> bool" where
  "votes_once c \<longleftrightarrow> (\<forall>t v x y. (t, v, x) \<in> set (ce_votes c) \<longrightarrow> (t, v, y) \<in> set (ce_votes c) \<longrightarrow> x = y)"

definition campaigns_ok :: "cell \<Rightarrow> bool" where
  "campaigns_ok c \<longleftrightarrow> (\<forall>i f. dget (ce_campaigns c) i = Some f \<longrightarrow>
     (\<forall>p\<in>set (el_votes (cp_election f)). (el_term (cp_election f), p, i) \<in> set (ce_votes c)) \<and>
     (\<forall>t p ps. cp_reply f = Some (t, True) \<longrightarrow> cp_todo f = p # ps \<longrightarrow>
        (el_term (cp_election f), p, i) \<in> set (ce_votes c)))"

definition elected_ok :: "cell \<Rightarrow> bool" where
  "elected_ok c \<longleftrightarrow> (\<forall>t i cfg vs. (t, i, cfg, vs) \<in> set (ce_elected c) \<longrightarrow>
     config_ok cfg \<and> has_quorum cfg vs \<and> (\<forall>p\<in>set vs. (t, p, i) \<in> set (ce_votes c)))"

definition cell_inv :: "cell \<Rightarrow> bool" where
  "cell_inv c \<longleftrightarrow> nodes_ok c \<and> votes_once c \<and> campaigns_ok c \<and> elected_ok c"

text \<open>Terms and the histories only grow.\<close>

definition cell_le :: "cell \<Rightarrow> cell \<Rightarrow> bool" where
  "cell_le c c' \<longleftrightarrow> set (ce_votes c) \<subseteq> set (ce_votes c') \<and> set (ce_elected c) \<subseteq> set (ce_elected c') \<and>
     (\<forall>i r r'. dget (ce_nodes c) i = Some r \<longrightarrow> dget (ce_nodes c') i = Some r' \<longrightarrow> rf_term r \<le> rf_term r') \<and>
     (\<forall>i. dget (ce_nodes c') i \<noteq> None \<longrightarrow> dget (ce_nodes c) i \<noteq> None)"

lemma cell_le_refl [simp]: "cell_le c c"
  by (simp add: cell_le_def)

lemma cell_le_trans:
  assumes "cell_le a b" "cell_le b c"
  shows "cell_le a c"
proof -
  have "rf_term r \<le> rf_term r'" if ac: "dget (ce_nodes a) i = Some r" "dget (ce_nodes c) i = Some r'" for i r r'
  proof -
    obtain q where "dget (ce_nodes b) i = Some q"
      using assms(2) ac(2) by (force simp: cell_le_def)
    then show ?thesis using assms ac unfolding cell_le_def by (meson order_trans)
  qed
  then show ?thesis using assms unfolding cell_le_def by blast
qed

lemma dget_put_node:
  "dget (ce_nodes (put_node i r c)) k =
     (if k = i then map_option (\<lambda>_. r) (dget (ce_nodes c) i) else dget (ce_nodes c) k)"
  by (simp add: put_node_def dget_dmod)

lemma put_node_fields [simp]:
  "ce_campaigns (put_node i r c) = ce_campaigns c" "ce_votes (put_node i r c) = ce_votes c"
  "ce_elected (put_node i r c) = ce_elected c"
  by (simp_all add: put_node_def)

lemma end_campaign_fields [simp]:
  "ce_nodes (end_campaign i c) = ce_nodes c" "ce_votes (end_campaign i c) = ce_votes c"
  "ce_elected (end_campaign i c) = ce_elected c"
  by (simp_all add: end_campaign_def)

lemma set_campaign_fields [simp]:
  "ce_nodes (set_campaign i f c) = ce_nodes c" "ce_votes (set_campaign i f c) = ce_votes c"
  "ce_elected (set_campaign i f c) = ce_elected c"
  by (simp_all add: set_campaign_def)

section \<open>Preservation\<close>

text \<open>
  The general step: one node and the campaigns change, the histories grow. The premises are
  what a step has to show for the invariant.
\<close>

lemma cell_inv_change:
  assumes inv: "cell_inv c" and r: "dget (ce_nodes c) j = Some r"
    and nodes: "\<And>k. dget (ce_nodes c') k = (if k = j then Some r' else dget (ce_nodes c) k)"
    and r': "rf_id r' = j" "node_ok r'" "rf_term r \<le> rf_term r'"
    and votes: "ce_votes c' = nv @ ce_votes c"
    and elected: "ce_elected c' = ne @ ce_elected c"
    and nv: "\<And>t v x. (t, v, x) \<in> set nv \<Longrightarrow> v = j \<and> t = rf_term r' \<and> rf_voted_for r' = Some x"
    and kept: "rf_term r' = rf_term r \<Longrightarrow> rf_voted_for r \<noteq> None \<Longrightarrow> rf_voted_for r' = rf_voted_for r"
    and lead: "rf_role r' = Leader \<Longrightarrow>
       rf_role r = Leader \<and> rf_term r' = rf_term r \<or> (\<exists>cfg vs. (rf_term r', j, cfg, vs) \<in> set ne)"
    and ne: "\<And>t i cfg vs. (t, i, cfg, vs) \<in> set ne \<Longrightarrow>
       config_ok cfg \<and> has_quorum cfg vs \<and> (\<forall>p\<in>set vs. (t, p, i) \<in> set (ce_votes c'))"
    and camp: "campaigns_ok c'"
  shows "cell_inv c' \<and> cell_le c c'"
proof -
  have old: "rf_id r = j \<and> node_ok r \<and>
      (\<forall>t x. (t, j, x) \<in> set (ce_votes c) \<longrightarrow> t \<le> rf_term r \<and> (t = rf_term r \<longrightarrow> rf_voted_for r = Some x)) \<and>
      (rf_role r = Leader \<longrightarrow> (\<exists>cfg vs. (rf_term r, j, cfg, vs) \<in> set (ce_elected c)))"
    using inv r by (simp add: cell_inv_def nodes_ok_def)
  have votej: "t \<le> rf_term r' \<and> (t = rf_term r' \<longrightarrow> rf_voted_for r' = Some x)"
    if m: "(t, j, x) \<in> set (ce_votes c')" for t x
  proof (cases "(t, j, x) \<in> set nv")
    case True
    then show ?thesis using nv by blast
  next
    case False
    then have o: "t \<le> rf_term r" "t = rf_term r \<longrightarrow> rf_voted_for r = Some x"
      using m votes old by auto
    then show ?thesis using r'(3) kept by auto
  qed
  have leadj: "\<exists>cfg vs. (rf_term r', j, cfg, vs) \<in> set (ce_elected c')" if "rf_role r' = Leader"
    unfolding elected set_append using lead [OF that] old by (metis UnI1 UnI2)
  have "nodes_ok c'"
    unfolding nodes_ok_def
  proof (intro allI impI)
    fix i s assume s: "dget (ce_nodes c') i = Some s"
    show "rf_id s = i \<and> node_ok s \<and>
       (\<forall>t x. (t, i, x) \<in> set (ce_votes c') \<longrightarrow> t \<le> rf_term s \<and> (t = rf_term s \<longrightarrow> rf_voted_for s = Some x)) \<and>
       (rf_role s = Leader \<longrightarrow> (\<exists>cfg vs. (rf_term s, i, cfg, vs) \<in> set (ce_elected c')))"
    proof (cases "i = j")
      case True
      then have "s = r'" using s nodes by simp
      then show ?thesis using True r' votej leadj by blast
    next
      case False
      then have si: "dget (ce_nodes c) i = Some s" using s nodes by simp
      have "(t, i, x) \<in> set (ce_votes c') \<longleftrightarrow> (t, i, x) \<in> set (ce_votes c)" for t x
        using votes nv False by auto
      then show ?thesis using si inv elected unfolding cell_inv_def nodes_ok_def by fastforce
    qed
  qed
  moreover have "votes_once c'"
    unfolding votes_once_def
  proof (intro allI impI)
    fix t v x y assume a: "(t, v, x) \<in> set (ce_votes c')" "(t, v, y) \<in> set (ce_votes c')"
    show "x = y"
    proof (cases "(t, v, x) \<in> set nv \<or> (t, v, y) \<in> set nv")
      case True
      then have "v = j" "t = rf_term r'" using nv by blast+
      then show ?thesis using a votej by (metis option.inject)
    next
      case False
      then show ?thesis using a votes inv by (auto simp: cell_inv_def votes_once_def)
    qed
  qed
  moreover have "elected_ok c'"
    unfolding elected_ok_def
  proof (intro allI impI)
    fix t i cfg vs assume e: "(t, i, cfg, vs) \<in> set (ce_elected c')"
    show "config_ok cfg \<and> has_quorum cfg vs \<and> (\<forall>p\<in>set vs. (t, p, i) \<in> set (ce_votes c'))"
    proof (cases "(t, i, cfg, vs) \<in> set ne")
      case True
      then show ?thesis using ne by blast
    next
      case False
      then have "(t, i, cfg, vs) \<in> set (ce_elected c)" using e elected by simp
      then show ?thesis using inv votes by (fastforce simp: cell_inv_def elected_ok_def)
    qed
  qed
  moreover have "cell_le c c'"
    using votes elected nodes r r'(3) by (auto simp: cell_le_def split: if_splits)
  ultimately show ?thesis using camp by (simp add: cell_inv_def)
qed

text \<open>A block of one node that is no election.\<close>

lemma calm_step:
  assumes inv: "cell_inv c" and r: "dget (ce_nodes c) i = Some r" and calm: "calm r r'"
    and nodes: "ce_nodes c' = ce_nodes (put_node i r' c)" "ce_votes c' = ce_votes c"
      "ce_elected c' = ce_elected c" "campaigns_ok c'"
  shows "cell_inv c' \<and> cell_le c c'"
proof (rule cell_inv_change [OF inv r, where r' = r' and nv = "[]" and ne = "[]"])
  have i: "rf_id r = i" "node_ok r" using inv r by (auto simp: cell_inv_def nodes_ok_def)
  show "rf_id r' = i" "node_ok r'" "rf_term r \<le> rf_term r'"
    using calm i by (auto simp: calm_def)
  show "rf_role r' = Leader \<Longrightarrow>
       rf_role r = Leader \<and> rf_term r' = rf_term r \<or> (\<exists>cfg vs. (rf_term r', i, cfg, vs) \<in> set [])"
    using calm by (simp add: calm_def)
  show "rf_term r' = rf_term r \<Longrightarrow> rf_voted_for r \<noteq> None \<Longrightarrow> rf_voted_for r' = rf_voted_for r"
    using calm by (simp add: calm_def)
  show "dget (ce_nodes c') k = (if k = i then Some r' else dget (ce_nodes c) k)" for k
    using nodes(1) r by (simp add: dget_put_node)
qed (use nodes in simp_all)

lemma campaigns_same:
  "campaigns_ok c \<Longrightarrow> ce_campaigns c' = ce_campaigns c \<Longrightarrow> set (ce_votes c) \<subseteq> set (ce_votes c') \<Longrightarrow>
     campaigns_ok c'"
  unfolding campaigns_ok_def by fastforce

lemma campaigns_end:
  assumes "campaigns_ok c" "ce_campaigns c' = ddel i (ce_campaigns c)" "set (ce_votes c) \<subseteq> set (ce_votes c')"
  shows "campaigns_ok c'"
  using assms unfolding campaigns_ok_def by (fastforce simp: dget_ddel split: if_splits)

lemma campaigns_set:
  assumes "campaigns_ok c" "ce_campaigns c' = dset i f (ce_campaigns c)" "set (ce_votes c) \<subseteq> set (ce_votes c')"
    "\<forall>p\<in>set (el_votes (cp_election f)). (el_term (cp_election f), p, i) \<in> set (ce_votes c')"
    "\<forall>t p ps. cp_reply f = Some (t, True) \<longrightarrow> cp_todo f = p # ps \<longrightarrow>
        (el_term (cp_election f), p, i) \<in> set (ce_votes c')"
  shows "campaigns_ok c'"
  unfolding campaigns_ok_def
proof (intro allI impI)
  fix k g assume k: "dget (ce_campaigns c') k = Some g"
  show "(\<forall>p\<in>set (el_votes (cp_election g)). (el_term (cp_election g), p, k) \<in> set (ce_votes c')) \<and>
     (\<forall>t p ps. cp_reply g = Some (t, True) \<longrightarrow> cp_todo g = p # ps \<longrightarrow>
        (el_term (cp_election g), p, k) \<in> set (ce_votes c'))"
  proof (cases "k = i")
    case True
    then show ?thesis using k assms(2,4,5) by (simp add: dget_dset)
  next
    case False
    then show ?thesis using k assms(1-3) unfolding campaigns_ok_def by (fastforce simp: dget_dset)
  qed
qed

lemma local_step_inv:
  assumes inv: "cell_inv c" and calm: "\<And>r. calm r (f r)"
  shows "cell_inv (local_step i f c) \<and> cell_le c (local_step i f c)"
proof (cases "dget (ce_nodes c) i")
  case None
  then show ?thesis using inv by (simp add: local_step_def)
next
  case (Some r)
  have "cell_inv (put_node i (f r) c) \<and> cell_le c (put_node i (f r) c)"
    by (rule calm_step [OF inv Some calm])
      (use inv campaigns_same [of c "put_node i (f r) c"] in \<open>simp_all add: cell_inv_def\<close>)
  then show ?thesis using Some by (simp add: local_step_def)
qed

lemma begin_election_spec:
  assumes "begin_election r = (Some el, r')" "node_ok r"
  shows "rf_id r' = rf_id r \<and> node_ok r' \<and> rf_term r' = rf_term r + 1 \<and> rf_role r' = Candidate \<and>
     rf_voted_for r' = Some (rf_id r) \<and> el_term el = rf_term r' \<and> el_votes el = [rf_id r]"
proof -
  have "rf_disk r \<noteq> None" using assms(2) durable_disk by (auto simp: node_ok_def)
  then have "durable (persist (r\<lparr>rf_term := rf_term r + 1, rf_role := Candidate, rf_voted_for := Some (rf_id r)\<rparr>))"
    by (intro persist_durable) simp
  then show ?thesis
    using assms by (auto simp: begin_election_def Let_def node_ok_def split: if_splits)
qed

lemma begin_election_None: "begin_election r = (None, r') \<Longrightarrow> r' = r"
  by (auto simp: begin_election_def Let_def split: if_splits)

lemma begin_step_inv:
  assumes inv: "cell_inv c"
  shows "cell_inv (begin_step i c) \<and> cell_le c (begin_step i c)"
proof (cases "dget (ce_nodes c) i")
  case None
  then show ?thesis using inv by (simp add: begin_step_def)
next
  case (Some r)
  have old: "rf_id r = i" "node_ok r" using inv Some by (auto simp: cell_inv_def nodes_ok_def)
  obtain o' r' where b: "begin_election r = (o', r')" by fastforce
  show ?thesis
  proof (cases o')
    case None
    then have "begin_step i c = put_node i r c"
      using Some b begin_election_None by (auto simp: begin_step_def)
    then show ?thesis
      using calm_step [OF inv Some calm_refl, of "put_node i r c"] inv
        campaigns_same [of c "put_node i r c"] by (simp add: cell_inv_def)
  next
    case (Some el)
    note el = begin_election_spec [OF b [unfolded Some] old(2)]
    let ?f = "\<lparr>cp_election = el, cp_todo = el_peers el, cp_reply = None\<rparr>"
    let ?c = "(put_node i r' (set_campaign i ?f c))\<lparr>ce_votes := (el_term el, i, i) # ce_votes c\<rparr>"
    have "cell_inv ?c \<and> cell_le c ?c"
    proof (rule cell_inv_change [OF inv \<open>dget (ce_nodes c) i = Some r\<close>, where r' = r' and
          nv = "[(el_term el, i, i)]" and ne = "[]"])
      show "campaigns_ok ?c"
        by (rule campaigns_set [of c _ i ?f]) (use inv el old in \<open>auto simp: cell_inv_def set_campaign_def\<close>)
      show "dget (ce_nodes ?c) k = (if k = i then Some r' else dget (ce_nodes c) k)" for k
        using \<open>dget (ce_nodes c) i = Some r\<close>
        by (simp add: put_node_def set_campaign_def dget_dmod)
    qed (use el old in auto)
    then show ?thesis using \<open>dget (ce_nodes c) i = Some r\<close> b Some by (simp add: begin_step_def)
  qed
qed

lemma handle_request_vote_spec:
  assumes "handle_request_vote t cand lli llt r = (ans, r')" "node_ok r"
  shows "rf_id r' = rf_id r \<and> node_ok r' \<and> rf_term r \<le> rf_term r' \<and>
     (rf_role r' = Leader \<longrightarrow> rf_role r = Leader \<and> rf_term r' = rf_term r) \<and>
     (rf_term r' = rf_term r \<and> rf_voted_for r \<noteq> None \<longrightarrow> rf_voted_for r' = rf_voted_for r) \<and>
     (snd ans \<longrightarrow> rf_term r' = t \<and> fst ans = t \<and> rf_voted_for r' = Some cand)"
proof -
  define r1 where "r1 = (if t > rf_term r then step_down t r else r)"
  have calm: "calm r r1" by (simp add: r1_def calm_step_down)
  have ok1: "node_ok r1" "rf_id r1 = rf_id r" "rf_term r \<le> rf_term r1"
    using calm assms(2) by (auto simp: calm_def)
  define r2 where "r2 = persist (r1\<lparr>rf_voted_for := Some cand\<rparr>)"
  have "rf_disk r1 \<noteq> None" using ok1 durable_disk by (auto simp: node_ok_def)
  then have ok2: "node_ok r2"
    using ok1 persist_durable [of "r1\<lparr>rf_voted_for := Some cand\<rparr>"] by (simp add: r2_def node_ok_def)
  let ?out = "rf_enforced r \<and> (rf_id r \<notin> set (all_voters (rf_membership r)) \<or>
                          cand \<notin> set (all_voters (rf_membership r)))"
  let ?grant = "(rf_voted_for r1 = None \<or> rf_voted_for r1 = Some cand) \<and>
     (llt > last_log_term r1 \<or> llt = last_log_term r1 \<and> lli \<ge> last_log_index r1)"
  have "(ans, r') =
      (if ?out then ((rf_term r, False), r) else if t < rf_term r then ((rf_term r, False), r)
       else if ?grant then ((rf_term r2, True), r2) else ((rf_term r1, False), r1))"
    using assms(1) unfolding handle_request_vote_def Let_def r1_def r2_def by (simp only:)
  then consider "ans = (rf_term r, False)" "r' = r" | "\<not> t < rf_term r" "ans = (rf_term r1, False)" "r' = r1"
    | "\<not> t < rf_term r" "rf_voted_for r1 = None \<or> rf_voted_for r1 = Some cand" "ans = (rf_term r2, True)" "r' = r2"
    by (cases ?out; cases "t < rf_term r"; cases ?grant) auto
  then show ?thesis
  proof cases
    case 3
    have "rf_term r1 = t" using 3(1) by (auto simp: r1_def step_down_def)
    then show ?thesis using 3 ok1 ok2 calm by (auto simp: r2_def calm_def)
  qed (use assms(2) calm in \<open>auto simp: calm_def\<close>)
qed

lemma request_step_inv:
  assumes inv: "cell_inv c"
  shows "cell_inv (request_step i c) \<and> cell_le c (request_step i c)"
proof (cases "\<exists>f p ps r. dget (ce_campaigns c) i = Some f \<and> cp_todo f = p # ps \<and> dget (ce_nodes c) p = Some r")
  case False
  then have "request_step i c = c" by (auto simp: request_step_def split: option.splits list.splits)
  then show ?thesis using inv by simp
next
  case True
  then obtain f p ps r where f: "dget (ce_campaigns c) i = Some f" "cp_todo f = p # ps"
    and r: "dget (ce_nodes c) p = Some r" by blast
  have old: "rf_id r = p" "node_ok r" using inv r by (auto simp: cell_inv_def nodes_ok_def)
  let ?el = "cp_election f"
  obtain ans r' where h: "handle_request_vote (el_term ?el) i (el_last_index ?el) (el_last_term ?el) r = (ans, r')"
    by fastforce
  note spec = handle_request_vote_spec [OF h old(2)]
  let ?g = "f\<lparr>cp_reply := Some ans\<rparr>"
  let ?nv = "if snd ans then [(el_term ?el, p, i)] else []"
  let ?c = "(set_campaign i ?g (put_node p r' c))\<lparr>ce_votes := ?nv @ ce_votes c\<rparr>"
  have c': "request_step i c = ?c"
    using f r h by (simp add: request_step_def Let_def set_campaign_def put_node_def)
  have votes: "\<forall>q\<in>set (el_votes ?el). (el_term ?el, q, i) \<in> set (ce_votes c)"
    using inv f(1) by (auto simp: cell_inv_def campaigns_ok_def)
  have "cell_inv ?c \<and> cell_le c ?c"
  proof (rule cell_inv_change [OF inv r, where r' = r' and nv = ?nv and ne = "[]"])
    show "campaigns_ok ?c"
      by (rule campaigns_set [of c _ i ?g])
        (use inv votes spec f in \<open>auto simp: cell_inv_def set_campaign_def\<close>)
    show "dget (ce_nodes ?c) k = (if k = p then Some r' else dget (ce_nodes c) k)" for k
      using r by (simp add: set_campaign_def dget_put_node)
  qed (use spec old in \<open>auto split: if_splits\<close>)
  then show ?thesis using c' by simp
qed

lemma campaign_only_inv:
  assumes inv: "cell_inv c" and "ce_nodes c' = ce_nodes c" "ce_votes c' = ce_votes c"
    "ce_elected c' = ce_elected c" "campaigns_ok c'"
  shows "cell_inv c' \<and> cell_le c c'"
  using assms by (auto simp: cell_inv_def nodes_ok_def votes_once_def elected_ok_def cell_le_def)

lemma lose_step_inv:
  assumes inv: "cell_inv c"
  shows "cell_inv (lose_step i c) \<and> cell_le c (lose_step i c)"
proof (cases "dget (ce_campaigns c) i")
  case None
  then show ?thesis using inv by (simp add: lose_step_def)
next
  case (Some f)
  let ?f = "f\<lparr>cp_todo := tl (cp_todo f), cp_reply := None\<rparr>"
  have "campaigns_ok (set_campaign i ?f c)"
    by (rule campaigns_set [of c _ i ?f])
      (use inv Some in \<open>auto simp: cell_inv_def set_campaign_def campaigns_ok_def\<close>)
  then show ?thesis using campaign_only_inv [OF inv] Some by (simp add: lose_step_def)
qed

lemma vote_response_spec:
  "vote_response el p (Some (t, g)) r = (o', r') \<Longrightarrow>
     calm r r' \<and> (\<forall>el'. o' = Some el' \<longrightarrow> r' = r \<and> el' = (if g then el\<lparr>el_votes := p # el_votes el\<rparr> else el))"
  by (auto simp: vote_response_def calm_step_down split: if_splits)

lemma reply_step_inv:
  assumes inv: "cell_inv c"
  shows "cell_inv (reply_step i c) \<and> cell_le c (reply_step i c)"
proof (cases "\<exists>f r p ps a. dget (ce_campaigns c) i = Some f \<and> dget (ce_nodes c) i = Some r \<and>
    cp_todo f = p # ps \<and> cp_reply f = Some a")
  case False
  then have "reply_step i c = c" by (auto simp: reply_step_def split: option.splits list.splits)
  then show ?thesis using inv by simp
next
  case True
  then obtain f r p ps t g where f: "dget (ce_campaigns c) i = Some f" "cp_todo f = p # ps" "cp_reply f = Some (t, g)"
    and r: "dget (ce_nodes c) i = Some r" by auto
  obtain o' r' where v: "vote_response (cp_election f) p (Some (t, g)) r = (o', r')" by fastforce
  note spec = vote_response_spec [OF v]
  have camp: "campaigns_ok c" using inv by (simp add: cell_inv_def)
  show ?thesis
  proof (cases o')
    case None
    let ?c = "put_node i r' (end_campaign i c)"
    have "campaigns_ok ?c"
      by (rule campaigns_end [OF camp]) (simp_all add: end_campaign_def)
    moreover have "ce_nodes ?c = ce_nodes (put_node i r' c)" by (simp add: put_node_def)
    ultimately have "cell_inv ?c \<and> cell_le c ?c"
      using spec by (intro calm_step [OF inv r]) simp_all
    then show ?thesis using f r v None by (simp add: reply_step_def)
  next
    case (Some el)
    let ?g = "\<lparr>cp_election = el, cp_todo = ps, cp_reply = None\<rparr>"
    let ?c = "put_node i r' (set_campaign i ?g c)"
    have "\<forall>q\<in>set (el_votes el). (el_term el, q, i) \<in> set (ce_votes c)"
      using camp f spec Some unfolding campaigns_ok_def by (fastforce split: if_splits)
    then have "campaigns_ok ?c"
      by (intro campaigns_set [OF camp, of _ i ?g]) (simp_all add: set_campaign_def)
    moreover have "ce_nodes ?c = ce_nodes (put_node i r' c)" by (simp add: put_node_def)
    ultimately have "cell_inv ?c \<and> cell_le c ?c"
      using spec by (intro calm_step [OF inv r]) simp_all
    then show ?thesis using f r v Some by (simp add: reply_step_def)
  qed
qed

lemma finish_election_spec:
  "finish_election el r = r \<or>
   rf_role r = Candidate \<and> rf_term r = el_term el \<and> has_quorum (rf_membership r) (el_votes el) \<and>
   finish_election el r = become_leader (el_peers el) r"
  by (simp add: finish_election_def)

lemma become_leader_fields [simp]:
  "rf_id (become_leader ps r) = rf_id r" "rf_term (become_leader ps r) = rf_term r"
  "rf_voted_for (become_leader ps r) = rf_voted_for r" "rf_role (become_leader ps r) = Leader"
  "rf_membership (become_leader ps r) = rf_membership r" "rf_disk (become_leader ps r) = rf_disk r"
  by (simp_all add: become_leader_def)

lemma finish_step_inv:
  assumes inv: "cell_inv c"
  shows "cell_inv (finish_step i c) \<and> cell_le c (finish_step i c)"
proof (cases "\<exists>f r. dget (ce_campaigns c) i = Some f \<and> dget (ce_nodes c) i = Some r \<and> cp_todo f = []")
  case False
  then have "finish_step i c = c" by (auto simp: finish_step_def split: option.splits)
  then show ?thesis using inv by simp
next
  case True
  then obtain f r where f: "dget (ce_campaigns c) i = Some f" "cp_todo f = []"
    and r: "dget (ce_nodes c) i = Some r" by blast
  let ?el = "cp_election f" and ?c1 = "\<lambda>r'. put_node i r' (end_campaign i c)"
  have camp: "campaigns_ok c" using inv by (simp add: cell_inv_def)
  have old: "rf_id r = i" "node_ok r" using inv r by (auto simp: cell_inv_def nodes_ok_def)
  show ?thesis
  proof (cases "finish_election ?el r = r")
    case True
    then have c': "finish_step i c = ?c1 r" using f r by (simp add: finish_step_def Let_def)
    have "campaigns_ok (?c1 r)" by (rule campaigns_end [OF camp]) (simp_all add: end_campaign_def)
    moreover have "ce_nodes (?c1 r) = ce_nodes (put_node i r c)" by (simp add: put_node_def)
    ultimately show ?thesis unfolding c' by (intro calm_step [OF inv r calm_refl]) simp_all
  next
    case False
    let ?r' = "become_leader (el_peers ?el) r"
    have won: "rf_role r = Candidate" "rf_term r = el_term ?el" "has_quorum (rf_membership r) (el_votes ?el)"
        "finish_election ?el r = ?r'"
      using finish_election_spec [of ?el r] False by auto
    let ?e = "(rf_term r, i, rf_membership r, el_votes ?el)"
    let ?c = "(?c1 ?r')\<lparr>ce_elected := ?e # ce_elected c\<rparr>"
    have c': "finish_step i c = ?c" using f r won by (simp add: finish_step_def Let_def)
    have votes: "\<forall>p\<in>set (el_votes ?el). (rf_term r, p, i) \<in> set (ce_votes c)"
      using camp f(1) won(2) by (simp add: campaigns_ok_def)
    have "cell_inv ?c \<and> cell_le c ?c"
    proof (rule cell_inv_change [OF inv r, where r' = ?r' and nv = "[]" and ne = "[?e]"])
      show "campaigns_ok ?c" by (rule campaigns_end [OF camp]) (simp_all add: end_campaign_def)
      show "node_ok ?r'" using old(2) by (auto simp: node_ok_def durable_def split: option.splits)
      show "dget (ce_nodes ?c) k = (if k = i then Some ?r' else dget (ce_nodes c) k)" for k
        using r by (simp add: dget_put_node)
      show "config_ok cfg \<and> has_quorum cfg vs \<and> (\<forall>p\<in>set vs. (t, p, j) \<in> set (ce_votes ?c))"
        if "(t, j, cfg, vs) \<in> set [?e]" for t j cfg vs
        using that votes won(3) old(2) by (simp add: node_ok_def)
    qed (use old in auto)
    then show ?thesis using c' by simp
  qed
qed

lemma restart_step_inv:
  assumes inv: "cell_inv c"
  shows "cell_inv (restart_step i peers strict c) \<and> cell_le c (restart_step i peers strict c)"
proof (cases "dget (ce_nodes c) i")
  case None
  then show ?thesis using inv by (simp add: restart_step_def)
next
  case (Some r)
  have camp: "campaigns_ok c" using inv by (simp add: cell_inv_def)
  have old: "node_ok r" using inv Some by (auto simp: cell_inv_def nodes_ok_def)
  show ?thesis
  proof (cases "new_raft (rf_id r) peers strict (rf_disk r)")
    case (Inl e)
    let ?c = "(end_campaign i c)\<lparr>ce_nodes := ddel i (ce_nodes c)\<rparr>"
    have "campaigns_ok ?c" by (rule campaigns_end [OF camp]) (simp_all add: end_campaign_def)
    then have "cell_inv ?c"
      using inv by (auto simp: cell_inv_def nodes_ok_def votes_once_def elected_ok_def dget_ddel split: if_splits)
    moreover have "cell_le c ?c" by (auto simp: cell_le_def dget_ddel split: if_splits)
    ultimately show ?thesis using Some Inl by (simp add: restart_step_def)
  next
    case (Inr r')
    have calm: "calm r r'" using restart_calm [OF Inr] old by (simp add: node_ok_def)
    let ?c = "put_node i r' (end_campaign i c)"
    have "campaigns_ok ?c" by (rule campaigns_end [OF camp]) (simp_all add: end_campaign_def)
    moreover have "ce_nodes ?c = ce_nodes (put_node i r' c)" by (simp add: put_node_def)
    ultimately have "cell_inv ?c \<and> cell_le c ?c"
      using calm by (intro calm_step [OF inv Some]) simp_all
    then show ?thesis using Some Inr by (simp add: restart_step_def)
  qed
qed

lemma cell_step_inv:
  assumes "cell_inv c"
  shows "cell_inv (cell_step c x) \<and> cell_le c (cell_step c x)"
proof (cases x)
  case (Append i t l pvi pvt es lc)
  then show ?thesis using local_step_inv [OF assms] calm_append by (metis cell_step.simps(6) prod.collapse)
next
  case (Install i t l lii lit data m)
  then show ?thesis using local_step_inv [OF assms] calm_install by (metis cell_step.simps(7) prod.collapse)
next
  case (Seed i m)
  then show ?thesis using local_step_inv [OF assms] calm_seed by (metis cell_step.simps(14) prod.collapse)
next
  case (Pending i vs)
  have "calm r (r\<lparr>rf_pending_joint := Some vs\<rparr>)" for r by (rule calm_frame) simp_all
  then show ?thesis using local_step_inv [OF assms] Pending by simp
qed (use assms local_step_inv begin_step_inv request_step_inv lose_step_inv reply_step_inv finish_step_inv
       restart_step_inv calm_heartbeat_response calm_finish_heartbeat calm_propose calm_learner calm_compact
     in simp_all)

interpretation cm: machine cell_step "\<lambda>_ _. True" cell_inv cell_le
  by unfold_locales (simp_all add: cell_step_inv, blast intro: cell_le_trans)

lemma new_cell_inv: "cell_inv (new_cell specs)"
proof -
  define put :: "string \<times> string list \<times> bool \<Rightarrow> (string, raft) dict \<Rightarrow> (string, raft) dict"
    where "put = (\<lambda>(i, peers, strict) d.
          (case new_raft i peers strict (Some empty_disk) of Inl _ \<Rightarrow> d | Inr r \<Rightarrow> dset i r d))"
  have step: "\<forall>i r. dget (put s d) i = Some r \<longrightarrow> rf_id r = i \<and> node_ok r \<and> rf_role r = Follower"
    if "\<forall>i r. dget d i = Some r \<longrightarrow> rf_id r = i \<and> node_ok r \<and> rf_role r = Follower" for s d
  proof -
    obtain i peers strict where s: "s = (i, peers, strict)" by (cases s)
    show ?thesis
    proof (cases "new_raft i peers strict (Some empty_disk)")
      case (Inl e)
      then show ?thesis using that s by (simp add: put_def)
    next
      case (Inr r)
      have "rf_id r = i \<and> node_ok r \<and> rf_role r = Follower"
        using restart_spec [OF Inr] by (simp add: node_ok_def durable_def empty_disk_def)
      then show ?thesis using that s Inr by (simp add: put_def dget_dset)
    qed
  qed
  have "\<forall>i r. dget (fold put specs d) i = Some r \<longrightarrow> rf_id r = i \<and> node_ok r \<and> rf_role r = Follower"
    if "\<forall>i r. dget d i = Some r \<longrightarrow> rf_id r = i \<and> node_ok r \<and> rf_role r = Follower" for d
    using that
  proof (induction specs arbitrary: d)
    case (Cons s ss)
    show ?case using Cons.IH [OF step [OF Cons.prems]] by simp
  qed simp
  from this [of "[]"] have "\<forall>i r. dget (ce_nodes (new_cell specs)) i = Some r \<longrightarrow>
      rf_id r = i \<and> node_ok r \<and> rf_role r = Follower"
    by (simp add: new_cell_def put_def)
  then show ?thesis
    by (fastforce simp: cell_inv_def nodes_ok_def votes_once_def campaigns_ok_def elected_ok_def new_cell_def)
qed

lemma cell_run_inv: "cell_inv (run cell_step (new_cell specs) ops)"
  by (rule cm.run_inv) (simp_all add: new_cell_inv)

text \<open>Two elections of one term won under compatible configurations have one winner.\<close>

lemma one_election:
  assumes inv: "cell_inv c" and a: "(t, i, cfg, vs) \<in> set (ce_elected c)"
    and b: "(t, j, cfg', vs') \<in> set (ce_elected c)" and comp: "compatible cfg cfg'"
  shows "i = j"
proof (rule cell.one_winner [where votes = "\<lambda>v x. (t, v, x) \<in> set (ce_votes c)"])
  show "config_ok cfg" "config_ok cfg'" "has_quorum cfg vs" "has_quorum cfg' vs'"
    using inv a b unfolding cell_inv_def elected_ok_def by blast+
  show "(t, v, i) \<in> set (ce_votes c)" if "v \<in> set vs" for v
    using inv a that unfolding cell_inv_def elected_ok_def by blast
  show "(t, v, j) \<in> set (ce_votes c)" if "v \<in> set vs'" for v
    using inv b that unfolding cell_inv_def elected_ok_def by blast
  show "x = y" if "(t, v, x) \<in> set (ce_votes c)" "(t, v, y) \<in> set (ce_votes c)" for v x y
    using inv that by (auto simp: cell_inv_def votes_once_def)
qed (rule comp)

lemma leader_elected:
  "cell_inv c \<Longrightarrow> dget (ce_nodes c) i = Some r \<Longrightarrow> rf_role r = Leader \<Longrightarrow>
     \<exists>cfg vs. (rf_term r, i, cfg, vs) \<in> set (ce_elected c)"
  by (auto simp: cell_inv_def nodes_ok_def)

end
