(* ===== verification/Raft_Log.thy ===== *)
theory Raft_Log
  imports Raft_Node
begin

text \<open>
  The log of a node: its entries are numbered from the snapshot on, the loop that inserts the
  entries of an AppendEntries request computes a merge, committing applies the entries in
  order, and the leader commits only what a quorum has acknowledged in its own term.
\<close>

section \<open>Numbering\<close>

definition numbered :: "int \<Rightarrow> log_entry list \<Rightarrow> bool" where
  "numbered b l \<longleftrightarrow> (\<forall>k < length l. le_index (l ! k) = b + int k)"

definition log_ok :: "raft \<Rightarrow> bool" where
  "log_ok r \<longleftrightarrow> -1 \<le> rf_snap_index r \<and> rf_snap_index r \<le> rf_commit r \<and>
     numbered (rf_snap_index r + 1) (rf_log r)"

lemma numbered_Nil [simp]: "numbered b []"
  by (simp add: numbered_def)

lemma numbered_Cons [simp]: "numbered b (e # l) \<longleftrightarrow> le_index e = b \<and> numbered (b + 1) l"
  by (auto simp: numbered_def nth_Cons algebra_simps split: nat.splits)

lemma numbered_append [simp]:
  "numbered b (l @ m) \<longleftrightarrow> numbered b l \<and> numbered (b + int (length l)) m"
  by (induction l arbitrary: b) (auto simp: algebra_simps)

lemma numbered_take: "numbered b l \<Longrightarrow> numbered b (take n l)"
  by (metis append_take_drop_id numbered_append)

lemma numbered_drop: "numbered b l \<Longrightarrow> n \<le> length l \<Longrightarrow> numbered (b + int n) (drop n l)"
  using numbered_append [of b "take n l" "drop n l"] by (simp add: min_absorb2)

lemma numbered_ge: "numbered b l \<Longrightarrow> e \<in> set l \<Longrightarrow> b \<le> le_index e"
  by (auto simp: numbered_def in_set_conv_nth)

lemma numbered_filter:
  "numbered b l \<Longrightarrow> b \<le> n + 1 \<Longrightarrow> filter (\<lambda>e. le_index e > n) l = drop (nat (n + 1 - b)) l"
proof (induction l arbitrary: b)
  case (Cons e l)
  show ?case
  proof (cases "b = n + 1")
    case True
    then have "filter (\<lambda>e. le_index e > n) l = l"
      using Cons.prems numbered_ge [of "b + 1" l] by (force simp: filter_id_conv)
    then show ?thesis using True Cons.prems by simp
  next
    case False
    then have "nat (n + 1 - b) = Suc (nat (n + 1 - (b + 1)))" using Cons.prems by simp
    moreover have "filter (\<lambda>e. le_index e > n) l = drop (nat (n + 1 - (b + 1))) l"
      by (rule Cons.IH) (use Cons.prems False in simp_all)
    ultimately show ?thesis using Cons.prems False by simp
  qed
qed simp

lemma last_log_index_numbered:
  assumes "numbered (rf_snap_index r + 1) (rf_log r)"
  shows "last_log_index r = rf_snap_index r + int (length (rf_log r))"
proof (cases "rf_log r = []")
  case False
  then have "le_index (rf_log r ! (length (rf_log r) - 1)) =
      rf_snap_index r + 1 + int (length (rf_log r) - 1)"
    using assms by (simp add: numbered_def)
  then show ?thesis using False by (simp add: last_log_index_def last_conv_nth of_nat_diff Suc_le_eq)
qed (simp add: last_log_index_def)

section \<open>Inserting the entries of a request\<close>

fun merge :: "log_entry list \<Rightarrow> log_entry list \<Rightarrow> log_entry list" where
  "merge [] es = es"
| "merge (x # xs) [] = x # xs"
| "merge (x # xs) (e # es) = (if le_term x = le_term e then x # merge xs es else e # es)"

fun number :: "int \<Rightarrow> (int \<times> pyval) list \<Rightarrow> log_entry list" where
  "number i [] = []"
| "number i ((t, cmd) # es) = \<lparr>le_term = t, le_index = i, le_command = cmd\<rparr> # number (i + 1) es"

lemma merge_Nil2 [simp]: "merge xs [] = xs"
  by (cases xs) auto

lemma length_number [simp]: "length (number i es) = length es"
  by (induction i es rule: number.induct) auto

lemma numbered_number [simp]: "numbered i (number i es)"
  by (induction i es rule: number.induct) auto

lemma numbered_merge: "numbered b xs \<Longrightarrow> numbered b es \<Longrightarrow> numbered b (merge xs es)"
  by (induction xs es arbitrary: b rule: merge.induct) auto

lemma append_loop_skip:
  "idx \<le> base + 1 \<Longrightarrow>
     append_loop base idx es lg ch = append_loop base (base + 1) (drop (nat (base + 1 - idx)) es) lg ch"
proof (induction es arbitrary: idx)
  case (Cons e es)
  show ?case
  proof (cases "idx = base + 1")
    case False
    then have "nat (base + 1 - idx) = Suc (nat (base + 1 - (idx + 1)))" "idx \<le> base"
      using Cons.prems by simp_all
    then show ?thesis using Cons.IH [of "idx + 1"] Cons.prems False by simp
  qed simp
qed simp

text \<open>The loop is the merge of the log from the position on with the entries.\<close>

lemma append_loop_merge:
  assumes "pos \<le> length lg" "idx = base + 1 + int pos"
  shows "\<exists>ch'. append_loop base idx (map Some es) lg ch =
     (Inr ch', take pos lg @ merge (drop pos lg) (number idx es)) \<and>
     (\<not> ch' \<longrightarrow> \<not> ch \<and> take pos lg @ merge (drop pos lg) (number idx es) = lg)"
  using assms
proof (induction es arbitrary: pos lg idx ch)
  case Nil
  then show ?case by simp
next
  case (Cons p es)
  obtain t cmd where p: "p = (t, cmd)" by fastforce
  let ?e = "\<lparr>le_term = t, le_index = idx, le_command = cmd\<rparr>"
  have pos: "nat (idx - base - 1) = pos" "\<not> idx \<le> base" using Cons.prems by simp_all
  show ?case
  proof (cases "pos < length lg")
    case True
    then have d: "drop pos lg = lg ! pos # drop (Suc pos) lg" by (rule Cons_nth_drop_Suc [symmetric])
    show ?thesis
    proof (cases "le_term (lg ! pos) = t")
      case same: True
      have "\<exists>ch'. append_loop base (idx + 1) (map Some es) lg ch =
           (Inr ch', take (Suc pos) lg @ merge (drop (Suc pos) lg) (number (idx + 1) es)) \<and>
           (\<not> ch' \<longrightarrow> \<not> ch \<and> take (Suc pos) lg @ merge (drop (Suc pos) lg) (number (idx + 1) es) = lg)"
        using True Cons.prems by (intro Cons.IH) auto
      moreover have "take (Suc pos) lg @ ms = take pos lg @ lg ! pos # ms" for ms
        using True by (simp add: take_Suc_conv_app_nth)
      ultimately show ?thesis using p pos True same d by (simp add: Let_def)
    next
      case conflict: False
      let ?lg = "take pos lg @ [?e]"
      have len: "length ?lg = Suc pos" using True by simp
      have "\<exists>ch'. append_loop base (idx + 1) (map Some es) ?lg True =
           (Inr ch', take (Suc pos) ?lg @ merge (drop (Suc pos) ?lg) (number (idx + 1) es)) \<and>
           (\<not> ch' \<longrightarrow> \<not> True \<and> take (Suc pos) ?lg @ merge (drop (Suc pos) ?lg) (number (idx + 1) es) = ?lg)"
        using len Cons.prems by (intro Cons.IH) auto
      then obtain ch' where "append_loop base (idx + 1) (map Some es) ?lg True = (Inr ch', ?lg @ number (idx + 1) es)" "ch'"
        using len by auto
      then show ?thesis using p pos True conflict d by (intro exI [of _ True]) (simp add: Let_def)
    qed
  next
    case False
    then have len: "length lg = pos" using Cons.prems by simp
    have "\<exists>ch'. append_loop base (idx + 1) (map Some es) (lg @ [?e]) True =
         (Inr ch', take (Suc pos) (lg @ [?e]) @ merge (drop (Suc pos) (lg @ [?e])) (number (idx + 1) es)) \<and>
         (\<not> ch' \<longrightarrow> \<not> True \<and> take (Suc pos) (lg @ [?e]) @ merge (drop (Suc pos) (lg @ [?e])) (number (idx + 1) es) = lg @ [?e])"
      using len Cons.prems by (intro Cons.IH) auto
    then show ?thesis using p pos len False by (auto simp: Let_def)
  qed
qed

text \<open>Every entry of the request is in the merge with its term; what agrees is kept.\<close>

lemma merge_terms: "k < length es \<Longrightarrow> k < length (merge xs es) \<and> le_term (merge xs es ! k) = le_term (es ! k)"
  by (induction xs es arbitrary: k rule: merge.induct) (auto simp: nth_Cons split: nat.splits)

lemma merge_longer: "length es \<le> length (merge xs es)"
  by (induction xs es rule: merge.induct) auto

lemma merge_keeps:
  assumes "n \<le> length xs" "\<forall>k < n. k < length es \<longrightarrow> le_term (es ! k) = le_term (xs ! k)"
  shows "take n (merge xs es) = take n xs"
  using assms
proof (induction xs es arbitrary: n rule: merge.induct)
  case (3 x xs e es)
  show ?case
  proof (cases n)
    case (Suc m)
    then have "le_term x = le_term e" using "3.prems"(2) by force
    moreover have "take m (merge xs es) = take m xs"
      using calculation "3.prems" Suc by (intro "3.IH") (auto dest: spec [of _ "Suc _"])
    ultimately show ?thesis using Suc by simp
  qed simp
qed auto

lemma number_term: "k < length es \<Longrightarrow> le_term (number i es ! k) = fst (es ! k)"
  by (induction i es arbitrary: k rule: number.induct) (auto simp: nth_Cons split: nat.splits)

section \<open>Committing\<close>

lemma fold_commit_log_entry [simp]: "log_entry_at (fold commit_one is r) i = log_entry_at r i"
  by (auto simp: log_entry_at_def Let_def)

lemma fold_commit_calls:
  "rf_calls (fold commit_one is r) = rf_calls r @ map OnCommit (List.map_filter (log_entry_at r) is)"
proof (induction "is" arbitrary: r)
  case (Cons i "is")
  have "log_entry_at (commit_one i r) j = log_entry_at r j" for j by (auto simp: log_entry_at_def Let_def)
  then show ?case using Cons.IH [of "commit_one i r"]
    by (auto simp: commit_one_def Let_def map_filter_simps split: option.splits)
qed (simp add: map_filter_simps)

text \<open>Applying up to an index hands the new entries to the application, each once, in order.\<close>

lemma map_filter_entries:
  assumes "numbered (rf_snap_index r + 1) (rf_log r)" "rf_snap_index r \<le> m" "n \<le> last_log_index r"
  shows "map le_index (List.map_filter (log_entry_at r) [m + 1..n]) = [m + 1..n]"
  using assms(2)
proof (induction "nat (n - m)" arbitrary: m)
  case 0
  then show ?case by (simp add: map_filter_simps)
next
  case (Suc k)
  then have m: "m + 1 \<le> n" "k = nat (n - (m + 1))" by simp_all
  have pos: "0 \<le> m + 1 - rf_snap_index r - 1" "m + 1 - rf_snap_index r - 1 < int (length (rf_log r))"
    using m(1) Suc.prems assms(3) last_log_index_numbered [OF assms(1)] by simp_all
  then obtain e where e: "log_entry_at r (m + 1) = Some e" "le_index e = m + 1"
    using assms(1) by (auto simp: log_entry_at_def Let_def numbered_def)
  have "[m + 1..n] = (m + 1) # [(m + 1) + 1..n]" using m(1) by (rule upto_rec1)
  then show ?case using Suc.hyps(1) [OF m(2)] Suc.prems e by (simp add: map_filter_simps)
qed

lemma apply_committed_calls:
  "rf_calls (apply_committed n r) =
     rf_calls r @ map OnCommit (List.map_filter (log_entry_at r) [rf_commit r + 1..n])"
  by (simp add: apply_committed_def fold_commit_calls)

lemma advance_spec:
  "maybe_advance_commit_index peers r = r \<or>
   (\<exists>i e. maybe_advance_commit_index peers r = apply_committed i r \<and> rf_commit r < i \<and>
      i \<le> last_log_index r \<and> log_entry_at r i = Some e \<and> le_term e = rf_term r \<and>
      has_quorum (rf_membership r) (acknowledged_by r peers i))"
proof (cases "find (can_commit r peers) (rev [rf_commit r + 1..last_log_index r])")
  case None
  then show ?thesis by (simp add: maybe_advance_commit_index_def)
next
  case (Some i)
  then have "can_commit r peers i" "i \<in> set (rev [rf_commit r + 1..last_log_index r])"
    by (metis find_Some_iff, metis find_Some_iff nth_mem)
  then show ?thesis using Some
    by (auto simp: maybe_advance_commit_index_def can_commit_def split: option.splits)
qed

section \<open>Operations keep the numbering\<close>

lemma log_ok_cong:
  "rf_snap_index r' = rf_snap_index r \<Longrightarrow> rf_commit r' = rf_commit r \<Longrightarrow> rf_log r' = rf_log r \<Longrightarrow>
     log_ok r' \<longleftrightarrow> log_ok r"
  by (simp add: log_ok_def)

lemma log_ok_persist [simp]: "log_ok (persist r) \<longleftrightarrow> log_ok r"
  by (rule log_ok_cong) simp_all

lemma log_ok_step_down [simp]: "log_ok (step_down t r) \<longleftrightarrow> log_ok r"
  by (simp add: step_down_def log_ok_def)

lemma log_ok_propose:
  assumes "log_ok r"
  shows "log_ok (snd (propose cmd r))"
proof -
  have "last_log_index r = rf_snap_index r + int (length (rf_log r))"
    using assms by (intro last_log_index_numbered) (simp add: log_ok_def)
  then show ?thesis using assms by (auto simp: propose_def log_ok_def)
qed

lemma log_ok_apply_committed:
  "log_ok r \<Longrightarrow> rf_snap_index r \<le> n \<Longrightarrow> log_ok (apply_committed n r)"
  by (simp add: log_ok_def)

lemma log_ok_advance: "log_ok r \<Longrightarrow> log_ok (maybe_advance_commit_index peers r)"
  using advance_spec [of peers r] by (auto simp: log_ok_def intro!: log_ok_apply_committed)

lemma log_ok_compact:
  assumes "log_ok r"
  shows "log_ok (snd (compact_log limit data r))"
proof -
  define t where "t = (case limit of None \<Rightarrow> rf_commit r | Some u \<Rightarrow> min u (rf_commit r))"
  have tc: "t \<le> rf_commit r" by (simp add: t_def split: option.splits)
  show ?thesis
  proof (cases "t \<le> rf_snap_index r \<or> log_entry_at r t = None")
    case True
    then show ?thesis using assms by (auto simp: compact_log_def Let_def t_def [symmetric])
  next
    case False
    then obtain e where e: "log_entry_at r t = Some e" "rf_snap_index r < t" by auto
    let ?n = "nat (t - rf_snap_index r)"
    have n: "?n \<le> length (rf_log r)" "int ?n = t - rf_snap_index r"
      using e by (auto simp: log_entry_at_def Let_def split: if_splits)
    have "numbered (rf_snap_index r + 1 + int ?n) (drop ?n (rf_log r))"
      using assms n(1) by (intro numbered_drop) (simp_all add: log_ok_def)
    then have "numbered (t + 1) (drop ?n (rf_log r))" using n(2) by (simp add: algebra_simps)
    then show ?thesis
      using assms e tc by (auto simp: compact_log_def Let_def t_def [symmetric] log_ok_def split: option.splits)
  qed
qed

end
