(* ===== verification/Raft_Props.thy ===== *)
theory Raft_Props
  imports Raft_Election Raft_Log
begin

text \<open>
  The properties of the consensus node and of a cell of nodes, with a cell of three nodes in
  which one wins an election.
\<close>

section \<open>AppendEntries as a merge\<close>

text \<open>Where the entries of a request start in the log, and how many are already compacted.\<close>

definition insert_pos :: "raft \<Rightarrow> int \<Rightarrow> nat" where
  "insert_pos r pvi = nat (max (pvi - rf_snap_index r) 0)"

definition compacted :: "raft \<Rightarrow> int \<Rightarrow> nat" where
  "compacted r pvi = nat (rf_snap_index r - pvi)"

definition merged_log :: "raft \<Rightarrow> int \<Rightarrow> (int \<times> pyval) list \<Rightarrow> log_entry list" where
  "merged_log r pvi es =
     take (insert_pos r pvi) (rf_log r) @
     merge (drop (insert_pos r pvi) (rf_log r))
       (number (rf_snap_index r + 1 + int (insert_pos r pvi)) (drop (compacted r pvi) es))"

lemma append_loop_merged:
  assumes "insert_pos r pvi \<le> length (rf_log r)"
  shows "\<exists>ch. append_loop (rf_snap_index r) (pvi + 1) (map Some es) (rf_log r) False =
     (Inr ch, merged_log r pvi es) \<and> (\<not> ch \<longrightarrow> merged_log r pvi es = rf_log r)"
proof (cases "pvi < rf_snap_index r")
  case True
  then have "insert_pos r pvi = 0" "nat (rf_snap_index r + 1 - (pvi + 1)) = compacted r pvi"
    by (simp_all add: insert_pos_def compacted_def)
  then show ?thesis
    using append_loop_merge [of 0 "rf_log r" "rf_snap_index r + 1" "rf_snap_index r"
        "drop (compacted r pvi) es" False] append_loop_skip [of "pvi + 1" "rf_snap_index r" "map Some es"] True
    by (auto simp: merged_log_def drop_map)
next
  case False
  then have "int (insert_pos r pvi) = pvi - rf_snap_index r" "compacted r pvi = 0"
    by (simp_all add: insert_pos_def compacted_def)
  then show ?thesis
    using append_loop_merge [OF assms, of "pvi + 1" "rf_snap_index r" es False]
    by (auto simp: merged_log_def algebra_simps)
qed

lemma append_accepted:
  assumes ok: "log_ok r" and pvi: "-1 \<le> pvi"
    and acc: "handle_append_entries t l pvi pvt (map Some es) lc r = (Inr (t', True), r')"
  shows "insert_pos r pvi \<le> length (rf_log r)" and "rf_log r' = merged_log r pvi es"
    and "rf_snap_index r' = rf_snap_index r" and "rf_term r' = t' \<and> t' = t"
    and "rf_commit r' =
       (if lc > rf_commit r then min lc (rf_snap_index r + int (length (merged_log r pvi es))) else rf_commit r)"
    and "rf_calls r' = rf_calls r @
       (if lc > rf_commit r then map OnCommit (List.map_filter (log_entry_at r') [rf_commit r + 1..rf_commit r'])
        else [])"
    and "log_ok r'"
proof -
  define r1 where "r1 = (if t > rf_term r
     then persist (r\<lparr>rf_term := t, rf_role := Follower, rf_leader_id := Some l, rf_voted_for := None\<rparr>)
     else r\<lparr>rf_role := Follower, rf_leader_id := Some l\<rparr>)"
  have f1: "rf_log r1 = rf_log r" "rf_snap_index r1 = rf_snap_index r" "rf_commit r1 = rf_commit r"
      "rf_calls r1 = rf_calls r"
    by (simp_all add: r1_def)
  have nt: "\<not> t < rf_term r"
    using acc by (auto simp: handle_append_entries_def)
  then have t1: "rf_term r1 = t" by (auto simp: r1_def)
  let ?rej = "pvi \<ge> 0 \<and> \<not> pvi < rf_snap_index r1 \<and> (pvi > last_log_index r1 \<or> term_at r1 pvi \<noteq> pvt)"
  have eq: "(Inr (t', True), r') =
      (if ?rej then (Inr (rf_term r1, False), r1)
       else
         (case append_loop (rf_snap_index r1) (pvi + 1) (map Some es) (rf_log r1) False of
            (Inl e, log') \<Rightarrow> (Inl e, r1\<lparr>rf_log := log'\<rparr>)
          | (Inr changed, log') \<Rightarrow>
              (let r2 = r1\<lparr>rf_log := log'\<rparr>;
                   r3 = (if changed then persist r2 else r2);
                   r4 = (if lc > rf_commit r3
                         then apply_committed (min lc (last_log_index r3)) r3 else r3)
               in (Inr (rf_term r4, True), r4))))"
    using acc nt unfolding r1_def by (simp only: handle_append_entries_def Let_def if_False)
  have rej: "\<not> ?rej"
  proof
    assume r: ?rej
    show False using eq unfolding if_P [OF r] by simp
  qed
  have num: "numbered (rf_snap_index r + 1) (rf_log r)" "-1 \<le> rf_snap_index r" "rf_snap_index r \<le> rf_commit r"
    using ok by (auto simp: log_ok_def)
  have last1: "last_log_index r1 = rf_snap_index r + int (length (rf_log r))"
    using num f1 last_log_index_numbered [of r1] by simp
  show pos: "insert_pos r pvi \<le> length (rf_log r)"
    using rej f1 last1 pvi num by (auto simp: insert_pos_def)
  obtain ch where loop: "append_loop (rf_snap_index r1) (pvi + 1) (map Some es) (rf_log r1) False =
      (Inr ch, merged_log r pvi es)" "\<not> ch \<longrightarrow> merged_log r pvi es = rf_log r"
    using append_loop_merged [OF pos, of es] f1 by auto
  define r3 where "r3 = (if ch then persist (r1\<lparr>rf_log := merged_log r pvi es\<rparr>) else r1\<lparr>rf_log := merged_log r pvi es\<rparr>)"
  have f3: "rf_log r3 = merged_log r pvi es" "rf_snap_index r3 = rf_snap_index r" "rf_commit r3 = rf_commit r"
      "rf_calls r3 = rf_calls r" "rf_term r3 = t"
    using f1 t1 by (simp_all add: r3_def)
  have r': "r' = (if lc > rf_commit r3 then apply_committed (min lc (last_log_index r3)) r3 else r3)"
    and t': "t' = rf_term r'"
    using eq unfolding if_not_P [OF rej] loop prod.case sum.case Let_def r3_def [symmetric] by simp_all
  have "numbered (rf_snap_index r + 1) (merged_log r pvi es)"
  proof -
    have "numbered (rf_snap_index r + 1 + int (insert_pos r pvi)) (drop (insert_pos r pvi) (rf_log r))"
      using num(1) pos by (rule numbered_drop)
    then show ?thesis
      using num(1) pos unfolding merged_log_def
      by (simp add: numbered_take numbered_merge min_absorb2)
  qed
  then have ok3: "log_ok r3" and last3: "last_log_index r3 = rf_snap_index r + int (length (merged_log r pvi es))"
    using num f3 last_log_index_numbered [of r3] by (simp_all add: log_ok_def)
  show "rf_log r' = merged_log r pvi es" "rf_snap_index r' = rf_snap_index r"
    using r' f3 by simp_all
  show "rf_term r' = t' \<and> t' = t" using r' t' f3 by simp
  show "rf_commit r' =
       (if lc > rf_commit r then min lc (rf_snap_index r + int (length (merged_log r pvi es))) else rf_commit r)"
    using r' f3 last3 by simp
  have "log_entry_at (apply_committed n r3) = log_entry_at r3" for n
    by (intro ext) (auto simp: log_entry_at_def Let_def)
  then show "rf_calls r' = rf_calls r @
       (if lc > rf_commit r then map OnCommit (List.map_filter (log_entry_at r') [rf_commit r + 1..rf_commit r'])
        else [])"
    using r' f3 by (simp add: apply_committed_calls)
  show "log_ok r'"
    using r' ok3 f3 last3 num by (auto intro!: log_ok_apply_committed)
qed

text \<open>Every entry of the request that is not compacted is in the log at its index.\<close>

lemma merged_entry:
  assumes ok: "log_ok r" and pos: "insert_pos r pvi \<le> length (rf_log r)"
    and k: "k < length es" "rf_snap_index r < pvi + 1 + int k"
    and log': "rf_log r' = merged_log r pvi es" "rf_snap_index r' = rf_snap_index r"
  shows "\<exists>e. log_entry_at r' (pvi + 1 + int k) = Some e \<and> le_term e = fst (es ! k)"
proof -
  let ?p = "insert_pos r pvi" and ?c = "compacted r pvi"
  let ?es = "number (rf_snap_index r + 1 + int ?p) (drop ?c es)"
  have kc: "?c \<le> k" using k(2) by (simp add: compacted_def)
  let ?k = "k - ?c"
  have idx: "nat (pvi + 1 + int k - rf_snap_index r - 1) = ?p + ?k"
    using k(2) kc by (simp add: insert_pos_def compacted_def nat_diff_distrib of_nat_diff)
  have kl: "?k < length ?es" using k(1) kc by simp
  have m: "?k < length (merge (drop ?p (rf_log r)) ?es)"
      "le_term (merge (drop ?p (rf_log r)) ?es ! ?k) = le_term (?es ! ?k)"
    using merge_terms [OF kl, of "drop ?p (rf_log r)"] by auto
  have "le_term (?es ! ?k) = fst (drop ?c es ! ?k)" using kl by (intro number_term) simp
  also have "drop ?c es ! ?k = es ! k" using kc k(1) by simp
  finally have tm: "le_term (merge (drop ?p (rf_log r)) ?es ! ?k) = fst (es ! k)" using m(2) by simp
  have nth: "merged_log r pvi es ! (?p + ?k) = merge (drop ?p (rf_log r)) ?es ! ?k"
    using pos by (simp add: merged_log_def nth_append)
  have len: "?p + ?k < length (merged_log r pvi es)"
    using pos m(1) by (simp add: merged_log_def)
  have "pvi + 1 + int k - rf_snap_index r - 1 = int (?p + ?k)" using idx k(2) by simp
  then show ?thesis
    using log' len nth tm by (simp add: log_entry_at_def Let_def nat_int_add)
qed

section \<open>Elections\<close>

definition demo_cell_ops :: "cell_op list" where
  "demo_cell_ops = [Begin ''a'', Request ''a'', Reply ''a'', Request ''a'', Restart ''c'' [''a'', ''b''] False,
                    Reply ''a'', Finish ''a'']"

definition demo_cell :: "cell" where
  "demo_cell = new_cell [(''a'', [''b'', ''c''], False), (''b'', [''a'', ''c''], False), (''c'', [''a'', ''b''], False)]"

definition demo_voted :: "cell" where
  "demo_voted = run cell_step demo_cell demo_cell_ops"

text \<open>
  C8: in a cell of any nodes, whatever requests arrive in whatever order and whichever nodes
  crash and restart, two different nodes are never leaders of the same term, provided the
  elections of that term were counted in configurations with a voter set in common (the same
  configuration, or neighbours of a joint change).
\<close>

theorem one_leader_per_term:
  assumes "c = run cell_step (new_cell specs) ops"
    and "dget (ce_nodes c) i = Some r" "rf_role r = Leader"
    and "dget (ce_nodes c) j = Some s" "i \<noteq> j" "rf_term s = rf_term r"
    and "\<forall>(t, _, cfg, _)\<in>set (ce_elected c). \<forall>(t', _, cfg', _)\<in>set (ce_elected c). t = t' \<longrightarrow> compatible cfg cfg'"
  shows "rf_role s \<noteq> Leader"
proof
  assume lead: "rf_role s = Leader"
  have inv: "cell_inv c" using assms(1) cell_run_inv by simp
  obtain cfg vs where e: "(rf_term r, i, cfg, vs) \<in> set (ce_elected c)"
    using leader_elected [OF inv assms(2,3)] by blast
  obtain cfg' vs' where f: "(rf_term r, j, cfg', vs') \<in> set (ce_elected c)"
    using leader_elected [OF inv assms(4) lead] assms(6) by auto
  have "compatible cfg cfg'" using assms(7) e f by fastforce
  then show False using one_election [OF inv e f] assms(5) by simp
qed

definition demo_follower :: "raft" where
  "demo_follower = the (dget (ce_nodes demo_voted) ''b'')"

theorem one_leader_per_term_witness:
  "rf_role (the (dget (ce_nodes demo_voted) ''a'')) = Leader \<and> rf_role demo_follower \<noteq> Leader"
proof -
  have a: "dget (ce_nodes demo_voted) ''a'' = Some (the (dget (ce_nodes demo_voted) ''a''))"
    "rf_role (the (dget (ce_nodes demo_voted) ''a'')) = Leader"
    "dget (ce_nodes demo_voted) ''b'' = Some demo_follower" "''a'' \<noteq> ''b''"
    "rf_term demo_follower = rf_term (the (dget (ce_nodes demo_voted) ''a''))"
    "\<forall>(t, _, cfg, _)\<in>set (ce_elected demo_voted). \<forall>(t', _, cfg', _)\<in>set (ce_elected demo_voted).
        t = t' \<longrightarrow> compatible cfg cfg'"
    by code_simp+
  show ?thesis
    using one_leader_per_term [OF _ a, of "[(''a'', [''b'', ''c''], False), (''b'', [''a'', ''c''], False),
        (''c'', [''a'', ''b''], False)]" demo_cell_ops] a(2)
    by (simp add: demo_voted_def demo_cell_def)
qed

text \<open>
  No node gives its vote to two candidates in one term, in any run, crashes and restarts
  from disk included.
\<close>

theorem vote_once_per_term:
  assumes "(t, v, x) \<in> set (ce_votes (run cell_step (new_cell specs) ops))"
    and "(t, v, y) \<in> set (ce_votes (run cell_step (new_cell specs) ops))"
  shows "x = y"
  using assms cell_run_inv [of specs ops] by (auto simp: cell_inv_def votes_once_def)

definition demo_rival_ops :: "cell_op list" where
  "demo_rival_ops = demo_cell_ops @ [Begin ''b'', Request ''b'']"

theorem vote_once_per_term_witness:
  "\<exists>x. (1, ''c'', x) \<in> set (ce_votes (run cell_step demo_cell demo_rival_ops)) \<and> x = ''a''"
proof -
  have "(1, ''c'', ''a'') \<in> set (ce_votes (run cell_step demo_cell demo_rival_ops))" by code_simp
  then show ?thesis
    using vote_once_per_term [of 1 "''c''" _ "[(''a'', [''b'', ''c''], False), (''b'', [''a'', ''c''], False),
        (''c'', [''a'', ''b''], False)]" demo_rival_ops "''a''"]
    unfolding demo_cell_def by blast
qed

text \<open>
  Quorums of the same configuration share a voter, and so do a quorum of the old or of
  the new configuration and one of the joint configuration between them.
\<close>

theorem quorums_of_neighbours_meet:
  assumes "voters_ok old" "voters_ok new"
    and "c \<in> {\<lparr>vc_voters = old, vc_joint = None\<rparr>, \<lparr>vc_voters = old, vc_joint = Some new\<rparr>}
         \<and> d \<in> {\<lparr>vc_voters = old, vc_joint = None\<rparr>, \<lparr>vc_voters = old, vc_joint = Some new\<rparr>}
       \<or> c \<in> {\<lparr>vc_voters = old, vc_joint = Some new\<rparr>, \<lparr>vc_voters = new, vc_joint = None\<rparr>}
         \<and> d \<in> {\<lparr>vc_voters = old, vc_joint = Some new\<rparr>, \<lparr>vc_voters = new, vc_joint = None\<rparr>}"
    and "has_quorum c a" "has_quorum d b"
  shows "\<exists>v. v \<in> set a \<and> v \<in> set b"
proof (rule cell.quorums_meet [OF _ _ _ assms(4,5)])
  show "config_ok c" "config_ok d" using assms(1-3) by (auto simp: config_ok_def)
  show "compatible c d" using assms(3) by (auto simp: compatible_def components_def)
qed

theorem quorums_of_neighbours_meet_witness:
  "\<exists>v. v \<in> set [''a'', ''c''] \<and> v \<in> set [''c'', ''d'']"
proof -
  have "voters_ok [''a'', ''b'', ''c'']" "voters_ok [''b'', ''c'', ''d'']"
    "has_quorum \<lparr>vc_voters = [''a'', ''b'', ''c''], vc_joint = None\<rparr> [''a'', ''c'']"
    "has_quorum \<lparr>vc_voters = [''a'', ''b'', ''c''], vc_joint = Some [''b'', ''c'', ''d'']\<rparr> [''c'', ''d'', ''b'', ''a'']"
    by code_simp+
  then have "\<exists>v. v \<in> set [''a'', ''c''] \<and> v \<in> set [''c'', ''d'', ''b'', ''a'']"
    using quorums_of_neighbours_meet [of "[''a'', ''b'', ''c'']" "[''b'', ''c'', ''d'']"] by blast
  then show ?thesis by (intro exI [of _ "''c''"]) simp
qed

section \<open>Replication\<close>

definition demo_entry :: "int \<Rightarrow> int \<Rightarrow> log_entry" where
  "demo_entry t i = \<lparr>le_term = t, le_index = i, le_command = PDict []\<rparr>"

definition demo_node :: "raft" where
  "demo_node = (case new_raft ''b'' [''a''] False (Some empty_disk) of
      Inr r \<Rightarrow> r\<lparr>rf_term := 2, rf_log := [demo_entry 1 0, demo_entry 1 1, demo_entry 2 2], rf_commit := 0\<rparr>)"

text \<open>
  C9: a node that accepts an AppendEntries request stores the merge of its log with the
  entries of the request: what agrees is kept, the first conflict and all that follows is
  replaced, and every entry of the request that is not compacted is in the log at its index.
\<close>

theorem append_entries_merges:
  assumes "log_ok r" "-1 \<le> pvi"
    and "handle_append_entries t l pvi pvt (map Some es) lc r = (Inr (t', True), r')"
  shows "rf_log r' = merged_log r pvi es \<and> log_ok r' \<and>
     (\<forall>k < length es. rf_snap_index r < pvi + 1 + int k \<longrightarrow>
        (\<exists>e. log_entry_at r' (pvi + 1 + int k) = Some e \<and> le_term e = fst (es ! k)))"
  using append_accepted [OF assms] merged_entry [OF assms(1)] by blast

theorem append_entries_merges_witness:
  "rf_log (snd (handle_append_entries 3 ''a'' 0 1 (map Some [(1, PDict []), (3, PNone)]) 1 demo_node)) =
     merged_log demo_node 0 [(1, PDict []), (3, PNone)]"
proof -
  let ?h = "handle_append_entries 3 ''a'' 0 1 (map Some [(1, PDict []), (3, PNone)]) 1 demo_node"
  have ok: "log_ok demo_node"
    unfolding log_ok_def numbered_def by code_simp
  have "fst ?h = Inr (3, True)" by code_simp
  then have h: "?h = (Inr (3, True), snd ?h)" by (metis prod.collapse)
  show ?thesis using append_entries_merges [OF ok _ h] by simp
qed

text \<open>
  C10: when the entries of an accepted request agree with the committed part of the log, the
  committed entries stay, the commit index does not fall, and the entries committed by the
  request are handed to the application once each in the order of their indices.
\<close>

theorem append_entries_keeps_committed:
  assumes ok: "log_ok r" and pvi: "-1 \<le> pvi"
    and com: "rf_commit r \<le> rf_snap_index r + int (length (rf_log r))"
    and acc: "handle_append_entries t l pvi pvt (map Some es) lc r = (Inr (t', True), r')"
    and agree: "\<forall>k < length es. pvi + 1 + int k \<le> rf_commit r \<longrightarrow> rf_snap_index r < pvi + 1 + int k \<longrightarrow>
        fst (es ! k) = term_at r (pvi + 1 + int k)"
  shows "take (nat (rf_commit r - rf_snap_index r)) (rf_log r') =
           take (nat (rf_commit r - rf_snap_index r)) (rf_log r) \<and>
     rf_commit r \<le> rf_commit r' \<and>
     (\<exists>new. rf_calls r' = rf_calls r @ map OnCommit new \<and>
            map le_index new = [rf_commit r + 1..rf_commit r'])"
proof -
  note A = append_accepted [OF ok pvi acc]
  let ?p = "insert_pos r pvi" and ?n = "nat (rf_commit r - rf_snap_index r)"
  let ?old = "drop ?p (rf_log r)" and ?es = "number (rf_snap_index r + 1 + int ?p) (drop (compacted r pvi) es)"
  have snap: "-1 \<le> rf_snap_index r" "rf_snap_index r \<le> rf_commit r" using ok by (auto simp: log_ok_def)
  have n: "?n \<le> length (rf_log r)" using com snap by simp
  have keep: "take (?n - ?p) (merge ?old ?es) = take (?n - ?p) ?old"
  proof (rule merge_keeps, goal_cases)
    case 1
    then show ?case using n by simp
  next
    case 2
    show ?case
    proof (intro allI impI)
      fix k assume k: "k < ?n - ?p" "k < length ?es"
      let ?j = "k + compacted r pvi"
      have j: "?j < length es" using k(2) by simp
      have idx: "pvi + 1 + int ?j = rf_snap_index r + 1 + int (?p + k)"
        by (simp add: insert_pos_def compacted_def)
      have le: "pvi + 1 + int ?j \<le> rf_commit r" using k(1) snap unfolding idx by simp
      have "le_term (?es ! k) = fst (es ! ?j)"
        using k(2) by (simp add: number_term add.commute)
      also have "\<dots> = term_at r (pvi + 1 + int ?j)"
        using agree j le idx by simp
      also have "\<dots> = le_term (?old ! k)"
      proof -
        have "?p + k < length (rf_log r)" using k(1) n by simp
        then show ?thesis unfolding idx using A(1) by (simp add: term_at_def log_entry_at_def Let_def nat_int_add)
      qed
      finally show "le_term (?es ! k) = le_term (?old ! k)" .
    qed
  qed
  have "take ?n (merged_log r pvi es) = take ?n (rf_log r)"
  proof -
    have "take ?n (merged_log r pvi es) = take ?n (take ?p (rf_log r)) @ take (?n - ?p) (merge ?old ?es)"
      using A(1) by (simp add: merged_log_def)
    also have "\<dots> = take ?n (take ?p (rf_log r) @ ?old)" unfolding keep using A(1)
      by (simp only: take_append length_take min_absorb2)
    finally show ?thesis by simp
  qed
  then have kept: "take ?n (rf_log r') = take ?n (rf_log r)" using A(2) by simp
  have len: "?n \<le> length (merged_log r pvi es)"
    using kept n A(2) by (metis length_take min.absorb2 min.cobounded1)
  have le: "rf_commit r \<le> rf_commit r'" using A(5) len snap by auto
  have num': "numbered (rf_snap_index r' + 1) (rf_log r')" using A(7) by (simp add: log_ok_def)
  have last': "last_log_index r' = rf_snap_index r + int (length (merged_log r pvi es))"
    using last_log_index_numbered [OF num'] A(2,3) by simp
  have "\<exists>new. rf_calls r' = rf_calls r @ map OnCommit new \<and> map le_index new = [rf_commit r + 1..rf_commit r']"
  proof (cases "lc > rf_commit r")
    case True
    have "map le_index (List.map_filter (log_entry_at r') [rf_commit r + 1..rf_commit r']) =
        [rf_commit r + 1..rf_commit r']"
      using A(3,5) True snap last' by (intro map_filter_entries [OF num']) auto
    then show ?thesis using A(6) True by auto
  next
    case False
    then show ?thesis using A(5,6) by simp
  qed
  then show ?thesis using kept le by blast
qed

theorem append_entries_keeps_committed_witness:
  "rf_commit demo_node \<le> rf_commit (snd (handle_append_entries 3 ''a'' 0 1 (map Some [(3, PNone)]) 1 demo_node))"
proof -
  let ?h = "handle_append_entries 3 ''a'' 0 1 (map Some [(3, PNone)]) 1 demo_node"
  have ok: "log_ok demo_node"
    unfolding log_ok_def numbered_def by code_simp
  have c: "rf_commit demo_node \<le> rf_snap_index demo_node + int (length (rf_log demo_node))" "rf_commit demo_node = 0"
    by code_simp+
  have "fst ?h = Inr (3, True)" by code_simp
  then have h: "?h = (Inr (3, True), snd ?h)" by (metis prod.collapse)
  show ?thesis using append_entries_keeps_committed [OF ok _ c(1) h] c(2) by simp
qed

text \<open>
  C11: a leader's heartbeat round commits only an entry of its own term that a quorum of its
  configuration, itself included, has acknowledged, and never lowers the commit index.
\<close>

theorem leader_commits_by_quorum:
  "rf_commit (maybe_advance_commit_index peers r) = rf_commit r \<or>
   rf_commit r < rf_commit (maybe_advance_commit_index peers r) \<and>
   (\<exists>e. log_entry_at r (rf_commit (maybe_advance_commit_index peers r)) = Some e \<and> le_term e = rf_term r) \<and>
   has_quorum (rf_membership r) (acknowledged_by r peers (rf_commit (maybe_advance_commit_index peers r)))"
  using advance_spec [of peers r] by auto

section \<open>Membership\<close>

text \<open>A voter configuration survives the round trip through its payload.\<close>

theorem membership_payload_roundtrip:
  assumes "make_config vs joint = Inr c"
  shows "from_payload (PDict (to_payload c)) = Inr c"
  using payload_roundtrip [OF make_config_ok [OF assms]] .

theorem membership_payload_roundtrip_witness:
  "from_payload (PDict (to_payload \<lparr>vc_voters = [''a'', ''b''], vc_joint = Some [''b'']\<rparr>)) =
     Inr \<lparr>vc_voters = [''a'', ''b''], vc_joint = Some [''b'']\<rparr>"
proof -
  have "make_config [PStr ''b'', PStr ''a''] (Some [PStr ''b'']) =
      Inr \<lparr>vc_voters = [''a'', ''b''], vc_joint = Some [''b'']\<rparr>" by code_simp
  then show ?thesis by (rule membership_payload_roundtrip)
qed

text \<open>
  Once the joint phase of a membership change has not been committed in time, every
  later membership change this leader is asked for is refused.
\<close>

theorem stalled_change_blocks_later_ones:
  assumes "rf_role r = Leader" "vc_joint (rf_membership r) = None" "rf_pending_joint r = None"
    and "make_config (map PStr ids) None = Inr cand" "vc_voters cand \<noteq> vc_voters (rf_membership r)"
    and "propose_membership_change ids [] rounds2 r = (b, r')"
  shows "\<not> b \<and> propose_membership_change ids' rounds3 rounds4 r' = (False, r')"
proof -
  let ?r1 = "r\<lparr>rf_pending_joint := Some (vc_voters cand)\<rparr>"
  let ?cmd = "membership_command ''raft_membership_joint'' (vc_voters (rf_membership r)) (vc_voters cand)"
  have p: "propose_and_wait ?cmd [] ?r1 = (False, snd (propose ?cmd ?r1))"
    using assms(1) by (simp add: propose_and_wait_def propose_def)
  have "propose_membership_change ids [] rounds2 r = (False, snd (propose ?cmd ?r1))"
    using assms(1-5) p by (simp add: propose_membership_change_def Let_def)
  then have "\<not> b" "rf_pending_joint r' \<noteq> None"
    using assms(6) by (auto simp: propose_def split: if_splits)
  then show ?thesis
    by (auto simp: propose_membership_change_def Let_def split: sum.splits)
qed

definition demo_leader :: "raft" where
  "demo_leader = the (dget (ce_nodes demo_voted) ''a'')"

theorem stalled_change_blocks_later_ones_witness:
  "fst (propose_membership_change [''a'', ''b''] [] []
     (snd (propose_membership_change [''a'', ''b''] [] [] demo_leader))) = False"
proof -
  let ?p = "propose_membership_change [''a'', ''b''] [] [] demo_leader"
  have l: "rf_role demo_leader = Leader" "vc_joint (rf_membership demo_leader) = None"
    "rf_pending_joint demo_leader = None"
    "make_config (map PStr [''a'', ''b'']) None = Inr \<lparr>vc_voters = [''a'', ''b''], vc_joint = None\<rparr>"
    "vc_voters \<lparr>vc_voters = [''a'', ''b''], vc_joint = None\<rparr> \<noteq> vc_voters (rf_membership demo_leader)"
    by code_simp+
  have "?p = (fst ?p, snd ?p)" by simp
  from stalled_change_blocks_later_ones [OF l this, of "[''a'', ''b'']" "[]" "[]"]
  show ?thesis by simp
qed

text \<open>
  A snapshot whose membership payload is malformed is on disk before the payload is
  rejected, and a node that restarts from that disk cannot be constructed.
\<close>

theorem bad_snapshot_prevents_restart:
  assumes "rf_disk r = Some d" "\<not> t < rf_term r" "rf_snap_index r < lii"
    and "from_payload m = Inl e" "is_dict m" "truthy m"
    and "handle_install_snapshot t l lii lit data m r = (res, r')"
    and "make_config (map PStr (peers @ [rf_id r])) None = Inr c"
  shows "res = Inl (BadMembership e) \<and> new_raft (rf_id r) peers strict (rf_disk r') = Inl e"
proof -
  define r2 where "r2 = (if t > rf_term r then step_down t r else r)\<lparr>rf_role := Follower, rf_leader_id := Some l\<rparr>"
  define r3 where "r3 = r2\<lparr>rf_log := filter (\<lambda>e. le_index e > lii) (rf_log r2), rf_snap_index := lii,
       rf_snap_term := lit, rf_commit := (if rf_commit r2 < lii then lii else rf_commit r2)\<rparr>"
  have f2: "rf_snap_index r2 = rf_snap_index r" "rf_disk r2 = None \<longleftrightarrow> rf_disk r = None"
    by (simp_all add: r2_def step_down_def)
  then obtain d2 where d2: "rf_disk r3 = Some d2" using assms(1) by (auto simp: r3_def)
  define r4 where "r4 = persist (r3\<lparr>rf_disk := Some (storage_save_snapshot lii lit data (Some m) d2)\<rparr>)"
  have m: "m \<noteq> PNone" using assms(5) by (auto simp: is_dict_def)
  have "(res, r') =
      (if lii \<le> rf_snap_index r2 then (Inr (rf_term r2, True), r2)
       else let s4 = (case rf_disk r3 of None \<Rightarrow> r3
              | Some d \<Rightarrow> persist (r3\<lparr>rf_disk := Some (storage_save_snapshot lii lit data
                   (Some (if truthy m then m else PDict (to_payload (rf_membership r3)))) d)\<rparr>))
            in case (if m = PNone then Inr s4
                     else case from_payload m of Inl e \<Rightarrow> Inl e | Inr c \<Rightarrow> Inr (s4\<lparr>rf_membership := c\<rparr>)) of
                 Inl e \<Rightarrow> (Inl (BadMembership e), s4)
               | Inr r5 \<Rightarrow> (Inr (rf_term r5, True), r5\<lparr>rf_calls := rf_calls r5 @ [OnRestore data]\<rparr>))"
    using assms(2,7) unfolding r3_def r2_def by (simp only: handle_install_snapshot_def Let_def if_False)
  then have "(res, r') = (Inl (BadMembership e), r4)"
    using assms(3,4,6) f2 d2 m by (simp add: Let_def r4_def)
  moreover have "rf_disk r4 = Some (storage_save (rf_term r3) (rf_voted_for r3) (rf_log r3) (rf_commit r3)
      (storage_save_snapshot lii lit data (Some m) d2))"
    by (simp add: r4_def persist_def)
  ultimately show ?thesis
    using assms(4,5,8)
    by (simp add: new_raft_def load_persisted_state_def Let_def storage_save_def storage_save_snapshot_def
        load_snapshot_membership_def)
qed

theorem bad_snapshot_prevents_restart_witness:
  "new_raft ''b'' [''a''] False
     (rf_disk (snd (handle_install_snapshot 3 ''a'' 5 2 PNone (PDict [(''voters'', PList [])]) demo_node))) =
     Inl MembershipError"
proof -
  let ?m = "PDict [(''voters'', PList [])]"
  let ?h = "handle_install_snapshot 3 ''a'' 5 2 PNone ?m demo_node"
  have d: "rf_disk demo_node = Some empty_disk" "\<not> 3 < rf_term demo_node" "rf_snap_index demo_node < 5"
    "from_payload ?m = Inl MembershipError" "is_dict ?m" "truthy ?m" "rf_id demo_node = ''b''"
    "make_config (map PStr ([''a''] @ [rf_id demo_node])) None = Inr \<lparr>vc_voters = [''a'', ''b''], vc_joint = None\<rparr>"
    by code_simp+
  have h: "?h = (fst ?h, snd ?h)" by simp
  show ?thesis
    using bad_snapshot_prevents_restart [OF d(1-6) h d(8), of False] d(7) by simp
qed

end
