(* ===== verification/Cluster_Node.thy ===== *)
theory Cluster_Node
  imports Raft_Log
begin

text \<open>
  The node of a cluster (\<open>cluster_network/raft_cluster_node.py\<close>): the three state machines
  fed with committed commands, the handlers that check the sender of a request against the
  certificate, the operations that propose commands, recovery, and the coordinator that runs
  a task only under a committed lease (\<open>cluster_network/task_coordinator.py\<close>).

  A command or body is a Python value. A conversion that raises is \<open>None\<close>; a numeric string,
  which no caller produces, is treated as a value that does not convert. The trust store is
  the list of the transport identifiers it knows. A round of heartbeats is the function that
  gives the answer of each peer.
\<close>

section \<open>Conversions\<close>

definition py_int :: "pyval \<Rightarrow> int option" where
  "py_int v =
     (case v of PInt i \<Rightarrow> Some i | PBool b \<Rightarrow> Some (if b then 1 else 0)
      | PFloat x \<Rightarrow> Some (if 0 \<le> x then \<lfloor>x\<rfloor> else \<lceil>x\<rceil>) | _ \<Rightarrow> None)"

definition py_float :: "pyval \<Rightarrow> real option" where
  "py_float v =
     (case v of PInt i \<Rightarrow> Some (real_of_int i) | PBool b \<Rightarrow> Some (if b then 1 else 0)
      | PFloat x \<Rightarrow> Some x | _ \<Rightarrow> None)"

definition pget_or :: "pyval \<Rightarrow> (string, pyval) dict \<Rightarrow> string \<Rightarrow> pyval" where
  "pget_or def d k = (case dget d k of None \<Rightarrow> def | Some v \<Rightarrow> v)"

definition as_dict :: "pyval \<Rightarrow> (string, pyval) dict option" where
  "as_dict v = (case v of PDict d \<Rightarrow> Some d | _ \<Rightarrow> None)"

section \<open>Replicated decisions\<close>

type_synonym decisions = "(int, (string, pyval) dict) dict"

definition decision_apply :: "int \<Rightarrow> (string, pyval) dict \<Rightarrow> decisions \<Rightarrow> decisions" where
  "decision_apply i cmd s = dset i cmd s"

definition decision_snapshot :: "decisions \<Rightarrow> (string, pyval) dict" where
  "decision_snapshot s =
     [(''commands'', PList (map (\<lambda>(i, c). PDict [(''index'', PInt i), (''command'', PDict c)]) s))]"

definition decision_item :: "pyval \<Rightarrow> (int \<times> (string, pyval) dict) option" where
  "decision_item v =
     (case v of
        PDict d \<Rightarrow>
          (case (pget d ''index'', pget d ''command'') of
             (PInt i, PDict c) \<Rightarrow> Some (i, c)
           | (PBool b, PDict c) \<Rightarrow> Some (if b then 1 else 0, c)
           | _ \<Rightarrow> None)
      | _ \<Rightarrow> None)"

definition decision_restore :: "(string, pyval) dict \<Rightarrow> decisions" where
  "decision_restore d =
     (case pget_or (PList []) d ''commands'' of
        PList l \<Rightarrow> fold (\<lambda>(i, c). dset i c) (List.map_filter decision_item l) []
      | _ \<Rightarrow> [])"

section \<open>Task leases\<close>

record task_leases =
  tl_tasks :: "(string, (string, pyval) dict) dict"
  tl_evidence :: "(string, (string, pyval) dict) dict"

definition lease_apply :: "(string, pyval) dict \<Rightarrow> task_leases \<Rightarrow> task_leases option" where
  "lease_apply cmd s =
     (let kind = pget cmd ''kind''; tid = pget cmd ''task_id''
      in if kind = PStr ''task_assign'' \<and> is_str tid then
           (case (py_float (pget_or (PInt 0) cmd ''lease_until''), py_int (pget_or (PInt 1) cmd ''attempt'')) of
              (Some u, Some n) \<Rightarrow>
                Some (s\<lparr>tl_tasks := dset (str_of tid)
                  [(''status'', PStr ''leased''), (''assignee'', pget cmd ''assignee''),
                   (''lease_until'', PFloat u), (''attempt'', PInt n)] (tl_tasks s)\<rparr>)
            | _ \<Rightarrow> None)
         else if kind = PStr ''task_complete'' \<and> is_str tid \<and> dget (tl_tasks s) (str_of tid) \<noteq> None then
           Some (s\<lparr>tl_tasks := dmod (str_of tid) (dset ''status'' (PStr ''completed'')) (tl_tasks s)\<rparr>)
         else if kind = PStr ''task_requeue'' \<and> is_str tid \<and> dget (tl_tasks s) (str_of tid) \<noteq> None then
           Some (s\<lparr>tl_tasks := dmod (str_of tid)
                (\<lambda>t. dset ''lease_until'' (PInt 0) (dset ''assignee'' PNone (dset ''status'' (PStr ''pending'') t)))
                (tl_tasks s)\<rparr>)
         else if kind = PStr ''evidence_publish'' \<and> is_str (pget cmd ''evidence_id'') then
           Some (s\<lparr>tl_evidence := dset (str_of (pget cmd ''evidence_id''))
                (List.map_filter (\<lambda>k. map_option (Pair k) (dget cmd k)) [''summary'', ''source_hash'', ''confidence''])
                (tl_evidence s)\<rparr>)
         else Some s)"

definition expired_task_ids :: "real \<Rightarrow> task_leases \<Rightarrow> string list" where
  "expired_task_ids now s =
     map fst (filter (\<lambda>(k, t). pget t ''status'' = PStr ''leased'' \<and>
       (case py_float (pget_or (PInt 0) t ''lease_until'') of Some u \<Rightarrow> u \<le> now | None \<Rightarrow> False)) (tl_tasks s))"

definition dicts_value :: "(string, (string, pyval) dict) dict \<Rightarrow> pyval" where
  "dicts_value d = PDict (map (\<lambda>(k, v). (k, PDict v)) d)"

definition dicts_of :: "pyval \<Rightarrow> (string, (string, pyval) dict) dict" where
  "dicts_of v =
     (case v of PDict d \<Rightarrow> List.map_filter (\<lambda>(k, x). map_option (Pair k) (as_dict x)) d | _ \<Rightarrow> [])"

definition lease_snapshot :: "task_leases \<Rightarrow> (string, pyval) dict" where
  "lease_snapshot s = [(''tasks'', dicts_value (tl_tasks s)), (''approved_evidence'', dicts_value (tl_evidence s))]"

definition lease_restore :: "(string, pyval) dict \<Rightarrow> task_leases" where
  "lease_restore d =
     \<lparr>tl_tasks = dicts_of (pget_or (PDict []) d ''tasks''),
      tl_evidence = dicts_of (pget_or (PDict []) d ''approved_evidence'')\<rparr>"

definition leased_count :: "task_leases \<Rightarrow> nat" where
  "leased_count s = length (filter (\<lambda>t. pget t ''status'' = PStr ''leased'') (dvals (tl_tasks s)))"

definition lease_status :: "task_leases \<Rightarrow> (string, pyval) dict" where
  "lease_status s =
     [(''tracked_tasks'', PInt (int (length (tl_tasks s)))),
      (''leased_tasks'', PInt (int (leased_count s))),
      (''approved_evidence_summaries'', PInt (int (length (tl_evidence s))))]"

section \<open>Governance decisions\<close>

type_synonym governance = "(string, (string, pyval) dict) dict"

definition allowed_statuses :: "string list" where
  "allowed_statuses = [''proposed'', ''approved'', ''rejected'', ''executed'']"

definition governance_record :: "int \<Rightarrow> (string, pyval) dict \<Rightarrow> (string, pyval) dict" where
  "governance_record i cmd =
     map (\<lambda>k. (k, pget cmd k))
       (filter (\<lambda>k. is_str (pget cmd k)) [''action'', ''status'', ''actor_hash'', ''subject_hash''])
     @ [(''committed_index'', PInt i)]"

definition governance_apply :: "int \<Rightarrow> (string, pyval) dict \<Rightarrow> governance \<Rightarrow> governance" where
  "governance_apply i cmd s =
     (if pget cmd ''kind'' \<noteq> PStr ''governance_decision'' \<or> \<not> is_str (pget cmd ''decision_id'') then s
      else if \<not> (is_str (pget cmd ''status'') \<and> str_of (pget cmd ''status'') \<in> set allowed_statuses) then s
      else dset (str_of (pget cmd ''decision_id'')) (governance_record i cmd) s)"

definition governance_snapshot :: "governance \<Rightarrow> (string, pyval) dict" where
  "governance_snapshot s = [(''governance_decisions'', dicts_value s)]"

definition governance_restore :: "(string, pyval) dict \<Rightarrow> governance" where
  "governance_restore d = dicts_of (pget_or (PDict []) d ''governance_decisions'')"

section \<open>The node\<close>

record cluster_node =
  cn_raft :: raft
  cn_decisions :: decisions
  cn_tasks :: task_leases
  cn_governance :: governance
  cn_liveness :: "(string, bool \<times> real) dict"
  cn_planner :: "planner option"
  cn_standbys :: "string list"
  cn_trusted :: "string list"

text \<open>\<open>_apply_commit\<close>; \<open>None\<close> when a state machine raises.\<close>

definition apply_commit :: "log_entry \<Rightarrow> cluster_node \<Rightarrow> cluster_node option" where
  "apply_commit e n =
     (case as_dict (le_command e) of
        None \<Rightarrow> None
      | Some cmd \<Rightarrow>
          (case lease_apply cmd (cn_tasks n) of
             None \<Rightarrow> None
           | Some ts \<Rightarrow>
               Some (n\<lparr>cn_decisions := decision_apply (le_index e) cmd (cn_decisions n), cn_tasks := ts,
                       cn_governance := governance_apply (le_index e) cmd (cn_governance n)\<rparr>)))"

definition node_snapshot :: "cluster_node \<Rightarrow> (string, pyval) dict" where
  "node_snapshot n =
     decision_snapshot (cn_decisions n) @ lease_snapshot (cn_tasks n) @ governance_snapshot (cn_governance n)"

definition node_restore :: "(string, pyval) dict \<Rightarrow> cluster_node \<Rightarrow> cluster_node" where
  "node_restore d n =
     n\<lparr>cn_decisions := decision_restore d, cn_tasks := lease_restore d, cn_governance := governance_restore d\<rparr>"

text \<open>\<open>on_raft f n\<close>: an operation of the consensus node.\<close>

definition on_raft :: "(raft \<Rightarrow> 'a \<times> raft) \<Rightarrow> cluster_node \<Rightarrow> 'a \<times> cluster_node" where
  "on_raft f n = (let p = f (cn_raft n) in (fst p, n\<lparr>cn_raft := snd p\<rparr>))"

section \<open>Requests\<close>

definition sender_matches :: "(string, pyval) dict \<Rightarrow> string option \<Rightarrow> string \<Rightarrow> bool" where
  "sender_matches body cn key = (case cn of None \<Rightarrow> False | Some s \<Rightarrow> pget body key = PStr s)"

definition int_field :: "(string, pyval) dict \<Rightarrow> string \<Rightarrow> int option" where
  "int_field body k = Option.bind (dget body k) py_int"

definition refusal :: "cluster_node \<Rightarrow> string \<Rightarrow> string \<Rightarrow> (string, pyval) dict" where
  "refusal n field msg =
     [(''term'', PInt (rf_term (cn_raft n))), (field, PBool False), (''error'', PStr msg)]"

definition on_request_vote ::
    "(string, pyval) dict \<Rightarrow> string option \<Rightarrow> cluster_node \<Rightarrow> (string, pyval) dict \<times> cluster_node" where
  "on_request_vote body cn n =
     (if \<not> sender_matches body cn ''candidate_id'' then (refusal n ''vote_granted'' ''mTLS sender mismatch'', n)
      else
        (case (int_field body ''term'', int_field body ''last_log_index'', int_field body ''last_log_term'') of
           (Some t, Some i, Some lt) \<Rightarrow>
             (case on_raft (handle_request_vote t (str_of (pget body ''candidate_id'')) i lt) n of
                ((t', g), n') \<Rightarrow> ([(''term'', PInt t'), (''vote_granted'', PBool g)], n'))
         | _ \<Rightarrow> (refusal n ''vote_granted'' ''invalid vote request'', n)))"

text \<open>The entries of a request as the log takes them.\<close>

definition request_entry :: "pyval \<Rightarrow> (int \<times> pyval) option" where
  "request_entry v =
     (case v of
        PDict d \<Rightarrow> (case (dget d ''term'', dget d ''command'') of (Some (PInt t), Some c) \<Rightarrow> Some (t, c) | _ \<Rightarrow> None)
      | _ \<Rightarrow> None)"

definition request_entries :: "pyval \<Rightarrow> (int \<times> pyval) option list" where
  "request_entries v = (case v of PList l \<Rightarrow> map request_entry l | _ \<Rightarrow> [None])"

definition append_answer ::
    "string \<Rightarrow> (raft_error + int \<times> bool) \<times> cluster_node \<Rightarrow> (string, pyval) dict \<times> cluster_node" where
  "append_answer msg p =
     (case p of
        (Inl _, n') \<Rightarrow> (refusal n' ''success'' msg, n')
      | (Inr (t', ok), n') \<Rightarrow> ([(''term'', PInt t'), (''success'', PBool ok)], n'))"

definition on_append_entries ::
    "(string, pyval) dict \<Rightarrow> string option \<Rightarrow> cluster_node \<Rightarrow> (string, pyval) dict \<times> cluster_node" where
  "on_append_entries body cn n =
     (if \<not> sender_matches body cn ''leader_id'' then (refusal n ''success'' ''mTLS sender mismatch'', n)
      else
        (case (int_field body ''term'', int_field body ''prev_log_index'', int_field body ''prev_log_term'',
               dget body ''entries'', int_field body ''leader_commit'') of
           (Some t, Some pvi, Some pvt, Some es, Some lc) \<Rightarrow>
             append_answer ''invalid append request''
               (on_raft (handle_append_entries t (str_of (pget body ''leader_id'')) pvi pvt (request_entries es) lc) n)
         | _ \<Rightarrow> (refusal n ''success'' ''invalid append request'', n)))"

definition on_install_snapshot ::
    "(string, pyval) dict \<Rightarrow> string option \<Rightarrow> cluster_node \<Rightarrow> (string, pyval) dict \<times> cluster_node" where
  "on_install_snapshot body cn n =
     (if \<not> sender_matches body cn ''leader_id'' then (refusal n ''success'' ''mTLS sender mismatch'', n)
      else
        (case (int_field body ''term'', int_field body ''last_included_index'',
               int_field body ''last_included_term'', dget body ''snapshot_data'') of
           (Some t, Some i, Some lt, Some data) \<Rightarrow>
             append_answer ''invalid snapshot request''
               (on_raft (handle_install_snapshot t (str_of (pget body ''leader_id'')) i lt data
                          (pget body ''membership'')) n)
         | _ \<Rightarrow> (refusal n ''success'' ''invalid snapshot request'', n)))"

section \<open>Proposals\<close>

type_synonym round = "string \<Rightarrow> (int \<times> bool) option"

definition assign_command :: "real \<Rightarrow> string \<Rightarrow> string \<Rightarrow> real \<Rightarrow> pyval" where
  "assign_command now tid assignee secs =
     PDict [(''kind'', PStr ''task_assign''), (''task_id'', PStr tid), (''assignee'', PStr assignee),
            (''lease_until'', PFloat (now + max 1 secs)), (''attempt'', PInt 1)]"

definition assign_task :: "real \<Rightarrow> string \<Rightarrow> string \<Rightarrow> real \<Rightarrow> round list \<Rightarrow> cluster_node \<Rightarrow> bool \<times> cluster_node" where
  "assign_task now tid assignee secs rounds n =
     on_raft (propose_and_wait (assign_command now tid assignee secs) rounds) n"

definition complete_command :: "string \<Rightarrow> pyval" where
  "complete_command tid = PDict [(''kind'', PStr ''task_complete''), (''task_id'', PStr tid)]"

definition complete_lease :: "string \<Rightarrow> round list \<Rightarrow> cluster_node \<Rightarrow> bool \<times> cluster_node" where
  "complete_lease tid rounds n = on_raft (propose_and_wait (complete_command tid) rounds) n"

definition requeue_command :: "string \<Rightarrow> string \<Rightarrow> pyval" where
  "requeue_command tid reason =
     PDict [(''kind'', PStr ''task_requeue''), (''task_id'', PStr tid), (''reason'', PStr reason)]"

definition propose_all :: "pyval list \<Rightarrow> cluster_node \<Rightarrow> cluster_node" where
  "propose_all cmds n = fold (\<lambda>c m. snd (on_raft (propose c) m)) cmds n"

definition requeue_expired_tasks :: "real \<Rightarrow> cluster_node \<Rightarrow> cluster_node" where
  "requeue_expired_tasks now n =
     propose_all (map (\<lambda>t. requeue_command t ''lease_expired'') (expired_task_ids now (cn_tasks n))) n"

definition voters_of :: "cluster_node \<Rightarrow> string list" where
  "voters_of n = vc_voters (rf_membership (cn_raft n))"

definition admit_trusted_peer :: "string \<Rightarrow> round list \<Rightarrow> round list \<Rightarrow> cluster_node \<Rightarrow> bool \<times> cluster_node" where
  "admit_trusted_peer p rs1 rs2 n =
     (if p \<notin> set (cn_trusted n) then (False, n)
      else on_raft (propose_membership_change (canon (p # voters_of n)) rs1 rs2) n)"

definition register_trusted_learner :: "string \<Rightarrow> cluster_node \<Rightarrow> bool \<times> cluster_node" where
  "register_trusted_learner p n =
     (if p \<notin> set (cn_trusted n) then (False, n) else on_raft (register_learner p) n)"

text \<open>\<open>all(register or is_learner)\<close> stops at the first standby that is neither.\<close>

fun register_standbys :: "string list \<Rightarrow> cluster_node \<Rightarrow> bool \<times> cluster_node" where
  "register_standbys [] n = (True, n)"
| "register_standbys (p # ps) n =
     (case on_raft (register_learner p) n of
        (ok, n') \<Rightarrow> if ok \<or> is_learner p (cn_raft n') then register_standbys ps n' else (False, n'))"

text \<open>The standbys are a set: the order in which they are registered is the list's.\<close>

definition configure_automatic_recovery ::
    "string list \<Rightarrow> int \<Rightarrow> real \<Rightarrow> cluster_node \<Rightarrow> bool option \<times> cluster_node" where
  "configure_automatic_recovery standbys threshold minimum n =
     (let ids = remdups standbys
      in if ids = [] \<or> (\<exists>p\<in>set ids. p \<notin> set (cn_trusted n)) then (Some False, n)
         else case new_planner threshold minimum of
                None \<Rightarrow> (None, n)
              | Some pl \<Rightarrow> apfst Some (register_standbys ids (n\<lparr>cn_planner := Some pl, cn_standbys := ids\<rparr>)))"

definition peer_alive :: "cluster_node \<Rightarrow> string \<Rightarrow> bool" where
  "peer_alive n p = (case dget (cn_liveness n) p of None \<Rightarrow> False | Some (a, _) \<Rightarrow> a)"

definition replace_failed_peer ::
    "string \<Rightarrow> string \<Rightarrow> round list \<Rightarrow> round list \<Rightarrow> cluster_node \<Rightarrow> bool \<times> cluster_node" where
  "replace_failed_peer failed standby rs1 rs2 n =
     (if standby \<notin> set (cn_trusted n) then (False, n)
      else if \<not> peer_alive n standby then (False, n)
      else if failed \<notin> set (voters_of n) \<or> standby \<in> set (voters_of n) then (False, n)
      else on_raft (propose_membership_change (canon (standby # removeAll failed (voters_of n))) rs1 rs2) n)"

definition publish_evidence_summary ::
    "string \<Rightarrow> string \<Rightarrow> string \<Rightarrow> real \<Rightarrow> cluster_node \<Rightarrow> bool \<times> cluster_node" where
  "publish_evidence_summary eid summary source_hash confidence n =
     (if length summary > 2000 \<or> length source_hash > 128 then (False, n)
      else on_raft (propose (PDict [(''kind'', PStr ''evidence_publish''), (''evidence_id'', PStr eid),
        (''summary'', PStr summary), (''source_hash'', PStr source_hash),
        (''confidence'', PFloat (max 0 (min 1 confidence)))])) n)"

definition is_sha256 :: "string \<Rightarrow> bool" where
  "is_sha256 v \<longleftrightarrow> length v = 64 \<and> (\<forall>c\<in>set (py_lower v). c \<in> set ''0123456789abcdef'')"

definition record_governance_decision ::
    "string \<Rightarrow> string \<Rightarrow> string \<Rightarrow> string \<Rightarrow> string \<Rightarrow> round list \<Rightarrow> cluster_node \<Rightarrow> bool \<times> cluster_node" where
  "record_governance_decision did action status actor subject rounds n =
     (if did = [] \<or> length did > 128 \<or> action = [] \<or> length action > 96 \<or>
         status \<notin> set allowed_statuses \<or> \<not> is_sha256 actor \<or> \<not> is_sha256 subject
      then (False, n)
      else on_raft (propose_and_wait (PDict [(''kind'', PStr ''governance_decision''), (''decision_id'', PStr did),
        (''action'', PStr action), (''status'', PStr status), (''actor_hash'', PStr (py_lower actor)),
        (''subject_hash'', PStr (py_lower subject))]) rounds) n)"

definition record_peer_liveness ::
    "real \<Rightarrow> string \<Rightarrow> bool \<Rightarrow> round list \<Rightarrow> round list \<Rightarrow> cluster_node \<Rightarrow> cluster_node" where
  "record_peer_liveness now p alive rs1 rs2 n =
     (let n1 = n\<lparr>cn_liveness := dset p (alive, now) (cn_liveness n)\<rparr>;
          leased = map fst (filter (\<lambda>(k, t). pget t ''status'' = PStr ''leased'' \<and> pget t ''assignee'' = PStr p)
                     (tl_tasks (cn_tasks n1)));
          n2 = (if alive then n1 else propose_all (map (\<lambda>t. requeue_command t ''peer_unreachable'') leased) n1)
      in case cn_planner n2 of
           None \<Rightarrow> n2
         | Some pl \<Rightarrow>
             (let standbys = filter (\<lambda>s. is_learner s (cn_raft n2) \<and> peer_alive n2 s) (cn_standbys n2);
                  o1 = observe p alive (voters_of n2) standbys now pl;
                  n3 = n2\<lparr>cn_planner := Some (snd o1)\<rparr>
              in case fst o1 of
                   None \<Rightarrow> n3
                 | Some plan \<Rightarrow>
                     (case replace_failed_peer (rp_failed plan) (rp_standby plan) rs1 rs2 n3 of
                        (True, n4) \<Rightarrow> n4\<lparr>cn_planner := map_option (resolve_plan (rp_failed plan)) (cn_planner n4)\<rparr>
                      | (False, n4) \<Rightarrow> n4\<lparr>cn_planner := map_option (retry_plan (rp_failed plan)) (cn_planner n4)\<rparr>)))"

section \<open>The coordinator\<close>

record handler_result =
  hr_success :: bool
  hr_output :: "(string, pyval) dict"
  hr_error :: "string option"

text \<open>\<open>None\<close> is the \<open>ValueError\<close> of a blank task identifier.\<close>

definition acquire :: "real \<Rightarrow> string \<Rightarrow> string \<Rightarrow> real \<Rightarrow> round list \<Rightarrow> cluster_node \<Rightarrow> bool option \<times> cluster_node" where
  "acquire now me tid secs rounds n =
     (if py_strip tid = [] then (None, n) else apfst Some (assign_task now tid me secs rounds n))"

text \<open>\<open>run_step\<close> is the local executor on the step and its payload.\<close>

definition coordinate ::
    "real \<Rightarrow> string \<Rightarrow> string \<Rightarrow> handler_result \<Rightarrow> real \<Rightarrow> round list \<Rightarrow> round list \<Rightarrow> cluster_node
     \<Rightarrow> handler_result option \<times> cluster_node" where
  "coordinate now me tid run_step secs rs1 rs2 n =
     (case acquire now me tid secs rs1 n of
        (None, n1) \<Rightarrow> (None, n1)
      | (Some False, n1) \<Rightarrow>
          (Some \<lparr>hr_success = False, hr_output = [],
                 hr_error = Some ''Task lease was not committed by the cluster leader.''\<rparr>, n1)
      | (Some True, n1) \<Rightarrow>
          if hr_success run_step then
            (case complete_lease tid rs2 n1 of
               (False, n2) \<Rightarrow>
                 (Some \<lparr>hr_success = False, hr_output = [],
                        hr_error = Some ''Task ran locally but completion was not committed; result is withheld.''\<rparr>, n2)
             | (True, n2) \<Rightarrow> (Some run_step, n2))
          else (Some run_step, n1))"

end
