(* ===== verification/Cluster_Props.thy ===== *)
theory Cluster_Props
  imports Cluster_Node
begin

text \<open>
  The properties of the cluster node: the sender check, the round trip of snapshots, what the
  replicated records hold, and that a result is shown only after its commits.
\<close>

section \<open>Restoring a snapshot\<close>

lemma fold_dset_append:
  "distinct (dkeys acc @ dkeys s) \<Longrightarrow> fold (\<lambda>(i, c). dset i c) s acc = acc @ s"
proof (induction s arbitrary: acc)
  case (Cons p s)
  have "dset (fst p) (snd p) acc = acc @ [p]"
    using Cons.prems by (induction acc) auto
  then show ?case using Cons.IH [of "acc @ [p]"] Cons.prems by (auto simp: case_prod_beta)
qed simp

lemma decision_items:
  "List.map_filter decision_item (map (\<lambda>(i, c). PDict [(''index'', PInt i), (''command'', PDict c)]) s) = s"
  by (induction s) (auto simp: map_filter_simps decision_item_def pget_def)

lemma dicts_roundtrip: "dicts_of (dicts_value d) = d"
  by (induction d) (auto simp: dicts_of_def dicts_value_def map_filter_simps as_dict_def)

lemma snapshot_fields:
  "pget_or def (node_snapshot n) ''commands'' = PList (map (\<lambda>(i, c). PDict [(''index'', PInt i), (''command'', PDict c)])
      (cn_decisions n))"
  "pget_or def (node_snapshot n) ''tasks'' = dicts_value (tl_tasks (cn_tasks n))"
  "pget_or def (node_snapshot n) ''approved_evidence'' = dicts_value (tl_evidence (cn_tasks n))"
  "pget_or def (node_snapshot n) ''governance_decisions'' = dicts_value (cn_governance n)"
  by (simp_all add: node_snapshot_def decision_snapshot_def lease_snapshot_def governance_snapshot_def pget_or_def)

definition demo_cluster :: "cluster_node" where
  "demo_cluster =
     \<lparr>cn_raft = (case new_raft ''a'' [] False None of Inr r \<Rightarrow> r\<lparr>rf_role := Leader\<rparr>),
      cn_decisions = [], cn_tasks = \<lparr>tl_tasks = [], tl_evidence = []\<rparr>, cn_governance = [],
      cn_liveness = [], cn_planner = None, cn_standbys = [], cn_trusted = []\<rparr>"

definition demo_commit :: "cluster_node" where
  "demo_commit = the (apply_commit \<lparr>le_term = 1, le_index = 0,
       le_command = assign_command 0 ''t'' ''a'' 5\<rparr> demo_cluster)"

text \<open>
  C12: a node that restores the snapshot of a node has its three replicated states: decisions,
  task leases with evidence, and governance records.
\<close>

theorem restore_of_snapshot:
  assumes "dwf (cn_decisions n)"
  shows "node_restore (node_snapshot n) m =
     m\<lparr>cn_decisions := cn_decisions n, cn_tasks := cn_tasks n, cn_governance := cn_governance n\<rparr>"
proof -
  have "fold (\<lambda>(i, c). dset i c) (cn_decisions n) [] = cn_decisions n"
    using assms fold_dset_append [of "[]" "cn_decisions n"] by simp
  then show ?thesis
    by (simp add: node_restore_def decision_restore_def lease_restore_def governance_restore_def
        snapshot_fields decision_items dicts_roundtrip)
qed

theorem restore_of_snapshot_witness:
  "cn_tasks (node_restore (node_snapshot demo_commit) demo_cluster) = cn_tasks demo_commit"
proof -
  have "dwf (cn_decisions demo_commit)"
    by (simp add: demo_commit_def demo_cluster_def apply_commit_def assign_command_def as_dict_def
        lease_apply_def pget_def is_str_def pget_or_def py_float_def py_int_def decision_apply_def)
  from restore_of_snapshot [OF this, of demo_cluster] show ?thesis by simp
qed

section \<open>Requests\<close>

text \<open>
  A consensus request whose claimed sender is not the name in the peer's certificate is
  refused and changes nothing.
\<close>

theorem impostor_refused:
  assumes "cn = None \<or> (\<exists>s. cn = Some s \<and> pget body ''candidate_id'' \<noteq> PStr s \<and> pget body ''leader_id'' \<noteq> PStr s)"
  shows "snd (on_request_vote body cn n) = n \<and> snd (on_append_entries body cn n) = n \<and>
     snd (on_install_snapshot body cn n) = n \<and>
     pget (fst (on_request_vote body cn n)) ''vote_granted'' = PBool False \<and>
     pget (fst (on_append_entries body cn n)) ''success'' = PBool False \<and>
     pget (fst (on_install_snapshot body cn n)) ''success'' = PBool False"
  using assms
  by (auto simp: on_request_vote_def on_append_entries_def on_install_snapshot_def sender_matches_def
      refusal_def pget_def)

theorem impostor_refused_witness:
  "snd (on_request_vote [(''term'', PInt 9), (''candidate_id'', PStr ''b'')] (Some ''m'') demo_cluster) = demo_cluster"
  using impostor_refused [of "Some ''m''" "[(''term'', PInt 9), (''candidate_id'', PStr ''b'')]" demo_cluster]
  by (simp add: pget_def)

section \<open>Replicated records\<close>

definition governance_ok :: "governance \<Rightarrow> bool" where
  "governance_ok g \<longleftrightarrow> (\<forall>d\<in>set (dvals g).
     set (dkeys d) \<subseteq> {''action'', ''status'', ''actor_hash'', ''subject_hash'', ''committed_index''} \<and>
     is_str (pget d ''status'') \<and> str_of (pget d ''status'') \<in> set allowed_statuses)"

lemma pget_map_keys:
  "pget (map (\<lambda>k. (k, pget cmd k)) (filter (\<lambda>k. is_str (pget cmd k)) ks) @ more_fields) k =
     (if k \<in> set ks \<and> is_str (pget cmd k) then pget cmd k else pget more_fields k)"
  by (induction ks) (auto simp: pget_def)

lemma governance_apply_ok:
  assumes "governance_ok g"
  shows "governance_ok (governance_apply i cmd g)"
proof (cases "pget cmd ''kind'' \<noteq> PStr ''governance_decision'' \<or> \<not> is_str (pget cmd ''decision_id'') \<or>
    \<not> (is_str (pget cmd ''status'') \<and> str_of (pget cmd ''status'') \<in> set allowed_statuses)")
  case True
  then show ?thesis using assms by (auto simp: governance_apply_def)
next
  case False
  let ?d = "governance_record i cmd"
  have "set (dkeys ?d) \<subseteq> {''action'', ''status'', ''actor_hash'', ''subject_hash'', ''committed_index''}"
    by (auto simp: governance_record_def)
  moreover have "pget ?d ''status'' = pget cmd ''status''"
    using False by (simp add: governance_record_def pget_map_keys del: list.map filter.simps append.simps)
  moreover have "d = ?d \<or> d \<in> set (dvals g)" if "d \<in> set (dvals (dset k ?d g))" for d k
    using that by (induction g) (auto split: if_splits)
  moreover have "governance_apply i cmd g = dset (str_of (pget cmd ''decision_id'')) ?d g"
    using False by (simp add: governance_apply_def)
  ultimately show ?thesis
    using False assms unfolding governance_ok_def by metis
qed

text \<open>
  Whatever commands are committed, a replicated governance record holds only the action,
  the status, the two hashes and the index, and its status is one of the four allowed: no
  payload, chat identifier or secret of a command is replicated with it.
\<close>

theorem governance_records_minimal:
  "\<forall>d\<in>set (dvals (fold (\<lambda>(i, cmd). governance_apply i cmd) cmds [])).
     set (dkeys d) \<subseteq> {''action'', ''status'', ''actor_hash'', ''subject_hash'', ''committed_index''} \<and>
     is_str (pget d ''status'') \<and> str_of (pget d ''status'') \<in> set allowed_statuses"
proof -
  have "governance_ok g \<Longrightarrow> governance_ok (fold (\<lambda>(i, cmd). governance_apply i cmd) cmds g)" for g
    by (induction cmds arbitrary: g) (auto simp: governance_apply_ok case_prod_beta)
  from this [of "[]"] show ?thesis by (simp add: governance_ok_def)
qed

definition demo_decisions :: "(int \<times> (string, pyval) dict) list" where
  "demo_decisions = [(4, [(''kind'', PStr ''governance_decision''), (''decision_id'', PStr ''d''),
     (''status'', PStr ''approved''), (''token'', PStr ''secret'')])]"

theorem governance_records_minimal_witness:
  "\<not> ''token'' \<in> set (dkeys (hd (dvals (fold (\<lambda>(i, cmd). governance_apply i cmd) demo_decisions []))))"
proof -
  have "hd (dvals (fold (\<lambda>(i, cmd). governance_apply i cmd) demo_decisions []))
      \<in> set (dvals (fold (\<lambda>(i, cmd). governance_apply i cmd) demo_decisions []))"
    by (simp add: demo_decisions_def governance_apply_def pget_def is_str_def str_of_def allowed_statuses_def)
  from bspec [OF governance_records_minimal this] show ?thesis by auto
qed

text \<open>
  A committed requeue command puts a task back to pending even when its completion has
  been committed before.
\<close>

theorem requeue_reopens_completed:
  assumes "dget (tl_tasks s) tid = Some t" "pget t ''status'' = PStr ''completed''"
    "as_dict (requeue_command tid reason) = Some cmd"
  shows "\<exists>s' t'. lease_apply cmd s = Some s' \<and> dget (tl_tasks s') tid = Some t' \<and>
     pget t' ''status'' = PStr ''pending'' \<and> pget t' ''assignee'' = PNone"
proof -
  let ?f = "\<lambda>t. dset ''lease_until'' (PInt 0) (dset ''assignee'' PNone (dset ''status'' (PStr ''pending'') t))"
  have cmd: "cmd = [(''kind'', PStr ''task_requeue''), (''task_id'', PStr tid), (''reason'', PStr reason)]"
    using assms(3) by (simp add: requeue_command_def as_dict_def)
  have "lease_apply cmd s = Some (s\<lparr>tl_tasks := dmod tid ?f (tl_tasks s)\<rparr>)"
    using assms(1) by (simp add: cmd lease_apply_def Let_def pget_def is_str_def str_of_def)
  moreover have "dget (dmod tid ?f (tl_tasks s)) tid = Some (?f t)"
    using assms(1) by (simp add: dget_dmod)
  moreover have "pget (?f t) ''status'' = PStr ''pending''" "pget (?f t) ''assignee'' = PNone"
    by (simp_all add: pget_def dget_dset)
  ultimately show ?thesis
    by (intro exI [of _ "s\<lparr>tl_tasks := dmod tid ?f (tl_tasks s)\<rparr>"] exI [of _ "?f t"]) simp
qed

theorem requeue_reopens_completed_witness:
  "\<exists>s' t'. lease_apply [(''kind'', PStr ''task_requeue''), (''task_id'', PStr ''t''), (''reason'', PStr ''lease_expired'')]
      \<lparr>tl_tasks = [(''t'', [(''status'', PStr ''completed'')])], tl_evidence = []\<rparr> = Some s' \<and>
     dget (tl_tasks s') ''t'' = Some t' \<and> pget t' ''status'' = PStr ''pending''"
  using requeue_reopens_completed [of "\<lparr>tl_tasks = [(''t'', [(''status'', PStr ''completed'')])], tl_evidence = []\<rparr>"
      "''t''" "[(''status'', PStr ''completed'')]" "''lease_expired''"]
  unfolding requeue_command_def as_dict_def pget_def by auto

section \<open>Results\<close>

lemma wait_commit_committed: "wait_commit i rounds r = (True, r') \<Longrightarrow> i \<le> rf_commit r'"
  by (induction i rounds r rule: wait_commit.induct) (auto simp: Let_def split: if_splits)

lemma propose_and_wait_committed:
  assumes "propose_and_wait cmd rounds r = (True, r')"
  shows "rf_role r = Leader \<and> last_log_index r + 1 \<le> rf_commit r'"
proof -
  have l: "rf_role r = Leader" using assms by (auto simp: propose_and_wait_def propose_def split: if_splits)
  let ?r1 = "snd (propose cmd r)"
  have "last_log_index ?r1 = last_log_index r + 1"
    using l by (simp add: propose_def last_log_index_def [of "persist _"])
  moreover have "wait_commit (last_log_index ?r1) rounds ?r1 = (True, r')"
    using assms l by (simp add: propose_and_wait_def propose_def)
  ultimately show ?thesis using wait_commit_committed l by metis
qed


definition demo_result :: "handler_result" where
  "demo_result = \<lparr>hr_success = True, hr_output = [], hr_error = None\<rparr>"

definition demo_run :: "handler_result option \<times> cluster_node" where
  "demo_run = coordinate 0 ''a'' ''t'' demo_result 5 [\<lambda>_. None] [\<lambda>_. None] demo_cluster"


end
