(* ===== verification/Hosting.thy ===== *)
theory Hosting
  imports Prelude
begin

text \<open>
  Hosting governance (\<open>infrastructure/hosting_governance.py\<close>): offers and their catalog, the
  purchase gate with its durable authorizations and audit, and the gate of remote-control
  sessions.

  An exception is its message. SHA-256 is an argument \<open>sha\<close>; fresh identifiers and keys and
  the clock are arguments. The JSON file of the authorization store is the dictionary it
  holds, the audit file the list of its lines.
\<close>

section \<open>Audit\<close>

record audit_line =
  al_event :: string
  al_at :: real
  al_metadata :: "(string, pyval) dict"

definition forbidden_keys :: "string list" where
  "forbidden_keys = [''card'', ''cvv'', ''password'', ''token'', ''local_confirmation_key'', ''session_key'']"

definition audit_record ::
    "string \<Rightarrow> real \<Rightarrow> (string, pyval) dict \<Rightarrow> audit_line list \<Rightarrow> string + audit_line list" where
  "audit_record ev tm meta log0 =
     (if ev = [] \<or> (\<exists>k\<in>set (dkeys meta). py_lower k \<in> set forbidden_keys)
      then Inl ''audit metadata includes a forbidden or invalid field''
      else Inr (log0 @ [\<lparr>al_event = ev, al_at = tm, al_metadata = meta\<rparr>]))"

section \<open>Offers\<close>

record hosting_offer =
  ho_id :: string
  ho_provider :: string
  ho_plan :: string
  ho_region :: string
  ho_price :: int
  ho_currency :: string
  ho_period :: string
  ho_free :: bool
  ho_boundary :: string
  ho_compute :: string

definition validate_offer :: "hosting_offer \<Rightarrow> string + unit" where
  "validate_offer off =
     (if ho_id off = [] \<or> ho_provider off = [] \<or> ho_plan off = [] \<or> ho_region off = []
      then Inl ''hosting offer requires stable identity and provider details''
      else if ho_price off < 0 then Inl ''hosting offer price cannot be negative''
      else if ho_free off \<and> ho_price off \<noteq> 0 then Inl ''free hosting offer must have zero price''
      else if ho_currency off = [] \<or> length (ho_currency off) \<noteq> 3 \<or> ho_period off = []
      then Inl ''hosting offer requires currency and billing period''
      else Inr ())"

definition offer_payload :: "hosting_offer \<Rightarrow> string" where
  "offer_payload off =
     join_sep ''|'' [ho_id off, ho_provider off, ho_plan off, ho_region off, show_int (ho_price off),
       ho_currency off, ho_period off, ho_boundary off, ho_compute off]"

definition detail_hash :: "(string \<Rightarrow> string) \<Rightarrow> hosting_offer \<Rightarrow> string + string" where
  "detail_hash sha off =
     (case validate_offer off of Inl e \<Rightarrow> Inl e | Inr _ \<Rightarrow> Inr (sha (offer_payload off)))"

type_synonym catalog = "(string, hosting_offer) dict"

definition publish_offer :: "hosting_offer \<Rightarrow> catalog \<Rightarrow> (string + unit) \<times> catalog" where
  "publish_offer off c =
     (case validate_offer off of Inl e \<Rightarrow> (Inl e, c) | Inr _ \<Rightarrow> (Inr (), dset (ho_id off) off c))"

definition offer_key :: "hosting_offer \<Rightarrow> bool \<times> int \<times> string \<times> string" where
  "offer_key off = (\<not> ho_free off, ho_price off, ho_provider off, ho_plan off)"

definition compare_offers :: "string option \<Rightarrow> bool \<Rightarrow> catalog \<Rightarrow> hosting_offer list" where
  "compare_offers region free_only c =
     sort_key offer_key
       (filter (\<lambda>off. (free_only \<longrightarrow> ho_free off) \<and>
          (case region of None \<Rightarrow> True | Some r \<Rightarrow> r = [] \<or> ho_region off = r)) (dvals c))"

record search_request =
  sr_region :: "string option"
  sr_maximum :: "int option"
  sr_currency :: "string option"
  sr_free_only :: bool
  sr_persistent :: bool

definition wanted :: "search_request \<Rightarrow> hosting_offer \<Rightarrow> bool" where
  "wanted q off \<longleftrightarrow>
     (case sr_region q of None \<Rightarrow> True | Some r \<Rightarrow> r = [] \<or> ho_region off = r) \<and>
     (sr_free_only q \<longrightarrow> ho_free off) \<and>
     (case sr_currency q of None \<Rightarrow> True | Some c \<Rightarrow> c = [] \<or> py_upper (ho_currency off) = py_upper c) \<and>
     (case sr_maximum q of None \<Rightarrow> True | Some m \<Rightarrow> ho_price off \<le> m)"

fun search_offers :: "search_request \<Rightarrow> hosting_offer list \<Rightarrow> catalog \<Rightarrow> string + catalog" where
  "search_offers q [] c = Inr c"
| "search_offers q (off # offs) c =
     (case validate_offer off of
        Inl e \<Rightarrow> Inl e
      | Inr _ \<Rightarrow>
          if \<not> wanted q off then search_offers q offs c
          else search_offers q offs (snd (publish_offer off c)))"

text \<open>\<open>sources\<close> holds what each provider adapter returns for the request.\<close>

definition search :: "search_request \<Rightarrow> hosting_offer list list \<Rightarrow> string + hosting_offer list" where
  "search q sources =
     (if (case sr_maximum q of None \<Rightarrow> False | Some m \<Rightarrow> m < 0)
      then Inl ''maximum monthly price cannot be negative''
      else map_sum id (compare_offers (sr_region q) (sr_free_only q)) (search_offers q (concat sources) []))"

section \<open>Purchase authorizations\<close>

record authorization =
  au_id :: string
  au_offer_id :: string
  au_detail_hash :: string
  au_amount :: int
  au_currency :: string
  au_period :: string
  au_expires_at :: real
  au_approved_at :: "real option"
  au_consumed_at :: "real option"
  au_expired_at :: "real option"
  au_cancelled_at :: "real option"

type_synonym auth_store = "(string, authorization) dict"

definition store_load_raw :: "string \<Rightarrow> auth_store \<Rightarrow> string + authorization" where
  "store_load_raw i st =
     (case dget st i of
        None \<Rightarrow> Inl ''purchase authorization is not present in durable storage''
      | Some a \<Rightarrow> Inr a)"

definition store_load :: "string \<Rightarrow> real \<Rightarrow> auth_store \<Rightarrow> string + authorization" where
  "store_load i now st =
     (case store_load_raw i st of
        Inl e \<Rightarrow> Inl e
      | Inr a \<Rightarrow>
          if au_cancelled_at a \<noteq> None then Inl ''purchase authorization is cancelled''
          else if au_expired_at a \<noteq> None then Inl ''purchase authorization has expired''
          else if now \<ge> au_expires_at a then Inl ''purchase authorization has expired''
          else if au_consumed_at a \<noteq> None then Inl ''purchase authorization is already consumed''
          else Inr a)"

record purchase_gate =
  pg_audit :: "audit_line list option"
  pg_store :: "auth_store option"
  pg_current :: "auth_store"

definition gate_record :: "string \<Rightarrow> authorization \<Rightarrow> real \<Rightarrow> purchase_gate \<Rightarrow> (string + unit) \<times> purchase_gate" where
  "gate_record ev a now g =
     (case pg_audit g of
        None \<Rightarrow> (Inr (), g)
      | Some l \<Rightarrow>
          (case audit_record ev now
                  [(''authorization_id'', PStr (au_id a)), (''offer_id'', PStr (au_offer_id a)),
                   (''detail_hash'', PStr (au_detail_hash a)), (''amount_minor'', PInt (au_amount a)),
                   (''currency'', PStr (au_currency a)), (''billing_period'', PStr (au_period a))] l of
             Inl e \<Rightarrow> (Inl e, g)
           | Inr l' \<Rightarrow> (Inr (), g\<lparr>pg_audit := Some l'\<rparr>)))"

definition gate_persist :: "authorization \<Rightarrow> purchase_gate \<Rightarrow> purchase_gate" where
  "gate_persist a g =
     g\<lparr>pg_current := dset (au_id a) a (pg_current g),
       pg_store := map_option (dset (au_id a) a) (pg_store g)\<rparr>"

definition latest :: "authorization \<Rightarrow> purchase_gate \<Rightarrow> string + authorization" where
  "latest a g =
     (case pg_store g of
        Some st \<Rightarrow> store_load_raw (au_id a) st
      | None \<Rightarrow> Inr (case dget (pg_current g) (au_id a) of None \<Rightarrow> a | Some b \<Rightarrow> b))"

definition assert_current :: "(string \<Rightarrow> string) \<Rightarrow> authorization \<Rightarrow> hosting_offer \<Rightarrow> real \<Rightarrow> string + unit" where
  "assert_current sha a off now =
     (if au_cancelled_at a \<noteq> None then Inl ''purchase authorization is cancelled''
      else if au_expired_at a \<noteq> None then Inl ''purchase authorization has expired''
      else if au_consumed_at a \<noteq> None then Inl ''purchase authorization is already consumed''
      else if now \<ge> au_expires_at a then Inl ''purchase authorization has expired''
      else if au_offer_id a \<noteq> ho_id off then Inl ''hosting offer details changed; request a new authorization''
      else case detail_hash sha off of
             Inl e \<Rightarrow> Inl e
           | Inr h \<Rightarrow>
               if au_detail_hash a \<noteq> h then Inl ''hosting offer details changed; request a new authorization''
               else Inr ())"

text \<open>Record the event, then persist; nothing is persisted when the audit refuses.\<close>

definition commit_auth ::
    "string \<Rightarrow> authorization \<Rightarrow> real \<Rightarrow> purchase_gate \<Rightarrow> (string + authorization) \<times> purchase_gate" where
  "commit_auth ev a now g =
     (case gate_record ev a now g of
        (Inl e, g') \<Rightarrow> (Inl e, g')
      | (Inr _, g') \<Rightarrow> (Inr a, gate_persist a g'))"

definition request_purchase ::
    "(string \<Rightarrow> string) \<Rightarrow> string \<Rightarrow> hosting_offer \<Rightarrow> real \<Rightarrow> real \<Rightarrow> purchase_gate
     \<Rightarrow> (string + authorization) \<times> purchase_gate" where
  "request_purchase sha i off ttl now g =
     (case validate_offer off of
        Inl e \<Rightarrow> (Inl e, g)
      | Inr _ \<Rightarrow>
          if ttl \<le> 0 then (Inl ''purchase authorization ttl must be positive'', g)
          else
            (case detail_hash sha off of
               Inl e \<Rightarrow> (Inl e, g)
             | Inr h \<Rightarrow>
                 commit_auth ''hosting_purchase_requested''
                   \<lparr>au_id = i, au_offer_id = ho_id off, au_detail_hash = h, au_amount = ho_price off,
                    au_currency = py_upper (ho_currency off), au_period = ho_period off,
                    au_expires_at = now + ttl, au_approved_at = None, au_consumed_at = None,
                    au_expired_at = None, au_cancelled_at = None\<rparr> now g))"

definition approve_purchase ::
    "(string \<Rightarrow> string) \<Rightarrow> authorization \<Rightarrow> hosting_offer \<Rightarrow> real \<Rightarrow> purchase_gate
     \<Rightarrow> (string + authorization) \<times> purchase_gate" where
  "approve_purchase sha a0 off now g =
     (case latest a0 g of
        Inl e \<Rightarrow> (Inl e, g)
      | Inr a \<Rightarrow>
          (case assert_current sha a off now of
             Inl e \<Rightarrow> (Inl e, g)
           | Inr _ \<Rightarrow>
               if au_approved_at a \<noteq> None then (Inl ''purchase authorization is already approved'', g)
               else commit_auth ''hosting_purchase_approved'' (a\<lparr>au_approved_at := Some now\<rparr>) now g))"

definition consume_purchase ::
    "(string \<Rightarrow> string) \<Rightarrow> authorization \<Rightarrow> hosting_offer \<Rightarrow> real \<Rightarrow> purchase_gate
     \<Rightarrow> (string + authorization) \<times> purchase_gate" where
  "consume_purchase sha a0 off now g =
     (case latest a0 g of
        Inl e \<Rightarrow> (Inl e, g)
      | Inr a \<Rightarrow>
          (case assert_current sha a off now of
             Inl e \<Rightarrow> (Inl e, g)
           | Inr _ \<Rightarrow>
               if au_approved_at a = None then (Inl ''purchase authorization requires explicit approval'', g)
               else if au_consumed_at a \<noteq> None then (Inl ''purchase authorization is already consumed'', g)
               else commit_auth ''hosting_purchase_consumed'' (a\<lparr>au_consumed_at := Some now\<rparr>) now g))"

definition expire_purchase ::
    "authorization \<Rightarrow> real \<Rightarrow> purchase_gate \<Rightarrow> (string + authorization) \<times> purchase_gate" where
  "expire_purchase a0 now g =
     (case latest a0 g of
        Inl e \<Rightarrow> (Inl e, g)
      | Inr a \<Rightarrow>
          if au_consumed_at a \<noteq> None then (Inl ''consumed purchase authorization cannot expire'', g)
          else if au_cancelled_at a \<noteq> None \<or> au_expired_at a \<noteq> None
          then (Inl ''purchase authorization is already closed'', g)
          else if now < au_expires_at a then (Inl ''purchase authorization is not yet expired'', g)
          else commit_auth ''hosting_purchase_expired'' (a\<lparr>au_expired_at := Some now\<rparr>) now g)"

definition cancel_purchase ::
    "authorization \<Rightarrow> real \<Rightarrow> purchase_gate \<Rightarrow> (string + authorization) \<times> purchase_gate" where
  "cancel_purchase a0 now g =
     (case latest a0 g of
        Inl e \<Rightarrow> (Inl e, g)
      | Inr a \<Rightarrow>
          if au_consumed_at a \<noteq> None then (Inl ''consumed purchase authorization cannot be cancelled'', g)
          else if au_cancelled_at a \<noteq> None \<or> au_expired_at a \<noteq> None
          then (Inl ''purchase authorization is already closed'', g)
          else commit_auth ''hosting_purchase_cancelled'' (a\<lparr>au_cancelled_at := Some now\<rparr>) now g)"

section \<open>Remote control\<close>

record remote_session =
  rs_id :: string
  rs_mode :: string
  rs_device :: string
  rs_expires_at :: real
  rs_key_hash :: string
  rs_confirmed_at :: "real option"
  rs_revoked_at :: "real option"

definition request_session ::
    "(string \<Rightarrow> string) \<Rightarrow> string \<Rightarrow> string \<Rightarrow> string \<Rightarrow> string \<Rightarrow> real \<Rightarrow> real
     \<Rightarrow> string + remote_session \<times> string" where
  "request_session sha i key mode device ttl now =
     (if (mode \<noteq> ''view'' \<and> mode \<noteq> ''control'') \<or> device = [] \<or> ttl \<le> 0
      then Inl ''invalid remote-control session request''
      else Inr (\<lparr>rs_id = i, rs_mode = mode, rs_device = device, rs_expires_at = now + ttl,
                 rs_key_hash = sha key, rs_confirmed_at = None, rs_revoked_at = None\<rparr>, key))"

definition assert_open :: "remote_session \<Rightarrow> real \<Rightarrow> string + unit" where
  "assert_open s now =
     (if rs_revoked_at s \<noteq> None then Inl ''remote-control session is revoked''
      else if now \<ge> rs_expires_at s then Inl ''remote-control session has expired''
      else Inr ())"

definition confirm_locally ::
    "(string \<Rightarrow> string) \<Rightarrow> remote_session \<Rightarrow> string \<Rightarrow> real \<Rightarrow> string + remote_session" where
  "confirm_locally sha s key now =
     (case assert_open s now of
        Inl e \<Rightarrow> Inl e
      | Inr _ \<Rightarrow>
          if rs_key_hash s \<noteq> sha key then Inl ''remote-control session key is invalid''
          else if rs_confirmed_at s \<noteq> None then Inl ''remote-control session is already confirmed''
          else Inr (s\<lparr>rs_confirmed_at := Some now\<rparr>))"

definition revoke_session :: "remote_session \<Rightarrow> real \<Rightarrow> remote_session" where
  "revoke_session s now = (if rs_revoked_at s \<noteq> None then s else s\<lparr>rs_revoked_at := Some now\<rparr>)"

end
