(* ===== verification/Hosting_Props.thy ===== *)
theory Hosting_Props
  imports Hosting
begin

text \<open>
  The purchase gate as a store of requests that are decided once, what a consumed
  authorization guarantees, and what a search returns.
\<close>

section \<open>The gate as a machine\<close>

datatype gate_op =
    GRequest string hosting_offer real real
  | GApprove authorization hosting_offer real
  | GConsume authorization hosting_offer real
  | GExpire authorization real
  | GCancel authorization real

fun gate_step :: "(string \<Rightarrow> string) \<Rightarrow> purchase_gate \<Rightarrow> gate_op \<Rightarrow> purchase_gate" where
  "gate_step sha g (GRequest i off ttl now) = snd (request_purchase sha i off ttl now g)"
| "gate_step sha g (GApprove a off now) = snd (approve_purchase sha a off now g)"
| "gate_step sha g (GConsume a off now) = snd (consume_purchase sha a off now g)"
| "gate_step sha g (GExpire a now) = snd (expire_purchase a now g)"
| "gate_step sha g (GCancel a now) = snd (cancel_purchase a now g)"

definition held :: "purchase_gate \<Rightarrow> string \<Rightarrow> authorization option" where
  "held g i = (case pg_store g of None \<Rightarrow> None | Some st \<Rightarrow> dget st i)"

text \<open>A fresh identifier is drawn for every request.\<close>

fun gate_ok :: "purchase_gate \<Rightarrow> gate_op \<Rightarrow> bool" where
  "gate_ok g (GRequest i off ttl now) \<longleftrightarrow> held g i = None"
| "gate_ok g _ \<longleftrightarrow> True"

datatype auth_state = Requested | Approved | Consumed | Expired | Cancelled

definition auth_state :: "authorization \<Rightarrow> auth_state" where
  "auth_state a =
     (if au_consumed_at a \<noteq> None then Consumed else if au_cancelled_at a \<noteq> None then Cancelled
      else if au_expired_at a \<noteq> None then Expired else if au_approved_at a \<noteq> None then Approved
      else Requested)"

fun auth_final :: "auth_state \<Rightarrow> bool" where
  "auth_final Requested = False" | "auth_final Approved = False"
| "auth_final Consumed = True" | "auth_final Expired = True" | "auth_final Cancelled = True"

definition auth_ok :: "authorization \<Rightarrow> bool" where
  "auth_ok a \<longleftrightarrow>
     (\<forall>t. au_approved_at a = Some t \<longrightarrow> t < au_expires_at a) \<and>
     (\<forall>t. au_consumed_at a = Some t \<longrightarrow> t < au_expires_at a \<and> au_approved_at a \<noteq> None \<and>
        au_expired_at a = None \<and> au_cancelled_at a = None) \<and>
     (au_expired_at a = None \<or> au_cancelled_at a = None)"

definition gate_inv :: "purchase_gate \<Rightarrow> bool" where
  "gate_inv g \<longleftrightarrow> pg_store g \<noteq> None \<and> (\<forall>i a. held g i = Some a \<longrightarrow> au_id a = i \<and> auth_ok a)"

definition same_terms :: "authorization \<Rightarrow> authorization \<Rightarrow> bool" where
  "same_terms a b \<longleftrightarrow> au_id b = au_id a \<and> au_offer_id b = au_offer_id a \<and>
     au_detail_hash b = au_detail_hash a \<and> au_amount b = au_amount a \<and> au_currency b = au_currency a \<and>
     au_period b = au_period a \<and> au_expires_at b = au_expires_at a"

definition gate_le :: "purchase_gate \<Rightarrow> purchase_gate \<Rightarrow> bool" where
  "gate_le g g' \<longleftrightarrow> (\<forall>i a. held g i = Some a \<longrightarrow> (\<exists>b. held g' i = Some b \<and> same_terms a b \<and>
     (auth_final (auth_state a) \<longrightarrow> b = a)))"

lemma same_terms_refl [simp]: "same_terms a a"
  by (simp add: same_terms_def)

lemma same_terms_trans: "same_terms a b \<Longrightarrow> same_terms b c \<Longrightarrow> same_terms a c"
  by (simp add: same_terms_def)

lemma gate_le_refl [simp]: "gate_le g g"
  by (simp add: gate_le_def)

lemma gate_le_trans: "gate_le a b \<Longrightarrow> gate_le b c \<Longrightarrow> gate_le a c"
  unfolding gate_le_def
proof (intro allI impI)
  fix i x
  assume ab: "\<forall>i x. held a i = Some x \<longrightarrow> (\<exists>y. held b i = Some y \<and> same_terms x y \<and> (auth_final (auth_state x) \<longrightarrow> y = x))"
    and bc: "\<forall>i x. held b i = Some x \<longrightarrow> (\<exists>y. held c i = Some y \<and> same_terms x y \<and> (auth_final (auth_state x) \<longrightarrow> y = x))"
    and x: "held a i = Some x"
  obtain y where y: "held b i = Some y" "same_terms x y" "auth_final (auth_state x) \<longrightarrow> y = x" using ab x by blast
  obtain z where "held c i = Some z" "same_terms y z" "auth_final (auth_state y) \<longrightarrow> z = y" using bc y(1) by blast
  then show "\<exists>z. held c i = Some z \<and> same_terms x z \<and> (auth_final (auth_state x) \<longrightarrow> z = x)"
    using y same_terms_trans by auto
qed

lemma commit_auth_held:
  assumes "commit_auth ev a now g = (r, g')" "pg_store g \<noteq> None"
  shows "pg_store g' \<noteq> None \<and>
     (r = Inr a \<and> held g' = (held g)(au_id a \<mapsto> a) \<or> (\<exists>e. r = Inl e) \<and> held g' = held g)"
proof -
  obtain st where st: "pg_store g = Some st" using assms(2) by blast
  obtain r1 g1 where g1: "gate_record ev a now g = (r1, g1)" by fastforce
  have s1: "pg_store g1 = Some st"
    using g1 st by (auto simp: gate_record_def split: option.splits sum.splits)
  then show ?thesis using assms(1) g1 st
    by (cases r1) (auto simp: commit_auth_def gate_persist_def held_def dget_dset_map fun_eq_iff)
qed

lemma latest_held: "pg_store g \<noteq> None \<Longrightarrow> latest a0 g = Inr a \<Longrightarrow> held g (au_id a0) = Some a"
  by (auto simp: latest_def held_def store_load_raw_def split: option.splits)

text \<open>A committed change of a held authorization that is not final.\<close>

lemma gate_change:
  assumes inv: "gate_inv g" and h: "held g i = Some a" "au_id b = i"
    and c: "commit_auth ev b now g = (r, g')"
    and b: "auth_ok b" "same_terms a b" "\<not> auth_final (auth_state a)"
  shows "gate_inv g' \<and> gate_le g g'"
  using commit_auth_held [OF c] inv h b by (auto simp: gate_inv_def gate_le_def split: if_splits)

lemma assert_current_open:
  "assert_current sha a off now = Inr u \<Longrightarrow>
     \<not> auth_final (auth_state a) \<and> now < au_expires_at a \<and> au_offer_id a = ho_id off \<and>
     detail_hash sha off = Inr (au_detail_hash a) \<and>
     au_expired_at a = None \<and> au_cancelled_at a = None \<and> au_consumed_at a = None"
  by (auto simp: assert_current_def auth_state_def split: if_splits sum.splits)

lemma request_step:
  assumes inv: "gate_inv g" and fresh: "held g i = None" and op: "request_purchase sha i off ttl now g = (r, g')"
  shows "gate_inv g' \<and> gate_le g g'"
proof (cases "g' = g")
  case False
  then obtain ev a where c: "commit_auth ev a now g = (r, g')" "au_id a = i" "auth_ok a"
    using op by (auto simp: request_purchase_def auth_ok_def split: sum.splits if_splits)
  show ?thesis
    using commit_auth_held [OF c(1)] inv fresh c(2,3) by (auto simp: gate_inv_def gate_le_def split: if_splits)
qed (use inv in simp)

lemma approve_step:
  assumes inv: "gate_inv g" and op: "approve_purchase sha a0 off now g = (r, g')"
  shows "gate_inv g' \<and> gate_le g g'"
proof (cases "g' = g")
  case False
  then obtain a u where a: "latest a0 g = Inr a" "assert_current sha a off now = Inr u" "au_approved_at a = None"
      "commit_auth ''hosting_purchase_approved'' (a\<lparr>au_approved_at := Some now\<rparr>) now g = (r, g')"
    using op by (auto simp: approve_purchase_def split: sum.splits if_splits)
  have h: "held g (au_id a0) = Some a" using latest_held a(1) inv by (auto simp: gate_inv_def)
  then have "au_id a = au_id a0" "auth_ok a" using inv by (auto simp: gate_inv_def)
  then show ?thesis
    using assert_current_open [OF a(2)] gate_change [OF inv h _ a(4)]
    by (auto simp: auth_ok_def same_terms_def)
qed (use inv in simp)

lemma consume_spec:
  assumes inv: "gate_inv g" and op: "consume_purchase sha a0 off now g = (Inr c, g')"
  shows "\<exists>a. held g (au_id a0) = Some a \<and> c = a\<lparr>au_consumed_at := Some now\<rparr> \<and> au_id a = au_id a0 \<and>
     au_approved_at a \<noteq> None \<and> now < au_expires_at a \<and> au_offer_id a = ho_id off \<and>
     detail_hash sha off = Inr (au_detail_hash a) \<and> au_consumed_at a = None \<and>
     held g' (au_id a0) = Some c"
proof -
  obtain a u where a: "latest a0 g = Inr a" "assert_current sha a off now = Inr u" "au_approved_at a \<noteq> None"
      "commit_auth ''hosting_purchase_consumed'' (a\<lparr>au_consumed_at := Some now\<rparr>) now g = (Inr c, g')"
    using op by (auto simp: consume_purchase_def split: sum.splits if_splits)
  have h: "held g (au_id a0) = Some a" using latest_held a(1) inv by (auto simp: gate_inv_def)
  then have "au_id a = au_id a0" using inv by (auto simp: gate_inv_def)
  then show ?thesis
    using assert_current_open [OF a(2)] commit_auth_held [OF a(4)] inv a(3) h by (auto simp: gate_inv_def)
qed

lemma consume_step:
  assumes inv: "gate_inv g" and op: "consume_purchase sha a0 off now g = (r, g')"
  shows "gate_inv g' \<and> gate_le g g'"
proof (cases "g' = g")
  case False
  then obtain a u where a: "latest a0 g = Inr a" "assert_current sha a off now = Inr u" "au_approved_at a \<noteq> None"
      "commit_auth ''hosting_purchase_consumed'' (a\<lparr>au_consumed_at := Some now\<rparr>) now g = (r, g')"
    using op by (auto simp: consume_purchase_def split: sum.splits if_splits)
  have h: "held g (au_id a0) = Some a" using latest_held a(1) inv by (auto simp: gate_inv_def)
  then have "au_id a = au_id a0" "auth_ok a" using inv by (auto simp: gate_inv_def)
  then show ?thesis
    using assert_current_open [OF a(2)] gate_change [OF inv h _ a(4)] a(3)
    by (auto simp: auth_ok_def same_terms_def)
qed (use inv in simp)

lemma close_step:
  assumes inv: "gate_inv g" and op: "expire_purchase a0 now g = (r, g') \<or> cancel_purchase a0 now g = (r, g')"
  shows "gate_inv g' \<and> gate_le g g'"
proof (cases "g' = g")
  case False
  obtain a ev b where a: "latest a0 g = Inr a" "au_consumed_at a = None" "au_cancelled_at a = None"
      "au_expired_at a = None" "commit_auth ev b now g = (r, g')"
      "b = a\<lparr>au_expired_at := Some now\<rparr> \<or> b = a\<lparr>au_cancelled_at := Some now\<rparr>"
    using op
  proof
    assume "expire_purchase a0 now g = (r, g')"
    then show ?thesis using that False by (auto simp: expire_purchase_def split: sum.splits if_splits)
  next
    assume "cancel_purchase a0 now g = (r, g')"
    then show ?thesis using that False by (auto simp: cancel_purchase_def split: sum.splits if_splits)
  qed
  have h: "held g (au_id a0) = Some a" using latest_held a(1) inv by (auto simp: gate_inv_def)
  then have o: "au_id a = au_id a0" "auth_ok a" using inv by (auto simp: gate_inv_def)
  have "auth_ok b" "same_terms a b" "au_id b = au_id a0" "\<not> auth_final (auth_state a)"
    using a o by (auto simp: auth_ok_def same_terms_def auth_state_def)
  then show ?thesis using gate_change [OF inv h _ a(5)] by simp
qed (use inv in simp)

definition gate_status :: "purchase_gate \<Rightarrow> string \<Rightarrow> auth_state option" where
  "gate_status g i = map_option auth_state (held g i)"

lemma gate_step_inv:
  assumes "gate_inv g" "gate_ok g x"
  shows "gate_inv (gate_step sha g x) \<and> gate_le g (gate_step sha g x)"
proof (cases x)
  case (GRequest i off ttl now)
  then show ?thesis
    using request_step [OF assms(1), of i sha off ttl now] assms(2) by (cases "request_purchase sha i off ttl now g") auto
next
  case (GApprove a off now)
  then show ?thesis using approve_step [OF assms(1)] by (cases "approve_purchase sha a off now g") auto
next
  case (GConsume a off now)
  then show ?thesis using consume_step [OF assms(1)] by (cases "consume_purchase sha a off now g") auto
next
  case (GExpire a now)
  then show ?thesis using close_step [OF assms(1)] by (cases "expire_purchase a now g") auto
next
  case (GCancel a now)
  then show ?thesis using close_step [OF assms(1)] by (cases "cancel_purchase a now g") auto
qed

interpretation purchases: decision_store "gate_step sha" gate_ok gate_inv gate_le gate_status auth_final
  for sha :: "string \<Rightarrow> string"
proof unfold_locales
  fix s t :: purchase_gate and i x
  assume "gate_le s t" "gate_status s i = Some x" "auth_final x"
  then show "gate_status t i = Some x" by (auto simp: gate_status_def gate_le_def)
qed (auto simp: gate_step_inv intro: gate_le_trans)

section \<open>Purchases\<close>

definition empty_gate :: "purchase_gate" where
  "empty_gate = \<lparr>pg_audit = Some [], pg_store = Some [], pg_current = []\<rparr>"

lemma empty_gate_inv [simp]: "gate_inv empty_gate"
  by (simp add: gate_inv_def empty_gate_def held_def)

definition demo_offer :: "hosting_offer" where
  "demo_offer = \<lparr>ho_id = ''o1'', ho_provider = ''p'', ho_plan = ''small'', ho_region = ''eu'', ho_price = 500,
     ho_currency = ''USD'', ho_period = ''month'', ho_free = False, ho_boundary = ''eu'', ho_compute = ''1''\<rparr>"

definition demo_auth :: "authorization" where
  "demo_auth = \<lparr>au_id = ''x'', au_offer_id = ''o1'', au_detail_hash = offer_payload demo_offer, au_amount = 500,
     au_currency = ''USD'', au_period = ''month'', au_expires_at = 300, au_approved_at = None,
     au_consumed_at = None, au_expired_at = None, au_cancelled_at = None\<rparr>"

definition demo_requests :: "gate_op list" where
  "demo_requests = [GRequest ''x'' demo_offer 300 0, GApprove demo_auth demo_offer 10]"

definition demo_gate :: "purchase_gate" where
  "demo_gate = run (gate_step id) empty_gate demo_requests"

lemma demo_requests_legal: "legal gate_ok (gate_step id) empty_gate demo_requests"
  by code_simp

lemma demo_consume: "fst (consume_purchase id demo_auth demo_offer 20 demo_gate) =
    Inr (demo_auth\<lparr>au_approved_at := Some 10, au_consumed_at := Some 20\<rparr>)"
  by code_simp



text \<open>
  A purchase authorization is consumed at most once: after it has been consumed, no later
  attempt succeeds, whatever happens in between and whatever object the caller presents.
\<close>

theorem consumed_at_most_once:
  assumes "legal gate_ok (gate_step sha) empty_gate (ops @ GConsume a off now # more_ops)"
    and "fst (consume_purchase sha a off now (run (gate_step sha) empty_gate ops)) = Inr c"
    and "au_id a' = au_id a"
  shows "\<exists>e. consume_purchase sha a' off' now'
       (run (gate_step sha) empty_gate (ops @ GConsume a off now # more_ops)) =
     (Inl e, run (gate_step sha) empty_gate (ops @ GConsume a off now # more_ops))"
proof -
  let ?ops = "ops @ [GConsume a off now]"
  let ?g = "run (gate_step sha) empty_gate (?ops @ more_ops)"
  have leg: "legal gate_ok (gate_step sha) empty_gate (?ops @ more_ops)" using assms(1) by simp
  have inv0: "gate_inv (run (gate_step sha) empty_gate ops)"
    by (rule purchases.run_inv) (use assms(1) in \<open>simp_all add: legal_append\<close>)
  obtain g' where g': "consume_purchase sha a off now (run (gate_step sha) empty_gate ops) = (Inr c, g')"
    using assms(2) by (metis prod.collapse)
  have "held (run (gate_step sha) empty_gate ?ops) (au_id a) = Some c" "au_consumed_at c = Some now"
    using consume_spec [OF inv0 g'] g' by (auto simp: run_append)
  then have "gate_status (run (gate_step sha) empty_gate ?ops) (au_id a) = Some Consumed"
    by (simp add: gate_status_def auth_state_def)
  then have fin: "gate_status ?g (au_id a) = Some Consumed"
    using purchases.decided_forever [OF empty_gate_inv leg] by simp
  have inv: "gate_inv ?g" by (rule purchases.run_inv) (use leg in simp_all)
  obtain b where b: "held ?g (au_id a) = Some b" "auth_state b = Consumed"
    using fin by (auto simp: gate_status_def)
  have "latest a' ?g = Inr b"
    using b(1) assms(3) inv by (auto simp: latest_def held_def store_load_raw_def gate_inv_def split: option.splits)
  moreover have "\<exists>e. assert_current sha b off' now' = Inl e"
    using b(2) assert_current_open [of sha b off' now'] by (cases "assert_current sha b off' now'") auto
  ultimately show ?thesis by (auto simp: consume_purchase_def)
qed

theorem consumed_at_most_once_witness:
  "\<exists>e. fst (consume_purchase id demo_auth demo_offer 30
     (run (gate_step id) empty_gate (demo_requests @ GConsume demo_auth demo_offer 20 # [GCancel demo_auth 25]))) = Inl e"
proof -
  have l: "legal gate_ok (gate_step id) empty_gate (demo_requests @ GConsume demo_auth demo_offer 20 # [GCancel demo_auth 25])"
    by code_simp
  have f: "fst (consume_purchase id demo_auth demo_offer 20 (run (gate_step id) empty_gate demo_requests)) =
      Inr (demo_auth\<lparr>au_approved_at := Some 10, au_consumed_at := Some 20\<rparr>)"
    using demo_consume by (simp add: demo_gate_def)
  show ?thesis using consumed_at_most_once [OF l f refl, of demo_offer 30] by auto
qed

definition offer_a :: "hosting_offer" where
  "offer_a = \<lparr>ho_id = ''o1'', ho_provider = ''p'', ho_plan = ''small|eu'', ho_region = ''5'', ho_price = 700,
     ho_currency = ''USD'', ho_period = ''month'', ho_free = False, ho_boundary = ''b'', ho_compute = ''c''\<rparr>"

definition offer_b :: "hosting_offer" where
  "offer_b = \<lparr>ho_id = ''o1'', ho_provider = ''p'', ho_plan = ''small'', ho_region = ''eu'', ho_price = 5,
     ho_currency = ''700'', ho_period = ''USD'', ho_free = False, ho_boundary = ''month|b'', ho_compute = ''c''\<rparr>"

text \<open>
  The detail hash does not separate the fields of an offer: two valid offers with the same
  identifier and different plans, regions and prices have the same hash, whatever the hash
  function, so an authorization for one passes for the other.
\<close>

theorem detail_hash_ambiguous:
  "validate_offer offer_a = Inr () \<and> validate_offer offer_b = Inr () \<and>
   ho_id offer_a = ho_id offer_b \<and> ho_price offer_a \<noteq> ho_price offer_b \<and> ho_region offer_a \<noteq> ho_region offer_b \<and>
   detail_hash sha offer_a = detail_hash sha offer_b"
proof -
  have v: "validate_offer offer_a = Inr ()" "validate_offer offer_b = Inr ()" by code_simp+
  have p: "offer_payload offer_a = offer_payload offer_b" by code_simp
  have h: "detail_hash sha offer_a = detail_hash sha offer_b" by (simp only: detail_hash_def v p sum.case)
  have d: "ho_id offer_a = ho_id offer_b" "ho_price offer_a \<noteq> ho_price offer_b" "ho_region offer_a \<noteq> ho_region offer_b"
    by code_simp+
  show ?thesis by (intro conjI v d h)
qed

section \<open>Search\<close>

lemma dvals_dset: "x \<in> set (dvals (dset k v d)) \<Longrightarrow> x = v \<or> x \<in> set (dvals d)"
  by (induction d) (auto split: if_splits)

definition offered :: "search_request \<Rightarrow> hosting_offer \<Rightarrow> bool" where
  "offered q off \<longleftrightarrow> validate_offer off = Inr () \<and> wanted q off"

lemma search_offers_spec:
  "search_offers q offs c = Inr c' \<Longrightarrow> Ball (set (dvals c)) (offered q) \<Longrightarrow> Ball (set (dvals c')) (offered q)"
proof (induction offs arbitrary: c)
  case (Cons off offs)
  obtain u where v: "validate_offer off = Inr u" using Cons.prems(1) by (auto split: sum.splits)
  show ?case
  proof (cases "wanted q off")
    case False
    then have "search_offers q offs c = Inr c'" using Cons.prems(1) v by simp
    from this Cons.prems(2) show ?thesis by (rule Cons.IH)
  next
    case True
    have "search_offers q offs (dset (ho_id off) off c) = Inr c'"
      using Cons.prems(1) v True by (simp add: publish_offer_def)
    moreover have "Ball (set (dvals (dset (ho_id off) off c))) (offered q)"
      using Cons.prems(2) dvals_dset [of _ "ho_id off" off c] True v by (fastforce simp: offered_def)
    ultimately show ?thesis by (rule Cons.IH)
  qed
qed simp

text \<open>
  A search returns only valid offers that satisfy every filter of the request, cheapest
  first with the free ones before all others.
\<close>

theorem search_sound:
  assumes "search q sources = Inr l"
  shows "(\<forall>off\<in>set l. validate_offer off = Inr () \<and> wanted q off) \<and> sorted (map offer_key l)"
proof -
  obtain c where c: "search_offers q (concat sources) [] = Inr c" "l = compare_offers (sr_region q) (sr_free_only q) c"
    using assms by (cases "search_offers q (concat sources) []") (auto simp: search_def split: if_splits)
  have "Ball (set (dvals c)) (offered q)" using search_offers_spec [OF c(1)] by simp
  then show ?thesis unfolding c(2) compare_offers_def offered_def by (auto simp: sorted_sort_key)
qed

definition demo_query :: "search_request" where
  "demo_query = \<lparr>sr_region = Some ''eu'', sr_maximum = Some 600, sr_currency = Some ''usd'', sr_free_only = False,
     sr_persistent = True\<rparr>"

theorem search_sound_witness: "wanted demo_query demo_offer"
proof -
  have "search demo_query [[offer_a], [demo_offer]] = Inr [demo_offer]" by code_simp
  from search_sound [OF this] show ?thesis by simp
qed

end
