(* ===== verification/Audit_Log.thy ===== *)
theory Audit_Log
  imports Prelude
begin

text \<open>
  The hash-chained audit log (\<open>infrastructure/cognitive_core/identity/audit_log.py\<close>). The log
  is the list of the entries of its file. The hash of a body (SHA-256 of its JSON text), the
  signature function and the validity check of a signature are arguments: \<open>sha\<close>, \<open>sign\<close>,
  \<open>valid\<close>.
\<close>

record actor =
  ac_id :: string
  ac_public :: string
  ac_private :: string

record audit_entry =
  al_seq :: int
  al_time :: string
  al_actor :: string
  al_key :: string
  al_action :: string
  al_payload :: "(string \<times> pyval) list"
  al_prev :: string
  al_hash :: string
  al_sig :: string

definition genesis_hash :: string where
  "genesis_hash = replicate 64 (CHR ''0'')"

text \<open>The body that is hashed, its keys sorted.\<close>

definition hashable_body :: "audit_entry \<Rightarrow> pyval" where
  "hashable_body e = PDict
     [(''action'', PStr (al_action e)), (''actor_id'', PStr (al_actor e)), (''actor_public_key_hex'', PStr (al_key e)),
      (''payload'', PDict (al_payload e)), (''prev_hash'', PStr (al_prev e)), (''seq'', PInt (al_seq e)),
      (''timestamp'', PStr (al_time e))]"

definition audit_append ::
    "(pyval \<Rightarrow> string) \<Rightarrow> (string \<Rightarrow> string \<Rightarrow> string) \<Rightarrow> actor \<Rightarrow> string \<Rightarrow> (string \<times> pyval) list \<Rightarrow> string
     \<Rightarrow> audit_entry list \<Rightarrow> audit_entry list" where
  "audit_append sha sign a action payload now es =
     (let prev = (if es = [] then genesis_hash else al_hash (last es));
          sq = (if es = [] then 0 else al_seq (last es) + 1);
          draft = \<lparr>al_seq = sq, al_time = now, al_actor = ac_id a, al_key = ac_public a, al_action = action,
            al_payload = payload, al_prev = prev, al_hash = '''', al_sig = ''''\<rparr>;
          h = sha (hashable_body draft)
      in es @ [draft\<lparr>al_hash := h, al_sig := sign (ac_private a) h\<rparr>])"

datatype chain_error = OutOfOrder int int | BrokenChain int | HashMismatch int | InvalidSignature int

fun verify_from ::
    "(pyval \<Rightarrow> string) \<Rightarrow> (string \<Rightarrow> string \<Rightarrow> string \<Rightarrow> bool) \<Rightarrow> string \<Rightarrow> int \<Rightarrow> audit_entry list
     \<Rightarrow> chain_error + unit" where
  "verify_from sha valid prev sq [] = Inr ()"
| "verify_from sha valid prev sq (e # es) =
     (if al_seq e \<noteq> sq then Inl (OutOfOrder (al_seq e) sq)
      else if al_prev e \<noteq> prev then Inl (BrokenChain (al_seq e))
      else if sha (hashable_body e) \<noteq> al_hash e then Inl (HashMismatch (al_seq e))
      else if \<not> valid (al_key e) (al_hash e) (al_sig e) then Inl (InvalidSignature (al_seq e))
      else verify_from sha valid (al_hash e) (sq + 1) es)"

definition verify_chain ::
    "(pyval \<Rightarrow> string) \<Rightarrow> (string \<Rightarrow> string \<Rightarrow> string \<Rightarrow> bool) \<Rightarrow> audit_entry list \<Rightarrow> chain_error + unit" where
  "verify_chain sha valid es = verify_from sha valid genesis_hash 0 es"

section \<open>What a verified chain shows\<close>

definition last_hash :: "string \<Rightarrow> audit_entry list \<Rightarrow> string" where
  "last_hash prev es = (if es = [] then prev else al_hash (last es))"

lemma last_hash_simps [simp]:
  "last_hash prev [] = prev" "last_hash prev (e # es) = last_hash (al_hash e) es"
  by (simp_all add: last_hash_def)

lemma verify_append:
  "verify_from sha valid prev sq (es @ fs) = Inr () \<longleftrightarrow>
     verify_from sha valid prev sq es = Inr () \<and>
     verify_from sha valid (last_hash prev es) (sq + int (length es)) fs = Inr ()"
  by (induction es arbitrary: prev sq) (auto simp: algebra_simps)

lemma verify_last_seq:
  "verify_from sha valid prev sq es = Inr () \<Longrightarrow> es \<noteq> [] \<Longrightarrow> al_seq (last es) = sq + int (length es) - 1"
  by (induction es arbitrary: prev sq) (auto split: if_splits)

text \<open>Two entries with the same body, hash and validity differ in their signature at most.\<close>

definition unsigned :: "audit_entry \<Rightarrow> audit_entry" where
  "unsigned e = e\<lparr>al_sig := ''''\<rparr>"

lemma body_determines:
  "hashable_body e = hashable_body f \<Longrightarrow> al_hash e = al_hash f \<Longrightarrow> unsigned e = unsigned f"
  by (cases e; cases f) (simp add: hashable_body_def unsigned_def)

lemma verify_snoc:
  "verify_from sha valid prev sq (es @ [e]) = Inr () \<longleftrightarrow>
     verify_from sha valid prev sq es = Inr () \<and> al_seq e = sq + int (length es) \<and> al_prev e = last_hash prev es \<and>
     sha (hashable_body e) = al_hash e \<and> valid (al_key e) (al_hash e) (al_sig e)"
  by (auto simp: verify_append)

lemma chain_determined:
  "verify_from sha valid p 0 es = Inr () \<Longrightarrow> verify_from sha valid p 0 fs = Inr () \<Longrightarrow>
     length es = length fs \<Longrightarrow> last_hash p es = last_hash p fs \<Longrightarrow>
     inj_on sha (hashable_body ` (set es \<union> set fs)) \<Longrightarrow> map unsigned es = map unsigned fs"
proof (induction es arbitrary: fs rule: rev_induct)
  case (snoc e es)
  obtain gs f where fs: "fs = gs @ [f]" using snoc.prems(3) by (cases fs rule: rev_cases) auto
  have ve: "verify_from sha valid p 0 es = Inr ()" "al_prev e = last_hash p es" "sha (hashable_body e) = al_hash e"
    using snoc.prems(1) by (simp_all add: verify_snoc)
  have vf: "verify_from sha valid p 0 gs = Inr ()" "al_prev f = last_hash p gs" "sha (hashable_body f) = al_hash f"
    using snoc.prems(2) fs by (simp_all add: verify_snoc)
  have h: "al_hash e = al_hash f" using snoc.prems(4) fs by (simp add: last_hash_def)
  have b: "hashable_body e = hashable_body f"
    by (rule inj_onD [OF snoc.prems(5)]) (use ve(3) vf(3) h fs in auto)
  then have "al_prev e = al_prev f" by (simp add: hashable_body_def)
  moreover have "inj_on sha (hashable_body ` (set es \<union> set gs))"
    using snoc.prems(5) fs by (auto intro: inj_on_subset)
  ultimately have "map unsigned es = map unsigned gs"
    using snoc.IH [of gs] ve vf snoc.prems(3) fs by simp
  then show ?case using body_determines [OF b h] fs by simp
qed simp

section \<open>Properties\<close>

text \<open>
  Appending an entry to a log that verifies gives a log that verifies, when a signature
  made with an actor's private key is valid for its public key.
\<close>

theorem audit_append_verifies:
  assumes "verify_chain sha valid es = Inr ()"
    and "\<And>h. valid (ac_public a) h (sign (ac_private a) h)"
  shows "verify_chain sha valid (audit_append sha sign a action payload now es) = Inr ()"
proof -
  define d where "d = \<lparr>al_seq = int (length es), al_time = now, al_actor = ac_id a, al_key = ac_public a,
      al_action = action, al_payload = payload, al_prev = last_hash genesis_hash es, al_hash = '''', al_sig = ''''\<rparr>"
  have "audit_append sha sign a action payload now es =
      es @ [d\<lparr>al_hash := sha (hashable_body d), al_sig := sign (ac_private a) (sha (hashable_body d))\<rparr>]"
    using verify_last_seq [of sha valid genesis_hash 0 es] assms(1)
    by (auto simp: audit_append_def Let_def d_def verify_chain_def last_hash_def)
  moreover have "hashable_body (d\<lparr>al_hash := h, al_sig := s\<rparr>) = hashable_body d" for h s
    by (simp add: hashable_body_def)
  ultimately show ?thesis
    using assms by (simp add: verify_chain_def verify_snoc) (simp add: d_def)
qed

definition demo_sha :: "pyval \<Rightarrow> string" where
  "demo_sha v = (case v of PDict [_, _, _, _, _, (_, PInt i), _] \<Rightarrow> show_int i | _ \<Rightarrow> '''')"

definition demo_actor :: actor where
  "demo_actor = \<lparr>ac_id = ''capability_layer'', ac_public = ''pub'', ac_private = ''priv''\<rparr>"

definition demo_log :: "audit_entry list" where
  "demo_log = audit_append demo_sha (\<lambda>k h. k @ h) demo_actor ''b'' [] ''t1''
     (audit_append demo_sha (\<lambda>k h. k @ h) demo_actor ''a'' [] ''t0'' [])"

definition demo_valid :: "string \<Rightarrow> string \<Rightarrow> string \<Rightarrow> bool" where
  "demo_valid k h s = (s = ''priv'' @ h)"

theorem audit_append_verifies_witness:
  "verify_chain demo_sha demo_valid (audit_append demo_sha (\<lambda>k h. k @ h) demo_actor ''c'' [] ''t2'' demo_log) = Inr ()"
proof (rule audit_append_verifies)
  show "verify_chain demo_sha demo_valid demo_log = Inr ()" by code_simp
  show "demo_valid (ac_public demo_actor) h (ac_private demo_actor @ h)" for h
    by (simp add: demo_valid_def demo_actor_def)
qed

text \<open>
  C17: a verified log is determined by its length and the hash of its last entry, up to the
  signatures: no edit, reordering or removal before the end goes unnoticed, as long as the
  hash function does not collide on the entries at hand.
\<close>

theorem tampering_detected:
  assumes "verify_chain sha valid es = Inr ()" and "verify_chain sha valid fs = Inr ()"
    and "length es = length fs" and "last_hash genesis_hash es = last_hash genesis_hash fs"
    and "inj_on sha (hashable_body ` (set es \<union> set fs))"
  shows "map unsigned es = map unsigned fs"
  using assms unfolding verify_chain_def by (rule chain_determined)

theorem tampering_detected_witness: "map unsigned demo_log = map unsigned (demo_log @ [])"
proof (rule tampering_detected)
  show v: "verify_chain demo_sha demo_valid demo_log = Inr ()" by code_simp
  then show "verify_chain demo_sha demo_valid (demo_log @ []) = Inr ()" by simp
  have "map (demo_sha \<circ> hashable_body) demo_log = [''0'', ''1'']" by code_simp
  then obtain x y where l: "demo_log = [x, y]" "demo_sha (hashable_body x) = ''0''" "demo_sha (hashable_body y) = ''1''"
    by (auto simp: map_eq_Cons_conv)
  show "inj_on demo_sha (hashable_body ` (set demo_log \<union> set (demo_log @ [])))"
    unfolding l(1) by (auto simp: inj_on_def l(2,3))
qed simp_all

text \<open>
  The check does not notice a truncated file: a log without its last entries verifies.
\<close>

lemma truncation_undetected:
  assumes "verify_chain sha valid (es @ fs) = Inr ()"
  shows "verify_chain sha valid es = Inr ()"
  using assms by (simp add: verify_chain_def verify_append)

end
