(* ===== verification/Capability.thy ===== *)
theory Capability
  imports Audit_Log
begin

text \<open>
  The capability registry: descriptors
  (\<open>infrastructure/cognitive_core/capability/descriptor.py\<close>), the versioned registry with its
  JSON file (\<open>registry.py\<close>) and the audited facade (\<open>capability_layer.py\<close>). A fresh
  identifier and the time of creation are arguments; the file is its parsed content.
\<close>

section \<open>Descriptors\<close>

datatype risk_level = Low | Medium | High

fun risk_value :: "risk_level \<Rightarrow> string" where
  "risk_value Low = ''low''"
| "risk_value Medium = ''medium''"
| "risk_value High = ''high''"

definition risk_of :: "string \<Rightarrow> risk_level option" where
  "risk_of s = (if s = ''low'' then Some Low else if s = ''medium'' then Some Medium
     else if s = ''high'' then Some High else None)"

record descriptor =
  cd_id :: string
  cd_component :: string
  cd_name :: string
  cd_description :: string
  cd_input :: pyval
  cd_output :: pyval
  cd_cost :: real
  cd_risk :: risk_level
  cd_tags :: "string list"
  cd_version :: int
  cd_created :: string

definition desc_to_dict :: "descriptor \<Rightarrow> (string \<times> pyval) list" where
  "desc_to_dict d =
     [(''capability_id'', PStr (cd_id d)), (''component_id'', PStr (cd_component d)), (''name'', PStr (cd_name d)),
      (''description'', PStr (cd_description d)), (''input_schema'', cd_input d), (''output_schema'', cd_output d),
      (''estimated_cost'', PFloat (cd_cost d)), (''risk_level'', PStr (risk_value (cd_risk d))),
      (''tags'', PList (map PStr (cd_tags d))), (''version'', PInt (cd_version d)), (''created_at'', PStr (cd_created d))]"

text \<open>Reading a field of the expected type; \<open>None\<close> stands for the error the code raises.\<close>

fun as_str :: "pyval option \<Rightarrow> string option" where
  "as_str (Some (PStr s)) = Some s"
| "as_str _ = None"

fun as_strs :: "pyval option \<Rightarrow> string list option" where
  "as_strs None = Some []"
| "as_strs (Some (PList l)) = those (map (\<lambda>v. as_str (Some v)) l)"
| "as_strs _ = None"

definition desc_from_dict :: "(string \<times> pyval) list \<Rightarrow> descriptor option" where
  "desc_from_dict d =
     Option.bind (as_str (dget d ''capability_id'')) (\<lambda>i.
     Option.bind (as_str (dget d ''component_id'')) (\<lambda>c.
     Option.bind (as_str (dget d ''name'')) (\<lambda>n.
     Option.bind (as_str (dget d ''description'')) (\<lambda>ds.
     Option.bind (dget d ''input_schema'') (\<lambda>is.
     Option.bind (dget d ''output_schema'') (\<lambda>os.
     Option.bind (case dget d ''estimated_cost'' of Some (PFloat r) \<Rightarrow> Some r | _ \<Rightarrow> None) (\<lambda>cost.
     Option.bind (Option.bind (as_str (dget d ''risk_level'')) risk_of) (\<lambda>r.
     Option.bind (as_strs (dget d ''tags'')) (\<lambda>tags.
     Option.bind (case dget d ''version'' of Some (PInt v) \<Rightarrow> Some v | _ \<Rightarrow> None) (\<lambda>v.
     Option.bind (as_str (dget d ''created_at'')) (\<lambda>t.
       Some \<lparr>cd_id = i, cd_component = c, cd_name = n, cd_description = ds, cd_input = is, cd_output = os,
             cd_cost = cost, cd_risk = r, cd_tags = tags, cd_version = v, cd_created = t\<rparr>)))))))))))"

definition valid_name_char :: "char \<Rightarrow> bool" where
  "valid_name_char c = (let n = (of_char c :: nat) in
     (97 \<le> n \<and> n \<le> 122) \<or> (65 \<le> n \<and> n \<le> 90) \<or> (48 \<le> n \<and> n \<le> 57) \<or> c \<in> set ''_.-'')"

record publication =
  pb_component :: string
  pb_name :: string
  pb_description :: string
  pb_input :: pyval
  pb_output :: pyval
  pb_cost :: real
  pb_risk :: risk_level
  pb_tags :: "string list"

definition build_descriptor :: "publication \<Rightarrow> int \<Rightarrow> string \<Rightarrow> string \<Rightarrow> string + descriptor" where
  "build_descriptor p version i now =
     (if pb_name p = [] \<or> py_strip (pb_name p) = [] then Inl ''Capability name must be non-empty.''
      else if \<not> list_all valid_name_char (pb_name p) then Inl ''Capability name contains invalid characters''
      else if pb_cost p < 0 then Inl ''estimated_cost must be >= 0.''
      else Inr \<lparr>cd_id = i, cd_component = pb_component p, cd_name = pb_name p, cd_description = pb_description p,
             cd_input = pb_input p, cd_output = pb_output p, cd_cost = pb_cost p, cd_risk = pb_risk p,
             cd_tags = pb_tags p, cd_version = version, cd_created = now\<rparr>)"

section \<open>The registry\<close>

type_synonym registry_file = "((string \<times> pyval) list list \<times> (string, string) dict) option"

record registry =
  cr_by_id :: "(string, descriptor) dict"
  cr_latest :: "(string \<times> string, string) dict"
  cr_file :: registry_file

text \<open>A key of the file joins component and name with a NUL character.\<close>

definition nul :: char where
  "nul = CHR 0x00"

definition file_key :: "string \<times> string \<Rightarrow> string" where
  "file_key k = fst k @ nul # snd k"

definition split_key :: "string \<Rightarrow> string \<times> string" where
  "split_key s = (takeWhile (\<lambda>c. c \<noteq> nul) s, tl (dropWhile (\<lambda>c. c \<noteq> nul) s))"

definition reg_save :: "registry \<Rightarrow> registry" where
  "reg_save r = r\<lparr>cr_file :=
     Some (map desc_to_dict (dvals (cr_by_id r)), map (\<lambda>(k, i). (file_key k, i)) (cr_latest r))\<rparr>"

fun load_descriptors :: "(string \<times> pyval) list list \<Rightarrow> (string, descriptor) dict \<Rightarrow> (string, descriptor) dict option" where
  "load_descriptors [] m = Some m"
| "load_descriptors (x # xs) m =
     (case desc_from_dict x of None \<Rightarrow> None | Some d \<Rightarrow> load_descriptors xs (dset (cd_id d) d m))"

text \<open>The constructor over a file; \<open>None\<close> when a record of it cannot be read.\<close>

definition reg_load :: "registry_file \<Rightarrow> registry option" where
  "reg_load f =
     (case f of
        None \<Rightarrow> Some \<lparr>cr_by_id = [], cr_latest = [], cr_file = None\<rparr>
      | Some (ds, ls) \<Rightarrow>
          (case load_descriptors ds [] of
             None \<Rightarrow> None
           | Some m \<Rightarrow> Some \<lparr>cr_by_id = m, cr_latest = fold (\<lambda>(k, i). dset (split_key k) i) ls [], cr_file = f\<rparr>))"

definition register :: "publication \<Rightarrow> string \<Rightarrow> string \<Rightarrow> registry \<Rightarrow> (string + descriptor) \<times> registry" where
  "register p i now r =
     (let key = (pb_component p, pb_name p);
          version = (case dget (cr_latest r) key of
            None \<Rightarrow> Some 1
          | Some old \<Rightarrow> if old = [] then Some 1 else map_option (\<lambda>d. cd_version d + 1) (dget (cr_by_id r) old))
      in case version of
           None \<Rightarrow> (Inl ''KeyError'', r)
         | Some v \<Rightarrow>
             (case build_descriptor p v i now of
                Inl e \<Rightarrow> (Inl e, r)
              | Inr d \<Rightarrow>
                  (Inr d, reg_save (r\<lparr>cr_by_id := dset (cd_id d) d (cr_by_id r),
                                      cr_latest := dset key (cd_id d) (cr_latest r)\<rparr>))))"

definition unregister :: "string \<Rightarrow> string \<Rightarrow> registry \<Rightarrow> registry" where
  "unregister c n r =
     (if (c, n) \<in> set (dkeys (cr_latest r)) then reg_save (r\<lparr>cr_latest := ddel (c, n) (cr_latest r)\<rparr>) else r)"

definition reg_get :: "string \<Rightarrow> registry \<Rightarrow> string + descriptor" where
  "reg_get i r = (case dget (cr_by_id r) i of None \<Rightarrow> Inl (''No capability registered with id='' @ i) | Some d \<Rightarrow> Inr d)"

definition get_latest :: "string \<Rightarrow> string \<Rightarrow> registry \<Rightarrow> string + descriptor" where
  "get_latest c n r =
     (case dget (cr_latest r) (c, n) of
        None \<Rightarrow> Inl (''No capability named '' @ n @ '' registered by component '' @ c)
      | Some i \<Rightarrow> (case dget (cr_by_id r) i of None \<Rightarrow> Inl ''KeyError'' | Some d \<Rightarrow> Inr d))"

text \<open>\<open>None\<close> where the code would meet a missing key.\<close>

definition find_by_name :: "string \<Rightarrow> registry \<Rightarrow> descriptor list option" where
  "find_by_name n r = those (map (\<lambda>p. dget (cr_by_id r) (snd p)) (filter (\<lambda>p. snd (fst p) = n) (cr_latest r)))"

definition list_capabilities :: "string option \<Rightarrow> string option \<Rightarrow> registry \<Rightarrow> descriptor list option" where
  "list_capabilities c tag r =
     map_option (filter (\<lambda>d. (case c of None \<Rightarrow> True | Some x \<Rightarrow> cd_component d = x) \<and>
                             (case tag of None \<Rightarrow> True | Some t \<Rightarrow> t \<in> set (cd_tags d))))
       (those (map (\<lambda>p. dget (cr_by_id r) (snd p)) (cr_latest r)))"

section \<open>The audited facade\<close>

record cap_layer =
  cl_registry :: registry
  cl_audit :: "audit_entry list"
  cl_actor :: actor

text \<open>What the layer draws from outside: hash and signature functions, the clock, a fresh identifier.\<close>

record cap_env =
  ce_sha :: "pyval \<Rightarrow> string"
  ce_sign :: "string \<Rightarrow> string \<Rightarrow> string"
  ce_now :: string
  ce_id :: string

definition publish_capability :: "cap_env \<Rightarrow> publication \<Rightarrow> cap_layer \<Rightarrow> (string + descriptor) \<times> cap_layer" where
  "publish_capability env p l =
     (case register p (ce_id env) (ce_now env) (cl_registry l) of
        (Inl e, r) \<Rightarrow> (Inl e, l\<lparr>cl_registry := r\<rparr>)
      | (Inr d, r) \<Rightarrow>
          (Inr d, l\<lparr>cl_registry := r,
             cl_audit := audit_append (ce_sha env) (ce_sign env) (cl_actor l) ''capability.publish''
               [(''capability_id'', PStr (cd_id d)), (''component_id'', PStr (pb_component p)), (''name'', PStr (pb_name p)),
                (''version'', PInt (cd_version d)), (''risk_level'', PStr (risk_value (cd_risk d)))]
               (ce_now env) (cl_audit l)\<rparr>))"

definition unpublish :: "cap_env \<Rightarrow> string \<Rightarrow> string \<Rightarrow> cap_layer \<Rightarrow> cap_layer" where
  "unpublish env c n l =
     l\<lparr>cl_registry := unregister c n (cl_registry l),
       cl_audit := audit_append (ce_sha env) (ce_sign env) (cl_actor l) ''capability.unpublish''
         [(''component_id'', PStr c), (''name'', PStr n)] (ce_now env) (cl_audit l)\<rparr>"

end
