(* ===== verification/Approval.thy ===== *)
theory Approval
  imports Prelude
begin

text \<open>
  The approval gate of the Telegram service (\<open>application/telegram_service.py\<close>) and the
  durable store of approval records behind it (\<open>infrastructure/approval_store.py\<close>).

  The records file is the list of records last written (\<open>None\<close>: no file yet), the audit file
  the list of its lines. Callbacks are not modelled as code: running one is an effect, and
  whether it raised (and with which message) is an argument. One reading of the clock stands
  for the readings of one call into the store. The response handler is given in the four parts
  that other threads can come between: taking the pending approval under the lock, moving
  the stored record, running the callback, and recording the outcome.
\<close>

section \<open>The store\<close>

record approval =
  ap_id :: string
  ap_description :: string
  ap_chat :: string
  ap_created :: real
  ap_expires :: real
  ap_status :: string
  ap_reason :: string

record approval_event =
  ae_event :: string
  ae_at :: real
  ae_id :: string
  ae_chat :: string
  ae_status :: string
  ae_reason :: string

record approval_store =
  as_records :: "(string, approval) dict"
  as_disk :: "approval list option"
  as_audit :: "approval_event list"

definition save_approvals :: "approval_store \<Rightarrow> approval_store" where
  "save_approvals st = st\<lparr>as_disk := Some (dvals (as_records st))\<rparr>"

definition audit_approval :: "string \<Rightarrow> real \<Rightarrow> approval \<Rightarrow> approval_store \<Rightarrow> approval_store" where
  "audit_approval ev t r st =
     st\<lparr>as_audit := as_audit st @
       [\<lparr>ae_event = ev, ae_at = t, ae_id = ap_id r, ae_chat = ap_chat r, ae_status = ap_status r,
         ae_reason = ap_reason r\<rparr>]\<rparr>"

definition records_of :: "approval list \<Rightarrow> (string, approval) dict" where
  "records_of rs = fold (\<lambda>r. dset (ap_id r) r) rs []"

text \<open>A new store over the files of an earlier one.\<close>

definition load_approvals :: "approval_store \<Rightarrow> approval_store" where
  "load_approvals old =
     old\<lparr>as_records := (case as_disk old of None \<Rightarrow> [] | Some rs \<Rightarrow> records_of rs)\<rparr>"

definition create_approval :: "approval \<Rightarrow> real \<Rightarrow> approval_store \<Rightarrow> (string + unit) \<times> approval_store" where
  "create_approval r t st =
     (case dget (as_records st) (ap_id r) of
        Some _ \<Rightarrow> (Inl (''approval '' @ ap_id r @ '' already exists''), st)
      | None \<Rightarrow>
          (Inr (), audit_approval ''created'' t r
             (save_approvals (st\<lparr>as_records := dset (ap_id r) r (as_records st)\<rparr>))))"

definition get_approval :: "string \<Rightarrow> approval_store \<Rightarrow> approval option" where
  "get_approval i st = dget (as_records st) i"

definition transition ::
    "string \<Rightarrow> string \<Rightarrow> string \<Rightarrow> string list \<Rightarrow> real \<Rightarrow> approval_store \<Rightarrow> approval option \<times> approval_store" where
  "transition i status reason allowed_from t st =
     (case dget (as_records st) i of
        None \<Rightarrow> (None, st)
      | Some r \<Rightarrow>
          if ap_status r \<notin> set allowed_from then (None, st)
          else
            (let r' = r\<lparr>ap_status := status, ap_reason := reason\<rparr> in
             (Some r', audit_approval status t r'
                (save_approvals (st\<lparr>as_records := dset i r' (as_records st)\<rparr>)))))"

text \<open>
  The two sweeps change every record that satisfies a condition, save once if there was one,
  and audit each; they share their body.
\<close>

definition sweep ::
    "(approval \<Rightarrow> bool) \<Rightarrow> string \<Rightarrow> string \<Rightarrow> real \<Rightarrow> approval_store \<Rightarrow> approval list \<times> approval_store" where
  "sweep due status reason t st =
     (let change = (\<lambda>r. r\<lparr>ap_status := status, ap_reason := reason\<rparr>);
          hit = map change (filter due (dvals (as_records st)));
          st1 = st\<lparr>as_records := dmap (\<lambda>r. if due r then change r else r) (as_records st)\<rparr>
      in (hit, if hit = [] then st1 else fold (audit_approval status t) hit (save_approvals st1)))"

definition expire_due :: "real \<Rightarrow> real \<Rightarrow> approval_store \<Rightarrow> approval list \<times> approval_store" where
  "expire_due current t =
     sweep (\<lambda>r. ap_status r = ''pending'' \<and> ap_expires r \<le> current) ''expired'' ''approval TTL elapsed'' t"

definition cancel_unrecoverable_after_restart :: "real \<Rightarrow> approval_store \<Rightarrow> approval list \<times> approval_store" where
  "cancel_unrecoverable_after_restart t =
     sweep (\<lambda>r. ap_status r = ''pending'') ''cancelled_restart''
       ''process restarted; execution callback was deliberately not restored'' t"

section \<open>The gate\<close>

record pending_approval =
  pa_id :: string
  pa_description :: string
  pa_chat :: string
  pa_created :: real
  pa_expires :: real

datatype reply =
    ApprovalRequired string string real
  | Usage
  | OtherChat
  | ExpiredNoAction string
  | CancelledAfterRestart string
  | NoPendingApproval string
  | StateChanged string
  | FailedSafely string string
  | Decided bool string
  | Text string

datatype tg_effect =
    Say string reply
  | Ran string bool
  | Published string "(string \<times> string) list"

record telegram =
  tg_admins :: "string list"
  tg_ttl :: real
  tg_pending :: "(string, pending_approval) dict"
  tg_store :: "approval_store option"
  tg_links :: "(string, string) dict"
  tg_tasks :: "(string, string) dict"
  tg_out :: "tg_effect list"

definition emit :: "tg_effect \<Rightarrow> telegram \<Rightarrow> telegram" where
  "emit e g = g\<lparr>tg_out := tg_out g @ [e]\<rparr>"

definition is_admin_chat :: "string \<Rightarrow> telegram \<Rightarrow> bool" where
  "is_admin_chat chat g \<longleftrightarrow> chat \<in> set (tg_admins g)"

text \<open>A call into the optional store, ignoring what it returns.\<close>

definition on_store :: "(approval_store \<Rightarrow> 'a \<times> approval_store) \<Rightarrow> telegram \<Rightarrow> telegram" where
  "on_store f g = g\<lparr>tg_store := map_option (\<lambda>st. snd (f st)) (tg_store g)\<rparr>"

text \<open>The constructor: unresolved approvals of the process before are cancelled.\<close>

definition new_telegram ::
    "string list \<Rightarrow> real \<Rightarrow> approval_store option \<Rightarrow> (string, string) dict \<Rightarrow> real \<Rightarrow> string + telegram" where
  "new_telegram admins ttl store links t =
     (if ttl \<le> 0 then Inl ''approval_ttl_seconds must be greater than zero''
      else Inr (on_store (cancel_unrecoverable_after_restart t)
             \<lparr>tg_admins = admins, tg_ttl = ttl, tg_pending = [], tg_store = store, tg_links = links,
              tg_tasks = [], tg_out = []\<rparr>))"

definition request_approval ::
    "string \<Rightarrow> string \<Rightarrow> string \<Rightarrow> real \<Rightarrow> telegram \<Rightarrow> (string + unit) \<times> telegram" where
  "request_approval chat i desc now g =
     (if \<not> is_admin_chat chat g
      then (Inl ''sensitive approval may be requested only for an allowed admin chat'', g)
      else if py_strip i = [] then (Inl ''approval_id must not be empty'', g)
      else if i \<in> set (dkeys (tg_pending g)) then (Inl (''approval '' @ i @ '' already exists''), g)
      else
        (let g1 = g\<lparr>tg_pending := dset i \<lparr>pa_id = i, pa_description = desc, pa_chat = chat, pa_created = now,
                       pa_expires = now + tg_ttl g\<rparr> (tg_pending g)\<rparr>;
             announce = emit (Say chat (ApprovalRequired i desc (tg_ttl g)))
         in case tg_store g1 of
              None \<Rightarrow> (Inr (), announce g1)
            | Some st \<Rightarrow>
                (case create_approval \<lparr>ap_id = i, ap_description = desc, ap_chat = chat, ap_created = now,
                         ap_expires = now + tg_ttl g, ap_status = ''pending'', ap_reason = ''''\<rparr>
                         now (snd (expire_due now now st)) of
                   (Inl e, st') \<Rightarrow> (Inl e, g1\<lparr>tg_store := Some st'\<rparr>)
                 | (Inr _, st') \<Rightarrow> (Inr (), announce (g1\<lparr>tg_store := Some st'\<rparr>)))))"

text \<open>The request has been entered, with its callbacks, although storing it may then have failed.\<close>

definition entered :: "string \<Rightarrow> telegram \<Rightarrow> telegram \<Rightarrow> bool" where
  "entered i g g' \<longleftrightarrow> i \<in> set (dkeys (tg_pending g')) \<and> i \<notin> set (dkeys (tg_pending g))"

text \<open>
  First part of the handler: up to the point where the pending approval has been taken out.
  \<open>t1\<close> is the clock in the store's sweep, \<open>t2\<close> the later reading under the lock.
\<close>

definition take_pending ::
    "string \<Rightarrow> string \<Rightarrow> real \<Rightarrow> real \<Rightarrow> telegram \<Rightarrow> pending_approval option \<times> telegram" where
  "take_pending chat args t1 t2 g =
     (let i = py_strip args in
      if i = [] then (None, emit (Say chat Usage) g)
      else
        (let g1 = on_store (expire_due t1 t1) g;
             missing = (\<lambda>expired h.
               (let stored = (case tg_store h of None \<Rightarrow> None | Some st \<Rightarrow> map_option ap_status (get_approval i st)) in
                emit (Say chat
                  (if expired \<or> stored = Some ''expired'' then ExpiredNoAction i
                   else if stored = Some ''cancelled_restart'' then CancelledAfterRestart i
                   else NoPendingApproval i)) h))
         in case dget (tg_pending g1) i of
              None \<Rightarrow> (None, missing False g1)
            | Some p \<Rightarrow>
                if pa_expires p \<le> t2 then
                  (None, missing True (on_store (transition i ''expired'' ''approval TTL elapsed'' [''pending''] t2)
                           (g1\<lparr>tg_pending := ddel i (tg_pending g1)\<rparr>)))
                else if pa_chat p \<noteq> chat then (None, emit (Say chat OtherChat) g1)
                else (Some p, g1\<lparr>tg_pending := ddel i (tg_pending g1)\<rparr>)))"

text \<open>Second part: the stored record moves, and the callback may only run if that succeeded.\<close>

definition begin_decision :: "string \<Rightarrow> string \<Rightarrow> bool \<Rightarrow> real \<Rightarrow> telegram \<Rightarrow> bool \<times> telegram" where
  "begin_decision chat i approved t g =
     (case tg_store g of
        None \<Rightarrow> (True, g)
      | Some st \<Rightarrow>
          if approved then
            (case transition i ''executing'' ''approval confirmed'' [''pending''] t st of
               (None, st') \<Rightarrow> (False, emit (Say chat (StateChanged i)) (g\<lparr>tg_store := Some st'\<rparr>))
             | (Some _, st') \<Rightarrow> (True, g\<lparr>tg_store := Some st'\<rparr>))
          else
            (True, g\<lparr>tg_store :=
               Some (snd (transition i ''rejected'' ''rejected by administrator'' [''pending''] t st))\<rparr>))"

text \<open>Third part: the callback runs. Fourth part: its outcome, \<open>Some e\<close> an exception with message \<open>e\<close>.\<close>

definition call_back :: "string \<Rightarrow> bool \<Rightarrow> telegram \<Rightarrow> telegram" where
  "call_back i approved g = emit (Ran i approved) g"

definition finish_decision ::
    "string \<Rightarrow> string \<Rightarrow> bool \<Rightarrow> (string \<times> string) option \<Rightarrow> real \<Rightarrow> telegram \<Rightarrow> telegram" where
  "finish_decision chat i approved outcome t g =
     (case outcome of
        Some (name, msg) \<Rightarrow>
          emit (Say chat (FailedSafely i msg))
            (emit (Published ''admin.approval_execution_failed'' [(''approval_id'', i)])
               (on_store (transition i ''failed'' (''execution failed: '' @ name) [''executing''] t) g))
      | None \<Rightarrow>
          emit (Say chat (Decided approved i))
            (if approved then on_store (transition i ''approved'' ''execution completed'' [''executing''] t) g else g))"

definition handle_approval_response ::
    "string \<Rightarrow> string \<Rightarrow> bool \<Rightarrow> real \<Rightarrow> real \<Rightarrow> (string \<times> string) option \<Rightarrow> telegram \<Rightarrow> telegram" where
  "handle_approval_response chat args approved t1 t2 outcome g =
     (let i = py_strip args in
      case take_pending chat args t1 t2 g of
        (None, g1) \<Rightarrow> g1
      | (Some _, g1) \<Rightarrow>
          (case begin_decision chat i approved t2 g1 of
             (False, g2) \<Rightarrow> g2
           | (True, g2) \<Rightarrow> finish_decision chat i approved outcome t2 (call_back i approved g2)))"

section \<open>Messages\<close>

text \<open>
  \<open>authenticate\<close> is the token service, \<open>admin_command\<close> what the registered handler of another
  administrative command does; \<open>task_id\<close> is the identifier of the task of the workflow that is
  created for an ordinary message. A task created is recorded as the effect \<open>workflow.create\<close>
  with the name, agent and prompt of the command. The pictographs of the messages are left out
  (the check mark that acknowledges a command is \<open>''ok''\<close>).
\<close>

definition link_chat :: "(string \<Rightarrow> string option) \<Rightarrow> string \<Rightarrow> string \<Rightarrow> telegram \<Rightarrow> (string + string) \<times> telegram" where
  "link_chat authenticate chat token g =
     (case authenticate token of
        None \<Rightarrow> (Inl ''Agent token is invalid or revoked.'', g)
      | Some agent \<Rightarrow> (Inr agent, g\<lparr>tg_links := dset chat agent (tg_links g)\<rparr>))"

definition unlink_chat :: "string \<Rightarrow> telegram \<Rightarrow> telegram" where
  "unlink_chat chat g = g\<lparr>tg_links := ddel chat (tg_links g)\<rparr>"

definition first_word :: "string \<Rightarrow> string" where
  "first_word s = takeWhile (\<lambda>c. \<not> is_space c) s"

definition rest_of :: "string \<Rightarrow> string" where
  "rest_of s = dropWhile is_space (dropWhile (\<lambda>c. \<not> is_space c) s)"

record tg_input =
  ti_t1 :: real
  ti_t2 :: real
  ti_outcome :: "(string \<times> string) option"
  ti_task :: string

definition handle_incoming_message ::
    "(string \<Rightarrow> string option) \<Rightarrow> (string \<rightharpoonup> (string \<Rightarrow> string \<Rightarrow> telegram \<Rightarrow> telegram)) \<Rightarrow> tg_input
     \<Rightarrow> string \<Rightarrow> string \<Rightarrow> telegram \<Rightarrow> string \<times> telegram" where
  "handle_incoming_message authenticate admin_command inp chat txt g =
     (let stripped = py_strip txt; word = first_word stripped;
          builtin = (if word = ''/approve'' then Some True else if word = ''/reject'' then Some False else None)
      in if builtin \<noteq> None \<or> admin_command word \<noteq> None then
           (if \<not> is_admin_chat chat g then
              (''This command is restricted to authorized administrative chats.'',
               emit (Published ''admin.command_denied'' [(''chat_id'', chat), (''command'', word)]) g)
            else
              (let args = py_strip (drop (length word) stripped)
               in (''ok'',
                   case admin_command word of
                     Some h \<Rightarrow> h chat args g
                   | None \<Rightarrow>
                       handle_approval_response chat args (builtin = Some True) (ti_t1 inp) (ti_t2 inp) (ti_outcome inp) g)))
         else if take 5 stripped = ''/link'' then
           (if rest_of stripped = [] then (''Usage: /link <agent token>'', g)
            else case link_chat authenticate chat (py_strip (rest_of stripped)) g of
                   (Inl _, g1) \<Rightarrow>
                     (''Token is invalid or revoked. To obtain a valid token, open the control dashboard (/dashboard), open Agents, and generate a Telegram token next to the agent you want to link. Paste the complete token after /link.'', g1)
                 | (Inr agent, g1) \<Rightarrow> (''Successfully linked to agent '' @ agent @ ''. Send any message to execute it as a task.'', g1))
         else if stripped = ''/unlink'' then (''This chat has been unlinked.'', unlink_chat chat g)
         else case dget (tg_links g) chat of
                None \<Rightarrow> (''This chat is not linked yet. Use: /link <agent token>'', g)
              | Some agent \<Rightarrow>
                  (''Your task was received and is being processed.'',
                   (emit (Published ''workflow.create''
                      [(''name'', ''telegram:'' @ chat), (''agent_id'', agent), (''prompt'', stripped)]) g)
                   \<lparr>tg_tasks := dset (ti_task inp) chat (tg_tasks g)\<rparr>))"

definition pop_pending :: "string option \<Rightarrow> telegram \<Rightarrow> string option \<times> telegram" where
  "pop_pending task g =
     (case task of
        None \<Rightarrow> (None, g)
      | Some i \<Rightarrow> (dget (tg_tasks g) i, g\<lparr>tg_tasks := ddel i (tg_tasks g)\<rparr>))"

text \<open>\<open>answer\<close> is the response of the completed task, read from the workflow.\<close>

definition on_task_completed :: "string option \<Rightarrow> string \<Rightarrow> telegram \<Rightarrow> telegram" where
  "on_task_completed task answer g =
     (case pop_pending task g of
        (None, g1) \<Rightarrow> g1
      | (Some chat, g1) \<Rightarrow> emit (Say chat (Text (''Task completed: '' @ answer))) g1)"

definition on_task_failed :: "string option \<Rightarrow> string option \<Rightarrow> telegram \<Rightarrow> telegram" where
  "on_task_failed task err g =
     (case pop_pending task g of
        (None, g1) \<Rightarrow> g1
      | (Some chat, g1) \<Rightarrow>
          emit (Say chat (Text (''Task failed: '' @ (case err of None \<Rightarrow> ''Unknown error'' | Some e \<Rightarrow> e)))) g1)"


section \<open>A service behind the gate\<close>

text \<open>
  The answer to an approval that a service has requested: the handler, around the callbacks that
  were registered with the approval. \<open>get\<close> and \<open>put\<close> access the gate in the state of the
  service, \<open>callbacks\<close> holds what the registered callbacks close over, \<open>execute\<close> is \<open>on_approve\<close>
  and \<open>decline\<close> is \<open>on_reject\<close>.
\<close>

definition answer_gate ::
    "('s \<Rightarrow> telegram) \<Rightarrow> (telegram \<Rightarrow> 's \<Rightarrow> 's) \<Rightarrow> ('s \<Rightarrow> (string, 'c) dict) \<Rightarrow> ('c \<Rightarrow> 's \<Rightarrow> raised option \<times> 's) \<Rightarrow>
     ('c \<Rightarrow> 's \<Rightarrow> 's) \<Rightarrow> string \<Rightarrow> string \<Rightarrow> bool \<Rightarrow> real \<Rightarrow> real \<Rightarrow> 's \<Rightarrow> 's" where
  "answer_gate get put callbacks execute decline chat args approved t1 t2 s =
     (let aid = py_strip args in
      case take_pending chat args t1 t2 (get s) of
        (None, g) \<Rightarrow> put g s
      | (Some _, g) \<Rightarrow>
          (case begin_decision chat aid approved t2 g of
             (False, g2) \<Rightarrow> put g2 s
           | (True, g2) \<Rightarrow>
               (let s1 = put (call_back aid approved g2) s;
                    (outcome, s2) =
                      (case dget (callbacks s) aid of
                         None \<Rightarrow> (None, s1)
                       | Some c \<Rightarrow> if approved then execute c s1 else (None, decline c s1))
                in put (finish_decision chat aid approved outcome t2 (get s2)) s2)))"

text \<open>What every part of an answer keeps, the answer keeps.\<close>

lemma gate_answer_keeps:
  assumes "P s" "\<And>g s. P s \<Longrightarrow> P (put g s)" "\<And>c s. P s \<Longrightarrow> P (decline c s)" "\<And>c s. P s \<Longrightarrow> P (snd (execute c s))"
  shows "P (answer_gate get put callbacks execute decline chat args ok t1 t2 s)"
  using assms(1) by (auto simp: answer_gate_def Let_def intro!: assms(2-4) split: prod.split option.split bool.split)
    (metis assms(2-4) snd_conv)+

text \<open>Answering only takes approvals out of the gate.\<close>

lemma take_pending_less: "dget (tg_pending (snd (take_pending chat args t1 t2 g))) j = Some p \<Longrightarrow> dget (tg_pending g) j = Some p"
  by (auto simp: take_pending_def Let_def emit_def on_store_def dget_ddel split: option.splits if_splits)

lemma begin_keeps_pending: "tg_pending (snd (begin_decision chat i ok t g)) = tg_pending g"
  by (auto simp: begin_decision_def emit_def split: option.split prod.split)

lemma finish_keeps_pending: "tg_pending (finish_decision chat i ok res t g) = tg_pending g"
  by (auto simp: finish_decision_def emit_def on_store_def split: option.split)

lemma answer_pending_less:
  assumes gp: "\<And>g s. get (put g s) = g" and d: "\<And>c s. tg_pending (get (decline c s)) = tg_pending (get s)"
    and e: "\<And>c s. tg_pending (get (snd (execute c s))) = tg_pending (get s)"
    and p: "dget (tg_pending (get (answer_gate get put callbacks execute decline chat args ok t1 t2 s))) j = Some p"
  shows "dget (tg_pending (get s)) j = Some p"
proof -
  obtain tk g where t: "take_pending chat args t1 t2 (get s) = (tk, g)" by (cases "take_pending chat args t1 t2 (get s)")
  obtain go g2 where b: "begin_decision chat (py_strip args) ok t2 g = (go, g2)"
    by (cases "begin_decision chat (py_strip args) ok t2 g")
  have g2: "tg_pending g2 = tg_pending g" using begin_keeps_pending [of chat "py_strip args" ok t2 g] b by simp
  have e': "execute c u = (r, v) \<Longrightarrow> tg_pending (get v) = tg_pending (get u)" for c u r v using e [of c u] by simp
  have "dget (tg_pending g) j = Some p"
    using p t b g2
    by (auto simp: answer_gate_def Let_def gp d finish_keeps_pending call_back_def emit_def
        split: option.splits prod.splits bool.splits if_splits dest!: e')
  then show ?thesis using take_pending_less [of chat args t1 t2 "get s" j p] t by simp
qed

text \<open>
  What a service shows of its state (\<open>seen\<close>) and neither the gate nor a refusal touches is
  changed by an answer only if the approval was taken from the gate and executed.
\<close>

locale gate_client =
  fixes get :: "'s \<Rightarrow> telegram" and put :: "telegram \<Rightarrow> 's \<Rightarrow> 's" and callbacks :: "'s \<Rightarrow> (string, 'c) dict"
    and decline :: "'c \<Rightarrow> 's \<Rightarrow> 's" and seen :: "'s \<Rightarrow> 'o"
  assumes put_seen: "seen (put g s) = seen s"
    and decline_seen: "seen (decline c s) = seen s"
begin

lemma answer_cases:
  obtains (idle) "seen (answer_gate get put callbacks execute decline chat args ok t1 t2 s) = seen s"
  | (executed) p g c s1 res s2 where "ok" "take_pending chat args t1 t2 (get s) = (Some p, g)"
      "dget (callbacks s) (py_strip args) = Some c" "seen s1 = seen s" "execute c s1 = (res, s2)"
      "seen (answer_gate get put callbacks execute decline chat args ok t1 t2 s) = seen s2"
proof -
  obtain tk g where t: "take_pending chat args t1 t2 (get s) = (tk, g)" by (cases "take_pending chat args t1 t2 (get s)")
  obtain go g2 where b: "begin_decision chat (py_strip args) ok t2 g = (go, g2)"
    by (cases "begin_decision chat (py_strip args) ok t2 g")
  define s1 where "s1 = put (call_back (py_strip args) ok g2) s"
  show ?thesis
  proof (cases "ok \<and> tk \<noteq> None \<and> go \<and> dget (callbacks s) (py_strip args) \<noteq> None")
    case True
    then obtain p c where o: "tk = Some p" "dget (callbacks s) (py_strip args) = Some c" "ok" "go" by auto
    obtain res s2 where e: "execute c s1 = (res, s2)" by (cases "execute c s1")
    have "answer_gate get put callbacks execute decline chat args ok t1 t2 s =
        put (finish_decision chat (py_strip args) ok res t2 (get s2)) s2"
      using t b o e by (simp add: answer_gate_def s1_def)
    then show ?thesis using executed [of p g c s1 res s2] t o e by (simp add: s1_def put_seen)
  next
    case False
    then show ?thesis using t b
      by (intro idle) (auto simp: answer_gate_def Let_def put_seen decline_seen split: option.splits prod.splits bool.splits)
  qed
qed

end

end
