(* ===== verification/Evolution.thy ===== *)
theory Evolution
  imports Capability Approval
begin

text \<open>
  How the system extends itself: specifications (\<open>infrastructure/agent_factory/manifest.py\<close>),
  the static check (\<open>safety_checks.py\<close>), the builder (\<open>builder.py\<close>), the binder
  (\<open>infrastructure/capability_binder.py\<close>) with the executor's handler table
  (\<open>cognitive_core/resource/local_executor.py\<close>), the store of proposals under review
  (\<open>infrastructure/pending_capabilities.py\<close>) and the service that joins them to the approval
  gate (\<open>application/capability_evolution_service.py\<close>).

  Arguments stand for what is not modelled: the synthesizer, the parser of Python, the sandbox
  process, the independent reviewer, and the execution of a generated tool. A tool is the
  source text that was loaded. An exception is the pair of its class name and its message.
\<close>

section \<open>Specifications and the static check\<close>

record test_case =
  tc_input :: pyval
  tc_expected :: pyval

record agent_spec =
  sp_name :: string
  sp_capability :: string
  sp_description :: string
  sp_template :: string
  sp_tests :: "test_case list"

text \<open>The nodes \<open>ast.walk\<close> yields, as far as the check distinguishes them.\<close>

datatype ast_node = AImport | AName string | AAttribute string | AOther

definition forbidden_names :: "string list" where
  "forbidden_names = [''eval'', ''exec'', ''compile'', ''open'', ''__import__'', ''globals'', ''locals'', ''vars'',
     ''getattr'', ''setattr'', ''delattr'', ''exit'', ''quit'', ''breakpoint'']"

definition is_dunder :: "string \<Rightarrow> bool" where
  "is_dunder s \<longleftrightarrow> take 2 s = ''__'' \<and> take 2 (rev s) = ''__''"

fun check_nodes :: "ast_node list \<Rightarrow> bool \<times> string" where
  "check_nodes [] = (True, ''ok'')"
| "check_nodes (AImport # ns) = (False, ''imports are not allowed in generated agent code'')"
| "check_nodes (AName s # ns) =
     (if s \<in> set forbidden_names then (False, ''forbidden name used: '' @ s) else check_nodes ns)"
| "check_nodes (AAttribute s # ns) =
     (if is_dunder s then (False, ''forbidden dunder attribute access: '' @ s) else check_nodes ns)"
| "check_nodes (AOther # ns) = check_nodes ns"

definition static_analyze :: "(string + ast_node list) \<Rightarrow> bool \<times> string" where
  "static_analyze parsed =
     (case parsed of Inl e \<Rightarrow> (False, ''syntax error: '' @ e) | Inr nodes \<Rightarrow> check_nodes nodes)"

section \<open>The builder\<close>

record build_result =
  br_approved :: bool
  br_reason :: string
  br_path :: "string option"
  br_source :: "string option"
  br_spec :: agent_spec

record build_env =
  be_synthesize :: "agent_spec \<Rightarrow> string + string"
  be_parse :: "string \<Rightarrow> string + ast_node list"
  be_sandbox :: "string \<Rightarrow> agent_spec \<Rightarrow> bool \<times> string"
  be_reviewer :: "(agent_spec \<Rightarrow> string + test_case list) option"

record builder =
  bd_dir :: string
  bd_files :: "(string, string) dict"

text \<open>\<open>os.path.join\<close> of two parts.\<close>

definition path_join :: "string \<Rightarrow> string \<Rightarrow> string" where
  "path_join dir f =
     (if f \<noteq> [] \<and> hd f = CHR ''/'' then f
      else if dir = [] \<or> last dir = CHR ''/'' then dir @ f else dir @ ''/'' @ f)"

definition tool_path :: "builder \<Rightarrow> agent_spec \<Rightarrow> string" where
  "tool_path b sp = path_join (bd_dir b) (sp_name sp @ ''.py'')"

definition rejected :: "string \<Rightarrow> string option \<Rightarrow> agent_spec \<Rightarrow> build_result" where
  "rejected reason src sp =
     \<lparr>br_approved = False, br_reason = reason, br_path = None, br_source = src, br_spec = sp\<rparr>"

text \<open>The specification with the reviewer's extra cases and the note on it.\<close>

definition reviewed_spec :: "build_env \<Rightarrow> agent_spec \<Rightarrow> string + agent_spec \<times> string" where
  "reviewed_spec env sp =
     (case be_reviewer env of
        None \<Rightarrow> Inr (sp, '''')
      | Some review \<Rightarrow>
          (case review sp of
             Inl e \<Rightarrow> Inl e
           | Inr extra \<Rightarrow>
               Inr (sp\<lparr>sp_tests := sp_tests sp @ extra\<rparr>,
                    '' ['' @ show_nat (length (sp_tests sp)) @ '' original + '' @ show_nat (length extra) @
                    '' independently reviewed]'')))"

definition build :: "build_env \<Rightarrow> agent_spec \<Rightarrow> builder \<Rightarrow> build_result \<times> builder" where
  "build env sp b =
     (if sp_tests sp = [] then (rejected ''rejected: spec has no test cases to validate against'' None sp, b)
      else case reviewed_spec env sp of
        Inl e \<Rightarrow> (rejected (''rejected: independent test review failed ('' @ e @ '')'') None sp, b)
      | Inr (eff, note_) \<Rightarrow>
          (case be_synthesize env eff of
             Inl e \<Rightarrow> (rejected (''rejected: synthesis failed ('' @ e @ '')'') None sp, b)
           | Inr src \<Rightarrow>
               (let (fine, reason) = static_analyze (be_parse env src) in
                if \<not> fine then (rejected (''rejected by static safety check: '' @ reason) (Some src) sp, b)
                else
                  (let (passed, summary) = be_sandbox env src eff in
                   if \<not> passed
                   then (rejected (''rejected: failed sandbox validation ('' @ summary @ '')'' @ note_) (Some src) sp, b)
                   else
                     (\<lparr>br_approved = True, br_reason = ''approved: '' @ summary @ note_, br_path = Some (tool_path b sp),
                       br_source = Some src, br_spec = sp\<rparr>,
                      b\<lparr>bd_files := dset (tool_path b sp) src (bd_files b)\<rparr>)))))"

text \<open>Loading imports the module that is in the file now.\<close>

definition load_tool_instance :: "build_result \<Rightarrow> builder \<Rightarrow> raised + string" where
  "load_tool_instance br b =
     (if \<not> br_approved br \<or> br_path br = None \<or> br_path br = Some []
      then Inl (''ValueError'', ''cannot load a tool from a rejected build result'')
      else case dget (bd_files b) (the (br_path br)) of
             None \<Rightarrow> Inl (''FileNotFoundError'', the (br_path br))
           | Some src \<Rightarrow> Inr src)"

section \<open>The binder and the handler table\<close>

record bound_tool =
  bt_source :: string
  bt_capability :: string

record factory =
  fa_builder :: builder
  fa_layer :: cap_layer
  fa_handlers :: "(string, bound_tool) dict"
  fa_component :: string
  fa_risk :: risk_level
  fa_events :: "(string \<times> (string \<times> string) list) list"

definition fa_publish :: "string \<Rightarrow> (string \<times> string) list \<Rightarrow> factory \<Rightarrow> factory" where
  "fa_publish name payload f = f\<lparr>fa_events := fa_events f @ [(name, payload)]\<rparr>"

definition register_handler :: "string \<Rightarrow> bound_tool \<Rightarrow> factory \<Rightarrow> factory" where
  "register_handler i t f = f\<lparr>fa_handlers := dset i t (fa_handlers f)\<rparr>"

definition bind_build :: "build_env \<Rightarrow> agent_spec \<Rightarrow> factory \<Rightarrow> build_result \<times> factory" where
  "bind_build env sp f =
     (let (br, b) = build env sp (fa_builder f); f1 = f\<lparr>fa_builder := b\<rparr> in
      (br, if br_approved br then f1
           else fa_publish ''capability.rejected''
                  [(''spec_name'', sp_name sp), (''capability'', sp_capability sp), (''reason'', br_reason br)] f1))"

definition bind_tool :: "cap_env \<Rightarrow> build_result \<Rightarrow> factory \<Rightarrow> (raised + descriptor) \<times> factory" where
  "bind_tool env br f =
     (if \<not> br_approved br then (Inl (''CapabilityBindingRejected'', br_reason br), f)
      else case load_tool_instance br (fa_builder f) of
        Inl e \<Rightarrow> (Inl e, f)
      | Inr src \<Rightarrow>
          (let sp = br_spec br in
           case publish_capability env
              \<lparr>pb_component = fa_component f, pb_name = sp_capability sp, pb_description = sp_description sp,
               pb_input = PDict [(''input'', PStr ''any - raw value passed directly to GeneratedTool.run'')],
               pb_output = PDict [], pb_cost = 0, pb_risk = fa_risk f,
               pb_tags = [''self-built'', ''spec:'' @ sp_name sp]\<rparr> (fa_layer f) of
             (Inl e, l) \<Rightarrow> (Inl (''InvalidDescriptorError'', e), f\<lparr>fa_layer := l\<rparr>)
           | (Inr d, l) \<Rightarrow>
               (Inr d,
                fa_publish ''capability.built''
                  [(''spec_name'', sp_name sp), (''capability'', sp_capability sp), (''capability_id'', cd_id d)]
                  (register_handler (cd_id d) \<lparr>bt_source = src, bt_capability = sp_capability sp\<rparr> (f\<lparr>fa_layer := l\<rparr>)))))"

definition build_and_bind :: "build_env \<Rightarrow> cap_env \<Rightarrow> agent_spec \<Rightarrow> factory \<Rightarrow> (raised + descriptor) \<times> factory" where
  "build_and_bind benv cenv sp f = (let (br, f1) = bind_build benv sp f in bind_tool cenv br f1)"

text \<open>
  The handler of a bound tool, and a call through the executor: \<open>tool_run\<close> runs a source on an
  input, \<open>sandboxed\<close> is what the worker process makes of the handler's result (a status and data).
\<close>

definition call_handler :: "(string \<Rightarrow> pyval \<Rightarrow> raised + pyval) \<Rightarrow> bound_tool \<Rightarrow> (string, pyval) dict \<Rightarrow> raised + pyval" where
  "call_handler tool_run t payload =
     (case dget payload ''input'' of
        None \<Rightarrow> Inl (''ValueError'', ''Capability '' @ bt_capability t @ '' requires an input key in the payload; it was not sent. Received keys: '' @ join_sep '', '' (sort (dkeys payload)))
      | Some v \<Rightarrow> tool_run (bt_source t) v)"

record executor_result =
  hr_success :: bool
  hr_output :: pyval
  hr_error :: "string option"

definition execute_capability ::
    "(string \<Rightarrow> pyval \<Rightarrow> raised + pyval) \<Rightarrow> (raised + pyval \<Rightarrow> string \<times> pyval) \<Rightarrow> (pyval \<Rightarrow> string)
     \<Rightarrow> string \<Rightarrow> (string, pyval) dict \<Rightarrow> factory \<Rightarrow> executor_result" where
  "execute_capability tool_run sandboxed show_val i payload f =
     (case dget (fa_handlers f) i of
        None \<Rightarrow> \<lparr>hr_success = False, hr_output = PDict [], hr_error = Some (''No handler registered for capability_id='' @ i)\<rparr>
      | Some t \<Rightarrow>
          (let (status, data) = sandboxed (call_handler tool_run t payload) in
           if status = ''ok'' then \<lparr>hr_success = True, hr_output = data, hr_error = None\<rparr>
           else \<lparr>hr_success = False, hr_output = PDict [], hr_error = Some (show_val data)\<rparr>))"

section \<open>Proposals under review\<close>

record cap_request =
  rq_id :: string
  rq_role :: string
  rq_build :: build_result
  rq_status :: string
  rq_created :: real

type_synonym cap_requests = "(string, cap_request) dict"

definition create_request :: "string \<Rightarrow> string \<Rightarrow> build_result \<Rightarrow> real \<Rightarrow> cap_requests \<Rightarrow> (raised + cap_request) \<times> cap_requests" where
  "create_request i role_id br now m =
     (if \<not> br_approved br
      then (Inl (''ValueError'', ''A rejected BuildResult cannot enter PendingCapabilityStore''), m)
      else let r = \<lparr>rq_id = i, rq_role = role_id, rq_build = br, rq_status = ''pending'', rq_created = now\<rparr>
           in (Inr r, dset i r m))"

definition list_pending :: "cap_requests \<Rightarrow> cap_request list" where
  "list_pending m = filter (\<lambda>r. rq_status r = ''pending'') (dvals m)"

text \<open>\<open>mark_approved\<close> and \<open>mark_rejected\<close>: the status is set whatever it was.\<close>

definition mark_request :: "string \<Rightarrow> string \<Rightarrow> cap_requests \<Rightarrow> cap_request option \<times> cap_requests" where
  "mark_request status i m =
     (let m' = dmod i (\<lambda>r. r\<lparr>rq_status := status\<rparr>) m in (dget m' i, m'))"

section \<open>The evolution service\<close>

record evolution =
  ev_factory :: factory
  ev_requests :: cap_requests
  ev_roles :: "(string, agent_spec list) dict"
  ev_telegram :: telegram
  ev_callbacks :: "(string, string \<times> string) dict"
  ev_events :: "(string \<times> (string \<times> string) list) list"

definition ev_publish :: "string \<Rightarrow> (string \<times> string) list \<Rightarrow> evolution \<Rightarrow> evolution" where
  "ev_publish name payload s = s\<lparr>ev_events := ev_events s @ [(name, payload)]\<rparr>"

definition ev_say :: "string \<Rightarrow> string \<Rightarrow> evolution \<Rightarrow> evolution" where
  "ev_say chat txt s = s\<lparr>ev_telegram := emit (Say chat (Text txt)) (ev_telegram s)\<rparr>"

definition notify_admins :: "cap_request \<Rightarrow> evolution \<Rightarrow> evolution" where
  "notify_admins r s =
     fold (\<lambda>chat. ev_say chat
        (''Ollama proposed a new capability for node '' @ rq_role r @ '': Request ID: '' @ rq_id r @ '' Capability: '' @
         sp_capability (br_spec (rq_build r)) @ '' Description: '' @ sp_description (br_spec (rq_build r))))
       (tg_admins (ev_telegram s)) s"

definition propose_capability ::
    "build_env \<Rightarrow> string \<Rightarrow> real \<Rightarrow> string \<Rightarrow> agent_spec \<Rightarrow> evolution \<Rightarrow> (raised + build_result) \<times> evolution" where
  "propose_capability env i now role_id sp s =
     (if role_id \<notin> set (dkeys (ev_roles s)) then (Inl (''ValueError'', ''Unknown node role: '' @ role_id), s)
      else
        (let (br, f) = bind_build env sp (ev_factory s); s1 = s\<lparr>ev_factory := f\<rparr> in
         if \<not> br_approved br then
           (Inr br, ev_publish ''capability.evolution.rejected_automatically''
                      [(''node_role_id'', role_id), (''reason'', br_reason br)] s1)
         else
           (case create_request i role_id br now (ev_requests s1) of
              (Inl e, m) \<Rightarrow> (Inl e, s1\<lparr>ev_requests := m\<rparr>)
            | (Inr r, m) \<Rightarrow>
                (Inr br, notify_admins r
                   (ev_publish ''capability.evolution.pending_review''
                      [(''request_id'', rq_id r), (''node_role_id'', role_id), (''capability'', sp_capability sp)]
                      (s1\<lparr>ev_requests := m\<rparr>))))))"

definition command_pending :: "string \<Rightarrow> evolution \<Rightarrow> evolution" where
  "command_pending chat s =
     (let ps = list_pending (ev_requests s) in
      if ps = [] then ev_say chat ''No proposed capabilities are pending.'' s
      else ev_say chat (''Pending proposed capabilities: '' @
             join_sep '', '' (map (\<lambda>r. rq_id r @ '' | node='' @ rq_role r @ '' | '' @ sp_capability (br_spec (rq_build r))) ps)) s)"

text \<open>\<open>aid\<close> is the fresh identifier of the approval; its callback is remembered as chat and request.\<close>

definition command_approve :: "string \<Rightarrow> string \<Rightarrow> string \<Rightarrow> real \<Rightarrow> evolution \<Rightarrow> (string + unit) \<times> evolution" where
  "command_approve chat args aid now s =
     (let i = py_strip args in
      case dget (ev_requests s) i of
        None \<Rightarrow> (Inr (), ev_say chat (''No pending request exists with ID '' @ i) s)
      | Some r \<Rightarrow>
          if rq_status r \<noteq> ''pending'' then (Inr (), ev_say chat (''No pending request exists with ID '' @ i) s)
          else
            (let (res, g) = request_approval chat aid
                   (''Bind capability '' @ sp_capability (br_spec (rq_build r)) @ '' to node '' @ rq_role r) now (ev_telegram s)
             in (res, s\<lparr>ev_telegram := g, ev_callbacks := dset aid (chat, i) (ev_callbacks s)\<rparr>)))"

definition execute_approve :: "cap_env \<Rightarrow> string \<Rightarrow> string \<Rightarrow> evolution \<Rightarrow> raised option \<times> evolution" where
  "execute_approve env chat i s =
     (case dget (ev_requests s) i of
        None \<Rightarrow> (None, ev_say chat (''Request '' @ i @ '' was no longer available for execution.'') s)
      | Some r \<Rightarrow>
          if rq_status r \<noteq> ''pending''
          then (None, ev_say chat (''Request '' @ i @ '' was no longer available for execution.'') s)
          else
            (case bind_tool env (rq_build r) (ev_factory s) of
               (Inl e, f) \<Rightarrow> (Some e, s\<lparr>ev_factory := f\<rparr>)
             | (Inr d, f) \<Rightarrow>
                 (case dget (ev_roles s) (rq_role r) of
                    None \<Rightarrow> (Some (''KeyError'', rq_role r), s\<lparr>ev_factory := f\<rparr>)
                  | Some specs \<Rightarrow>
                      (None,
                       ev_say chat (''Capability '' @ cd_name d @ '' was bound to node '' @ rq_role r)
                         (ev_publish ''capability.evolution.approved''
                            [(''request_id'', i), (''node_role_id'', rq_role r), (''capability_id'', cd_id d)]
                            (s\<lparr>ev_factory := f,
                               ev_roles := dset (rq_role r) (specs @ [br_spec (rq_build r)]) (ev_roles s),
                               ev_requests := snd (mark_request ''approved'' i (ev_requests s))\<rparr>))))))"

text \<open>The answer to an approval of this service: the gate's handler around \<open>execute_approve\<close>.\<close>

definition answer_approval ::
    "cap_env \<Rightarrow> string \<Rightarrow> string \<Rightarrow> bool \<Rightarrow> real \<Rightarrow> real \<Rightarrow> evolution \<Rightarrow> evolution" where
  "answer_approval env =
     answer_gate ev_telegram (\<lambda>g s. s\<lparr>ev_telegram := g\<rparr>) ev_callbacks
       (\<lambda>(c, i). execute_approve env c i) (\<lambda>(c, i). ev_say c (''Review of '' @ i @ '' was cancelled.''))"

definition command_reject :: "string \<Rightarrow> string \<Rightarrow> evolution \<Rightarrow> evolution" where
  "command_reject chat args s =
     (let i = py_strip args; (r, m) = mark_request ''rejected'' i (ev_requests s); s1 = s\<lparr>ev_requests := m\<rparr> in
      case r of
        None \<Rightarrow> ev_say chat (''No request exists with ID '' @ i) s1
      | Some q \<Rightarrow>
          ev_say chat (''Proposed capability '' @ sp_capability (br_spec (rq_build q)) @ '' was rejected.'')
            (ev_publish ''capability.evolution.rejected_by_human'' [(''request_id'', i)] s1))"

end
