(* ===== verification/Approval_Props.thy ===== *)
theory Approval_Props
  imports Approval
begin

text \<open>
  The gate run step by step: requests, the four parts of each response handler (so that the
  responses of several threads interleave), and restarts of the process at any point, which
  lose everything but the files. The store is a \<open>decision_store\<close>: a record that has been
  decided keeps its status. On it rests that the action of an approval runs at most once.
\<close>

section \<open>The store\<close>

definition store_ok :: "approval_store \<Rightarrow> bool" where
  "store_ok st \<longleftrightarrow> dwf (as_records st) \<and> (\<forall>k r. (k, r) \<in> set (as_records st) \<longrightarrow> ap_id r = k) \<and>
     (as_records st \<noteq> [] \<or> as_disk st \<noteq> None \<longrightarrow> as_disk st = Some (dvals (as_records st)))"

definition ap_state :: "approval_store \<Rightarrow> string \<Rightarrow> string option" where
  "ap_state st i = map_option ap_status (dget (as_records st) i)"

definition undecided :: "string set" where
  "undecided = {''pending'', ''executing''}"

definition store_le :: "approval_store \<Rightarrow> approval_store \<Rightarrow> bool" where
  "store_le s t \<longleftrightarrow> (\<forall>i x. ap_state s i = Some x \<longrightarrow> x \<noteq> ''pending'' \<longrightarrow>
     (\<exists>y. ap_state t i = Some y \<and> y \<noteq> ''pending'' \<and> (x \<notin> undecided \<longrightarrow> y = x)))"

lemma store_le_refl [simp]: "store_le s s"
  by (simp add: store_le_def)

lemma store_le_trans: "store_le s t \<Longrightarrow> store_le t u \<Longrightarrow> store_le s u"
  by (fastforce simp: store_le_def)

lemma audit_keeps [simp]:
  "as_records (audit_approval ev t r st) = as_records st" "as_disk (audit_approval ev t r st) = as_disk st"
  by (simp_all add: audit_approval_def)

lemma audits_keep [simp]:
  "as_records (fold (audit_approval ev t) rs st) = as_records st"
  "as_disk (fold (audit_approval ev t) rs st) = as_disk st"
  by (induction rs arbitrary: st) auto

lemma save_keeps [simp]:
  "as_records (save_approvals st) = as_records st" "as_disk (save_approvals st) = Some (dvals (as_records st))"
  by (simp_all add: save_approvals_def)

lemma store_okI:
  "dwf (as_records st) \<Longrightarrow> (\<And>k r. (k, r) \<in> set (as_records st) \<Longrightarrow> ap_id r = k) \<Longrightarrow>
     as_disk st = Some (dvals (as_records st)) \<Longrightarrow> store_ok st"
  by (simp add: store_ok_def)

lemma create_keeps:
  assumes "create_approval r t st = (res, st')" "store_ok st"
  shows "store_ok st' \<and> store_le st st'"
proof (cases "dget (as_records st) (ap_id r)")
  case None
  then have st': "st' = audit_approval ''created'' t r
      (save_approvals (st\<lparr>as_records := dset (ap_id r) r (as_records st)\<rparr>))"
    using assms(1) by (simp add: create_approval_def)
  have "store_ok st'"
    unfolding st' by (rule store_okI) (use assms(2) in \<open>auto simp: store_ok_def in_set_dset split: if_splits\<close>)
  then show ?thesis using None unfolding st' by (auto simp: store_le_def ap_state_def dict_simps)
qed (use assms in \<open>auto simp: create_approval_def\<close>)

text \<open>What a transition to a status other than pending does.\<close>

lemma transition_cases:
  assumes "transition i status reason from t st = (res, st')"
  obtains (refused) "res = None" "st' = st" "\<forall>x. ap_state st i = Some x \<longrightarrow> x \<notin> set from"
  | (moved) r where "res = Some (r\<lparr>ap_status := status, ap_reason := reason\<rparr>)" "dget (as_records st) i = Some r"
      "ap_status r \<in> set from"
      "as_records st' = dset i (r\<lparr>ap_status := status, ap_reason := reason\<rparr>) (as_records st)"
      "as_disk st' = Some (dvals (as_records st'))"
  using assms by (auto simp: transition_def ap_state_def Let_def split: option.splits if_splits)

lemma transition_keeps:
  assumes "transition i status reason from t st = (res, st')" "store_ok st"
    and "set from \<subseteq> undecided" "status \<noteq> ''pending''"
  shows "store_ok st' \<and> store_le st st'"
  using assms(1)
proof (cases rule: transition_cases)
  case (moved r)
  have key: "ap_id r = i" using moved(2) assms(2) dget_in_set by (fastforce simp: store_ok_def)
  have "store_ok st'"
    by (rule store_okI) (use assms(2) moved key in \<open>auto simp: store_ok_def in_set_dset split: if_splits\<close>)
  moreover have "store_le st st'"
    using moved assms(3,4) by (auto simp: store_le_def ap_state_def dict_simps)
  ultimately show ?thesis by simp
qed (use assms(2) in simp)

lemma sweep_records:
  "as_records (snd (sweep due status reason t st)) =
     dmap (\<lambda>r. if due r then r\<lparr>ap_status := status, ap_reason := reason\<rparr> else r) (as_records st)"
  by (simp add: sweep_def Let_def)

lemma sweep_state:
  "ap_state (snd (sweep due status reason t st)) i =
     map_option (\<lambda>r. if due r then status else ap_status r) (dget (as_records st) i)"
  by (cases "dget (as_records st) i") (auto simp: ap_state_def sweep_records dict_simps)

lemma sweep_disk:
  "as_disk (snd (sweep due status reason t st)) =
     (if \<exists>r\<in>set (dvals (as_records st)). due r then Some (dvals (as_records (snd (sweep due status reason t st))))
      else as_disk st)"
  by (auto simp: sweep_def Let_def filter_empty_conv)

lemma sweep_idle:
  "\<not> (\<exists>r\<in>set (dvals (as_records st)). due r) \<Longrightarrow> as_records (snd (sweep due status reason t st)) = as_records st"
  unfolding sweep_records by (rule dmap_idle) auto

lemma sweep_keeps:
  assumes "store_ok st" "\<And>r. due r \<Longrightarrow> ap_status r = ''pending''" "status \<noteq> ''pending''"
  shows "store_ok (snd (sweep due status reason t st)) \<and> store_le st (snd (sweep due status reason t st))"
proof -
  let ?t = "snd (sweep due status reason t st)"
  have "store_ok ?t"
  proof (cases "\<exists>r\<in>set (dvals (as_records st)). due r")
    case True
    show ?thesis
    proof (rule store_okI)
      show "dwf (as_records ?t)" unfolding sweep_records using assms(1) by (simp add: store_ok_def dict_simps)
      show "ap_id r = k" if "(k, r) \<in> set (as_records ?t)" for k r
        using that assms(1) by (auto simp: sweep_records store_ok_def in_set_dmap split: if_splits)
      show "as_disk ?t = Some (dvals (as_records ?t))" unfolding sweep_disk using True by (simp only: if_True)
    qed
  next
    case False
    then have "as_records ?t = as_records st" "as_disk ?t = as_disk st"
      using sweep_idle sweep_disk by auto
    then show ?thesis using assms(1) by (simp add: store_ok_def)
  qed
  moreover have "store_le st ?t"
    unfolding store_le_def sweep_state using assms(3) by (auto simp: ap_state_def dest: assms(2))
  ultimately show ?thesis ..
qed

lemma expire_keeps:
  "store_ok st \<Longrightarrow> store_ok (snd (expire_due c t st)) \<and> store_le st (snd (expire_due c t st))"
  unfolding expire_due_def by (rule sweep_keeps) auto

lemma cancel_keeps:
  "store_ok st \<Longrightarrow> store_ok (snd (cancel_unrecoverable_after_restart t st)) \<and>
     store_le st (snd (cancel_unrecoverable_after_restart t st))"
  unfolding cancel_unrecoverable_after_restart_def by (rule sweep_keeps) auto

lemma load_keeps: "store_ok st \<Longrightarrow> as_records (load_approvals st) = as_records st"
  using fold_dset_dvals [of "[]" "as_records st" ap_id]
  by (auto simp: store_ok_def load_approvals_def records_of_def split: option.splits)

lemma load_ok: "store_ok st \<Longrightarrow> store_ok (load_approvals st) \<and> store_le st (load_approvals st)"
  using load_keeps [of st] by (auto simp: store_ok_def store_le_def ap_state_def load_approvals_def)

section \<open>The gate, step by step\<close>

datatype stage = Taken | Begun | Called "(string \<times> string) option" | Closed

record job =
  jb_chat :: string
  jb_id :: string
  jb_approved :: bool
  jb_stage :: stage

record gate_run =
  gr_gate :: telegram
  gr_jobs :: "job list"

datatype tg_op =
    TRequest string string string real
  | TTake string string bool real real
  | TBegin nat real
  | TCall nat "(string \<times> string) option"
  | TFinish nat real
  | TRestart real

definition set_stage :: "nat \<Rightarrow> stage \<Rightarrow> gate_run \<Rightarrow> gate_run" where
  "set_stage n x s = s\<lparr>gr_jobs := (gr_jobs s)[n := (gr_jobs s ! n)\<lparr>jb_stage := x\<rparr>]\<rparr>"

definition at_stage :: "nat \<Rightarrow> stage \<Rightarrow> gate_run \<Rightarrow> bool" where
  "at_stage n x s \<longleftrightarrow> n < length (gr_jobs s) \<and> jb_stage (gr_jobs s ! n) = x"

fun tg_step :: "gate_run \<Rightarrow> tg_op \<Rightarrow> gate_run" where
  "tg_step s (TRequest chat i desc now) = s\<lparr>gr_gate := snd (request_approval chat i desc now (gr_gate s))\<rparr>"
| "tg_step s (TTake chat args approved t1 t2) =
     (case take_pending chat args t1 t2 (gr_gate s) of
        (None, g) \<Rightarrow> s\<lparr>gr_gate := g\<rparr>
      | (Some p, g) \<Rightarrow> s\<lparr>gr_gate := g,
          gr_jobs := gr_jobs s @ [\<lparr>jb_chat = chat, jb_id = py_strip args, jb_approved = approved, jb_stage = Taken\<rparr>]\<rparr>)"
| "tg_step s (TBegin n t) =
     (if \<not> at_stage n Taken s then s
      else let j = gr_jobs s ! n; (go, g) = begin_decision (jb_chat j) (jb_id j) (jb_approved j) t (gr_gate s)
           in (set_stage n (if go then Begun else Closed) s)\<lparr>gr_gate := g\<rparr>)"
| "tg_step s (TCall n outcome) =
     (if \<not> at_stage n Begun s then s
      else let j = gr_jobs s ! n
           in (set_stage n (Called outcome) s)\<lparr>gr_gate := call_back (jb_id j) (jb_approved j) (gr_gate s)\<rparr>)"
| "tg_step s (TFinish n t) =
     (if n < length (gr_jobs s) then
        (let j = gr_jobs s ! n in
         case jb_stage j of
           Called outcome \<Rightarrow>
             (set_stage n Closed s)\<lparr>gr_gate :=
                finish_decision (jb_chat j) (jb_id j) (jb_approved j) outcome t (gr_gate s)\<rparr>
         | _ \<Rightarrow> s)
      else s)"
| "tg_step s (TRestart t) =
     s\<lparr>gr_gate := on_store (cancel_unrecoverable_after_restart t)
         (on_store (\<lambda>st. ((), load_approvals st)) ((gr_gate s)\<lparr>tg_pending := [], tg_tasks := []\<rparr>)),
       gr_jobs := []\<rparr>"

definition calls :: "telegram \<Rightarrow> string \<Rightarrow> nat" where
  "calls g i = count_list (tg_out g) (Ran i True)"

definition underway :: "string \<Rightarrow> job list \<Rightarrow> nat" where
  "underway i js = length (filter (\<lambda>j. jb_stage j = Begun \<and> jb_approved j \<and> jb_id j = i) js)"

definition state_of :: "gate_run \<Rightarrow> string \<Rightarrow> string option" where
  "state_of s i = (case tg_store (gr_gate s) of None \<Rightarrow> None | Some st \<Rightarrow> ap_state st i)"

definition tg_inv :: "gate_run \<Rightarrow> bool" where
  "tg_inv s \<longleftrightarrow> (\<exists>st. tg_store (gr_gate s) = Some st \<and> store_ok st \<and>
     (\<forall>i. calls (gr_gate s) i + underway i (gr_jobs s) \<le> 1 \<and>
        (calls (gr_gate s) i + underway i (gr_jobs s) = 1 \<longrightarrow> (\<exists>x. ap_state st i = Some x \<and> x \<noteq> ''pending''))))"

definition tg_le :: "gate_run \<Rightarrow> gate_run \<Rightarrow> bool" where
  "tg_le s t \<longleftrightarrow> (\<exists>st st'. tg_store (gr_gate s) = Some st \<and> tg_store (gr_gate t) = Some st' \<and> store_le st st') \<or> s = t"

text \<open>An operation of the gate that keeps the store and runs no callback.\<close>

definition quiet :: "telegram \<Rightarrow> telegram \<Rightarrow> bool" where
  "quiet g h \<longleftrightarrow> (\<forall>i. calls h i = calls g i) \<and>
     (\<forall>st. tg_store g = Some st \<and> store_ok st \<longrightarrow> (\<exists>st'. tg_store h = Some st' \<and> store_ok st' \<and> store_le st st'))"

lemma quiet_refl [simp]: "quiet g g"
  by (simp add: quiet_def)

lemma quiet_trans [trans]: "quiet f g \<Longrightarrow> quiet g h \<Longrightarrow> quiet f h"
  unfolding quiet_def by (metis store_le_trans)

lemma calls_emit [simp]: "calls (emit e g) i = (if e = Ran i True then Suc (calls g i) else calls g i)"
  by (auto simp: calls_def emit_def)

lemma store_emit [simp]: "tg_store (emit e g) = tg_store g"
  by (simp add: emit_def)

lemma quiet_emit: "quiet f g \<Longrightarrow> (\<And>i. e \<noteq> Ran i True) \<Longrightarrow> quiet f (emit e g)"
  by (simp add: quiet_def)

lemma quiet_pending [simp]: "quiet g (g\<lparr>tg_pending := d\<rparr>)"
  by (simp add: quiet_def calls_def)

lemma quiet_store:
  "tg_store g = Some st \<Longrightarrow> (store_ok st \<Longrightarrow> store_ok st' \<and> store_le st st') \<Longrightarrow> quiet g (g\<lparr>tg_store := Some st'\<rparr>)"
  by (simp add: quiet_def calls_def)

lemma quiet_on_store:
  "(\<And>st. store_ok st \<Longrightarrow> store_ok (snd (f st)) \<and> store_le st (snd (f st))) \<Longrightarrow> quiet g (on_store f g)"
  by (auto simp: quiet_def calls_def on_store_def)

lemma transition_ok:
  "set from \<subseteq> undecided \<Longrightarrow> status \<noteq> ''pending'' \<Longrightarrow> store_ok st \<Longrightarrow>
     store_ok (snd (transition i status reason from t st)) \<and> store_le st (snd (transition i status reason from t st))"
  using transition_keeps [of i status reason "from" t st] by (metis prod.collapse)

lemma request_quiet: "quiet g (snd (request_approval chat i desc now g))"
proof (cases "is_admin_chat chat g \<and> py_strip i \<noteq> [] \<and> i \<notin> set (dkeys (tg_pending g))")
  case True
  define g1 where "g1 = g\<lparr>tg_pending := dset i \<lparr>pa_id = i, pa_description = desc, pa_chat = chat,
      pa_created = now, pa_expires = now + tg_ttl g\<rparr> (tg_pending g)\<rparr>"
  define r where "r = \<lparr>ap_id = i, ap_description = desc, ap_chat = chat, ap_created = now,
      ap_expires = now + tg_ttl g, ap_status = ''pending'', ap_reason = ''''\<rparr>"
  have q1: "quiet g g1" by (simp add: g1_def)
  have same: "tg_store g1 = tg_store g" by (simp add: g1_def)
  show ?thesis
  proof (cases "tg_store g")
    case None
    then have "snd (request_approval chat i desc now g) = emit (Say chat (ApprovalRequired i desc (tg_ttl g))) g1"
      using True by (simp add: request_approval_def g1_def)
    then show ?thesis using q1 by (simp add: quiet_emit)
  next
    case (Some st)
    obtain res st' where c: "create_approval r now (snd (expire_due now now st)) = (res, st')"
      by (cases "create_approval r now (snd (expire_due now now st))")
    have "quiet g1 (g1\<lparr>tg_store := Some st'\<rparr>)"
    proof (rule quiet_store)
      show "tg_store g1 = Some st" using Some same by simp
      show "store_ok st' \<and> store_le st st'" if "store_ok st"
        using create_keeps [OF c] expire_keeps [OF that, of now now] store_le_trans by blast
    qed
    then have q2: "quiet g (g1\<lparr>tg_store := Some st'\<rparr>)" using q1 quiet_trans by blast
    have "request_approval chat i desc now g =
        (case create_approval r now (snd (expire_due now now st)) of
           (Inl e, st') \<Rightarrow> (Inl e, g1\<lparr>tg_store := Some st'\<rparr>)
         | (Inr _, st') \<Rightarrow> (Inr (), emit (Say chat (ApprovalRequired i desc (tg_ttl g))) (g1\<lparr>tg_store := Some st'\<rparr>)))"
      unfolding request_approval_def Let_def g1_def [symmetric] r_def [symmetric] same Some using True by simp
    then show ?thesis using q2 unfolding c by (auto intro: quiet_emit split: sum.split)
  qed
qed (auto simp: request_approval_def)

lemma take_quiet: "quiet g (snd (take_pending chat args t1 t2 g))"
proof -
  define g1 where "g1 = on_store (expire_due t1 t1) g"
  have q1: "quiet g g1" unfolding g1_def by (rule quiet_on_store) (rule expire_keeps)
  have q2: "quiet g (g1\<lparr>tg_pending := d\<rparr>)" for d using q1 quiet_pending quiet_trans by blast
  have q3: "quiet g (on_store (transition i ''expired'' r [''pending''] t2) (g1\<lparr>tg_pending := d\<rparr>))" for i r d
    by (rule quiet_trans [OF q2 quiet_on_store]) (rule transition_ok; simp add: undecided_def)
  show ?thesis
    using q1 q2 q3 by (auto simp: take_pending_def Let_def g1_def [symmetric] intro!: quiet_emit split: option.split)
qed

lemma begin_quiet: "quiet g (snd (begin_decision chat i approved t g))"
proof (cases "tg_store g")
  case (Some st)
  have "quiet g (g\<lparr>tg_store := Some (snd (transition i s r [''pending''] t st))\<rparr>)" if "s \<noteq> ''pending''" for s r
    using Some by (rule quiet_store) (rule transition_ok; simp add: undecided_def that)
  from this [of "''executing''" "''approval confirmed''"] this [of "''rejected''" "''rejected by administrator''"] Some
  show ?thesis by (auto simp: begin_decision_def intro: quiet_emit split: prod.split option.split)
qed (simp add: begin_decision_def)

lemma finish_quiet: "quiet g (finish_decision chat i approved outcome t g)"
proof -
  have q: "quiet g (on_store (transition i s r [''executing''] t) g)" if "s \<noteq> ''pending''" for s r
    by (rule quiet_on_store) (rule transition_ok; simp add: undecided_def that)
  show ?thesis
    using q [of "''approved''"] q [of "''failed''"]
    by (auto simp: finish_decision_def intro!: quiet_emit split: option.split)
qed

lemma restart_quiet:
  "quiet g (on_store (cancel_unrecoverable_after_restart t)
     (on_store (\<lambda>st. ((), load_approvals st)) (g\<lparr>tg_pending := [], tg_tasks := []\<rparr>)))"
proof -
  have "quiet g (g\<lparr>tg_pending := [], tg_tasks := []\<rparr>)" by (simp add: quiet_def calls_def)
  also have "quiet \<dots> (on_store (\<lambda>st. ((), load_approvals st)) (g\<lparr>tg_pending := [], tg_tasks := []\<rparr>))"
    by (rule quiet_on_store) (simp add: load_ok)
  also have "quiet \<dots> (on_store (cancel_unrecoverable_after_restart t)
      (on_store (\<lambda>st. ((), load_approvals st)) (g\<lparr>tg_pending := [], tg_tasks := []\<rparr>)))"
    by (rule quiet_on_store) (rule cancel_keeps)
  finally show ?thesis .
qed

lemma underway_append [simp]: "underway i (js @ ks) = underway i js + underway i ks"
  by (simp add: underway_def)

lemma length_filter_update:
  "n < length xs \<Longrightarrow>
     length (filter P (xs[n := x])) + (if P (xs ! n) then 1 else 0) = length (filter P xs) + (if P x then 1 else 0)"
proof (induction xs arbitrary: n)
  case (Cons a xs)
  then show ?case by (cases n) fastforce+
qed simp

lemma underway_update:
  "n < length js \<Longrightarrow>
     underway i (js[n := j]) + (if jb_stage (js ! n) = Begun \<and> jb_approved (js ! n) \<and> jb_id (js ! n) = i then 1 else 0) =
     underway i js + (if jb_stage j = Begun \<and> jb_approved j \<and> jb_id j = i then 1 else 0)"
  unfolding underway_def by (rule length_filter_update)

lemma inv_quiet:
  assumes "tg_inv s" "quiet (gr_gate s) g" "\<And>i. underway i js \<le> underway i (gr_jobs s)"
  shows "tg_inv (s\<lparr>gr_gate := g, gr_jobs := js\<rparr>) \<and> tg_le s (s\<lparr>gr_gate := g, gr_jobs := js\<rparr>)"
proof -
  obtain st where st: "tg_store (gr_gate s) = Some st" "store_ok st"
    and w: "\<And>i. calls (gr_gate s) i + underway i (gr_jobs s) \<le> 1"
      "\<And>i. calls (gr_gate s) i + underway i (gr_jobs s) = 1 \<Longrightarrow> \<exists>x. ap_state st i = Some x \<and> x \<noteq> ''pending''"
    using assms(1) by (auto simp: tg_inv_def)
  obtain st' where st': "tg_store g = Some st'" "store_ok st'" "store_le st st'" and c: "\<And>i. calls g i = calls (gr_gate s) i"
    using assms(2) st by (auto simp: quiet_def)
  have "calls g i + underway i js \<le> 1" for i using w(1) [of i] assms(3) [of i] c [of i] by simp
  moreover have "\<exists>x. ap_state st' i = Some x \<and> x \<noteq> ''pending''" if one: "calls g i + underway i js = 1" for i
  proof -
    have "calls (gr_gate s) i + underway i (gr_jobs s) = 1" using w(1) [of i] assms(3) [of i] c [of i] one by simp
    then obtain x where "ap_state st i = Some x" "x \<noteq> ''pending''" using w(2) by blast
    then show ?thesis using st'(3) by (auto simp: store_le_def)
  qed
  ultimately have "tg_inv (s\<lparr>gr_gate := g, gr_jobs := js\<rparr>)"
    using st'(1,2) unfolding tg_inv_def by (intro exI [of _ st']) simp
  moreover have "tg_le s (s\<lparr>gr_gate := g, gr_jobs := js\<rparr>)"
    using st(1) st'(1,3) unfolding tg_le_def by simp
  ultimately show ?thesis ..
qed

lemma step_begin:
  assumes "tg_inv s" "at_stage n Taken s"
  shows "tg_inv (tg_step s (TBegin n t)) \<and> tg_le s (tg_step s (TBegin n t))"
proof -
  define j where "j = gr_jobs s ! n"
  obtain go g where b: "begin_decision (jb_chat j) (jb_id j) (jb_approved j) t (gr_gate s) = (go, g)"
    by (cases "begin_decision (jb_chat j) (jb_id j) (jb_approved j) t (gr_gate s)")
  define js where "js = (gr_jobs s)[n := j\<lparr>jb_stage := if go then Begun else Closed\<rparr>]"
  have step: "tg_step s (TBegin n t) = s\<lparr>gr_gate := g, gr_jobs := js\<rparr>"
    using assms(2) b by (simp add: j_def js_def set_stage_def)
  have q: "quiet (gr_gate s) g" using begin_quiet [of "gr_gate s" "jb_chat j" "jb_id j" "jb_approved j" t] b by simp
  have n: "n < length (gr_jobs s)" "jb_stage j = Taken" using assms(2) by (auto simp: at_stage_def j_def)
  have u: "underway i js = underway i (gr_jobs s) + (if go \<and> jb_approved j \<and> jb_id j = i then 1 else 0)" for i
    using underway_update [OF n(1), of i "j\<lparr>jb_stage := if go then Begun else Closed\<rparr>"] n(2)
    unfolding js_def j_def [symmetric] by auto
  show ?thesis
  proof (cases "go \<and> jb_approved j")
    case False
    then show ?thesis unfolding step by (intro inv_quiet [OF assms(1) q]) (use u in auto)
  next
    case True
    obtain st where st: "tg_store (gr_gate s) = Some st" "store_ok st"
      and w: "\<And>i. calls (gr_gate s) i + underway i (gr_jobs s) \<le> 1"
        "\<And>i. calls (gr_gate s) i + underway i (gr_jobs s) = 1 \<Longrightarrow> \<exists>x. ap_state st i = Some x \<and> x \<noteq> ''pending''"
      using assms(1) by (auto simp: tg_inv_def)
    obtain r st' where tr: "transition (jb_id j) ''executing'' ''approval confirmed'' [''pending''] t st = (Some r, st')"
      and g: "g = (gr_gate s)\<lparr>tg_store := Some st'\<rparr>"
      using b True st(1) by (auto simp: begin_decision_def split: prod.splits option.splits)
    have was: "ap_state st (jb_id j) = Some ''pending''" and now: "ap_state st' (jb_id j) = Some ''executing''"
      using tr by (cases rule: transition_cases; auto simp: ap_state_def dict_simps)+
    have le: "store_ok st' \<and> store_le st st'" using transition_keeps [OF tr st(2)] by (simp add: undecided_def)
    have zero: "calls (gr_gate s) (jb_id j) + underway (jb_id j) (gr_jobs s) = 0"
      using w(1) [of "jb_id j"] w(2) [of "jb_id j"] was by fastforce
    have c: "calls g i = calls (gr_gate s) i" for i using q by (simp add: quiet_def)
    have "calls g i + underway i js \<le> 1 \<and>
        (calls g i + underway i js = 1 \<longrightarrow> (\<exists>x. ap_state st' i = Some x \<and> x \<noteq> ''pending''))" for i
    proof (cases "i = jb_id j")
      case True
      then show ?thesis using zero now c u [of i] by auto
    next
      case False
      then have "calls g i + underway i js = calls (gr_gate s) i + underway i (gr_jobs s)" using c u by auto
      then show ?thesis using w [of i] le by (fastforce simp: store_le_def)
    qed
    then show ?thesis unfolding step using g le st(1) by (auto simp: tg_inv_def tg_le_def)
  qed
qed

lemma step_call:
  assumes "tg_inv s" "at_stage n Begun s"
  shows "tg_inv (tg_step s (TCall n outcome)) \<and> tg_le s (tg_step s (TCall n outcome))"
proof -
  define j where "j = gr_jobs s ! n"
  have n: "n < length (gr_jobs s)" "jb_stage j = Begun" using assms(2) by (auto simp: at_stage_def j_def)
  define js where "js = (gr_jobs s)[n := j\<lparr>jb_stage := Called outcome\<rparr>]"
  define g where "g = call_back (jb_id j) (jb_approved j) (gr_gate s)"
  have step: "tg_step s (TCall n outcome) = s\<lparr>gr_gate := g, gr_jobs := js\<rparr>"
    using assms(2) by (simp add: j_def js_def g_def set_stage_def Let_def)
  have "calls g i + underway i js = calls (gr_gate s) i + underway i (gr_jobs s)" for i
    using underway_update [OF n(1), of i "j\<lparr>jb_stage := Called outcome\<rparr>"] n(2)
    unfolding js_def j_def [symmetric] g_def call_back_def by (auto split: if_splits)
  moreover have "tg_store g = tg_store (gr_gate s)" by (simp add: g_def call_back_def)
  ultimately show ?thesis unfolding step using assms(1) by (auto simp: tg_inv_def tg_le_def)
qed

lemma underway_close:
  "n < length (gr_jobs s) \<Longrightarrow> underway i ((gr_jobs s)[n := (gr_jobs s ! n)\<lparr>jb_stage := Closed\<rparr>]) \<le> underway i (gr_jobs s)"
  using underway_update [of n "gr_jobs s" i "(gr_jobs s ! n)\<lparr>jb_stage := Closed\<rparr>"] by auto

lemma step_finish:
  assumes "tg_inv s" "n < length (gr_jobs s)" "jb_stage (gr_jobs s ! n) = Called outcome"
  shows "tg_inv (tg_step s (TFinish n t)) \<and> tg_le s (tg_step s (TFinish n t))"
proof -
  have "tg_step s (TFinish n t) = s\<lparr>gr_gate := finish_decision (jb_chat (gr_jobs s ! n)) (jb_id (gr_jobs s ! n))
      (jb_approved (gr_jobs s ! n)) outcome t (gr_gate s),
      gr_jobs := (gr_jobs s)[n := (gr_jobs s ! n)\<lparr>jb_stage := Closed\<rparr>]\<rparr>"
    using assms(2,3) by (simp add: set_stage_def Let_def)
  then show ?thesis using inv_quiet [OF assms(1) finish_quiet underway_close [OF assms(2)]] by simp
qed

lemma step_take:
  assumes "tg_inv s"
  shows "tg_inv (tg_step s (TTake chat args approved t1 t2)) \<and> tg_le s (tg_step s (TTake chat args approved t1 t2))"
proof -
  obtain res g where t: "take_pending chat args t1 t2 (gr_gate s) = (res, g)"
    by (cases "take_pending chat args t1 t2 (gr_gate s)")
  have q: "quiet (gr_gate s) g" using take_quiet [of "gr_gate s" chat args t1 t2] t by simp
  show ?thesis
  proof (cases res)
    case None
    then show ?thesis using inv_quiet [OF assms q, of "gr_jobs s"] t by simp
  next
    case (Some p)
    then show ?thesis
      using inv_quiet [OF assms q, of "gr_jobs s @ [\<lparr>jb_chat = chat, jb_id = py_strip args, jb_approved = approved,
        jb_stage = Taken\<rparr>]"] t by (simp add: underway_def)
  qed
qed

lemma tg_le_refl: "tg_le s s"
  by (simp add: tg_le_def)

lemma tg_step_keeps:
  assumes "tg_inv s"
  shows "tg_inv (tg_step s x) \<and> tg_le s (tg_step s x)"
proof (cases x)
  case (TRequest chat i desc now)
  then show ?thesis using inv_quiet [OF assms request_quiet, of "gr_jobs s"] by simp
next
  case (TTake chat args approved t1 t2)
  then show ?thesis using step_take [OF assms] by simp
next
  case (TBegin n t)
  show ?thesis
  proof (cases "at_stage n Taken s")
    case True
    then show ?thesis using step_begin [OF assms True] TBegin by simp
  qed (use TBegin assms tg_le_refl in auto)
next
  case (TCall n outcome)
  show ?thesis
  proof (cases "at_stage n Begun s")
    case True
    then show ?thesis using step_call [OF assms True] TCall by simp
  qed (use TCall assms tg_le_refl in auto)
next
  case (TFinish n t)
  show ?thesis
  proof (cases "n < length (gr_jobs s) \<and> (\<exists>outcome. jb_stage (gr_jobs s ! n) = Called outcome)")
    case True
    then show ?thesis using step_finish [OF assms] TFinish by blast
  next
    case False
    then have "tg_step s x = s" using TFinish by (auto simp: Let_def split: stage.split)
    then show ?thesis using assms tg_le_refl by simp
  qed
next
  case (TRestart t)
  then show ?thesis using inv_quiet [OF assms restart_quiet, of "[]"] by (simp add: underway_def)
qed

lemma tg_le_trans: "tg_le s t \<Longrightarrow> tg_le t u \<Longrightarrow> tg_le s u"
  unfolding tg_le_def using store_le_trans by fastforce

interpretation approvals: decision_store tg_step "\<lambda>_ _. True" tg_inv tg_le state_of "\<lambda>x. x \<notin> undecided"
proof
  show "state_of t i = Some x" if "tg_le s t" "state_of s i = Some x" "x \<notin> undecided" for s t i x
    using that by (fastforce simp: tg_le_def state_of_def store_le_def undecided_def)
qed (use tg_step_keeps tg_le_refl tg_le_trans in blast)+

definition empty_store :: approval_store where
  "empty_store = \<lparr>as_records = [], as_disk = None, as_audit = []\<rparr>"

definition gate_run_of :: "telegram \<Rightarrow> gate_run" where
  "gate_run_of g = \<lparr>gr_gate = g, gr_jobs = []\<rparr>"

lemma new_gate_inv:
  assumes "new_telegram admins ttl (Some empty_store) links t = Inr g"
  shows "tg_inv (gate_run_of g)"
proof -
  have e: "store_ok empty_store" by (simp add: empty_store_def store_ok_def)
  have "tg_store g = Some (snd (cancel_unrecoverable_after_restart t empty_store))" "tg_out g = []"
    using assms by (auto simp: new_telegram_def on_store_def split: if_splits)
  then show ?thesis using cancel_keeps [OF e, of t]
    by (simp add: tg_inv_def gate_run_of_def calls_def underway_def)
qed

section \<open>Properties\<close>

text \<open>
  C15: with a durable store, the action of an approval runs at most once, whatever is
  requested and answered, by however many threads interleaving, and wherever the process
  crashes and restarts.
\<close>

theorem approved_action_runs_once:
  assumes "new_telegram admins ttl (Some empty_store) links t = Inr g"
  shows "calls (gr_gate (run tg_step (gate_run_of g) ops)) i \<le> 1"
proof -
  have "tg_inv (run tg_step (gate_run_of g) ops)"
    using approvals.run_inv [OF new_gate_inv [OF assms]] by simp
  then have "calls (gr_gate (run tg_step (gate_run_of g) ops)) i +
      underway i (gr_jobs (run tg_step (gate_run_of g) ops)) \<le> 1"
    by (auto simp: tg_inv_def)
  then show ?thesis by simp
qed

definition demo_gate_ops :: "tg_op list" where
  "demo_gate_ops = [TRequest ''adm'' ''deploy-1'' ''Deploy node'' 10, TTake ''adm'' ''deploy-1'' True 20 20, TBegin 0 20,
     TCall 0 None, TRestart 30, TRequest ''adm'' ''deploy-1'' ''Deploy node'' 40, TTake ''adm'' ''deploy-1'' True 50 50, TBegin 0 50, TCall 0 None]"

definition demo_telegram :: telegram where
  "demo_telegram = \<lparr>tg_admins = [''adm''], tg_ttl = 300, tg_pending = [],
     tg_store = Some empty_store, tg_links = [], tg_tasks = [], tg_out = []\<rparr>"

theorem approved_action_runs_once_witness:
  "calls (gr_gate (run tg_step (gate_run_of demo_telegram) demo_gate_ops)) ''deploy-1'' = 1"
proof -
  have n: "new_telegram [''adm''] 300 (Some empty_store) [] 0 = Inr demo_telegram" by code_simp
  have "calls (gr_gate (run tg_step (gate_run_of demo_telegram) demo_gate_ops)) ''deploy-1'' \<noteq> 0" by code_simp
  moreover have "calls (gr_gate (run tg_step (gate_run_of demo_telegram) demo_gate_ops)) ''deploy-1'' \<le> 1"
    by (rule approved_action_runs_once [OF n])
  ultimately show ?thesis by linarith
qed

text \<open>
  A record of the store that has been decided (rejected, expired, cancelled, failed or
  approved) keeps that status for ever, whatever the gate does afterwards and however often
  the process restarts.
\<close>

theorem decision_is_final:
  assumes "new_telegram admins ttl (Some empty_store) links t = Inr g"
    and "state_of (run tg_step (gate_run_of g) ops) i = Some x" and "x \<notin> undecided"
  shows "state_of (run tg_step (gate_run_of g) (ops @ more_ops)) i = Some x"
  by (rule approvals.decided_forever [OF new_gate_inv [OF assms(1)]]) (use assms(2,3) in simp_all)

theorem decision_is_final_witness:
  "state_of (run tg_step (gate_run_of demo_telegram)
     ([TRequest ''adm'' ''d'' ''Deploy'' 10, TTake ''adm'' ''d'' False 20 20, TBegin 0 20] @ demo_gate_ops)) ''d'' =
   Some ''rejected''"
proof (rule decision_is_final)
  show "new_telegram [''adm''] 300 (Some empty_store) [] 0 = Inr demo_telegram" by code_simp
  show "state_of (run tg_step (gate_run_of demo_telegram)
      [TRequest ''adm'' ''d'' ''Deploy'' 10, TTake ''adm'' ''d'' False 20 20, TBegin 0 20]) ''d'' = Some ''rejected''"
    by code_simp
  show "''rejected'' \<notin> undecided" by (simp add: undecided_def)
qed

lemma ran_emit: "Ran i b \<in> set (tg_out (emit e g)) \<longleftrightarrow> e = Ran i b \<or> Ran i b \<in> set (tg_out g)"
  by (auto simp: emit_def)

lemma ran_on_store [simp]: "tg_out (on_store f g) = tg_out g"
  by (simp add: on_store_def)

lemma take_ran: "Ran i b \<in> set (tg_out (snd (take_pending chat args t1 t2 g))) \<Longrightarrow> Ran i b \<in> set (tg_out g)"
  by (auto simp: take_pending_def Let_def ran_emit split: option.splits if_splits)

lemma begin_ran: "Ran i b \<in> set (tg_out (snd (begin_decision chat j approved t g))) \<Longrightarrow> Ran i b \<in> set (tg_out g)"
  by (auto simp: begin_decision_def ran_emit split: option.splits if_splits prod.splits)

lemma finish_ran: "Ran i b \<in> set (tg_out (finish_decision chat j approved outcome t g)) \<Longrightarrow> Ran i b \<in> set (tg_out g)"
  by (auto simp: finish_decision_def ran_emit split: option.splits if_splits)

lemma take_SomeD:
  assumes "take_pending chat args t1 t2 g = (Some p, g1)"
  shows "dget (tg_pending g) (py_strip args) = Some p \<and> pa_chat p = chat \<and> t2 < pa_expires p \<and>
     tg_store g1 = tg_store (on_store (expire_due t1 t1) g)"
  using assms
  by (auto simp: take_pending_def Let_def on_store_def split: option.splits if_splits)

lemma response_ran:
  assumes "Ran i True \<in> set (tg_out (handle_approval_response chat args approved t1 t2 outcome g))"
    and "Ran i True \<notin> set (tg_out g)" and "tg_store g = Some st"
  shows "approved \<and> i = py_strip args \<and>
     (\<exists>p. dget (tg_pending g) i = Some p \<and> pa_chat p = chat \<and> t2 < pa_expires p) \<and>
     (\<exists>r. dget (as_records st) i = Some r \<and> ap_status r = ''pending'' \<and> t1 < ap_expires r)"
proof -
  let ?i = "py_strip args"
  obtain res g1 where t: "take_pending chat args t1 t2 g = (res, g1)" by (cases "take_pending chat args t1 t2 g")
  have n1: "Ran i True \<notin> set (tg_out g1)" using take_ran [of i True chat args t1 t2 g] t assms(2) by auto
  obtain p where p: "res = Some p" using assms(1) t n1 by (cases res) (auto simp: handle_approval_response_def)
  obtain go g2 where b: "begin_decision chat ?i approved t2 g1 = (go, g2)"
    by (cases "begin_decision chat ?i approved t2 g1")
  have n2: "Ran i True \<notin> set (tg_out g2)" using begin_ran [of i True chat ?i approved t2 g1] b n1 by auto
  have go: "go" using assms(1) t p b n2 by (cases go) (auto simp: handle_approval_response_def)
  have "Ran i True \<in> set (tg_out (call_back ?i approved g2))"
    using assms(1) t p b go finish_ran [of i True chat ?i approved outcome t2 "call_back ?i approved g2"]
    by (auto simp: handle_approval_response_def Let_def)
  then have a: "approved" "i = ?i" using n2 by (auto simp: call_back_def ran_emit)
  note tk = take_SomeD [OF t [unfolded p]]
  define st1 where "st1 = snd (expire_due t1 t1 st)"
  have "tg_store g1 = Some st1" using tk assms(3) by (simp add: on_store_def st1_def)
  then obtain r st2 where "transition ?i ''executing'' ''approval confirmed'' [''pending''] t2 st1 = (Some r, st2)"
    using b go a(1) by (auto simp: begin_decision_def split: option.splits prod.splits)
  then have "ap_state st1 ?i = Some ''pending''"
    by (cases rule: transition_cases) (auto simp: ap_state_def)
  then have "\<exists>r. dget (as_records st) ?i = Some r \<and> ap_status r = ''pending'' \<and> t1 < ap_expires r"
    by (auto simp: st1_def expire_due_def sweep_state not_le split: if_splits)
  then show ?thesis using tk a by auto
qed

text \<open>
  A message makes the action of an approval run only if it comes from an administrative
  chat, is \<open>/approve\<close> with the identifier of an approval that this same chat requested, and the
  approval is pending and not expired, in memory and in the durable store.
\<close>

theorem decision_authorised:
  assumes "handle_incoming_message authenticate (\<lambda>_. None) inp chat txt g = (answer, g')"
    and "tg_store g = Some st"
    and "Ran i True \<in> set (tg_out g')" and "Ran i True \<notin> set (tg_out g)"
  shows "chat \<in> set (tg_admins g) \<and> first_word (py_strip txt) = ''/approve'' \<and>
     (\<exists>p. dget (tg_pending g) i = Some p \<and> pa_chat p = chat \<and> ti_t2 inp < pa_expires p) \<and>
     (\<exists>r. dget (as_records st) i = Some r \<and> ap_status r = ''pending'' \<and> ti_t1 inp < ap_expires r)"
proof -
  define w where "w = first_word (py_strip txt)"
  define args where "args = py_strip (drop (length w) (py_strip txt))"
  have "is_admin_chat chat g \<and> w \<in> {''/approve'', ''/reject''} \<and>
      g' = handle_approval_response chat args (w = ''/approve'') (ti_t1 inp) (ti_t2 inp) (ti_outcome inp) g"
    using assms(1,3,4) unfolding handle_incoming_message_def Let_def w_def [symmetric] args_def [symmetric]
    by (auto simp: ran_emit link_chat_def unlink_chat_def emit_def split: if_splits option.splits)
  moreover from this have "Ran i True \<in> set (tg_out (handle_approval_response chat args (w = ''/approve'')
      (ti_t1 inp) (ti_t2 inp) (ti_outcome inp) g))" using assms(3) by simp
  note response_ran [OF this assms(4,2)]
  ultimately show ?thesis unfolding w_def [symmetric] is_admin_chat_def by blast
qed

definition demo_inp :: tg_input where
  "demo_inp = \<lparr>ti_t1 = 20, ti_t2 = 20, ti_outcome = None, ti_task = ''t''\<rparr>"

definition demo_asked :: telegram where
  "demo_asked = snd (request_approval ''adm'' ''d'' ''Deploy'' 10 demo_telegram)"

theorem decision_authorised_witness:
  "\<exists>r. dget (as_records (the (tg_store demo_asked))) ''d'' = Some r \<and> ap_status r = ''pending'' \<and> 20 < ap_expires r"
proof -
  let ?h = "handle_incoming_message (\<lambda>_. None) (\<lambda>_. None) demo_inp ''adm'' ''/approve d'' demo_asked"
  have h: "?h = (fst ?h, snd ?h)" by simp
  have s: "tg_store demo_asked = Some (the (tg_store demo_asked))" by code_simp
  have r: "Ran ''d'' True \<in> set (tg_out (snd ?h))" by code_simp
  have n: "Ran ''d'' True \<notin> set (tg_out demo_asked)" by code_simp
  show ?thesis using decision_authorised [OF h s r n] by (simp add: demo_inp_def)
qed

text \<open>
  A request whose identifier the durable store already knows is refused, and yet stays
  pending in memory, where \<open>/reject\<close> runs its rejection callback.
\<close>

theorem refused_request_stays_pending:
  assumes "is_admin_chat chat g" "py_strip i = i" "i \<noteq> []" "i \<notin> set (dkeys (tg_pending g))" "tg_ttl g > 0"
    and "tg_store g = Some st" "i \<in> set (dkeys (as_records st))"
  shows "\<exists>e g'. request_approval chat i desc now g = (Inl e, g') \<and> i \<in> set (dkeys (tg_pending g')) \<and>
     Ran i False \<in> set (tg_out (handle_approval_response chat i False now now outcome g'))"
proof -
  define p where "p = \<lparr>pa_id = i, pa_description = desc, pa_chat = chat, pa_created = now, pa_expires = now + tg_ttl g\<rparr>"
  define st1 where "st1 = snd (expire_due now now st)"
  define g1 where "g1 = g\<lparr>tg_pending := dset i p (tg_pending g), tg_store := Some st1\<rparr>"
  have "as_records st1 = dmap (\<lambda>r. if ap_status r = ''pending'' \<and> ap_expires r \<le> now
      then r\<lparr>ap_status := ''expired'', ap_reason := ''approval TTL elapsed''\<rparr> else r) (as_records st)"
    by (simp add: st1_def expire_due_def sweep_records)
  then have k: "\<exists>r. dget (as_records st1) i = Some r" using assms(7) by (simp only: dget_dmap dget_dom) auto
  have r: "request_approval chat i desc now g = (Inl (''approval '' @ i @ '' already exists''), g1)"
    using assms k by (auto simp: request_approval_def Let_def create_approval_def st1_def [symmetric] p_def g1_def)
  have t: "take_pending chat i now now g1 =
      (Some p, (on_store (expire_due now now) g1)\<lparr>tg_pending := ddel i (tg_pending (on_store (expire_due now now) g1))\<rparr>)"
    using assms(2,3,5) by (simp add: take_pending_def Let_def on_store_def g1_def dict_simps p_def)
  have "Ran i False \<in> set (tg_out (handle_approval_response chat i False now now outcome g1))"
    using assms(2) t by (auto simp: handle_approval_response_def begin_decision_def finish_decision_def call_back_def
        ran_emit split: option.splits)
  moreover have "i \<in> set (dkeys (tg_pending g1))" by (simp add: g1_def dict_simps)
  ultimately show ?thesis using r by blast
qed

theorem refused_request_stays_pending_witness:
  "\<exists>e g'. request_approval ''adm'' ''d'' ''again'' 50
     (gr_gate (run tg_step (gate_run_of demo_telegram) [TRequest ''adm'' ''d'' ''Deploy'' 10, TRestart 20])) = (Inl e, g') \<and>
     ''d'' \<in> set (dkeys (tg_pending g'))"
proof -
  define g where "g = gr_gate (run tg_step (gate_run_of demo_telegram) [TRequest ''adm'' ''d'' ''Deploy'' 10, TRestart 20])"
  have c: "is_admin_chat ''adm'' g" "py_strip ''d'' = ''d''" "''d'' \<notin> set (dkeys (tg_pending g))"
      "tg_store g = Some (the (tg_store g))" "''d'' \<in> set (dkeys (as_records (the (tg_store g))))"
    unfolding g_def by code_simp+
  have "tg_ttl g = 300" unfolding g_def by code_simp
  then show ?thesis using refused_request_stays_pending [OF c(1,2) _ c(3) _ c(4,5)] unfolding g_def by fastforce
qed

end
