(* ===== verification/Evolution_Props.thy ===== *)
theory Evolution_Props
  imports Evolution Approval_Props
begin

text \<open>
  Self-extension over all its runs. As long as no build writes over the file of an earlier
  one, the source that becomes executable is the source that was reviewed, and it becomes so
  only by the answer of an administrative chat; the last section shows what happens when a
  build does write over another's file.
\<close>

named_theorems ev_simps \<open>what the bookkeeping of the service leaves alone\<close>

section \<open>What each operation leaves alone\<close>

lemma ev_publish_keeps [ev_simps]:
  "ev_factory (ev_publish n p s) = ev_factory s" "ev_requests (ev_publish n p s) = ev_requests s"
  "ev_roles (ev_publish n p s) = ev_roles s" "ev_telegram (ev_publish n p s) = ev_telegram s"
  by (simp_all add: ev_publish_def)

lemma ev_say_keeps [ev_simps]:
  "ev_factory (ev_say c t s) = ev_factory s" "ev_requests (ev_say c t s) = ev_requests s"
  "ev_roles (ev_say c t s) = ev_roles s"
  by (simp_all add: ev_say_def)

lemma fold_say_keeps [ev_simps]:
  "ev_factory (fold (\<lambda>c. ev_say c t) cs s) = ev_factory s" "ev_requests (fold (\<lambda>c. ev_say c t) cs s) = ev_requests s"
  "ev_roles (fold (\<lambda>c. ev_say c t) cs s) = ev_roles s"
  by (induction cs arbitrary: s) (auto simp: ev_simps)

lemma notify_keeps [ev_simps]:
  "ev_factory (notify_admins r s) = ev_factory s" "ev_requests (notify_admins r s) = ev_requests s"
  "ev_roles (notify_admins r s) = ev_roles s"
  by (simp_all add: notify_admins_def ev_simps)

lemma fa_publish_keeps [ev_simps]:
  "fa_builder (fa_publish n p f) = fa_builder f" "fa_handlers (fa_publish n p f) = fa_handlers f"
  by (simp_all add: fa_publish_def)

section \<open>Building and binding\<close>

lemma build_cases:
  assumes "build env sp b = (br, b')"
  obtains (refused) "\<not> br_approved br" "b' = b"
  | (built) src where "br_approved br" "br_path br = Some (tool_path b sp)" "br_source br = Some src" "br_spec br = sp"
      "bd_files b' = dset (tool_path b sp) src (bd_files b)" "fst (static_analyze (be_parse env src))"
proof -
  have "(\<not> br_approved br \<and> b' = b) \<or> (\<exists>src. br_approved br \<and> br_path br = Some (tool_path b sp) \<and>
      br_source br = Some src \<and> br_spec br = sp \<and> bd_files b' = dset (tool_path b sp) src (bd_files b) \<and>
      fst (static_analyze (be_parse env src)))"
    using assms unfolding build_def
    by (auto simp: rejected_def Let_def split: if_splits sum.splits prod.splits)
  then show ?thesis using refused built by blast
qed

lemma bind_build_cases:
  assumes "bind_build env sp f = (br, f')"
  shows "fst (build env sp (fa_builder f)) = br \<and> fa_builder f' = snd (build env sp (fa_builder f)) \<and>
     fa_handlers f' = fa_handlers f"
  using assms by (auto simp: bind_build_def Let_def ev_simps split: prod.splits if_splits)

lemma bind_tool_cases:
  assumes "bind_tool env br f = (res, f')"
  obtains (refused) e where "res = Inl e" "fa_builder f' = fa_builder f" "fa_handlers f' = fa_handlers f"
  | (bound) d src where "res = Inr d" "br_approved br" "fa_builder f' = fa_builder f"
      "dget (bd_files (fa_builder f)) (the (br_path br)) = Some src"
      "fa_handlers f' = dset (cd_id d) \<lparr>bt_source = src, bt_capability = sp_capability (br_spec br)\<rparr> (fa_handlers f)"
proof -
  have "(\<exists>e. res = Inl e \<and> fa_builder f' = fa_builder f \<and> fa_handlers f' = fa_handlers f) \<or>
      (\<exists>d src. res = Inr d \<and> br_approved br \<and> fa_builder f' = fa_builder f \<and>
        dget (bd_files (fa_builder f)) (the (br_path br)) = Some src \<and>
        fa_handlers f' = dset (cd_id d) \<lparr>bt_source = src, bt_capability = sp_capability (br_spec br)\<rparr> (fa_handlers f))"
    using assms unfolding bind_tool_def load_tool_instance_def
    by (auto simp: Let_def ev_simps register_handler_def split: if_splits sum.splits prod.splits option.splits)
  then show ?thesis using refused bound by blast
qed

section \<open>The invariant\<close>

definition request_ok :: "(string, string) dict \<Rightarrow> cap_request \<Rightarrow> bool" where
  "request_ok files r \<longleftrightarrow> br_approved (rq_build r) \<and>
     (\<exists>p src. br_path (rq_build r) = Some p \<and> br_source (rq_build r) = Some src \<and> dget files p = Some src)"

definition tool_of :: "cap_request \<Rightarrow> bound_tool \<Rightarrow> bool" where
  "tool_of r t \<longleftrightarrow> br_source (rq_build r) = Some (bt_source t) \<and> bt_capability t = sp_capability (br_spec (rq_build r))"

definition ev_inv :: "evolution \<Rightarrow> bool" where
  "ev_inv s \<longleftrightarrow>
     (\<forall>i r. dget (ev_requests s) i = Some r \<longrightarrow>
        request_ok (bd_files (fa_builder (ev_factory s))) r \<and> rq_role r \<in> set (dkeys (ev_roles s))) \<and>
     (\<forall>c t. dget (fa_handlers (ev_factory s)) c = Some t \<longrightarrow>
        (\<exists>i r. dget (ev_requests s) i = Some r \<and> rq_status r \<noteq> ''pending'' \<and> tool_of r t))"

datatype ev_op =
    EPropose build_env string real string agent_spec
  | EApprove string string string real
  | EAnswer cap_env string string bool real real
  | EReject string string

fun ev_step :: "evolution \<Rightarrow> ev_op \<Rightarrow> evolution" where
  "ev_step s (EPropose env i now role_id sp) = snd (propose_capability env i now role_id sp s)"
| "ev_step s (EApprove chat args aid now) = snd (command_approve chat args aid now s)"
| "ev_step s (EAnswer env chat args approved t1 t2) = answer_approval env chat args approved t1 t2 s"
| "ev_step s (EReject chat args) = command_reject chat args s"

text \<open>Request identifiers are fresh, and a specification does not reuse the file of an earlier one.\<close>

fun ev_fresh :: "evolution \<Rightarrow> ev_op \<Rightarrow> bool" where
  "ev_fresh s (EPropose env i now role_id sp) \<longleftrightarrow> i \<notin> set (dkeys (ev_requests s)) \<and>
     tool_path (fa_builder (ev_factory s)) sp \<notin> set (dkeys (bd_files (fa_builder (ev_factory s))))"
| "ev_fresh s _ \<longleftrightarrow> True"

definition ev_le :: "evolution \<Rightarrow> evolution \<Rightarrow> bool" where
  "ev_le s t \<longleftrightarrow> (\<forall>i r. dget (ev_requests s) i = Some r \<longrightarrow>
     (\<exists>r'. dget (ev_requests t) i = Some r' \<and> rq_build r' = rq_build r))"

lemma request_ok_new: "request_ok fs r \<Longrightarrow> p \<notin> set (dkeys fs) \<Longrightarrow> request_ok (dset p src fs) r"
  unfolding request_ok_def dget_dset by (metis dget_dom)

lemma propose_keeps:
  assumes "ev_inv s" "ev_fresh s (EPropose env i now role_id sp)"
  shows "ev_inv (snd (propose_capability env i now role_id sp s)) \<and> ev_le s (snd (propose_capability env i now role_id sp s))"
proof (cases "role_id \<in> set (dkeys (ev_roles s))")
  case True
  obtain br f where bb: "bind_build env sp (ev_factory s) = (br, f)" by (cases "bind_build env sp (ev_factory s)")
  obtain b where b: "build env sp (fa_builder (ev_factory s)) = (br, b)" and f: "fa_builder f = b" "fa_handlers f = fa_handlers (ev_factory s)"
    using bind_build_cases [OF bb] by (metis prod.collapse)
  show ?thesis
  proof (cases "br_approved br")
    case False
    have "b = fa_builder (ev_factory s)" using b False by (cases rule: build_cases) auto
    then show ?thesis using True False bb f assms(1)
      by (simp add: propose_capability_def Let_def ev_simps ev_inv_def ev_le_def)
  next
    case app: True
    define r where "r = \<lparr>rq_id = i, rq_role = role_id, rq_build = br, rq_status = ''pending'', rq_created = now\<rparr>"
    define s' where "s' = snd (propose_capability env i now role_id sp s)"
    have s': "ev_factory s' = f" "ev_requests s' = dset i r (ev_requests s)" "ev_roles s' = ev_roles s"
      using True app bb by (simp_all add: s'_def propose_capability_def create_request_def Let_def ev_simps r_def)
    have new: "dget (ev_requests s) i = None" using assms(2) by (simp add: dget_None_iff)
    from b obtain src where built: "br_path br = Some (tool_path (fa_builder (ev_factory s)) sp)" "br_source br = Some src"
        "bd_files b = dset (tool_path (fa_builder (ev_factory s)) sp) src (bd_files (fa_builder (ev_factory s)))"
      using app by (cases rule: build_cases) auto
    have "request_ok (bd_files (fa_builder f)) r"
      using built f app by (simp add: request_ok_def r_def dict_simps)
    moreover have "request_ok (bd_files (fa_builder f)) q" if "request_ok (bd_files (fa_builder (ev_factory s))) q" for q
      using request_ok_new [OF that] assms(2) built(3) f by simp
    ultimately have files: "\<And>q. q = r \<or> request_ok (bd_files (fa_builder (ev_factory s))) q \<Longrightarrow>
        request_ok (bd_files (fa_builder f)) q" by blast
    have "request_ok (bd_files (fa_builder (ev_factory s'))) q \<and> rq_role q \<in> set (dkeys (ev_roles s'))"
      if q: "dget (ev_requests s') j = Some q" for j q
    proof (cases "j = i")
      case same: True
      then have "q = r" using q by (simp add: s'(2) dict_simps)
      then show ?thesis using files True unfolding s' by (simp add: r_def)
    next
      case False
      then have "dget (ev_requests s) j = Some q" using q by (simp add: s'(2) dict_simps)
      then show ?thesis using files assms(1) unfolding s' ev_inv_def by blast
    qed
    moreover have "\<exists>j q. dget (ev_requests s') j = Some q \<and> rq_status q \<noteq> ''pending'' \<and> tool_of q t"
      if ct: "dget (fa_handlers (ev_factory s')) c = Some t" for c t
    proof -
      obtain j q where q: "dget (ev_requests s) j = Some q" "rq_status q \<noteq> ''pending''" "tool_of q t"
        using assms(1) ct unfolding ev_inv_def s' f(2) by blast
      moreover have "j \<noteq> i" using q(1) new by auto
      ultimately show ?thesis unfolding s'(2) dget_dset by (intro exI [of _ j] exI [of _ q]) simp
    qed
    ultimately have "ev_inv s'" unfolding ev_inv_def by blast
    moreover have "ev_le s s'" using new s' by (auto simp: ev_le_def dict_simps)
    ultimately show ?thesis by (simp add: s'_def)
  qed
qed (use assms(1) in \<open>simp add: propose_capability_def ev_le_def\<close>)

lemma ev_same:
  "ev_inv s \<Longrightarrow> ev_factory t = ev_factory s \<Longrightarrow> ev_requests t = ev_requests s \<Longrightarrow> ev_roles t = ev_roles s \<Longrightarrow>
     ev_inv t \<and> ev_le s t"
  by (simp add: ev_inv_def ev_le_def)

lemma approve_keeps: "ev_inv s \<Longrightarrow> ev_inv (snd (command_approve c a i n s)) \<and> ev_le s (snd (command_approve c a i n s))"
  by (rule ev_same) (auto simp: command_approve_def Let_def ev_simps split: option.split prod.split)

text \<open>Marking a request changes its status only.\<close>

lemma mark_keeps:
  assumes "ev_inv s" "x \<noteq> ''pending''"
  shows "ev_inv (s\<lparr>ev_requests := snd (mark_request x i (ev_requests s))\<rparr>) \<and>
     ev_le s (s\<lparr>ev_requests := snd (mark_request x i (ev_requests s))\<rparr>)"
proof -
  have g: "dget (snd (mark_request x i (ev_requests s))) j =
      (if j = i then map_option (\<lambda>r. r\<lparr>rq_status := x\<rparr>) (dget (ev_requests s) i) else dget (ev_requests s) j)" for j
    by (simp add: mark_request_def Let_def dict_simps)
  have ok: "request_ok fs (r\<lparr>rq_status := x\<rparr>) = request_ok fs r" "tool_of (r\<lparr>rq_status := x\<rparr>) t = tool_of r t" for fs r t
    by (simp_all add: request_ok_def tool_of_def)
  have "\<exists>j r. dget (snd (mark_request x i (ev_requests s))) j = Some r \<and> rq_status r \<noteq> ''pending'' \<and> tool_of r t"
    if ct: "dget (fa_handlers (ev_factory s)) c = Some t" for c t
  proof -
    obtain j r where r: "dget (ev_requests s) j = Some r" "rq_status r \<noteq> ''pending''" "tool_of r t"
      using assms(1) ct unfolding ev_inv_def by blast
    have "dget (snd (mark_request x i (ev_requests s))) j = Some (if j = i then r\<lparr>rq_status := x\<rparr> else r)"
      using r(1) by (cases "j = i") (simp_all add: g)
    then show ?thesis using r assms(2) ok
      by (intro exI [of _ j] exI [of _ "if j = i then r\<lparr>rq_status := x\<rparr> else r"]) simp
  qed
  moreover have "request_ok (bd_files (fa_builder (ev_factory s))) r \<and> rq_role r \<in> set (dkeys (ev_roles s))"
    if "dget (snd (mark_request x i (ev_requests s))) j = Some r" for j r
    using that assms(1) unfolding g ev_inv_def by (auto simp: ok split: if_splits)
  ultimately have "ev_inv (s\<lparr>ev_requests := snd (mark_request x i (ev_requests s))\<rparr>)"
    by (simp add: ev_inv_def)
  moreover have "ev_le s (s\<lparr>ev_requests := snd (mark_request x i (ev_requests s))\<rparr>)"
    by (auto simp: ev_le_def g)
  ultimately show ?thesis ..
qed

lemma reject_keeps: "ev_inv s \<Longrightarrow> ev_inv (command_reject c a s) \<and> ev_le s (command_reject c a s)"
proof -
  assume inv: "ev_inv s"
  let ?t = "s\<lparr>ev_requests := snd (mark_request ''rejected'' (py_strip a) (ev_requests s))\<rparr>"
  have "ev_factory (command_reject c a s) = ev_factory ?t \<and> ev_requests (command_reject c a s) = ev_requests ?t \<and>
      ev_roles (command_reject c a s) = ev_roles ?t"
    by (auto simp: command_reject_def Let_def ev_simps split: option.split prod.split)
  then show ?thesis using mark_keeps [OF inv, of "''rejected''" "py_strip a"] ev_same [of ?t] by (auto simp: ev_le_def)
qed

lemma execute_cases:
  assumes "execute_approve env c i s = (res, s')"
  obtains (idle) "ev_requests s' = ev_requests s" "ev_roles s' = ev_roles s"
      "fa_builder (ev_factory s') = fa_builder (ev_factory s)" "fa_handlers (ev_factory s') = fa_handlers (ev_factory s)"
  | (broken) r where "dget (ev_requests s) i = Some r" "rq_role r \<notin> set (dkeys (ev_roles s))"
  | (bound) r and d :: descriptor and src where "dget (ev_requests s) i = Some r" "rq_status r = ''pending''" "br_approved (rq_build r)"
      "dget (bd_files (fa_builder (ev_factory s))) (the (br_path (rq_build r))) = Some src"
      "fa_builder (ev_factory s') = fa_builder (ev_factory s)"
      "fa_handlers (ev_factory s') = dset (cd_id d)
         \<lparr>bt_source = src, bt_capability = sp_capability (br_spec (rq_build r))\<rparr> (fa_handlers (ev_factory s))"
      "ev_requests s' = snd (mark_request ''approved'' i (ev_requests s))"
      "set (dkeys (ev_roles s')) = set (dkeys (ev_roles s))"
proof (cases "\<exists>r. dget (ev_requests s) i = Some r \<and> rq_status r = ''pending''")
  case False
  then show ?thesis using assms by (intro idle) (auto simp: execute_approve_def ev_simps split: option.splits if_splits)
next
  case True
  then obtain r where r: "dget (ev_requests s) i = Some r" "rq_status r = ''pending''" by blast
  obtain out f where b: "bind_tool env (rq_build r) (ev_factory s) = (out, f)"
    by (cases "bind_tool env (rq_build r) (ev_factory s)")
  from b show ?thesis
  proof (cases rule: bind_tool_cases)
    case (refused e)
    then show ?thesis using assms r b by (intro idle) (auto simp: execute_approve_def)
  next
    case bd: (bound d src)
    show ?thesis
    proof (cases "dget (ev_roles s) (rq_role r)")
      case None
      then show ?thesis using r by (intro broken) (auto simp: dget_None_iff)
    next
      case (Some specs)
      then have "rq_role r \<in> set (dkeys (ev_roles s))" by (metis dget_dom)
      then have keys: "set (dkeys (dset (rq_role r) v (ev_roles s))) = set (dkeys (ev_roles s))" for v
        by (auto simp: dict_simps)
      define s1 where "s1 = s\<lparr>ev_factory := f,
          ev_roles := dset (rq_role r) (specs @ [br_spec (rq_build r)]) (ev_roles s),
          ev_requests := snd (mark_request ''approved'' i (ev_requests s))\<rparr>"
      obtain ch tx n pl where "s' = ev_say ch tx (ev_publish n pl s1)"
        using assms r b bd(1) Some unfolding execute_approve_def s1_def by auto
      then have s': "ev_factory s' = f" "ev_requests s' = snd (mark_request ''approved'' i (ev_requests s))"
          "ev_roles s' = dset (rq_role r) (specs @ [br_spec (rq_build r)]) (ev_roles s)"
        by (simp_all add: ev_simps s1_def)
      show ?thesis
        by (rule bound [of r src d]) (simp_all only: s' keys r bd)
    qed
  qed
qed

lemma execute_keeps:
  assumes inv: "ev_inv s" and ex: "execute_approve env c i s = (res, s')"
  shows "ev_inv s' \<and> ev_le s s'"
  using ex
proof (cases rule: execute_cases)
  case idle
  then show ?thesis using inv by (simp add: ev_inv_def ev_le_def)
next
  case (broken r)
  then show ?thesis using inv by (auto simp: ev_inv_def)
next
  case (bound r d src)
  let ?t = "s\<lparr>ev_requests := snd (mark_request ''approved'' i (ev_requests s))\<rparr>"
  have m: "ev_inv ?t" "ev_le s ?t" using mark_keeps [OF inv, of "''approved''" i] by auto
  have now: "dget (ev_requests s') i = Some (r\<lparr>rq_status := ''approved''\<rparr>)"
    using bound(1) by (simp add: bound(7) mark_request_def Let_def dict_simps)
  have "request_ok (bd_files (fa_builder (ev_factory s))) r" using inv bound(1) unfolding ev_inv_def by blast
  then have "br_source (rq_build r) = Some src" using bound(4) by (auto simp: request_ok_def)
  then have "tool_of (r\<lparr>rq_status := ''approved''\<rparr>) \<lparr>bt_source = src, bt_capability = sp_capability (br_spec (rq_build r))\<rparr>"
    by (simp add: tool_of_def)
  then have "\<exists>j q. dget (ev_requests s') j = Some q \<and> rq_status q \<noteq> ''pending'' \<and> tool_of q t"
    if "dget (fa_handlers (ev_factory s')) k = Some t" for k t
    using that m(1) now unfolding bound(6) bound(7) ev_inv_def
    by (fastforce simp: dict_simps split: if_splits)
  moreover have "\<forall>j q. dget (ev_requests s') j = Some q \<longrightarrow>
      request_ok (bd_files (fa_builder (ev_factory s'))) q \<and> rq_role q \<in> set (dkeys (ev_roles s'))"
    using m(1) unfolding ev_inv_def bound(5,7,8) by simp
  ultimately have "ev_inv s'" unfolding ev_inv_def by blast
  moreover have "ev_le s s'" using m(2) by (simp add: ev_le_def bound(7))
  ultimately show ?thesis ..
qed

interpretation evolution_gate: gate_client ev_telegram "\<lambda>g s. s\<lparr>ev_telegram := g\<rparr>" ev_callbacks
    "\<lambda>(c, i). ev_say c (''Review of '' @ i @ '' was cancelled.'')" "\<lambda>s. (ev_factory s, ev_requests s, ev_roles s)"
  by unfold_locales (auto simp: ev_simps)

lemma answer_shape:
  obtains (idle) "ev_factory (answer_approval env chat args approved t1 t2 s) = ev_factory s"
      "ev_requests (answer_approval env chat args approved t1 t2 s) = ev_requests s"
      "ev_roles (answer_approval env chat args approved t1 t2 s) = ev_roles s"
  | (executed) p g c i s1 res s2 where "approved" "take_pending chat args t1 t2 (ev_telegram s) = (Some p, g)"
      "dget (ev_callbacks s) (py_strip args) = Some (c, i)"
      "ev_factory s1 = ev_factory s" "ev_requests s1 = ev_requests s" "ev_roles s1 = ev_roles s"
      "execute_approve env c i s1 = (res, s2)"
      "ev_factory (answer_approval env chat args approved t1 t2 s) = ev_factory s2"
      "ev_requests (answer_approval env chat args approved t1 t2 s) = ev_requests s2"
      "ev_roles (answer_approval env chat args approved t1 t2 s) = ev_roles s2"
proof (cases rule: evolution_gate.answer_cases [of "\<lambda>(c, i). execute_approve env c i" chat args approved t1 t2 s,
      folded answer_approval_def, case_names idle executed])
  case idle
  then show ?thesis by (intro that(1)) simp_all
next
  case (executed p g c s1 res s2)
  then show ?thesis by (intro that(2) [of p g "fst c" "snd c" s1 res s2]) (simp_all add: split_beta)
qed

lemma answer_keeps:
  assumes inv: "ev_inv s"
  shows "ev_inv (answer_approval env chat args approved t1 t2 s) \<and> ev_le s (answer_approval env chat args approved t1 t2 s)"
proof (cases rule: answer_shape [of env chat args approved t1 t2 s])
  case idle
  then show ?thesis by (rule ev_same [OF inv])
next
  case (executed p g c i s1 res s2)
  have "ev_inv s1" using ev_same [OF inv executed(4,5,6)] by simp
  then have "ev_inv s2" "ev_le s1 s2" using execute_keeps [OF _ executed(7)] by auto
  then show ?thesis using executed by (simp add: ev_inv_def ev_le_def)
qed

lemma ev_step_keeps: "ev_inv s \<Longrightarrow> ev_fresh s x \<Longrightarrow> ev_inv (ev_step s x) \<and> ev_le s (ev_step s x)"
proof (cases x)
  case (EPropose env i now role_id sp)
  assume "ev_inv s" "ev_fresh s x"
  then show ?thesis using propose_keeps unfolding EPropose ev_step.simps by blast
next
  case (EApprove c a i n)
  assume "ev_inv s"
  then show ?thesis unfolding EApprove ev_step.simps by (rule approve_keeps)
next
  case (EAnswer env c a b t1 t2)
  assume "ev_inv s"
  then show ?thesis unfolding EAnswer ev_step.simps by (rule answer_keeps)
next
  case (EReject c a)
  assume "ev_inv s"
  then show ?thesis unfolding EReject ev_step.simps by (rule reject_keeps)
qed

lemma ev_le_trans: "ev_le s t \<Longrightarrow> ev_le t u \<Longrightarrow> ev_le s u"
  unfolding ev_le_def by fastforce

interpretation evolutions: machine ev_step ev_fresh ev_inv ev_le
proof
  show "ev_le s s" for s by (simp add: ev_le_def)
qed (fact ev_le_trans | use ev_step_keeps in blast)+

section \<open>Properties\<close>

definition new_evolution :: "string \<Rightarrow> cap_layer \<Rightarrow> (string, agent_spec list) dict \<Rightarrow> telegram \<Rightarrow> evolution" where
  "new_evolution dir layer roles tg =
     \<lparr>ev_factory = \<lparr>fa_builder = \<lparr>bd_dir = dir, bd_files = []\<rparr>, fa_layer = layer, fa_handlers = [],
        fa_component = ''agent_factory'', fa_risk = Low, fa_events = []\<rparr>,
      ev_requests = [], ev_roles = roles, ev_telegram = tg, ev_callbacks = [], ev_events = []\<rparr>"

lemma new_evolution_inv: "ev_inv (new_evolution dir layer roles tg)"
  by (simp add: new_evolution_def ev_inv_def)


definition demo_spec :: "string \<Rightarrow> agent_spec" where
  "demo_spec d = \<lparr>sp_name = ''upper'', sp_capability = ''text.upper'', sp_description = d, sp_template = ''t'',
     sp_tests = [\<lparr>tc_input = PStr ''a'', tc_expected = PStr ''A''\<rparr>]\<rparr>"

text \<open>A synthesizer that puts the description into the source; everything passes.\<close>

definition demo_env :: build_env where
  "demo_env = \<lparr>be_synthesize = (\<lambda>sp. Inr (''source of '' @ sp_description sp)), be_parse = (\<lambda>_. Inr [AName ''upper'']),
     be_sandbox = (\<lambda>_ _. (True, ''1/1 passed'')), be_reviewer = None\<rparr>"

definition demo_cap_env :: cap_env where
  "demo_cap_env = \<lparr>ce_sha = demo_sha, ce_sign = (\<lambda>k h. k @ h), ce_now = ''t'', ce_id = ''id1''\<rparr>"

definition demo_service :: evolution where
  "demo_service = new_evolution ''gen'' \<lparr>cl_registry = \<lparr>cr_by_id = [], cr_latest = [], cr_file = None\<rparr>, cl_audit = [],
      cl_actor = demo_actor\<rparr> [(''worker'', [])]
     \<lparr>tg_admins = [''adm''], tg_ttl = 300, tg_pending = [],
      tg_store = Some \<lparr>as_records = [], as_disk = None, as_audit = []\<rparr>, tg_links = [], tg_tasks = [], tg_out = []\<rparr>"

definition demo_evolve :: "ev_op list" where
  "demo_evolve = [EPropose demo_env ''cap-1'' 1 ''worker'' (demo_spec ''first''),
     EApprove ''adm'' ''cap-1'' ''ap-1'' 2, EAnswer demo_cap_env ''adm'' ''ap-1'' True 3 3]"


text \<open>
  The handler table changes only when a chat answers \<open>/approve\<close> in time to an approval it
  requested itself, for a proposal that is still pending.
\<close>

theorem bound_only_by_answer:
  assumes "ev_inv s" "ev_fresh s x"
    and "fa_handlers (ev_factory (ev_step s x)) \<noteq> fa_handlers (ev_factory s)"
  shows "\<exists>env chat args t1 t2 p c i r. x = EAnswer env chat args True t1 t2 \<and>
     dget (tg_pending (ev_telegram s)) (py_strip args) = Some p \<and> pa_chat p = chat \<and> t2 < pa_expires p \<and>
     dget (ev_callbacks s) (py_strip args) = Some (c, i) \<and> dget (ev_requests s) i = Some r \<and> rq_status r = ''pending''"
proof (cases x)
  case (EPropose env i now role_id sp)
  obtain br f where "bind_build env sp (ev_factory s) = (br, f)" by (cases "bind_build env sp (ev_factory s)")
  then have "fa_handlers (ev_factory (ev_step s x)) = fa_handlers (ev_factory s)"
    using bind_build_cases [of env sp "ev_factory s" br f] EPropose
    by (auto simp: propose_capability_def Let_def ev_simps split: prod.split sum.split)
  then show ?thesis using assms(3) by simp
next
  case (EApprove chat args aid now)
  have "ev_factory (ev_step s x) = ev_factory s"
    by (auto simp: EApprove command_approve_def Let_def ev_simps split: option.split prod.split)
  then show ?thesis using assms(3) by simp
next
  case (EReject chat args)
  have "ev_factory (ev_step s x) = ev_factory s"
    by (auto simp: EReject command_reject_def Let_def ev_simps split: option.split prod.split)
  then show ?thesis using assms(3) by simp
next
  case (EAnswer env chat args approved t1 t2)
  show ?thesis
  proof (cases rule: answer_shape [of env chat args approved t1 t2 s])
    case idle
    then show ?thesis using assms(3) EAnswer by simp
  next
    case (executed p g c i s1 res s2)
    from executed(7) obtain r where r: "dget (ev_requests s) i = Some r" "rq_status r = ''pending''"
    proof (cases rule: execute_cases)
      case idle
      then show ?thesis using assms(3) EAnswer executed by simp
    next
      case (broken r)
      then show ?thesis using assms(1) executed(5,6) unfolding ev_inv_def by metis
    next
      case (bound r)
      then show ?thesis using that executed(5) by simp
    qed
    show ?thesis using take_SomeD [OF executed(2)] executed(1,3) r EAnswer by blast
  qed
qed

theorem bound_only_by_answer_witness:
  "\<exists>p. dget (tg_pending (ev_telegram (run ev_step demo_service (butlast demo_evolve)))) ''ap-1'' = Some p \<and>
     pa_chat p = ''adm'' \<and> 3 < pa_expires p"
proof -
  let ?s = "run ev_step demo_service (butlast demo_evolve)"
  have "legal ev_fresh ev_step demo_service (butlast demo_evolve)" by code_simp
  then have inv: "ev_inv ?s" unfolding demo_service_def by (rule evolutions.run_inv [OF new_evolution_inv])
  have f: "ev_fresh ?s (EAnswer demo_cap_env ''adm'' ''ap-1'' True 3 3)" by simp
  have "fa_handlers (ev_factory ?s) = []" by code_simp
  moreover have "fa_handlers (ev_factory (ev_step ?s (EAnswer demo_cap_env ''adm'' ''ap-1'' True 3 3))) =
      [(''id1'', \<lparr>bt_source = ''source of first'', bt_capability = ''text.upper''\<rparr>)]" by code_simp
  ultimately have h: "fa_handlers (ev_factory (ev_step ?s (EAnswer demo_cap_env ''adm'' ''ap-1'' True 3 3))) \<noteq>
      fa_handlers (ev_factory ?s)" by simp
  have "py_strip ''ap-1'' = ''ap-1''" by code_simp
  then show ?thesis using bound_only_by_answer [OF inv f h] by auto
qed

text \<open>
  When two pending proposals have specifications of the same name, the second build
  overwrites the file of the first, and approving the first, and only it, makes the source of
  the second executable, while the second is still pending (or even rejected).
\<close>

definition demo_clash :: "ev_op list" where
  "demo_clash = [EPropose demo_env ''cap-1'' 1 ''worker'' (demo_spec ''first''),
     EPropose demo_env ''cap-2'' 1 ''worker'' (demo_spec ''second''), EReject ''adm'' ''cap-2'',
     EApprove ''adm'' ''cap-1'' ''ap-1'' 2, EAnswer demo_cap_env ''adm'' ''ap-1'' True 3 3]"

theorem approval_binds_other_source:
  "\<exists>r1 r2 t. dget (ev_requests (run ev_step demo_service demo_clash)) ''cap-1'' = Some r1 \<and>
     dget (ev_requests (run ev_step demo_service demo_clash)) ''cap-2'' = Some r2 \<and>
     rq_status r1 = ''approved'' \<and> rq_status r2 = ''rejected'' \<and>
     dget (fa_handlers (ev_factory (run ev_step demo_service demo_clash))) ''id1'' = Some t \<and>
     Some (bt_source t) \<noteq> br_source (rq_build r1) \<and> Some (bt_source t) = br_source (rq_build r2)"
proof -
  let ?s = "run ev_step demo_service demo_clash"
  have "map_option (\<lambda>r. (rq_status r, br_source (rq_build r))) (dget (ev_requests ?s) ''cap-1'') =
      Some (''approved'', Some ''source of first'')" by code_simp
  moreover have "map_option (\<lambda>r. (rq_status r, br_source (rq_build r))) (dget (ev_requests ?s) ''cap-2'') =
      Some (''rejected'', Some ''source of second'')" by code_simp
  moreover have "map_option bt_source (dget (fa_handlers (ev_factory ?s)) ''id1'') = Some ''source of second''" by code_simp
  ultimately show ?thesis by auto
qed

section \<open>The automated gates\<close>

lemma check_nodes_iff:
  "fst (check_nodes ns) \<longleftrightarrow> AImport \<notin> set ns \<and> (\<forall>s. AName s \<in> set ns \<longrightarrow> s \<notin> set forbidden_names) \<and>
     (\<forall>s. AAttribute s \<in> set ns \<longrightarrow> \<not> is_dunder s)"
  by (induction ns rule: check_nodes.induct) auto

end
