(* ===== verification/Capability_Props.thy ===== *)
theory Capability_Props
  imports Capability
begin

text \<open>
  The registry over all its runs: identifiers and files agree, a descriptor once published
  never changes, and a restart finds exactly the registry that was there.
\<close>

section \<open>Descriptors survive their dictionary\<close>

lemma risk_of_value [simp]: "risk_of (risk_value x) = Some x"
  by (cases x) (simp_all add: risk_of_def)

lemma those_PStr [simp]: "those (map ((\<lambda>v. as_str (Some v)) \<circ> PStr) xs) = Some xs"
  by (induction xs) auto

lemma desc_roundtrip [simp]: "desc_from_dict (desc_to_dict d) = Some d"
  by (simp add: desc_to_dict_def desc_from_dict_def)

lemma load_descriptors_fold:
  "load_descriptors (map desc_to_dict ds) m = Some (fold (\<lambda>d. dset (cd_id d) d) ds m)"
  by (induction ds arbitrary: m) auto

lemma split_file_key: "nul \<notin> set c \<Longrightarrow> split_key (file_key (c, n)) = (c, n)"
  by (induction c) (auto simp: split_key_def file_key_def)

section \<open>The invariant\<close>

definition reg_ok :: "registry \<Rightarrow> bool" where
  "reg_ok r \<longleftrightarrow> dwf (cr_by_id r) \<and> (\<forall>i d. (i, d) \<in> set (cr_by_id r) \<longrightarrow> cd_id d = i) \<and> dwf (cr_latest r) \<and>
     (\<forall>k i. (k, i) \<in> set (cr_latest r) \<longrightarrow> nul \<notin> set (fst k) \<and> i \<noteq> [] \<and>
        (\<exists>d. dget (cr_by_id r) i = Some d \<and> (cd_component d, cd_name d) = k)) \<and>
     (cr_by_id r \<noteq> [] \<or> cr_file r \<noteq> None \<longrightarrow>
        cr_file r = Some (map desc_to_dict (dvals (cr_by_id r)), map (\<lambda>(k, i). (file_key k, i)) (cr_latest r)))"

lemma fold_latest:
  "dwf (e @ l) \<Longrightarrow> (\<And>k i. (k, i) \<in> set l \<Longrightarrow> nul \<notin> set (fst k)) \<Longrightarrow>
     fold (\<lambda>(k, i). dset (split_key k) i) (map (\<lambda>(k, i). (file_key k, i)) l) e = e @ l"
proof (induction l arbitrary: e)
  case (Cons p l)
  obtain c n i where p: "p = ((c, n), i)" by (metis prod.collapse)
  have "split_key (file_key (c, n)) = (c, n)" using Cons.prems(2) [of "(c, n)" i] p by (intro split_file_key) auto
  moreover have "dset (c, n) i e = e @ [p]" using Cons.prems(1) p by (subst dset_new) auto
  moreover have "fold (\<lambda>(k, i). dset (split_key k) i) (map (\<lambda>(k, i). (file_key k, i)) l) (e @ [p]) = (e @ [p]) @ l"
    using Cons.prems by (intro Cons.IH) auto
  ultimately show ?case using p by simp
qed simp

lemma empty_latest: "reg_ok r \<Longrightarrow> cr_by_id r = [] \<Longrightarrow> cr_latest r = []"
  by (cases "cr_latest r") (auto simp: reg_ok_def)

lemma load_saved: "reg_ok r \<Longrightarrow> reg_load (cr_file r) = Some r"
proof (cases "cr_file r")
  case None
  assume "reg_ok r"
  with None have "cr_by_id r = []" by (auto simp: reg_ok_def)
  with \<open>reg_ok r\<close> None show ?thesis using empty_latest by (simp add: reg_load_def)
next
  case (Some f)
  assume ok: "reg_ok r"
  have f: "f = (map desc_to_dict (dvals (cr_by_id r)), map (\<lambda>(k, i). (file_key k, i)) (cr_latest r))"
    using ok Some by (auto simp: reg_ok_def)
  have "fold (\<lambda>d. dset (cd_id d) d) (dvals (cr_by_id r)) [] = cr_by_id r"
    using fold_dset_dvals [of "[]" "cr_by_id r" cd_id] ok by (auto simp: reg_ok_def)
  moreover have "fold (\<lambda>(k, i). dset (split_key k) i) (map (\<lambda>(k, i). (file_key k, i)) (cr_latest r)) [] = cr_latest r"
    using fold_latest [of "[]" "cr_latest r"] ok by (force simp: reg_ok_def)
  moreover have "load_descriptors (map desc_to_dict (dvals (cr_by_id r))) [] =
      Some (fold (\<lambda>d. dset (cd_id d) d) (dvals (cr_by_id r)) [])"
    by (rule load_descriptors_fold)
  ultimately have "reg_load (Some f) = Some (r\<lparr>cr_file := Some f\<rparr>)"
    unfolding f reg_load_def option.case prod.case by simp
  then show ?thesis using Some by simp
qed

lemma reg_save_simps [simp]:
  "cr_by_id (reg_save r) = cr_by_id r" "cr_latest (reg_save r) = cr_latest r"
  "cr_file (reg_save r) = Some (map desc_to_dict (dvals (cr_by_id r)), map (\<lambda>(k, i). (file_key k, i)) (cr_latest r))"
  by (simp_all add: reg_save_def)

lemma build_descriptorD:
  "build_descriptor p v i now = Inr d \<Longrightarrow>
     cd_id d = i \<and> cd_component d = pb_component p \<and> cd_name d = pb_name p \<and> cd_version d = v"
  by (auto simp: build_descriptor_def split: if_splits)

lemma register_cases:
  assumes "register p i now r = (res, r')"
  obtains (refused) e where "res = Inl e" "r' = r"
  | (published) d where "res = Inr d" "cd_id d = i" "cd_component d = pb_component p" "cd_name d = pb_name p"
      "r' = reg_save (r\<lparr>cr_by_id := dset i d (cr_by_id r), cr_latest := dset (pb_component p, pb_name p) i (cr_latest r)\<rparr>)"
proof -
  define v where "v = (case dget (cr_latest r) (pb_component p, pb_name p) of
      None \<Rightarrow> Some 1
    | Some old \<Rightarrow> if old = [] then Some 1 else map_option (\<lambda>d. cd_version d + 1) (dget (cr_by_id r) old))"
  have eq: "register p i now r = (case v of None \<Rightarrow> (Inl ''KeyError'', r)
      | Some v \<Rightarrow> (case build_descriptor p v i now of Inl e \<Rightarrow> (Inl e, r)
          | Inr d \<Rightarrow> (Inr d, reg_save (r\<lparr>cr_by_id := dset (cd_id d) d (cr_by_id r),
              cr_latest := dset (pb_component p, pb_name p) (cd_id d) (cr_latest r)\<rparr>))))"
    by (simp add: register_def Let_def v_def)
  show ?thesis
  proof (cases "\<exists>w d. v = Some w \<and> build_descriptor p w i now = Inr d")
    case True
    then obtain w d where w: "v = Some w" "build_descriptor p w i now = Inr d" by blast
    show ?thesis using assms build_descriptorD [OF w(2)] by (intro published [of d]) (auto simp: eq w)
  next
    case False
    then have "\<exists>e. res = Inl e \<and> r' = r" using assms unfolding eq by (auto split: option.splits sum.splits intro: sym)
    then show ?thesis using refused by blast
  qed
qed

datatype reg_op = Register publication string string | Unregister string string

fun reg_step :: "registry \<Rightarrow> reg_op \<Rightarrow> registry" where
  "reg_step r (Register p i now) = snd (register p i now r)"
| "reg_step r (Unregister c n) = unregister c n r"

text \<open>The environment draws fresh, non-empty identifiers; no component identifier contains a NUL.\<close>

fun reg_fresh :: "registry \<Rightarrow> reg_op \<Rightarrow> bool" where
  "reg_fresh r (Register p i now) \<longleftrightarrow> i \<noteq> [] \<and> i \<notin> set (dkeys (cr_by_id r)) \<and> nul \<notin> set (pb_component p)"
| "reg_fresh r (Unregister c n) \<longleftrightarrow> True"

definition reg_le :: "registry \<Rightarrow> registry \<Rightarrow> bool" where
  "reg_le r s \<longleftrightarrow> (\<forall>i d. dget (cr_by_id r) i = Some d \<longrightarrow> dget (cr_by_id s) i = Some d)"

lemma published_ok:
  assumes ok: "reg_ok r" and i: "i \<noteq> []" "i \<notin> set (dkeys (cr_by_id r))" "nul \<notin> set c"
    and d: "cd_id d = i" "cd_component d = c" "cd_name d = n"
  shows "reg_ok (reg_save (r\<lparr>cr_by_id := dset i d (cr_by_id r), cr_latest := dset (c, n) i (cr_latest r)\<rparr>))"
proof -
  let ?s = "reg_save (r\<lparr>cr_by_id := dset i d (cr_by_id r), cr_latest := dset (c, n) i (cr_latest r)\<rparr>)"
  have w: "dwf (cr_by_id r)" "dwf (cr_latest r)" "\<forall>i d. (i, d) \<in> set (cr_by_id r) \<longrightarrow> cd_id d = i"
    using ok by (auto simp: reg_ok_def)
  have "nul \<notin> set (fst k) \<and> j \<noteq> [] \<and> (\<exists>d. dget (cr_by_id ?s) j = Some d \<and> (cd_component d, cd_name d) = k)"
    if kj: "(k, j) \<in> set (cr_latest ?s)" for k j
  proof (cases "k = (c, n)")
    case True
    then have "j = i" using kj w(2) by (simp add: in_set_dset)
    then show ?thesis using True i d by (auto simp: dict_simps)
  next
    case False
    then have "(k, j) \<in> set (cr_latest r)" using kj w(2) by (simp add: in_set_dset)
    then obtain d' where "nul \<notin> set (fst k)" "j \<noteq> []" "dget (cr_by_id r) j = Some d'" "(cd_component d', cd_name d') = k"
      using ok unfolding reg_ok_def by blast
    moreover have "j \<noteq> i" using i(2) calculation(3) by (metis dget_dom)
    ultimately show ?thesis by (auto simp: dict_simps)
  qed
  moreover have "\<forall>j e. (j, e) \<in> set (cr_by_id ?s) \<longrightarrow> cd_id e = j" using w d by (simp add: in_set_dset)
  ultimately show ?thesis using w unfolding reg_ok_def by simp
qed

lemma unregister_ok: "reg_ok r \<Longrightarrow> reg_ok (unregister c n r) \<and> reg_le r (unregister c n r)"
proof (cases "(c, n) \<in> set (dkeys (cr_latest r))")
  case True
  assume ok: "reg_ok r"
  define l where "l = ddel (c, n) (cr_latest r)"
  have l: "dwf l" "\<And>k i. (k, i) \<in> set l \<Longrightarrow> (k, i) \<in> set (cr_latest r)"
    using ok by (auto simp: l_def reg_ok_def ddel_def)
  have "nul \<notin> set (fst k) \<and> i \<noteq> [] \<and> (\<exists>d. dget (cr_by_id r) i = Some d \<and> (cd_component d, cd_name d) = k)"
    if "(k, i) \<in> set l" for k i
    using l(2) [OF that] ok unfolding reg_ok_def by blast
  then have "reg_ok (reg_save (r\<lparr>cr_latest := l\<rparr>))"
    using ok l(1) unfolding reg_ok_def reg_save_simps by simp
  note this [unfolded l_def]
  then show ?thesis using True by (simp add: unregister_def reg_le_def)
qed (simp add: unregister_def reg_le_def)

lemma reg_step_keeps: "reg_ok r \<Longrightarrow> reg_fresh r x \<Longrightarrow> reg_ok (reg_step r x) \<and> reg_le r (reg_step r x)"
proof (cases x)
  case (Register p i now)
  assume ok: "reg_ok r" and fr: "reg_fresh r x"
  obtain res r' where reg: "register p i now r = (res, r')" by (cases "register p i now r")
  then show ?thesis
  proof (cases rule: register_cases)
    case (published d)
    have "reg_ok r'" unfolding published(5) by (rule published_ok) (use ok fr Register published in auto)
    moreover have "dget (cr_by_id r) i = None" using fr Register by (simp add: dget_None_iff)
    then have "reg_le r r'" by (auto simp: published(5) reg_le_def dict_simps)
    ultimately show ?thesis using Register reg by simp
  qed (use ok Register reg in \<open>simp add: reg_le_def\<close>)
next
  case (Unregister c n)
  assume "reg_ok r"
  then show ?thesis using Unregister unregister_ok by simp
qed

interpretation registries: machine reg_step reg_fresh reg_ok reg_le
  by unfold_locales (use reg_step_keeps in \<open>auto simp: reg_le_def\<close>)

definition empty_registry :: registry where
  "empty_registry = \<lparr>cr_by_id = [], cr_latest = [], cr_file = None\<rparr>"

lemma empty_registry_ok: "reg_ok empty_registry"
  by (simp add: empty_registry_def reg_ok_def)

section \<open>Properties\<close>

text \<open>
  A process that starts over the registry file finds exactly the registry its
  predecessor had, after any publications and withdrawals.
\<close>

theorem registry_survives_restart:
  assumes "legal reg_fresh reg_step empty_registry ops"
  shows "reg_load (cr_file (run reg_step empty_registry ops)) = Some (run reg_step empty_registry ops)"
  by (rule load_saved [OF registries.run_inv [OF empty_registry_ok assms]])

definition demo_publication :: publication where
  "demo_publication = \<lparr>pb_component = ''agent_factory'', pb_name = ''text.upper'', pb_description = ''upper'',
     pb_input = PDict [], pb_output = PDict [], pb_cost = 0, pb_risk = Low, pb_tags = [''self-built'']\<rparr>"

definition demo_reg_ops :: "reg_op list" where
  "demo_reg_ops = [Register demo_publication ''id1'' ''t1'', Register demo_publication ''id2'' ''t2'']"

lemma demo_reg_legal: "legal reg_fresh reg_step empty_registry demo_reg_ops"
  by code_simp

theorem registry_survives_restart_witness:
  "reg_load (cr_file (run reg_step empty_registry demo_reg_ops)) = Some (run reg_step empty_registry demo_reg_ops)"
  by (rule registry_survives_restart [OF demo_reg_legal])

text \<open>
  Publishing a capability again gives the next version under a new identifier; the
  descriptor of an identifier is never changed or removed, so a plan that refers to an earlier
  version keeps finding exactly what it was evaluated against.
\<close>

theorem published_descriptor_is_permanent:
  assumes "legal reg_fresh reg_step empty_registry (ops @ Register p i now # more_ops)"
    and "fst (register p i now (run reg_step empty_registry ops)) = Inr d"
  shows "reg_get i (run reg_step empty_registry (ops @ Register p i now # more_ops)) = Inr d \<and>
     (case get_latest (pb_component p) (pb_name p) (run reg_step empty_registry ops) of
        Inl _ \<Rightarrow> cd_version d = 1 | Inr old \<Rightarrow> cd_version d = cd_version old + 1 \<and> cd_id old \<noteq> i)"
proof -
  let ?r = "run reg_step empty_registry ops"
  have l: "legal reg_fresh reg_step empty_registry ops" "reg_fresh ?r (Register p i now)"
      "legal reg_fresh reg_step (reg_step ?r (Register p i now)) more_ops"
    using assms(1) by (simp_all add: legal_append)
  have ok: "reg_ok ?r" by (rule registries.run_inv [OF empty_registry_ok l(1)])
  obtain r' where reg: "register p i now ?r = (Inr d, r')" using assms(2) by (cases "register p i now ?r") auto
  have "dget (cr_by_id r') i = Some d" using reg by (cases rule: register_cases) (auto simp: dict_simps)
  moreover have "reg_le r' (run reg_step r' more_ops)"
    using registries.run_progress [OF registries.step_inv [OF ok l(2)] l(3)] reg by simp
  ultimately have g: "reg_get i (run reg_step empty_registry (ops @ Register p i now # more_ops)) = Inr d"
    using reg by (simp add: reg_get_def run_append reg_le_def)
  show ?thesis
  proof (cases "dget (cr_latest ?r) (pb_component p, pb_name p)")
    case None
    then have "cd_version d = 1"
      using reg by (auto simp: register_def dest: build_descriptorD split: sum.splits)
    then show ?thesis using g None by (simp add: get_latest_def)
  next
    case (Some j)
    then obtain old where old: "dget (cr_by_id ?r) j = Some old" "j \<noteq> []"
      using ok dget_in_set [OF Some] unfolding reg_ok_def by blast
    have "cd_id old = j" using old ok dget_in_set [OF old(1)] by (simp add: reg_ok_def)
    moreover have "j \<noteq> i" using dget_in_set [OF old(1)] l(2) by force
    moreover have "cd_version d = cd_version old + 1"
      using reg Some old by (auto simp: register_def dest: build_descriptorD split: sum.splits)
    ultimately show ?thesis using g Some old by (simp add: get_latest_def)
  qed
qed

theorem published_descriptor_is_permanent_witness:
  "\<exists>d. reg_get ''id1'' (run reg_step empty_registry demo_reg_ops) = Inr d \<and> cd_version d = 1"
proof -
  define d where "d = \<lparr>cd_id = ''id1'', cd_component = ''agent_factory'', cd_name = ''text.upper'',
      cd_description = ''upper'', cd_input = PDict [], cd_output = PDict [], cd_cost = 0, cd_risk = Low,
      cd_tags = [''self-built''], cd_version = 1, cd_created = ''t1''\<rparr>"
  have "fst (register demo_publication ''id1'' ''t1'' (run reg_step empty_registry [])) = Inr d"
    unfolding d_def by code_simp
  from published_descriptor_is_permanent [OF _ this, of "[Register demo_publication ''id2'' ''t2'']"] demo_reg_legal
  have "reg_get ''id1'' (run reg_step empty_registry demo_reg_ops) = Inr d"
    unfolding demo_reg_ops_def append_Nil by blast
  then show ?thesis by (simp add: d_def)
qed

end
