(* ===== verification/Memory.thy ===== *)
theory Memory
  imports Audit_Log
begin

text \<open>
  The memory layer (\<open>infrastructure/cognitive_core/memory/\<close>): working memory (sessions of
  key-value context), episodic memory (an append-only table of episodes), semantic memory (a
  graph of entities and facts), and the audited facade over the three.

  A table is the list of its rows in insertion order. The order of rows with equal sort keys,
  and of a query without an order, is the insertion order (reversed for a descending query).
  A JSON column is the value it encodes. Fresh identifiers and times come in the environment.
\<close>

record mem_env =
  me_sha :: "pyval \<Rightarrow> string"
  me_sign :: "string \<Rightarrow> string \<Rightarrow> string"
  me_now :: string
  me_id :: string

section \<open>Working memory\<close>

record wm_session =
  ws_created :: string
  ws_context :: "(string, pyval) dict"

type_synonym working = "(string, wm_session) dict"

definition unknown_session :: "string \<Rightarrow> string" where
  "unknown_session sid = ''No active working-memory session with id='' @ sid"

definition wm_open :: "mem_env \<Rightarrow> string option \<Rightarrow> working \<Rightarrow> string \<times> working" where
  "wm_open env sid w =
     (let i = (case sid of None \<Rightarrow> me_id env | Some s \<Rightarrow> if s = [] then me_id env else s)
      in (i, dset i \<lparr>ws_created = me_now env, ws_context = []\<rparr> w))"

definition wm_set :: "string \<Rightarrow> string \<Rightarrow> pyval \<Rightarrow> working \<Rightarrow> (string + unit) \<times> working" where
  "wm_set sid k v w =
     (case dget w sid of
        None \<Rightarrow> (Inl (unknown_session sid), w)
      | Some _ \<Rightarrow> (Inr (), dmod sid (\<lambda>s. s\<lparr>ws_context := dset k v (ws_context s)\<rparr>) w))"

definition wm_get :: "string \<Rightarrow> string \<Rightarrow> pyval \<Rightarrow> working \<Rightarrow> string + pyval" where
  "wm_get sid k dflt w =
     (case dget w sid of
        None \<Rightarrow> Inl (unknown_session sid)
      | Some s \<Rightarrow> Inr (case dget (ws_context s) k of None \<Rightarrow> dflt | Some v \<Rightarrow> v))"

definition wm_all :: "string \<Rightarrow> working \<Rightarrow> string + (string, pyval) dict" where
  "wm_all sid w = (case dget w sid of None \<Rightarrow> Inl (unknown_session sid) | Some s \<Rightarrow> Inr (ws_context s))"

definition wm_delete :: "string \<Rightarrow> string \<Rightarrow> working \<Rightarrow> (string + unit) \<times> working" where
  "wm_delete sid k w =
     (case dget w sid of
        None \<Rightarrow> (Inl (unknown_session sid), w)
      | Some _ \<Rightarrow> (Inr (), dmod sid (\<lambda>s. s\<lparr>ws_context := ddel k (ws_context s)\<rparr>) w))"

definition wm_close :: "string \<Rightarrow> working \<Rightarrow> working" where
  "wm_close sid w = ddel sid w"

definition wm_is_open :: "string \<Rightarrow> working \<Rightarrow> bool" where
  "wm_is_open sid w \<longleftrightarrow> sid \<in> set (dkeys w)"

section \<open>Episodic memory\<close>

record episode =
  ep_id :: string
  ep_task :: string
  ep_actor :: string
  ep_action :: string
  ep_payload :: "(string, pyval) dict"
  ep_result :: "(string, pyval) dict option"
  ep_created :: string

definition ep_record ::
    "mem_env \<Rightarrow> string \<Rightarrow> string \<Rightarrow> string \<Rightarrow> (string, pyval) dict \<Rightarrow> (string, pyval) dict option \<Rightarrow> episode list
     \<Rightarrow> episode \<times> episode list" where
  "ep_record env task who action payload result es =
     (let e = \<lparr>ep_id = me_id env, ep_task = task, ep_actor = who, ep_action = action, ep_payload = payload,
               ep_result = result, ep_created = me_now env\<rparr>
      in (e, es @ [e]))"

definition ep_get :: "string \<Rightarrow> episode list \<Rightarrow> string + episode" where
  "ep_get i es = (case find (\<lambda>e. ep_id e = i) es of None \<Rightarrow> Inl (''No episode with id='' @ i) | Some e \<Rightarrow> Inr e)"

definition ep_for_task :: "string \<Rightarrow> episode list \<Rightarrow> episode list" where
  "ep_for_task task es = sort_key ep_created (filter (\<lambda>e. ep_task e = task) es)"

definition newest_first :: "episode list \<Rightarrow> episode list" where
  "newest_first es = rev (sort_key ep_created es)"

definition ep_recent :: "nat \<Rightarrow> episode list \<Rightarrow> episode list" where
  "ep_recent limit es = take limit (newest_first es)"

definition ep_for_action :: "string \<Rightarrow> nat \<Rightarrow> episode list \<Rightarrow> episode list" where
  "ep_for_action action limit es = take limit (newest_first (filter (\<lambda>e. ep_action e = action) es))"

section \<open>Semantic memory\<close>

record entity =
  se_id :: string
  se_name :: string
  se_type :: string
  se_created :: string

record fact =
  sf_id :: string
  sf_subject :: string
  sf_pred :: string
  sf_object :: string
  sf_conf :: real
  sf_created :: string
  sf_updated :: string

record semantic =
  sm_entities :: "entity list"
  sm_facts :: "fact list"

definition find_entity :: "string \<Rightarrow> string \<Rightarrow> semantic \<Rightarrow> entity option" where
  "find_entity n ty m = find (\<lambda>e. se_name e = n \<and> se_type e = ty) (sm_entities m)"

definition get_entity :: "string \<Rightarrow> semantic \<Rightarrow> string + entity" where
  "get_entity i m =
     (case find (\<lambda>e. se_id e = i) (sm_entities m) of
        None \<Rightarrow> Inl (''No entity with id='' @ i) | Some e \<Rightarrow> Inr e)"

definition add_entity :: "mem_env \<Rightarrow> string \<Rightarrow> string \<Rightarrow> semantic \<Rightarrow> entity \<times> semantic" where
  "add_entity env n ty m =
     (case find_entity n ty m of
        Some e \<Rightarrow> (e, m)
      | None \<Rightarrow>
          (let e = \<lparr>se_id = me_id env, se_name = n, se_type = ty, se_created = me_now env\<rparr>
           in (e, m\<lparr>sm_entities := sm_entities m @ [e]\<rparr>)))"

definition is_fact :: "string \<Rightarrow> string \<Rightarrow> string \<Rightarrow> fact \<Rightarrow> bool" where
  "is_fact s p ob f \<longleftrightarrow> sf_subject f = s \<and> sf_pred f = p \<and> sf_object f = ob"

definition add_fact ::
    "mem_env \<Rightarrow> string \<Rightarrow> string \<Rightarrow> string \<Rightarrow> real \<Rightarrow> semantic \<Rightarrow> (string + fact) \<times> semantic" where
  "add_fact env s p ob conf m =
     (case get_entity s m of
        Inl e \<Rightarrow> (Inl e, m)
      | Inr _ \<Rightarrow>
          (case get_entity ob m of
             Inl e \<Rightarrow> (Inl e, m)
           | Inr _ \<Rightarrow>
               (case find (is_fact s p ob) (sm_facts m) of
                  Some f \<Rightarrow>
                    (Inr (f\<lparr>sf_conf := conf, sf_updated := me_now env\<rparr>),
                     m\<lparr>sm_facts := map (\<lambda>g. if sf_id g = sf_id f then g\<lparr>sf_conf := conf, sf_updated := me_now env\<rparr> else g)
                                     (sm_facts m)\<rparr>)
                | None \<Rightarrow>
                    (let f = \<lparr>sf_id = me_id env, sf_subject = s, sf_pred = p, sf_object = ob, sf_conf = conf,
                              sf_created = me_now env, sf_updated = me_now env\<rparr>
                     in (Inr f, m\<lparr>sm_facts := sm_facts m @ [f]\<rparr>)))))"

definition remove_fact :: "string \<Rightarrow> string \<Rightarrow> string \<Rightarrow> semantic \<Rightarrow> bool \<times> semantic" where
  "remove_fact s p ob m =
     ((\<exists>f\<in>set (sm_facts m). is_fact s p ob f), m\<lparr>sm_facts := filter (\<lambda>f. \<not> is_fact s p ob f) (sm_facts m)\<rparr>)"

definition facts_about :: "string \<Rightarrow> semantic \<Rightarrow> fact list" where
  "facts_about i m = rev (sort_key sf_updated (filter (\<lambda>f. sf_subject f = i \<or> sf_object f = i) (sm_facts m)))"

definition matches :: "string option \<Rightarrow> string \<Rightarrow> bool" where
  "matches w x \<longleftrightarrow> (case w of None \<Rightarrow> True | Some y \<Rightarrow> x = y)"

definition query_facts :: "string option \<Rightarrow> string option \<Rightarrow> string option \<Rightarrow> semantic \<Rightarrow> fact list" where
  "query_facts s p ob m =
     filter (\<lambda>f. matches s (sf_subject f) \<and> matches p (sf_pred f) \<and> matches ob (sf_object f)) (sm_facts m)"

section \<open>The audited facade\<close>

record mem_layer =
  ml_working :: working
  ml_episodes :: "episode list"
  ml_semantic :: semantic
  ml_audit :: "audit_entry list"
  ml_actor :: actor

definition log_action :: "mem_env \<Rightarrow> actor \<Rightarrow> string \<Rightarrow> (string \<times> pyval) list \<Rightarrow> mem_layer \<Rightarrow> mem_layer" where
  "log_action env a action payload l =
     l\<lparr>ml_audit := audit_append (me_sha env) (me_sign env) a action payload (me_now env) (ml_audit l)\<rparr>"

definition ml_open :: "mem_env \<Rightarrow> string option \<Rightarrow> mem_layer \<Rightarrow> string \<times> mem_layer" where
  "ml_open env sid l = (let (i, w) = wm_open env sid (ml_working l) in (i, l\<lparr>ml_working := w\<rparr>))"

definition ml_set :: "string \<Rightarrow> string \<Rightarrow> pyval \<Rightarrow> mem_layer \<Rightarrow> (string + unit) \<times> mem_layer" where
  "ml_set sid k v l = (let (r, w) = wm_set sid k v (ml_working l) in (r, l\<lparr>ml_working := w\<rparr>))"

definition ml_close :: "string \<Rightarrow> mem_layer \<Rightarrow> mem_layer" where
  "ml_close sid l = l\<lparr>ml_working := wm_close sid (ml_working l)\<rparr>"

definition ml_record_episode ::
    "mem_env \<Rightarrow> string \<Rightarrow> string \<Rightarrow> (string, pyval) dict \<Rightarrow> (string, pyval) dict option \<Rightarrow> mem_layer
     \<Rightarrow> episode \<times> mem_layer" where
  "ml_record_episode env task action payload result l =
     (let (e, es) = ep_record env task (ac_id (ml_actor l)) action payload result (ml_episodes l)
      in (e, log_action env (ml_actor l) ''memory.episodic.record''
               [(''episode_id'', PStr (ep_id e)), (''task_id'', PStr task), (''action'', PStr action)]
               (l\<lparr>ml_episodes := es\<rparr>)))"

definition ml_add_entity :: "mem_env \<Rightarrow> string \<Rightarrow> string \<Rightarrow> mem_layer \<Rightarrow> entity \<times> mem_layer" where
  "ml_add_entity env n ty l =
     (let (e, m) = add_entity env n ty (ml_semantic l)
      in (e, log_action env (ml_actor l) ''memory.semantic.add_entity''
               [(''entity_id'', PStr (se_id e)), (''name'', PStr n), (''entity_type'', PStr ty)] (l\<lparr>ml_semantic := m\<rparr>)))"

definition ml_add_fact ::
    "mem_env \<Rightarrow> string \<Rightarrow> string \<Rightarrow> string \<Rightarrow> real \<Rightarrow> mem_layer \<Rightarrow> (string + fact) \<times> mem_layer" where
  "ml_add_fact env s p ob conf l =
     (case add_fact env s p ob conf (ml_semantic l) of
        (Inl e, m) \<Rightarrow> (Inl e, l\<lparr>ml_semantic := m\<rparr>)
      | (Inr f, m) \<Rightarrow>
          (Inr f, log_action env (ml_actor l) ''memory.semantic.add_fact''
             [(''fact_id'', PStr (sf_id f)), (''subject_id'', PStr s), (''predicate'', PStr p), (''object_id'', PStr ob)]
             (l\<lparr>ml_semantic := m\<rparr>)))"

definition ml_remove_fact :: "mem_env \<Rightarrow> string \<Rightarrow> string \<Rightarrow> string \<Rightarrow> mem_layer \<Rightarrow> bool \<times> mem_layer" where
  "ml_remove_fact env s p ob l =
     (let (gone, m) = remove_fact s p ob (ml_semantic l); l1 = l\<lparr>ml_semantic := m\<rparr>
      in (gone, if gone then log_action env (ml_actor l) ''memory.semantic.remove_fact''
                    [(''subject_id'', PStr s), (''predicate'', PStr p), (''object_id'', PStr ob)] l1
                else l1))"

end
