(* ===== verification/Learning.thy ===== *)
theory Learning
  imports Capability Memory
begin

text \<open>
  The cognitive engine: goals, plans and their selection
  (\<open>infrastructure/cognitive_core/cognitive/goal.py\<close>, \<open>plan.py\<close>), the learning layer
  (\<open>learning/self_review.py\<close>, \<open>knowledge_extraction.py\<close>, \<open>reliability_advisor.py\<close>,
  \<open>learning_layer.py\<close>) and one run of the cognitive cycle (\<open>engine.py\<close>).

  The executor is an argument: what executing a step on a payload gives, or the exception it
  raises. The memory layer, the learning layer and the engine write one audit log, the one of
  the memory layer. \<open>mind_env\<close> supplies the identifiers one call draws, numbered in the order
  in which it draws them.
\<close>

record mind_env =
  ve_sha :: "pyval \<Rightarrow> string"
  ve_sign :: "string \<Rightarrow> string \<Rightarrow> string"
  ve_now :: string
  ve_ids :: "nat \<Rightarrow> string"

definition draw :: "mind_env \<Rightarrow> nat \<Rightarrow> mem_env" where
  "draw v n = \<lparr>me_sha = ve_sha v, me_sign = ve_sign v, me_now = ve_now v, me_id = ve_ids v n\<rparr>"

section \<open>Self-review\<close>

record review_report =
  rr_capability :: string
  rr_total :: nat
  rr_successes :: nat
  rr_failures :: nat
  rr_rate :: "real option"
  rr_reasons :: "(string, nat) dict"

definition of_capability :: "string \<Rightarrow> episode \<Rightarrow> bool" where
  "of_capability c e \<longleftrightarrow> dget (ep_payload e) ''capability_id'' = Some (PStr c)"

text \<open>The engine stores the error of a result as a string or \<open>None\<close>.\<close>

definition failure_reason :: "episode \<Rightarrow> string" where
  "failure_reason e =
     (case ep_result e of
        None \<Rightarrow> ''unknown_error''
      | Some r \<Rightarrow> (case pget r ''error'' of PStr s \<Rightarrow> if s = [] then ''unknown_error'' else s | _ \<Rightarrow> ''unknown_error''))"

definition count_reason :: "string \<Rightarrow> (string, nat) dict \<Rightarrow> (string, nat) dict" where
  "count_reason s d = dset s (case dget d s of None \<Rightarrow> 1 | Some n \<Rightarrow> n + 1) d"

definition review_limit :: nat where
  "review_limit = 1000"

definition review_capability :: "string \<Rightarrow> mem_layer \<Rightarrow> review_report" where
  "review_capability c l =
     (let completed = filter (of_capability c) (ep_for_action ''goal.completed'' review_limit (ml_episodes l));
          failed = filter (of_capability c) (ep_for_action ''goal.failed_execution'' review_limit (ml_episodes l));
          total = length completed + length failed
      in \<lparr>rr_capability = c, rr_total = total, rr_successes = length completed, rr_failures = length failed,
          rr_rate = (if total > 0 then Some (real (length completed) / real total) else None),
          rr_reasons = fold (\<lambda>e. count_reason (failure_reason e)) failed []\<rparr>)"

section \<open>Knowledge extraction and advice\<close>

definition classify_reliability :: "review_report \<Rightarrow> string" where
  "classify_reliability r =
     (case rr_rate r of
        None \<Rightarrow> ''unproven''
      | Some rate \<Rightarrow>
          if rr_total r = 0 then ''unproven''
          else if rr_total r < 3 then ''moderate''
          else if rate \<ge> 8 / 10 then ''reliable''
          else if rate < 5 / 10 then ''unreliable''
          else ''moderate'')"

text \<open>\<open>extract_knowledge\<close> draws identifiers \<open>n\<close>, \<open>n + 1\<close> (entities) and \<open>n + 2\<close> (fact).\<close>

definition drop_stale :: "mem_env \<Rightarrow> string \<Rightarrow> string \<Rightarrow> fact list \<Rightarrow> mem_layer \<Rightarrow> mem_layer" where
  "drop_stale env cap label fs l =
     fold (\<lambda>f l. if sf_object f \<noteq> label then snd (ml_remove_fact env cap ''has_reliability'' (sf_object f) l) else l) fs l"

definition extract_knowledge :: "mind_env \<Rightarrow> nat \<Rightarrow> review_report \<Rightarrow> mem_layer \<Rightarrow> (string + fact option) \<times> mem_layer" where
  "extract_knowledge v n r l =
     (if rr_total r = 0 then (Inr None, l)
      else
        (let (cap, l1) = ml_add_entity (draw v n) (rr_capability r) ''capability'' l;
             (label, l2) = ml_add_entity (draw v (n + 1)) (classify_reliability r) ''reliability_label'' l1;
             existing = query_facts (Some (se_id cap)) (Some ''has_reliability'') None (ml_semantic l2);
             l3 = drop_stale (draw v n) (se_id cap) (se_id label) existing l2;
             (res, l4) = ml_add_fact (draw v (n + 2)) (se_id cap) ''has_reliability'' (se_id label)
                           (case rr_rate r of None \<Rightarrow> 0 | Some x \<Rightarrow> x) l3
         in (map_sum id Some res, l4)))"

definition label_adjustment :: "string \<Rightarrow> real" where
  "label_adjustment s =
     (if s = ''reliable'' then - 2 / 10 else if s = ''moderate'' then 5 / 10 else if s = ''unreliable'' then 3 else 0)"

definition score_adjustment :: "string \<Rightarrow> mem_layer \<Rightarrow> string + real" where
  "score_adjustment c l =
     (case find_entity c ''capability'' (ml_semantic l) of
        None \<Rightarrow> Inr 0
      | Some cap \<Rightarrow>
          (case query_facts (Some (se_id cap)) (Some ''has_reliability'') None (ml_semantic l) of
             [] \<Rightarrow> Inr 0
           | f # _ \<Rightarrow> map_sum id (\<lambda>e. label_adjustment (se_name e)) (get_entity (sf_object f) (ml_semantic l))))"

definition learn_from_capability ::
    "mind_env \<Rightarrow> nat \<Rightarrow> actor \<Rightarrow> string \<Rightarrow> mem_layer \<Rightarrow> (string + review_report) \<times> mem_layer" where
  "learn_from_capability v n a c l =
     (let r = review_capability c l in
      case extract_knowledge v n r l of
        (Inl e, l1) \<Rightarrow> (Inl e, l1)
      | (Inr _, l1) \<Rightarrow>
          (Inr r, log_action (draw v n) a ''learning.reviewed''
             [(''capability_id'', PStr c), (''total_runs'', PInt (int (rr_total r))),
              (''success_rate'', case rr_rate r of None \<Rightarrow> PNone | Some x \<Rightarrow> PFloat x),
              (''failure_reasons'', PDict (map (\<lambda>p. (fst p, PInt (int (snd p)))) (rr_reasons r)))] l1))"

section \<open>Goals and plans\<close>

record goal =
  gl_id :: string
  gl_description :: string
  gl_payload :: "(string, pyval) dict"
  gl_capability :: "string option"
  gl_tags :: "string list"

definition make_goal :: "goal \<Rightarrow> string + goal" where
  "make_goal g =
     (if py_strip (gl_description g) = [] then Inl ''Goal.description must be non-empty.''
      else if (gl_capability g = None \<or> gl_capability g = Some []) \<and> gl_tags g = []
      then Inl ''Goal must specify required_capability_name and/or required_tags so it can be matched against the Capability Registry.''
      else Inr g)"

definition risk_penalty :: "risk_level \<Rightarrow> real" where
  "risk_penalty r = (case r of Low \<Rightarrow> 0 | Medium \<Rightarrow> 1 | High \<Rightarrow> 5)"

record plan_step =
  pl_capability :: string
  pl_component :: string
  pl_name :: string
  pl_cost :: real
  pl_risk :: risk_level

record plan =
  pn_id :: string
  pn_steps :: "plan_step list"

definition step_of :: "descriptor \<Rightarrow> plan_step" where
  "step_of d = \<lparr>pl_capability = cd_id d, pl_component = cd_component d, pl_name = cd_name d, pl_cost = cd_cost d,
     pl_risk = cd_risk d\<rparr>"

definition total_estimated_cost :: "plan \<Rightarrow> real" where
  "total_estimated_cost p = sum_list (map pl_cost (pn_steps p))"

text \<open>\<open>None\<close> where \<open>max\<close> of no steps raises.\<close>

definition max_risk_level :: "plan \<Rightarrow> risk_level option" where
  "max_risk_level p =
     (case pn_steps p of [] \<Rightarrow> None | s # ss \<Rightarrow> Some (pl_risk (max_by (\<lambda>s. risk_penalty (pl_risk s)) s ss)))"

definition plan_score :: "plan \<Rightarrow> real" where
  "plan_score p = total_estimated_cost p + sum_list (map (\<lambda>s. risk_penalty (pl_risk s)) (pn_steps p))"

definition generate_plans :: "descriptor list \<Rightarrow> plan list" where
  "generate_plans ds = map (\<lambda>d. \<lparr>pn_id = ''plan:'' @ cd_id d, pn_steps = [step_of d]\<rparr>) ds"

definition effective_score :: "(plan \<Rightarrow> real) \<Rightarrow> plan \<Rightarrow> real" where
  "effective_score adjust p = plan_score p + adjust p"

text \<open>Plans are compared by score and then by identifier.\<close>

definition select_best_plan :: "(plan \<Rightarrow> real) \<Rightarrow> plan list \<Rightarrow> plan option" where
  "select_best_plan adjust ps =
     (case ps of [] \<Rightarrow> None | p # qs \<Rightarrow> Some (min_by (\<lambda>p. (effective_score adjust p, pn_id p)) p qs))"

section \<open>The engine\<close>

record mind =
  mi_memory :: mem_layer
  mi_registry :: registry
  mi_engine :: actor
  mi_learning :: "actor option"

record step_result =
  sr_success :: bool
  sr_output :: "(string, pyval) dict"
  sr_error :: "string option"

datatype engine_error = NoCapabilityFound string | Raised string

record cycle_result =
  cy_session :: string
  cy_plans :: "plan list"
  cy_chosen :: plan
  cy_result :: step_result
  cy_episode :: string

definition analyze :: "goal \<Rightarrow> registry \<Rightarrow> descriptor list option" where
  "analyze g r =
     map_option (filter (\<lambda>c. set (gl_tags g) \<subseteq> set (cd_tags c)))
       (case gl_capability g of
          None \<Rightarrow> list_capabilities None None r
        | Some n \<Rightarrow> if n = [] then list_capabilities None None r else find_by_name n r)"

text \<open>The learned adjustment of a plan; without a learning layer there is none.\<close>

definition plan_adjustment :: "mind \<Rightarrow> mem_layer \<Rightarrow> plan \<Rightarrow> string + real" where
  "plan_adjustment m l p =
     (case mi_learning m of
        None \<Rightarrow> Inr 0
      | Some _ \<Rightarrow> (case pn_steps p of [] \<Rightarrow> Inl ''IndexError'' | s # _ \<Rightarrow> score_adjustment (pl_capability s) l))"

fun first_error :: "(string + 'a) list \<Rightarrow> string option" where
  "first_error [] = None"
| "first_error (Inl e # xs) = Some e"
| "first_error (Inr _ # xs) = first_error xs"

definition choose_plan :: "mind \<Rightarrow> mem_layer \<Rightarrow> plan list \<Rightarrow> string + plan" where
  "choose_plan m l ps =
     (case first_error (map (plan_adjustment m l) ps) of
        Some e \<Rightarrow> Inl e
      | None \<Rightarrow>
          (case select_best_plan (\<lambda>p. case plan_adjustment m l p of Inl _ \<Rightarrow> 0 | Inr x \<Rightarrow> x) ps of
             None \<Rightarrow> Inl ''generate_plans() produced zero plans.''
           | Some p \<Rightarrow> Inr p))"

text \<open>The part of a run after the executor has returned: record, learn, audit, close the session.\<close>

definition record_outcome ::
    "mind_env \<Rightarrow> goal \<Rightarrow> plan \<Rightarrow> plan_step \<Rightarrow> step_result \<Rightarrow> mem_layer \<Rightarrow> episode \<times> mem_layer" where
  "record_outcome v g chosen st res l =
     ml_record_episode (draw v 2) (gl_id g)
       (if sr_success res then ''goal.completed'' else ''goal.failed_execution'')
       [(''plan_id'', PStr (pn_id chosen)), (''capability_id'', PStr (pl_capability st)),
        (''capability_name'', PStr (pl_name st)), (''input'', PDict (gl_payload g))]
       (Some [(''success'', PBool (sr_success res)), (''output'', PDict (sr_output res)),
              (''error'', case sr_error res of None \<Rightarrow> PNone | Some x \<Rightarrow> PStr x)]) l"

definition learn_outcome :: "mind_env \<Rightarrow> actor option \<Rightarrow> plan_step \<Rightarrow> mem_layer \<Rightarrow> (string + unit) \<times> mem_layer" where
  "learn_outcome v learning st l =
     (case learning of
        None \<Rightarrow> (Inr (), l)
      | Some a \<Rightarrow> (case learn_from_capability v 3 a (pl_capability st) l of (r, l1) \<Rightarrow> (map_sum id (\<lambda>_. ()) r, l1)))"

definition finish_run ::
    "mind_env \<Rightarrow> goal \<Rightarrow> string \<Rightarrow> plan list \<Rightarrow> plan \<Rightarrow> plan_step \<Rightarrow> step_result \<Rightarrow> mind \<Rightarrow> (engine_error + cycle_result) \<times> mind" where
  "finish_run v g sid plans chosen st res m =
     (case record_outcome v g chosen st res (mi_memory m) of
        (e, l1) \<Rightarrow>
          (case learn_outcome v (mi_learning m) st l1 of
             (Inl err, l2) \<Rightarrow> (Inl (Raised err), m\<lparr>mi_memory := l2\<rparr>)
           | (Inr _, l2) \<Rightarrow>
               (let l3 = log_action (draw v 0) (mi_engine m) ''cognitive.cycle_completed''
                      [(''goal_id'', PStr (gl_id g)), (''plan_id'', PStr (pn_id chosen)),
                       (''success'', PBool (sr_success res)), (''episode_id'', PStr (ep_id e))] l2
                in (Inr \<lparr>cy_session = sid, cy_plans = plans, cy_chosen = chosen, cy_result = res, cy_episode = ep_id e\<rparr>,
                    m\<lparr>mi_memory := ml_close sid l3\<rparr>))))"

text \<open>The part of a run that has candidates.\<close>

definition pursue_plan ::
    "mind_env \<Rightarrow> (plan_step \<Rightarrow> (string, pyval) dict \<Rightarrow> string + step_result) \<Rightarrow> goal \<Rightarrow> string \<Rightarrow> descriptor list \<Rightarrow> mind
     \<Rightarrow> (engine_error + cycle_result) \<times> mind" where
  "pursue_plan v execute g sid cs m =
     (let plans = generate_plans cs in
      case choose_plan m (mi_memory m) plans of
        Inl e \<Rightarrow> (Inl (Raised e), m)
      | Inr chosen \<Rightarrow>
          (case pn_steps chosen of
             [] \<Rightarrow> (Inl (Raised ''IndexError''), m)
           | st # _ \<Rightarrow>
               (let l1 = snd (ml_set sid ''chosen_plan_id'' (PStr (pn_id chosen)) (mi_memory m));
                    (_, l2) = ml_record_episode (draw v 1) (gl_id g) ''plan.selected''
                       [(''plan_id'', PStr (pn_id chosen)), (''capability_id'', PStr (pl_capability st)),
                        (''capability_name'', PStr (pl_name st)), (''score'', PFloat (plan_score chosen)),
                        (''candidate_count'', PInt (int (length plans)))] None l1;
                    m2 = m\<lparr>mi_memory := l2\<rparr>
                in case execute st (gl_payload g) of
                     Inl err \<Rightarrow> (Inl (Raised err), m2)
                   | Inr res \<Rightarrow> finish_run v g sid plans chosen st res m2)))"

definition run_goal ::
    "mind_env \<Rightarrow> (plan_step \<Rightarrow> (string, pyval) dict \<Rightarrow> string + step_result) \<Rightarrow> goal \<Rightarrow> mind
     \<Rightarrow> (engine_error + cycle_result) \<times> mind" where
  "run_goal v execute g m =
     (let (sid, l1) = ml_open (draw v 0) None (mi_memory m);
          l2 = snd (ml_set sid ''goal'' (PStr (gl_description g)) l1);
          m2 = m\<lparr>mi_memory := l2\<rparr>
      in case analyze g (mi_registry m) of
           None \<Rightarrow> (Inl (Raised ''KeyError''), m2)
         | Some [] \<Rightarrow>
             (let (_, l3) = ml_record_episode (draw v 1) (gl_id g) ''goal.failed_no_capability''
                    [(''description'', PStr (gl_description g)), (''required_tags'', PList (map PStr (gl_tags g)))] None l2
              in (Inl (NoCapabilityFound (gl_id g)), m\<lparr>mi_memory := ml_close sid l3\<rparr>))
         | Some cs \<Rightarrow> pursue_plan v execute g sid cs m2)"

end
