(* ===== verification/Memory_Props.thy ===== *)
theory Memory_Props
  imports Memory
begin

text \<open>
  Semantic memory as a graph. The tables have unique identifiers and keys and facts refer to
  entities that exist; seen through names, the tables are a set of nodes and a partial map from
  edges to confidences, and every operation acts on that graph as its name says.
\<close>

section \<open>Well-formed tables\<close>

definition ent_key :: "entity \<Rightarrow> string \<times> string" where
  "ent_key e = (se_name e, se_type e)"

definition fact_key :: "fact \<Rightarrow> string \<times> string \<times> string" where
  "fact_key f = (sf_subject f, sf_pred f, sf_object f)"

definition sem_ok :: "semantic \<Rightarrow> bool" where
  "sem_ok m \<longleftrightarrow> distinct (map se_id (sm_entities m)) \<and> distinct (map ent_key (sm_entities m)) \<and>
     distinct (map sf_id (sm_facts m)) \<and> distinct (map fact_key (sm_facts m)) \<and>
     (\<forall>f\<in>set (sm_facts m). sf_subject f \<in> se_id ` set (sm_entities m) \<and> sf_object f \<in> se_id ` set (sm_entities m))"

lemma find_entity_key: "find_entity n ty m = find (\<lambda>e. ent_key e = (n, ty)) (sm_entities m)"
  by (simp add: find_entity_def ent_key_def)

lemma is_fact_key: "is_fact s p ob = (\<lambda>f. fact_key f = (s, p, ob))"
  by (auto simp: is_fact_def fact_key_def fun_eq_iff)

lemma find_entity_iff:
  "sem_ok m \<Longrightarrow> find_entity n ty m = Some e \<longleftrightarrow> e \<in> set (sm_entities m) \<and> ent_key e = (n, ty)"
  unfolding find_entity_key by (rule find_key_iff) (simp add: sem_ok_def)

lemma find_fact_iff:
  "sem_ok m \<Longrightarrow> find (is_fact s p ob) (sm_facts m) = Some f \<longleftrightarrow> f \<in> set (sm_facts m) \<and> fact_key f = (s, p, ob)"
  unfolding is_fact_key by (rule find_key_iff) (simp add: sem_ok_def)

lemma get_entity_iff:
  "sem_ok m \<Longrightarrow> get_entity i m = Inr e \<longleftrightarrow> e \<in> set (sm_entities m) \<and> se_id e = i"
  using find_key_iff [of se_id "sm_entities m" i e]
  by (auto simp: get_entity_def sem_ok_def split: option.splits)

lemma get_entity_known: "sem_ok m \<Longrightarrow> i \<in> se_id ` set (sm_entities m) \<Longrightarrow> \<exists>e. get_entity i m = Inr e"
  using get_entity_iff by fastforce

section \<open>The graph\<close>

type_synonym node = "string \<times> string"
type_synonym graph = "node set \<times> (node \<times> string \<times> node \<Rightarrow> real option)"

fun edge :: "semantic \<Rightarrow> node \<times> string \<times> node \<Rightarrow> real option" where
  "edge m (a, p, b) =
     (case (find_entity (fst a) (snd a) m, find_entity (fst b) (snd b) m) of
        (Some x, Some y) \<Rightarrow> map_option sf_conf (find (is_fact (se_id x) p (se_id y)) (sm_facts m))
      | _ \<Rightarrow> None)"

definition graph_of :: "semantic \<Rightarrow> graph" where
  "graph_of m = (ent_key ` set (sm_entities m), edge m)"

datatype sem_op =
    AddEntity mem_env string string
  | AddFact mem_env string string string real
  | RemoveFact string string string

fun sem_step :: "semantic \<Rightarrow> sem_op \<Rightarrow> semantic" where
  "sem_step m (AddEntity env n ty) = snd (add_entity env n ty m)"
| "sem_step m (AddFact env s p ob c) = snd (add_fact env s p ob c m)"
| "sem_step m (RemoveFact s p ob) = snd (remove_fact s p ob m)"

text \<open>The identifiers drawn are fresh.\<close>

fun sem_fresh :: "semantic \<Rightarrow> sem_op \<Rightarrow> bool" where
  "sem_fresh m (AddEntity env n ty) \<longleftrightarrow> me_id env \<notin> se_id ` set (sm_entities m)"
| "sem_fresh m (AddFact env s p ob c) \<longleftrightarrow> me_id env \<notin> sf_id ` set (sm_facts m)"
| "sem_fresh m (RemoveFact s p ob) \<longleftrightarrow> True"

text \<open>The same operation on the graph; entities are named by the node behind the identifier.\<close>

definition node_of :: "semantic \<Rightarrow> string \<Rightarrow> node option" where
  "node_of m i = (case get_entity i m of Inl _ \<Rightarrow> None | Inr e \<Rightarrow> Some (ent_key e))"

fun graph_step :: "semantic \<Rightarrow> graph \<Rightarrow> sem_op \<Rightarrow> graph" where
  "graph_step m (N, E) (AddEntity env n ty) = (insert (n, ty) N, E)"
| "graph_step m (N, E) (AddFact env s p ob c) =
     (case (node_of m s, node_of m ob) of (Some a, Some b) \<Rightarrow> (N, E((a, p, b) := Some c)) | _ \<Rightarrow> (N, E))"
| "graph_step m (N, E) (RemoveFact s p ob) =
     (case (node_of m s, node_of m ob) of (Some a, Some b) \<Rightarrow> (N, E((a, p, b) := None)) | _ \<Rightarrow> (N, E))"

lemma node_ofD: "sem_ok m \<Longrightarrow> node_of m i = Some a \<longleftrightarrow> (\<exists>e\<in>set (sm_entities m). se_id e = i \<and> ent_key e = a)"
proof -
  assume "sem_ok m"
  have "node_of m i = Some a \<longleftrightarrow> (\<exists>e. get_entity i m = Inr e \<and> ent_key e = a)"
    by (auto simp: node_of_def split: sum.splits)
  then show ?thesis using get_entity_iff [OF \<open>sem_ok m\<close>] by auto
qed

text \<open>On well-formed tables an edge is looked up by the identifiers of its ends.\<close>

lemma edge_ids:
  assumes "sem_ok m" "x \<in> set (sm_entities m)" "y \<in> set (sm_entities m)"
  shows "edge m (ent_key x, p, ent_key y) = map_option sf_conf (find (is_fact (se_id x) p (se_id y)) (sm_facts m))"
proof -
  have "find_entity (fst (ent_key z)) (snd (ent_key z)) m = Some z" if "z \<in> set (sm_entities m)" for z
    using that find_entity_iff [OF assms(1)] by simp
  then show ?thesis using assms(2,3) by simp
qed

lemma edge_unknown:
  "a \<notin> ent_key ` set (sm_entities m) \<or> b \<notin> ent_key ` set (sm_entities m) \<Longrightarrow> edge m (a, p, b) = None"
  using find_key_None [of ent_key a "sm_entities m"] find_key_None [of ent_key b "sm_entities m"]
  by (cases a; cases b) (auto simp: find_entity_key split: option.splits)

text \<open>A change of the facts that touches only the fact from \<open>s\<close> to \<open>ob\<close> by \<open>p\<close>.\<close>

lemma edge_update:
  assumes ok: "sem_ok m" "sem_ok m'" and ents: "sm_entities m' = sm_entities m"
    and x: "x \<in> set (sm_entities m)" "y \<in> set (sm_entities m)"
    and here: "map_option sf_conf (find (is_fact (se_id x) p (se_id y)) (sm_facts m')) = c"
    and other: "\<And>s q ob. (s, q, ob) \<noteq> (se_id x, p, se_id y) \<Longrightarrow>
        map_option sf_conf (find (is_fact s q ob) (sm_facts m')) = map_option sf_conf (find (is_fact s q ob) (sm_facts m))"
  shows "edge m' = (edge m)((ent_key x, p, ent_key y) := c)"
proof (rule ext)
  fix k :: "node \<times> string \<times> node"
  obtain a q b where k: "k = (a, q, b)" by (cases k)
  have "edge m' (a, q, b) = ((edge m)((ent_key x, p, ent_key y) := c)) (a, q, b)"
  proof (cases "a \<in> ent_key ` set (sm_entities m) \<and> b \<in> ent_key ` set (sm_entities m)")
    case False
    then have "(a, q, b) \<noteq> (ent_key x, p, ent_key y)" using x by auto
    then show ?thesis using False edge_unknown [of a m b q] edge_unknown [of a m' b q] ents by auto
  next
    case True
    then obtain u v where uv: "u \<in> set (sm_entities m)" "v \<in> set (sm_entities m)" "a = ent_key u" "b = ent_key v" by blast
    have inj: "w = z" if "w \<in> set (sm_entities m)" "z \<in> set (sm_entities m)" "ent_key w = ent_key z \<or> se_id w = se_id z" for w z
      using ok(1) that by (auto simp: sem_ok_def distinct_map dest: inj_onD)
    have "edge m' (ent_key u, q, ent_key v) = ((edge m)((ent_key x, p, ent_key y) := c)) (ent_key u, q, ent_key v)"
    proof (cases "u = x \<and> q = p \<and> v = y")
      case True
      then show ?thesis using edge_ids [OF ok(2), of x y p] x ents here by simp
    next
      case False
      then have ids: "(se_id u, q, se_id v) \<noteq> (se_id x, p, se_id y)" and keys: "(ent_key u, q, ent_key v) \<noteq> (ent_key x, p, ent_key y)"
        using inj [OF uv(1) x(1)] inj [OF uv(2) x(2)] by auto
      have "edge m' (ent_key u, q, ent_key v) = edge m (ent_key u, q, ent_key v)"
        using edge_ids [OF ok(1) uv(1,2), of q] edge_ids [OF ok(2), of u v q] uv ents other [OF ids] by simp
      then show ?thesis using keys by auto
    qed
    then show ?thesis using uv by simp
  qed
  then show "edge m' k = ((edge m)((ent_key x, p, ent_key y) := c)) k" unfolding k .
qed

section \<open>Each operation\<close>

lemma add_entity_ok:
  assumes ok: "sem_ok m" and fresh: "me_id env \<notin> se_id ` set (sm_entities m)"
  shows "sem_ok (snd (add_entity env n ty m)) \<and> graph_of (snd (add_entity env n ty m)) = (insert (n, ty) (fst (graph_of m)), edge m)"
proof (cases "find_entity n ty m")
  case (Some e)
  then have "(n, ty) \<in> ent_key ` set (sm_entities m)" using find_entity_iff [OF ok] by force
  then show ?thesis using ok Some by (simp add: add_entity_def graph_of_def insert_absorb)
next
  case None
  define e where "e = \<lparr>se_id = me_id env, se_name = n, se_type = ty, se_created = me_now env\<rparr>"
  define m' where "m' = m\<lparr>sm_entities := sm_entities m @ [e]\<rparr>"
  have step: "snd (add_entity env n ty m) = m'" using None by (simp add: add_entity_def Let_def e_def m'_def)
  have new: "(n, ty) \<notin> ent_key ` set (sm_entities m)"
    using None unfolding find_entity_key by (simp add: find_key_None)
  have ok': "sem_ok m'" using ok fresh new by (auto simp: sem_ok_def m'_def e_def ent_key_def)
  have "edge m' (a, p, b) = edge m (a, p, b)" for a p b
  proof (cases "a \<in> ent_key ` set (sm_entities m) \<and> b \<in> ent_key ` set (sm_entities m)")
    case True
    then obtain x y where "x \<in> set (sm_entities m)" "y \<in> set (sm_entities m)" "a = ent_key x" "b = ent_key y" by blast
    then show ?thesis using edge_ids [OF ok, of x y p] edge_ids [OF ok', of x y p] by (simp add: m'_def)
  next
    case False
    have "edge m' (a, p, b) = None"
    proof (cases "a \<in> insert (n, ty) (ent_key ` set (sm_entities m)) \<and> b \<in> insert (n, ty) (ent_key ` set (sm_entities m))")
      case True
      then have "a \<in> ent_key ` set (sm_entities m')" "b \<in> ent_key ` set (sm_entities m')"
        by (simp_all add: m'_def e_def ent_key_def)
      then obtain x y where xy: "x \<in> set (sm_entities m')" "y \<in> set (sm_entities m')" "a = ent_key x" "b = ent_key y"
        by (elim imageE)
      have "x = e \<or> y = e" using False xy by (auto simp: m'_def)
      then have "se_id x = me_id env \<or> se_id y = me_id env" by (auto simp: e_def)
      moreover have "sf_subject f \<noteq> me_id env \<and> sf_object f \<noteq> me_id env" if "f \<in> set (sm_facts m)" for f
        using that ok fresh unfolding sem_ok_def by metis
      ultimately have "find (is_fact (se_id x) p (se_id y)) (sm_facts m) = None"
        by (auto simp: find_None_iff is_fact_def)
      then show ?thesis using edge_ids [OF ok' xy(1,2), of p] xy(3,4) by (simp add: m'_def)
    next
      case False
      then show ?thesis using edge_unknown [of a m' b p] by (auto simp: m'_def e_def ent_key_def)
    qed
    then show ?thesis using edge_unknown [of a m b p] False by auto
  qed
  then have "edge m' = edge m" by (intro ext) (metis prod.exhaust)
  then show ?thesis using ok' unfolding step by (auto simp: graph_of_def m'_def e_def ent_key_def)
qed

lemma add_fact_ok:
  assumes ok: "sem_ok m" and x: "x \<in> set (sm_entities m)" "y \<in> set (sm_entities m)"
    and fresh: "me_id env \<notin> sf_id ` set (sm_facts m)"
  shows "sem_ok (snd (add_fact env (se_id x) p (se_id y) c m)) \<and>
     sm_entities (snd (add_fact env (se_id x) p (se_id y) c m)) = sm_entities m \<and>
     edge (snd (add_fact env (se_id x) p (se_id y) c m)) = (edge m)((ent_key x, p, ent_key y) := Some c)"
proof -
  let ?m = "snd (add_fact env (se_id x) p (se_id y) c m)"
  have g: "get_entity (se_id x) m = Inr x" "get_entity (se_id y) m = Inr y"
    using get_entity_iff [OF ok] x by auto
  show ?thesis
  proof (cases "find (is_fact (se_id x) p (se_id y)) (sm_facts m)")
    case (Some f)
    then have f: "f \<in> set (sm_facts m)" "fact_key f = (se_id x, p, se_id y)" using find_fact_iff [OF ok] by auto
    define h where "h = (\<lambda>g :: fact. if sf_id g = sf_id f then g\<lparr>sf_conf := c, sf_updated := me_now env\<rparr> else g)"
    have m': "?m = m\<lparr>sm_facts := map h (sm_facts m)\<rparr>" using g Some by (simp add: add_fact_def h_def)
    have k [simp]: "fact_key (h g) = fact_key g" "sf_id (h g) = sf_id g" "sf_subject (h g) = sf_subject g"
      "sf_object (h g) = sf_object g" for g
      by (simp_all add: h_def fact_key_def)
    have ok': "sem_ok ?m" using ok unfolding m' by (simp add: sem_ok_def o_def)
    have same: "g = f" if "g \<in> set (sm_facts m)" "sf_id g = sf_id f" for g
      using ok that f(1) by (auto simp: sem_ok_def distinct_map dest: inj_onD)
    have fd: "find (is_fact s q ob) (sm_facts ?m) = map_option h (find (is_fact s q ob) (sm_facts m))" for s q ob
      unfolding m' by (simp add: find_map is_fact_key)
    have "edge ?m = (edge m)((ent_key x, p, ent_key y) := Some c)"
    proof (rule edge_update [OF ok ok' _ x])
      show "sm_entities ?m = sm_entities m" by (simp add: m')
      show "map_option sf_conf (find (is_fact (se_id x) p (se_id y)) (sm_facts ?m)) = Some c"
        unfolding fd Some by (simp add: h_def)
      show "map_option sf_conf (find (is_fact s q ob) (sm_facts ?m)) = map_option sf_conf (find (is_fact s q ob) (sm_facts m))"
        if ne: "(s, q, ob) \<noteq> (se_id x, p, se_id y)" for s q ob
      proof (cases "find (is_fact s q ob) (sm_facts m)")
        case (Some g)
        then have "g \<in> set (sm_facts m)" "fact_key g = (s, q, ob)" using find_fact_iff [OF ok] by auto
        then have "sf_id g \<noteq> sf_id f" by (metis f(2) ne same)
        then show ?thesis unfolding fd Some by (simp add: h_def)
      qed (simp add: fd)
    qed
    then show ?thesis using ok' by (simp add: m')
  next
    case None
    define f where "f = \<lparr>sf_id = me_id env, sf_subject = se_id x, sf_pred = p, sf_object = se_id y, sf_conf = c,
        sf_created = me_now env, sf_updated = me_now env\<rparr>"
    have m': "?m = m\<lparr>sm_facts := sm_facts m @ [f]\<rparr>" using g None by (simp add: add_fact_def Let_def f_def)
    have key: "fact_key f = (se_id x, p, se_id y)" by (simp add: f_def fact_key_def)
    have "(se_id x, p, se_id y) \<notin> fact_key ` set (sm_facts m)"
      using None unfolding is_fact_key by (simp add: find_key_None)
    then have ok': "sem_ok ?m" using ok x fresh key unfolding m' by (auto simp: sem_ok_def f_def)
    have "edge ?m = (edge m)((ent_key x, p, ent_key y) := Some c)"
      by (rule edge_update [OF ok ok' _ x])
        (use None key in \<open>auto simp: m' find_append is_fact_key f_def split: option.split\<close>)
    then show ?thesis using ok' by (simp add: m')
  qed
qed

lemma remove_fact_ok:
  assumes ok: "sem_ok m"
  shows "sem_ok (snd (remove_fact s p ob m))"
  using ok unfolding sem_ok_def remove_fact_def by (auto intro: distinct_map_filter)

lemma remove_fact_edge:
  assumes ok: "sem_ok m" and x: "x \<in> set (sm_entities m)" "y \<in> set (sm_entities m)"
  shows "edge (snd (remove_fact (se_id x) p (se_id y) m)) = (edge m)((ent_key x, p, ent_key y) := None)"
proof (rule edge_update [OF ok remove_fact_ok [OF ok] _ x])
  show "map_option sf_conf (find (is_fact s q o') (sm_facts (snd (remove_fact (se_id x) p (se_id y) m)))) =
      map_option sf_conf (find (is_fact s q o') (sm_facts m))"
    if ne: "(s, q, o') \<noteq> (se_id x, p, se_id y)" for s q o'
  proof -
    have "(\<lambda>f. \<not> is_fact (se_id x) p (se_id y) f \<and> is_fact s q o' f) = is_fact s q o'"
      using ne by (auto simp: is_fact_key fun_eq_iff)
    then show ?thesis by (simp add: remove_fact_def find_filter)
  qed
qed (simp_all add: remove_fact_def find_filter find_None_iff)

lemma graph_ofD: "graph_of m = (N, E) \<Longrightarrow> N = ent_key ` set (sm_entities m) \<and> E = edge m"
  by (simp add: graph_of_def)

lemma get_entity_unknown: "sem_ok m \<Longrightarrow> node_of m i = None \<Longrightarrow> \<exists>e. get_entity i m = Inl e"
  by (auto simp: node_of_def split: sum.splits)

lemma remove_unknown:
  assumes ok: "sem_ok m" and unknown: "node_of m s = None \<or> node_of m ob = None"
  shows "snd (remove_fact s p ob m) = m"
proof -
  have "\<not> is_fact s p ob f" if "f \<in> set (sm_facts m)" for f
  proof
    assume "is_fact s p ob f"
    then have "s \<in> se_id ` set (sm_entities m)" "ob \<in> se_id ` set (sm_entities m)"
      using that ok by (auto simp: sem_ok_def is_fact_def)
    then show False using unknown get_entity_known [OF ok] unfolding node_of_def by fastforce
  qed
  then have "filter (\<lambda>f. \<not> is_fact s p ob f) (sm_facts m) = sm_facts m" by (simp add: filter_id_conv)
  then show ?thesis by (simp add: remove_fact_def)
qed

lemma sem_step_refines:
  assumes ok: "sem_ok m" and fresh: "sem_fresh m x"
  shows "sem_ok (sem_step m x) \<and> graph_of (sem_step m x) = graph_step m (graph_of m) x"
proof (cases x)
  case (AddEntity env n ty)
  then show ?thesis using add_entity_ok [OF ok, of env n ty] fresh by (simp add: graph_of_def)
next
  case (AddFact env s p ob c)
  show ?thesis
  proof (cases "node_of m s = None \<or> node_of m ob = None")
    case True
    then obtain e where "get_entity s m = Inl e \<or> get_entity ob m = Inl e" using get_entity_unknown [OF ok] by metis
    then have "sem_step m x = m" using AddFact by (auto simp: add_fact_def split: sum.split)
    then show ?thesis using True ok AddFact by (auto simp: graph_of_def split: option.split)
  next
    case False
    then obtain a b where ab: "node_of m s = Some a" "node_of m ob = Some b" by auto
    then obtain u v where uv: "u \<in> set (sm_entities m)" "v \<in> set (sm_entities m)" "s = se_id u" "ob = se_id v"
        "a = ent_key u" "b = ent_key v"
      unfolding node_ofD [OF ok] by blast
    have "me_id env \<notin> sf_id ` set (sm_facts m)" using fresh AddFact by simp
    from add_fact_ok [OF ok uv(1,2) this, of p c] show ?thesis
      using AddFact uv ab by (simp add: graph_of_def)
  qed
next
  case (RemoveFact s p ob)
  show ?thesis
  proof (cases "node_of m s = None \<or> node_of m ob = None")
    case True
    then have "sem_step m x = m" using RemoveFact remove_unknown [OF ok] by simp
    then show ?thesis using True ok RemoveFact by (auto simp: graph_of_def split: option.split)
  next
    case False
    then obtain a b where ab: "node_of m s = Some a" "node_of m ob = Some b" by auto
    then obtain u v where uv: "u \<in> set (sm_entities m)" "v \<in> set (sm_entities m)" "s = se_id u" "ob = se_id v"
        "a = ent_key u" "b = ent_key v"
      unfolding node_ofD [OF ok] by blast
    have "sm_entities (snd (remove_fact s p ob m)) = sm_entities m" by (simp add: remove_fact_def)
    then show ?thesis
      using remove_fact_ok [OF ok] remove_fact_edge [OF ok uv(1,2)] RemoveFact uv ab by (simp add: graph_of_def)
  qed
qed

text \<open>Entities are never removed or changed, and identifiers and keys stay unique.\<close>

definition sem_le :: "semantic \<Rightarrow> semantic \<Rightarrow> bool" where
  "sem_le m m' \<longleftrightarrow> set (sm_entities m) \<subseteq> set (sm_entities m')"

lemma sem_step_le: "sem_le m (sem_step m x)"
  by (cases x) (auto simp: sem_le_def add_entity_def add_fact_def remove_fact_def Let_def split: option.split sum.split)

interpretation semantics: machine sem_step sem_fresh sem_ok sem_le
proof
  show "sem_ok (sem_step m x)" if "sem_ok m" "sem_fresh m x" for m x
    using sem_step_refines [OF that] by simp
qed (use sem_step_le in \<open>auto simp: sem_le_def\<close>)

definition empty_semantic :: semantic where
  "empty_semantic = \<lparr>sm_entities = [], sm_facts = []\<rparr>"

lemma empty_semantic_ok: "sem_ok empty_semantic"
  by (simp add: empty_semantic_def sem_ok_def)

section \<open>Properties\<close>

text \<open>
  C18: semantic memory refines a graph of named nodes with at most one edge per triple: after
  any operations, adding an entity adds its node, adding a fact between known entities sets
  the edge to its confidence and changes no other, removing a fact clears exactly its edge,
  and an operation on an unknown entity changes nothing.
\<close>

theorem semantic_refines_graph:
  assumes "legal sem_fresh sem_step empty_semantic (ops @ [x])"
  shows "graph_of (run sem_step empty_semantic (ops @ [x])) =
     graph_step (run sem_step empty_semantic ops) (graph_of (run sem_step empty_semantic ops)) x"
proof -
  have l: "legal sem_fresh sem_step empty_semantic ops" "sem_fresh (run sem_step empty_semantic ops) x"
    using assms by (simp_all add: legal_append)
  show ?thesis
    using sem_step_refines [OF semantics.run_inv [OF empty_semantic_ok l(1)] l(2)] by (simp add: run_append)
qed

definition demo_mem_env :: "string \<Rightarrow> mem_env" where
  "demo_mem_env i = \<lparr>me_sha = demo_sha, me_sign = (\<lambda>k h. k @ h), me_now = ''t'', me_id = i\<rparr>"

definition demo_sem_ops :: "sem_op list" where
  "demo_sem_ops = [AddEntity (demo_mem_env ''e1'') ''cap'' ''capability'',
     AddEntity (demo_mem_env ''e2'') ''reliable'' ''reliability_label'',
     AddFact (demo_mem_env ''f1'') ''e1'' ''has_reliability'' ''e2'' (1 / 2)]"

theorem semantic_refines_graph_witness:
  "edge (run sem_step empty_semantic (demo_sem_ops @ [AddFact (demo_mem_env ''f2'') ''e1'' ''has_reliability'' ''e2'' 1]))
     ((''cap'', ''capability''), ''has_reliability'', (''reliable'', ''reliability_label'')) = Some 1"
proof -
  let ?x = "AddFact (demo_mem_env ''f2'') ''e1'' ''has_reliability'' ''e2'' 1"
  let ?m = "run sem_step empty_semantic demo_sem_ops"
  have l: "legal sem_fresh sem_step empty_semantic (demo_sem_ops @ [?x])" by code_simp
  have n: "node_of ?m ''e1'' = Some (''cap'', ''capability'')" "node_of ?m ''e2'' = Some (''reliable'', ''reliability_label'')"
    by code_simp+
  obtain N E where g: "graph_of ?m = (N, E)" by (cases "graph_of ?m")
  have "graph_of (run sem_step empty_semantic (demo_sem_ops @ [?x])) = graph_step ?m (N, E) ?x"
    using semantic_refines_graph [OF l] unfolding g .
  then show ?thesis using n by (simp add: graph_of_def)
qed

text \<open>
  Every fact of semantic memory refers to entities that exist, no two entities have one
  name and type, and no two facts have one subject, predicate and object.
\<close>

theorem semantic_well_formed:
  assumes "legal sem_fresh sem_step empty_semantic ops"
  defines "m \<equiv> run sem_step empty_semantic ops"
  shows "(\<forall>f\<in>set (sm_facts m). (\<exists>e. get_entity (sf_subject f) m = Inr e) \<and> (\<exists>e. get_entity (sf_object f) m = Inr e)) \<and>
     distinct (map ent_key (sm_entities m)) \<and> distinct (map fact_key (sm_facts m))"
proof -
  have ok: "sem_ok m" unfolding m_def by (rule semantics.run_inv [OF empty_semantic_ok assms(1)])
  then show ?thesis using get_entity_known [OF ok] by (auto simp: sem_ok_def)
qed

theorem semantic_well_formed_witness:
  "distinct (map fact_key (sm_facts (run sem_step empty_semantic demo_sem_ops)))"
proof -
  have "legal sem_fresh sem_step empty_semantic demo_sem_ops" by code_simp
  from semantic_well_formed [OF this] show ?thesis by blast
qed

end
