(* ===== verification/Learning_Props.thy ===== *)
theory Learning_Props
  imports Learning Memory_Props Capability_Props
begin

text \<open>
  What the engine learns is what happened: semantic memory holds at most one reliability label
  for a capability, and after a completed cycle the score adjustment of the capability that ran
  is the one its reviewed history deserves, while those of the others are unchanged.
\<close>

named_theorems mem_simps \<open>what the facade leaves alone\<close>

lemma log_action_keeps [mem_simps]:
  "ml_semantic (log_action env a x p l) = ml_semantic l" "ml_episodes (log_action env a x p l) = ml_episodes l"
  "ml_working (log_action env a x p l) = ml_working l" "ml_actor (log_action env a x p l) = ml_actor l"
  by (simp_all add: log_action_def)

lemma ml_open_keeps [mem_simps]:
  "ml_semantic (snd (ml_open env s l)) = ml_semantic l" "ml_episodes (snd (ml_open env s l)) = ml_episodes l"
  by (simp_all add: ml_open_def Let_def split: prod.split)

lemma ml_set_keeps [mem_simps]:
  "ml_semantic (snd (ml_set s k x l)) = ml_semantic l" "ml_episodes (snd (ml_set s k x l)) = ml_episodes l"
  by (simp_all add: ml_set_def Let_def split: prod.split)

lemma ml_close_keeps [mem_simps]:
  "ml_semantic (ml_close s l) = ml_semantic l" "ml_episodes (ml_close s l) = ml_episodes l"
  by (simp_all add: ml_close_def)

lemma ml_record_keeps [mem_simps]:
  "ml_semantic (snd (ml_record_episode env t a p r l)) = ml_semantic l"
  by (simp add: ml_record_episode_def ep_record_def Let_def mem_simps)

lemma ml_add_entity_sem [mem_simps]:
  "ml_semantic (snd (ml_add_entity env n ty l)) = snd (add_entity env n ty (ml_semantic l))"
  "ml_episodes (snd (ml_add_entity env n ty l)) = ml_episodes l"
  "fst (ml_add_entity env n ty l) = fst (add_entity env n ty (ml_semantic l))"
  by (simp_all add: ml_add_entity_def Let_def mem_simps split: prod.split)

lemma ml_add_fact_sem [mem_simps]:
  "ml_semantic (snd (ml_add_fact env s p ob c l)) = snd (add_fact env s p ob c (ml_semantic l))"
  "ml_episodes (snd (ml_add_fact env s p ob c l)) = ml_episodes l"
  "fst (ml_add_fact env s p ob c l) = fst (add_fact env s p ob c (ml_semantic l))"
  by (simp_all add: ml_add_fact_def mem_simps split: prod.split sum.split)

lemma ml_remove_fact_sem [mem_simps]:
  "ml_semantic (snd (ml_remove_fact env s p ob l)) = snd (remove_fact s p ob (ml_semantic l))"
  "ml_episodes (snd (ml_remove_fact env s p ob l)) = ml_episodes l"
  by (simp_all add: ml_remove_fact_def Let_def mem_simps split: prod.split)

lemma ml_record_episodes:
  "ml_episodes (snd (ml_record_episode env t a p r l)) = ml_episodes l @ [fst (ml_record_episode env t a p r l)]"
  by (simp add: ml_record_episode_def ep_record_def Let_def mem_simps)

lemma ml_record_episode_fields:
  "ep_action (fst (ml_record_episode env t a p r l)) = a" "ep_payload (fst (ml_record_episode env t a p r l)) = p"
  by (simp_all add: ml_record_episode_def ep_record_def Let_def)

section \<open>Knowledge of reliability\<close>

definition knows :: "semantic \<Rightarrow> string \<Rightarrow> node \<Rightarrow> bool" where
  "knows m c b \<longleftrightarrow> edge m ((c, ''capability''), ''has_reliability'', b) \<noteq> None"

definition learn_inv :: "mem_layer \<Rightarrow> bool" where
  "learn_inv l \<longleftrightarrow> sem_ok (ml_semantic l) \<and>
     (\<forall>c a b. knows (ml_semantic l) c a \<and> knows (ml_semantic l) c b \<longrightarrow> a = b)"

text \<open>Facts of the table are edges of the graph.\<close>

lemma fact_edge:
  assumes "sem_ok m" "f \<in> set (sm_facts m)" "x \<in> set (sm_entities m)" "se_id x = sf_subject f" "sf_pred f = p"
  obtains y where "y \<in> set (sm_entities m)" "se_id y = sf_object f" "edge m (ent_key x, p, ent_key y) = Some (sf_conf f)"
proof -
  obtain y where y: "y \<in> set (sm_entities m)" "se_id y = sf_object f"
    using assms(1,2) unfolding sem_ok_def by (metis imageE)
  have "find (is_fact (se_id x) p (se_id y)) (sm_facts m) = Some f"
    using find_fact_iff [OF assms(1)] assms y by (simp add: fact_key_def)
  then show ?thesis using that y edge_ids [OF assms(1,3) y(1), of p] by simp
qed

declare edge.simps [simp del]

lemma score_known:
  assumes inv: "learn_inv l" and k: "knows (ml_semantic l) c b"
  shows "score_adjustment c l = Inr (label_adjustment (fst b))"
proof -
  let ?m = "ml_semantic l"
  have ok: "sem_ok ?m" using inv by (simp add: learn_inv_def)
  obtain x where x: "find_entity c ''capability'' ?m = Some x"
    using k by (auto simp: knows_def edge.simps split: option.splits)
  have xm: "x \<in> set (sm_entities ?m)" "ent_key x = (c, ''capability'')" using find_entity_iff [OF ok] x by auto
  define fs where "fs = query_facts (Some (se_id x)) (Some ''has_reliability'') None ?m"
  have ob: "\<exists>y\<in>set (sm_entities ?m). se_id y = sf_object f \<and> ent_key y = b" if "f \<in> set fs" for f
  proof -
    have f: "f \<in> set (sm_facts ?m)" "se_id x = sf_subject f" "sf_pred f = ''has_reliability''"
      using that by (auto simp: fs_def query_facts_def matches_def)
    obtain y where y: "y \<in> set (sm_entities ?m)" "se_id y = sf_object f" "knows ?m c (ent_key y)"
      by (rule fact_edge [OF ok f(1) xm(1) f(2,3)]) (simp add: knows_def xm(2))
    then show ?thesis using inv k unfolding learn_inv_def by blast
  qed
  have "fs \<noteq> []"
  proof -
    obtain y :: entity and f where "find (is_fact (se_id x) ''has_reliability'' (se_id y)) (sm_facts ?m) = Some f"
      using k x by (auto simp: knows_def edge.simps split: option.splits)
    then have "f \<in> set fs" using find_fact_iff [OF ok] by (auto simp: fs_def query_facts_def matches_def fact_key_def)
    then show ?thesis by auto
  qed
  then obtain f gs where fs: "fs = f # gs" by (cases fs) auto
  obtain y where y: "y \<in> set (sm_entities ?m)" "se_id y = sf_object f" "ent_key y = b" using ob [of f] fs by auto
  then have "get_entity (sf_object f) ?m = Inr y" using get_entity_iff [OF ok] by simp
  then show ?thesis using x y(3) fs by (auto simp: score_adjustment_def fs_def ent_key_def)
qed

lemma score_unknown:
  assumes inv: "learn_inv l" and k: "\<And>b. \<not> knows (ml_semantic l) c b"
  shows "score_adjustment c l = Inr 0"
proof (cases "find_entity c ''capability'' (ml_semantic l)")
  case (Some x)
  let ?m = "ml_semantic l"
  have ok: "sem_ok ?m" using inv by (simp add: learn_inv_def)
  have xm: "x \<in> set (sm_entities ?m)" "ent_key x = (c, ''capability'')" using find_entity_iff [OF ok] Some by auto
  have "False" if f: "f \<in> set (query_facts (Some (se_id x)) (Some ''has_reliability'') None ?m)" for f
  proof -
    have g: "f \<in> set (sm_facts ?m)" "se_id x = sf_subject f" "sf_pred f = ''has_reliability''"
      using f by (auto simp: query_facts_def matches_def)
    show False by (rule fact_edge [OF ok g(1) xm(1) g(2,3)]) (use k in \<open>simp add: knows_def xm(2)\<close>)
  qed
  then have "query_facts (Some (se_id x)) (Some ''has_reliability'') None ?m = []"
    by (metis list.set_intros(1) neq_Nil_conv)
  then show ?thesis using Some by (simp add: score_adjustment_def)
qed (simp add: score_adjustment_def)

lemma score_total: "learn_inv l \<Longrightarrow> \<exists>x. score_adjustment c l = Inr x"
  using score_known score_unknown by blast

text \<open>The adjustment depends on what is known only.\<close>

lemma score_same:
  assumes "learn_inv l" "learn_inv l'" "\<And>b. knows (ml_semantic l') c b = knows (ml_semantic l) c b"
  shows "score_adjustment c l' = score_adjustment c l"
proof (cases "\<exists>b. knows (ml_semantic l) c b")
  case True
  then show ?thesis using score_known [OF assms(1)] score_known [OF assms(2)] assms(3) by metis
next
  case False
  then show ?thesis using score_unknown [OF assms(1)] score_unknown [OF assms(2)] assms(3) by metis
qed

section \<open>Extraction\<close>

definition stale :: "string \<Rightarrow> string \<Rightarrow> fact \<Rightarrow> bool" where
  "stale cap label g \<longleftrightarrow> sf_subject g = cap \<and> sf_pred g = ''has_reliability'' \<and> sf_object g \<noteq> label"

lemma drop_stale_facts:
  "ml_semantic (drop_stale env cap label fs l) =
     (ml_semantic l)\<lparr>sm_facts := filter (\<lambda>g. \<not> (\<exists>f\<in>set fs. sf_object f \<noteq> label \<and> is_fact cap ''has_reliability'' (sf_object f) g))
        (sm_facts (ml_semantic l))\<rparr> \<and>
   ml_episodes (drop_stale env cap label fs l) = ml_episodes l"
proof (induction fs arbitrary: l)
  case (Cons f fs)
  define l1 where "l1 = (if sf_object f \<noteq> label then snd (ml_remove_fact env cap ''has_reliability'' (sf_object f) l) else l)"
  have "drop_stale env cap label (f # fs) l = drop_stale env cap label fs l1"
    by (simp add: drop_stale_def l1_def)
  moreover have "ml_episodes l1 = ml_episodes l" by (simp add: l1_def mem_simps)
  moreover have "ml_semantic l1 = (ml_semantic l)\<lparr>sm_facts := filter
      (\<lambda>g. \<not> (sf_object f \<noteq> label \<and> is_fact cap ''has_reliability'' (sf_object f) g)) (sm_facts (ml_semantic l))\<rparr>"
    by (simp add: l1_def mem_simps remove_fact_def)
  ultimately show ?case using Cons.IH [of l1] by (simp add: conj_commute cong: conj_cong)
qed (simp add: drop_stale_def)

lemma drop_stale_all:
  assumes "fs = query_facts (Some cap) (Some ''has_reliability'') None (ml_semantic l)"
  shows "ml_semantic (drop_stale env cap label fs l) =
     (ml_semantic l)\<lparr>sm_facts := filter (\<lambda>g. \<not> stale cap label g) (sm_facts (ml_semantic l))\<rparr>"
proof -
  have "(\<exists>f\<in>set fs. sf_object f \<noteq> label \<and> is_fact cap ''has_reliability'' (sf_object f) g) \<longleftrightarrow> stale cap label g"
    if "g \<in> set (sm_facts (ml_semantic l))" for g
    using that by (auto simp: assms query_facts_def matches_def stale_def is_fact_def)
  then have "filter (\<lambda>g. \<not> (\<exists>f\<in>set fs. sf_object f \<noteq> label \<and> is_fact cap ''has_reliability'' (sf_object f) g))
      (sm_facts (ml_semantic l)) = filter (\<lambda>g. \<not> stale cap label g) (sm_facts (ml_semantic l))"
    by (intro filter_cong) auto
  then show ?thesis using drop_stale_facts [of env cap label fs l] by simp
qed

text \<open>The identifiers a call draws are distinct and new to the tables.\<close>

definition fresh_ids :: "mind_env \<Rightarrow> semantic \<Rightarrow> bool" where
  "fresh_ids v m \<longleftrightarrow> inj (ve_ids v) \<and>
     (\<forall>n. ve_ids v n \<notin> se_id ` set (sm_entities m) \<and> ve_ids v n \<notin> sf_id ` set (sm_facts m))"

lemma me_id_draw [simp]: "me_id (draw v n) = ve_ids v n"
  by (simp add: draw_def)

lemma ml_entity_step:
  assumes ok: "sem_ok (ml_semantic l)" and fresh: "me_id env \<notin> se_id ` set (sm_entities (ml_semantic l))"
    and add: "ml_add_entity env n ty l = (e, l1)"
  shows "sem_ok (ml_semantic l1)" "edge (ml_semantic l1) = edge (ml_semantic l)"
    "e \<in> set (sm_entities (ml_semantic l1))" "ent_key e = (n, ty)"
    "se_id ` set (sm_entities (ml_semantic l1)) \<subseteq> insert (me_id env) (se_id ` set (sm_entities (ml_semantic l)))"
    "set (sm_entities (ml_semantic l)) \<subseteq> set (sm_entities (ml_semantic l1))"
    "sm_facts (ml_semantic l1) = sm_facts (ml_semantic l)" "ml_episodes l1 = ml_episodes l"
proof -
  have l1: "ml_semantic l1 = snd (add_entity env n ty (ml_semantic l))" "e = fst (add_entity env n ty (ml_semantic l))"
    and "ml_episodes l1 = ml_episodes l"
    using add ml_add_entity_sem [of env n ty l] by simp_all
  then show "ml_episodes l1 = ml_episodes l" by simp
  show "sem_ok (ml_semantic l1)" "edge (ml_semantic l1) = edge (ml_semantic l)"
    using add_entity_ok [OF ok fresh, of n ty] by (auto simp: l1(1) graph_of_def)
  show "e \<in> set (sm_entities (ml_semantic l1))" "ent_key e = (n, ty)"
    "se_id ` set (sm_entities (ml_semantic l1)) \<subseteq> insert (me_id env) (se_id ` set (sm_entities (ml_semantic l)))"
    "set (sm_entities (ml_semantic l)) \<subseteq> set (sm_entities (ml_semantic l1))"
    "sm_facts (ml_semantic l1) = sm_facts (ml_semantic l)"
    using find_entity_iff [OF ok, of n ty] unfolding l1
    by (auto simp: add_entity_def ent_key_def Let_def split: option.split)
qed

lemma edge_cong: "sm_entities m' = sm_entities m \<Longrightarrow> sm_facts m' = sm_facts m \<Longrightarrow> edge m' k = edge m k"
  by (cases k) (auto simp: edge.simps find_entity_def split: option.splits)

text \<open>Dropping the stale labels of one capability leaves every other edge.\<close>

lemma stale_edges:
  assumes ok: "sem_ok m" and x: "x \<in> set (sm_entities m)" "y \<in> set (sm_entities m)"
  defines "m' \<equiv> m\<lparr>sm_facts := filter (\<lambda>g. \<not> stale (se_id x) (se_id y) g) (sm_facts m)\<rparr>"
  shows "sem_ok m' \<and> sm_entities m' = sm_entities m \<and> set (sm_facts m') \<subseteq> set (sm_facts m) \<and>
     (\<forall>a p b. edge m' (a, p, b) =
        (if a = ent_key x \<and> p = ''has_reliability'' \<and> b \<noteq> ent_key y then None else edge m (a, p, b)))"
proof -
  have ents: "sm_entities m' = sm_entities m" by (simp add: m'_def)
  have ok': "sem_ok m'" using ok unfolding sem_ok_def m'_def by (auto intro: distinct_map_filter)
  have "edge m' (a, p, b) =
      (if a = ent_key x \<and> p = ''has_reliability'' \<and> b \<noteq> ent_key y then None else edge m (a, p, b))" for a p b
  proof (cases "a \<in> ent_key ` set (sm_entities m) \<and> b \<in> ent_key ` set (sm_entities m)")
    case False
    then show ?thesis using edge_unknown [of a m' b p] edge_unknown [of a m b p] ents by auto
  next
    case True
    then obtain u w where uw: "u \<in> set (sm_entities m)" "w \<in> set (sm_entities m)" "a = ent_key u" "b = ent_key w" by blast
    have ids: "se_id u = se_id z \<longleftrightarrow> ent_key u = ent_key z" if "u \<in> set (sm_entities m)" "z \<in> set (sm_entities m)" for u z
      using ok that by (auto simp: sem_ok_def distinct_map dest: inj_onD)
    have st: "stale (se_id x) (se_id y) g \<longleftrightarrow> a = ent_key x \<and> p = ''has_reliability'' \<and> b \<noteq> ent_key y"
      if "is_fact (se_id u) p (se_id w) g" for g
      using that ids [OF uw(1) x(1)] ids [OF uw(2) x(2)] uw(3,4) by (auto simp: stale_def is_fact_def)
    then have "(\<lambda>f. \<not> stale (se_id x) (se_id y) f \<and> is_fact (se_id u) p (se_id w) f) =
        (\<lambda>f. \<not> (a = ent_key x \<and> p = ''has_reliability'' \<and> b \<noteq> ent_key y) \<and> is_fact (se_id u) p (se_id w) f)"
      by (intro ext) blast
    then have "find (is_fact (se_id u) p (se_id w)) (sm_facts m') =
        (if a = ent_key x \<and> p = ''has_reliability'' \<and> b \<noteq> ent_key y then None
         else find (is_fact (se_id u) p (se_id w)) (sm_facts m))"
      by (auto simp: m'_def find_filter find_None_iff)
    then show ?thesis using edge_ids [OF ok uw(1,2), of p] edge_ids [OF ok', of u w p] uw ents by auto
  qed
  then show ?thesis using ok' ents by (auto simp: m'_def)
qed

lemma extract_edges:
  assumes ok: "sem_ok (ml_semantic l)" and fresh: "fresh_ids v (ml_semantic l)" and total: "rr_total r > 0"
    and ex: "extract_knowledge v n r l = (res, l')"
  shows "sem_ok (ml_semantic l') \<and> (\<exists>f. res = Inr (Some f)) \<and> ml_episodes l' = ml_episodes l \<and>
     (\<forall>c b. knows (ml_semantic l') c b \<longleftrightarrow>
        (if c = rr_capability r then b = (classify_reliability r, ''reliability_label'') else knows (ml_semantic l) c b))"
proof -
  obtain cap l1 where a1: "ml_add_entity (draw v n) (rr_capability r) ''capability'' l = (cap, l1)"
    by (cases "ml_add_entity (draw v n) (rr_capability r) ''capability'' l")
  obtain label l2 where a2: "ml_add_entity (draw v (n + 1)) (classify_reliability r) ''reliability_label'' l1 = (label, l2)"
    by (cases "ml_add_entity (draw v (n + 1)) (classify_reliability r) ''reliability_label'' l1")
  define l3 where "l3 = drop_stale (draw v n) (se_id cap) (se_id label)
      (query_facts (Some (se_id cap)) (Some ''has_reliability'') None (ml_semantic l2)) l2"
  define rate where "rate = (case rr_rate r of None \<Rightarrow> 0 | Some x \<Rightarrow> x)"
  obtain out l4 where a4: "ml_add_fact (draw v (n + 2)) (se_id cap) ''has_reliability'' (se_id label) rate l3 = (out, l4)"
    by (cases "ml_add_fact (draw v (n + 2)) (se_id cap) ''has_reliability'' (se_id label) rate l3")
  have eq: "res = map_sum id Some out" "l' = l4"
    using ex total a1 a2 a4 by (auto simp: extract_knowledge_def Let_def l3_def rate_def)
  have inj: "inj (ve_ids v)" and f0: "ve_ids v k \<notin> se_id ` set (sm_entities (ml_semantic l))"
      "ve_ids v k \<notin> sf_id ` set (sm_facts (ml_semantic l))" for k
    using fresh by (auto simp: fresh_ids_def)
  have "me_id (draw v n) \<notin> se_id ` set (sm_entities (ml_semantic l))" using f0 by simp
  note s1 = ml_entity_step [OF ok this a1]
  have "ve_ids v (n + 1) \<noteq> ve_ids v n" using inj by (simp add: inj_eq)
  then have "me_id (draw v (n + 1)) \<notin> se_id ` set (sm_entities (ml_semantic l1))" using s1(5) f0(1) [of "n + 1"] by auto
  note s2 = ml_entity_step [OF s1(1) this a2]
  have cap: "cap \<in> set (sm_entities (ml_semantic l2))" using s1(3) s2(6) by blast
  have l3: "ml_semantic l3 = (ml_semantic l2)\<lparr>sm_facts :=
      filter (\<lambda>g. \<not> stale (se_id cap) (se_id label) g) (sm_facts (ml_semantic l2))\<rparr>" "ml_episodes l3 = ml_episodes l"
    using drop_stale_all [OF refl] drop_stale_facts s1(8) s2(8) by (simp_all add: l3_def)
  note s3 = stale_edges [OF s2(1) cap s2(3), folded l3(1)]
  have "me_id (draw v (n + 2)) \<notin> sf_id ` set (sm_facts (ml_semantic l3))"
    using s3 s1(7) s2(7) f0(2) [of "n + 2"] by auto
  note s4 = add_fact_ok [OF _ _ _ this]
  have m4: "ml_semantic l4 = snd (add_fact (draw v (n + 2)) (se_id cap) ''has_reliability'' (se_id label) rate (ml_semantic l3))"
      "ml_episodes l4 = ml_episodes l3"
      "out = fst (add_fact (draw v (n + 2)) (se_id cap) ''has_reliability'' (se_id label) rate (ml_semantic l3))"
    using a4 ml_add_fact_sem [of "draw v (n + 2)" "se_id cap" "''has_reliability''" "se_id label" rate l3] by simp_all
  have in3: "cap \<in> set (sm_entities (ml_semantic l3))" "label \<in> set (sm_entities (ml_semantic l3))"
    using cap s2(3) s3 by auto
  have ok3: "sem_ok (ml_semantic l3)" using s3 by blast
  have g: "get_entity (se_id cap) (ml_semantic l3) = Inr cap" "get_entity (se_id label) (ml_semantic l3) = Inr label"
    using get_entity_iff [OF ok3] in3 by auto
  have "\<exists>f. out = Inr f"
    unfolding m4(3) by (auto simp: add_fact_def g Let_def split: option.split)
  moreover have "sem_ok (ml_semantic l4)" using s4 [OF ok3 in3, of "''has_reliability''" rate] m4 by simp
  moreover have "edge (ml_semantic l4) = (edge (ml_semantic l3))((ent_key cap, ''has_reliability'', ent_key label) := Some rate)"
    using s4 [OF ok3 in3, of "''has_reliability''" rate] m4 by simp
  moreover have "edge (ml_semantic l3) ((c, ''capability''), ''has_reliability'', b) =
      (if c = rr_capability r \<and> b \<noteq> ent_key label then None else edge (ml_semantic l) ((c, ''capability''), ''has_reliability'', b))"
    for c b
  proof -
    have "edge (ml_semantic l3) (a, p, b) = (if a = ent_key cap \<and> p = ''has_reliability'' \<and> b \<noteq> ent_key label then None
        else edge (ml_semantic l2) (a, p, b))" for a p b using s3 by blast
    then show ?thesis by (simp add: s1(2,4) s2(2))
  qed
  ultimately show ?thesis using eq s1(4) s2(4) l3(2) m4(2) by (auto simp: knows_def)
qed

lemma extract_nothing: "rr_total r = 0 \<Longrightarrow> extract_knowledge v n r l = (Inr None, l)"
  by (simp add: extract_knowledge_def)

lemma learn_steps:
  assumes inv: "learn_inv l" and fresh: "fresh_ids v (ml_semantic l)"
    and learn: "learn_from_capability v n a c l = (res, l')"
  shows "learn_inv l' \<and> res = Inr (review_capability c l) \<and> ml_episodes l' = ml_episodes l \<and>
     (\<forall>d b. knows (ml_semantic l') d b \<longleftrightarrow>
        (if d = c \<and> rr_total (review_capability c l) > 0
         then b = (classify_reliability (review_capability c l), ''reliability_label'') else knows (ml_semantic l) d b))"
proof -
  let ?r = "review_capability c l"
  have ok: "sem_ok (ml_semantic l)" using inv by (simp add: learn_inv_def)
  have rc: "rr_capability ?r = c" by (simp add: review_capability_def Let_def)
  obtain out l1 where ex: "extract_knowledge v n ?r l = (out, l1)" by (cases "extract_knowledge v n ?r l")
  have "sem_ok (ml_semantic l1) \<and> (\<exists>f. out = Inr f) \<and> ml_episodes l1 = ml_episodes l \<and>
     (\<forall>d b. knows (ml_semantic l1) d b \<longleftrightarrow>
        (if d = c \<and> rr_total ?r > 0 then b = (classify_reliability ?r, ''reliability_label'') else knows (ml_semantic l) d b))"
  proof (cases "rr_total ?r > 0")
    case True
    then show ?thesis using extract_edges [OF ok fresh True ex] rc by auto
  next
    case False
    then have "out = Inr None" "l1 = l" using ex extract_nothing [of ?r v n l] by simp_all
    then show ?thesis using ok False by simp
  qed
  moreover from this have "res = Inr ?r \<and> ml_semantic l' = ml_semantic l1 \<and> ml_episodes l' = ml_episodes l1"
    using learn ex by (auto simp: learn_from_capability_def Let_def mem_simps)
  ultimately show ?thesis using inv unfolding learn_inv_def by auto
qed

section \<open>The engine\<close>

text \<open>A memory layer that differs in its audit log, sessions and episodes only.\<close>

lemma review_episodes: "ml_episodes l' = ml_episodes l \<Longrightarrow> review_capability c l' = review_capability c l"
  by (simp add: review_capability_def)

lemma finish_run_spec:
  assumes inv: "learn_inv (mi_memory m)" and fresh: "fresh_ids v (ml_semantic (mi_memory m))"
    and fin: "finish_run v g sid plans chosen st res m = (out, m')"
  shows "learn_inv (mi_memory m') \<and> mi_learning m' = mi_learning m \<and> mi_registry m' = mi_registry m \<and>
     ml_episodes (mi_memory m') = ml_episodes (mi_memory m) @ [fst (record_outcome v g chosen st res (mi_memory m))] \<and>
     (\<exists>cy. out = Inr cy \<and> cy_chosen cy = chosen \<and> cy_session cy = sid \<and> cy_plans cy = plans \<and> cy_result cy = res) \<and>
     (mi_learning m \<noteq> None \<longrightarrow>
        (\<forall>d b. knows (ml_semantic (mi_memory m')) d b \<longleftrightarrow>
           (if d = pl_capability st \<and> rr_total (review_capability d (mi_memory m')) > 0
            then b = (classify_reliability (review_capability d (mi_memory m')), ''reliability_label'')
            else knows (ml_semantic (mi_memory m)) d b)))"
proof -
  obtain e l1 where rec: "record_outcome v g chosen st res (mi_memory m) = (e, l1)"
    by (cases "record_outcome v g chosen st res (mi_memory m)")
  obtain r l2 where lr: "learn_outcome v (mi_learning m) st l1 = (r, l2)" by (cases "learn_outcome v (mi_learning m) st l1")
  have "ml_semantic (snd (record_outcome v g chosen st res (mi_memory m))) = ml_semantic (mi_memory m)"
    unfolding record_outcome_def by (rule mem_simps)
  then have sem1: "ml_semantic l1 = ml_semantic (mi_memory m)" using rec by simp
  have inv1: "learn_inv l1" "fresh_ids v (ml_semantic l1)" using inv fresh sem1 by (simp_all add: learn_inv_def)
  have lr_ok: "r = Inr () \<and> learn_inv l2 \<and> ml_episodes l2 = ml_episodes l1 \<and>
      (mi_learning m \<noteq> None \<longrightarrow> (\<forall>d b. knows (ml_semantic l2) d b \<longleftrightarrow>
         (if d = pl_capability st \<and> rr_total (review_capability d l1) > 0
          then b = (classify_reliability (review_capability d l1), ''reliability_label'')
          else knows (ml_semantic l1) d b)))"
  proof (cases "mi_learning m")
    case (Some a)
    obtain rep l where l: "learn_from_capability v 3 a (pl_capability st) l1 = (rep, l)"
      by (cases "learn_from_capability v 3 a (pl_capability st) l1")
    then have "r = map_sum id (\<lambda>_. ()) rep" "l2 = l" using lr Some by (auto simp: learn_outcome_def)
    then show ?thesis using learn_steps [OF inv1 l] by auto
  qed (use lr inv1 in \<open>auto simp: learn_outcome_def\<close>)
  define l3 where "l3 = ml_close sid (log_action (draw v 0) (mi_engine m) ''cognitive.cycle_completed''
      [(''goal_id'', PStr (gl_id g)), (''plan_id'', PStr (pn_id chosen)), (''success'', PBool (sr_success res)),
       (''episode_id'', PStr (ep_id e))] l2)"
  have out: "out = Inr \<lparr>cy_session = sid, cy_plans = plans, cy_chosen = chosen, cy_result = res, cy_episode = ep_id e\<rparr>"
    and m': "m' = m\<lparr>mi_memory := l3\<rparr>"
    using fin lr_ok rec lr by (simp_all add: finish_run_def l3_def)
  have l3: "ml_semantic l3 = ml_semantic l2" "ml_episodes l3 = ml_episodes l2"
    by (simp_all add: l3_def mem_simps)
  have rev: "review_capability d l3 = review_capability d l1" for d
    using l3(2) lr_ok by (intro review_episodes) simp
  have "learn_inv l3" using lr_ok l3(1) by (simp add: learn_inv_def)
  moreover have "mi_learning m \<noteq> None \<longrightarrow> (\<forall>d b. knows (ml_semantic l3) d b \<longleftrightarrow>
      (if d = pl_capability st \<and> rr_total (review_capability d l3) > 0
       then b = (classify_reliability (review_capability d l3), ''reliability_label'')
       else knows (ml_semantic (mi_memory m)) d b))"
    using lr_ok unfolding l3(1) rev sem1 by blast
  moreover have "\<exists>cy. out = Inr cy \<and> cy_chosen cy = chosen \<and> cy_session cy = sid \<and> cy_plans cy = plans \<and> cy_result cy = res"
    by (simp add: out)
  moreover have "mi_memory m' = l3" "mi_learning m' = mi_learning m" "mi_registry m' = mi_registry m"
    by (simp_all add: m')
  moreover have "ml_episodes l3 = ml_episodes (mi_memory m) @ [fst (record_outcome v g chosen st res (mi_memory m))]"
    using lr_ok l3(2) ml_record_episodes rec unfolding record_outcome_def by (metis fst_conv snd_conv)
  ultimately show ?thesis by blast
qed

section \<open>Choosing\<close>

lemma first_error_None: "first_error xs = None \<longleftrightarrow> (\<forall>x\<in>set xs. \<exists>y. x = Inr y)"
  by (induction xs rule: first_error.induct) auto

lemma adjustment_total: "learn_inv l \<Longrightarrow> p \<in> set (generate_plans cs) \<Longrightarrow> \<exists>x. plan_adjustment m l p = Inr x"
  using score_total by (auto simp: plan_adjustment_def generate_plans_def split: option.split)

lemma choose_plan_best:
  assumes inv: "learn_inv l" and "cs \<noteq> []"
  obtains p where "choose_plan m l (generate_plans cs) = Inr p" "p \<in> set (generate_plans cs)"
    "\<And>q x y. q \<in> set (generate_plans cs) \<Longrightarrow> plan_adjustment m l p = Inr x \<Longrightarrow> plan_adjustment m l q = Inr y \<Longrightarrow>
       (plan_score p + x, pn_id p) \<le> (plan_score q + y, pn_id q)"
proof -
  obtain p0 ps where ps: "generate_plans cs = p0 # ps" using assms(2) by (cases cs) (auto simp: generate_plans_def)
  let ?adj = "\<lambda>p. case plan_adjustment m l p of Inl _ \<Rightarrow> 0 | Inr x \<Rightarrow> x"
  let ?f = "\<lambda>p. (effective_score ?adj p, pn_id p)"
  let ?p = "min_by ?f p0 ps"
  have "first_error (map (plan_adjustment m l) (generate_plans cs)) = None"
    unfolding first_error_None using adjustment_total [OF inv] by auto
  then have "choose_plan m l (generate_plans cs) = Inr ?p"
    by (simp add: choose_plan_def select_best_plan_def ps)
  moreover have "?p \<in> set (generate_plans cs)" using min_by_in [of ?f p0 ps] ps by simp
  moreover have "(plan_score ?p + x, pn_id ?p) \<le> (plan_score q + y, pn_id q)"
    if "q \<in> set (generate_plans cs)" "plan_adjustment m l ?p = Inr x" "plan_adjustment m l q = Inr y" for q x y
  proof -
    have "effective_score ?adj ?p = plan_score ?p + x" "effective_score ?adj q = plan_score q + y"
      using that(2,3) by (simp_all add: effective_score_def)
    moreover have "?f ?p \<le> ?f q" using min_by_le [of q p0 ps ?f] that(1) ps by simp
    ultimately show ?thesis by (simp only:)
  qed
  ultimately show ?thesis by (rule that)
qed

lemma pursue_cases:
  assumes inv: "learn_inv (mi_memory m)" and cs: "cs \<noteq> []" and pu: "pursue_plan v execute g sid cs m = (out, m')"
  obtains chosen st m2 e where "choose_plan m (mi_memory m) (generate_plans cs) = Inr chosen" "chosen \<in> set (generate_plans cs)"
    "ml_episodes (mi_memory m2) = ml_episodes (mi_memory m) @ [e]" "ep_action e = ''plan.selected''"
    "pn_steps chosen = [st]" "ml_semantic (mi_memory m2) = ml_semantic (mi_memory m)" "mi_learning m2 = mi_learning m"
    "mi_registry m2 = mi_registry m"
    "(case execute st (gl_payload g) of Inl err \<Rightarrow> (Inl (Raised err), m2)
      | Inr res \<Rightarrow> finish_run v g sid (generate_plans cs) chosen st res m2) = (out, m')"
proof -
  obtain p where p: "choose_plan m (mi_memory m) (generate_plans cs) = Inr p" "p \<in> set (generate_plans cs)"
    by (rule choose_plan_best [OF inv cs])
  then obtain st where st: "pn_steps p = [st]" by (auto simp: generate_plans_def)
  define l1 where "l1 = snd (ml_set sid ''chosen_plan_id'' (PStr (pn_id p)) (mi_memory m))"
  define l2 where "l2 = snd (ml_record_episode (draw v 1) (gl_id g) ''plan.selected''
      [(''plan_id'', PStr (pn_id p)), (''capability_id'', PStr (pl_capability st)),
       (''capability_name'', PStr (pl_name st)), (''score'', PFloat (plan_score p)),
       (''candidate_count'', PInt (int (length (generate_plans cs))))] None l1)"
  have "\<exists>e. ml_episodes l2 = ml_episodes (mi_memory m) @ [e] \<and> ep_action e = ''plan.selected''"
    unfolding l2_def ml_record_episodes by (simp add: l1_def mem_simps ml_record_episode_fields)
  moreover have "ml_semantic l2 = ml_semantic (mi_memory m)" by (simp add: l2_def l1_def mem_simps)
  moreover have "(case execute st (gl_payload g) of Inl err \<Rightarrow> (Inl (Raised err), m\<lparr>mi_memory := l2\<rparr>)
      | Inr res \<Rightarrow> finish_run v g sid (generate_plans cs) p st res (m\<lparr>mi_memory := l2\<rparr>)) = (out, m')"
    using pu p(1) st unfolding l1_def l2_def
    by (simp add: pursue_plan_def Let_def case_prod_unfold del: One_nat_def)
  ultimately show ?thesis using that [of p "m\<lparr>mi_memory := l2\<rparr>" _ st] p st by auto
qed

section \<open>A run of the engine\<close>

definition run_outcome :: "episode \<Rightarrow> bool" where
  "run_outcome e \<longleftrightarrow> ep_action e = ''goal.completed'' \<or> ep_action e = ''goal.failed_execution''"

text \<open>What a run leaves: the episodes it appends and the knowledge it changes.\<close>

definition executed :: "goal \<Rightarrow> (plan_step \<Rightarrow> (string, pyval) dict \<Rightarrow> string + step_result) \<Rightarrow> mind \<Rightarrow> mind \<Rightarrow> cycle_result
    \<Rightarrow> plan_step \<Rightarrow> bool" where
  "executed g execute m m' cy st \<longleftrightarrow> pn_steps (cy_chosen cy) = [st] \<and> execute st (gl_payload g) = Inr (cy_result cy) \<and>
     (\<exists>e0 e. ml_episodes (mi_memory m') = ml_episodes (mi_memory m) @ [e0, e] \<and> \<not> run_outcome e0 \<and> run_outcome e \<and>
        (\<forall>c. of_capability c e \<longleftrightarrow> c = pl_capability st)) \<and>
     (mi_learning m \<noteq> None \<longrightarrow>
        (\<forall>d b. knows (ml_semantic (mi_memory m')) d b \<longleftrightarrow>
           (if d = pl_capability st \<and> rr_total (review_capability d (mi_memory m')) > 0
            then b = (classify_reliability (review_capability d (mi_memory m')), ''reliability_label'')
            else knows (ml_semantic (mi_memory m)) d b)))"

definition idle :: "mind \<Rightarrow> mind \<Rightarrow> bool" where
  "idle m m' \<longleftrightarrow> ml_semantic (mi_memory m') = ml_semantic (mi_memory m) \<and>
     (\<exists>es. ml_episodes (mi_memory m') = ml_episodes (mi_memory m) @ es \<and> length es \<le> 1 \<and> (\<forall>e\<in>set es. \<not> run_outcome e))"

lemma pursue_spec:
  assumes inv: "learn_inv (mi_memory m)" and fresh: "fresh_ids v (ml_semantic (mi_memory m))"
    and cs: "cs \<noteq> []" and pu: "pursue_plan v execute g sid cs m = (out, m')"
  shows "learn_inv (mi_memory m') \<and> mi_learning m' = mi_learning m \<and> mi_registry m' = mi_registry m \<and>
     (case out of Inl _ \<Rightarrow> idle m m' \<and> (\<exists>st err. execute st (gl_payload g) = Inl err)
      | Inr cy \<Rightarrow> choose_plan m (mi_memory m) (generate_plans cs) = Inr (cy_chosen cy) \<and> cy_plans cy = generate_plans cs \<and>
          (\<exists>st. executed g execute m m' cy st))"
proof -
  obtain chosen st m2 e0 where p: "choose_plan m (mi_memory m) (generate_plans cs) = Inr chosen"
      "ml_episodes (mi_memory m2) = ml_episodes (mi_memory m) @ [e0]" "ep_action e0 = ''plan.selected''"
      "pn_steps chosen = [st]" "ml_semantic (mi_memory m2) = ml_semantic (mi_memory m)" "mi_learning m2 = mi_learning m"
      "mi_registry m2 = mi_registry m"
      "(case execute st (gl_payload g) of Inl err \<Rightarrow> (Inl (Raised err), m2)
        | Inr res \<Rightarrow> finish_run v g sid (generate_plans cs) chosen st res m2) = (out, m')"
    by (rule pursue_cases [OF inv cs pu])
  have e0: "\<not> run_outcome e0" using p(3) by (simp add: run_outcome_def)
  have inv2: "learn_inv (mi_memory m2)" "fresh_ids v (ml_semantic (mi_memory m2))"
    using inv fresh p(5) by (simp_all add: learn_inv_def)
  show ?thesis
  proof (cases "execute st (gl_payload g)")
    case (Inl err)
    then have "out = Inl (Raised err)" "m' = m2" using p(8) by auto
    then show ?thesis using inv2 p(2,5-7) e0 Inl by (auto simp: idle_def)
  next
    case (Inr res)
    then have fin: "finish_run v g sid (generate_plans cs) chosen st res m2 = (out, m')" using p(8) by simp
    note spec = finish_run_spec [OF inv2 fin]
    obtain cy where cy: "out = Inr cy" "cy_chosen cy = chosen" "cy_plans cy = generate_plans cs" "cy_result cy = res"
      using spec by blast
    define e where "e = fst (record_outcome v g chosen st res (mi_memory m2))"
    have e: "run_outcome e" "\<And>c. of_capability c e \<longleftrightarrow> c = pl_capability st"
      unfolding e_def record_outcome_def run_outcome_def of_capability_def ml_record_episode_fields
      by auto
    have "ml_episodes (mi_memory m') = ml_episodes (mi_memory m) @ [e0, e]" using spec p(2) by (simp add: e_def)
    then have "executed g execute m m' cy st"
      unfolding executed_def using spec e e0 cy p(4,5,6) Inr by auto
    then show ?thesis using spec cy p(1,6,7) by auto
  qed
qed

lemma run_goal_spec:
  assumes inv: "learn_inv (mi_memory m)" and fresh: "fresh_ids v (ml_semantic (mi_memory m))"
    and run: "run_goal v execute g m = (out, m')"
  shows "learn_inv (mi_memory m') \<and> mi_learning m' = mi_learning m \<and> mi_registry m' = mi_registry m \<and>
     (case out of
        Inl _ \<Rightarrow> idle m m' \<and> (analyze g (mi_registry m) = None \<or> analyze g (mi_registry m) = Some [] \<or>
          (\<exists>st err. execute st (gl_payload g) = Inl err))
      | Inr cy \<Rightarrow> (\<exists>cs st. analyze g (mi_registry m) = Some cs \<and> cs \<noteq> [] \<and> cy_plans cy = generate_plans cs \<and>
          choose_plan m (mi_memory m) (generate_plans cs) = Inr (cy_chosen cy) \<and> executed g execute m m' cy st))"
proof -
  obtain sid l1 where op: "ml_open (draw v 0) None (mi_memory m) = (sid, l1)" by (cases "ml_open (draw v 0) None (mi_memory m)")
  define l2 where "l2 = snd (ml_set sid ''goal'' (PStr (gl_description g)) l1)"
  have l1: "ml_semantic l1 = ml_semantic (mi_memory m)" "ml_episodes l1 = ml_episodes (mi_memory m)"
    using ml_open_keeps [of "draw v 0" None "mi_memory m"] op by simp_all
  have l2: "ml_semantic l2 = ml_semantic (mi_memory m)" "ml_episodes l2 = ml_episodes (mi_memory m)"
    by (simp_all add: l2_def mem_simps l1)
  define m2 where "m2 = m\<lparr>mi_memory := l2\<rparr>"
  have inv2: "learn_inv (mi_memory m2)" "fresh_ids v (ml_semantic (mi_memory m2))"
    using inv fresh l2 by (simp_all add: learn_inv_def m2_def)
  consider "analyze g (mi_registry m) = None" | "analyze g (mi_registry m) = Some []"
    | c cs where "analyze g (mi_registry m) = Some (c # cs)"
    by (metis neq_Nil_conv not_None_eq)
  then show ?thesis
  proof cases
    case 1
    then have "out = Inl (Raised ''KeyError'')" "m' = m2"
      using run op by (simp_all add: run_goal_def Let_def l2_def m2_def)
    then show ?thesis using inv2 l2 1 by (simp add: m2_def idle_def)
  next
    case 2
    define l3 where "l3 = ml_close sid (snd (ml_record_episode (draw v 1) (gl_id g) ''goal.failed_no_capability''
      [(''description'', PStr (gl_description g)), (''required_tags'', PList (map PStr (gl_tags g)))] None l2))"
    have "out = Inl (NoCapabilityFound (gl_id g))" "m' = m\<lparr>mi_memory := l3\<rparr>"
      using run op 2 unfolding l3_def l2_def
      by (simp_all add: run_goal_def Let_def case_prod_unfold del: One_nat_def)
    moreover have "ml_semantic l3 = ml_semantic (mi_memory m)"
      by (simp add: l3_def mem_simps l2)
    moreover have "\<exists>e. ml_episodes l3 = ml_episodes (mi_memory m) @ [e] \<and> \<not> run_outcome e"
      unfolding l3_def ml_close_keeps ml_record_episodes by (simp add: l2 ml_record_episode_fields run_outcome_def)
    ultimately show ?thesis using inv 2 by (auto simp: learn_inv_def idle_def)
  next
    case 3
    then have pu: "pursue_plan v execute g sid (c # cs) m2 = (out, m')"
      using run op by (simp add: run_goal_def Let_def l2_def m2_def)
    have "plan_adjustment m2 (mi_memory m2) = plan_adjustment m (mi_memory m)"
      by (rule ext) (auto simp: plan_adjustment_def score_adjustment_def m2_def l2 split: option.split list.split)
    then have same: "choose_plan m2 (mi_memory m2) ps = choose_plan m (mi_memory m) ps" for ps
      unfolding choose_plan_def by (simp only:)
    have ex: "executed g execute m2 m' cy st = executed g execute m m' cy st" for cy st
      by (simp add: executed_def m2_def l2)
    have id: "idle m2 m' = idle m m'" by (simp add: idle_def m2_def l2)
    show ?thesis using pursue_spec [OF inv2 _ pu] 3 same ex id
      by (cases out) (auto simp: m2_def)
  qed
qed

section \<open>Advice and record\<close>

text \<open>
  As long as the review sees every run_outcome, the advice about each capability is that of its
  whole record.
\<close>

definition outcomes :: "mem_layer \<Rightarrow> nat" where
  "outcomes l = length (filter run_outcome (ml_episodes l))"

definition advice_current :: "mem_layer \<Rightarrow> bool" where
  "advice_current l \<longleftrightarrow> (\<forall>c. score_adjustment c l = Inr (label_adjustment (classify_reliability (review_capability c l))))"

lemma review_sees_all:
  assumes "outcomes l \<le> review_limit" and a: "a = ''goal.completed'' \<or> a = ''goal.failed_execution''"
  shows "filter (of_capability c) (ep_for_action a review_limit (ml_episodes l)) =
     rev (sort_key ep_created (filter (\<lambda>e. ep_action e = a) (filter (\<lambda>e. run_outcome e \<and> of_capability c e) (ml_episodes l))))"
proof -
  let ?es = "ml_episodes l"
  have out: "run_outcome e" if "ep_action e = a" for e using that a by (auto simp: run_outcome_def)
  have f: "filter (\<lambda>e. ep_action e = a) ?es = filter (\<lambda>e. ep_action e = a) (filter run_outcome ?es)"
    using out by (auto intro: filter_cong)
  have "length (filter (\<lambda>e. ep_action e = a) ?es) \<le> review_limit"
    unfolding f using assms(1) length_filter_le [of "\<lambda>e. ep_action e = a" "filter run_outcome ?es"] by (simp add: outcomes_def)
  then have "ep_for_action a review_limit ?es = rev (sort_key ep_created (filter (\<lambda>e. ep_action e = a) ?es))"
    by (simp add: ep_for_action_def newest_first_def)
  moreover have "filter (of_capability c) (filter (\<lambda>e. ep_action e = a) ?es) =
      filter (\<lambda>e. ep_action e = a) (filter (\<lambda>e. run_outcome e \<and> of_capability c e) ?es)"
    using out by (auto intro: filter_cong)
  ultimately show ?thesis by (simp only: rev_filter [symmetric] filter_sort)
qed

lemma review_cong:
  assumes "outcomes l \<le> review_limit" "outcomes l' \<le> review_limit"
    and "filter (\<lambda>e. run_outcome e \<and> of_capability c e) (ml_episodes l') = filter (\<lambda>e. run_outcome e \<and> of_capability c e) (ml_episodes l)"
  shows "review_capability c l' = review_capability c l"
  unfolding review_capability_def review_sees_all [OF assms(1) disjI1 [OF refl]] review_sees_all [OF assms(1) disjI2 [OF refl]]
    review_sees_all [OF assms(2) disjI1 [OF refl]] review_sees_all [OF assms(2) disjI2 [OF refl]] assms(3) ..

lemma review_positive:
  assumes "outcomes l \<le> review_limit" "e \<in> set (ml_episodes l)" "run_outcome e" "of_capability c e"
  shows "rr_total (review_capability c l) > 0"
proof -
  let ?in = "\<lambda>a. e \<in> set (filter (of_capability c) (ep_for_action a review_limit (ml_episodes l)))"
  have "?in ''goal.completed'' \<or> ?in ''goal.failed_execution''"
    unfolding review_sees_all [OF assms(1) disjI1 [OF refl]] review_sees_all [OF assms(1) disjI2 [OF refl]]
    using assms(2-4) by (auto simp: run_outcome_def)
  then show ?thesis by (auto simp: review_capability_def Let_def simp del: set_filter dest: length_pos_if_in_set)
qed

lemma unreviewed: "rr_total (review_capability c l) = 0 \<Longrightarrow> label_adjustment (classify_reliability (review_capability c l)) = 0"
  by (auto simp: classify_reliability_def label_adjustment_def split: option.split)

lemma idle_advice:
  assumes "learn_inv (mi_memory m)" "learn_inv (mi_memory m')" "idle m m'" "advice_current (mi_memory m)"
    "outcomes (mi_memory m') \<le> review_limit"
  shows "advice_current (mi_memory m')"
proof -
  obtain es where es: "ml_episodes (mi_memory m') = ml_episodes (mi_memory m) @ es" "\<forall>e\<in>set es. \<not> run_outcome e"
    and sem: "ml_semantic (mi_memory m') = ml_semantic (mi_memory m)"
    using assms(3) by (auto simp: idle_def)
  have "outcomes (mi_memory m') = outcomes (mi_memory m)" using es by (simp add: outcomes_def)
  then have "review_capability c (mi_memory m') = review_capability c (mi_memory m)" for c
    using assms(5) es by (intro review_cong) auto
  moreover have "score_adjustment c (mi_memory m') = score_adjustment c (mi_memory m)" for c
    using assms(1,2) sem by (intro score_same) simp_all
  ultimately show ?thesis using assms(4) by (simp add: advice_current_def)
qed

lemma executed_advice:
  assumes inv: "learn_inv (mi_memory m)" "learn_inv (mi_memory m')" and ex: "executed g execute m m' cy st"
    and learning: "mi_learning m \<noteq> None" and cur: "advice_current (mi_memory m)"
    and few: "outcomes (mi_memory m') \<le> review_limit"
  shows "advice_current (mi_memory m')"
proof -
  let ?l = "mi_memory m" and ?l' = "mi_memory m'"
  obtain e0 e where e: "ml_episodes ?l' = ml_episodes ?l @ [e0, e]" "\<not> run_outcome e0" "run_outcome e"
      "\<And>c. of_capability c e \<longleftrightarrow> c = pl_capability st"
    using ex by (auto simp: executed_def)
  have k: "knows (ml_semantic ?l') d b \<longleftrightarrow>
      (if d = pl_capability st \<and> rr_total (review_capability d ?l') > 0
       then b = (classify_reliability (review_capability d ?l'), ''reliability_label'') else knows (ml_semantic ?l) d b)" for d b
    using ex learning unfolding executed_def by blast
  have "outcomes ?l \<le> review_limit" using few e(1) by (simp add: outcomes_def)
  show ?thesis unfolding advice_current_def
  proof
    fix c
    show "score_adjustment c ?l' = Inr (label_adjustment (classify_reliability (review_capability c ?l')))"
    proof (cases "c = pl_capability st")
      case True
      then have "rr_total (review_capability c ?l') > 0"
        using e(1,3,4) by (intro review_positive [OF few, of e]) auto
      then have "knows (ml_semantic ?l') c (classify_reliability (review_capability c ?l'), ''reliability_label'')"
        using k True by simp
      then show ?thesis using score_known [OF inv(2)] by fastforce
    next
      case False
      then have "review_capability c ?l' = review_capability c ?l"
        using e by (intro review_cong [OF \<open>outcomes ?l \<le> review_limit\<close> few]) simp
      moreover have "score_adjustment c ?l' = score_adjustment c ?l"
        using k False by (intro score_same [OF inv]) simp
      ultimately show ?thesis using cur by (simp add: advice_current_def)
    qed
  qed
qed

section \<open>Runs of the engine\<close>

type_synonym executor = "plan_step \<Rightarrow> (string, pyval) dict \<Rightarrow> string + step_result"

text \<open>Between the runs of the engine the registry may become any registry.\<close>

datatype mind_op = Pursue mind_env executor goal | Republish registry

fun mind_step :: "mind \<Rightarrow> mind_op \<Rightarrow> mind" where
  "mind_step m (Pursue v execute g) = snd (run_goal v execute g m)"
| "mind_step m (Republish r) = m\<lparr>mi_registry := r\<rparr>"

fun mind_ok :: "mind \<Rightarrow> mind_op \<Rightarrow> bool" where
  "mind_ok m (Pursue v execute g) \<longleftrightarrow> fresh_ids v (ml_semantic (mi_memory m))"
| "mind_ok m (Republish r) \<longleftrightarrow> True"

definition mind_inv :: "mind \<Rightarrow> bool" where
  "mind_inv m \<longleftrightarrow> learn_inv (mi_memory m) \<and> mi_learning m \<noteq> None \<and>
     (outcomes (mi_memory m) \<le> review_limit \<longrightarrow> advice_current (mi_memory m))"

definition mind_le :: "mind \<Rightarrow> mind \<Rightarrow> bool" where
  "mind_le m m' \<longleftrightarrow> outcomes (mi_memory m) \<le> outcomes (mi_memory m')"

lemma executed_outcomes: "executed g execute m m' cy st \<Longrightarrow> outcomes (mi_memory m') = outcomes (mi_memory m) + 1"
  by (auto simp: executed_def outcomes_def)

lemma idle_outcomes: "idle m m' \<Longrightarrow> outcomes (mi_memory m') = outcomes (mi_memory m)"
  by (auto simp: idle_def outcomes_def)

lemma mind_step_inv:
  assumes inv: "mind_inv m" and ok: "mind_ok m x"
  shows "mind_inv (mind_step m x) \<and> outcomes (mi_memory m) \<le> outcomes (mi_memory (mind_step m x)) \<and>
     outcomes (mi_memory (mind_step m x)) \<le> outcomes (mi_memory m) + 1"
proof (cases x)
  case (Pursue v execute g)
  obtain out m' where run: "run_goal v execute g m = (out, m')" by (cases "run_goal v execute g m")
  have m: "learn_inv (mi_memory m)" "fresh_ids v (ml_semantic (mi_memory m))" using inv ok Pursue by (simp_all add: mind_inv_def)
  note spec = run_goal_spec [OF m run]
  have l': "learn_inv (mi_memory m')" "mi_learning m' \<noteq> None" using spec inv by (simp_all add: mind_inv_def)
  have "mind_inv m' \<and> outcomes (mi_memory m) \<le> outcomes (mi_memory m') \<and> outcomes (mi_memory m') \<le> outcomes (mi_memory m) + 1"
  proof (cases out)
    case (Inl e)
    then have "idle m m'" using spec by simp
    then show ?thesis using idle_outcomes idle_advice [OF m(1) l'(1)] l' inv unfolding mind_inv_def by auto
  next
    case (Inr cy)
    then obtain st where "executed g execute m m' cy st" using spec by auto
    then show ?thesis using executed_outcomes executed_advice [OF m(1) l'(1)] l' inv unfolding mind_inv_def by fastforce
  qed
  then show ?thesis using Pursue run by simp
next
  case (Republish r)
  then show ?thesis using inv by (simp add: mind_inv_def)
qed

interpretation engine: machine mind_step mind_ok mind_inv mind_le
proof
  show "mind_inv (mind_step m x)" "mind_le m (mind_step m x)" if "mind_inv m" "mind_ok m x" for m x
    using mind_step_inv [OF that] by (simp_all add: mind_le_def)
qed (auto simp: mind_le_def)

definition blank :: "mind \<Rightarrow> bool" where
  "blank m \<longleftrightarrow> mi_learning m \<noteq> None \<and> ml_semantic (mi_memory m) = empty_semantic \<and> ml_episodes (mi_memory m) = []"

lemma blank_inv: "blank m \<Longrightarrow> mind_inv m"
proof -
  assume b: "blank m"
  have k: "\<not> knows (ml_semantic (mi_memory m)) c x" for c x
    using b edge_unknown by (simp add: blank_def knows_def empty_semantic_def del: edge.simps)
  then have l: "learn_inv (mi_memory m)" using b empty_semantic_ok by (simp add: learn_inv_def blank_def)
  have "rr_total (review_capability c (mi_memory m)) = 0" for c
    using b by (simp add: review_capability_def blank_def ep_for_action_def newest_first_def)
  then have "advice_current (mi_memory m)"
    using score_unknown [OF l k] unreviewed by (simp add: advice_current_def)
  then show ?thesis using l b by (simp add: mind_inv_def blank_def)
qed

lemma outcomes_run:
  "mind_inv m \<Longrightarrow> legal mind_ok mind_step m ops \<Longrightarrow> outcomes (mi_memory (run mind_step m ops)) \<le> outcomes (mi_memory m) + length ops"
proof (induction ops arbitrary: m)
  case (Cons x ops)
  then have x: "mind_inv m" "mind_ok m x" by simp_all
  show ?case using mind_step_inv [OF x] Cons.IH [of "mind_step m x"] Cons.prems by simp
qed simp

section \<open>Properties\<close>

text \<open>
  The advice that plans are scored with is up to date: from empty memories, after any runs
  of the engine with any goals, executors and registries, the adjustment of every capability is
  the one of the reliability label its whole record of outcomes deserves, as long as the record
  fits into one review.
\<close>

theorem advice_follows_record:
  assumes "blank m" "legal mind_ok mind_step m ops" "length ops \<le> 1000"
  defines "l \<equiv> mi_memory (run mind_step m ops)"
  shows "score_adjustment c l = Inr (label_adjustment (classify_reliability (review_capability c l)))"
proof -
  have inv: "mind_inv (run mind_step m ops)" by (rule engine.run_inv [OF blank_inv [OF assms(1)] assms(2)])
  have "outcomes (mi_memory m) = 0" using assms(1) by (simp add: blank_def outcomes_def)
  then have "outcomes l \<le> review_limit"
    using outcomes_run [OF blank_inv [OF assms(1)] assms(2)] assms(3) by (simp add: l_def review_limit_def)
  then show ?thesis using inv by (simp add: mind_inv_def l_def advice_current_def)
qed

definition demo_ids :: "char \<Rightarrow> mind_env" where
  "demo_ids c = \<lparr>ve_sha = demo_sha, ve_sign = (\<lambda>k h. k @ h), ve_now = ''t'', ve_ids = (\<lambda>n. replicate (n + 1) c)\<rparr>"

definition demo_mind :: mind where
  "demo_mind = \<lparr>mi_memory = \<lparr>ml_working = [], ml_episodes = [], ml_semantic = empty_semantic, ml_audit = [],
       ml_actor = demo_actor\<rparr>, mi_registry = empty_registry, mi_engine = demo_actor, mi_learning = Some demo_actor\<rparr>"

definition demo_executor :: executor where
  "demo_executor st p = Inr \<lparr>sr_success = True, sr_output = p, sr_error = None\<rparr>"

definition demo_goal :: goal where
  "demo_goal = \<lparr>gl_id = ''g'', gl_description = ''upper'', gl_payload = [], gl_capability = Some ''text.upper'', gl_tags = []\<rparr>"

definition demo_registry :: registry where
  "demo_registry = run reg_step empty_registry demo_reg_ops"

lemma demo_fresh: "fresh_ids (demo_ids c) empty_semantic"
  by (auto simp: fresh_ids_def demo_ids_def empty_semantic_def inj_def replicate_eq_replicate)

lemma demo_mind_legal: "legal mind_ok mind_step demo_mind [Republish demo_registry, Pursue (demo_ids c) demo_executor demo_goal]"
  using demo_fresh by (simp add: demo_mind_def)

text \<open>
  C19: a run executes the candidate with the least score: when a run returns a result, the plan
  it executed comes from a capability of the registry that fits the goal, no candidate has a
  smaller score (cost, risk and learned adjustment; ties go to the smaller identifier), and the
  result is what the executor returned for that capability.
\<close>

theorem run_executes_best_plan:
  assumes "blank m0" "legal mind_ok mind_step m0 (ops @ [Pursue v execute g])"
  defines "m \<equiv> run mind_step m0 ops"
  assumes "fst (run_goal v execute g m) = Inr cy"
  shows "\<exists>cs st. analyze g (mi_registry m) = Some cs \<and> cy_chosen cy \<in> set (generate_plans cs) \<and>
     pn_steps (cy_chosen cy) = [st] \<and> execute st (gl_payload g) = Inr (cy_result cy) \<and>
     (\<forall>q\<in>set (generate_plans cs). \<exists>x y. plan_adjustment m (mi_memory m) (cy_chosen cy) = Inr x \<and>
        plan_adjustment m (mi_memory m) q = Inr y \<and>
        (plan_score (cy_chosen cy) + x, pn_id (cy_chosen cy)) \<le> (plan_score q + y, pn_id q))"
proof -
  have l: "legal mind_ok mind_step m0 ops" "mind_ok m (Pursue v execute g)"
    using assms(2) by (simp_all add: legal_append m_def)
  have inv: "learn_inv (mi_memory m)"
    using engine.run_inv [OF blank_inv [OF assms(1)] l(1)] by (simp add: m_def mind_inv_def)
  obtain m' where "run_goal v execute g m = (Inr cy, m')" using assms(4) by (cases "run_goal v execute g m") auto
  then obtain cs st where cs: "analyze g (mi_registry m) = Some cs" "cs \<noteq> []"
      "choose_plan m (mi_memory m) (generate_plans cs) = Inr (cy_chosen cy)" "executed g execute m m' cy st"
    using run_goal_spec [OF inv _ \<open>run_goal v execute g m = (Inr cy, m')\<close>] l(2) by auto
  obtain p where p: "choose_plan m (mi_memory m) (generate_plans cs) = Inr p" "p \<in> set (generate_plans cs)"
    "\<And>q x y. q \<in> set (generate_plans cs) \<Longrightarrow> plan_adjustment m (mi_memory m) p = Inr x \<Longrightarrow>
       plan_adjustment m (mi_memory m) q = Inr y \<Longrightarrow> (plan_score p + x, pn_id p) \<le> (plan_score q + y, pn_id q)"
    using choose_plan_best [OF inv cs(2), of m] by blast
  then have "p = cy_chosen cy" using cs(3) by simp
  then show ?thesis using cs(1,4) p adjustment_total [OF inv, of _ cs m] unfolding executed_def by metis
qed

lemma demo_analyze: "analyze demo_goal demo_registry \<noteq> None \<and> analyze demo_goal demo_registry \<noteq> Some []"
  by code_simp

theorem advice_follows_record_witness:
  "score_adjustment ''id2'' (mi_memory (run mind_step demo_mind [Republish demo_registry, Pursue (demo_ids CHR ''x'') demo_executor demo_goal])) =
     Inr (label_adjustment (classify_reliability (review_capability ''id2''
       (mi_memory (run mind_step demo_mind [Republish demo_registry, Pursue (demo_ids CHR ''x'') demo_executor demo_goal])))))"
  by (rule advice_follows_record [OF _ demo_mind_legal]) (simp_all add: blank_def demo_mind_def)

theorem run_executes_best_plan_witness:
  "\<exists>cy cs. fst (run_goal (demo_ids CHR ''x'') demo_executor demo_goal (run mind_step demo_mind [Republish demo_registry])) = Inr cy \<and>
     analyze demo_goal demo_registry = Some cs \<and> cy_chosen cy \<in> set (generate_plans cs)"
proof -
  let ?m = "run mind_step demo_mind [Republish demo_registry]" and ?v = "demo_ids CHR ''x''"
  have b: "blank demo_mind" by (simp add: blank_def demo_mind_def)
  have l: "legal mind_ok mind_step demo_mind ([Republish demo_registry] @ [Pursue ?v demo_executor demo_goal])"
    using demo_mind_legal by simp
  obtain out m' where run: "run_goal ?v demo_executor demo_goal ?m = (out, m')"
    by (cases "run_goal ?v demo_executor demo_goal ?m")
  have "learn_inv (mi_memory ?m)" using blank_inv [OF b] by (simp add: mind_inv_def)
  moreover have "fresh_ids ?v (ml_semantic (mi_memory ?m))" using demo_fresh by (simp add: demo_mind_def)
  ultimately obtain cy where "out = Inr cy"
    using run_goal_spec [OF _ _ run] demo_analyze by (cases out) (auto simp: demo_executor_def)
  then have "fst (run_goal ?v demo_executor demo_goal ?m) = Inr cy" using run by simp
  then show ?thesis using run_executes_best_plan [OF b l] by auto
qed

end
