(* ===== verification/Autonomy.thy ===== *)
theory Autonomy
  imports Evolution Learning
begin

text \<open>
  Governed self-expansion: the models of \<open>domain/autonomy.py\<close>, the checks on a designer's answer
  (\<open>infrastructure/autonomy/ollama_designer.py\<close>), the ledger of proposals with its file
  (\<open>infrastructure/autonomy/ledger.py\<close>), the supervisor that joins the cognitive engine, the
  builder, the binder and the ledger (\<open>application/autonomy_supervisor.py\<close>), and its Telegram
  commands (\<open>application/autonomy_telegram_commands.py\<close>).

  As \<open>container.py\<close> wires them, the supervisor and the binder share one builder, and the engine,
  the memory and the capability layer share one registry and one audit log. What the language
  model answers is an argument, already parsed as JSON. The JSON file of the ledger is its
  parsed content.
\<close>

section \<open>Drafts, proposals and policy\<close>

datatype proposal_status = PENDING | APPROVED | REJECTED | FAILED_VALIDATION

fun status_value :: "proposal_status \<Rightarrow> string" where
  "status_value PENDING = ''pending''"
| "status_value APPROVED = ''approved''"
| "status_value REJECTED = ''rejected''"
| "status_value FAILED_VALIDATION = ''failed_validation''"

definition status_of :: "string \<Rightarrow> proposal_status option" where
  "status_of s = find (\<lambda>x. status_value x = s) [PENDING, APPROVED, REJECTED, FAILED_VALIDATION]"

record draft =
  dr_spec :: agent_spec
  dr_tags :: "string list"
  dr_risk :: risk_level
  dr_cost :: real
  dr_input :: "(string, pyval) dict"
  dr_output :: "(string, pyval) dict"

record proposal =
  po_id :: string
  po_goal :: string
  po_draft :: draft
  po_status :: proposal_status
  po_rationale :: string
  po_summary :: string
  po_file :: "string option"
  po_note :: "string option"

record autonomy_policy =
  py_design :: bool
  py_auto :: bool
  py_max :: int

definition may_auto_promote :: "autonomy_policy \<Rightarrow> risk_level \<Rightarrow> bool" where
  "may_auto_promote p r \<longleftrightarrow> py_auto p \<and> r = Low"

section \<open>The designer's answer\<close>

definition safe_name :: "string \<Rightarrow> bool" where
  "safe_name s \<longleftrightarrow> 1 \<le> length s \<and> length s \<le> 80 \<and> list_all valid_name_char s"

definition text_field :: "(string, pyval) dict \<Rightarrow> string \<Rightarrow> string option" where
  "text_field d k =
     (case dget d k of Some (PStr s) \<Rightarrow> if py_strip s = [] then None else Some s | _ \<Rightarrow> None)"

definition parse_case :: "pyval \<Rightarrow> test_case option" where
  "parse_case v =
     (case v of
        PDict c \<Rightarrow>
          (case (dget c ''input'', dget c ''expected_output'') of
             (Some i, Some e) \<Rightarrow> Some \<lparr>tc_input = i, tc_expected = e\<rparr>
           | _ \<Rightarrow> None)
      | _ \<Rightarrow> None)"

fun as_float :: "pyval option \<Rightarrow> real option" where
  "as_float (Some (PFloat r)) = Some r"
| "as_float (Some (PInt n)) = Some (of_int n)"
| "as_float (Some (PBool b)) = Some (if b then 1 else 0)"
| "as_float _ = None"

definition parse_tags :: "pyval option \<Rightarrow> string list option" where
  "parse_tags v =
     (case as_strs v of None \<Rightarrow> None | Some ts \<Rightarrow> if list_all safe_name ts then Some ts else None)"

definition parse_risk :: "pyval option \<Rightarrow> risk_level option" where
  "parse_risk v = (case v of None \<Rightarrow> Some Medium | Some (PStr s) \<Rightarrow> risk_of s | Some _ \<Rightarrow> None)"

definition parse_cost :: "pyval option \<Rightarrow> real option" where
  "parse_cost v =
     (case (case v of None \<Rightarrow> Some 0 | Some x \<Rightarrow> as_float (Some x)) of
        None \<Rightarrow> None | Some c \<Rightarrow> if c < 0 then None else Some c)"

definition parse_schema :: "pyval option \<Rightarrow> (string, pyval) dict option" where
  "parse_schema v = (case v of None \<Rightarrow> Some [] | Some (PDict d) \<Rightarrow> Some d | Some _ \<Rightarrow> None)"

definition quoted :: "string \<Rightarrow> string" where
  "quoted s = CHR 0x27 # s @ [CHR 0x27]"

text \<open>The part after the text fields.\<close>

definition parse_rest :: "string \<Rightarrow> string \<Rightarrow> string \<Rightarrow> string \<Rightarrow> (string, pyval) dict \<Rightarrow> string + draft" where
  "parse_rest n c ds tm d =
     (case dget d ''test_cases'' of
        Some (PList (v # vs)) \<Rightarrow>
          (case those (map parse_case (take 12 (v # vs))) of
             None \<Rightarrow> Inl ''designer test case has invalid shape''
           | Some tests \<Rightarrow>
               (case parse_tags (dget d ''tags'') of
                  None \<Rightarrow> Inl ''designer tags contain invalid values''
                | Some tags \<Rightarrow>
                    (case parse_risk (dget d ''risk_level'') of
                       None \<Rightarrow> Inl ''designer risk_level is invalid''
                     | Some risk \<Rightarrow>
                         (case parse_cost (dget d ''estimated_cost'') of
                            None \<Rightarrow> Inl ''designer estimated_cost must be non-negative''
                          | Some cost \<Rightarrow>
                              (case (parse_schema (dget d ''input_schema''), parse_schema (dget d ''output_schema'')) of
                                 (Some is, Some os) \<Rightarrow>
                                   Inr \<lparr>dr_spec = \<lparr>sp_name = n, sp_capability = c, sp_description = ds, sp_template = tm,
                                           sp_tests = tests\<rparr>,
                                        dr_tags = tags, dr_risk = risk, dr_cost = cost, dr_input = is, dr_output = os\<rparr>
                               | _ \<Rightarrow> Inl ''designer schemas must be JSON objects'')))))
      | _ \<Rightarrow> Inl ''designer must provide at least one test case'')"

definition parse_object :: "(string, pyval) dict \<Rightarrow> string + draft" where
  "parse_object d =
     (case find (\<lambda>k. text_field d k = None) [''name'', ''capability'', ''description'', ''template''] of
        Some k \<Rightarrow> Inl (''designer field '' @ quoted k @ '' must be a non-empty string'')
      | None \<Rightarrow>
          (let field = (\<lambda>k. the (text_field d k)) in
           if \<not> safe_name (field ''name'') then Inl ''designer name contains unsafe characters''
           else if \<not> safe_name (field ''capability'') then Inl ''designer capability contains unsafe characters''
           else if \<not> safe_name (field ''template'') then Inl ''designer template contains unsafe characters''
           else parse_rest (field ''name'') (field ''capability'') (field ''description'') (field ''template'') d))"

definition parse_draft :: "string + pyval \<Rightarrow> string + draft" where
  "parse_draft parsed =
     (case parsed of
        Inl _ \<Rightarrow> Inl ''local designer returned invalid JSON''
      | Inr v \<Rightarrow> (case v of PDict d \<Rightarrow> parse_object d | _ \<Rightarrow> Inl ''local designer response must be a JSON object''))"

section \<open>The ledger\<close>

text \<open>The dictionary of the in-memory ledger.\<close>

type_synonym proposals = "(string, proposal) dict"

definition mem_record :: "proposal \<Rightarrow> proposals \<Rightarrow> raised + proposals" where
  "mem_record p m =
     (if po_id p \<in> set (dkeys m) then Inl (''ValueError'', ''proposal already exists'') else Inr (dset (po_id p) p m))"

definition mem_get :: "string \<Rightarrow> proposals \<Rightarrow> raised + proposal" where
  "mem_get i m = (case dget m i of None \<Rightarrow> Inl (''KeyError'', ''unknown proposal '' @ i) | Some p \<Rightarrow> Inr p)"

definition mem_update :: "proposal \<Rightarrow> proposals \<Rightarrow> raised + proposals" where
  "mem_update p m =
     (if po_id p \<notin> set (dkeys m) then Inl (''KeyError'', ''unknown proposal '' @ po_id p) else Inr (dset (po_id p) p m))"

definition status_counts :: "proposals \<Rightarrow> (string, nat) dict" where
  "status_counts m = fold (\<lambda>p. count_reason (status_value (po_status p))) (dvals m) []"

definition pending_proposals :: "proposals \<Rightarrow> proposal list" where
  "pending_proposals m = filter (\<lambda>p. po_status p = PENDING) (dvals m)"

definition null_or_str :: "string option \<Rightarrow> pyval" where
  "null_or_str v = (case v of None \<Rightarrow> PNone | Some s \<Rightarrow> PStr s)"

definition case_to_dict :: "test_case \<Rightarrow> pyval" where
  "case_to_dict t = PDict [(''input'', tc_input t), (''expected_output'', tc_expected t)]"

definition spec_to_dict :: "agent_spec \<Rightarrow> (string \<times> pyval) list" where
  "spec_to_dict s =
     [(''name'', PStr (sp_name s)), (''capability'', PStr (sp_capability s)), (''description'', PStr (sp_description s)),
      (''template'', PStr (sp_template s)), (''test_cases'', PList (map case_to_dict (sp_tests s)))]"

definition serialize :: "proposal \<Rightarrow> (string \<times> pyval) list" where
  "serialize p =
     [(''proposal_id'', PStr (po_id p)), (''goal_id'', PStr (po_goal p)),
      (''draft'', PDict
        [(''spec'', PDict (spec_to_dict (dr_spec (po_draft p)))), (''tags'', PList (map PStr (dr_tags (po_draft p)))),
         (''risk_level'', PStr (risk_value (dr_risk (po_draft p)))), (''estimated_cost'', PFloat (dr_cost (po_draft p))),
         (''input_schema'', PDict (dr_input (po_draft p))), (''output_schema'', PDict (dr_output (po_draft p)))]),
      (''status'', PStr (status_value (po_status p))), (''rationale'', PStr (po_rationale p)),
      (''validation_summary'', PStr (po_summary p)), (''file_path'', null_or_str (po_file p)),
      (''reviewer_note'', null_or_str (po_note p))]"

text \<open>
  Reading a record back; \<open>None\<close> stands for the error of the code, and for a field whose value is
  not of the type the ledger writes there.
\<close>

definition field_dict :: "pyval option \<Rightarrow> (string, pyval) dict option" where
  "field_dict v = (case v of Some (PDict d) \<Rightarrow> Some d | _ \<Rightarrow> None)"

definition field_opt_str :: "pyval option \<Rightarrow> string option option" where
  "field_opt_str v = (case v of None \<Rightarrow> Some None | Some PNone \<Rightarrow> Some None | Some (PStr s) \<Rightarrow> Some (Some s) | _ \<Rightarrow> None)"

definition as_cases :: "pyval option \<Rightarrow> test_case list option" where
  "as_cases v = (case v of None \<Rightarrow> Some [] | Some (PList l) \<Rightarrow> those (map parse_case l) | _ \<Rightarrow> None)"

definition spec_from_dict :: "(string, pyval) dict \<Rightarrow> agent_spec option" where
  "spec_from_dict d =
     Option.bind (as_str (dget d ''name'')) (\<lambda>n.
     Option.bind (as_str (dget d ''capability'')) (\<lambda>c.
     Option.bind (as_str (dget d ''description'')) (\<lambda>ds.
     Option.bind (as_str (dget d ''template'')) (\<lambda>tm.
     Option.bind (as_cases (dget d ''test_cases'')) (\<lambda>tests.
       Some \<lparr>sp_name = n, sp_capability = c, sp_description = ds, sp_template = tm, sp_tests = tests\<rparr>)))))"

definition draft_from_dict :: "(string, pyval) dict \<Rightarrow> draft option" where
  "draft_from_dict d =
     Option.bind (Option.bind (field_dict (dget d ''spec'')) spec_from_dict) (\<lambda>sp.
     Option.bind (as_strs (dget d ''tags'')) (\<lambda>tags.
     Option.bind (Option.bind (as_str (dget d ''risk_level'')) risk_of) (\<lambda>risk.
     Option.bind (as_float (dget d ''estimated_cost'')) (\<lambda>cost.
     Option.bind (parse_schema (dget d ''input_schema'')) (\<lambda>is.
     Option.bind (parse_schema (dget d ''output_schema'')) (\<lambda>os.
       Some \<lparr>dr_spec = sp, dr_tags = tags, dr_risk = risk, dr_cost = cost, dr_input = is, dr_output = os\<rparr>))))))"

definition deserialize :: "(string, pyval) dict \<Rightarrow> proposal option" where
  "deserialize d =
     Option.bind (Option.bind (field_dict (dget d ''draft'')) draft_from_dict) (\<lambda>dr.
     Option.bind (as_str (dget d ''proposal_id'')) (\<lambda>i.
     Option.bind (as_str (dget d ''goal_id'')) (\<lambda>g.
     Option.bind (Option.bind (as_str (dget d ''status'')) status_of) (\<lambda>st.
     Option.bind (as_str (dget d ''rationale'')) (\<lambda>ra.
     Option.bind (as_str (dget d ''validation_summary'')) (\<lambda>su.
     Option.bind (field_opt_str (dget d ''file_path'')) (\<lambda>fp.
     Option.bind (field_opt_str (dget d ''reviewer_note'')) (\<lambda>nt.
       Some \<lparr>po_id = i, po_goal = g, po_draft = dr, po_status = st, po_rationale = ra, po_summary = su, po_file = fp,
             po_note = nt\<rparr>))))))))"

text \<open>The durable ledger: the dictionary, the file of records and the audit file.\<close>

record ledger =
  lg_proposals :: proposals
  lg_file :: "(string, pyval) dict list option"
  lg_audit :: "(string \<times> pyval) list list"

fun load_proposals :: "(string, pyval) dict list \<Rightarrow> proposals \<Rightarrow> proposals option" where
  "load_proposals [] m = Some m"
| "load_proposals (x # xs) m =
     (case deserialize x of None \<Rightarrow> None | Some p \<Rightarrow> load_proposals xs (dset (po_id p) p m))"

definition ledger_load :: "(string, pyval) dict list option \<Rightarrow> (string \<times> pyval) list list \<Rightarrow> ledger option" where
  "ledger_load f a =
     (case f of
        None \<Rightarrow> Some \<lparr>lg_proposals = [], lg_file = None, lg_audit = a\<rparr>
      | Some rs \<Rightarrow> map_option (\<lambda>m. \<lparr>lg_proposals = m, lg_file = f, lg_audit = a\<rparr>) (load_proposals rs []))"

definition ledger_save :: "ledger \<Rightarrow> ledger" where
  "ledger_save l = l\<lparr>lg_file := Some (map serialize (dvals (lg_proposals l)))\<rparr>"

definition ledger_audit :: "string \<Rightarrow> proposal \<Rightarrow> ledger \<Rightarrow> ledger" where
  "ledger_audit ev p l = l\<lparr>lg_audit := lg_audit l @
     [[(''event'', PStr ev), (''proposal_id'', PStr (po_id p)), (''goal_id'', PStr (po_goal p)),
       (''status'', PStr (status_value (po_status p))), (''reviewer_note'', null_or_str (po_note p))]]\<rparr>"

definition ledger_record :: "proposal \<Rightarrow> ledger \<Rightarrow> (raised + unit) \<times> ledger" where
  "ledger_record p l =
     (case mem_record p (lg_proposals l) of
        Inl e \<Rightarrow> (Inl e, l)
      | Inr m \<Rightarrow> (Inr (), ledger_audit ''created'' p (ledger_save (l\<lparr>lg_proposals := m\<rparr>))))"

definition ledger_update :: "proposal \<Rightarrow> ledger \<Rightarrow> (raised + unit) \<times> ledger" where
  "ledger_update p l =
     (case mem_update p (lg_proposals l) of
        Inl e \<Rightarrow> (Inl e, l)
      | Inr m \<Rightarrow> (Inr (), ledger_audit ''updated'' p (ledger_save (l\<lparr>lg_proposals := m\<rparr>))))"

section \<open>The supervisor\<close>

record supervisor =
  su_mind :: mind
  su_factory :: factory
  su_ledger :: ledger
  su_policy :: autonomy_policy
  su_builds :: "(string, int) dict"
  su_artifacts :: "(string, build_result) dict"

datatype pursue_error = EngineRaised string | SupervisorRaised raised

record autonomy_outcome =
  ao_state :: string
  ao_cycle :: "cycle_result option"
  ao_proposal :: "proposal option"

definition gap_outcome :: autonomy_outcome where
  "gap_outcome = \<lparr>ao_state = ''capability_gap'', ao_cycle = None, ao_proposal = None\<rparr>"

text \<open>The engine sees the registry and the audit log of the capability layer, and appends to the log.\<close>

definition engine_view :: "supervisor \<Rightarrow> mind" where
  "engine_view s = (su_mind s)
     \<lparr>mi_memory := (mi_memory (su_mind s))\<lparr>ml_audit := cl_audit (fa_layer (su_factory s))\<rparr>,
      mi_registry := cl_registry (fa_layer (su_factory s))\<rparr>"

definition after_engine :: "mind \<Rightarrow> supervisor \<Rightarrow> supervisor" where
  "after_engine m s = s
     \<lparr>su_mind := m,
      su_factory := (su_factory s)\<lparr>fa_layer := (fa_layer (su_factory s))\<lparr>cl_audit := ml_audit (mi_memory m)\<rparr>\<rparr>\<rparr>"

definition new_proposal :: "string \<Rightarrow> goal \<Rightarrow> draft \<Rightarrow> build_result \<Rightarrow> proposal" where
  "new_proposal i g dr br =
     \<lparr>po_id = i, po_goal = gl_id g, po_draft = dr,
      po_status = (if br_approved br then PENDING else FAILED_VALIDATION),
      po_rationale = ''No registered capability satisfied goal '' @ gl_id g @ ''.'',
      po_summary = br_reason br, po_file = br_path br, po_note = None\<rparr>"

text \<open>A proposal is updated in place before the ledger is told; \<open>ledger_update\<close> stores the same object.\<close>

definition approve_proposal :: "cap_env \<Rightarrow> string \<Rightarrow> string option \<Rightarrow> supervisor \<Rightarrow> (raised + proposal) \<times> supervisor" where
  "approve_proposal env i remark s =
     (case mem_get i (lg_proposals (su_ledger s)) of
        Inl e \<Rightarrow> (Inl e, s)
      | Inr p \<Rightarrow>
          if po_status p \<noteq> PENDING then (Inl (''ValueError'', ''only pending proposals may be approved''), s)
          else
            (case dget (su_artifacts s) i of
               None \<Rightarrow> (Inl (''ValueError'', ''approved build artifact is required for activation''), s)
             | Some br \<Rightarrow>
                 if \<not> br_approved br
                 then (Inl (''ValueError'', ''approved build artifact is required for activation''), s)
                 else
                   (case bind_tool env br (su_factory s) of
                      (Inl e, f) \<Rightarrow> (Inl e, s\<lparr>su_factory := f\<rparr>)
                    | (Inr d, f) \<Rightarrow>
                        (let n = (case remark of Some x \<Rightarrow> if x = [] then ''published capability '' @ cd_id d else x
                                              | None \<Rightarrow> ''published capability '' @ cd_id d);
                             q = p\<lparr>po_status := APPROVED, po_note := Some n\<rparr>
                         in case ledger_update q (su_ledger s) of
                              (Inl e, l) \<Rightarrow> (Inl e, s\<lparr>su_factory := f, su_ledger := l\<rparr>)
                            | (Inr _, l) \<Rightarrow> (Inr q, s\<lparr>su_factory := f, su_ledger := l\<rparr>)))))"

definition reject_proposal :: "string \<Rightarrow> string \<Rightarrow> supervisor \<Rightarrow> (raised + proposal) \<times> supervisor" where
  "reject_proposal i remark s =
     (case mem_get i (lg_proposals (su_ledger s)) of
        Inl e \<Rightarrow> (Inl e, s)
      | Inr p \<Rightarrow>
          if po_status p \<noteq> PENDING then (Inl (''ValueError'', ''only pending proposals may be rejected''), s)
          else
            (let q = p\<lparr>po_status := REJECTED, po_note := Some remark\<rparr>
             in case ledger_update q (su_ledger s) of
                  (Inl e, l) \<Rightarrow> (Inl e, s\<lparr>su_ledger := l\<rparr>)
                | (Inr _, l) \<Rightarrow> (Inr q, s\<lparr>su_ledger := l\<rparr>)))"

text \<open>The end of the handling of a gap: promotion where the policy allows it.\<close>

definition settle_proposal :: "cap_env \<Rightarrow> proposal \<Rightarrow> build_result \<Rightarrow> supervisor \<Rightarrow> (raised + autonomy_outcome) \<times> supervisor" where
  "settle_proposal cenv p br s =
     (if br_approved br \<and> may_auto_promote (su_policy s) (dr_risk (po_draft p)) then
        (case approve_proposal cenv (po_id p) (Some ''auto-promoted under low-risk policy'') s of
           (Inl e, s1) \<Rightarrow> (Inl e, s1)
         | (Inr q, s1) \<Rightarrow> (Inr \<lparr>ao_state = ''promoted'', ao_cycle = None, ao_proposal = Some q\<rparr>, s1))
      else (Inr \<lparr>ao_state = ''proposal_created'', ao_cycle = None, ao_proposal = Some p\<rparr>, s))"

text \<open>\<open>i\<close> is the fresh identifier of the proposal, \<open>design\<close> the designer.\<close>

definition handle_capability_gap ::
    "build_env \<Rightarrow> cap_env \<Rightarrow> (goal \<Rightarrow> raised + draft) \<Rightarrow> string \<Rightarrow> goal \<Rightarrow> supervisor
     \<Rightarrow> (raised + autonomy_outcome) \<times> supervisor" where
  "handle_capability_gap benv cenv design i g s =
     (let previous = (case dget (su_builds s) (gl_id g) of None \<Rightarrow> 0 | Some n \<Rightarrow> n) in
      if \<not> py_design (su_policy s) \<or> previous \<ge> py_max (su_policy s) then (Inr gap_outcome, s)
      else
        (let s1 = s\<lparr>su_builds := dset (gl_id g) (previous + 1) (su_builds s)\<rparr> in
         case design g of
           Inl e \<Rightarrow> (Inl e, s1)
         | Inr dr \<Rightarrow>
             (let (br, b) = build benv (dr_spec dr) (fa_builder (su_factory s1));
                  p = new_proposal i g dr br;
                  s2 = s1\<lparr>su_factory := (su_factory s1)\<lparr>fa_builder := b\<rparr>\<rparr>
              in case ledger_record p (su_ledger s2) of
                   (Inl e, l) \<Rightarrow> (Inl e, s2\<lparr>su_ledger := l\<rparr>)
                 | (Inr _, l) \<Rightarrow>
                     (let s3 = s2\<lparr>su_ledger := l,
                                  su_artifacts := (if br_approved br then dset i br (su_artifacts s2) else su_artifacts s2)\<rparr>
                      in settle_proposal cenv p br s3))))"

definition pursue_goal ::
    "mind_env \<Rightarrow> (plan_step \<Rightarrow> (string, pyval) dict \<Rightarrow> string + step_result) \<Rightarrow> build_env \<Rightarrow> cap_env
     \<Rightarrow> (goal \<Rightarrow> raised + draft) \<Rightarrow> string \<Rightarrow> goal \<Rightarrow> supervisor \<Rightarrow> (pursue_error + autonomy_outcome) \<times> supervisor" where
  "pursue_goal v execute benv cenv design i g s =
     (case run_goal v execute g (engine_view s) of
        (Inr cy, m) \<Rightarrow> (Inr \<lparr>ao_state = ''executed'', ao_cycle = Some cy, ao_proposal = None\<rparr>, after_engine m s)
      | (Inl (Raised e), m) \<Rightarrow> (Inl (EngineRaised e), after_engine m s)
      | (Inl (NoCapabilityFound _), m) \<Rightarrow>
          (case handle_capability_gap benv cenv design i g (after_engine m s) of
             (Inl e, s1) \<Rightarrow> (Inl (SupervisorRaised e), s1)
           | (Inr out, s1) \<Rightarrow> (Inr out, s1)))"

text \<open>A new process over the ledger's file: the artifacts and the counts of builds are gone.\<close>

definition restart_supervisor :: "supervisor \<Rightarrow> supervisor option" where
  "restart_supervisor s =
     map_option (\<lambda>l. s\<lparr>su_ledger := l, su_builds := [], su_artifacts := []\<rparr>)
       (ledger_load (lg_file (su_ledger s)) (lg_audit (su_ledger s)))"

section \<open>Telegram commands\<close>

text \<open>A callback is the chat and the proposal that the two closures of an approval capture.\<close>

record autonomy =
  au_super :: supervisor
  au_telegram :: telegram
  au_callbacks :: "(string, string \<times> string) dict"

definition au_say :: "string \<Rightarrow> string \<Rightarrow> autonomy \<Rightarrow> autonomy" where
  "au_say chat txt a = a\<lparr>au_telegram := emit (Say chat (Text txt)) (au_telegram a)\<rparr>"

definition known_proposal :: "string \<Rightarrow> autonomy \<Rightarrow> proposal option" where
  "known_proposal i a = (if i = [] then None else dget (lg_proposals (su_ledger (au_super a))) i)"

definition autonomy_pending :: "string \<Rightarrow> autonomy \<Rightarrow> autonomy" where
  "autonomy_pending chat a =
     (let ps = pending_proposals (lg_proposals (su_ledger (au_super a))); nl = [CHR 0x0A] in
      if ps = [] then au_say chat ''No autonomy proposals are pending.'' a
      else au_say chat (''Pending autonomy proposals:'' @ nl @
             join_sep nl (map (\<lambda>p. ''- '' @ po_id p @ '' | capability: '' @ sp_capability (dr_spec (po_draft p)) @
                                  '' | risk: '' @ risk_value (dr_risk (po_draft p))) ps)) a)"

text \<open>\<open>suffix\<close> is the random part of the identifier of the approval.\<close>

definition autonomy_approve :: "string \<Rightarrow> string \<Rightarrow> string \<Rightarrow> real \<Rightarrow> autonomy \<Rightarrow> (string + unit) \<times> autonomy" where
  "autonomy_approve chat args suffix now a =
     (let i = py_strip args in
      case known_proposal i a of
        None \<Rightarrow> (Inr (), au_say chat ''Usage: /autonomy_approve <proposal_id> for a pending proposal.'' a)
      | Some p \<Rightarrow>
          (let aid = ''autonomy-approve-'' @ i @ ''-'' @ suffix;
               (res, g) = request_approval chat aid
                 (''Promote the proposed agent for capability '' @ sp_capability (dr_spec (po_draft p)) @ '' (proposal '' @ i @ '').'')
                 now (au_telegram a)
           in (res, a\<lparr>au_telegram := g, au_callbacks :=
                      (if entered aid (au_telegram a) g then dset aid (chat, i) (au_callbacks a) else au_callbacks a)\<rparr>)))"

definition execute_autonomy_approve :: "cap_env \<Rightarrow> string \<Rightarrow> string \<Rightarrow> autonomy \<Rightarrow> raised option \<times> autonomy" where
  "execute_autonomy_approve env chat i a =
     (case known_proposal i a of
        None \<Rightarrow> (None, au_say chat (''Proposal '' @ i @ '' is no longer available for promotion.'') a)
      | Some _ \<Rightarrow>
          (case approve_proposal env i (Some ''approved through Telegram'') (au_super a) of
             (Inl e, s) \<Rightarrow> (Some e, a\<lparr>au_super := s\<rparr>)
           | (Inr _, s) \<Rightarrow>
               (None, au_say chat (''Proposal '' @ i @ '' was approved through governance.'') (a\<lparr>au_super := s\<rparr>))))"

definition partition_space :: "string \<Rightarrow> string \<times> string" where
  "partition_space s = (takeWhile (\<lambda>c. c \<noteq> CHR '' '') s, tl (dropWhile (\<lambda>c. c \<noteq> CHR '' '') s))"

definition autonomy_reject :: "string \<Rightarrow> string \<Rightarrow> autonomy \<Rightarrow> raised option \<times> autonomy" where
  "autonomy_reject chat args a =
     (let (i, remark) = partition_space (py_strip args) in
      if py_strip remark = [] \<or> known_proposal i a = None
      then (None, au_say chat ''Usage: /autonomy_reject <proposal_id> <rejection reason>'' a)
      else
        (case reject_proposal i (py_strip remark) (au_super a) of
           (Inl e, s) \<Rightarrow> (Some e, a\<lparr>au_super := s\<rparr>)
         | (Inr _, s) \<Rightarrow>
             (None, au_say chat (''Proposal '' @ i @ '' was rejected and the reason was recorded.'') (a\<lparr>au_super := s\<rparr>))))"

text \<open>The answer to an approval: the gate's handler around the callback.\<close>

definition answer_autonomy :: "cap_env \<Rightarrow> string \<Rightarrow> string \<Rightarrow> bool \<Rightarrow> real \<Rightarrow> real \<Rightarrow> autonomy \<Rightarrow> autonomy" where
  "answer_autonomy env =
     answer_gate au_telegram (\<lambda>g a. a\<lparr>au_telegram := g\<rparr>) au_callbacks
       (\<lambda>(c, i). execute_autonomy_approve env c i)
       (\<lambda>(c, i). au_say c (''Promotion of proposal '' @ i @ '' was cancelled.''))"

end
