(* ===== verification/Autonomy_Props.thy ===== *)
theory Autonomy_Props
  imports Autonomy Evolution_Props Capability_Props Learning_Props
begin

text \<open>
  The supervisor: tools are bound only for proposals that were decided, the number of proposals
  per goal is bounded, the ledger survives a restart (the artifacts do not), and what promotion
  publishes. The supervisor is a machine of pursuits, decisions and restarts and, its decided
  proposals being final, a \<open>decision_store\<close>.
\<close>

section \<open>The ledger's file\<close>

lemma status_of_value [simp]: "status_of (status_value x) = Some x"
  by (cases x) (simp_all add: status_of_def)

lemma field_opt_str_inv [simp]: "field_opt_str (Some (null_or_str x)) = Some x"
  by (cases x) (simp_all add: field_opt_str_def null_or_str_def)

lemma parse_case_inv [simp]: "parse_case (case_to_dict t) = Some t"
  by (simp add: parse_case_def case_to_dict_def)

lemma those_cases [simp]: "those (map (parse_case \<circ> case_to_dict) ts) = Some ts"
  by (induction ts) auto

lemma spec_roundtrip [simp]: "spec_from_dict (spec_to_dict s) = Some s"
  by (simp add: spec_from_dict_def spec_to_dict_def as_cases_def)

lemma proposal_roundtrip [simp]: "deserialize (serialize p) = Some p"
  by (simp add: serialize_def deserialize_def draft_from_dict_def field_dict_def parse_schema_def)

lemma load_proposals_fold: "load_proposals (map serialize ps) m = Some (fold (\<lambda>p. dset (po_id p) p) ps m)"
  by (induction ps arbitrary: m) auto

definition ledger_ok :: "ledger \<Rightarrow> bool" where
  "ledger_ok l \<longleftrightarrow> dwf (lg_proposals l) \<and> (\<forall>i p. dget (lg_proposals l) i = Some p \<longrightarrow> po_id p = i) \<and>
     (lg_file l = Some (map serialize (dvals (lg_proposals l))) \<or> lg_file l = None \<and> lg_proposals l = [])"

lemma load_saved_ledger: "ledger_ok l \<Longrightarrow> ledger_load (lg_file l) (lg_audit l) = Some l"
proof -
  assume ok: "ledger_ok l"
  have "fold (\<lambda>p. dset (po_id p) p) (dvals (lg_proposals l)) [] = lg_proposals l"
    using fold_dset_dvals [of "[]" "lg_proposals l" po_id] ok by (auto simp: ledger_ok_def dget_iff_in_set)
  then have "load_proposals (map serialize (dvals (lg_proposals l))) [] = Some (lg_proposals l)"
    by (simp only: load_proposals_fold)
  then show ?thesis using ok unfolding ledger_ok_def ledger_load_def by (auto simp del: map_map)
qed

lemma ledger_record_cases:
  assumes "ledger_record p l = (res, l')"
  obtains (refused) e where "res = Inl e" "l' = l"
  | (recorded) "res = Inr ()" "dget (lg_proposals l) (po_id p) = None" "lg_proposals l' = dset (po_id p) p (lg_proposals l)"
      "lg_file l' = Some (map serialize (dvals (lg_proposals l')))"
  using assms
  by (auto simp: ledger_record_def mem_record_def ledger_audit_def ledger_save_def dget_None_iff split: if_splits)

lemma ledger_update_known:
  assumes "dget (lg_proposals l) (po_id p) = Some q"
  shows "fst (ledger_update p l) = Inr () \<and> lg_proposals (snd (ledger_update p l)) = dset (po_id p) p (lg_proposals l) \<and>
     lg_file (snd (ledger_update p l)) = Some (map serialize (dvals (lg_proposals (snd (ledger_update p l)))))"
proof -
  have "po_id p \<in> set (dkeys (lg_proposals l))" using assms dget_dom by metis
  then show ?thesis by (simp add: ledger_update_def mem_update_def ledger_audit_def ledger_save_def)
qed

lemma ledger_ok_dset:
  assumes "ledger_ok l" "lg_proposals l' = dset (po_id p) p (lg_proposals l)"
    "lg_file l' = Some (map serialize (dvals (lg_proposals l')))"
  shows "ledger_ok l'"
  using assms by (auto simp: ledger_ok_def dict_simps split: if_splits)

section \<open>Counting proposals\<close>

lemma count_dset_new:
  "dget d k = None \<Longrightarrow> length (filter P (dvals (dset k v d))) = length (filter P (dvals d)) + (if P v then 1 else 0)"
  by (induction d) (auto split: if_splits)

lemma count_dset_same:
  "dget d k = Some w \<Longrightarrow> P v = P w \<Longrightarrow> length (filter P (dvals (dset k v d))) = length (filter P (dvals d))"
  by (induction d) (auto split: if_splits)

definition proposals_for :: "string \<Rightarrow> supervisor \<Rightarrow> nat" where
  "proposals_for g s = length (filter (\<lambda>p. po_goal p = g) (dvals (lg_proposals (su_ledger s))))"

definition builds_for :: "string \<Rightarrow> supervisor \<Rightarrow> int" where
  "builds_for g s = (case dget (su_builds s) g of None \<Rightarrow> 0 | Some n \<Rightarrow> n)"

section \<open>Each operation\<close>

definition su_inv :: "supervisor \<Rightarrow> bool" where
  "su_inv s \<longleftrightarrow> ledger_ok (su_ledger s) \<and>
     (\<forall>i br. dget (su_artifacts s) i = Some br \<longrightarrow> br_approved br \<and>
        (\<exists>p. dget (lg_proposals (su_ledger s)) i = Some p \<and> br_spec br = dr_spec (po_draft p) \<and> br_path br = po_file p)) \<and>
     (\<forall>g. 0 \<le> builds_for g s \<and> builds_for g s \<le> max 0 (py_max (su_policy s)))"

lemma su_approve_cases:
  assumes inv: "su_inv s" and ap: "approve_proposal env i rem s = (res, s')"
  obtains (refused) e where "res = Inl e" "su_ledger s' = su_ledger s" "fa_handlers (su_factory s') = fa_handlers (su_factory s)"
      "fa_builder (su_factory s') = fa_builder (su_factory s)" "su_artifacts s' = su_artifacts s" "su_builds s' = su_builds s"
      "su_policy s' = su_policy s"
  | (approved) p br d src q where "dget (lg_proposals (su_ledger s)) i = Some p" "po_status p = PENDING"
      "dget (su_artifacts s) i = Some br" "dget (bd_files (fa_builder (su_factory s))) (the (br_path br)) = Some src"
      "bind_tool env br (su_factory s) = (Inr d, su_factory s')"
      "fa_handlers (su_factory s') = dset (cd_id d) \<lparr>bt_source = src, bt_capability = sp_capability (br_spec br)\<rparr> (fa_handlers (su_factory s))"
      "res = Inr q" "q = p\<lparr>po_status := APPROVED, po_note := po_note q\<rparr>" "po_id p = i"
      "lg_proposals (su_ledger s') = dset i q (lg_proposals (su_ledger s))" "ledger_ok (su_ledger s')"
      "fa_builder (su_factory s') = fa_builder (su_factory s)" "su_artifacts s' = su_artifacts s" "su_builds s' = su_builds s"
      "su_policy s' = su_policy s"
proof (cases "dget (lg_proposals (su_ledger s)) i")
  case None
  then have "res = Inl (''KeyError'', ''unknown proposal '' @ i) \<and> s' = s"
    using ap by (simp add: approve_proposal_def mem_get_def)
  then show ?thesis using refused by blast
next
  case (Some p)
  have pid: "po_id p = i" using inv Some by (simp add: su_inv_def ledger_ok_def)
  show ?thesis
  proof (cases "\<exists>br. po_status p = PENDING \<and> dget (su_artifacts s) i = Some br \<and> br_approved br")
    case False
    have "\<exists>e. res = Inl e \<and> s' = s"
    proof (cases "po_status p = PENDING")
      case True
      with False have no: "dget (su_artifacts s) i = None \<or> (\<exists>br. dget (su_artifacts s) i = Some br \<and> \<not> br_approved br)"
        by (cases "dget (su_artifacts s) i") auto
      show ?thesis using ap Some True no unfolding approve_proposal_def mem_get_def by auto
    qed (use ap Some in \<open>auto simp: approve_proposal_def mem_get_def\<close>)
    then show ?thesis using refused by blast
  next
    case True
    then obtain br where br: "po_status p = PENDING" "dget (su_artifacts s) i = Some br" "br_approved br" by blast
    obtain r f where bt: "bind_tool env br (su_factory s) = (r, f)" by (cases "bind_tool env br (su_factory s)")
    from bt show ?thesis
    proof (cases rule: bind_tool_cases)
      case (refused e)
      then have "res = Inl e" "s' = s\<lparr>su_factory := f\<rparr>"
        using ap Some br bt by (simp_all add: approve_proposal_def mem_get_def)
      then show ?thesis using that(1) [of e] refused by simp
    next
      case (bound d src)
      define n where "n = (case rem of Some x \<Rightarrow> if x = [] then ''published capability '' @ cd_id d else x
          | None \<Rightarrow> ''published capability '' @ cd_id d)"
      define q where "q = p\<lparr>po_status := APPROVED, po_note := Some n\<rparr>"
      have q: "po_id q = i" by (simp add: q_def pid)
      have up: "fst (ledger_update q (su_ledger s)) = Inr ()"
          "lg_proposals (snd (ledger_update q (su_ledger s))) = dset i q (lg_proposals (su_ledger s))"
          "lg_file (snd (ledger_update q (su_ledger s))) = Some (map serialize (dvals (lg_proposals (snd (ledger_update q (su_ledger s))))))"
        using ledger_update_known [of "su_ledger s" q p] Some q by simp_all
      have ok: "ledger_ok (snd (ledger_update q (su_ledger s)))"
        using ledger_ok_dset [of "su_ledger s" "snd (ledger_update q (su_ledger s))" q] up q inv by (simp add: su_inv_def)
      have "approve_proposal env i rem s =
          (case ledger_update q (su_ledger s) of
             (Inl e, l) \<Rightarrow> (Inl e, s\<lparr>su_factory := f, su_ledger := l\<rparr>)
           | (Inr _, l) \<Rightarrow> (Inr q, s\<lparr>su_factory := f, su_ledger := l\<rparr>))"
        using Some br bt bound(1) unfolding q_def n_def by (simp add: approve_proposal_def mem_get_def Let_def)
      then have s': "res = Inr q" "s' = s\<lparr>su_factory := f, su_ledger := snd (ledger_update q (su_ledger s))\<rparr>"
        using ap up(1) by (auto split: prod.splits)
      show ?thesis
        by (rule approved [of p br src d q]) (use Some br bt bound s' up(2) ok pid in \<open>simp_all add: q_def\<close>)
    qed
  qed
qed

lemma su_reject_cases:
  assumes inv: "su_inv s" and re: "reject_proposal i rem s = (res, s')"
  obtains (refused) e where "res = Inl e" "s' = s"
  | (rejected) p l where "dget (lg_proposals (su_ledger s)) i = Some p" "po_status p = PENDING"
      "res = Inr (p\<lparr>po_status := REJECTED, po_note := Some rem\<rparr>)" "s' = s\<lparr>su_ledger := l\<rparr>" "po_id p = i"
      "lg_proposals l = dset i (p\<lparr>po_status := REJECTED, po_note := Some rem\<rparr>) (lg_proposals (su_ledger s))" "ledger_ok l"
proof (cases "\<exists>p. dget (lg_proposals (su_ledger s)) i = Some p \<and> po_status p = PENDING")
  case False
  then have "\<exists>e. res = Inl e \<and> s' = s"
    using re by (cases "dget (lg_proposals (su_ledger s)) i") (auto simp: reject_proposal_def mem_get_def)
  then show ?thesis using refused by blast
next
  case True
  then obtain p where p: "dget (lg_proposals (su_ledger s)) i = Some p" "po_status p = PENDING" by blast
  define q where "q = p\<lparr>po_status := REJECTED, po_note := Some rem\<rparr>"
  have pid: "po_id p = i" using inv p by (simp add: su_inv_def ledger_ok_def)
  have q: "po_id q = i" by (simp add: q_def pid)
  have up: "fst (ledger_update q (su_ledger s)) = Inr ()"
      "lg_proposals (snd (ledger_update q (su_ledger s))) = dset i q (lg_proposals (su_ledger s))"
      "lg_file (snd (ledger_update q (su_ledger s))) = Some (map serialize (dvals (lg_proposals (snd (ledger_update q (su_ledger s))))))"
    using ledger_update_known [of "su_ledger s" q p] p q by simp_all
  have ok: "ledger_ok (snd (ledger_update q (su_ledger s)))"
    using ledger_ok_dset [of "su_ledger s" "snd (ledger_update q (su_ledger s))" q] up q inv by (simp add: su_inv_def)
  have "res = Inr q" "s' = s\<lparr>su_ledger := snd (ledger_update q (su_ledger s))\<rparr>"
    using re p up(1) unfolding reject_proposal_def mem_get_def q_def
    by (auto simp: Let_def split: prod.splits sum.splits)
  then show ?thesis using p pid up(2) ok by (intro rejected [of p "snd (ledger_update q (su_ledger s))"]) (simp_all add: q_def)
qed

section \<open>The machine\<close>

datatype su_op =
    Pursue_Goal mind_env executor build_env cap_env "goal \<Rightarrow> raised + draft" string goal
  | Approve cap_env string "string option"
  | Reject string string
  | Restart

fun su_step :: "supervisor \<Rightarrow> su_op \<Rightarrow> supervisor" where
  "su_step s (Pursue_Goal v ex benv cenv design i g) = snd (pursue_goal v ex benv cenv design i g s)"
| "su_step s (Approve env i rem) = snd (approve_proposal env i rem s)"
| "su_step s (Reject i rem) = snd (reject_proposal i rem s)"
| "su_step s Restart = (case restart_supervisor s of None \<Rightarrow> s | Some t \<Rightarrow> t)"

text \<open>
  \<open>su_le\<close>: proposals stay, with their draft and goal, and a decided one is not changed again.
  \<open>su_bound\<close>: how the handler table changed.
\<close>

definition su_le :: "supervisor \<Rightarrow> supervisor \<Rightarrow> bool" where
  "su_le s t \<longleftrightarrow> su_policy t = su_policy s \<and>
     (\<forall>i p. dget (lg_proposals (su_ledger s)) i = Some p \<longrightarrow>
        (\<exists>q. dget (lg_proposals (su_ledger t)) i = Some q \<and> po_draft q = po_draft p \<and> po_goal q = po_goal p \<and>
           (po_status p \<noteq> PENDING \<longrightarrow> q = p)))"

definition su_bound :: "(proposal \<Rightarrow> bool) \<Rightarrow> supervisor \<Rightarrow> supervisor \<Rightarrow> bool" where
  "su_bound P s t \<longleftrightarrow> fa_handlers (su_factory t) = fa_handlers (su_factory s) \<or>
     (\<exists>q c src. P q \<and> dget (lg_proposals (su_ledger t)) (po_id q) = Some q \<and> po_status q = APPROVED \<and>
        (\<forall>p. dget (lg_proposals (su_ledger s)) (po_id q) = Some p \<longrightarrow> po_status p = PENDING) \<and>
        dget (bd_files (fa_builder (su_factory t))) (the (po_file q)) = Some src \<and>
        fa_handlers (su_factory t) =
          dset c \<lparr>bt_source = src, bt_capability = sp_capability (dr_spec (po_draft q))\<rparr> (fa_handlers (su_factory s)))"

lemma su_le_refl: "su_le s s"
  by (simp add: su_le_def)

lemma su_le_trans: "su_le s t \<Longrightarrow> su_le t u \<Longrightarrow> su_le s u"
  unfolding su_le_def by (metis (no_types, lifting))

lemma builds_for_same: "su_builds s' = su_builds s \<Longrightarrow> builds_for g s' = builds_for g s"
  by (simp add: builds_for_def)

lemma artifacts_dset:
  fixes A :: "(string, build_result) dict" and m :: proposals
  assumes "\<forall>i br. dget A i = Some br \<longrightarrow> br_approved br \<and>
      (\<exists>p. dget m i = Some p \<and> br_spec br = dr_spec (po_draft p) \<and> br_path br = po_file p)"
    and "dget m j = Some p" "po_draft q = po_draft p" "po_file q = po_file p"
  shows "\<forall>i br. dget A i = Some br \<longrightarrow> br_approved br \<and>
      (\<exists>p. dget (dset j q m) i = Some p \<and> br_spec br = dr_spec (po_draft p) \<and> br_path br = po_file p)"
proof (intro allI impI)
  fix i and br :: build_result
  assume "dget A i = Some br"
  with assms(1) have a: "br_approved br" "\<exists>p. dget m i = Some p \<and> br_spec br = dr_spec (po_draft p) \<and> br_path br = po_file p"
    by blast+
  then show "br_approved br \<and> (\<exists>p. dget (dset j q m) i = Some p \<and> br_spec br = dr_spec (po_draft p) \<and> br_path br = po_file p)"
    using assms(2-4) by (auto simp: dict_simps)
qed

text \<open>A decision: one proposal that was pending gets a final status.\<close>

lemma decided_keeps:
  assumes inv: "su_inv s" and p: "dget (lg_proposals (su_ledger s)) i = Some p" "po_status p = PENDING"
    and q: "po_draft q = po_draft p" "po_goal q = po_goal p" "po_file q = po_file p"
    and s': "lg_proposals (su_ledger s') = dset i q (lg_proposals (su_ledger s))" "ledger_ok (su_ledger s')"
      "su_artifacts s' = su_artifacts s" "su_builds s' = su_builds s" "su_policy s' = su_policy s"
  shows "su_inv s' \<and> su_le s s' \<and> proposals_for g s' = proposals_for g s"
proof -
  have "\<forall>i br. dget (su_artifacts s') i = Some br \<longrightarrow> br_approved br \<and>
      (\<exists>p. dget (lg_proposals (su_ledger s')) i = Some p \<and> br_spec br = dr_spec (po_draft p) \<and> br_path br = po_file p)"
    unfolding s'(1,3) by (rule artifacts_dset [OF _ p(1) q(1,3)]) (use inv in \<open>simp add: su_inv_def\<close>)
  then have "su_inv s'" using inv s'(2,4,5) by (simp add: su_inv_def builds_for_def)
  moreover have "su_le s s'" using p q s'(1,5) by (auto simp: su_le_def dict_simps)
  moreover have "proposals_for g s' = proposals_for g s"
    unfolding proposals_for_def s'(1) by (rule count_dset_same [OF p(1)]) (simp add: q)
  ultimately show ?thesis by blast
qed

lemma su_approve_step:
  assumes inv: "su_inv s" and ap: "approve_proposal env i rem s = (res, s')"
  shows "su_inv s' \<and> su_le s s' \<and> proposals_for g s' = proposals_for g s \<and> builds_for g s' = builds_for g s \<and>
     su_bound (\<lambda>q. po_id q = i) s s' \<and>
     (fa_handlers (su_factory s') \<noteq> fa_handlers (su_factory s) \<longrightarrow> (\<exists>p. dget (lg_proposals (su_ledger s)) i = Some p))"
  using inv ap
proof (cases rule: su_approve_cases)
  case (refused e)
  have "su_inv s'" using inv refused by (simp add: su_inv_def builds_for_def)
  then show ?thesis using refused by (auto simp: su_le_def proposals_for_def builds_for_def su_bound_def)
next
  case (approved p br d src q)
  have q: "po_draft q = po_draft p" "po_goal q = po_goal p" "po_file q = po_file p" "po_id q = i" "po_status q = APPROVED"
    using approved(8,9) by (metis proposal.select_convs proposal.surjective proposal.update_convs)+
  have art: "br_spec br = dr_spec (po_draft p)" "br_path br = po_file p"
    using inv approved(1,3) unfolding su_inv_def by (metis option.inject)+
  have "su_bound (\<lambda>q. po_id q = i) s s'"
    unfolding su_bound_def
    by (rule disjI2, rule exI [of _ q], rule exI [of _ "cd_id d"], rule exI [of _ src])
      (use q art approved(1,2,4,6,10,12) in \<open>simp add: dict_simps\<close>)
  then show ?thesis
    using decided_keeps [OF inv approved(1,2) q(1-3) approved(10,11,13-15)] builds_for_same [OF approved(14)] approved(1) by blast
qed

lemma su_reject_step:
  assumes inv: "su_inv s" and re: "reject_proposal i rem s = (res, s')"
  shows "su_inv s' \<and> su_le s s' \<and> proposals_for g s' = proposals_for g s \<and> builds_for g s' = builds_for g s \<and>
     su_factory s' = su_factory s"
  using inv re
proof (cases rule: su_reject_cases)
  case (refused e)
  then show ?thesis using inv by (simp add: su_le_refl)
next
  case (rejected p l)
  then have "su_inv s' \<and> su_le s s' \<and> proposals_for g s' = proposals_for g s"
    by (intro decided_keeps [OF inv rejected(1,2), of "p\<lparr>po_status := REJECTED, po_note := Some rem\<rparr>"]) simp_all
  then show ?thesis using rejected by (simp add: builds_for_def)
qed

lemma su_restart_step:
  assumes "su_inv s"
  shows "restart_supervisor s = Some (s\<lparr>su_builds := [], su_artifacts := []\<rparr>)"
proof -
  have "ledger_load (lg_file (su_ledger s)) (lg_audit (su_ledger s)) = Some (su_ledger s)"
    using assms by (intro load_saved_ledger) (simp add: su_inv_def)
  then show ?thesis by (simp add: restart_supervisor_def)
qed

definition su_keeps :: "(proposal \<Rightarrow> bool) \<Rightarrow> supervisor \<Rightarrow> supervisor \<Rightarrow> bool" where
  "su_keeps P s t \<longleftrightarrow> su_inv t \<and> su_le s t \<and> su_bound P s t \<and>
     (\<forall>g. int (proposals_for g t) - builds_for g t \<le> int (proposals_for g s) - builds_for g s)"

text \<open>The part of a gap that records: builds counted, files written, ledger and artifacts extended.\<close>

lemma recorded_keeps:
  assumes inv: "su_inv s" and room: "builds_for (gl_id g) s < py_max (su_policy s)"
    and s1: "su_builds s1 = dset (gl_id g) (builds_for (gl_id g) s + 1) (su_builds s)" "su_policy s1 = su_policy s"
      "fa_handlers (su_factory s1) = fa_handlers (su_factory s)"
    and l: "su_ledger s1 = su_ledger s \<and> su_artifacts s1 = su_artifacts s \<or>
      (\<exists>p br. po_goal p = gl_id g \<and> dget (lg_proposals (su_ledger s)) (po_id p) = None \<and>
         lg_proposals (su_ledger s1) = dset (po_id p) p (lg_proposals (su_ledger s)) \<and> ledger_ok (su_ledger s1) \<and>
         su_artifacts s1 = (if br_approved br then dset (po_id p) br (su_artifacts s) else su_artifacts s) \<and>
         br_path br = po_file p \<and> (br_approved br \<longrightarrow> br_spec br = dr_spec (po_draft p)))"
  shows "su_keeps P s s1"
proof -
  have b: "builds_for h s1 = (if h = gl_id g then builds_for h s + 1 else builds_for h s)" for h
    using s1(1) by (simp add: builds_for_def dict_simps)
  have bb: "\<forall>h. 0 \<le> builds_for h s1 \<and> builds_for h s1 \<le> max 0 (py_max (su_policy s1))"
    using inv room s1(2) by (auto simp: b su_inv_def)
  have hb: "su_bound P s s1" using s1(3) by (simp add: su_bound_def)
  from l show ?thesis
  proof
    assume "su_ledger s1 = su_ledger s \<and> su_artifacts s1 = su_artifacts s"
    then show ?thesis using inv bb b s1(2) hb
      by (auto simp: su_keeps_def su_inv_def su_le_def proposals_for_def)
  next
    assume "\<exists>p br. po_goal p = gl_id g \<and> dget (lg_proposals (su_ledger s)) (po_id p) = None \<and>
         lg_proposals (su_ledger s1) = dset (po_id p) p (lg_proposals (su_ledger s)) \<and> ledger_ok (su_ledger s1) \<and>
         su_artifacts s1 = (if br_approved br then dset (po_id p) br (su_artifacts s) else su_artifacts s) \<and>
         br_path br = po_file p \<and> (br_approved br \<longrightarrow> br_spec br = dr_spec (po_draft p))"
    then obtain p :: proposal and br :: build_result where p: "po_goal p = gl_id g" "dget (lg_proposals (su_ledger s)) (po_id p) = None"
        "lg_proposals (su_ledger s1) = dset (po_id p) p (lg_proposals (su_ledger s))" "ledger_ok (su_ledger s1)"
        "su_artifacts s1 = (if br_approved br then dset (po_id p) br (su_artifacts s) else su_artifacts s)"
        "br_path br = po_file p" "br_approved br \<longrightarrow> br_spec br = dr_spec (po_draft p)"
      by blast
    have "su_le s s1" using p(2,3) s1(2) by (auto simp: su_le_def dict_simps)
    moreover have "br_approved x \<and> (\<exists>q. dget (lg_proposals (su_ledger s1)) i = Some q \<and> br_spec x = dr_spec (po_draft q) \<and> br_path x = po_file q)"
      if a: "dget (su_artifacts s1) i = Some x" for i and x :: build_result
    proof (cases "i = po_id p \<and> br_approved br")
      case True
      then have "x = br" using a p(5) by (simp add: dict_simps)
      then show ?thesis using True p(3,6,7) by (simp add: dict_simps)
    next
      case False
      then have "dget (su_artifacts s) i = Some x" using a p(5) by (auto simp: dict_simps split: if_splits)
      then have x: "br_approved x" "\<exists>q. dget (lg_proposals (su_ledger s)) i = Some q \<and> br_spec x = dr_spec (po_draft q) \<and> br_path x = po_file q"
        using inv unfolding su_inv_def by blast+
      then show ?thesis using p(2,3) by (auto simp: dict_simps)
    qed
    moreover have "proposals_for h s1 = proposals_for h s + (if h = gl_id g then 1 else 0)" for h
      unfolding proposals_for_def p(3) count_dset_new [OF p(2)] using p(1) by simp
    ultimately show ?thesis using hb bb p(4) b by (auto simp: su_keeps_def su_inv_def)
  qed
qed

lemma settle_keeps:
  assumes inv: "su_inv s" and se: "settle_proposal cenv p br s = (res, s')"
  shows "su_keeps (\<lambda>q. po_id q = po_id p \<and> may_auto_promote (su_policy s) (dr_risk (po_draft p))) s s'"
proof (cases "br_approved br \<and> may_auto_promote (su_policy s) (dr_risk (po_draft p))")
  case True
  obtain r t where ap: "approve_proposal cenv (po_id p) (Some ''auto-promoted under low-risk policy'') s = (r, t)"
    by (cases "approve_proposal cenv (po_id p) (Some ''auto-promoted under low-risk policy'') s")
  then have "s' = t" using se True by (auto simp: settle_proposal_def split: sum.splits)
  then show ?thesis using su_approve_step [OF inv ap] True by (simp add: su_keeps_def su_bound_def)
next
  case False
  then show ?thesis using se inv by (auto simp: settle_proposal_def su_keeps_def su_le_refl su_bound_def)
qed

text \<open>Binding after a recording step that left the handlers alone.\<close>

lemma su_keeps_then:
  assumes 1: "su_keeps (\<lambda>_. False) s t" and 2: "su_keeps P t u"
    and P: "\<And>q. P q \<Longrightarrow> dget (lg_proposals (su_ledger u)) (po_id q) = Some q \<Longrightarrow> Q q"
    and new: "\<And>q. P q \<Longrightarrow> dget (lg_proposals (su_ledger s)) (po_id q) = None"
  shows "su_keeps Q s u"
proof -
  have h: "fa_handlers (su_factory t) = fa_handlers (su_factory s)" using 1 by (simp add: su_keeps_def su_bound_def)
  have "su_bound Q s u"
  proof (cases "fa_handlers (su_factory u) = fa_handlers (su_factory t)")
    case False
    then obtain q c src where q: "P q" "dget (lg_proposals (su_ledger u)) (po_id q) = Some q" "po_status q = APPROVED"
        "dget (bd_files (fa_builder (su_factory u))) (the (po_file q)) = Some src"
        "fa_handlers (su_factory u) =
          dset c \<lparr>bt_source = src, bt_capability = sp_capability (dr_spec (po_draft q))\<rparr> (fa_handlers (su_factory s))"
      using 2 h unfolding su_keeps_def su_bound_def by auto
    show ?thesis unfolding su_bound_def
      by (rule disjI2, rule exI [of _ q], rule exI [of _ c], rule exI [of _ src])
        (use q new [OF q(1)] P [OF q(1,2)] in simp)
  qed (simp add: su_bound_def h)
  moreover have "su_le s u" using 1 2 su_le_trans by (auto simp: su_keeps_def)
  moreover have "int (proposals_for g u) - builds_for g u \<le> int (proposals_for g s) - builds_for g s" for g
    using 1 2 unfolding su_keeps_def by (meson order_trans)
  ultimately show ?thesis using 2 by (simp add: su_keeps_def)
qed

definition auto_bound :: "goal \<Rightarrow> supervisor \<Rightarrow> proposal \<Rightarrow> bool" where
  "auto_bound g s q \<longleftrightarrow> py_auto (su_policy s) \<and> dr_risk (po_draft q) = Low \<and> po_goal q = gl_id g"

lemma gap_keeps:
  assumes inv: "su_inv s" and gap: "handle_capability_gap benv cenv design i g s = (res, s')"
  shows "su_keeps (auto_bound g s) s s'"
proof (cases "\<not> py_design (su_policy s) \<or> builds_for (gl_id g) s \<ge> py_max (su_policy s)")
  case True
  then have "s' = s" using gap by (auto simp: handle_capability_gap_def builds_for_def split: if_splits)
  then show ?thesis using inv by (simp add: su_keeps_def su_le_refl su_bound_def)
next
  case False
  define s1 where "s1 = s\<lparr>su_builds := dset (gl_id g) (builds_for (gl_id g) s + 1) (su_builds s)\<rparr>"
  have room: "builds_for (gl_id g) s < py_max (su_policy s)" using False by simp
  have eq: "handle_capability_gap benv cenv design i g s =
      (case design g of
           Inl e \<Rightarrow> (Inl e, s1)
         | Inr dr \<Rightarrow>
             (let (br, b) = build benv (dr_spec dr) (fa_builder (su_factory s1));
                  p = new_proposal i g dr br;
                  s2 = s1\<lparr>su_factory := (su_factory s1)\<lparr>fa_builder := b\<rparr>\<rparr>
              in case ledger_record p (su_ledger s2) of
                   (Inl e, l) \<Rightarrow> (Inl e, s2\<lparr>su_ledger := l\<rparr>)
                 | (Inr _, l) \<Rightarrow>
                     (let s3 = s2\<lparr>su_ledger := l,
                                  su_artifacts := (if br_approved br then dset i br (su_artifacts s2) else su_artifacts s2)\<rparr>
                      in settle_proposal cenv p br s3)))"
    using False unfolding handle_capability_gap_def Let_def builds_for_def [symmetric] s1_def by simp
  show ?thesis
  proof (cases "design g")
    case (Inl e)
    then have "s' = s1" using gap eq by simp
    then show ?thesis using recorded_keeps [OF inv room, of s1] by (simp add: s1_def)
  next
    case (Inr dr)
    obtain br b where bu: "build benv (dr_spec dr) (fa_builder (su_factory s1)) = (br, b)"
      by (cases "build benv (dr_spec dr) (fa_builder (su_factory s1))")
    define p where "p = new_proposal i g dr br"
    define s2 where "s2 = s1\<lparr>su_factory := (su_factory s1)\<lparr>fa_builder := b\<rparr>\<rparr>"
    obtain r l where lr: "ledger_record p (su_ledger s2) = (r, l)" by (cases "ledger_record p (su_ledger s2)")
    have pp: "po_id p = i" "po_goal p = gl_id g" "po_draft p = dr" "po_file p = br_path br"
      by (simp_all add: p_def new_proposal_def)
    have s2: "su_ledger s2 = su_ledger s" "su_artifacts s2 = su_artifacts s" "su_policy s2 = su_policy s"
        "fa_handlers (su_factory s2) = fa_handlers (su_factory s)"
        "su_builds s2 = dset (gl_id g) (builds_for (gl_id g) s + 1) (su_builds s)"
      by (simp_all add: s2_def s1_def)
    from lr show ?thesis
    proof (cases rule: ledger_record_cases)
      case (refused e)
      then have "s' = s2\<lparr>su_ledger := su_ledger s2\<rparr>" using gap eq Inr bu lr by (simp add: s2_def p_def)
      then show ?thesis using recorded_keeps [OF inv room, of s'] s2 by simp
    next
      case recorded
      define s3 where "s3 = s2\<lparr>su_ledger := l,
          su_artifacts := (if br_approved br then dset i br (su_artifacts s2) else su_artifacts s2)\<rparr>"
      have se: "settle_proposal cenv p br s3 = (res, s')"
        using gap eq Inr bu lr recorded(1) by (cases "br_approved br") (simp_all add: s2_def p_def s3_def Let_def)
      have "br_approved br \<longrightarrow> br_spec br = dr_spec dr" using bu by (cases rule: build_cases) auto
      moreover have "ledger_ok l"
        using ledger_ok_dset [of "su_ledger s" l p] recorded s2 inv by (simp add: su_inv_def)
      ultimately have k: "su_keeps (\<lambda>_. False) s s3"
        using recorded s2 pp
        by (intro recorded_keeps [OF inv room] disjI2 exI [of _ p] exI [of _ br]) (simp_all add: s3_def)
      then have inv3: "su_inv s3" "su_policy s3 = su_policy s" by (simp_all add: su_keeps_def su_le_def)
      have d: "dget (lg_proposals (su_ledger s3)) i = Some p" using recorded(3) pp by (simp add: s3_def dict_simps)
      note k2 = settle_keeps [OF inv3(1) se]
      show ?thesis
      proof (rule su_keeps_then [OF k k2])
        fix q :: proposal
        assume q: "po_id q = po_id p \<and> may_auto_promote (su_policy s3) (dr_risk (po_draft p))"
        show "dget (lg_proposals (su_ledger s)) (po_id q) = None" using q recorded(2) s2 by simp
        assume "dget (lg_proposals (su_ledger s')) (po_id q) = Some q"
        moreover have "su_le s3 s'" using k2 by (simp add: su_keeps_def)
        then obtain q' :: proposal where "dget (lg_proposals (su_ledger s')) i = Some q'" "po_draft q' = po_draft p" "po_goal q' = po_goal p"
          using d unfolding su_le_def by blast
        ultimately have "po_draft q = dr \<and> po_goal q = gl_id g" using q pp by auto
        then show "auto_bound g s q" using q inv3(2) pp by (simp add: auto_bound_def may_auto_promote_def)
      qed
    qed
  qed
qed

lemma after_engine_keeps:
  "su_inv (after_engine m s) = su_inv s" "su_le (after_engine m s) t = su_le s t"
  "su_bound P (after_engine m s) t = su_bound P s t" "proposals_for h (after_engine m s) = proposals_for h s"
  "builds_for h (after_engine m s) = builds_for h s" "auto_bound g (after_engine m s) = auto_bound g s"
  by (simp_all add: after_engine_def su_inv_def su_le_def su_bound_def proposals_for_def builds_for_def auto_bound_def fun_eq_iff)

lemma pursue_keeps:
  assumes inv: "su_inv s" and pu: "pursue_goal v ex benv cenv design i g s = (res, s')"
  shows "su_keeps (auto_bound g s) s s'"
proof -
  obtain out m where run: "run_goal v ex g (engine_view s) = (out, m)" by (cases "run_goal v ex g (engine_view s)")
  have inv2: "su_inv (after_engine m s)" using inv by (simp add: after_engine_keeps)
  have idle: "su_keeps (auto_bound g s) s (after_engine m s)"
    using inv by (simp add: su_keeps_def after_engine_keeps su_le_def su_bound_def) (simp add: after_engine_def)
  show ?thesis
  proof (cases "\<exists>x. out = Inl (NoCapabilityFound x)")
    case True
    obtain r t where gap: "handle_capability_gap benv cenv design i g (after_engine m s) = (r, t)"
      by (cases "handle_capability_gap benv cenv design i g (after_engine m s)")
    have "s' = t" using pu run True gap by (auto simp: pursue_goal_def split: sum.splits)
    then show ?thesis using gap_keeps [OF inv2 gap] by (simp add: su_keeps_def after_engine_keeps)
  next
    case False
    then have "s' = after_engine m s" using pu run by (auto simp: pursue_goal_def split: sum.splits engine_error.splits)
    then show ?thesis using idle by simp
  qed
qed

text \<open>Every step, with the condition under which it may have bound a tool.\<close>

fun may_bind :: "supervisor \<Rightarrow> su_op \<Rightarrow> proposal \<Rightarrow> bool" where
  "may_bind s (Pursue_Goal v ex benv cenv design i g) q \<longleftrightarrow> auto_bound g s q"
| "may_bind s (Approve env i rem) q \<longleftrightarrow> po_id q = i"
| "may_bind s (Reject i rem) q \<longleftrightarrow> False"
| "may_bind s Restart q \<longleftrightarrow> False"

lemma su_step_spec:
  assumes inv: "su_inv s"
  shows "su_inv (su_step s x) \<and> su_le s (su_step s x) \<and> su_bound (may_bind s x) s (su_step s x) \<and>
     int (proposals_for g (su_step s x)) - builds_for g (su_step s x) \<le>
       int (proposals_for g s) - builds_for g s + (if x = Restart then max 0 (py_max (su_policy s)) else 0)"
proof (cases x)
  case (Pursue_Goal v ex benv cenv design i h)
  obtain r t where pu: "pursue_goal v ex benv cenv design i h s = (r, t)" by (cases "pursue_goal v ex benv cenv design i h s")
  have "may_bind s x = auto_bound h s" using Pursue_Goal by (simp add: fun_eq_iff)
  then show ?thesis using pursue_keeps [OF inv pu] Pursue_Goal pu by (simp add: su_keeps_def)
next
  case (Approve env i rem)
  obtain r t where ap: "approve_proposal env i rem s = (r, t)" by (cases "approve_proposal env i rem s")
  have "may_bind s x = (\<lambda>q. po_id q = i)" using Approve by (simp add: fun_eq_iff)
  then show ?thesis using su_approve_step [OF inv ap, of g] Approve ap by simp
next
  case (Reject i rem)
  obtain r t where re: "reject_proposal i rem s = (r, t)" by (cases "reject_proposal i rem s")
  then show ?thesis using su_reject_step [OF inv re, of g] Reject by (simp add: su_bound_def)
next
  case Restart
  then have s': "su_step s x = s\<lparr>su_builds := [], su_artifacts := []\<rparr>" by (simp add: su_restart_step [OF inv])
  have "builds_for g s \<le> max 0 (py_max (su_policy s))" using inv by (simp add: su_inv_def)
  then show ?thesis unfolding s' using inv Restart
    by (simp add: su_inv_def su_le_def su_bound_def proposals_for_def builds_for_def)
qed

definition proposal_status_of :: "supervisor \<Rightarrow> string \<Rightarrow> proposal_status option" where
  "proposal_status_of s i = map_option po_status (dget (lg_proposals (su_ledger s)) i)"

interpretation proposals: decision_store su_step "\<lambda>_ _. True" su_inv su_le proposal_status_of "\<lambda>x. x \<noteq> PENDING"
proof
  show "su_inv (su_step s x)" "su_le s (su_step s x)" if "su_inv s" for s x
    using su_step_spec [OF that] by blast+
  show "proposal_status_of t i = Some x" if "su_le s t" "proposal_status_of s i = Some x" "x \<noteq> PENDING" for s t i x
    using that unfolding su_le_def proposal_status_of_def by fastforce
qed (use su_le_refl su_le_trans in blast)+

text \<open>A supervisor that has just been set up over an empty ledger.\<close>

definition fresh_supervisor :: "supervisor \<Rightarrow> bool" where
  "fresh_supervisor s \<longleftrightarrow> su_ledger s = \<lparr>lg_proposals = [], lg_file = None, lg_audit = []\<rparr> \<and> su_builds s = [] \<and> su_artifacts s = []"

lemma fresh_supervisor_inv: "fresh_supervisor s \<Longrightarrow> su_inv s"
  by (simp add: fresh_supervisor_def su_inv_def ledger_ok_def builds_for_def)

lemma run_su_inv: "fresh_supervisor s \<Longrightarrow> su_inv (run su_step s ops)"
  using proposals.run_inv [OF fresh_supervisor_inv, of s ops] by simp

lemma proposals_bounded:
  "su_inv s \<Longrightarrow> int (proposals_for g (run su_step s ops)) - builds_for g (run su_step s ops) \<le>
     int (proposals_for g s) - builds_for g s + int (length (filter (\<lambda>x. x = Restart) ops)) * max 0 (py_max (su_policy s))"
proof (induction ops arbitrary: s)
  case (Cons x ops)
  note spec = su_step_spec [OF Cons.prems, of x g]
  then have p: "su_policy (su_step s x) = su_policy s" by (simp add: su_le_def)
  then show ?case using Cons.IH [of "su_step s x"] spec by (auto simp: distrib_right)
qed simp

lemma run_policy: "su_inv s \<Longrightarrow> su_policy (run su_step s ops) = su_policy s"
  using proposals.run_progress [of s ops] by (simp add: su_le_def)

section \<open>Properties\<close>

text \<open>
  C20: a tool becomes executable only by a decision: after any pursuits, decisions and restarts,
  a further step changes the handler table only if it approves a proposal that was not decided
  before, either as an explicit approval of that proposal or because the policy promotes low-risk
  drafts automatically and the draft is of low risk; it then binds, under one identifier, the
  source in the file the proposal names, for the capability the proposal describes.
\<close>

theorem autonomy_binds_only_decided:
  fixes ops :: "su_op list" and x :: su_op
  assumes "fresh_supervisor s0"
  defines "s \<equiv> run su_step s0 ops" and "t \<equiv> run su_step s0 (ops @ [x])"
  assumes "fa_handlers (su_factory t) \<noteq> fa_handlers (su_factory s)"
  shows "\<exists>q c src. dget (lg_proposals (su_ledger t)) (po_id q) = Some q \<and> po_status q = APPROVED \<and>
     (\<forall>p. dget (lg_proposals (su_ledger s)) (po_id q) = Some p \<longrightarrow> po_status p = PENDING) \<and>
     ((\<exists>env rem. x = Approve env (po_id q) rem) \<or>
      (\<exists>v ex benv cenv design i g. x = Pursue_Goal v ex benv cenv design i g \<and> py_auto (su_policy s0) \<and>
         dr_risk (po_draft q) = Low \<and> po_goal q = gl_id g)) \<and>
     dget (bd_files (fa_builder (su_factory t))) (the (po_file q)) = Some src \<and>
     fa_handlers (su_factory t) =
       dset c \<lparr>bt_source = src, bt_capability = sp_capability (dr_spec (po_draft q))\<rparr> (fa_handlers (su_factory s))"
proof -
  have t: "t = su_step s x" by (simp add: s_def t_def run_append)
  have inv: "su_inv s" unfolding s_def by (rule run_su_inv [OF assms(1)])
  have pol: "su_policy s = su_policy s0" unfolding s_def by (rule run_policy [OF fresh_supervisor_inv [OF assms(1)]])
  have "su_bound (may_bind s x) s t" using su_step_spec [OF inv, of x] t by simp
  then obtain q c src where q: "may_bind s x q" "dget (lg_proposals (su_ledger t)) (po_id q) = Some q" "po_status q = APPROVED"
      "\<forall>p. dget (lg_proposals (su_ledger s)) (po_id q) = Some p \<longrightarrow> po_status p = PENDING"
      "dget (bd_files (fa_builder (su_factory t))) (the (po_file q)) = Some src"
      "fa_handlers (su_factory t) =
         dset c \<lparr>bt_source = src, bt_capability = sp_capability (dr_spec (po_draft q))\<rparr> (fa_handlers (su_factory s))"
    using assms(4) unfolding su_bound_def by blast
  have "(\<exists>env rem. x = Approve env (po_id q) rem) \<or>
      (\<exists>v ex benv cenv design i g. x = Pursue_Goal v ex benv cenv design i g \<and> py_auto (su_policy s0) \<and>
         dr_risk (po_draft q) = Low \<and> po_goal q = gl_id g)"
    using q(1) pol by (cases x) (auto simp: auto_bound_def)
  then show ?thesis using q by blast
qed

text \<open>
  The number of proposals for one goal is bounded by the policy: after any pursuits,
  decisions and restarts the ledger holds at most \<open>max_agent_builds_per_goal\<close> proposals for it
  per process, that is, per restart and one more.
\<close>

theorem proposals_per_goal_bounded:
  assumes "fresh_supervisor s"
  shows "int (length (filter (\<lambda>p. po_goal p = g) (dvals (lg_proposals (su_ledger (run su_step s ops)))))) \<le>
     (1 + int (length (filter (\<lambda>x. x = Restart) ops))) * max 0 (py_max (su_policy s))"
proof -
  have inv: "su_inv s" "su_inv (run su_step s ops)" using fresh_supervisor_inv run_su_inv assms by blast+
  have "builds_for g (run su_step s ops) \<le> max 0 (py_max (su_policy s))"
    using inv run_policy [OF inv(1)] unfolding su_inv_def by metis
  moreover have "int (proposals_for g s) - builds_for g s = 0"
    using assms by (simp add: fresh_supervisor_def proposals_for_def builds_for_def)
  ultimately show ?thesis
    using proposals_bounded [OF inv(1), of g ops] unfolding proposals_for_def by (simp add: distrib_right)
qed

text \<open>
  A restart keeps the ledger and loses the artifacts: after any pursuits, decisions and
  restarts the file gives back every proposal as it was, but none of the pending ones can be
  approved any more, every attempt raises \<open>ValueError\<close> and changes nothing.
\<close>

theorem restart_strands_pending:
  fixes ops :: "su_op list"
  assumes "fresh_supervisor s0"
  defines "s \<equiv> run su_step s0 ops"
  shows "\<exists>t. restart_supervisor s = Some t \<and> lg_proposals (su_ledger t) = lg_proposals (su_ledger s) \<and>
     (\<forall>i p env rem. dget (lg_proposals (su_ledger t)) i = Some p \<and> po_status p = PENDING \<longrightarrow>
        approve_proposal env i rem t = (Inl (''ValueError'', ''approved build artifact is required for activation''), t))"
  using su_restart_step [OF run_su_inv [OF assms(1), of ops]]
  by (simp add: s_def approve_proposal_def mem_get_def)

definition demo_draft :: draft where
  "demo_draft = \<lparr>dr_spec = demo_spec ''first'', dr_tags = [''text''], dr_risk = High, dr_cost = 2, dr_input = [], dr_output = []\<rparr>"

definition demo_supervisor :: supervisor where
  "demo_supervisor = \<lparr>su_mind = demo_mind,
     su_factory = \<lparr>fa_builder = \<lparr>bd_dir = ''gen'', bd_files = []\<rparr>,
       fa_layer = \<lparr>cl_registry = empty_registry, cl_audit = [], cl_actor = demo_actor\<rparr>, fa_handlers = [],
       fa_component = ''capability_evolution'', fa_risk = Low, fa_events = []\<rparr>,
     su_ledger = \<lparr>lg_proposals = [], lg_file = None, lg_audit = []\<rparr>,
     su_policy = \<lparr>py_design = True, py_auto = False, py_max = 1\<rparr>, su_builds = [], su_artifacts = []\<rparr>"

definition demo_pursuit :: su_op where
  "demo_pursuit = Pursue_Goal (demo_ids CHR ''x'') demo_executor demo_env demo_cap_env (\<lambda>_. Inr demo_draft) ''p1'' demo_goal"

definition demo_approval :: su_op where
  "demo_approval = Approve demo_cap_env ''p1'' None"

lemma demo_supervisor_fresh: "fresh_supervisor demo_supervisor"
  by (simp add: fresh_supervisor_def demo_supervisor_def)

theorem autonomy_binds_only_decided_witness:
  "\<exists>q. dget (lg_proposals (su_ledger (run su_step demo_supervisor [demo_pursuit, demo_approval]))) ''p1'' = Some q \<and>
     po_status q = APPROVED"
proof -
  have h: "fa_handlers (su_factory (run su_step demo_supervisor ([demo_pursuit] @ [demo_approval]))) \<noteq>
      fa_handlers (su_factory (run su_step demo_supervisor [demo_pursuit]))" by code_simp
  from autonomy_binds_only_decided [OF demo_supervisor_fresh h] show ?thesis
    unfolding demo_approval_def demo_pursuit_def by auto
qed

theorem proposals_per_goal_bounded_witness:
  "length (filter (\<lambda>p. po_goal p = ''g'') (dvals (lg_proposals (su_ledger (run su_step demo_supervisor [demo_pursuit, demo_pursuit]))))) \<le> 1"
  using proposals_per_goal_bounded [OF demo_supervisor_fresh, of "''g''" "[demo_pursuit, demo_pursuit]"]
  by (simp add: demo_pursuit_def demo_supervisor_def del: run.simps)

theorem restart_strands_pending_witness:
  "\<exists>t. restart_supervisor (run su_step demo_supervisor [demo_pursuit]) = Some t \<and>
     fst (approve_proposal demo_cap_env ''p1'' None t) = Inl (''ValueError'', ''approved build artifact is required for activation'')"
proof -
  have "map_option po_status (dget (lg_proposals (su_ledger (run su_step demo_supervisor [demo_pursuit]))) ''p1'') = Some PENDING"
    by code_simp
  then obtain p where "dget (lg_proposals (su_ledger (run su_step demo_supervisor [demo_pursuit]))) ''p1'' = Some p" "po_status p = PENDING"
    by auto
  then show ?thesis using restart_strands_pending [OF demo_supervisor_fresh, of "[demo_pursuit]"] by fastforce
qed

text \<open>What the binder publishes.\<close>

lemma bind_tool_published:
  assumes "bind_tool env br f = (Inr d, f')"
  shows "cd_risk d = fa_risk f \<and> cd_cost d = 0 \<and> cd_tags d = [''self-built'', ''spec:'' @ sp_name (br_spec br)] \<and>
     cd_name d = sp_capability (br_spec br) \<and>
     dget (cr_latest (cl_registry (fa_layer f'))) (fa_component f, sp_capability (br_spec br)) = Some (cd_id d) \<and>
     dget (cr_by_id (cl_registry (fa_layer f'))) (cd_id d) = Some d"
proof -
  obtain src where src: "load_tool_instance br (fa_builder f) = Inr src" "br_approved br"
    using assms by (auto simp: bind_tool_def split: if_splits sum.splits)
  define pb where "pb = \<lparr>pb_component = fa_component f, pb_name = sp_capability (br_spec br), pb_description = sp_description (br_spec br),
      pb_input = PDict [(''input'', PStr ''any - raw value passed directly to GeneratedTool.run'')],
      pb_output = PDict [], pb_cost = 0, pb_risk = fa_risk f,
      pb_tags = [''self-built'', ''spec:'' @ sp_name (br_spec br)]\<rparr>"
  obtain r l where pu: "publish_capability env pb (fa_layer f) = (r, l)" by (cases "publish_capability env pb (fa_layer f)")
  have r: "r = Inr d" "fa_layer f' = l"
    using assms src pu unfolding bind_tool_def pb_def
    by (auto simp: Let_def fa_publish_def register_handler_def split: sum.splits)
  obtain r' g where re: "register pb (ce_id env) (ce_now env) (cl_registry (fa_layer f)) = (r', g)"
    by (cases "register pb (ce_id env) (ce_now env) (cl_registry (fa_layer f))")
  have r': "r' = Inr d" "cl_registry l = g" using pu re r(1) by (auto simp: publish_capability_def split: sum.splits)
  have d: "cd_risk d = pb_risk pb" "cd_cost d = pb_cost pb" "cd_tags d = pb_tags pb"
    using re r'(1) by (auto simp: register_def build_descriptor_def Let_def split: option.splits sum.splits if_splits)
  from re show ?thesis
    by (cases rule: register_cases) (use r r' d in \<open>auto simp: pb_def reg_save_def dict_simps\<close>)
qed

lemma those_set: "those (map f xs) = Some ys \<Longrightarrow> set ys = {y. \<exists>x\<in>set xs. f x = Some y}"
proof (induction xs arbitrary: ys)
  case (Cons x xs)
  then obtain z zs where "f x = Some z" "those (map f xs) = Some zs" "ys = z # zs" by (auto split: option.splits)
  then show ?case using Cons.IH [of zs] by auto
qed simp

text \<open>
  Promotion does not publish what the draft declares: the capability that an approval
  publishes has the risk level of the binder, no cost and two tags made by the binder, whatever
  risk, cost and tags the draft declares, and the engine takes it as a candidate for a goal that
  names it exactly when the goal asks for no tag beyond those two.
\<close>

theorem promotion_drops_declared_profile:
  fixes ops :: "su_op list" and env :: cap_env and i :: string and rem :: "string option"
  assumes "fresh_supervisor s0"
  defines "s \<equiv> run su_step s0 ops"
  assumes "dget (lg_proposals (su_ledger s)) i = Some p" "fst (approve_proposal env i rem s) = Inr q"
  defines "r \<equiv> cl_registry (fa_layer (su_factory (snd (approve_proposal env i rem s))))"
  shows "\<exists>d. dget (cr_by_id r) (cd_id d) = Some d \<and> cd_name d = sp_capability (dr_spec (po_draft p)) \<and> cd_risk d = fa_risk (su_factory s) \<and> cd_cost d = 0 \<and>
     cd_tags d = [''self-built'', ''spec:'' @ sp_name (dr_spec (po_draft p))] \<and>
     (\<forall>g cs. gl_capability g = Some (cd_name d) \<and> cd_name d \<noteq> [] \<and> analyze g r = Some cs \<longrightarrow>
        (d \<in> set cs \<longleftrightarrow> set (gl_tags g) \<subseteq> set (cd_tags d)))"
proof -
  have inv: "su_inv s" unfolding s_def by (rule run_su_inv [OF assms(1)])
  obtain t where ap: "approve_proposal env i rem s = (Inr q, t)" using assms(4) by (cases "approve_proposal env i rem s") auto
  from inv ap show ?thesis
  proof (cases rule: su_approve_cases)
    case (approved p' br d src q')
    have p: "p' = p" using approved(1) assms(3) by simp
    have spec: "br_spec br = dr_spec (po_draft p)"
      using inv approved(1,3) p unfolding su_inv_def by (metis option.inject)
    note pub = bind_tool_published [OF approved(5)]
    have r: "r = cl_registry (fa_layer (su_factory t))" by (simp add: r_def ap)
    have "d \<in> set cs \<longleftrightarrow> set (gl_tags g) \<subseteq> set (cd_tags d)"
      if g: "gl_capability g = Some (cd_name d)" "cd_name d \<noteq> []" "analyze g r = Some cs" for g cs
    proof -
      obtain ds where ds: "find_by_name (cd_name d) r = Some ds" "cs = filter (\<lambda>c. set (gl_tags g) \<subseteq> set (cd_tags c)) ds"
        using g by (auto simp: analyze_def)
      have "((fa_component (su_factory s), cd_name d), cd_id d) \<in> set (cr_latest r)"
        using pub spec r by (intro dget_in_set) simp
      then have "d \<in> set ds"
        using those_set [OF ds(1) [unfolded find_by_name_def]] pub r by force
      then show ?thesis using ds(2) by simp
    qed
    then show ?thesis using pub spec r by (intro exI [of _ d]) simp
  qed simp
qed

theorem promotion_drops_declared_profile_witness:
  "\<exists>d. dget (cr_by_id (cl_registry (fa_layer (su_factory (snd (approve_proposal demo_cap_env ''p1'' None
       (run su_step demo_supervisor [demo_pursuit]))))))) (cd_id d) = Some d \<and>
     cd_name d = ''text.upper'' \<and> cd_risk d = Low \<and> cd_cost d = 0 \<and> ''text'' \<notin> set (cd_tags d) \<and> dr_risk demo_draft = High \<and> dr_cost demo_draft = 2 \<and> ''text'' \<in> set (dr_tags demo_draft)"
proof -
  let ?s = "run su_step demo_supervisor [demo_pursuit]"
  have "map_option (\<lambda>p. (sp_name (dr_spec (po_draft p)), sp_capability (dr_spec (po_draft p))))
      (dget (lg_proposals (su_ledger ?s)) ''p1'') = Some (''upper'', ''text.upper'')" by code_simp
  then obtain p where p: "dget (lg_proposals (su_ledger ?s)) ''p1'' = Some p"
      "sp_name (dr_spec (po_draft p)) = ''upper''" "sp_capability (dr_spec (po_draft p)) = ''text.upper''" by auto
  have "\<not> isl (fst (approve_proposal demo_cap_env ''p1'' None ?s))" by code_simp
  then obtain q where q: "fst (approve_proposal demo_cap_env ''p1'' None ?s) = Inr q"
    by (cases "fst (approve_proposal demo_cap_env ''p1'' None ?s)") auto
  have risk: "fa_risk (su_factory ?s) = Low" by code_simp
  from promotion_drops_declared_profile [OF demo_supervisor_fresh p(1) q]
  obtain d :: descriptor where "dget (cr_by_id (cl_registry (fa_layer (su_factory (snd
        (approve_proposal demo_cap_env ''p1'' None ?s)))))) (cd_id d) = Some d"
      "cd_name d = ''text.upper''" "cd_risk d = Low" "cd_cost d = 0"
      "cd_tags d = [''self-built'', ''spec:'' @ ''upper'']"
    unfolding p(2,3) risk by blast
  then show ?thesis by (intro exI [of _ d]) (simp add: demo_draft_def del: run.simps)
qed




text \<open>The administrator's answer reaches the supervisor only through a pending approval of the chat.\<close>

interpretation autonomy_gate: gate_client au_telegram "\<lambda>g a. a\<lparr>au_telegram := g\<rparr>" au_callbacks
    "\<lambda>(c, i). au_say c (''Promotion of proposal '' @ i @ '' was cancelled.'')" au_super
  by unfold_locales (auto simp: au_say_def)

end
