(* ===== verification/Joining.thy ===== *)
theory Joining
  imports Approval
begin

text \<open>
  How a node comes to be trusted by a cluster: requests to join
  (\<open>infrastructure/cluster_network/join_requests.py\<close>), the HTTP endpoints that take them
  (\<open>bootstrap_server.py\<close>), the store of trusted peers (\<open>trust_store.py\<close>) and the commands of the
  administrators (\<open>application/cluster_telegram_commands.py\<close>) behind the approval gate.

  \<open>cn\<close> reads the common name of a certificate (or raises). The files are their parsed content;
  the file of requests is the list of records the store has written. Each call takes the reading
  of the clock, and where the code reads it twice, both readings. The pictographs of the
  messages are left out. The body of a request to join
  has texts in every field but the port.
\<close>

section \<open>Requests\<close>

record join_request =
  jr_id :: string
  jr_node :: string
  jr_host :: string
  jr_port :: int
  jr_cert :: string
  jr_key :: string
  jr_component_key :: string
  jr_component_created :: string
  jr_status :: string
  jr_created :: real

text \<open>A line of the audit file is the event, the request, the reason and the time.\<close>

record join_store =
  js_requests :: "(string, join_request) dict"
  js_durable :: bool
  js_file :: "join_request list option"
  js_age :: real
  js_logged :: bool
  js_log :: "(string \<times> join_request \<times> string \<times> real) list"

definition join_persist :: "join_store \<Rightarrow> join_store" where
  "join_persist st =
     (if js_durable st
      then st\<lparr>js_file := Some (filter (\<lambda>r. jr_status r = ''pending'') (dvals (js_requests st)))\<rparr> else st)"

definition join_audit :: "string \<Rightarrow> string \<Rightarrow> real \<Rightarrow> join_request \<Rightarrow> join_store \<Rightarrow> join_store" where
  "join_audit ev reason t r st = (if js_logged st then st\<lparr>js_log := js_log st @ [(ev, r, reason, t)]\<rparr> else st)"

definition overdue :: "real \<Rightarrow> join_store \<Rightarrow> join_request \<Rightarrow> bool" where
  "overdue t st r \<longleftrightarrow> jr_status r = ''pending'' \<and> t - jr_created r > js_age st"

definition expire_joins :: "real \<Rightarrow> join_store \<Rightarrow> join_store" where
  "expire_joins t st =
     (let change = (\<lambda>r. r\<lparr>jr_status := ''expired''\<rparr>);
          hit = map change (filter (overdue t st) (dvals (js_requests st)));
          st1 = st\<lparr>js_requests := dmap (\<lambda>r. if overdue t st r then change r else r) (js_requests st)\<rparr>;
          st2 = fold (join_audit ''expired'' ''join request TTL elapsed'' t) hit st1
      in if hit = [] then st2 else join_persist st2)"

fun load_joins :: "real \<Rightarrow> join_request list \<Rightarrow> join_store \<Rightarrow> join_store" where
  "load_joins t [] st = join_persist st"
| "load_joins t (r # rs) st =
     (if jr_status r = ''pending'' \<and> t - jr_created r \<le> js_age st
      then load_joins t rs (st\<lparr>js_requests := dset (jr_id r) r (js_requests st)\<rparr>)
      else if jr_status r = ''pending'' then
        (let r' = r\<lparr>jr_status := ''expired''\<rparr> in
         load_joins t rs (join_audit ''expired'' ''join request TTL elapsed during restart'' t r'
           (st\<lparr>js_requests := dset (jr_id r) r' (js_requests st)\<rparr>)))
      else load_joins t rs st)"

text \<open>The constructor, over the file and the log that are there.\<close>

definition open_joins ::
    "bool \<Rightarrow> bool \<Rightarrow> real \<Rightarrow> join_request list option \<Rightarrow> (string \<times> join_request \<times> string \<times> real) list \<Rightarrow> real
     \<Rightarrow> raised + join_store" where
  "open_joins durable logged age f lg t =
     (if age \<le> 0 then Inl (''ValueError'', ''max_age_seconds must be greater than zero'')
      else
        (let st = \<lparr>js_requests = [], js_durable = durable, js_file = f, js_age = age, js_logged = logged, js_log = lg\<rparr>
         in case f of None \<Rightarrow> Inr st | Some rs \<Rightarrow> Inr (if durable then load_joins t rs st else st)))"

definition create_join :: "join_request \<Rightarrow> real \<Rightarrow> join_store \<Rightarrow> join_store" where
  "create_join r t st = join_audit ''requested'' '''' t r (join_persist (st\<lparr>js_requests := dset (jr_id r) r (js_requests st)\<rparr>))"

definition get_join :: "real \<Rightarrow> string \<Rightarrow> join_store \<Rightarrow> join_request option \<times> join_store" where
  "get_join t i st = (let st1 = expire_joins t st in (dget (js_requests st1) i, st1))"

definition list_joins :: "real \<Rightarrow> join_store \<Rightarrow> join_request list \<times> join_store" where
  "list_joins t st =
     (let st1 = expire_joins t st in (filter (\<lambda>r. jr_status r = ''pending'') (dvals (js_requests st1)), st1))"

text \<open>\<open>mark_approved\<close> and \<open>mark_rejected\<close>.\<close>

definition mark_join :: "string \<Rightarrow> real \<Rightarrow> string \<Rightarrow> join_store \<Rightarrow> join_request option \<times> join_store" where
  "mark_join status t i st =
     (let st1 = expire_joins t st in
      case dget (js_requests st1) i of
        None \<Rightarrow> (None, st1)
      | Some r \<Rightarrow>
          if jr_status r = ''pending'' then
            (let r' = r\<lparr>jr_status := status\<rparr> in
             (Some r', join_audit status '''' t r' (join_persist (st1\<lparr>js_requests := dset i r' (js_requests st1)\<rparr>))))
          else (Some r, st1))"

section \<open>Trusted peers\<close>

text \<open>Files written by earlier versions have no transport identifier.\<close>

record peer =
  pe_host :: string
  pe_port :: int
  pe_cert :: string
  pe_key :: string
  pe_transport :: "string option"

record trust =
  tr_peers :: "(string, peer) dict"
  tr_file :: "(string, peer) dict option"

definition open_trust :: "(string, peer) dict option \<Rightarrow> trust" where
  "open_trust f = \<lparr>tr_peers = (case f of None \<Rightarrow> [] | Some ps \<Rightarrow> ps), tr_file = f\<rparr>"

definition in_quotes :: "string \<Rightarrow> string" where
  "in_quotes s = CHR 0x27 # s @ [CHR 0x27]"

definition add_peer ::
    "(string \<Rightarrow> raised + string) \<Rightarrow> string \<Rightarrow> string \<Rightarrow> int \<Rightarrow> string \<Rightarrow> string \<Rightarrow> trust \<Rightarrow> (raised + bool) \<times> trust" where
  "add_peer cn node host port cert key tr =
     (case cn cert of
        Inl e \<Rightarrow> (Inl e, tr)
      | Inr tid \<Rightarrow>
          (let existing = dget (tr_peers tr) node in
           if (case existing of None \<Rightarrow> False | Some p \<Rightarrow> pe_cert p \<noteq> cert)
           then (Inl (''ValueError'', ''refusing automatic certificate rotation for trusted node '' @ in_quotes node @
                  ''; revoke and re-approve the node through the governance workflow''), tr)
           else if \<exists>q\<in>set (tr_peers tr). fst q \<noteq> node \<and> pe_transport (snd q) = Some tid
           then (Inl (''ValueError'', ''transport identity '' @ in_quotes tid @ '' is already bound to another peer''), tr)
           else (Inr (existing = None),
                 tr\<lparr>tr_peers := dset node \<lparr>pe_host = host, pe_port = port, pe_cert = cert, pe_key = key,
                                   pe_transport = Some tid\<rparr> (tr_peers tr)\<rparr>)))"

definition save_trust :: "trust \<Rightarrow> trust" where
  "save_trust tr = tr\<lparr>tr_file := Some (tr_peers tr)\<rparr>"

definition get_peer :: "string \<Rightarrow> trust \<Rightarrow> peer option" where
  "get_peer node tr = dget (tr_peers tr) node"

fun peer_by_transport :: "(string \<Rightarrow> raised + string) \<Rightarrow> string \<Rightarrow> (string, peer) dict \<Rightarrow> raised + peer option" where
  "peer_by_transport cn tid [] = Inr None"
| "peer_by_transport cn tid (q # qs) =
     (case pe_transport (snd q) of
        Some x \<Rightarrow> if x = tid then Inr (Some (snd q)) else peer_by_transport cn tid qs
      | None \<Rightarrow>
          (case cn (pe_cert (snd q)) of
             Inl e \<Rightarrow> Inl e
           | Inr x \<Rightarrow> if x = tid then Inr (Some (snd q)) else peer_by_transport cn tid qs))"

fun transport_peer_ids :: "(string \<Rightarrow> raised + string) \<Rightarrow> peer list \<Rightarrow> raised + string list" where
  "transport_peer_ids cn [] = Inr []"
| "transport_peer_ids cn (p # ps) =
     (case (if pe_transport p = None \<or> pe_transport p = Some [] then cn (pe_cert p) else Inr (the (pe_transport p))) of
        Inl e \<Rightarrow> Inl e
      | Inr x \<Rightarrow> map_sum id (\<lambda>xs. x # xs) (transport_peer_ids cn ps))"

text \<open>The certificates of the bundle, one after the other.\<close>

definition build_trust_bundle :: "string option \<Rightarrow> trust \<Rightarrow> string list" where
  "build_trust_bundle own tr =
     map (\<lambda>q. pe_cert (snd q)) (tr_peers tr) @ (case own of None \<Rightarrow> [] | Some c \<Rightarrow> if c = [] then [] else [c])"

section \<open>The commands of the administrators\<close>

record joins =
  jo_store :: join_store
  jo_trust :: trust
  jo_bundle :: "string list"
  jo_admins :: "string list"
  jo_telegram :: telegram
  jo_callbacks :: "(string, string \<times> string) dict"
  jo_events :: "(string \<times> (string \<times> string) list) list"
  jo_hooked :: "join_request list"

definition jo_publish :: "string \<Rightarrow> (string \<times> string) list \<Rightarrow> joins \<Rightarrow> joins" where
  "jo_publish name payload s = s\<lparr>jo_events := jo_events s @ [(name, payload)]\<rparr>"

definition jo_say :: "string \<Rightarrow> string \<Rightarrow> joins \<Rightarrow> joins" where
  "jo_say chat txt s = s\<lparr>jo_telegram := emit (Say chat (Text txt)) (jo_telegram s)\<rparr>"

definition about_request :: "join_request \<Rightarrow> (string \<times> string) list" where
  "about_request r = [(''request_id'', jr_id r), (''node_id'', jr_node r), (''host'', jr_host r)]"

definition notify_new_request :: "join_request \<Rightarrow> joins \<Rightarrow> joins" where
  "notify_new_request r s =
     fold (\<lambda>chat. jo_say chat (''New node join request: Request ID: '' @ jr_id r @ '' node_id: '' @ jr_node r @ '' Host: '' @ jr_host r))
       (jo_admins s) (jo_publish ''cluster.peer_join_requested'' (about_request r) s)"

definition command_pending_peers :: "string \<Rightarrow> real \<Rightarrow> joins \<Rightarrow> joins" where
  "command_pending_peers chat t s =
     (let (rs, st) = list_joins t (jo_store s); s1 = s\<lparr>jo_store := st\<rparr> in
      if rs = [] then jo_say chat ''No node join requests are pending.'' s1
      else jo_say chat (''Pending node join requests: '' @
             join_sep '', '' (map (\<lambda>r. jr_id r @ '' | node_id='' @ jr_node r @ '' | '' @ jr_host r) rs)) s1)"

text \<open>\<open>aid\<close> is the fresh identifier of the approval.\<close>

definition command_approve_peer :: "string \<Rightarrow> string \<Rightarrow> string \<Rightarrow> real \<Rightarrow> real \<Rightarrow> joins \<Rightarrow> (string + unit) \<times> joins" where
  "command_approve_peer chat args aid t now s =
     (let i = py_strip args; (found, st) = get_join t i (jo_store s); s1 = s\<lparr>jo_store := st\<rparr>;
          refuse = (Inr (), jo_say chat (''No pending request exists with ID '' @ in_quotes i @ ''.'') s1)
      in case found of
           None \<Rightarrow> refuse
         | Some r \<Rightarrow>
             if jr_status r \<noteq> ''pending'' then refuse
             else
               (let (res, g) = request_approval chat aid
                      (''Grant mTLS trust to node_id='' @ jr_node r @ '' at '' @ jr_host r @ '' (request ID: '' @ i @
                       ''). This grant cannot be automatically reversed.'') now (jo_telegram s1)
                in (res, s1\<lparr>jo_telegram := g, jo_callbacks :=
                      (if entered aid (jo_telegram s1) g then dset aid (chat, i) (jo_callbacks s1) else jo_callbacks s1)\<rparr>)))"

text \<open>\<open>hook\<close> is the call that refreshes running servers; \<open>t1\<close> and \<open>t2\<close> are the readings of the clock before and after.\<close>

definition execute_peer_approve ::
    "(string \<Rightarrow> raised + string) \<Rightarrow> (join_request \<Rightarrow> raised option) \<Rightarrow> string \<Rightarrow> string \<Rightarrow> real \<Rightarrow> real \<Rightarrow> joins
     \<Rightarrow> raised option \<times> joins" where
  "execute_peer_approve cn hook chat i t1 t2 s =
     (let (found, st) = get_join t1 i (jo_store s); s1 = s\<lparr>jo_store := st\<rparr>;
          refuse = (None, jo_say chat (''Request '' @ in_quotes i @ '' was no longer available for execution.'') s1)
      in case found of
           None \<Rightarrow> refuse
         | Some r \<Rightarrow>
             if jr_status r \<noteq> ''pending'' then refuse
             else
               (case add_peer cn (jr_node r) (jr_host r) (jr_port r) (jr_cert r) (jr_key r) (jo_trust s1) of
                  (Inl e, tr) \<Rightarrow> (Some e, s1\<lparr>jo_trust := tr\<rparr>)
                | (Inr _, tr) \<Rightarrow>
                    (let s2 = s1\<lparr>jo_trust := save_trust tr, jo_bundle := build_trust_bundle None tr, jo_hooked := jo_hooked s1 @ [r]\<rparr>
                     in case hook r of
                          Some e \<Rightarrow> (Some e, s2)
                        | None \<Rightarrow>
                            (None,
                             jo_say chat (''Trust granted: node '' @ jr_node r @ '' is now in the TrustStore.'')
                               (jo_publish ''cluster.peer_approved'' (about_request r)
                                 (s2\<lparr>jo_store := snd (mark_join ''approved'' t2 i (jo_store s2))\<rparr>))))))"

definition command_reject_peer :: "string \<Rightarrow> string \<Rightarrow> real \<Rightarrow> joins \<Rightarrow> joins" where
  "command_reject_peer chat args t s =
     (let i = py_strip args; (found, st) = mark_join ''rejected'' t i (jo_store s); s1 = s\<lparr>jo_store := st\<rparr> in
      case found of
        None \<Rightarrow> jo_say chat (''No request exists with ID '' @ in_quotes i @ ''.'') s1
      | Some r \<Rightarrow>
          jo_say chat (''Node join request for '' @ jr_node r @ '' was rejected.'')
            (jo_publish ''cluster.peer_rejected'' [(''request_id'', i), (''node_id'', jr_node r)] s1))"

text \<open>The answer to an approval: the gate's handler around the callback.\<close>

definition answer_join ::
    "(string \<Rightarrow> raised + string) \<Rightarrow> (join_request \<Rightarrow> raised option) \<Rightarrow> string \<Rightarrow> string \<Rightarrow> bool \<Rightarrow> real \<Rightarrow> real \<Rightarrow> real \<Rightarrow> real
     \<Rightarrow> joins \<Rightarrow> joins" where
  "answer_join cn hook chat args approved ta tb t1 t2 =
     answer_gate jo_telegram (\<lambda>g s. s\<lparr>jo_telegram := g\<rparr>) jo_callbacks
       (\<lambda>(c, i). execute_peer_approve cn hook c i t1 t2)
       (\<lambda>(c, i). jo_say c (''Review of '' @ in_quotes i @ '' was cancelled.'')) chat args approved ta tb"

section \<open>The bootstrap endpoints\<close>

text \<open>
  A body is not JSON (or not an object), or an object with text fields and a port that \<open>int\<close>
  refuses, reads, or that is missing. \<open>None\<close> instead of a response stands for the exception that
  leaves the handler.
\<close>

datatype join_body = BadBody | Fields "(string, string) dict" "(string + int) option"

definition required_fields :: "string list" where
  "required_fields = [''node_id'', ''host'', ''mtls_port'', ''cert_pem'', ''signing_pubkey_hex'',
     ''component_public_key_hex'', ''component_created_at'']"

definition missing_fields :: "(string, string) dict \<Rightarrow> (string + int) option \<Rightarrow> string list" where
  "missing_fields d port = filter (\<lambda>k. if k = ''mtls_port'' then port = None else dget d k = None) required_fields"

definition bootstrap_post ::
    "string \<Rightarrow> join_body \<Rightarrow> string \<Rightarrow> real \<Rightarrow> joins \<Rightarrow> (nat \<times> (string \<times> pyval) list) option \<times> joins" where
  "bootstrap_post path body i t s =
     (if path \<noteq> ''/cluster/bootstrap-request'' then (Some (404, [(''error'', PStr ''not found'')]), s)
      else case body of
        BadBody \<Rightarrow> (Some (400, [(''error'', PStr ''invalid JSON'')]), s)
      | Fields d port \<Rightarrow>
          if missing_fields d port \<noteq> []
          then (Some (400, [(''error'', PStr (''missing fields: ['' @ join_sep '', '' (map in_quotes (missing_fields d port)) @ '']''))]), s)
          else
            (case the port of
               Inl _ \<Rightarrow> (None, s)
             | Inr n \<Rightarrow>
                 (let field = (\<lambda>k. the (dget d k));
                      r = \<lparr>jr_id = i, jr_node = field ''node_id'', jr_host = field ''host'', jr_port = n, jr_cert = field ''cert_pem'',
                           jr_key = field ''signing_pubkey_hex'', jr_component_key = field ''component_public_key_hex'',
                           jr_component_created = field ''component_created_at'', jr_status = ''pending'', jr_created = t\<rparr>
                  in (Some (202, [(''request_id'', PStr i), (''status'', PStr ''pending'')]),
                      notify_new_request r (s\<lparr>jo_store := create_join r t (jo_store s)\<rparr>)))))"

definition status_prefix :: string where
  "status_prefix = ''/cluster/bootstrap-status/''"

definition bootstrap_get :: "pyval \<Rightarrow> string \<Rightarrow> real \<Rightarrow> joins \<Rightarrow> (nat \<times> (string \<times> pyval) list) \<times> joins" where
  "bootstrap_get own path t s =
     (if take (length status_prefix) path \<noteq> status_prefix then ((404, [(''error'', PStr ''not found'')]), s)
      else
        (let (found, st) = get_join t (drop (length status_prefix) path) (jo_store s); s1 = s\<lparr>jo_store := st\<rparr> in
         case found of
           None \<Rightarrow> ((404, [(''error'', PStr ''unknown request_id'')]), s1)
         | Some r \<Rightarrow>
             ((200, (''status'', PStr (jr_status r)) # (if jr_status r = ''approved'' then [(''responder'', own)] else [])), s1)))"

text \<open>A new process: requests and peers are loaded, the Telegram service \<open>g\<close> is new and callbacks are gone.\<close>

definition restart_joins :: "real \<Rightarrow> telegram \<Rightarrow> joins \<Rightarrow> raised + joins" where
  "restart_joins t g s =
     map_sum id (\<lambda>st. s\<lparr>jo_store := st, jo_trust := open_trust (tr_file (jo_trust s)), jo_telegram := g, jo_callbacks := []\<rparr>)
       (open_joins (js_durable (jo_store s)) (js_logged (jo_store s)) (js_age (jo_store s)) (js_file (jo_store s))
          (js_log (jo_store s)) t)"

end
