(* ===== verification/Joining_Props.thy ===== *)
theory Joining_Props
  imports Joining Approval_Props
begin

text \<open>
  Joining is a machine of requests, polls, commands, answers and restarts. Its invariant: a
  request that reports itself approved is of a node that is trusted with the certificate of the
  request, the trust store is saved, and no two peers share a transport identity. Certificates
  of trusted peers are never replaced.
\<close>

section \<open>The store of requests\<close>

lemma join_audit_keeps [simp]:
  "js_requests (join_audit ev re t r st) = js_requests st" "js_file (join_audit ev re t r st) = js_file st"
  "js_age (join_audit ev re t r st) = js_age st" "js_durable (join_audit ev re t r st) = js_durable st"
  by (simp_all add: join_audit_def)

lemma join_audits_keep [simp]:
  "js_requests (fold (join_audit ev re t) rs st) = js_requests st" "js_file (fold (join_audit ev re t) rs st) = js_file st"
  "js_age (fold (join_audit ev re t) rs st) = js_age st" "js_durable (fold (join_audit ev re t) rs st) = js_durable st"
  by (induction rs arbitrary: st) simp_all

lemma join_persist_keeps [simp]:
  "js_requests (join_persist st) = js_requests st" "js_age (join_persist st) = js_age st"
  "js_durable (join_persist st) = js_durable st"
  by (simp_all add: join_persist_def)

definition only_pending :: "join_store \<Rightarrow> bool" where
  "only_pending st \<longleftrightarrow> (\<forall>rs r. js_file st = Some rs \<and> r \<in> set rs \<longrightarrow> jr_status r = ''pending'')"

text \<open>Nodes and certificates of the requests that are approved.\<close>

definition approved :: "join_store \<Rightarrow> (string \<times> string) set" where
  "approved st = {(n, c). \<exists>i r. dget (js_requests st) i = Some r \<and> jr_status r = ''approved'' \<and> jr_node r = n \<and> jr_cert r = c}"

lemma persist_only_pending: "only_pending st \<Longrightarrow> only_pending (join_persist st)"
  by (auto simp: only_pending_def join_persist_def)

lemma approved_audit [simp]: "approved (join_audit ev re t r st) = approved st" "approved (join_persist st) = approved st"
  by (simp_all add: approved_def)

lemma only_pending_audit [simp]: "only_pending (join_audit ev re t r st) = only_pending st"
  by (simp add: only_pending_def)

lemma expire_requests:
  "js_requests (expire_joins t st) = dmap (\<lambda>r. if overdue t st r then r\<lparr>jr_status := ''expired''\<rparr> else r) (js_requests st)"
  by (simp add: expire_joins_def Let_def)

lemma expire_keeps_joins: "only_pending st \<Longrightarrow> only_pending (expire_joins t st) \<and> approved (expire_joins t st) = approved st"
proof
  assume "only_pending st"
  then show "only_pending (expire_joins t st)"
    by (auto simp: expire_joins_def Let_def only_pending_def join_persist_def)
  let ?f = "\<lambda>r. if overdue t st r then r\<lparr>jr_status := ''expired''\<rparr> else r"
  have f: "jr_status (?f r) = ''approved'' \<longleftrightarrow> jr_status r = ''approved''" "jr_node (?f r) = jr_node r" "jr_cert (?f r) = jr_cert r" for r
    by (simp_all add: overdue_def)
  have "approved (expire_joins t st) = {(n, c). \<exists>i r. dget (js_requests st) i = Some r \<and> jr_status (?f r) = ''approved'' \<and>
      jr_node (?f r) = n \<and> jr_cert (?f r) = c}"
    unfolding approved_def expire_requests dget_dmap map_option_eq_Some by blast
  then show "approved (expire_joins t st) = approved st" unfolding f approved_def .
qed

lemma create_keeps_joins:
  assumes "only_pending st" "jr_status r = ''pending''"
  shows "only_pending (create_join r t st) \<and> approved (create_join r t st) \<subseteq> approved st"
proof
  have "only_pending (st\<lparr>js_requests := dset (jr_id r) r (js_requests st)\<rparr>)" using assms(1) by (simp add: only_pending_def)
  then show "only_pending (create_join r t st)" by (simp add: create_join_def persist_only_pending)
  show "approved (create_join r t st) \<subseteq> approved st"
    unfolding create_join_def approved_audit using assms(2) by (auto simp: approved_def dict_simps split: if_splits)
qed

lemma mark_cases:
  assumes ok: "only_pending st" and mark: "mark_join status t i st = (res, st')"
  shows "only_pending st'" "status \<noteq> ''approved'' \<Longrightarrow> approved st' \<subseteq> approved st"
    "dget (js_requests st) i = Some r \<Longrightarrow> approved st' \<subseteq> insert (jr_node r, jr_cert r) (approved st)"
proof -
  let ?st = "expire_joins t st"
  let ?put = "\<lambda>q. join_audit status [] t (q\<lparr>jr_status := status\<rparr>)
      (join_persist (?st\<lparr>js_requests := dset i (q\<lparr>jr_status := status\<rparr>) (js_requests ?st)\<rparr>))"
  note e = expire_keeps_joins [OF ok, of t]
  have st': "st' = ?st \<or> (\<exists>q. dget (js_requests ?st) i = Some q \<and> st' = ?put q)"
    using mark by (auto simp: mark_join_def Let_def split: option.splits if_splits)
  have "only_pending (?put q)" for q
  proof -
    have "only_pending (?st\<lparr>js_requests := dset i (q\<lparr>jr_status := status\<rparr>) (js_requests ?st)\<rparr>)"
      using e by (auto simp: only_pending_def)
    then show ?thesis by (simp add: persist_only_pending)
  qed
  then show "only_pending st'" using st' e by auto
  have put: "approved (?put q) \<subseteq> (if status = ''approved'' then insert (jr_node q, jr_cert q) (approved st) else approved st)"
    if "dget (js_requests ?st) i = Some q" for q
  proof -
    have "approved (?put q) \<subseteq> (if status = ''approved'' then insert (jr_node q, jr_cert q) (approved ?st) else approved ?st)"
      unfolding approved_audit by (auto simp: approved_def dict_simps split: if_splits)
    then show ?thesis using e by (cases "status = ''approved''") simp_all
  qed
  show "approved st' \<subseteq> approved st" if "status \<noteq> ''approved''" using st' put e that by auto
  show "approved st' \<subseteq> insert (jr_node r, jr_cert r) (approved st)" if r: "dget (js_requests st) i = Some r"
  proof -
    have "jr_node q = jr_node r \<and> jr_cert q = jr_cert r" if "dget (js_requests ?st) i = Some q" for q
      using that r unfolding expire_requests dget_dmap by auto
    then show ?thesis using st' put e by (fastforce split: if_splits)
  qed
qed

lemma load_keeps_joins:
  assumes "approved st = {}" "only_pending st"
  shows "approved (load_joins t rs st) = {} \<and> only_pending (load_joins t rs st)"
  using assms
proof (induction rs arbitrary: st)
  case (Cons r rs)
  have new: "approved (st\<lparr>js_requests := dset (jr_id r) q (js_requests st)\<rparr>) = {}" if "jr_status q \<noteq> ''approved''" for q
    using Cons.prems(1) that by (auto simp: approved_def dict_simps split: if_splits)
  have p: "only_pending (st\<lparr>js_requests := d\<rparr>)" for d using Cons.prems(2) by (simp add: only_pending_def)
  show ?case using Cons new p by (simp add: Let_def)
qed (simp add: persist_only_pending)

lemma open_keeps_joins:
  assumes "open_joins dur lg age f l t = Inr st" and "\<forall>rs r. f = Some rs \<and> r \<in> set rs \<longrightarrow> jr_status r = ''pending''"
  shows "approved st = {} \<and> only_pending st"
proof -
  define st0 where "st0 = \<lparr>js_requests = [], js_durable = dur, js_file = f, js_age = age, js_logged = lg, js_log = l\<rparr>"
  have "approved st0 = {}" "only_pending st0" using assms(2) by (simp_all add: st0_def approved_def only_pending_def)
  moreover have "st = st0 \<or> (\<exists>rs. st = load_joins t rs st0)"
    using assms(1) by (auto simp: open_joins_def Let_def st0_def split: if_splits option.splits)
  ultimately show ?thesis using load_keeps_joins by blast
qed

section \<open>The store of peers\<close>

definition certified :: "trust \<Rightarrow> (string \<times> string) set" where
  "certified tr = {(n, c). \<exists>p. dget (tr_peers tr) n = Some p \<and> pe_cert p = c}"

definition trust_ok :: "(string \<Rightarrow> raised + string) \<Rightarrow> trust \<Rightarrow> bool" where
  "trust_ok cn tr \<longleftrightarrow> dwf (tr_peers tr) \<and> (tr_file tr = Some (tr_peers tr) \<or> tr_file tr = None \<and> tr_peers tr = []) \<and>
     (\<forall>n p. dget (tr_peers tr) n = Some p \<longrightarrow> (\<exists>tid. pe_transport p = Some tid \<and> cn (pe_cert p) = Inr tid)) \<and>
     (\<forall>n m p q. dget (tr_peers tr) n = Some p \<and> dget (tr_peers tr) m = Some q \<and> pe_transport p = pe_transport q \<longrightarrow> n = m)"

lemma add_peer_cases:
  assumes "add_peer cn node host port cert key tr = (res, tr')"
  obtains (refused) e where "res = Inl e" "tr' = tr"
  | (added) tid where "cn cert = Inr tid" "\<And>p. dget (tr_peers tr) node = Some p \<Longrightarrow> pe_cert p = cert"
      "\<And>n p. (n, p) \<in> set (tr_peers tr) \<Longrightarrow> n \<noteq> node \<Longrightarrow> pe_transport p \<noteq> Some tid" "isl res = False"
      "tr' = tr\<lparr>tr_peers := dset node \<lparr>pe_host = host, pe_port = port, pe_cert = cert, pe_key = key, pe_transport = Some tid\<rparr> (tr_peers tr)\<rparr>"
proof (cases "cn cert")
  case (Inl e)
  then show ?thesis using assms refused [of e] by (simp add: add_peer_def)
next
  case (Inr tid)
  define A where "A \<longleftrightarrow> (case dget (tr_peers tr) node of None \<Rightarrow> False | Some p \<Rightarrow> pe_cert p \<noteq> cert)"
  define B where "B \<longleftrightarrow> (\<exists>q\<in>set (tr_peers tr). fst q \<noteq> node \<and> pe_transport (snd q) = Some tid)"
  have eq: "(res, tr') =
      (if A then (Inl (''ValueError'', ''refusing automatic certificate rotation for trusted node '' @ in_quotes node @
                  ''; revoke and re-approve the node through the governance workflow''), tr)
       else if B then (Inl (''ValueError'', ''transport identity '' @ in_quotes tid @ '' is already bound to another peer''), tr)
       else (Inr (dget (tr_peers tr) node = None),
             tr\<lparr>tr_peers := dset node \<lparr>pe_host = host, pe_port = port, pe_cert = cert, pe_key = key, pe_transport = Some tid\<rparr> (tr_peers tr)\<rparr>))"
    unfolding assms [symmetric] add_peer_def Let_def A_def B_def Inr by simp
  show ?thesis
  proof (cases "A \<or> B")
    case True
    then have "\<exists>e. res = Inl e \<and> tr' = tr" using eq by (cases A) simp_all
    then show ?thesis using refused by blast
  next
    case False
    then have r: "isl res = False"
        "tr' = tr\<lparr>tr_peers := dset node \<lparr>pe_host = host, pe_port = port, pe_cert = cert, pe_key = key, pe_transport = Some tid\<rparr> (tr_peers tr)\<rparr>"
      using eq by simp_all
    have "pe_cert p = cert" if "dget (tr_peers tr) node = Some p" for p using False that by (simp add: A_def)
    moreover have "pe_transport p \<noteq> Some tid" if "(n, p) \<in> set (tr_peers tr)" "n \<noteq> node" for n p
      using False that unfolding B_def by force
    ultimately show ?thesis using added [OF Inr] r by blast
  qed
qed

lemma add_peer_keeps:
  assumes ok: "trust_ok cn tr" and add: "add_peer cn node host port cert key tr = (Inr b, tr')"
  shows "trust_ok cn (save_trust tr') \<and> certified (save_trust tr') = insert (node, cert) (certified tr)"
  using add
proof (cases rule: add_peer_cases)
  case (added tid)
  let ?p = "\<lparr>pe_host = host, pe_port = port, pe_cert = cert, pe_key = key, pe_transport = Some tid\<rparr>"
  have new: "dget (tr_peers tr) n = Some p \<Longrightarrow> n \<noteq> node \<Longrightarrow> pe_transport p \<noteq> Some tid" for n p
    using added(3) dget_in_set by metis
  have peers: "tr_peers (save_trust tr') = dset node ?p (tr_peers tr)" by (simp add: added(5) save_trust_def)
  have "certified (save_trust tr') = insert (node, cert) (certified tr)"
    unfolding certified_def peers using added(2) by (auto simp: dict_simps split: if_splits)
  moreover have "\<exists>tid. pe_transport p = Some tid \<and> cn (pe_cert p) = Inr tid"
    if "dget (tr_peers (save_trust tr')) n = Some p" for n p
    using that ok added(1) unfolding peers trust_ok_def by (auto simp: dict_simps split: if_splits)
  moreover have "n = m" if "dget (tr_peers (save_trust tr')) n = Some p" "dget (tr_peers (save_trust tr')) m = Some q"
      "pe_transport p = pe_transport q" for n m p q
  proof (cases "n = node \<or> m = node")
    case True
    then show ?thesis using that new [of n p] new [of m q] unfolding peers by (auto simp: dict_simps split: if_splits)
  next
    case False
    then have "dget (tr_peers tr) n = Some p" "dget (tr_peers tr) m = Some q" using that unfolding peers by (simp_all add: dict_simps)
    then show ?thesis using that(3) ok unfolding trust_ok_def by blast
  qed
  moreover have "tr_file (save_trust tr') = Some (tr_peers (save_trust tr'))" by (simp add: save_trust_def)
  moreover have "dwf (tr_peers (save_trust tr'))" unfolding peers using ok by (simp add: trust_ok_def)
  ultimately show ?thesis unfolding trust_ok_def by blast
qed simp

section \<open>The machine\<close>

datatype join_op =
    JPost string join_body string real
  | JGet pyval string real
  | JPending string real
  | JApprove string string string real real
  | JAnswer "join_request \<Rightarrow> raised option" string string bool real real real real
  | JReject string string real
  | JRestart real telegram

fun join_step :: "(string \<Rightarrow> raised + string) \<Rightarrow> joins \<Rightarrow> join_op \<Rightarrow> joins" where
  "join_step cn s (JPost path body i t) = snd (bootstrap_post path body i t s)"
| "join_step cn s (JGet own path t) = snd (bootstrap_get own path t s)"
| "join_step cn s (JPending chat t) = command_pending_peers chat t s"
| "join_step cn s (JApprove chat args aid t now) = snd (command_approve_peer chat args aid t now s)"
| "join_step cn s (JAnswer hook chat args ok ta tb t1 t2) = answer_join cn hook chat args ok ta tb t1 t2 s"
| "join_step cn s (JReject chat args t) = command_reject_peer chat args t s"
| "join_step cn s (JRestart t g) = (case restart_joins t g s of Inl _ \<Rightarrow> s | Inr s' \<Rightarrow> s')"

definition join_inv :: "(string \<Rightarrow> raised + string) \<Rightarrow> joins \<Rightarrow> bool" where
  "join_inv cn s \<longleftrightarrow> only_pending (jo_store s) \<and> trust_ok cn (jo_trust s) \<and> approved (jo_store s) \<subseteq> certified (jo_trust s)"

definition join_le :: "joins \<Rightarrow> joins \<Rightarrow> bool" where
  "join_le s t \<longleftrightarrow> certified (jo_trust s) \<subseteq> certified (jo_trust t)"

lemma jo_simps [simp]:
  "jo_store (jo_publish n p s) = jo_store s" "jo_trust (jo_publish n p s) = jo_trust s"
  "jo_store (jo_say c x s) = jo_store s" "jo_trust (jo_say c x s) = jo_trust s"
  "jo_telegram (jo_publish n p s) = jo_telegram s" "jo_callbacks (jo_publish n p s) = jo_callbacks s"
  by (simp_all add: jo_publish_def jo_say_def)

lemma jo_says [simp]:
  "jo_store (fold (\<lambda>c. jo_say c x) cs s) = jo_store s" "jo_trust (fold (\<lambda>c. jo_say c x) cs s) = jo_trust s"
  by (induction cs arbitrary: s) simp_all

lemma notify_keeps_joins [simp]: "jo_store (notify_new_request r s) = jo_store s" "jo_trust (notify_new_request r s) = jo_trust s"
  by (simp_all add: notify_new_request_def)

text \<open>The steps other than an answer: the requests change, the peers do not.\<close>

lemma store_only:
  assumes inv: "join_inv cn s" and "jo_trust s' = jo_trust s" "only_pending (jo_store s')"
    "approved (jo_store s') \<subseteq> approved (jo_store s)"
  shows "join_inv cn s' \<and> join_le s s'"
  using assms by (auto simp: join_inv_def join_le_def)

lemma post_shape:
  obtains (idle) "snd (bootstrap_post path body i t s) = s"
  | (created) r where "jr_status r = ''pending''"
      "snd (bootstrap_post path body i t s) = notify_new_request r (s\<lparr>jo_store := create_join r t (jo_store s)\<rparr>)"
proof (cases "path = ''/cluster/bootstrap-request''")
  case True
  show ?thesis
  proof (cases body)
    case (Fields d port)
    show ?thesis
    proof (cases "missing_fields d port = []")
      case none: True
      show ?thesis
      proof (cases "the port")
        case (Inr n)
        show ?thesis by (rule created) (use True Fields none Inr in \<open>simp_all add: bootstrap_post_def Let_def\<close>)
      qed (use True Fields none idle in \<open>simp add: bootstrap_post_def\<close>)
    qed (use True Fields idle in \<open>simp add: bootstrap_post_def\<close>)
  qed (use True idle in \<open>simp add: bootstrap_post_def\<close>)
qed (use idle in \<open>simp add: bootstrap_post_def\<close>)

lemma restart_joins_cases:
  assumes inv: "join_inv cn s" and re: "restart_joins t g s = Inr s'"
  shows "jo_trust s' = jo_trust s \<and> approved (jo_store s') = {} \<and> only_pending (jo_store s')"
proof (cases "open_joins (js_durable (jo_store s)) (js_logged (jo_store s)) (js_age (jo_store s)) (js_file (jo_store s))
    (js_log (jo_store s)) t")
  case (Inr st)
  have s': "s' = s\<lparr>jo_store := st, jo_trust := open_trust (tr_file (jo_trust s)), jo_telegram := g, jo_callbacks := []\<rparr>"
    using re Inr by (simp add: restart_joins_def)
  have f: "tr_file (jo_trust s) = Some (tr_peers (jo_trust s)) \<or> tr_file (jo_trust s) = None \<and> tr_peers (jo_trust s) = []"
    using inv unfolding join_inv_def trust_ok_def by blast
  then have "open_trust (tr_file (jo_trust s)) = jo_trust s" by (auto simp: open_trust_def)
  moreover have "approved st = {} \<and> only_pending st"
    using open_keeps_joins [OF Inr] inv unfolding join_inv_def only_pending_def by blast
  ultimately show ?thesis unfolding s' by simp
qed (use re in \<open>simp add: restart_joins_def\<close>)

lemma quiet_join_step:
  assumes inv: "join_inv cn s" and x: "\<And>hook chat args ok ta tb t1 t2. x \<noteq> JAnswer hook chat args ok ta tb t1 t2"
  shows "join_inv cn (join_step cn s x) \<and> join_le s (join_step cn s x) \<and> tr_peers (jo_trust (join_step cn s x)) = tr_peers (jo_trust s)"
proof -
  have op: "only_pending (jo_store s)" using inv by (simp add: join_inv_def)
  note e = expire_keeps_joins [OF op]
  have "jo_trust (join_step cn s x) = jo_trust s \<and> only_pending (jo_store (join_step cn s x)) \<and>
      approved (jo_store (join_step cn s x)) \<subseteq> approved (jo_store s)" if "\<forall>t g. x \<noteq> JRestart t g"
  proof (cases x)
    case (JPost path body i t)
    show ?thesis
    proof (cases rule: post_shape [of path body i t s])
      case (created r)
      then show ?thesis using JPost create_keeps_joins [OF op created(1), of t] by simp
    qed (use JPost op in simp)
  next
    case (JGet own path t)
    then show ?thesis using e [of t] op
      by (auto simp: bootstrap_get_def get_join_def Let_def split: option.splits)
  next
    case (JPending chat t)
    then show ?thesis using e [of t] by (simp add: command_pending_peers_def list_joins_def Let_def)
  next
    case (JApprove chat args aid t now)
    then show ?thesis using e [of t]
      by (auto simp: command_approve_peer_def get_join_def Let_def split: option.splits prod.splits)
  next
    case (JReject chat args t)
    obtain res st where m: "mark_join ''rejected'' t (py_strip args) (jo_store s) = (res, st)"
      by (cases "mark_join ''rejected'' t (py_strip args) (jo_store s)")
    have "only_pending st \<and> approved st \<subseteq> approved (jo_store s)" using mark_cases [OF op m] by simp
    moreover have "jo_store (join_step cn s x) = st \<and> jo_trust (join_step cn s x) = jo_trust s"
      using JReject m by (simp add: command_reject_peer_def Let_def split: option.split)
    ultimately show ?thesis by simp
  qed (use x that in auto)
  moreover have ?thesis if "x = JRestart t g" for t g
  proof (cases "restart_joins t g s")
    case (Inr s')
    note spec = restart_joins_cases [OF inv Inr]
    have step: "join_step cn s x = s'" using that Inr by simp
    show ?thesis using spec inv unfolding step join_inv_def join_le_def by simp
  next
    case (Inl e)
    then have step: "join_step cn s x = s" using that by simp
    show ?thesis using inv unfolding step join_le_def by simp
  qed
  ultimately show ?thesis using store_only [OF inv] by (cases x) (auto simp del: join_step.simps)
qed

section \<open>Answers\<close>

interpretation joining_gate: gate_client jo_telegram "\<lambda>g s. s\<lparr>jo_telegram := g\<rparr>" jo_callbacks
    "\<lambda>(c, i). jo_say c (''Review of '' @ in_quotes i @ '' was cancelled.'')" "\<lambda>s. (jo_store s, jo_trust s)"
  by unfold_locales auto

lemma answer_join_shape:
  obtains (idle) "jo_store (answer_join cn hook chat args ok ta tb t1 t2 s) = jo_store s"
      "jo_trust (answer_join cn hook chat args ok ta tb t1 t2 s) = jo_trust s"
  | (executed) p g c i s1 res s2 where "ok" "take_pending chat args ta tb (jo_telegram s) = (Some p, g)"
      "dget (jo_callbacks s) (py_strip args) = Some (c, i)" "jo_store s1 = jo_store s" "jo_trust s1 = jo_trust s"
      "execute_peer_approve cn hook c i t1 t2 s1 = (res, s2)"
      "jo_store (answer_join cn hook chat args ok ta tb t1 t2 s) = jo_store s2"
      "jo_trust (answer_join cn hook chat args ok ta tb t1 t2 s) = jo_trust s2"
proof (cases rule: joining_gate.answer_cases [of "\<lambda>(c, i). execute_peer_approve cn hook c i t1 t2" chat args ok ta tb s,
      folded answer_join_def, case_names idle executed])
  case idle
  then show ?thesis by (intro that(1)) simp_all
next
  case (executed p g c s1 res s2)
  then show ?thesis by (intro that(2) [of p g "fst c" "snd c" s1 res s2]) (simp_all add: split_beta)
qed

text \<open>What an execution does to the peers: nothing, or the entry of the request.\<close>

lemma execute_peer_cases:
  assumes inv: "join_inv cn s" and ex: "execute_peer_approve cn hook c i t1 t2 s = (res, s')"
  shows "join_inv cn s' \<and> join_le s s' \<and>
     (tr_peers (jo_trust s') \<noteq> tr_peers (jo_trust s) \<longrightarrow>
        (\<exists>r tid. dget (js_requests (jo_store s)) i = Some r \<and> jr_status r = ''pending'' \<and> t1 - jr_created r \<le> js_age (jo_store s) \<and>
           cn (jr_cert r) = Inr tid \<and> tr_peers (jo_trust s') = dset (jr_node r)
             \<lparr>pe_host = jr_host r, pe_port = jr_port r, pe_cert = jr_cert r, pe_key = jr_key r, pe_transport = Some tid\<rparr>
             (tr_peers (jo_trust s))))"
proof -
  have op: "only_pending (jo_store s)" using inv by (simp add: join_inv_def)
  define st where "st = expire_joins t1 (jo_store s)"
  have st: "only_pending st" "approved st = approved (jo_store s)"
    using expire_keeps_joins [OF op] by (simp_all add: st_def)
  define s1 where "s1 = s\<lparr>jo_store := st\<rparr>"
  have inv1: "join_inv cn s1" using inv st by (simp add: join_inv_def s1_def)
  have quiet: ?thesis if "jo_trust s' = jo_trust s" "jo_store s' = st"
    using that inv st by (simp add: join_inv_def join_le_def)
  show ?thesis
  proof (cases "\<exists>r. dget (js_requests st) i = Some r \<and> jr_status r = ''pending''")
    case False
    then have "jo_trust s' = jo_trust s \<and> jo_store s' = st"
      using ex by (auto simp: execute_peer_approve_def get_join_def Let_def st_def split: option.splits if_splits)
    then show ?thesis using quiet by blast
  next
    case True
    then obtain r where r: "dget (js_requests st) i = Some r" "jr_status r = ''pending''" by blast
    obtain q where q: "dget (js_requests (jo_store s)) i = Some q" "r = (if overdue t1 (jo_store s) q then q\<lparr>jr_status := ''expired''\<rparr> else q)"
      using r(1) unfolding st_def expire_requests dget_dmap by auto
    have rq: "r = q" "\<not> overdue t1 (jo_store s) q" using q(2) r(2) by (auto split: if_splits)
    obtain b tr where add: "add_peer cn (jr_node r) (jr_host r) (jr_port r) (jr_cert r) (jr_key r) (jo_trust s) = (b, tr)"
      by (cases "add_peer cn (jr_node r) (jr_host r) (jr_port r) (jr_cert r) (jr_key r) (jo_trust s)")
    from add show ?thesis
    proof (cases rule: add_peer_cases)
      case (refused e)
      then have "jo_trust s' = jo_trust s \<and> jo_store s' = st"
        using ex r add by (auto simp: execute_peer_approve_def get_join_def Let_def st_def [symmetric])
      then show ?thesis using quiet by blast
    next
      case (added tid)
      obtain x where b: "b = Inr x" using added(4) by (cases b) simp_all
      note keeps = add_peer_keeps [OF _ add [unfolded b]]
      define tr' where "tr' = save_trust tr"
      have tr': "trust_ok cn tr'" "certified tr' = insert (jr_node r, jr_cert r) (certified (jo_trust s))"
        using keeps inv by (simp_all add: join_inv_def tr'_def)
      have out: "jo_trust s' = tr'" "jo_store s' = st \<or> jo_store s' = snd (mark_join ''approved'' t2 i st)"
        using ex r add b by (auto simp: execute_peer_approve_def get_join_def Let_def st_def [symmetric] tr'_def split: option.splits)
      obtain mr mst where m: "mark_join ''approved'' t2 i st = (mr, mst)" by (cases "mark_join ''approved'' t2 i st")
      have "only_pending (jo_store s')" "approved (jo_store s') \<subseteq> insert (jr_node r, jr_cert r) (approved (jo_store s))"
        using out(2) mark_cases [OF st(1) m] r(1) st m by auto
      then have "join_inv cn s'" using tr' inv out(1) by (auto simp: join_inv_def)
      moreover have "join_le s s'" using tr'(2) out(1) by (auto simp: join_le_def)
      moreover have "t1 - jr_created r \<le> js_age (jo_store s)" using rq r(2) by (simp add: overdue_def)
      moreover have "tr_peers (jo_trust s') = dset (jr_node r)
             \<lparr>pe_host = jr_host r, pe_port = jr_port r, pe_cert = jr_cert r, pe_key = jr_key r, pe_transport = Some tid\<rparr>
             (tr_peers (jo_trust s))"
        using out(1) added(5) by (simp add: tr'_def save_trust_def)
      ultimately show ?thesis using q(1) rq r(2) added(1) by blast
    qed
  qed
qed

lemma answer_join_keeps:
  assumes inv: "join_inv cn s"
  shows "join_inv cn (answer_join cn hook chat args ok ta tb t1 t2 s) \<and> join_le s (answer_join cn hook chat args ok ta tb t1 t2 s)"
proof (cases rule: answer_join_shape [of cn hook chat args ok ta tb t1 t2 s])
  case idle
  then show ?thesis using inv by (simp add: join_inv_def join_le_def)
next
  case (executed p g c i s1 res s2)
  have "join_inv cn s1" using inv executed(4,5) by (simp add: join_inv_def)
  then have "join_inv cn s2 \<and> join_le s1 s2" using execute_peer_cases [OF _ executed(6)] by blast
  then show ?thesis using executed by (simp add: join_inv_def join_le_def)
qed

lemma join_step_keeps: "join_inv cn s \<Longrightarrow> join_inv cn (join_step cn s x) \<and> join_le s (join_step cn s x)"
proof (cases "\<exists>hook chat args ok ta tb t1 t2. x = JAnswer hook chat args ok ta tb t1 t2")
  case True
  assume "join_inv cn s"
  then show ?thesis using True answer_join_keeps by auto
next
  case False
  assume "join_inv cn s"
  then show ?thesis using quiet_join_step [of cn s x] False by blast
qed

interpretation joining: machine "join_step cn" "\<lambda>_ _. True" "join_inv cn" join_le
proof
  show "join_le s u" if "join_le s t" "join_le t u" for s t u using that by (auto simp: join_le_def)
qed (use join_step_keeps in \<open>auto simp: join_le_def\<close>)

definition fresh_joins :: "joins \<Rightarrow> bool" where
  "fresh_joins s \<longleftrightarrow> js_requests (jo_store s) = [] \<and> js_file (jo_store s) = None \<and> jo_trust s = \<lparr>tr_peers = [], tr_file = None\<rparr>"

lemma fresh_joins_inv: "fresh_joins s \<Longrightarrow> join_inv cn s"
  by (auto simp: fresh_joins_def join_inv_def only_pending_def trust_ok_def approved_def)

lemma run_join_inv: "fresh_joins s \<Longrightarrow> join_inv cn (run (join_step cn) s ops)"
  using joining.run_inv [OF fresh_joins_inv, of s cn ops] by simp

text \<open>What an approving answer to a poll means.\<close>

lemma approved_poll:
  fixes ops :: "join_op list" and cn :: "string \<Rightarrow> raised + string"
  assumes "fresh_joins s0"
  defines "s \<equiv> run (join_step cn) s0 ops"
  assumes "fst (bootstrap_get own (status_prefix @ i) t s) = (200, (''status'', PStr ''approved'') # rest)"
  shows "\<exists>r p. dget (js_requests (jo_store s)) i = Some r \<and> get_peer (jr_node r) (jo_trust s) = Some p \<and>
     pe_cert p = jr_cert r \<and> tr_file (jo_trust s) = Some (tr_peers (jo_trust s))"
proof -
  have inv: "join_inv cn s" unfolding s_def by (rule run_join_inv [OF assms(1)])
  let ?st = "expire_joins t (jo_store s)"
  obtain r where r: "dget (js_requests ?st) i = Some r" "jr_status r = ''approved''"
    using assms(3) by (auto simp: bootstrap_get_def get_join_def Let_def split: option.splits)
  then obtain q where q: "dget (js_requests (jo_store s)) i = Some q" "jr_node r = jr_node q" "jr_cert r = jr_cert q"
    unfolding expire_requests dget_dmap by auto
  have "(jr_node r, jr_cert r) \<in> approved ?st" using r by (auto simp: approved_def)
  then have "(jr_node q, jr_cert q) \<in> certified (jo_trust s)"
    using expire_keeps_joins [of "jo_store s" t] inv q unfolding join_inv_def by auto
  then obtain p where p: "dget (tr_peers (jo_trust s)) (jr_node q) = Some p" "pe_cert p = jr_cert q"
    by (auto simp: certified_def)
  then have "tr_peers (jo_trust s) \<noteq> []" by auto
  then have "tr_file (jo_trust s) = Some (tr_peers (jo_trust s))" using inv unfolding join_inv_def trust_ok_def by blast
  then show ?thesis using p q by (auto simp: get_peer_def)
qed

section \<open>Properties\<close>

text \<open>
  A node that polls its request and is told that it is approved is trusted: the peer store,
  in memory and on disk, has an entry of the node with the certificate of the request, whatever
  requests, commands, answers, failing hooks and restarts came before.
\<close>

theorem polled_approval_is_trusted:
  fixes ops :: "join_op list" and cn :: "string \<Rightarrow> raised + string"
  assumes "fresh_joins s0"
  defines "s \<equiv> run (join_step cn) s0 ops"
  assumes "fst (bootstrap_get own (status_prefix @ i) t s) = (200, (''status'', PStr ''approved'') # rest)"
  shows "\<exists>r p. dget (js_requests (jo_store s)) i = Some r \<and> get_peer (jr_node r) (jo_trust s) = Some p \<and>
     pe_cert p = jr_cert r \<and> tr_file (jo_trust s) = Some (tr_peers (jo_trust s))"
  using assms(1,3) unfolding assms(2) by (rule approved_poll)

text \<open>
  C22: trust is given only by an administrator: after any requests, commands, answers and
  restarts, the trusted peers change only by an approving answer, in time and from the chat that
  asked for the approval, for a join request that is pending and not overdue; the entry that is
  written has exactly the address, certificate and key of that request, the certificate of a
  node that was trusted before does not change, and no other peer has its transport identity.
\<close>

theorem trust_changes_only_by_approval:
  fixes ops :: "join_op list" and x :: join_op and cn :: "string \<Rightarrow> raised + string"
  assumes "fresh_joins s0"
  defines "s \<equiv> run (join_step cn) s0 ops" and "t \<equiv> run (join_step cn) s0 (ops @ [x])"
  assumes "tr_peers (jo_trust t) \<noteq> tr_peers (jo_trust s)"
  shows "\<exists>hook chat args ta tb t1 t2 p g c i r tid. x = JAnswer hook chat args True ta tb t1 t2 \<and>
     take_pending chat args ta tb (jo_telegram s) = (Some p, g) \<and> pa_chat p = chat \<and> tb < pa_expires p \<and>
     dget (jo_callbacks s) (py_strip args) = Some (c, i) \<and> dget (js_requests (jo_store s)) i = Some r \<and>
     jr_status r = ''pending'' \<and> t1 - jr_created r \<le> js_age (jo_store s) \<and> cn (jr_cert r) = Inr tid \<and>
     tr_peers (jo_trust t) = dset (jr_node r)
       \<lparr>pe_host = jr_host r, pe_port = jr_port r, pe_cert = jr_cert r, pe_key = jr_key r, pe_transport = Some tid\<rparr>
       (tr_peers (jo_trust s)) \<and>
     (\<forall>q. get_peer (jr_node r) (jo_trust s) = Some q \<longrightarrow> pe_cert q = jr_cert r) \<and>
     (\<forall>n q. get_peer n (jo_trust t) = Some q \<and> n \<noteq> jr_node r \<longrightarrow> pe_transport q \<noteq> Some tid)"
proof -
  have t: "t = join_step cn s x" by (simp add: s_def t_def run_append)
  have inv: "join_inv cn s" "join_inv cn t" unfolding s_def t_def by (rule run_join_inv [OF assms(1)])+
  have le: "join_le s t" using join_step_keeps [OF inv(1)] t by blast
  obtain hook chat args ok ta tb t1 t2 where x: "x = JAnswer hook chat args ok ta tb t1 t2"
    using quiet_join_step [OF inv(1), of x] assms(4) t by metis
  then have t': "t = answer_join cn hook chat args ok ta tb t1 t2 s" using t by simp
  show ?thesis
  proof (cases rule: answer_join_shape [of cn hook chat args ok ta tb t1 t2 s])
    case idle
    then show ?thesis using assms(4) t' by simp
  next
    case (executed p g c i s1 res s2)
    have inv1: "join_inv cn s1" using inv(1) executed(4,5) by (simp add: join_inv_def)
    have "tr_peers (jo_trust s2) \<noteq> tr_peers (jo_trust s1)" using assms(4) t' executed(5,8) by simp
    then obtain r tid where r: "dget (js_requests (jo_store s)) i = Some r" "jr_status r = ''pending''"
        "t1 - jr_created r \<le> js_age (jo_store s)" "cn (jr_cert r) = Inr tid" "tr_peers (jo_trust t) = dset (jr_node r)
          \<lparr>pe_host = jr_host r, pe_port = jr_port r, pe_cert = jr_cert r, pe_key = jr_key r, pe_transport = Some tid\<rparr>
          (tr_peers (jo_trust s))"
      using execute_peer_cases [OF inv1 executed(6)] t' executed(4,5,8) by auto
    have here: "dget (tr_peers (jo_trust t)) (jr_node r) = Some
        \<lparr>pe_host = jr_host r, pe_port = jr_port r, pe_cert = jr_cert r, pe_key = jr_key r, pe_transport = Some tid\<rparr>"
      unfolding r(5) by (simp add: dict_simps)
    have "pe_cert q = jr_cert r" if "get_peer (jr_node r) (jo_trust s) = Some q" for q
      using le that here unfolding join_le_def certified_def get_peer_def by force
    moreover have "pe_transport q \<noteq> Some tid" if "get_peer n (jo_trust t) = Some q" "n \<noteq> jr_node r" for n q
      using inv(2) that here unfolding join_inv_def trust_ok_def get_peer_def by (metis peer.select_convs(5))
    moreover have "pa_chat p = chat" "tb < pa_expires p" using take_SomeD [OF executed(2)] by simp_all
    ultimately show ?thesis using x executed(1-3) r by blast
  qed
qed

definition demo_cn :: "string \<Rightarrow> raised + string" where
  "demo_cn c = Inr (''cn-'' @ c)"

definition demo_joins :: joins where
  "demo_joins = \<lparr>jo_store = \<lparr>js_requests = [], js_durable = True, js_file = None, js_age = 900, js_logged = True, js_log = []\<rparr>,
     jo_trust = \<lparr>tr_peers = [], tr_file = None\<rparr>, jo_bundle = [], jo_admins = [''adm''],
     jo_telegram = \<lparr>tg_admins = [''adm''], tg_ttl = 300, tg_pending = [],
       tg_store = Some \<lparr>as_records = [], as_disk = None, as_audit = []\<rparr>, tg_links = [], tg_tasks = [], tg_out = []\<rparr>,
     jo_callbacks = [], jo_events = [], jo_hooked = []\<rparr>"

definition demo_body :: join_body where
  "demo_body = Fields [(''node_id'', ''n1''), (''host'', ''h''), (''cert_pem'', ''c''), (''signing_pubkey_hex'', ''k''),
     (''component_public_key_hex'', ''pk''), (''component_created_at'', ''t'')] (Some (Inr 9443))"

text \<open>A request, the command, and the answer with readings \<open>t1\<close> and \<open>t2\<close> of the clock.\<close>

definition demo_join_ops :: "real \<Rightarrow> real \<Rightarrow> join_op list" where
  "demo_join_ops t1 t2 = [JPost ''/cluster/bootstrap-request'' demo_body ''peer-1'' 0, JApprove ''adm'' ''peer-1'' ''ap-1'' 800 800,
     JAnswer (\<lambda>_. None) ''adm'' ''ap-1'' True t1 t1 t1 t2]"

lemma demo_joins_fresh: "fresh_joins demo_joins"
  by (simp add: fresh_joins_def demo_joins_def)

theorem polled_approval_is_trusted_witness:
  "fst (bootstrap_get PNone (status_prefix @ ''peer-1'') 900 (run (join_step demo_cn) demo_joins (demo_join_ops 850 850))) =
     (200, [(''status'', PStr ''approved''), (''responder'', PNone)]) \<and>
   (\<exists>n p. get_peer n (jo_trust (run (join_step demo_cn) demo_joins (demo_join_ops 850 850))) = Some p)"
proof -
  have g: "fst (bootstrap_get PNone (status_prefix @ ''peer-1'') 900 (run (join_step demo_cn) demo_joins (demo_join_ops 850 850))) =
     (200, (''status'', PStr ''approved'') # [(''responder'', PNone)])" by code_simp
  from polled_approval_is_trusted [OF demo_joins_fresh g] g show ?thesis by blast
qed

theorem trust_changes_only_by_approval_witness:
  "\<exists>r. dget (js_requests (jo_store (run (join_step demo_cn) demo_joins (take 2 (demo_join_ops 850 850))))) ''peer-1'' = Some r \<and>
     jr_status r = ''pending''"
proof -
  let ?x = "JAnswer (\<lambda>_. None) ''adm'' ''ap-1'' True 850 850 850 850"
  have ne: "tr_peers (jo_trust (run (join_step demo_cn) demo_joins (take 2 (demo_join_ops 850 850) @ [?x]))) \<noteq>
      tr_peers (jo_trust (run (join_step demo_cn) demo_joins (take 2 (demo_join_ops 850 850))))" by code_simp
  have cb: "dget (jo_callbacks (run (join_step demo_cn) demo_joins (take 2 (demo_join_ops 850 850)))) (py_strip ''ap-1'') =
      Some (''adm'', ''peer-1'')" by code_simp
  from trust_changes_only_by_approval [OF demo_joins_fresh ne] cb show ?thesis by auto
qed

text \<open>
  A request can expire while it is approved: when its time runs out between the check and
  the end of the execution, and nothing else goes wrong, the execution succeeds, the certificate
  is trusted, the approval is published, and the node that polls is told, from then on, that its
  request has expired.
\<close>

theorem trusted_though_expired:
  assumes r: "dget (js_requests (jo_store s)) i = Some r" "jr_status r = ''pending''"
    and t: "t1 - jr_created r \<le> js_age (jo_store s)" "js_age (jo_store s) < t2 - jr_created r"
    and ok: "add_peer cn (jr_node r) (jr_host r) (jr_port r) (jr_cert r) (jr_key r) (jo_trust s) = (Inr new, tr)" "hook r = None"
    and ex: "execute_peer_approve cn hook chat i t1 t2 s = (res, s')"
  shows "res = None \<and> map_option pe_cert (get_peer (jr_node r) (jo_trust s')) = Some (jr_cert r) \<and>
     (''cluster.peer_approved'', about_request r) \<in> set (jo_events s') \<and>
     fst (bootstrap_get own (status_prefix @ i) t3 s') = (200, [(''status'', PStr ''expired'')])"
proof -
  have tr: "map_option pe_cert (dget (tr_peers tr) (jr_node r)) = Some (jr_cert r)"
    using ok(1) by (auto simp: add_peer_def Let_def dict_simps split: sum.splits if_splits)
  define st where "st = expire_joins t1 (jo_store s)"
  define st' where "st' = snd (mark_join ''approved'' t2 i st)"
  have st: "dget (js_requests st) i = Some r" "js_age st = js_age (jo_store s)"
    using r t(1) by (simp_all add: st_def expire_requests dget_dmap overdue_def expire_joins_def Let_def)
  have e: "dget (js_requests (expire_joins t2 st)) i = Some (r\<lparr>jr_status := ''expired''\<rparr>)"
    using st r(2) t(2) by (simp add: expire_requests dget_dmap overdue_def)
  then have "st' = expire_joins t2 st" by (simp add: st'_def mark_join_def Let_def)
  then have e': "dget (js_requests (expire_joins t3 st')) i = Some (r\<lparr>jr_status := ''expired''\<rparr>)"
    using e unfolding expire_requests [of t3] dget_dmap by (simp add: overdue_def)
  have ex': "res = None" "jo_trust s' = save_trust tr" "jo_store s' = st'"
      "(''cluster.peer_approved'', about_request r) \<in> set (jo_events s')"
    using ex r(2) ok st(1)
    by (auto simp: execute_peer_approve_def get_join_def Let_def jo_publish_def jo_say_def st'_def simp flip: st_def)
  have "fst (bootstrap_get own (status_prefix @ i) t3 s') = (200, [(''status'', PStr ''expired'')])"
    by (simp add: bootstrap_get_def get_join_def ex' e' Let_def)
  then show ?thesis using ex' tr by (simp add: get_peer_def save_trust_def)
qed

definition demo_waiting :: joins where
  "demo_waiting = demo_joins\<lparr>jo_store := create_join \<lparr>jr_id = ''peer-1'', jr_node = ''n1'', jr_host = ''h'', jr_port = 9443,
     jr_cert = ''c'', jr_key = ''k'', jr_component_key = ''pk'', jr_component_created = ''t'', jr_status = ''pending'',
     jr_created = 0\<rparr> 0 (jo_store demo_joins)\<rparr>"

theorem trusted_though_expired_witness:
  "fst (bootstrap_get PNone (status_prefix @ ''peer-1'') 902
     (snd (execute_peer_approve demo_cn (\<lambda>_. None) ''adm'' ''peer-1'' 900 901 demo_waiting))) =
   (200, [(''status'', PStr ''expired'')])"
proof -
  let ?r = "\<lparr>jr_id = ''peer-1'', jr_node = ''n1'', jr_host = ''h'', jr_port = 9443,
     jr_cert = ''c'', jr_key = ''k'', jr_component_key = ''pk'', jr_component_created = ''t'', jr_status = ''pending'',
     jr_created = 0\<rparr>"
  have r: "dget (js_requests (jo_store demo_waiting)) ''peer-1'' = Some ?r" "js_age (jo_store demo_waiting) = 900"
    by (simp_all add: demo_waiting_def demo_joins_def create_join_def dict_simps)
  have a: "add_peer demo_cn (jr_node ?r) (jr_host ?r) (jr_port ?r) (jr_cert ?r) (jr_key ?r) (jo_trust demo_waiting) =
      (Inr True, jo_trust demo_waiting\<lparr>tr_peers := [(''n1'', \<lparr>pe_host = ''h'', pe_port = 9443, pe_cert = ''c'', pe_key = ''k'',
         pe_transport = Some ''cn-c''\<rparr>)]\<rparr>)"
    by (simp add: add_peer_def demo_waiting_def demo_joins_def demo_cn_def)
  show ?thesis
    using trusted_though_expired [OF r(1) _ _ _ a, of 900 901 "\<lambda>_. None" "''adm''" _ _ PNone 902, OF _ _ _ _ prod.collapse [symmetric]] r(2)
    by simp
qed

end
