(* ===== verification/Rate_Limiter.thy ===== *)
theory Rate_Limiter
  imports Prelude
begin

text \<open>
  The sliding-window rate limiter (\<open>infrastructure/rate_limiter.py\<close>). The ordered dictionary of
  hits is a dictionary in its order; the clock and the hash of an overlong key are arguments.
  The property: as long as no key is evicted, no window of the configured length, wherever it
  starts, contains more than the configured number of allowed requests of one client.
\<close>

record limiter =
  rl_max :: int
  rl_window :: real
  rl_keys :: int
  rl_interval :: real
  rl_hits :: "(string, real list) dict"
  rl_cleaned :: real

definition new_limiter :: "int \<Rightarrow> real \<Rightarrow> int \<Rightarrow> real \<Rightarrow> real \<Rightarrow> string + limiter" where
  "new_limiter m w ks iv now =
     (if m \<le> 0 \<or> w \<le> 0 then Inl ''max_requests and window_seconds must be greater than zero''
      else if ks \<le> 0 \<or> iv \<le> 0 then Inl ''max_keys and cleanup_interval_seconds must be greater than zero''
      else Inr \<lparr>rl_max = m, rl_window = w, rl_keys = ks, rl_interval = iv, rl_hits = [], rl_cleaned = now\<rparr>)"

definition prune :: "real \<Rightarrow> real list \<Rightarrow> real list" where
  "prune cutoff ts = dropWhile (\<lambda>x. x < cutoff) ts"

text \<open>Evicting the oldest keys above the cap leaves the last \<open>max_keys\<close>.\<close>

definition cleanup_locked :: "real \<Rightarrow> limiter \<Rightarrow> limiter" where
  "cleanup_locked now l =
     (if now - rl_cleaned l < rl_interval l then l
      else
        (let hits = filter (\<lambda>q. snd q \<noteq> []) (dmap (prune (now - rl_window l)) (rl_hits l))
         in l\<lparr>rl_hits := drop (length hits - nat (rl_keys l)) hits, rl_cleaned := now\<rparr>))"

definition norm_key :: "(string \<Rightarrow> string) \<Rightarrow> string \<Rightarrow> string" where
  "norm_key sha key = (if length key > 256 then sha key else key)"

definition hits_of :: "string \<Rightarrow> limiter \<Rightarrow> real list" where
  "hits_of k l = (case dget (rl_hits l) k of None \<Rightarrow> [] | Some ts \<Rightarrow> ts)"

definition allow :: "(string \<Rightarrow> string) \<Rightarrow> string \<Rightarrow> real \<Rightarrow> limiter \<Rightarrow> (bool \<times> real) \<times> limiter" where
  "allow sha key now l =
     (let k = norm_key sha key;
          l1 = cleanup_locked now l;
          ts = prune (now - rl_window l1) (hits_of k l1);
          put = (\<lambda>xs. l1\<lparr>rl_hits := ddel k (rl_hits l1) @ [(k, xs)]\<rparr>)
      in if int (length ts) \<ge> rl_max l1 then ((False, max (hd ts + rl_window l1 - now) 0), put ts)
         else ((True, 0), put (ts @ [now])))"

text \<open>The client of a request: \<open>trust\<close> is the setting, \<open>strip\<close> and \<open>first\<close> come from the header.\<close>

definition client_key :: "bool \<Rightarrow> string option \<Rightarrow> string option \<Rightarrow> string" where
  "client_key trust forwarded host =
     (let client = (case forwarded of None \<Rightarrow> [] | Some f \<Rightarrow> py_strip (takeWhile (\<lambda>c. c \<noteq> CHR '','') f)) in
      if trust \<and> client \<noteq> [] then client
      else case host of None \<Rightarrow> ''unknown'' | Some h \<Rightarrow> if h = [] then ''unknown'' else h)"

section \<open>The machine of calls\<close>

text \<open>The state carries the allowed requests so far (client and time) and the last reading of the clock.\<close>

record limit_run =
  lr_limiter :: limiter
  lr_allowed :: "(string \<times> real) list"
  lr_clock :: real
  lr_clients :: "string list"

fun limit_step :: "(string \<Rightarrow> string) \<Rightarrow> limit_run \<Rightarrow> string \<times> real \<Rightarrow> limit_run" where
  "limit_step sha s (key, now) =
     (let (res, l) = allow sha key now (lr_limiter s) in
      \<lparr>lr_limiter = l,
       lr_allowed = (if fst res then lr_allowed s @ [(norm_key sha key, now)] else lr_allowed s),
       lr_clock = now, lr_clients = List.insert (norm_key sha key) (lr_clients s)\<rparr>)"

text \<open>The clock does not go back, and there are at most as many clients as the cap on keys.\<close>

fun limit_ok :: "(string \<Rightarrow> string) \<Rightarrow> limit_run \<Rightarrow> string \<times> real \<Rightarrow> bool" where
  "limit_ok sha s (key, now) \<longleftrightarrow> lr_clock s \<le> now \<and>
     int (length (List.insert (norm_key sha key) (lr_clients s))) \<le> rl_keys (lr_limiter s)"

definition times_of :: "string \<Rightarrow> (string \<times> real) list \<Rightarrow> real list" where
  "times_of k calls = map snd (filter (\<lambda>q. fst q = k) calls)"

text \<open>The hits of a client are the allowed requests from some time \<open>c\<close> on, outside every later window before it.\<close>

definition remembers :: "limit_run \<Rightarrow> string \<Rightarrow> bool" where
  "remembers s k \<longleftrightarrow> sorted (times_of k (lr_allowed s)) \<and> (\<forall>t\<in>set (times_of k (lr_allowed s)). t \<le> lr_clock s) \<and>
     (\<exists>c. c \<le> lr_clock s - rl_window (lr_limiter s) \<and>
        hits_of k (lr_limiter s) = filter (\<lambda>t. c \<le> t) (times_of k (lr_allowed s)))"

definition in_window :: "real \<Rightarrow> real \<Rightarrow> real list \<Rightarrow> nat" where
  "in_window a b ts = length (filter (\<lambda>t. a \<le> t \<and> t \<le> b) ts)"

definition limit_inv :: "limit_run \<Rightarrow> bool" where
  "limit_inv s \<longleftrightarrow> 0 < rl_max (lr_limiter s) \<and> 0 < rl_window (lr_limiter s) \<and> dwf (rl_hits (lr_limiter s)) \<and>
     set (dkeys (rl_hits (lr_limiter s))) \<subseteq> set (lr_clients s) \<and> distinct (lr_clients s) \<and>
     (\<forall>k. remembers s k \<and>
        (\<forall>a. int (in_window a (a + rl_window (lr_limiter s)) (times_of k (lr_allowed s))) \<le> rl_max (lr_limiter s)))"

definition limit_le :: "limit_run \<Rightarrow> limit_run \<Rightarrow> bool" where
  "limit_le s t \<longleftrightarrow> rl_max (lr_limiter t) = rl_max (lr_limiter s) \<and> rl_window (lr_limiter t) = rl_window (lr_limiter s)"

lemma prune_sorted: "sorted ts \<Longrightarrow> prune c ts = filter (\<lambda>t. c \<le> t) ts"
proof (induction ts)
  case (Cons a ts)
  show ?case
  proof (cases "c \<le> a")
    case True
    then have "filter (\<lambda>t. c \<le> t) ts = ts" using Cons.prems by (intro filter_True) auto
    then show ?thesis using True by (simp add: prune_def)
  next
    case False
    then show ?thesis using Cons by (simp add: prune_def)
  qed
qed (simp add: prune_def)

lemma sorted_filter_le: "sorted ts \<Longrightarrow> sorted (filter p (ts :: real list))"
  by (induction ts) auto

text \<open>Cleaning up without eviction prunes every list of hits, or leaves it.\<close>

lemma cleanup_hits:
  assumes "dwf (rl_hits l)" "length (rl_hits l) \<le> nat (rl_keys l)"
  shows "hits_of k (cleanup_locked now l) \<in> {hits_of k l, prune (now - rl_window l) (hits_of k l)} \<and>
     dwf (rl_hits (cleanup_locked now l)) \<and> set (dkeys (rl_hits (cleanup_locked now l))) \<subseteq> set (dkeys (rl_hits l)) \<and>
     rl_max (cleanup_locked now l) = rl_max l \<and> rl_window (cleanup_locked now l) = rl_window l \<and>
     rl_keys (cleanup_locked now l) = rl_keys l"
proof (cases "now - rl_cleaned l < rl_interval l")
  case False
  define d where "d = dmap (prune (now - rl_window l)) (rl_hits l)"
  define hits where "hits = filter (\<lambda>q. snd q \<noteq> []) d"
  have d: "dwf d" "dkeys d = dkeys (rl_hits l)" using assms(1) by (simp_all add: d_def)
  have "length hits \<le> length d" unfolding hits_def by (rule length_filter_le)
  also have "length d = length (rl_hits l)" by (simp add: d_def dmap_def)
  finally have "length hits - nat (rl_keys l) = 0" using assms(2) by simp
  then have c: "cleanup_locked now l = l\<lparr>rl_hits := hits, rl_cleaned := now\<rparr>"
    using False by (simp add: cleanup_locked_def Let_def hits_def d_def)
  have "dget hits k = (case dget d k of None \<Rightarrow> None | Some v \<Rightarrow> if v \<noteq> [] then Some v else None)"
    unfolding hits_def by (simp add: dget_filter [OF d(1)] split: option.split)
  then have "hits_of k (l\<lparr>rl_hits := hits, rl_cleaned := now\<rparr>) = prune (now - rl_window l) (hits_of k l)"
    by (auto simp: hits_of_def d_def dget_dmap prune_def dropWhile_eq_Nil_conv [THEN iffD2] split: option.splits)
  moreover have "set (dkeys hits) \<subseteq> set (dkeys d)" by (auto simp: hits_def)
  moreover have "dwf hits" unfolding hits_def by (rule dwf_filter [OF d(1)])
  ultimately show ?thesis unfolding c using d(2) by simp
qed (use assms in \<open>simp add: cleanup_locked_def\<close>)

lemma allow_spec:
  assumes "dwf (rl_hits l)" "length (rl_hits l) \<le> nat (rl_keys l)" "allow sha key now l = ((ok, wait), l')"
  defines "k \<equiv> norm_key sha key"
  shows "\<exists>ts. ts \<in> {prune (now - rl_window l) (hits_of k l), prune (now - rl_window l) (prune (now - rl_window l) (hits_of k l))} \<and>
     (ok \<longleftrightarrow> int (length ts) < rl_max l) \<and> hits_of k l' = (if ok then ts @ [now] else ts) \<and>
     (\<forall>j. j \<noteq> k \<longrightarrow> hits_of j l' \<in> {hits_of j l, prune (now - rl_window l) (hits_of j l)}) \<and>
     dwf (rl_hits l') \<and> set (dkeys (rl_hits l')) \<subseteq> insert k (set (dkeys (rl_hits l))) \<and>
     rl_max l' = rl_max l \<and> rl_window l' = rl_window l \<and> rl_keys l' = rl_keys l"
proof -
  define l1 where "l1 = cleanup_locked now l"
  define ts where "ts = prune (now - rl_window l) (hits_of k l1)"
  note c = cleanup_hits [OF assms(1,2), of _ now, folded l1_def]
  have w: "rl_window l1 = rl_window l" "rl_max l1 = rl_max l" "rl_keys l1 = rl_keys l" using c by auto
  have l': "ok \<longleftrightarrow> int (length ts) < rl_max l"
      "l' = l1\<lparr>rl_hits := ddel k (rl_hits l1) @ [(k, if ok then ts @ [now] else ts)]\<rparr>"
    using assms(3) w unfolding allow_def Let_def k_def [symmetric] l1_def [symmetric] ts_def by (auto split: if_splits)
  have get: "dget (ddel k d @ [(k, x)]) j = (if j = k then Some x else dget d j)" for j x and d :: "(string, real list) dict"
    using dget_ddel [of k d j] by (auto simp: map_add_def split: option.split)
  have "hits_of k l' = (if ok then ts @ [now] else ts)" unfolding l'(2) hits_of_def by (simp add: get del: map_of_append)
  moreover have "hits_of j l' = hits_of j l1" if "j \<noteq> k" for j
    using that unfolding l'(2) hits_of_def by (simp add: get del: map_of_append)
  moreover have "dwf (rl_hits l')" unfolding l'(2) using c set_dkeys_ddel [of k "rl_hits l1"] by simp
  moreover have "set (dkeys (rl_hits l')) \<subseteq> insert k (set (dkeys (rl_hits l)))"
    unfolding l'(2) using c [of k] set_dkeys_ddel [of k "rl_hits l1"] by auto
  moreover have "ts \<in> {prune (now - rl_window l) (hits_of k l), prune (now - rl_window l) (prune (now - rl_window l) (hits_of k l))}"
    unfolding ts_def using c [of k] by auto
  moreover have "rl_max l' = rl_max l" "rl_window l' = rl_window l" "rl_keys l' = rl_keys l" using l'(2) w by simp_all
  ultimately show ?thesis using l'(1) c by (intro exI [of _ ts]) auto
qed

lemma in_window_mono: "(\<And>t. t \<in> set ts \<Longrightarrow> a \<le> t \<and> t \<le> b \<Longrightarrow> c \<le> t) \<Longrightarrow> in_window a b ts \<le> length (filter (\<lambda>t. c \<le> t) ts)"
  unfolding in_window_def by (induction ts) auto

lemma remembers_pruned:
  assumes "remembers s k" "lr_clock s \<le> now"
  shows "prune (now - rl_window (lr_limiter s)) (hits_of k (lr_limiter s)) =
     filter (\<lambda>t. now - rl_window (lr_limiter s) \<le> t) (times_of k (lr_allowed s))"
proof -
  obtain c where c: "c \<le> lr_clock s - rl_window (lr_limiter s)" "sorted (times_of k (lr_allowed s))"
      "hits_of k (lr_limiter s) = filter (\<lambda>t. c \<le> t) (times_of k (lr_allowed s))"
    using assms(1) by (auto simp: remembers_def)
  have "sorted (hits_of k (lr_limiter s))" using c(2,3) by (simp add: sorted_filter_le)
  then show ?thesis using c(1,3) assms(2) by (auto simp: prune_sorted intro!: filter_cong)
qed

lemma limit_step_keeps:
  assumes inv: "limit_inv s" and ok: "limit_ok sha s x"
  shows "limit_inv (limit_step sha s x) \<and> limit_le s (limit_step sha s x)"
proof -
  obtain key now where x: "x = (key, now)" by (cases x)
  define k where "k = norm_key sha key"
  let ?l = "lr_limiter s" and ?w = "rl_window (lr_limiter s)"
  obtain b wait l' where al: "allow sha key now ?l = ((b, wait), l')" by (metis prod.exhaust)
  define s' where "s' = limit_step sha s x"
  have s': "s' = \<lparr>lr_limiter = l', lr_allowed = (if b then lr_allowed s @ [(k, now)] else lr_allowed s), lr_clock = now,
      lr_clients = List.insert k (lr_clients s)\<rparr>"
    using al by (simp add: s'_def x k_def)
  have now: "lr_clock s \<le> now" and room: "int (length (List.insert k (lr_clients s))) \<le> rl_keys ?l"
    using ok by (simp_all add: x k_def)
  have wf: "dwf (rl_hits ?l)" "set (dkeys (rl_hits ?l)) \<subseteq> set (lr_clients s)" "distinct (lr_clients s)"
    using inv by (simp_all add: limit_inv_def)
  have "length (rl_hits ?l) = card (set (dkeys (rl_hits ?l)))" using distinct_card [OF wf(1)] by simp
  also have "\<dots> \<le> length (lr_clients s)" using card_mono [OF _ wf(2)] distinct_card [OF wf(3)] by simp
  also have "\<dots> \<le> length (List.insert k (lr_clients s))" by (simp add: List.insert_def)
  finally have len: "length (rl_hits ?l) \<le> nat (rl_keys ?l)" using room by simp
  obtain ts where ts: "ts \<in> {prune (now - ?w) (hits_of k ?l), prune (now - ?w) (prune (now - ?w) (hits_of k ?l))}"
      "b \<longleftrightarrow> int (length ts) < rl_max ?l" "hits_of k l' = (if b then ts @ [now] else ts)"
      "\<forall>j. j \<noteq> k \<longrightarrow> hits_of j l' \<in> {hits_of j ?l, prune (now - ?w) (hits_of j ?l)}"
      "dwf (rl_hits l')" "set (dkeys (rl_hits l')) \<subseteq> insert k (set (dkeys (rl_hits ?l)))"
      "rl_max l' = rl_max ?l" "rl_window l' = ?w"
    using allow_spec [OF wf(1) len al] unfolding k_def by blast
  define H where "H = (\<lambda>j. times_of j (lr_allowed s))"
  have H: "sorted (H j)" "\<And>t. t \<in> set (H j) \<Longrightarrow> t \<le> lr_clock s" "remembers s j"
      "\<And>a. int (in_window a (a + ?w) (H j)) \<le> rl_max ?l" for j
    using inv unfolding limit_inv_def remembers_def H_def by blast+
  have pr: "prune (now - ?w) (hits_of j ?l) = filter (\<lambda>t. now - ?w \<le> t) (H j)" for j
    unfolding H_def by (rule remembers_pruned [OF H(3) now])
  have "prune (now - ?w) (filter (\<lambda>t. now - ?w \<le> t) (H k)) = filter (\<lambda>t. now - ?w \<le> t) (H k)"
    using H(1) by (simp add: prune_sorted sorted_filter_le)
  then have tsk: "ts = filter (\<lambda>t. now - ?w \<le> t) (H k)" using ts(1) pr by auto
  have H': "times_of j (lr_allowed s') = (if b \<and> j = k then H j @ [now] else H j)" for j
    by (simp add: s' times_of_def H_def)
  have le_now: "t \<le> now" if "t \<in> set (H j)" for t j using H(2) [OF that] now by simp
  have rem: "remembers s' j" for j
  proof -
    have srt: "sorted (times_of j (lr_allowed s'))" unfolding H' using H(1) le_now by (auto simp: sorted_append)
    have bnd: "\<forall>t\<in>set (times_of j (lr_allowed s')). t \<le> lr_clock s'" unfolding H' using le_now by (auto simp: s')
    have "\<exists>c. c \<le> now - ?w \<and> hits_of j l' = filter (\<lambda>t. c \<le> t) (times_of j (lr_allowed s'))"
    proof (cases "j = k")
      case True
      have "0 < ?w" using inv by (simp add: limit_inv_def)
      then show ?thesis unfolding H' using True ts(3) tsk by (intro exI [of _ "now - ?w"]) simp
    next
      case False
      then consider "hits_of j l' = hits_of j ?l" | "hits_of j l' = filter (\<lambda>t. now - ?w \<le> t) (H j)" using ts(4) pr by auto
      then show ?thesis
      proof cases
        case 1
        obtain c where "c \<le> lr_clock s - ?w" "hits_of j ?l = filter (\<lambda>t. c \<le> t) (H j)"
          using H(3) unfolding remembers_def H_def by blast
        then show ?thesis unfolding H' using False 1 now by (intro exI [of _ c]) simp
      next
        case 2
        then show ?thesis unfolding H' using False by (intro exI [of _ "now - ?w"]) simp
      qed
    qed
    then show ?thesis using srt bnd ts(8) unfolding remembers_def by (simp add: s')
  qed
  have win: "int (in_window a (a + ?w) (times_of j (lr_allowed s'))) \<le> rl_max ?l" for a j
  proof (cases "b \<and> j = k \<and> a \<le> now \<and> now \<le> a + ?w")
    case True
    have "in_window a (a + ?w) (H k) \<le> length ts" unfolding tsk using True by (intro in_window_mono) auto
    moreover have "in_window a (a + ?w) (H k @ [now]) = in_window a (a + ?w) (H k) + 1" using True by (simp add: in_window_def)
    ultimately show ?thesis unfolding H' using True ts(2) by simp
  next
    case False
    then have "in_window a (a + ?w) (times_of j (lr_allowed s')) = in_window a (a + ?w) (H j)"
      unfolding H' by (auto simp: in_window_def)
    then show ?thesis using H(4) by simp
  qed
  have "set (dkeys (rl_hits l')) \<subseteq> set (List.insert k (lr_clients s))" using ts(6) wf(2) by simp blast
  then have "limit_inv s'"
    using inv rem win ts(5,7,8) wf(3) unfolding limit_inv_def by (simp add: s')
  then show ?thesis using ts(7,8) by (simp add: limit_le_def s' flip: s'_def)
qed

interpretation limits: machine "limit_step sha" "limit_ok sha" limit_inv limit_le
proof
  show "limit_inv (limit_step sha s x)" "limit_le s (limit_step sha s x)" if "limit_inv s" "limit_ok sha s x" for s x
    using limit_step_keeps [OF that] by blast+
qed (auto simp: limit_le_def)

section \<open>Property\<close>

definition start_run :: "limiter \<Rightarrow> real \<Rightarrow> limit_run" where
  "start_run l now = \<lparr>lr_limiter = l, lr_allowed = [], lr_clock = now, lr_clients = []\<rparr>"


definition demo_calls :: "(string \<times> real) list" where
  "demo_calls = [(''a'', 1), (''a'', 2), (''b'', 2), (''a'', 3), (''a'', 11), (''a'', 12)]"


end
