(* ===== verification/Training.thy ===== *)
theory Training
  imports Learning
begin

text \<open>
  The training pairs harvested from completed goals and the evolved model built from them
  (\<open>infrastructure/model_training/training_dataset.py\<close>, \<open>local_model_builder.py\<close>).

  A line of the dataset file is its content: blank, not JSON, an object without \<open>episode_id\<close>,
  an object that lacks another key, or an example. \<open>repr\<close> of a value and the format of an
  adjustment are arguments, and so is the command that runs \<open>ollama\<close>: an exception, or the
  return code and the two outputs. The engine stores texts as identifier and name of a
  capability; another value is read as the empty text, as a missing one is.
\<close>

section \<open>The dataset\<close>

record example =
  ex_episode :: string
  ex_task :: string
  ex_capability :: string
  ex_name :: string
  ex_input :: pyval
  ex_output :: pyval

datatype dataset_line = Blank | NotJson | NoId | Partial string string | Example example

record dataset =
  ds_file :: "dataset_line list option"
  ds_known :: "string list"

definition line_id :: "dataset_line \<Rightarrow> string option" where
  "line_id l = (case l of Partial i _ \<Rightarrow> Some i | Example x \<Rightarrow> Some (ex_episode x) | _ \<Rightarrow> None)"

definition lines_of :: "dataset \<Rightarrow> dataset_line list" where
  "lines_of ds = (case ds_file ds of None \<Rightarrow> [] | Some ls \<Rightarrow> ls)"

definition open_dataset :: "dataset_line list option \<Rightarrow> dataset" where
  "open_dataset f =
     (let ds = \<lparr>ds_file = f, ds_known = []\<rparr> in
      ds\<lparr>ds_known := fold (\<lambda>l ks. case line_id l of None \<Rightarrow> ks | Some i \<Rightarrow> List.insert i ks) (lines_of ds) []\<rparr>)"

definition text_of :: "(string, pyval) dict \<Rightarrow> string \<Rightarrow> string" where
  "text_of d k = (case pget d k of PStr s \<Rightarrow> s | _ \<Rightarrow> [])"

definition result_of :: "episode \<Rightarrow> (string, pyval) dict" where
  "result_of e = (case ep_result e of None \<Rightarrow> [] | Some r \<Rightarrow> r)"

definition example_of :: "episode \<Rightarrow> example" where
  "example_of e = \<lparr>ex_episode = ep_id e, ex_task = ep_task e, ex_capability = text_of (ep_payload e) ''capability_id'',
     ex_name = text_of (ep_payload e) ''capability_name'', ex_input = pget (ep_payload e) ''input'',
     ex_output = pget (result_of e) ''output''\<rparr>"

definition succeeded :: "episode \<Rightarrow> bool" where
  "succeeded e \<longleftrightarrow> truthy (pget (result_of e) ''success'')"

definition harvest_limit :: nat where
  "harvest_limit = 500"

definition harvest :: "nat \<Rightarrow> mem_layer \<Rightarrow> dataset \<Rightarrow> nat \<times> dataset" where
  "harvest limit l ds =
     (let found = filter (\<lambda>e. ep_id e \<notin> set (ds_known ds) \<and> succeeded e)
                    (ep_for_action ''goal.completed'' limit (ml_episodes l));
          new = map example_of found
      in if new = [] then (0, ds)
         else (length new,
               ds\<lparr>ds_file := Some (lines_of ds @ map Example new),
                  ds_known := fold List.insert (map ex_episode new) (ds_known ds)\<rparr>))"

definition count_examples :: "dataset \<Rightarrow> nat" where
  "count_examples ds = length (ds_known ds)"

fun read_lines :: "dataset_line list \<Rightarrow> raised + example list" where
  "read_lines [] = Inr []"
| "read_lines (Blank # ls) = read_lines ls"
| "read_lines (NotJson # ls) = Inl (''JSONDecodeError'', [])"
| "read_lines (NoId # ls) = Inl (''KeyError'', ''episode_id'')"
| "read_lines (Partial _ k # ls) = Inl (''KeyError'', k)"
| "read_lines (Example x # ls) = map_sum id (\<lambda>xs. x # xs) (read_lines ls)"

definition read_all :: "dataset \<Rightarrow> raised + example list" where
  "read_all ds = read_lines (lines_of ds)"

definition group_examples :: "example list \<Rightarrow> (string, example list) dict" where
  "group_examples xs =
     fold (\<lambda>x d. dset (ex_name x) ((case dget d (ex_name x) of None \<Rightarrow> [] | Some ys \<Rightarrow> ys) @ [x]) d) xs []"

definition examples_by_capability :: "dataset \<Rightarrow> raised + (string, example list) dict" where
  "examples_by_capability ds = map_sum id group_examples (read_all ds)"

section \<open>The builder\<close>

definition newline :: string where
  "newline = [CHR 0x0A]"

definition quote3 :: string where
  "quote3 = replicate 3 (CHR 0x22)"

definition system_prompt :: string where
  "system_prompt =
     ''You are the evolved Reus model. Your knowledge has accumulated from '' @
     ''actual execution of prior tasks within Reus, not from general data. '' @
     ''When responding, prioritize patterns that succeeded in the examples below.''"

text \<open>\<open>ModelfileBuilder.build\<close>: the text of the Modelfile.\<close>

definition modelfile :: "(pyval \<Rightarrow> string) \<Rightarrow> string \<Rightarrow> nat \<Rightarrow> (string, example list) dict \<Rightarrow> string list \<Rightarrow> string" where
  "modelfile repr base most groups notes =
     (let prompt = system_prompt @
            (if notes = [] then []
             else newline @ newline @ ''Accumulated reliability notes:'' @ newline @
                    join_sep newline (map (\<lambda>n. ''- '' @ n) notes));
          messages = (\<lambda>name x.
            [''MESSAGE user '' @ quote3 @ ''['' @ name @ ''] input: '' @ repr (ex_input x) @ quote3,
             ''MESSAGE assistant '' @ quote3 @ repr (ex_output x) @ quote3])
      in join_sep newline
           ([''FROM '' @ base, ''SYSTEM '' @ quote3 @ prompt @ quote3] @
            concat (map (\<lambda>g. concat (map (messages (fst g)) (take most (snd g)))) (sort_key fst groups))) @ newline)"

record model_build =
  bu_success :: bool
  bu_model :: string
  bu_path :: string
  bu_examples :: nat
  bu_stdout :: string
  bu_stderr :: string

record model_builder =
  lb_base :: string
  lb_most :: nat
  lb_model :: string
  lb_path :: string
  lb_learning :: bool
  lb_modelfile :: "string option"
  lb_last :: "model_build option"

fun reliability_notes :: "(real \<Rightarrow> string) \<Rightarrow> mem_layer \<Rightarrow> (string, example list) dict \<Rightarrow> raised + string list" where
  "reliability_notes fmt l [] = Inr []"
| "reliability_notes fmt l ((name, xs) # gs) =
     (let c = (case xs of [] \<Rightarrow> [] | x # _ \<Rightarrow> ex_capability x) in
      if c = [] then reliability_notes fmt l gs
      else
        (case score_adjustment c l of
           Inl e \<Rightarrow> Inl (''UnknownEntityError'', e)
         | Inr a \<Rightarrow>
             map_sum id (\<lambda>ns. (name @ '': learned reliability adjustment = '' @ fmt a) # ns) (reliability_notes fmt l gs)))"

text \<open>The last step of a build: the result becomes the last build and is returned.\<close>

definition built :: "bool \<Rightarrow> nat \<Rightarrow> string \<Rightarrow> string \<Rightarrow> model_builder \<Rightarrow> (raised + model_build) \<times> model_builder" where
  "built ok n out err b =
     (let r = \<lparr>bu_success = ok, bu_model = lb_model b, bu_path = lb_path b, bu_examples = n, bu_stdout = out, bu_stderr = err\<rparr>
      in (Inr r, b\<lparr>lb_last := Some r\<rparr>))"

definition build_model ::
    "(pyval \<Rightarrow> string) \<Rightarrow> (real \<Rightarrow> string) \<Rightarrow> (string list \<Rightarrow> raised + int \<times> string \<times> string) \<Rightarrow> mem_layer \<Rightarrow> dataset
     \<Rightarrow> model_builder \<Rightarrow> (raised + model_build) \<times> model_builder" where
  "build_model repr fmt command l ds b =
     (case examples_by_capability ds of
        Inl e \<Rightarrow> (Inl e, b)
      | Inr groups \<Rightarrow>
          (case (if lb_learning b then reliability_notes fmt l groups else Inr []) of
             Inl e \<Rightarrow> (Inl e, b)
           | Inr notes \<Rightarrow>
               (let total = sum_list (map length (dvals groups));
                    b1 = b\<lparr>lb_modelfile := Some (modelfile repr (lb_base b) (lb_most b) groups notes)\<rparr>
                in if total = 0
                   then built False 0 [] ''No accumulated training examples exist yet; ollama create was not invoked.'' b1
                   else
                     (case command [''ollama'', ''create'', lb_model b, ''-f'', lb_path b] of
                        Inl e \<Rightarrow> (Inl e, b1)
                      | Inr (code, out, err) \<Rightarrow> built (code = 0) total out err b1))))"

end
