(* ===== verification/Training_Props.thy ===== *)
theory Training_Props
  imports Training
begin

text \<open>
  Episodes, harvests and restarts as a machine. As long as no more goals complete between two
  harvests than a harvest inspects, the dataset is exactly the successful completed goals; a
  goal that falls out of the inspected window is never harvested. The builder's result.
\<close>

section \<open>The machine\<close>

text \<open>\<open>hv_since\<close> counts the goals completed since the last harvest.\<close>

record harvesting =
  hv_memory :: mem_layer
  hv_dataset :: dataset
  hv_since :: nat

datatype harvest_op =
    HEpisode mem_env string string "(string, pyval) dict" "(string, pyval) dict option"
  | HHarvest nat
  | HReopen

fun harvest_step :: "harvesting \<Rightarrow> harvest_op \<Rightarrow> harvesting" where
  "harvest_step s (HEpisode env task action payload result) =
     s\<lparr>hv_memory := snd (ml_record_episode env task action payload result (hv_memory s)),
       hv_since := (if action = ''goal.completed'' then hv_since s + 1 else hv_since s)\<rparr>"
| "harvest_step s (HHarvest limit) = s\<lparr>hv_dataset := snd (harvest limit (hv_memory s) (hv_dataset s)), hv_since := 0\<rparr>"
| "harvest_step s HReopen = s\<lparr>hv_dataset := open_dataset (ds_file (hv_dataset s))\<rparr>"

text \<open>Identifiers of episodes are fresh and the clock does not go back.\<close>

fun episode_ok :: "harvesting \<Rightarrow> harvest_op \<Rightarrow> bool" where
  "episode_ok s (HEpisode env task action payload result) \<longleftrightarrow>
     (\<forall>e\<in>set (ml_episodes (hv_memory s)). ep_id e \<noteq> me_id env \<and> ep_created e \<le> me_now env)"
| "episode_ok s _ \<longleftrightarrow> True"

text \<open>Every harvest inspects at least the goals completed since the last one.\<close>

definition harvest_ok :: "harvesting \<Rightarrow> harvest_op \<Rightarrow> bool" where
  "harvest_ok s x \<longleftrightarrow> episode_ok s x \<and> (case x of HHarvest limit \<Rightarrow> hv_since s \<le> limit | _ \<Rightarrow> True)"

definition limited_ok :: "nat \<Rightarrow> harvesting \<Rightarrow> harvest_op \<Rightarrow> bool" where
  "limited_ok n s x \<longleftrightarrow> episode_ok s x \<and> (case x of HHarvest limit \<Rightarrow> limit = n | _ \<Rightarrow> True)"

definition goals :: "harvesting \<Rightarrow> episode list" where
  "goals s = filter (\<lambda>e. ep_action e = ''goal.completed'') (ml_episodes (hv_memory s))"

text \<open>\<open>hs\<close> are the episodes whose examples the dataset holds.\<close>

definition holds :: "harvesting \<Rightarrow> episode list \<Rightarrow> bool" where
  "holds s hs \<longleftrightarrow> lines_of (hv_dataset s) = map (\<lambda>e. Example (example_of e)) hs \<and> distinct (map ep_id hs) \<and>
     set hs \<subseteq> {e \<in> set (goals s). succeeded e} \<and> distinct (ds_known (hv_dataset s)) \<and>
     set (ds_known (hv_dataset s)) = ep_id ` set hs"

definition episodes_wf :: "harvesting \<Rightarrow> bool" where
  "episodes_wf s \<longleftrightarrow> distinct (map ep_id (ml_episodes (hv_memory s))) \<and> sorted (map ep_created (ml_episodes (hv_memory s)))"

definition harvest_inv :: "harvesting \<Rightarrow> bool" where
  "harvest_inv s \<longleftrightarrow> episodes_wf s \<and> hv_since s \<le> length (goals s) \<and>
     (\<exists>hs. holds s hs \<and> {e \<in> set (take (length (goals s) - hv_since s) (goals s)). succeeded e} \<subseteq> set hs)"

definition lost_inv :: "nat \<Rightarrow> episode \<Rightarrow> harvesting \<Rightarrow> bool" where
  "lost_inv n e s \<longleftrightarrow> episodes_wf s \<and> e \<in> set (take (length (goals s) - n) (goals s)) \<and>
     (\<exists>hs. holds s hs \<and> e \<notin> set hs)"

section \<open>One step\<close>

lemma record_episodes:
  "ml_episodes (snd (ml_record_episode env task action payload result l)) =
     ml_episodes l @ [\<lparr>ep_id = me_id env, ep_task = task, ep_actor = ac_id (ml_actor l), ep_action = action,
       ep_payload = payload, ep_result = result, ep_created = me_now env\<rparr>]"
  by (simp add: ml_record_episode_def ep_record_def log_action_def Let_def)

lemma take_newest: "set (take n (rev gs)) = set (drop (length gs - n) gs)"
  by (simp add: take_rev)

lemma goals_distinct: "episodes_wf s \<Longrightarrow> distinct (map ep_id (goals s))"
  unfolding episodes_wf_def goals_def by (simp add: distinct_map_filter)

lemma recent_goals:
  assumes "episodes_wf s"
  shows "set (ep_for_action ''goal.completed'' n (ml_episodes (hv_memory s))) = set (drop (length (goals s) - n) (goals s))"
    "distinct (map ep_id (ep_for_action ''goal.completed'' n (ml_episodes (hv_memory s))))"
proof -
  have "sorted (map ep_created (goals s))" using assms unfolding goals_def episodes_wf_def by (simp add: sorted_filter)
  then have e: "ep_for_action ''goal.completed'' n (ml_episodes (hv_memory s)) = take n (rev (goals s))"
    by (simp add: ep_for_action_def newest_first_def goals_def sorted_sort_id sort_key_id_if_sorted)
  show "set (ep_for_action ''goal.completed'' n (ml_episodes (hv_memory s))) = set (drop (length (goals s) - n) (goals s))"
    unfolding e by (rule take_newest)
  have "distinct (map ep_id (rev (goals s)))" using goals_distinct [OF assms] by (simp flip: rev_map)
  then show "distinct (map ep_id (ep_for_action ''goal.completed'' n (ml_episodes (hv_memory s))))"
    unfolding e by (metis distinct_take take_map)
qed

lemma known_fold: "set (fold List.insert ks xs) = set ks \<union> set xs \<and> (distinct xs \<longrightarrow> distinct (fold List.insert ks xs))"
  by (induction ks arbitrary: xs) auto

lemma reopen_known:
  assumes "lines_of ds = map (\<lambda>e. Example (example_of e)) hs"
  shows "distinct (ds_known (open_dataset (ds_file ds))) \<and> set (ds_known (open_dataset (ds_file ds))) = ep_id ` set hs \<and>
     lines_of (open_dataset (ds_file ds)) = lines_of ds"
proof -
  have l: "lines_of \<lparr>ds_file = ds_file ds, ds_known = []\<rparr> = lines_of ds" by (simp add: lines_of_def)
  have "distinct (fold (\<lambda>l ks. case line_id l of None \<Rightarrow> ks | Some i \<Rightarrow> List.insert i ks) (map (\<lambda>e. Example (example_of e)) es) ks) \<and>
      set (fold (\<lambda>l ks. case line_id l of None \<Rightarrow> ks | Some i \<Rightarrow> List.insert i ks) (map (\<lambda>e. Example (example_of e)) es) ks) =
        ep_id ` set es \<union> set ks" if "distinct ks" for es ks
    using that by (induction es arbitrary: ks) (auto simp: line_id_def example_of_def)
  from this [of "[]" hs] show ?thesis
    unfolding open_dataset_def Let_def l assms by (simp add: lines_of_def assms [unfolded lines_of_def])
qed

text \<open>What a harvest adds: the successful goals in the window that are not known.\<close>

lemma harvest_holds:
  assumes wf: "episodes_wf s" and h: "holds s hs"
  obtains found where "holds (harvest_step s (HHarvest n)) (hs @ found)"
    "set found = {e \<in> set (drop (length (goals s) - n) (goals s)). succeeded e \<and> ep_id e \<notin> ep_id ` set hs}"
proof -
  define found where "found = filter (\<lambda>e. ep_id e \<notin> set (ds_known (hv_dataset s)) \<and> succeeded e)
      (ep_for_action ''goal.completed'' n (ml_episodes (hv_memory s)))"
  note r = recent_goals [OF wf, of n]
  have f: "set found = {e \<in> set (drop (length (goals s) - n) (goals s)). succeeded e \<and> ep_id e \<notin> ep_id ` set hs}"
    using r(1) h unfolding found_def holds_def by auto
  have d: "distinct (map ep_id found)" unfolding found_def using r(2) by (rule distinct_map_filter)
  let ?s = "harvest_step s (HHarvest n)"
  have g: "goals ?s = goals s" by (simp add: goals_def)
  have l: "lines_of (hv_dataset ?s) = lines_of (hv_dataset s) @ map (\<lambda>e. Example (example_of e)) found"
    by (simp add: harvest_def Let_def flip: found_def) (simp add: lines_of_def o_def)
  have k: "set (ds_known (hv_dataset ?s)) = ep_id ` set found \<union> set (ds_known (hv_dataset s))"
      "distinct (ds_known (hv_dataset s)) \<longrightarrow> distinct (ds_known (hv_dataset ?s))"
    using known_fold [of "map ep_id found" "ds_known (hv_dataset s)"]
    by (simp_all add: harvest_def Let_def example_of_def o_def flip: found_def)
  have "set found \<subseteq> {e \<in> set (goals s). succeeded e}" unfolding f by (auto dest: in_set_dropD)
  moreover have "ep_id ` set hs \<inter> ep_id ` set found = {}" unfolding disjoint_iff
  proof (intro allI impI notI)
    fix i assume "i \<in> ep_id ` set hs" "i \<in> ep_id ` set found"
    then show False unfolding f by (elim imageE) simp
  qed
  moreover note h [unfolded holds_def]
  ultimately have "holds ?s (hs @ found)"
    unfolding holds_def g using l k d by (simp add: image_Un Un_commute)
  then show ?thesis using that f by blast
qed


lemma episodes_step:
  assumes "episodes_wf s" "episode_ok s x"
  shows "episodes_wf (harvest_step s x)"
    "\<exists>new. goals (harvest_step s x) = goals s @ new \<and>
       length new = (case x of HEpisode env task action payload result \<Rightarrow> if action = ''goal.completed'' then 1 else 0 | _ \<Rightarrow> 0)"
  using assms by (cases x; auto simp: episodes_wf_def goals_def record_episodes sorted_append)+

lemma holds_quiet:
  assumes "holds s hs" "\<forall>limit. x \<noteq> HHarvest limit" "episodes_wf s" "episode_ok s x"
  shows "holds (harvest_step s x) hs"
proof -
  obtain new where "goals (harvest_step s x) = goals s @ new" using episodes_step(2) [OF assms(3,4)] by blast
  then have g: "set (goals s) \<subseteq> set (goals (harvest_step s x))" by auto
  show ?thesis
  proof (cases x)
    case HReopen
    have l: "lines_of (hv_dataset s) = map (\<lambda>e. Example (example_of e)) hs" using assms(1) by (simp add: holds_def)
    show ?thesis using reopen_known [OF l] assms(1) g HReopen unfolding holds_def by simp blast
  qed (use assms(1,2) g in \<open>auto simp: holds_def\<close>)
qed

lemma harvest_step_keeps:
  assumes inv: "harvest_inv s" and ok: "harvest_ok s x"
  shows "harvest_inv (harvest_step s x)"
proof -
  have wf: "episodes_wf s" and eo: "episode_ok s x" using inv ok by (simp_all add: harvest_inv_def harvest_ok_def)
  obtain hs where hs: "holds s hs" "{e \<in> set (take (length (goals s) - hv_since s) (goals s)). succeeded e} \<subseteq> set hs"
      and since: "hv_since s \<le> length (goals s)"
    using inv by (auto simp: harvest_inv_def)
  obtain new where new: "goals (harvest_step s x) = goals s @ new"
      "length new = (case x of HEpisode env task action payload result \<Rightarrow> if action = ''goal.completed'' then 1 else 0 | _ \<Rightarrow> 0)"
    using episodes_step(2) [OF wf eo] by blast
  note wf' = episodes_step(1) [OF wf eo]
  show ?thesis
  proof (cases "\<exists>limit. x = HHarvest limit")
    case True
    then obtain n where x: "x = HHarvest n" ..
    obtain found where found: "holds (harvest_step s x) (hs @ found)"
        "set found = {e \<in> set (drop (length (goals s) - n) (goals s)). succeeded e \<and> ep_id e \<notin> ep_id ` set hs}"
      using harvest_holds [OF wf hs(1)] unfolding x by blast
    have n: "hv_since s \<le> n" using ok x by (simp add: harvest_ok_def)
    have "e \<in> set (hs @ found)" if e: "e \<in> set (goals s)" "succeeded e" for e
    proof (cases "e \<in> set (drop (length (goals s) - n) (goals s))")
      case True
      have "e \<in> set hs" if "e' \<in> set hs" "ep_id e = ep_id e'" for e'
      proof -
        have "inj_on ep_id (set (goals s))" using goals_distinct [OF wf] by (simp add: distinct_map)
        moreover have "e' \<in> set (goals s)" using that(1) hs(1) by (auto simp: holds_def)
        ultimately have "e = e'" using e(1) that(2) by (blast dest: inj_onD)
        then show ?thesis using that(1) by simp
      qed
      then show ?thesis using True e found(2) by auto
    next
      case False
      have "e \<in> set (take (length (goals s) - n) (goals s)) \<union> set (drop (length (goals s) - n) (goals s))"
        using e(1) by (metis append_take_drop_id set_append)
      then have "e \<in> set (take (length (goals s) - n) (goals s))" using False by blast
      then have "e \<in> set (take (length (goals s) - hv_since s) (goals s))"
        using set_take_subset_set_take [OF diff_le_mono2 [OF n], of "length (goals s)" "goals s"] by blast
      then show ?thesis using hs(2) e(2) by auto
    qed
    then show ?thesis
      using wf' found(1) new x unfolding harvest_inv_def by (intro conjI exI [of _ "hs @ found"]) auto
  next
    case False
    then have h: "holds (harvest_step s x) hs" using holds_quiet [OF hs(1) _ wf eo] by blast
    have "hv_since (harvest_step s x) = hv_since s + length new" using False new(2) by (cases x) auto
    then show ?thesis using wf' h hs(2) since new(1) unfolding harvest_inv_def by (intro conjI exI [of _ hs]) auto
  qed
qed

lemma lost_step_keeps:
  assumes inv: "lost_inv n e s" and ok: "limited_ok n s x"
  shows "lost_inv n e (harvest_step s x)"
proof -
  have wf: "episodes_wf s" and eo: "episode_ok s x" using inv ok by (simp_all add: lost_inv_def limited_ok_def)
  obtain hs where hs: "holds s hs" "e \<notin> set hs" and e: "e \<in> set (take (length (goals s) - n) (goals s))"
    using inv by (auto simp: lost_inv_def)
  obtain new where new: "goals (harvest_step s x) = goals s @ new" using episodes_step(2) [OF wf eo] by blast
  have "set (take (length (goals s) - n) (goals s)) \<subseteq> set (take (length (goals (harvest_step s x)) - n) (goals (harvest_step s x)))"
    unfolding new using set_take_subset_set_take [OF diff_le_mono [of "length (goals s)" "length (goals s @ new)" n], of "goals s"] by simp blast
  then have e': "e \<in> set (take (length (goals (harvest_step s x)) - n) (goals (harvest_step s x)))" using e by blast
  show ?thesis
  proof (cases "\<exists>limit. x = HHarvest limit")
    case True
    then have x: "x = HHarvest n" using ok by (auto simp: limited_ok_def)
    obtain found where found: "holds (harvest_step s x) (hs @ found)"
        "set found = {e \<in> set (drop (length (goals s) - n) (goals s)). succeeded e \<and> ep_id e \<notin> ep_id ` set hs}"
      using harvest_holds [OF wf hs(1)] unfolding x by blast
    have "distinct (goals s)" using goals_distinct [OF wf] by (rule distinct_map [THEN iffD1, THEN conjunct1])
    then have "set (take (length (goals s) - n) (goals s)) \<inter> set (drop (length (goals s) - n) (goals s)) = {}"
      by (rule set_take_disj_set_drop_if_distinct) simp
    then have "e \<notin> set found" using e found(2) by blast
    then show ?thesis using episodes_step(1) [OF wf eo] e' found(1) hs(2) unfolding lost_inv_def by (intro conjI exI [of _ "hs @ found"]) auto
  next
    case False
    then have "holds (harvest_step s x) hs" using holds_quiet [OF hs(1) _ wf eo] by blast
    then show ?thesis using episodes_step(1) [OF wf eo] e' hs(2) unfolding lost_inv_def by blast
  qed
qed

interpretation harvests: machine harvest_step harvest_ok harvest_inv "\<lambda>_ _. True"
  by unfold_locales (simp_all add: harvest_step_keeps)

interpretation losses: machine harvest_step "limited_ok n" "lost_inv n e" "\<lambda>_ _. True"
  by unfold_locales (simp_all add: lost_step_keeps)


section \<open>Properties\<close>

definition fresh_harvesting :: "harvesting \<Rightarrow> bool" where
  "fresh_harvesting s \<longleftrightarrow> ml_episodes (hv_memory s) = [] \<and> hv_dataset s = open_dataset None \<and> hv_since s = 0"

lemma fresh_holds: "fresh_harvesting s \<Longrightarrow> holds s [] \<and> goals s = [] \<and> episodes_wf s"
  by (simp add: fresh_harvesting_def holds_def goals_def episodes_wf_def open_dataset_def lines_of_def)

lemma read_examples: "read_lines (map (\<lambda>e. Example (example_of e)) hs) = Inr (map example_of hs)"
  by (induction hs) simp_all

lemma holds_read: "holds s hs \<Longrightarrow> read_all (hv_dataset s) = Inr (map example_of hs) \<and> count_examples (hv_dataset s) = length hs"
  unfolding holds_def read_all_def count_examples_def
  by (metis distinct_card length_map list.set_map read_examples)

text \<open>
  C24: the dataset is the experience of the node: over any episodes, harvests and restarts, if
  every harvest inspects at least the goals completed since the one before, then after a
  harvest the dataset file holds an example of every successfully completed goal, of nothing
  else, and of none twice, and the count is their number.
\<close>

theorem dataset_is_completed_goals:
  assumes "fresh_harvesting s" "legal harvest_ok harvest_step s (ops @ [HHarvest n])"
  shows "\<exists>hs. read_all (hv_dataset (run harvest_step s (ops @ [HHarvest n]))) = Inr (map example_of hs) \<and>
     distinct (map ep_id hs) \<and> count_examples (hv_dataset (run harvest_step s (ops @ [HHarvest n]))) = length hs \<and>
     set hs = {e \<in> set (ml_episodes (hv_memory (run harvest_step s (ops @ [HHarvest n])))).
                 ep_action e = ''goal.completed'' \<and> succeeded e}"
proof -
  let ?t = "run harvest_step s (ops @ [HHarvest n])"
  have "harvest_inv s" using assms(1) fresh_holds [OF assms(1)] by (auto simp: harvest_inv_def fresh_harvesting_def)
  then have "harvest_inv ?t" by (rule harvests.run_inv) (rule assms(2))
  moreover have "hv_since ?t = 0" by (simp add: run_append)
  ultimately obtain hs where hs: "holds ?t hs" "{e \<in> set (goals ?t). succeeded e} \<subseteq> set hs"
    by (auto simp: harvest_inv_def)
  then have "set hs = {e \<in> set (ml_episodes (hv_memory ?t)). ep_action e = ''goal.completed'' \<and> succeeded e}"
    unfolding holds_def goals_def by auto
  then show ?thesis using holds_read [OF hs(1)] hs(1) unfolding holds_def by blast
qed

text \<open>
  A delayed harvest loses goals: once a successful goal is not harvested and more than the
  inspected number of goals have completed after it, no sequence of further episodes, restarts
  and harvests with that limit ever brings it into the dataset.
\<close>

theorem overlooked_goal_stays_lost:
  assumes "fresh_harvesting s" "legal (limited_ok n) harvest_step s (before @ after)"
    and "e \<in> set (take (length (goals (run harvest_step s before)) - n) (goals (run harvest_step s before)))"
    and "ep_id e \<notin> set (ds_known (hv_dataset (run harvest_step s before)))"
  shows "ep_id e \<notin> set (ds_known (hv_dataset (run harvest_step s (before @ after))))"
proof -
  let ?s = "run harvest_step s before"
  have "legal harvest_ok' harvest_step s xs \<Longrightarrow> (\<And>s x. harvest_ok' s x \<Longrightarrow> episode_ok s x) \<Longrightarrow> episodes_wf s \<and> (\<exists>hs. holds s hs) \<Longrightarrow>
      episodes_wf (run harvest_step s xs) \<and> (\<exists>hs. holds (run harvest_step s xs) hs)" for harvest_ok' xs s
  proof (induction xs arbitrary: s)
    case (Cons x xs)
    have ok: "episode_ok s x" using Cons.prems by simp
    obtain hs where hs: "episodes_wf s" "holds s hs" using Cons.prems(3) by blast
    have "\<exists>hs. holds (harvest_step s x) hs"
    proof (cases "\<exists>limit. x = HHarvest limit")
      case True
      then obtain n where x: "x = HHarvest n" ..
      show ?thesis unfolding x by (rule harvest_holds [OF hs, of n]) blast
    next
      case False
      then show ?thesis using holds_quiet [OF hs(2) _ hs(1) ok] by blast
    qed
    then show ?case using Cons.IH [of "harvest_step s x"] Cons.prems episodes_step(1) [OF _ ok] by simp
  qed simp
  from this [of "limited_ok n" s before] obtain hs where hs: "episodes_wf ?s" "holds ?s hs"
    using assms(1,2) fresh_holds [OF assms(1)] by (auto simp: legal_append limited_ok_def)
  have "e \<notin> set hs" using assms(4) hs(2) by (auto simp: holds_def)
  then have "lost_inv n e ?s" using hs assms(3) unfolding lost_inv_def by blast
  then have "lost_inv n e (run harvest_step ?s after)"
    by (rule losses.run_inv) (use assms(2) in \<open>simp add: legal_append\<close>)
  then obtain hs' where h: "holds (run harvest_step s (before @ after)) hs'" "e \<notin> set hs'"
      and wf: "episodes_wf (run harvest_step s (before @ after))" and e: "e \<in> set (goals (run harvest_step s (before @ after)))"
    unfolding lost_inv_def run_append by (blast dest: in_set_takeD)
  have "ep_id e \<notin> ep_id ` set hs'"
  proof
    assume "ep_id e \<in> ep_id ` set hs'"
    then obtain e' where e': "e' \<in> set hs'" "ep_id e = ep_id e'" by auto
    have "inj_on ep_id (set (goals (run harvest_step s (before @ after))))" using goals_distinct [OF wf] by (simp add: distinct_map)
    moreover have "e' \<in> set (goals (run harvest_step s (before @ after)))" using e'(1) h(1) by (auto simp: holds_def)
    ultimately show False using e e' h(2) by (blast dest: inj_onD)
  qed
  then show ?thesis using h(1) by (simp add: holds_def)
qed

definition demo_harvesting :: harvesting where
  "demo_harvesting = \<lparr>hv_memory = \<lparr>ml_working = [], ml_episodes = [], ml_semantic = \<lparr>sm_entities = [], sm_facts = []\<rparr>,
       ml_audit = [], ml_actor = \<lparr>ac_id = ''memory'', ac_public = ''k'', ac_private = ''p''\<rparr>\<rparr>,
     hv_dataset = open_dataset None, hv_since = 0\<rparr>"

definition demo_completed :: "string \<Rightarrow> bool \<Rightarrow> harvest_op" where
  "demo_completed i ok = HEpisode \<lparr>me_sha = \<lambda>_. ''h'', me_sign = \<lambda>_ _. ''s'', me_now = ''t'' @ i, me_id = i\<rparr> ''task''
     (if ok then ''goal.completed'' else ''goal.failed_execution'')
     [(''capability_id'', PStr ''c''), (''capability_name'', PStr ''tool''), (''input'', PInt 1)]
     (Some [(''success'', PBool ok), (''output'', PInt 2)])"

lemma demo_harvesting_fresh: "fresh_harvesting demo_harvesting"
  by (simp add: fresh_harvesting_def demo_harvesting_def)

theorem dataset_is_completed_goals_witness:
  "\<exists>hs. read_all (hv_dataset (run harvest_step demo_harvesting
       ([demo_completed ''a'' True, HHarvest 2, HReopen, demo_completed ''b'' False, demo_completed ''c'' True] @ [HHarvest 2]))) =
     Inr (map example_of hs) \<and> map ep_id hs = [''a'', ''c'']"
proof -
  let ?t = "run harvest_step demo_harvesting
      ([demo_completed ''a'' True, HHarvest 2, HReopen, demo_completed ''b'' False, demo_completed ''c'' True] @ [HHarvest 2])"
  have l: "legal harvest_ok harvest_step demo_harvesting
      ([demo_completed ''a'' True, HHarvest 2, HReopen, demo_completed ''b'' False, demo_completed ''c'' True] @ [HHarvest 2])" by code_simp
  obtain hs where hs: "read_all (hv_dataset ?t) = Inr (map example_of hs)"
    using dataset_is_completed_goals [OF demo_harvesting_fresh l] by blast
  have "map ex_episode (projr (read_all (hv_dataset ?t))) = [''a'', ''c'']" by code_simp
  then have "map ep_id hs = [''a'', ''c'']" using hs by (simp add: example_of_def o_def)
  with hs show ?thesis by (intro exI [of _ hs] conjI)
qed

theorem overlooked_goal_stays_lost_witness:
  "''a'' \<notin> set (ds_known (hv_dataset (run harvest_step demo_harvesting
       ([demo_completed ''a'' True, demo_completed ''b'' True] @ [HHarvest 1, demo_completed ''c'' True, HHarvest 1]))))"
proof -
  let ?e = "\<lparr>ep_id = ''a'', ep_task = ''task'', ep_actor = ''memory'', ep_action = ''goal.completed'',
      ep_payload = [(''capability_id'', PStr ''c''), (''capability_name'', PStr ''tool''), (''input'', PInt 1)],
      ep_result = Some [(''success'', PBool True), (''output'', PInt 2)], ep_created = ''ta''\<rparr>"
  let ?before = "[demo_completed ''a'' True, demo_completed ''b'' True]"
  have l: "legal (limited_ok 1) harvest_step demo_harvesting (?before @ [HHarvest 1, demo_completed ''c'' True, HHarvest 1])"
    by code_simp
  have e: "take (length (goals (run harvest_step demo_harvesting ?before)) - 1) (goals (run harvest_step demo_harvesting ?before)) = [?e]"
    by code_simp
  have k: "ds_known (hv_dataset (run harvest_step demo_harvesting ?before)) = []" by code_simp
  show ?thesis using overlooked_goal_stays_lost [OF demo_harvesting_fresh l, of ?e] e k by simp
qed

end
