(* ===== verification/Promotion.thy ===== *)
theory Promotion
  imports Training Approval
begin

text \<open>
  The choice of the model that answers: the active model (\<open>infrastructure/model_promotion.py\<close>),
  its promotion by the administrators (\<open>application/model_promotion_service.py\<close>) and the daily
  report that harvests, builds and announces (\<open>application/daily_report_service.py\<close>).

  The pictographs of the messages are left out, and the lines of a message are the list of its
  lines joined by line breaks. \<open>v\<close> supplies identifiers and times to the learning layer.
\<close>

section \<open>The active model\<close>

text \<open>
  The file is absent, unreadable (or not an object with a name), or names a model.
\<close>

datatype model_file = NoFile | Unreadable | NoName | Names string

record active_model =
  am_base :: string
  am_active :: string
  am_file :: model_file

definition open_active :: "string \<Rightarrow> model_file \<Rightarrow> active_model" where
  "open_active base f = \<lparr>am_base = base, am_active = (case f of Names m \<Rightarrow> m | _ \<Rightarrow> base), am_file = f\<rparr>"

definition is_promoted :: "active_model \<Rightarrow> bool" where
  "is_promoted a \<longleftrightarrow> am_active a \<noteq> am_base a"

definition set_active :: "string \<Rightarrow> active_model \<Rightarrow> active_model" where
  "set_active m a = a\<lparr>am_active := m, am_file := Names m\<rparr>"

definition reset_to_base :: "active_model \<Rightarrow> active_model" where
  "reset_to_base a = set_active (am_base a) a"

section \<open>The service\<close>

record readiness =
  rd_ready :: bool
  rd_total :: int
  rd_min :: int
  rd_last :: "bool option"
  rd_unreliable :: "string list"

definition reason :: "readiness \<Rightarrow> string" where
  "reason r =
     (if rd_ready r then ''All maturity criteria are met.''
      else join_sep ''; ''
        ((if rd_total r < rd_min r
          then [''training examples ('' @ show_int (rd_total r) @ '') are below the minimum ('' @ show_int (rd_min r) @ '')''] else []) @
         (if rd_last r \<noteq> Some True then [''the last actual evolved-model build has not succeeded''] else []) @
         (if rd_unreliable r \<noteq> [] then [''capabilities shown to be unreliable: '' @ join_sep '', '' (rd_unreliable r)] else [])))"

definition unreliable_threshold :: real where
  "unreliable_threshold = - 1"

record promotion =
  pr_memory :: mem_layer
  pr_learning :: actor
  pr_dataset :: dataset
  pr_builder :: model_builder
  pr_active :: active_model
  pr_telegram :: telegram
  pr_admins :: "string list"
  pr_evolved :: string
  pr_min :: int
  pr_notified :: bool
  pr_callbacks :: "(string, string) dict"
  pr_events :: "(string \<times> (string \<times> string) list) list"

definition pr_say :: "string \<Rightarrow> string \<Rightarrow> promotion \<Rightarrow> promotion" where
  "pr_say chat txt s = s\<lparr>pr_telegram := emit (Say chat (Text txt)) (pr_telegram s)\<rparr>"

definition pr_publish :: "string \<Rightarrow> (string \<times> string) list \<Rightarrow> promotion \<Rightarrow> promotion" where
  "pr_publish name payload s = s\<lparr>pr_events := pr_events s @ [(name, payload)]\<rparr>"

text \<open>The loop over the capabilities: learn, and then collect the names whose score is below the threshold.\<close>

fun assess :: "mind_env \<Rightarrow> nat \<Rightarrow> actor \<Rightarrow> (string, example list) dict \<Rightarrow> mem_layer \<Rightarrow> (raised + string list) \<times> mem_layer" where
  "assess v n a [] l = (Inr [], l)"
| "assess v n a ((name, xs) # gs) l =
     (let c = (case xs of [] \<Rightarrow> [] | x # _ \<Rightarrow> ex_capability x) in
      if c = [] then assess v n a gs l
      else
        (case learn_from_capability v n a c l of
           (Inl e, l1) \<Rightarrow> (Inl (''UnknownEntityError'', e), l1)
         | (Inr _, l1) \<Rightarrow>
             (case score_adjustment c l1 of
                Inl e \<Rightarrow> (Inl (''UnknownEntityError'', e), l1)
              | Inr x \<Rightarrow>
                  (case assess v (n + 3) a gs l1 of
                     (res, l2) \<Rightarrow> (map_sum id (\<lambda>names. if x < unreliable_threshold then name # names else names) res, l2)))))"

definition evaluate_readiness :: "mind_env \<Rightarrow> promotion \<Rightarrow> (raised + readiness) \<times> promotion" where
  "evaluate_readiness v s =
     (let count = int (count_examples (pr_dataset s)); last = map_option bu_success (lb_last (pr_builder s)) in
      case examples_by_capability (pr_dataset s) of
        Inl e \<Rightarrow> (Inl e, s)
      | Inr groups \<Rightarrow>
          (case assess v 0 (pr_learning s) groups (pr_memory s) of
             (Inl e, l) \<Rightarrow> (Inl e, s\<lparr>pr_memory := l\<rparr>)
           | (Inr bad, l) \<Rightarrow>
               (Inr \<lparr>rd_ready = count \<ge> pr_min s \<and> last = Some True \<and> bad = [], rd_total = count, rd_min = pr_min s,
                     rd_last = last, rd_unreliable = bad\<rparr>,
                s\<lparr>pr_memory := l\<rparr>)))"

definition notify_if_newly_ready :: "mind_env \<Rightarrow> promotion \<Rightarrow> raised option \<times> promotion" where
  "notify_if_newly_ready v s =
     (case evaluate_readiness v s of
        (Inl e, s1) \<Rightarrow> (Some e, s1)
      | (Inr r, s1) \<Rightarrow>
          if \<not> rd_ready r then (None, s1\<lparr>pr_notified := False\<rparr>)
          else if pr_notified s1 \<or> is_promoted (pr_active s1) then (None, s1)
          else
            (None, fold (\<lambda>chat. pr_say chat
               (''The evolved model meets the configured maturity criteria (see /model_status).'' @ newline @
                ''To request promotion as the active model: /promote_model'' @ newline @
                ''A promotion applies to the next task without a restart.'')) (pr_admins s1) (s1\<lparr>pr_notified := True\<rparr>)))"

definition show_last :: "bool option \<Rightarrow> string" where
  "show_last b = (case b of None \<Rightarrow> ''None'' | Some x \<Rightarrow> if x then ''True'' else ''False'')"

definition command_status :: "mind_env \<Rightarrow> string \<Rightarrow> promotion \<Rightarrow> raised option \<times> promotion" where
  "command_status v chat s =
     (case evaluate_readiness v s of
        (Inl e, s1) \<Rightarrow> (Some e, s1)
      | (Inr r, s1) \<Rightarrow>
          (None, pr_say chat (join_sep newline
             [''Active model: '' @ am_active (pr_active s1),
              ''Promoted? '' @ (if is_promoted (pr_active s1) then ''yes'' else ''no''),
              ''Accumulated training examples: '' @ show_int (rd_total r) @ '' (minimum: '' @ show_int (rd_min r) @ '')'',
              ''Last build succeeded? '' @ show_last (rd_last r),
              ''Ready for promotion? '' @ (if rd_ready r then ''yes'' else ''no: '' @ reason r)]) s1))"

text \<open>\<open>aid\<close> is the fresh identifier of the approval.\<close>

definition command_promote :: "mind_env \<Rightarrow> string \<Rightarrow> string \<Rightarrow> real \<Rightarrow> promotion \<Rightarrow> raised option \<times> promotion" where
  "command_promote v chat aid now s =
     (case evaluate_readiness v s of
        (Inl e, s1) \<Rightarrow> (Some e, s1)
      | (Inr r, s1) \<Rightarrow>
          if \<not> rd_ready r then (None, pr_say chat (''The evolved model is not ready for promotion: '' @ reason r) s1)
          else
            (let (res, g) = request_approval chat aid
                   (''Promote the active model from its current value to '' @ pr_evolved s1 @
                    ''. The promotion applies to the next task through Ollama.'') now (pr_telegram s1)
             in (case res of
                   Inl e \<Rightarrow> Some (if is_admin_chat chat (pr_telegram s1) then ''ValueError'' else ''PermissionError'', e)
                 | Inr _ \<Rightarrow> None,
                 s1\<lparr>pr_telegram := g,
                    pr_callbacks := (if entered aid (pr_telegram s1) g then dset aid chat (pr_callbacks s1) else pr_callbacks s1)\<rparr>)))"

definition execute_promote :: "string \<Rightarrow> promotion \<Rightarrow> raised option \<times> promotion" where
  "execute_promote chat s =
     (None,
      pr_say chat (''The active model was promoted to '' @ pr_evolved s @ ''.'')
        (pr_publish ''model.promoted'' [(''model_name'', pr_evolved s)]
          (s\<lparr>pr_active := set_active (pr_evolved s) (pr_active s)\<rparr>)))"

definition answer_promotion :: "string \<Rightarrow> string \<Rightarrow> bool \<Rightarrow> real \<Rightarrow> real \<Rightarrow> promotion \<Rightarrow> promotion" where
  "answer_promotion =
     answer_gate pr_telegram (\<lambda>g s. s\<lparr>pr_telegram := g\<rparr>) pr_callbacks execute_promote (\<lambda>chat. pr_say chat ''Promotion cancelled.'')"

definition command_demote :: "string \<Rightarrow> promotion \<Rightarrow> promotion" where
  "command_demote chat s =
     (if \<not> is_promoted (pr_active s)
      then pr_say chat ''The active model is already the base model; there is nothing to demote.'' s
      else
        pr_say chat (''The active model was restored to '' @ am_base (pr_active s) @ ''.'')
          (pr_publish ''model.demoted'' [(''previous_model_name'', am_active (pr_active s))]
            (s\<lparr>pr_active := reset_to_base (pr_active s), pr_notified := False\<rparr>)))"

section \<open>The daily report\<close>

text \<open>
  \<open>counts\<close> are the proposals by status (none without a ledger), \<open>promo\<close> says that the service is
  wired, and \<open>admins\<close> are the chats of the report. An exception of a build or of the check is
  caught; one of the harvest is not modelled.
\<close>

definition report_text :: "nat \<Rightarrow> nat \<Rightarrow> model_build option \<Rightarrow> (string, int) dict \<Rightarrow> string" where
  "report_text new all_of result counts =
     join_sep newline
       ([''Reus daily report'', ''New training examples today: '' @ show_int (int new),
         ''Total accumulated training examples: '' @ show_int (int all_of)] @
        (case result of
           None \<Rightarrow> []
         | Some r \<Rightarrow>
             [if bu_success r
              then ''Evolved model '' @ bu_model r @ '' was rebuilt using '' @ show_int (int (bu_examples r)) @ '' example(s).''
              else ''Evolved-model rebuild failed: '' @ (if bu_stderr r = [] then ''unknown error'' else bu_stderr r)]) @
        (if counts = [] then []
         else [''Governance proposal status: '' @
               join_sep '', '' (map (\<lambda>q. fst q @ '': '' @ show_int (snd q)) (sort_key fst counts))]))"

definition run_once ::
    "mind_env \<Rightarrow> (pyval \<Rightarrow> string) \<Rightarrow> (real \<Rightarrow> string) \<Rightarrow> (string list \<Rightarrow> raised + int \<times> string \<times> string) \<Rightarrow> (string, int) dict \<Rightarrow>
     string list \<Rightarrow> bool \<Rightarrow> promotion \<Rightarrow> (nat \<times> nat \<times> model_build option) \<times> promotion" where
  "run_once v repr fmt command counts admins promo s =
     (let (new, ds) = harvest harvest_limit (pr_memory s) (pr_dataset s);
          all_of = count_examples ds;
          (res, b) = (if new > 0 then build_model repr fmt command (pr_memory s) ds (pr_builder s) else (Inl ([], []), pr_builder s));
          result = (case res of Inl _ \<Rightarrow> None | Inr r \<Rightarrow> Some r);
          s1 = s\<lparr>pr_dataset := ds, pr_builder := b\<rparr>;
          s2 = fold (\<lambda>chat. pr_say chat (report_text new all_of result counts)) admins s1
      in ((new, all_of, result), if promo then snd (notify_if_newly_ready v s2) else s2))"

section \<open>Restart\<close>

text \<open>Memory and files stay; the Telegram service \<open>g\<close> is new, and what was kept in memory is gone.\<close>

definition restart_promotion :: "telegram \<Rightarrow> promotion \<Rightarrow> promotion" where
  "restart_promotion g s =
     s\<lparr>pr_dataset := open_dataset (ds_file (pr_dataset s)), pr_builder := (pr_builder s)\<lparr>lb_last := None\<rparr>,
       pr_active := open_active (am_base (pr_active s)) (am_file (pr_active s)), pr_telegram := g, pr_notified := False,
       pr_callbacks := []\<rparr>"

end
