(* ===== verification/Promotion_Props.thy ===== *)
theory Promotion_Props
  imports Promotion Approval_Props
begin

text \<open>
  The active model changes only by a demotion or by the confirmed approval of a promotion that
  was requested when the evolved model was ready, and survives restarts. What readiness does
  not look at: learned unreliability. What stops it: a corrupt line of the dataset.
\<close>

section \<open>Readiness\<close>

lemma map_sum_Inr: "map_sum id f z = Inr y \<longleftrightarrow> (\<exists>x. z = Inr x \<and> y = f x)"
  by (cases z) auto

lemma score_at_least:
  assumes "score_adjustment c l = Inr x"
  shows "- 2 / 10 \<le> x"
proof -
  have "- 2 / 10 \<le> label_adjustment s" for s by (simp add: label_adjustment_def)
  then show ?thesis
    using assms unfolding score_adjustment_def by (auto simp: map_sum_Inr split: option.splits list.splits)
qed

lemma assess_finds_none: "assess v n a gs l = (Inr bad, l') \<Longrightarrow> bad = []"
proof (induction v n a gs l arbitrary: bad l' rule: assess.induct)
  case (2 v n a name xs gs l)
  define c where "c = (case xs of [] \<Rightarrow> [] | x # _ \<Rightarrow> ex_capability x)"
  show ?case
  proof (cases "c = []")
    case True
    then show ?thesis using 2(1) [OF c_def True] 2(3) by (simp flip: c_def)
  next
    case False
    then obtain rep l1 x res l2 where o: "learn_from_capability v n a c l = (Inr rep, l1)" "score_adjustment c l1 = Inr x"
        "assess v (n + 3) a gs l1 = (res, l2)"
        "map_sum id (\<lambda>names. if x < unreliable_threshold then name # names else names) res = Inr bad"
      using 2(3) by (auto simp: split: prod.splits sum.splits simp flip: c_def)
    have "\<not> x < unreliable_threshold" using score_at_least [OF o(2)] by (simp add: unreliable_threshold_def)
    then have "res = Inr bad" using o(4) by (cases res) simp_all
    then show ?thesis using 2(2) [OF c_def False o(1) [symmetric] refl o(2), of bad l2] o(3) by simp
  qed
qed simp

lemma evaluate_only_learns: "\<exists>l. snd (evaluate_readiness v s) = s\<lparr>pr_memory := l\<rparr>"
proof -
  have "\<exists>l. s = s\<lparr>pr_memory := l\<rparr>" by (rule exI [of _ "pr_memory s"]) simp
  then show ?thesis by (auto simp: evaluate_readiness_def Let_def split: sum.splits prod.splits)
qed

lemma evaluate_keeps [simp]:
  "pr_active (snd (evaluate_readiness v s)) = pr_active s" "pr_evolved (snd (evaluate_readiness v s)) = pr_evolved s"
  "pr_callbacks (snd (evaluate_readiness v s)) = pr_callbacks s" "pr_telegram (snd (evaluate_readiness v s)) = pr_telegram s"
  using evaluate_only_learns [of v s] by auto

lemma pr_says [simp]:
  "pr_active (pr_say chat txt s) = pr_active s" "pr_evolved (pr_say chat txt s) = pr_evolved s"
  "pr_callbacks (pr_say chat txt s) = pr_callbacks s"
  "pr_active (pr_publish n p s) = pr_active s" "pr_evolved (pr_publish n p s) = pr_evolved s"
  "pr_callbacks (pr_publish n p s) = pr_callbacks s"
  by (simp_all add: pr_say_def pr_publish_def)

lemma pr_says_all [simp]:
  "pr_active (fold (\<lambda>chat. pr_say chat txt) chats s) = pr_active s"
  "pr_evolved (fold (\<lambda>chat. pr_say chat txt) chats s) = pr_evolved s"
  "pr_callbacks (fold (\<lambda>chat. pr_say chat txt) chats s) = pr_callbacks s"
  by (induction chats arbitrary: s) simp_all

section \<open>The machine\<close>

datatype promotion_op =
    PMemory mem_layer
  | PReport mind_env "pyval \<Rightarrow> string" "real \<Rightarrow> string" "string list \<Rightarrow> raised + int \<times> string \<times> string" "(string, int) dict"
      "string list" bool
  | PStatus mind_env string
  | PPromote mind_env string string real
  | PDemote string
  | PAnswer string string bool real real
  | PRestart telegram

fun promotion_step :: "promotion \<Rightarrow> promotion_op \<Rightarrow> promotion" where
  "promotion_step s (PMemory l) = s\<lparr>pr_memory := l\<rparr>"
| "promotion_step s (PReport v repr fmt command counts admins promo) = snd (run_once v repr fmt command counts admins promo s)"
| "promotion_step s (PStatus v chat) = snd (command_status v chat s)"
| "promotion_step s (PPromote v chat aid now) = snd (command_promote v chat aid now s)"
| "promotion_step s (PDemote chat) = command_demote chat s"
| "promotion_step s (PAnswer chat args ok t1 t2) = answer_promotion chat args ok t1 t2 s"
| "promotion_step s (PRestart g) = restart_promotion g s"

definition file_ok :: "promotion \<Rightarrow> bool" where
  "file_ok s \<longleftrightarrow> open_active (am_base (pr_active s)) (am_file (pr_active s)) = pr_active s"

definition promotion_le :: "promotion \<Rightarrow> promotion \<Rightarrow> bool" where
  "promotion_le s t \<longleftrightarrow> pr_evolved t = pr_evolved s \<and> am_base (pr_active t) = am_base (pr_active s)"

interpretation promotion_gate: gate_client pr_telegram "\<lambda>g s. s\<lparr>pr_telegram := g\<rparr>" pr_callbacks
    "\<lambda>chat. pr_say chat ''Promotion cancelled.''" "\<lambda>s. (pr_active s, pr_evolved s)"
  by unfold_locales simp_all

lemma set_active_simps [simp]:
  "am_active (set_active m a) = m" "am_base (set_active m a) = am_base a"
  "open_active (am_base a) (am_file (set_active m a)) = set_active m a"
  by (simp_all add: set_active_def open_active_def)

lemma command_promote_keeps:
  "pr_active (snd (command_promote v chat aid now s)) = pr_active s" "pr_evolved (snd (command_promote v chat aid now s)) = pr_evolved s"
  using evaluate_keeps [of v s] by (auto simp: command_promote_def Let_def split: prod.splits sum.splits simp del: evaluate_keeps)

text \<open>Who changes the active model.\<close>

lemma promotion_step_active:
  obtains (same) "pr_active (promotion_step s x) = pr_active s" "pr_evolved (promotion_step s x) = pr_evolved s"
    "\<forall>g. x \<noteq> PRestart g"
  | (demoted) chat where "x = PDemote chat" "pr_active (promotion_step s x) = reset_to_base (pr_active s)"
      "pr_evolved (promotion_step s x) = pr_evolved s"
  | (promoted) chat args t1 t2 p g c where "x = PAnswer chat args True t1 t2"
      "take_pending chat args t1 t2 (pr_telegram s) = (Some p, g)" "dget (pr_callbacks s) (py_strip args) = Some c"
      "pr_active (promotion_step s x) = set_active (pr_evolved s) (pr_active s)" "pr_evolved (promotion_step s x) = pr_evolved s"
  | (restarted) g where "x = PRestart g"
      "pr_active (promotion_step s x) = open_active (am_base (pr_active s)) (am_file (pr_active s))"
      "pr_evolved (promotion_step s x) = pr_evolved s"
proof (cases x)
  case (PReport v repr fmt command counts admins promo)
  have n: "pr_active (snd (notify_if_newly_ready v t)) = pr_active t \<and> pr_evolved (snd (notify_if_newly_ready v t)) = pr_evolved t" for t
    using evaluate_keeps [of v t]
    by (auto simp: notify_if_newly_ready_def split: prod.splits sum.splits simp del: evaluate_keeps)
  show ?thesis by (rule same) (simp_all add: PReport run_once_def Let_def n split: prod.split)
next
  case (PStatus v chat)
  show ?thesis
    by (rule same) (use evaluate_keeps [of v s] in \<open>auto simp: PStatus command_status_def split: prod.splits sum.splits simp del: evaluate_keeps\<close>)
next
  case (PDemote chat)
  show ?thesis
  proof (cases "is_promoted (pr_active s)")
    case True
    then show ?thesis by (intro demoted [OF PDemote]) (simp_all add: PDemote command_demote_def)
  next
    case False
    then show ?thesis by (intro same) (simp_all add: PDemote command_demote_def)
  qed
next
  case (PAnswer chat args ok t1 t2)
  show ?thesis
  proof (cases rule: promotion_gate.answer_cases [of execute_promote chat args ok t1 t2 s, folded answer_promotion_def,
        case_names idle executed])
    case idle
    then show ?thesis by (intro same) (simp_all add: PAnswer)
  next
    case (executed p g c s1 res s2)
    then show ?thesis
      by (intro promoted [of chat args t1 t2 p g c]) (auto simp: PAnswer execute_promote_def)
  qed
next
  case (PRestart g)
  show ?thesis by (rule restarted [OF PRestart]) (simp_all add: PRestart restart_promotion_def)
qed (rule same, simp_all add: command_promote_keeps)

lemma promotion_step_keeps:
  assumes "file_ok s"
  shows "file_ok (promotion_step s x) \<and> promotion_le s (promotion_step s x)"
  by (cases rule: promotion_step_active [of s x])
    (use assms in \<open>simp_all add: file_ok_def promotion_le_def reset_to_base_def\<close>)

interpretation promotions: machine promotion_step "\<lambda>_ _. True" file_ok promotion_le
  by unfold_locales (simp_all add: promotion_step_keeps, auto simp: promotion_le_def)

text \<open>A registered callback stems from a request made when the model was ready.\<close>

lemma step_callbacks:
  assumes "dget (pr_callbacks (promotion_step s x)) i = Some c"
  shows "dget (pr_callbacks s) i = Some c \<or>
     (\<exists>v now r. x = PPromote v c i now \<and> fst (evaluate_readiness v s) = Inr r \<and> rd_ready r \<and> is_admin_chat c (pr_telegram s))"
proof (cases x)
  case (PReport v repr fmt command counts admins promo)
  have n: "pr_callbacks (snd (notify_if_newly_ready v t)) = pr_callbacks t" for t
    using evaluate_keeps [of v t]
    by (auto simp: notify_if_newly_ready_def split: prod.splits sum.splits simp del: evaluate_keeps)
  show ?thesis using assms by (simp add: PReport run_once_def Let_def n split: prod.splits if_splits)
next
  case (PStatus v chat)
  then show ?thesis using assms evaluate_keeps [of v s]
    by (auto simp: command_status_def split: prod.splits sum.splits simp del: evaluate_keeps)
next
  case (PPromote v chat aid now)
  obtain res s1 where e: "evaluate_readiness v s = (res, s1)" by (cases "evaluate_readiness v s")
  have k: "pr_callbacks s1 = pr_callbacks s" "pr_telegram s1 = pr_telegram s" using evaluate_keeps [of v s] by (simp_all add: e)
  show ?thesis
  proof (cases "\<exists>r. res = Inr r \<and> rd_ready r")
    case True
    then obtain r where r: "res = Inr r" "rd_ready r" by blast
    obtain out g where q: "request_approval chat aid (''Promote the active model from its current value to '' @ pr_evolved s1 @
        ''. The promotion applies to the next task through Ollama.'') now (pr_telegram s1) = (out, g)"
      using prod.exhaust by blast
    have adm: "is_admin_chat chat (pr_telegram s)" if "entered aid (pr_telegram s1) g"
      using that q k(2) by (auto simp: entered_def request_approval_def split: if_splits)
    have "pr_callbacks (promotion_step s x) =
        (if entered aid (pr_telegram s1) g then dset aid chat (pr_callbacks s1) else pr_callbacks s1)"
      using e r q by (simp add: PPromote command_promote_def Let_def)
    then show ?thesis using assms adm r e k PPromote by (auto simp: dict_simps split: if_splits)
  next
    case False
    then show ?thesis using assms e k by (cases res) (auto simp: PPromote command_promote_def)
  qed
next
  case (PDemote chat)
  then show ?thesis using assms by (auto simp: command_demote_def split: if_splits)
next
  case (PAnswer chat args ok t1 t2)
  have "pr_callbacks (answer_promotion chat args ok t1 t2 s) = pr_callbacks s"
    by (auto simp: answer_promotion_def answer_gate_def Let_def execute_promote_def split: prod.splits option.splits bool.splits)
  then show ?thesis using assms PAnswer by simp
qed (use assms in \<open>simp_all add: restart_promotion_def\<close>)

lemma callbacks_were_ready:
  assumes "pr_callbacks s = []" "dget (pr_callbacks (run promotion_step s ops)) i = Some c"
  shows "\<exists>before v now after r. ops = before @ PPromote v c i now # after \<and>
     fst (evaluate_readiness v (run promotion_step s before)) = Inr r \<and> rd_ready r \<and>
     is_admin_chat c (pr_telegram (run promotion_step s before))"
  using assms(2)
proof (induction ops rule: rev_induct)
  case (snoc x ops)
  then have "dget (pr_callbacks (promotion_step (run promotion_step s ops) x)) i = Some c" by (simp add: run_append)
  from step_callbacks [OF this] show ?case
  proof (elim disjE exE conjE)
    assume "dget (pr_callbacks (run promotion_step s ops)) i = Some c"
    from snoc.IH [OF this] show ?thesis by (metis append.assoc append_Cons)
  qed blast
qed (use assms(1) in simp)


section \<open>Properties\<close>


text \<open>
  Learned unreliability never blocks a promotion: in every state an evaluation that
  returns finds no unreliable capability, whatever has been learned, so that readiness is the
  number of examples and the last build alone.
\<close>

theorem unreliable_never_blocks:
  assumes "evaluate_readiness v s = (Inr r, s')"
  shows "rd_unreliable r = [] \<and>
     (rd_ready r \<longleftrightarrow> pr_min s \<le> int (count_examples (pr_dataset s)) \<and> map_option bu_success (lb_last (pr_builder s)) = Some True)"
proof -
  obtain bad l where "assess v 0 (pr_learning s) (projr (examples_by_capability (pr_dataset s))) (pr_memory s) = (Inr bad, l)"
      "rd_unreliable r = bad" "rd_ready r \<longleftrightarrow> pr_min s \<le> int (count_examples (pr_dataset s)) \<and>
        map_option bu_success (lb_last (pr_builder s)) = Some True \<and> bad = []"
    using assms by (auto simp: evaluate_readiness_def Let_def split: sum.splits prod.splits)
  then show ?thesis using assess_finds_none by blast
qed

lemma bad_line_raises:
  "l \<in> set ls \<Longrightarrow> l \<noteq> Blank \<Longrightarrow> (\<And>x. l \<noteq> Example x) \<Longrightarrow> \<exists>e. read_lines ls = Inl e"
proof (induction ls)
  case (Cons k ls)
  then show ?case by (cases k) auto
qed simp

text \<open>
  One bad line of the dataset disables the evolution of the model: the store accepts it
  when it is opened and goes on harvesting and counting, but as long as the line is there every
  status and promotion command and every build raises, whatever the readiness, and none of them
  changes the active model or the last build.
\<close>

theorem bad_line_disables_promotion:
  assumes "l \<in> set (lines_of (pr_dataset s))" "l \<noteq> Blank" "\<And>x. l \<noteq> Example x"
  shows "\<exists>e. command_promote v chat aid now s = (Some e, s) \<and> command_status v chat s = (Some e, s) \<and>
     build_model repr fmt command (pr_memory s) (snd (harvest n (pr_memory s) (pr_dataset s))) (pr_builder s) = (Inl e, pr_builder s)"
proof -
  obtain e where e: "read_lines (lines_of (pr_dataset s)) = Inl e" using bad_line_raises [OF assms] by blast
  have app: "read_lines (ls @ ks) = Inl e" if "read_lines ls = Inl e" for ls ks
    using that
  proof (induction ls rule: read_lines.induct)
    case (6 x ls)
    then show ?case by (cases "read_lines ls") simp_all
  qed simp_all
  have "read_all (snd (harvest n (pr_memory s) (pr_dataset s))) = Inl e"
    using app [OF e] e by (simp add: harvest_def read_all_def Let_def) (simp add: lines_of_def)
  then show ?thesis
    using e by (simp add: command_promote_def command_status_def evaluate_readiness_def build_model_def
        examples_by_capability_def read_all_def Let_def)
qed

definition demo_goal_of :: "string \<Rightarrow> bool \<Rightarrow> episode" where
  "demo_goal_of i ok = \<lparr>ep_id = i, ep_task = ''task'', ep_actor = ''m'',
     ep_action = (if ok then ''goal.completed'' else ''goal.failed_execution''),
     ep_payload = [(''capability_id'', PStr ''c''), (''capability_name'', PStr ''tool''), (''input'', PInt 1)],
     ep_result = Some [(''success'', PBool ok), (''output'', PInt 2), (''error'', PNone)], ep_created = i\<rparr>"

text \<open>A capability that failed three times out of four; one example, a successful build.\<close>

definition demo_promotion :: promotion where
  "demo_promotion = \<lparr>pr_memory = \<lparr>ml_working = [], ml_episodes = [demo_goal_of ''1'' True, demo_goal_of ''2'' False, demo_goal_of ''3'' False,
         demo_goal_of ''4'' False], ml_semantic = \<lparr>sm_entities = [], sm_facts = []\<rparr>,
       ml_audit = [], ml_actor = \<lparr>ac_id = ''m'', ac_public = ''k'', ac_private = ''p''\<rparr>\<rparr>,
     pr_learning = \<lparr>ac_id = ''l'', ac_public = ''k'', ac_private = ''p''\<rparr>,
     pr_dataset = \<lparr>ds_file = Some [Example (example_of (demo_goal_of ''1'' True))], ds_known = [''1'']\<rparr>,
     pr_builder = \<lparr>lb_base = ''llama'', lb_most = 5, lb_model = ''evolved'', lb_path = ''Modelfile'', lb_learning = True, lb_modelfile = None,
       lb_last = Some \<lparr>bu_success = True, bu_model = ''evolved'', bu_path = ''Modelfile'', bu_examples = 1, bu_stdout = [], bu_stderr = []\<rparr>\<rparr>,
     pr_active = open_active ''llama'' NoFile,
     pr_telegram = \<lparr>tg_admins = [''adm''], tg_ttl = 300, tg_pending = [], tg_store = None, tg_links = [], tg_tasks = [], tg_out = []\<rparr>,
     pr_admins = [''adm''], pr_evolved = ''evolved'', pr_min = 1, pr_notified = False, pr_callbacks = [], pr_events = []\<rparr>"

definition promotion_ids :: mind_env where
  "promotion_ids = \<lparr>ve_sha = \<lambda>_. ''h'', ve_sign = \<lambda>_ _. ''s'', ve_now = ''now'', ve_ids = \<lambda>n. replicate (n + 1) CHR ''i''\<rparr>"

theorem unreliable_never_blocks_witness:
  "map_sum id rd_ready (fst (evaluate_readiness promotion_ids demo_promotion)) = Inr True \<and>
   score_adjustment ''c'' (pr_memory (snd (evaluate_readiness promotion_ids demo_promotion))) = Inr 3"
proof -
  have ok: "\<not> isl (fst (evaluate_readiness promotion_ids demo_promotion))" by code_simp
  then obtain r s' where e: "evaluate_readiness promotion_ids demo_promotion = (Inr r, s')"
    by (metis prod.collapse sum.collapse(2))
  have "pr_min demo_promotion \<le> int (count_examples (pr_dataset demo_promotion))"
    "map_option bu_success (lb_last (pr_builder demo_promotion)) = Some True" by code_simp+
  then have "rd_ready r" using unreliable_never_blocks [OF e] by simp
  moreover have "score_adjustment ''c'' (pr_memory (snd (evaluate_readiness promotion_ids demo_promotion))) = Inr 3" by code_simp
  ultimately show ?thesis using e by simp
qed

definition demo_promotion_ops :: "promotion_op list" where
  "demo_promotion_ops = [PPromote promotion_ids ''adm'' ''ap'' 100]"


theorem bad_line_disables_promotion_witness:
  "\<exists>e. fst (command_promote promotion_ids ''adm'' ''ap'' 100
     (demo_promotion\<lparr>pr_dataset := open_dataset (Some [Example (example_of (demo_goal_of ''1'' True)), NotJson])\<rparr>)) = Some e"
proof -
  let ?s = "demo_promotion\<lparr>pr_dataset := open_dataset (Some [Example (example_of (demo_goal_of ''1'' True)), NotJson])\<rparr>"
  have m: "NotJson \<in> set (lines_of (pr_dataset ?s))" by (simp add: open_dataset_def lines_of_def Let_def)
  obtain e where "command_promote promotion_ids ''adm'' ''ap'' 100 ?s = (Some e, ?s)"
    using bad_line_disables_promotion [OF m, of promotion_ids "''adm''" "''ap''" 100 "\<lambda>_. []" "\<lambda>_. []" "\<lambda>_. Inr (0, [], [])" 1] by blast
  then show ?thesis by (intro exI [of _ e]) simp
qed

end
