(* ===== verification/Federation.thy ===== *)
theory Federation
  imports Prelude
begin

text \<open>
  The metadata-only federation (\<open>infrastructure/cluster_network/federation.py\<close>): trust domains
  approved by people, the directory of capability advertisements, and the allocator of leases.
  Sets of texts are lists. Every call takes the time it uses, given by the caller or read from
  the clock. A \<open>FederationPolicyError\<close> is its message. The directory refers to the registry, if
  it has one, so that a later approval is seen by it.
\<close>

section \<open>Trust domains\<close>

definition sha256_text :: "string \<Rightarrow> bool" where
  "sha256_text v \<longleftrightarrow> length v = 64 \<and> (\<forall>c\<in>set (py_lower v). c \<in> set ''0123456789abcdef'')"

definition bounded :: "string \<Rightarrow> bool" where
  "bounded s \<longleftrightarrow> s \<noteq> [] \<and> length s \<le> 128"

record trust_domain =
  td_id :: string
  td_root :: string
  td_allowed :: "string list"

definition validate_domain :: "trust_domain \<Rightarrow> string + unit" where
  "validate_domain d =
     (if \<not> bounded (td_id d) then Inl ''invalid trust domain identifier''
      else if \<not> sha256_text (td_root d) then Inl ''root_fingerprint must be a SHA-256 hexadecimal digest''
      else if td_allowed d = [] \<or> (\<exists>c\<in>set (td_allowed d). \<not> bounded c) then Inl ''trust domain must declare bounded capabilities''
      else Inr ())"

type_synonym domains = "(string, trust_domain) dict"

definition approve_domain :: "trust_domain \<Rightarrow> domains \<Rightarrow> (string + unit) \<times> domains" where
  "approve_domain d reg =
     (case validate_domain d of
        Inl e \<Rightarrow> (Inl e, reg)
      | Inr _ \<Rightarrow>
          if (case dget reg (td_id d) of None \<Rightarrow> False | Some c \<Rightarrow> td_root c \<noteq> td_root d)
          then (Inl ''root fingerprint rotation requires a new explicit trust domain'', reg)
          else (Inr (), dset (td_id d) d reg))"

definition get_domain :: "string \<Rightarrow> domains \<Rightarrow> string + trust_domain" where
  "get_domain i reg = (case dget reg i of None \<Rightarrow> Inl ''untrusted domain'' | Some d \<Rightarrow> Inr d)"

section \<open>The directory\<close>

record advert =
  av_domain :: string
  av_node :: string
  av_capabilities :: "string list"
  av_capacity :: int
  av_expires :: real
  av_policy :: string
  av_attestation :: string

definition validate_advert :: "advert \<Rightarrow> real \<Rightarrow> string + unit" where
  "validate_advert a now =
     (if \<not> bounded (av_domain a) then Inl ''invalid domain identifier''
      else if \<not> bounded (av_node a) then Inl ''invalid node identifier''
      else if av_capabilities a = [] \<or> (\<exists>c\<in>set (av_capabilities a). \<not> bounded c)
      then Inl ''capabilities must be a non-empty bounded list''
      else if av_capacity a \<le> 0 then Inl ''capacity_units must be positive''
      else if av_expires a \<le> now then Inl ''advertisement is expired''
      else if \<not> sha256_text (av_policy a) then Inl ''policy_hash must be a SHA-256 hexadecimal digest''
      else if \<not> sha256_text (av_attestation a) then Inl ''attestation_hash must be a SHA-256 hexadecimal digest''
      else Inr ())"

record directory =
  fd_local :: string
  fd_trusted :: "string list"
  fd_policies :: "string list"
  fd_registry :: "domains option"
  fd_adverts :: "(string \<times> string, advert) dict"

definition new_directory :: "string \<Rightarrow> string list \<Rightarrow> string list \<Rightarrow> domains option \<Rightarrow> string + directory" where
  "new_directory here trusted policies reg =
     (if here = [] then Inl ''local_domain_id is required''
      else Inr \<lparr>fd_local = here, fd_trusted = List.insert here trusted, fd_policies = map py_lower policies,
                fd_registry = reg, fd_adverts = []\<rparr>)"

definition publish_advert :: "advert \<Rightarrow> real \<Rightarrow> directory \<Rightarrow> (string + unit) \<times> directory" where
  "publish_advert a now s =
     (case validate_advert a now of
        Inl e \<Rightarrow> (Inl e, s)
      | Inr _ \<Rightarrow>
          if av_domain a \<notin> set (fd_trusted s) then (Inl ''untrusted domain'', s)
          else
            (case (case fd_registry s of
                     None \<Rightarrow> Inr ()
                   | Some reg \<Rightarrow>
                       (case get_domain (av_domain a) reg of
                          Inl e \<Rightarrow> Inl e
                        | Inr d \<Rightarrow>
                            if set (av_capabilities a) \<subseteq> set (td_allowed d) then Inr ()
                            else Inl ''advertised capability exceeds trust-domain policy'')) of
               Inl e \<Rightarrow> (Inl e, s)
             | Inr _ \<Rightarrow>
                 if py_lower (av_policy a) \<notin> set (fd_policies s) then (Inl ''unapproved policy hash'', s)
                 else (Inr (), s\<lparr>fd_adverts := dset (av_domain a, av_node a) a (fd_adverts s)\<rparr>)))"

definition purge_expired :: "real \<Rightarrow> directory \<Rightarrow> nat \<times> directory" where
  "purge_expired now s =
     (length (filter (\<lambda>q. av_expires (snd q) \<le> now) (fd_adverts s)),
      s\<lparr>fd_adverts := filter (\<lambda>q. \<not> av_expires (snd q) \<le> now) (fd_adverts s)\<rparr>)"

definition rank :: "advert \<Rightarrow> int \<times> string \<times> string" where
  "rank a = (- av_capacity a, av_domain a, av_node a)"

definition candidates :: "string \<Rightarrow> real \<Rightarrow> directory \<Rightarrow> advert list \<times> directory" where
  "candidates cap now s =
     (let s1 = snd (purge_expired now s) in
      (sort_key rank (filter (\<lambda>a. cap \<in> set (av_capabilities a)) (dvals (fd_adverts s1))), s1))"

definition snapshot_directory :: "directory \<Rightarrow> (string, pyval) dict" where
  "snapshot_directory s =
     [(''local_domain_id'', PStr (fd_local s)),
      (''advertisements'', PList (map (\<lambda>a. PDict
         [(''domain_id'', PStr (av_domain a)), (''node_id'', PStr (av_node a)), (''capabilities'', PList (map PStr (av_capabilities a))),
          (''capacity_units'', PInt (av_capacity a)), (''expires_at'', PFloat (av_expires a)), (''policy_hash'', PStr (av_policy a)),
          (''attestation_hash'', PStr (av_attestation a))]) (dvals (fd_adverts s))))]"

section \<open>The allocator\<close>

record federated_lease =
  fl_request :: string
  fl_work :: string
  fl_domain :: string
  fl_node :: string
  fl_capability :: string
  fl_units :: int
  fl_expires :: real
  fl_policy :: string

definition validate_lease :: "federated_lease \<Rightarrow> real \<Rightarrow> string + unit" where
  "validate_lease l now =
     (if \<not> bounded (fl_request l) then Inl ''invalid resource request identifier''
      else if \<not> sha256_text (fl_work l) then Inl ''work_item_hash must be a SHA-256 hexadecimal digest''
      else if fl_units l \<le> 0 \<or> fl_expires l \<le> now then Inl ''resource lease must be positive and unexpired''
      else Inr ())"

definition allocate ::
    "string \<Rightarrow> string \<Rightarrow> string \<Rightarrow> int \<Rightarrow> real \<Rightarrow> real \<Rightarrow> directory \<Rightarrow> (string + federated_lease) \<times> directory" where
  "allocate rid work cap units secs now s =
     (if units \<le> 0 \<or> secs \<le> 0 then (Inl ''resource request units and lease duration must be positive'', s)
      else if \<not> sha256_text work then (Inl ''work_item_hash must be a SHA-256 hexadecimal digest'', s)
      else
        (let (found, s1) = candidates cap now s; fit = filter (\<lambda>a. units \<le> av_capacity a) found in
         case fit of
           [] \<Rightarrow> (Inl ''no trusted capacity satisfies the request'', s1)
         | a # _ \<Rightarrow>
             (let l = \<lparr>fl_request = rid, fl_work = py_lower work, fl_domain = av_domain a, fl_node = av_node a,
                       fl_capability = cap, fl_units = units, fl_expires = min (av_expires a) (now + secs), fl_policy = av_policy a\<rparr>
              in (case validate_lease l now of Inl e \<Rightarrow> (Inl e, s1) | Inr _ \<Rightarrow> (Inr l, s1)))))"

end
