(* ===== verification/Federation_Props.thy ===== *)
theory Federation_Props
  imports Federation
begin

text \<open>
  A machine of approvals, advertisements and allocations: what a lease refers to was advertised
  within the bounds of trust; the allocator serves exactly the requests that an advertisement can
  serve, from the largest; it keeps no account of what it has leased.
\<close>

text \<open>The run records the domains as they were approved, the accepted advertisements, and the leases with their times.\<close>

record federation =
  fe_directory :: directory
  fe_domains :: "trust_domain list"
  fe_accepted :: "advert list"
  fe_leases :: "(federated_lease \<times> real) list"

datatype federation_op =
    FApprove trust_domain
  | FPublish advert real
  | FPurge real
  | FAllocate string string string int real real

fun federation_step :: "federation \<Rightarrow> federation_op \<Rightarrow> federation" where
  "federation_step s (FApprove d) =
     (case fd_registry (fe_directory s) of
        None \<Rightarrow> s
      | Some reg \<Rightarrow>
          (case approve_domain d reg of
             (Inl _, _) \<Rightarrow> s
           | (Inr _, reg') \<Rightarrow> s\<lparr>fe_directory := (fe_directory s)\<lparr>fd_registry := Some reg'\<rparr>, fe_domains := fe_domains s @ [d]\<rparr>))"
| "federation_step s (FPublish a now) =
     (case publish_advert a now (fe_directory s) of
        (Inl _, d) \<Rightarrow> s\<lparr>fe_directory := d\<rparr>
      | (Inr _, d) \<Rightarrow> s\<lparr>fe_directory := d, fe_accepted := fe_accepted s @ [a]\<rparr>)"
| "federation_step s (FPurge now) = s\<lparr>fe_directory := snd (purge_expired now (fe_directory s))\<rparr>"
| "federation_step s (FAllocate rid work cap units secs now) =
     (case allocate rid work cap units secs now (fe_directory s) of
        (Inl _, d) \<Rightarrow> s\<lparr>fe_directory := d\<rparr>
      | (Inr l, d) \<Rightarrow> s\<lparr>fe_directory := d, fe_leases := fe_leases s @ [(l, now)]\<rparr>)"

text \<open>An advertisement within the bounds of trust, and a lease an advertisement backs.\<close>

definition trusted_advert :: "federation \<Rightarrow> advert \<Rightarrow> bool" where
  "trusted_advert s a \<longleftrightarrow> av_domain a \<in> set (fd_trusted (fe_directory s)) \<and> py_lower (av_policy a) \<in> set (fd_policies (fe_directory s)) \<and>
     0 < av_capacity a \<and>
     (fd_registry (fe_directory s) \<noteq> None \<longrightarrow>
        (\<exists>d\<in>set (fe_domains s). td_id d = av_domain a \<and> set (av_capabilities a) \<subseteq> set (td_allowed d)))"

definition backs :: "advert \<Rightarrow> federated_lease \<Rightarrow> real \<Rightarrow> bool" where
  "backs a l now \<longleftrightarrow> fl_domain l = av_domain a \<and> fl_node l = av_node a \<and> fl_policy l = av_policy a \<and>
     fl_capability l \<in> set (av_capabilities a) \<and> 0 < fl_units l \<and> fl_units l \<le> av_capacity a \<and>
     now < fl_expires l \<and> fl_expires l \<le> av_expires a"

definition federation_inv :: "federation \<Rightarrow> bool" where
  "federation_inv s \<longleftrightarrow>
     (\<forall>reg. fd_registry (fe_directory s) = Some reg \<longrightarrow> (\<forall>(i, d)\<in>set reg. td_id d = i \<and> d \<in> set (fe_domains s))) \<and>
     (\<forall>a\<in>set (fe_accepted s). trusted_advert s a) \<and>
     (\<forall>q\<in>set (fd_adverts (fe_directory s)). snd q \<in> set (fe_accepted s)) \<and>
     (\<forall>(l, now)\<in>set (fe_leases s). \<exists>a\<in>set (fe_accepted s). backs a l now)"

definition federation_le :: "federation \<Rightarrow> federation \<Rightarrow> bool" where
  "federation_le s t \<longleftrightarrow> fd_trusted (fe_directory t) = fd_trusted (fe_directory s) \<and> fd_policies (fe_directory t) = fd_policies (fe_directory s) \<and>
     (fd_registry (fe_directory t) = None \<longleftrightarrow> fd_registry (fe_directory s) = None)"

lemma set_dset: "set (dset k v d) \<subseteq> insert (k, v) (set d)"
  by (induction d) auto

lemma publish_cases:
  assumes "publish_advert a now s = (Inr u, s')"
  shows "s' = s\<lparr>fd_adverts := dset (av_domain a, av_node a) a (fd_adverts s)\<rparr>" "av_domain a \<in> set (fd_trusted s)"
    "py_lower (av_policy a) \<in> set (fd_policies s)" "0 < av_capacity a" "now < av_expires a"
    "fd_registry s = Some reg \<Longrightarrow> \<exists>d. dget reg (av_domain a) = Some d \<and> set (av_capabilities a) \<subseteq> set (td_allowed d)"
  using assms by (auto simp: publish_advert_def validate_advert_def get_domain_def split: sum.splits option.splits if_splits)

lemma publish_refused: "publish_advert a now s = (Inl e, s') \<Longrightarrow> s' = s"
  by (auto simp: publish_advert_def split: sum.splits option.splits if_splits)

text \<open>The candidates are the current advertisements that offer the capability, the largest first.\<close>

lemma candidates_spec:
  assumes "candidates cap now s = (found, s')"
  shows "set found = {a. \<exists>k. (k, a) \<in> set (fd_adverts s) \<and> now < av_expires a \<and> cap \<in> set (av_capabilities a)}"
    "sorted (map rank found)" "s' = snd (purge_expired now s)"
  using assms by (force simp: candidates_def Let_def purge_expired_def)+

lemma purge_keeps [simp]:
  "fd_registry (snd (purge_expired now s)) = fd_registry s" "fd_trusted (snd (purge_expired now s)) = fd_trusted s"
  "fd_policies (snd (purge_expired now s)) = fd_policies s"
  "set (fd_adverts (snd (purge_expired now s))) \<subseteq> set (fd_adverts s)"
  by (auto simp: purge_expired_def)

lemma allocate_cases:
  assumes "allocate rid work cap units secs now s = (Inr l, s')"
  obtains k a where "(k, a) \<in> set (fd_adverts s)" "backs a l now" "s' = snd (purge_expired now s)"
    "fl_request l = rid" "fl_units l = units" "fl_capability l = cap"
    "\<And>k b. (k, b) \<in> set (fd_adverts s) \<Longrightarrow> now < av_expires b \<Longrightarrow> cap \<in> set (av_capabilities b) \<Longrightarrow> units \<le> av_capacity b \<Longrightarrow> rank a \<le> rank b"
proof -
  obtain found s1 where c: "candidates cap now s = (found, s1)" by (cases "candidates cap now s")
  obtain a rest where fit: "filter (\<lambda>a. units \<le> av_capacity a) found = a # rest"
    using assms c by (auto simp: allocate_def Let_def split: if_splits list.splits)
  have ok: "0 < units" "l = \<lparr>fl_request = rid, fl_work = py_lower work, fl_domain = av_domain a, fl_node = av_node a,
      fl_capability = cap, fl_units = units, fl_expires = min (av_expires a) (now + secs), fl_policy = av_policy a\<rparr>"
      "now < fl_expires l" "s' = s1"
    using assms c fit by (auto simp: allocate_def Let_def validate_lease_def split: if_splits sum.splits)
  note spec = candidates_spec [OF c]
  have mem: "set (a # rest) = {b \<in> set found. units \<le> av_capacity b}" unfolding fit [symmetric] by simp
  then have a: "a \<in> set found" "units \<le> av_capacity a" by auto
  have "sorted (map rank (a # rest))" using sorted_filter [OF spec(2), of "\<lambda>a. units \<le> av_capacity a"] by (simp add: fit)
  then have least: "rank a \<le> rank b" if "b \<in> set found" "units \<le> av_capacity b" for b
  proof -
    have "b \<in> set (a # rest)" unfolding mem using that by simp
    then show ?thesis using \<open>sorted (map rank (a # rest))\<close> by auto
  qed
  obtain k where "(k, a) \<in> set (fd_adverts s)" "now < av_expires a" "cap \<in> set (av_capabilities a)" using a(1) spec(1) by auto
  then show ?thesis using that [of k a] ok a(2) spec(3) least spec(1) unfolding backs_def by auto
qed

lemma allocate_refused: "allocate rid work cap units secs now s = (Inl e, s') \<Longrightarrow> s' = s \<or> s' = snd (purge_expired now s)"
  by (auto simp: allocate_def candidates_def Let_def split: if_splits list.splits sum.splits)


lemma accepted_monotone:
  "federation_le s t \<Longrightarrow> set (fe_domains s) \<subseteq> set (fe_domains t) \<Longrightarrow> trusted_advert s a \<Longrightarrow> trusted_advert t a"
  unfolding trusted_advert_def federation_le_def by (simp only: simp_thms) blast

lemma federation_step_keeps:
  assumes inv: "federation_inv s"
  shows "federation_inv (federation_step s x) \<and> federation_le s (federation_step s x)"
proof -
  note i = inv [unfolded federation_inv_def]
  have idle: ?thesis if "federation_step s x = s" using inv that by (simp add: federation_le_def)
  have shrink: "federation_inv (s\<lparr>fe_directory := snd (purge_expired now (fe_directory s))\<rparr>) \<and>
      federation_le s (s\<lparr>fe_directory := snd (purge_expired now (fe_directory s))\<rparr>)" for now
  proof -
    have "\<forall>q\<in>set (fd_adverts (snd (purge_expired now (fe_directory s)))). snd q \<in> set (fe_accepted s)"
      using i purge_keeps(4) [of now "fe_directory s"] by blast
    then show ?thesis using i by (simp add: federation_inv_def federation_le_def trusted_advert_def)
  qed
  show ?thesis
  proof (cases x)
    case (FApprove d)
    show ?thesis
    proof (cases "\<exists>reg reg'. fd_registry (fe_directory s) = Some reg \<and> approve_domain d reg = (Inr (), reg')")
      case True
      then obtain reg reg' where r: "fd_registry (fe_directory s) = Some reg" "approve_domain d reg = (Inr (), reg')" by blast
      have reg': "reg' = dset (td_id d) d reg" using r(2) by (auto simp: approve_domain_def split: sum.splits if_splits)
      define t where "t = federation_step s x"
      have t: "t = s\<lparr>fe_directory := (fe_directory s)\<lparr>fd_registry := Some reg'\<rparr>, fe_domains := fe_domains s @ [d]\<rparr>"
        using r by (simp add: t_def FApprove)
      have le: "federation_le s t" "set (fe_domains s) \<subseteq> set (fe_domains t)" using r(1) by (auto simp: t federation_le_def)
      have "\<forall>(i, e)\<in>set reg'. td_id e = i \<and> e \<in> set (fe_domains t)" using i r(1) set_dset [of "td_id d" d reg] by (auto simp: t reg')
      moreover have "\<forall>a\<in>set (fe_accepted t). trusted_advert t a" using i accepted_monotone [OF le] by (simp add: t)
      moreover have "(\<forall>q\<in>set (fd_adverts (fe_directory t)). snd q \<in> set (fe_accepted t)) \<and>
          (\<forall>(l, now)\<in>set (fe_leases t). \<exists>a\<in>set (fe_accepted t). backs a l now)"
        using i by (simp add: t)
      moreover have "fd_registry (fe_directory t) = Some reg'" by (simp add: t)
      ultimately have "federation_inv t" unfolding federation_inv_def by auto
      then show ?thesis using le by (simp flip: t_def)
    next
      case False
      then have "federation_step s x = s" by (auto simp: FApprove split: option.split sum.split prod.split)
      then show ?thesis by (rule idle)
    qed
  next
    case (FPublish a now)
    obtain r d where p: "publish_advert a now (fe_directory s) = (r, d)" by (cases "publish_advert a now (fe_directory s)")
    show ?thesis
    proof (cases r)
      case (Inl e)
      then show ?thesis using publish_refused p by (intro idle) (simp add: FPublish)
    next
      case (Inr u)
      note c = publish_cases [OF p [unfolded Inr]]
      define t where "t = federation_step s x"
      have t: "t = s\<lparr>fe_directory := d, fe_accepted := fe_accepted s @ [a]\<rparr>" using p Inr by (simp add: t_def FPublish)
      have le: "federation_le s t" "set (fe_domains s) \<subseteq> set (fe_domains t)" by (simp_all add: t federation_le_def c(1))
      have "trusted_advert t a"
      proof -
        have "\<exists>e\<in>set (fe_domains s). td_id e = av_domain a \<and> set (av_capabilities a) \<subseteq> set (td_allowed e)"
          if reg: "fd_registry (fe_directory s) = Some reg" for reg
        proof -
          obtain e where e: "dget reg (av_domain a) = Some e" "set (av_capabilities a) \<subseteq> set (td_allowed e)" using c(6) [OF reg] by blast
          then have "td_id e = av_domain a \<and> e \<in> set (fe_domains s)" using i reg dget_in_set [OF e(1)] by auto
          then show ?thesis using e(2) by blast
        qed
        then show ?thesis using c(2-4) unfolding trusted_advert_def by (auto simp: t c(1))
      qed
      then have "\<forall>b\<in>set (fe_accepted t). trusted_advert t b" using i accepted_monotone [OF le] by (auto simp: t)
      moreover have "\<forall>q\<in>set (fd_adverts (fe_directory t)). snd q \<in> set (fe_accepted t)"
        using i set_dset [of "(av_domain a, av_node a)" a "fd_adverts (fe_directory s)"] by (auto simp: t c(1))
      moreover have "\<forall>(l, now)\<in>set (fe_leases t). \<exists>a\<in>set (fe_accepted t). backs a l now" using i by (fastforce simp: t)
      moreover have "fd_registry (fe_directory t) = fd_registry (fe_directory s)" "fe_domains t = fe_domains s" by (simp_all add: t c(1))
      ultimately have "federation_inv t" using i unfolding federation_inv_def by simp
      then show ?thesis using le by (simp flip: t_def)
    qed
  next
    case (FAllocate rid work cap units secs now)
    obtain r d where p: "allocate rid work cap units secs now (fe_directory s) = (r, d)"
      by (cases "allocate rid work cap units secs now (fe_directory s)")
    show ?thesis
    proof (cases r)
      case (Inl e)
      have "s\<lparr>fe_directory := fe_directory s\<rparr> = s" by simp
      then show ?thesis using allocate_refused [OF p [unfolded Inl]] p Inl shrink [of now] idle by (auto simp: FAllocate)
    next
      case (Inr l)
      obtain k a where a: "(k, a) \<in> set (fd_adverts (fe_directory s))" "backs a l now" "d = snd (purge_expired now (fe_directory s))"
        by (rule allocate_cases [OF p [unfolded Inr]]) (rule that)
      have "\<exists>a\<in>set (fe_accepted s). backs a l now" using a(1,2) i by (metis snd_conv)
      moreover define u where "u = s\<lparr>fe_directory := snd (purge_expired now (fe_directory s))\<rparr>"
      moreover have "federation_step s x = u\<lparr>fe_leases := fe_leases s @ [(l, now)]\<rparr>" using p Inr a(3) by (simp add: FAllocate u_def)
      moreover have "federation_inv u" "federation_le s u" using shrink [of now] by (simp_all add: u_def)
      moreover have "fe_leases u = fe_leases s" "fe_accepted u = fe_accepted s" by (simp_all add: u_def)
      ultimately show ?thesis unfolding federation_inv_def federation_le_def trusted_advert_def by simp
    qed
  qed (use shrink in simp)
qed

interpretation federations: machine federation_step "\<lambda>_ _. True" federation_inv federation_le
proof
  show "federation_inv (federation_step s x)" "federation_le s (federation_step s x)" if "federation_inv s" for s x
    using federation_step_keeps [OF that] by blast+
qed (auto simp: federation_le_def)

section \<open>Properties\<close>

definition new_federation :: "string \<Rightarrow> string list \<Rightarrow> string list \<Rightarrow> domains option \<Rightarrow> string + federation" where
  "new_federation here trusted policies reg =
     map_sum id (\<lambda>d. \<lparr>fe_directory = d, fe_domains = (case reg of None \<Rightarrow> [] | Some r \<Rightarrow> dvals r), fe_accepted = [], fe_leases = []\<rparr>)
       (new_directory here trusted policies reg)"

text \<open>
  C26: leases stay within the bounds of trust: for a directory just made, with a registry filed
  under the identifiers of its domains or with none, after any approvals, advertisements, purges
  and allocations, every lease that was ever granted is backed by an accepted advertisement of
  a trusted domain with an approved policy: it names its node, one of its capabilities, at most
  its capacity, and ends when the advertisement does or before, and not before it was granted;
  with a registry, a domain that was approved with that identifier allows the capability.
\<close>

theorem leases_within_trust:
  assumes "new_federation here trusted policies reg = Inr s"
    and "\<And>r i d. reg = Some r \<Longrightarrow> (i, d) \<in> set r \<Longrightarrow> td_id d = i"
    and "(l, now) \<in> set (fe_leases (run federation_step s ops))"
  shows "\<exists>a. a \<in> set (fe_accepted (run federation_step s ops)) \<and> backs a l now \<and> fl_domain l \<in> set (here # trusted) \<and>
     py_lower (fl_policy l) \<in> set (map py_lower policies) \<and>
     (reg \<noteq> None \<longrightarrow> (\<exists>d\<in>set (fe_domains (run federation_step s ops)). td_id d = fl_domain l \<and> fl_capability l \<in> set (td_allowed d)))"
proof -
  let ?t = "run federation_step s ops"
  have s: "fe_accepted s = []" "fe_leases s = []" "fd_adverts (fe_directory s) = []" "fd_registry (fe_directory s) = reg"
      "set (fd_trusted (fe_directory s)) = set (here # trusted)" "fd_policies (fe_directory s) = map py_lower policies"
      "fe_domains s = (case reg of None \<Rightarrow> [] | Some r \<Rightarrow> dvals r)"
    using assms(1) by (auto simp: new_federation_def new_directory_def split: if_splits)
  have "\<forall>r. reg = Some r \<longrightarrow> (\<forall>(i, d)\<in>set r. td_id d = i \<and> d \<in> set (fe_domains s))"
    using assms(2) by (force simp: s(7))
  then have inv: "federation_inv s" by (simp add: federation_inv_def s)
  have t: "federation_inv ?t" "federation_le s ?t"
    using federations.run_inv [OF inv] federations.run_progress [OF inv] by simp_all
  obtain a where a: "a \<in> set (fe_accepted ?t)" "backs a l now" "trusted_advert ?t a"
    using t(1) assms(3) unfolding federation_inv_def by blast
  then show ?thesis using t(2) s(4-6) unfolding trusted_advert_def federation_le_def backs_def
    by (intro exI [of _ a]) auto
qed

text \<open>
  The allocator serves what can be served, from the largest: for positive units and duration,
  a bounded identifier and a digest of the work, an allocation succeeds exactly when some
  unexpired advertisement offers the capability with enough capacity, and it then names an
  advertisement such that no other one that would do has more capacity.
\<close>

theorem allocate_iff:
  assumes "0 < units" "0 < secs" "sha256_text work" "bounded rid"
  shows "((\<exists>l. fst (allocate rid work cap units secs now s) = Inr l) \<longleftrightarrow>
       (\<exists>k a. (k, a) \<in> set (fd_adverts s) \<and> now < av_expires a \<and> cap \<in> set (av_capabilities a) \<and> units \<le> av_capacity a)) \<and>
     (\<forall>l. fst (allocate rid work cap units secs now s) = Inr l \<longrightarrow>
       (\<exists>k a. (k, a) \<in> set (fd_adverts s) \<and> backs a l now \<and>
         (\<forall>j b. (j, b) \<in> set (fd_adverts s) \<longrightarrow> now < av_expires b \<longrightarrow> cap \<in> set (av_capabilities b) \<longrightarrow> av_capacity b \<le> av_capacity a)))"
proof (intro conjI allI impI)
  obtain found s1 where c: "candidates cap now s = (found, s1)" by (cases "candidates cap now s")
  note spec = candidates_spec [OF c]
  let ?fit = "filter (\<lambda>a. units \<le> av_capacity a) found"
  have "(\<exists>l. fst (allocate rid work cap units secs now s) = Inr l) \<longleftrightarrow> ?fit \<noteq> []"
  proof (cases ?fit)
    case Nil
    then show ?thesis using assms c by (simp add: allocate_def Let_def)
  next
    case (Cons a rest)
    have "a \<in> set ?fit" using Cons by simp
    then have "now < av_expires a" using spec(1) by auto
    moreover have "sha256_text (py_lower work)" using assms(3) unfolding sha256_text_def by (simp add: py_lower_twice)
    ultimately show ?thesis using assms c Cons by (simp add: allocate_def Let_def validate_lease_def)
  qed
  also have "\<dots> \<longleftrightarrow> (\<exists>a\<in>set found. units \<le> av_capacity a)" by (auto simp: filter_empty_conv)
  also have "\<dots> \<longleftrightarrow> (\<exists>k a. (k, a) \<in> set (fd_adverts s) \<and> now < av_expires a \<and> cap \<in> set (av_capabilities a) \<and> units \<le> av_capacity a)"
    unfolding spec(1) by auto
  finally show "(\<exists>l. fst (allocate rid work cap units secs now s) = Inr l) \<longleftrightarrow>
       (\<exists>k a. (k, a) \<in> set (fd_adverts s) \<and> now < av_expires a \<and> cap \<in> set (av_capabilities a) \<and> units \<le> av_capacity a)" .
next
  fix l
  assume "fst (allocate rid work cap units secs now s) = Inr l"
  then obtain s' where al: "allocate rid work cap units secs now s = (Inr l, s')" by (cases "allocate rid work cap units secs now s") simp
  show "\<exists>k a. (k, a) \<in> set (fd_adverts s) \<and> backs a l now \<and>
      (\<forall>j b. (j, b) \<in> set (fd_adverts s) \<longrightarrow> now < av_expires b \<longrightarrow> cap \<in> set (av_capabilities b) \<longrightarrow> av_capacity b \<le> av_capacity a)"
  proof (rule allocate_cases [OF al])
    fix k a
    assume a: "(k, a) \<in> set (fd_adverts s)" "backs a l now" "fl_units l = units"
      and best: "\<And>k b. (k, b) \<in> set (fd_adverts s) \<Longrightarrow> now < av_expires b \<Longrightarrow> cap \<in> set (av_capabilities b) \<Longrightarrow>
        units \<le> av_capacity b \<Longrightarrow> rank a \<le> rank b"
    have "units \<le> av_capacity a" using a(2,3) by (simp add: backs_def)
    then have "av_capacity b \<le> av_capacity a" if "(j, b) \<in> set (fd_adverts s)" "now < av_expires b" "cap \<in> set (av_capabilities b)" for j b
      using best [OF that] by (cases "units \<le> av_capacity b") (auto simp: rank_def less_eq_prod_def)
    then show ?thesis using a(1,2) by blast
  qed
qed

text \<open>
  Capacity is not accounted for: an allocation that succeeds succeeds again at the same time
  for every other request, on the same node and for the same units, so that any number of leases,
  each up to the full capacity of an advertisement, can be granted at once.
\<close>

theorem capacity_not_accounted:
  assumes "allocate rid work cap units secs now s = (Inr l, s')" "list_all bounded rids"
  shows "\<exists>ls. map fl_request ls = rids \<and>
     fe_leases (run federation_step \<lparr>fe_directory = s', fe_domains = ds, fe_accepted = as, fe_leases = [(l, now)]\<rparr>
        (map (\<lambda>i. FAllocate i work cap units secs now) rids)) = (l, now) # map (\<lambda>l. (l, now)) ls \<and>
     (\<forall>m\<in>set ls. fl_node m = fl_node l \<and> fl_domain m = fl_domain l \<and> fl_units m = units)"
proof -
  obtain k a where a: "(k, a) \<in> set (fd_adverts s)" "s' = snd (purge_expired now s)" by (rule allocate_cases [OF assms(1)]) blast
  have idem: "snd (purge_expired now s') = s'" unfolding a(2) by (simp add: purge_expired_def)
  have again: "allocate i work cap units secs now s' = (Inr (l\<lparr>fl_request := i\<rparr>), s')" if "bounded i" for i
  proof -
    have "candidates cap now s' = candidates cap now s" using idem a(2) by (simp add: candidates_def)
    then show ?thesis using assms(1) that
      by (auto simp: allocate_def Let_def validate_lease_def split: if_splits list.splits prod.splits sum.splits)
  qed
  have "\<exists>ls. map fl_request ls = rids \<and>
      run federation_step \<lparr>fe_directory = s', fe_domains = ds, fe_accepted = as, fe_leases = q\<rparr>
        (map (\<lambda>i. FAllocate i work cap units secs now) rids) =
        \<lparr>fe_directory = s', fe_domains = ds, fe_accepted = as, fe_leases = q @ map (\<lambda>l. (l, now)) ls\<rparr> \<and>
      (\<forall>m\<in>set ls. \<exists>i. m = l\<lparr>fl_request := i\<rparr>)" for q
    using assms(2)
  proof (induction rids arbitrary: q)
    case (Cons i rids)
    then have i: "bounded i" by simp
    from Cons.IH [of "q @ [(l\<lparr>fl_request := i\<rparr>, now)]"] Cons.prems obtain ls where ls: "map fl_request ls = rids"
        "run federation_step \<lparr>fe_directory = s', fe_domains = ds, fe_accepted = as, fe_leases = q @ [(l\<lparr>fl_request := i\<rparr>, now)]\<rparr>
           (map (\<lambda>i. FAllocate i work cap units secs now) rids) =
           \<lparr>fe_directory = s', fe_domains = ds, fe_accepted = as, fe_leases = (q @ [(l\<lparr>fl_request := i\<rparr>, now)]) @ map (\<lambda>l. (l, now)) ls\<rparr>"
        "\<forall>m\<in>set ls. \<exists>i. m = l\<lparr>fl_request := i\<rparr>"
      by auto
    then show ?case using again [OF i] by (intro exI [of _ "l\<lparr>fl_request := i\<rparr> # ls"]) auto
  qed simp
  from this [of "[(l, now)]"] obtain ls where ls: "map fl_request ls = rids"
      "fe_leases (run federation_step \<lparr>fe_directory = s', fe_domains = ds, fe_accepted = as, fe_leases = [(l, now)]\<rparr>
         (map (\<lambda>i. FAllocate i work cap units secs now) rids)) = (l, now) # map (\<lambda>l. (l, now)) ls"
      "\<forall>m\<in>set ls. \<exists>i. m = l\<lparr>fl_request := i\<rparr>"
    by auto
  have "fl_units l = units" by (rule allocate_cases [OF assms(1)]) blast
  then show ?thesis using ls by (intro exI [of _ ls]) auto
qed


definition demo_digest :: string where
  "demo_digest = replicate 64 CHR ''a''"

definition demo_domain :: trust_domain where
  "demo_domain = \<lparr>td_id = ''d1'', td_root = demo_digest, td_allowed = [''gpu'', ''cpu'']\<rparr>"

definition demo_advert :: "string \<Rightarrow> int \<Rightarrow> advert" where
  "demo_advert n c = \<lparr>av_domain = ''d1'', av_node = n, av_capabilities = [''gpu''], av_capacity = c, av_expires = 100,
     av_policy = demo_digest, av_attestation = demo_digest\<rparr>"

definition demo_directory :: directory where
  "demo_directory = \<lparr>fd_local = ''here'', fd_trusted = [''here'', ''d1''], fd_policies = [demo_digest],
     fd_registry = Some [(''d1'', demo_domain)], fd_adverts = [((''d1'', ''n1''), demo_advert ''n1'' 4), ((''d1'', ''n2''), demo_advert ''n2'' 8)]\<rparr>"

definition demo_lease :: "string \<Rightarrow> federated_lease" where
  "demo_lease r = \<lparr>fl_request = r, fl_work = demo_digest, fl_domain = ''d1'', fl_node = ''n2'', fl_capability = ''gpu'', fl_units = 8,
     fl_expires = 60, fl_policy = demo_digest\<rparr>"

lemma demo_allocation: "allocate ''r1'' demo_digest ''gpu'' 8 10 50 demo_directory = (Inr (demo_lease ''r1''), demo_directory)"
  by code_simp

theorem leases_within_trust_witness:
  "(demo_lease ''r1'', 50) \<in> set (fe_leases (run federation_step (projr (new_federation ''here'' [''d1''] [demo_digest] (Some [])))
       [FApprove demo_domain, FPublish (demo_advert ''n2'' 8) 1, FAllocate ''r1'' demo_digest ''gpu'' 8 10 50])) \<and>
   (\<exists>a. backs a (demo_lease ''r1'') 50)"
proof -
  let ?s = "projr (new_federation ''here'' [''d1''] [demo_digest] (Some []))"
  let ?ops = "[FApprove demo_domain, FPublish (demo_advert ''n2'' 8) 1, FAllocate ''r1'' demo_digest ''gpu'' 8 10 50]"
  have n: "new_federation ''here'' [''d1''] [demo_digest] (Some []) = Inr ?s"
    by (simp add: new_federation_def new_directory_def)
  have l: "(demo_lease ''r1'', 50) \<in> set (fe_leases (run federation_step ?s ?ops))" by code_simp
  from leases_within_trust [OF n _ l] l show ?thesis by auto
qed

theorem allocate_iff_witness:
  "\<exists>l. fst (allocate ''r1'' demo_digest ''gpu'' 8 10 50 demo_directory) = Inr l \<and> fl_node l = ''n2''"
proof -
  have h: "0 < (8::int)" "0 < (10::real)" "sha256_text demo_digest" "bounded ''r1''" by (simp, simp, code_simp, code_simp)
  from allocate_iff [OF h, of "''gpu''" 50 demo_directory] demo_allocation show ?thesis
    by (simp add: demo_lease_def)
qed

theorem capacity_not_accounted_witness:
  "\<exists>ls :: federated_lease list. map fl_request ls = [''r2'', ''r3''] \<and> (\<forall>m\<in>set ls. fl_node m = ''n2'' \<and> fl_units m = 8)"
proof -
  have b: "list_all bounded [''r2'', ''r3'']" by code_simp
  obtain ls :: "federated_lease list" where ls: "map fl_request ls = [''r2'', ''r3'']"
      "\<forall>m\<in>set ls. fl_node m = fl_node (demo_lease ''r1'') \<and> fl_domain m = fl_domain (demo_lease ''r1'') \<and> fl_units m = 8"
    using capacity_not_accounted [OF demo_allocation b, of "[]" "[]"] by (elim exE conjE)
  have "fl_node (demo_lease ''r1'') = ''n2''" by (simp add: demo_lease_def)
  then show ?thesis using ls by (intro exI [of _ ls]) simp
qed

end
