(* ===== verification/Pairing.thy ===== *)
theory Pairing
  imports Approval
begin

text \<open>
  Pairing a control-plane server with the node: the durable store of pairings
  (\<open>infrastructure/control_plane_pairing_store.py\<close>) and the administrators' command behind the
  approval gate (\<open>application/control_plane_telegram_commands.py\<close>).

  The hash, the parts of a URL as \<open>urlparse\<close> gives them (or the exception it raises) and the
  HTTP call are arguments; so are the random claim and key, the fresh identifier and the
  readings of the clock. The file is the list of records last written, a line of the audit file
  its fields.
\<close>

section \<open>The store\<close>

record pairing =
  pg_id :: string
  pg_panel :: string
  pg_core :: string
  pg_claim :: string
  pg_created :: real
  pg_expires :: real
  pg_status :: string
  pg_key :: "string option"

record pairing_event =
  pv_event :: string
  pv_id :: string
  pv_panel :: string
  pv_core :: string
  pv_status :: string
  pv_at :: real

record pairing_store =
  ps_records :: "(string, pairing) dict"
  ps_file :: "pairing list option"
  ps_log :: "pairing_event list"

definition persist_pairings :: "pairing_store \<Rightarrow> pairing_store" where
  "persist_pairings st = st\<lparr>ps_file := Some (dvals (ps_records st))\<rparr>"

definition audit_pairing :: "string \<Rightarrow> real \<Rightarrow> pairing \<Rightarrow> pairing_store \<Rightarrow> pairing_store" where
  "audit_pairing ev t r st =
     st\<lparr>ps_log := ps_log st @ [\<lparr>pv_event = ev, pv_id = pg_id r, pv_panel = pg_panel r, pv_core = pg_core r,
        pv_status = pg_status r, pv_at = t\<rparr>]\<rparr>"

definition load_pairings :: "pairing list option \<Rightarrow> pairing_event list \<Rightarrow> pairing_store" where
  "load_pairings f lg =
     \<lparr>ps_records = (case f of None \<Rightarrow> [] | Some rs \<Rightarrow> fold (\<lambda>r. dset (pg_id r) r) rs []), ps_file = f, ps_log = lg\<rparr>"

definition due :: "real \<Rightarrow> pairing \<Rightarrow> bool" where
  "due t r \<longleftrightarrow> pg_status r = ''pending'' \<and> pg_expires r \<le> t"

definition expire_pairings :: "real \<Rightarrow> pairing_store \<Rightarrow> pairing_store" where
  "expire_pairings t st =
     (let change = (\<lambda>r. r\<lparr>pg_status := ''expired''\<rparr>);
          hit = map change (filter (due t) (dvals (ps_records st)));
          st1 = fold (audit_pairing ''expired'' t) hit (st\<lparr>ps_records := dmap (\<lambda>r. if due t r then change r else r) (ps_records st)\<rparr>)
      in if hit = [] then st1 else persist_pairings st1)"

definition create_pairing ::
    "(string \<Rightarrow> string) \<Rightarrow> string \<Rightarrow> string \<Rightarrow> string \<Rightarrow> real \<Rightarrow> string \<Rightarrow> real \<Rightarrow> real \<Rightarrow> pairing_store \<Rightarrow> pairing \<times> pairing_store" where
  "create_pairing sha i panel core ttl claim t now st =
     (let r = \<lparr>pg_id = i, pg_panel = panel, pg_core = core, pg_claim = sha claim, pg_created = now, pg_expires = now + ttl,
               pg_status = ''pending'', pg_key = None\<rparr>;
          st1 = expire_pairings t st
      in (r, audit_pairing ''created'' now r (persist_pairings (st1\<lparr>ps_records := dset i r (ps_records st1)\<rparr>))))"

definition claim_error :: raised where
  "claim_error = (''ValueError'', ''unknown, expired, or already used control-plane claim'')"

definition consume_claim ::
    "(string \<Rightarrow> string) \<Rightarrow> string \<Rightarrow> string \<Rightarrow> string \<Rightarrow> real \<Rightarrow> pairing_store \<Rightarrow> (raised + pairing) \<times> pairing_store" where
  "consume_claim sha i claim key t st =
     (let st1 = expire_pairings t st in
      case dget (ps_records st1) i of
        None \<Rightarrow> (Inl claim_error, st1)
      | Some r \<Rightarrow>
          if pg_status r \<noteq> ''pending'' \<or> pg_claim r \<noteq> sha claim then (Inl claim_error, st1)
          else
            (let r' = r\<lparr>pg_status := ''active'', pg_key := Some (sha key)\<rparr> in
             (Inr r', audit_pairing ''activated'' t r' (persist_pairings (st1\<lparr>ps_records := dset i r' (ps_records st1)\<rparr>)))))"

definition key_matches :: "(string \<Rightarrow> string) \<Rightarrow> string \<Rightarrow> pairing \<Rightarrow> bool" where
  "key_matches sha key r \<longleftrightarrow> pg_status r = ''active'' \<and> pg_key r \<noteq> Some [] \<and> pg_key r = Some (sha key)"

definition verify_user_key :: "(string \<Rightarrow> string) \<Rightarrow> string \<Rightarrow> real \<Rightarrow> pairing_store \<Rightarrow> bool \<times> pairing_store" where
  "verify_user_key sha key t st =
     (let st1 = expire_pairings t st in (\<exists>r\<in>set (dvals (ps_records st1)). key_matches sha key r, st1))"

definition revoke_pairing :: "string \<Rightarrow> real \<Rightarrow> pairing_store \<Rightarrow> bool \<times> pairing_store" where
  "revoke_pairing i t st =
     (case dget (ps_records st) i of
        None \<Rightarrow> (False, st)
      | Some r \<Rightarrow>
          if pg_status r \<noteq> ''active'' then (False, st)
          else
            (let r' = r\<lparr>pg_status := ''revoked'', pg_key := None\<rparr> in
             (True, audit_pairing ''revoked'' t r' (persist_pairings (st\<lparr>ps_records := dset i r' (ps_records st)\<rparr>)))))"

section \<open>The command\<close>

record url_parts =
  ur_scheme :: string
  ur_netloc :: string
  ur_username :: "string option"
  ur_password :: "string option"
  ur_query :: string
  ur_fragment :: string
  ur_hostname :: "string option"

text \<open>\<open>str.split()\<close>.\<close>

function words_of :: "string \<Rightarrow> string list" where
  "words_of [] = []"
| "words_of (c # s) =
     (if is_space c then words_of s
      else (c # takeWhile (\<lambda>x. \<not> is_space x) s) # words_of (dropWhile (\<lambda>x. \<not> is_space x) s))"
  by pat_completeness auto
termination
  by (relation "measure length") (auto simp: length_dropWhile_le less_Suc_eq_le)

definition given :: "string option \<Rightarrow> bool" where
  "given x \<longleftrightarrow> x \<noteq> None \<and> x \<noteq> Some []"

definition validate_url :: "(string \<Rightarrow> raised + url_parts) \<Rightarrow> string \<Rightarrow> raised + string" where
  "validate_url urlparse v =
     (case urlparse v of
        Inl e \<Rightarrow> Inl e
      | Inr u \<Rightarrow>
          if ur_scheme u \<notin> {''https'', ''http''} \<or> ur_netloc u = [] \<or> given (ur_username u) \<or> given (ur_password u) \<or>
             ur_query u \<noteq> [] \<or> ur_fragment u \<noteq> []
          then Inl (''PairingError'', ''A valid http(s) URL without credentials, query, or fragment is required.'')
          else if ur_scheme u \<noteq> ''https'' \<and> ur_hostname u \<notin> {Some ''localhost'', Some ''127.0.0.1'', Some ''::1''}
          then Inl (''PairingError'', ''Use HTTPS for every non-local address.'')
          else Inr (rev (dropWhile (\<lambda>c. c = CHR ''/'') (rev v))))"

definition parse_urls :: "(string \<Rightarrow> raised + url_parts) \<Rightarrow> string \<Rightarrow> raised + string \<times> string" where
  "parse_urls urlparse args =
     (case words_of args of
        [a, b] \<Rightarrow>
          (case validate_url urlparse a of
             Inl e \<Rightarrow> Inl e
           | Inr panel \<Rightarrow> map_sum id (\<lambda>core. (panel, core)) (validate_url urlparse b))
      | _ \<Rightarrow> Inl (''PairingError'', ''Usage: /pair_control_plane <panel-url> <core-url>''))"

record pairing_request =
  pq_id :: string
  pq_claim :: string
  pq_panel :: string
  pq_core :: string

record panels =
  pl_store :: pairing_store
  pl_ttl :: real
  pl_telegram :: telegram
  pl_callbacks :: "(string, string \<times> pairing_request) dict"
  pl_posts :: "(string \<times> (string \<times> pyval) list) list"

definition pl_say :: "string \<Rightarrow> string \<Rightarrow> panels \<Rightarrow> panels" where
  "pl_say chat txt s = s\<lparr>pl_telegram := emit (Say chat (Text txt)) (pl_telegram s)\<rparr>"

text \<open>\<open>post\<close> is the exception the HTTP call raises, if it raises.\<close>

definition post_json :: "(string \<Rightarrow> (string \<times> pyval) list \<Rightarrow> raised option) \<Rightarrow> string \<Rightarrow> (string \<times> pyval) list \<Rightarrow> panels \<Rightarrow> raised option \<times> panels" where
  "post_json post url payload s = (post url payload, s\<lparr>pl_posts := pl_posts s @ [(url, payload)]\<rparr>)"

definition refuse_pairing :: "string \<Rightarrow> raised \<Rightarrow> panels \<Rightarrow> raised option \<times> panels" where
  "refuse_pairing chat e s =
     (if fst e = ''PairingError'' then (None, pl_say chat (''Pairing could not be created: '' @ snd e) s) else (Some e, s))"

definition request_pairing ::
    "(string \<Rightarrow> string) \<Rightarrow> (string \<Rightarrow> raised + url_parts) \<Rightarrow> (string \<Rightarrow> (string \<times> pyval) list \<Rightarrow> raised option) \<Rightarrow>
     string \<Rightarrow> string \<Rightarrow> string \<Rightarrow> string \<Rightarrow> real \<Rightarrow> real \<Rightarrow> panels \<Rightarrow> raised option \<times> panels" where
  "request_pairing sha urlparse post chat args new_id claim t now s =
     (case parse_urls urlparse args of
        Inl e \<Rightarrow> refuse_pairing chat e s
      | Inr (panel, core) \<Rightarrow>
          (let i = ''panel-'' @ new_id;
               (r, st) = create_pairing sha i panel core (pl_ttl s) claim t now (pl_store s);
               q = \<lparr>pq_id = i, pq_claim = claim, pq_panel = panel, pq_core = core\<rparr>;
               (err, s2) = post_json post (panel @ ''/api/reus/pairing/claim'')
                 [(''pairing_id'', PStr i), (''core_url'', PStr core), (''claim_hash'', PStr (pg_claim r)),
                  (''expires_at'', PFloat (pg_expires r))] (s\<lparr>pl_store := st\<rparr>)
           in case err of
                Some e \<Rightarrow> refuse_pairing chat e s2
              | None \<Rightarrow>
                  (let (res, g) = request_approval chat i
                         (''Pair a new Reus control-plane server with this restricted public chat only. '' @
                          ''Control plane: '' @ panel @ '' | Core: '' @ core @ ''. '' @
                          ''The admin key will not be sent, and the claim token will not appear in Telegram.'') now (pl_telegram s2)
                   in (case res of
                         Inl m \<Rightarrow> Some (if is_admin_chat chat (pl_telegram s2) then ''ValueError'' else ''PermissionError'', m)
                       | Inr _ \<Rightarrow> None,
                       s2\<lparr>pl_telegram := g,
                          pl_callbacks := (if entered i (pl_telegram s2) g then dset i (chat, q) (pl_callbacks s2)
                                           else pl_callbacks s2)\<rparr>))))"

definition deliver_claim ::
    "(string \<Rightarrow> string) \<Rightarrow> (string \<Rightarrow> (string \<times> pyval) list \<Rightarrow> raised option) \<Rightarrow> string \<Rightarrow> real \<Rightarrow> string \<Rightarrow> pairing_request \<Rightarrow> panels
     \<Rightarrow> raised option \<times> panels" where
  "deliver_claim sha post key t chat q s =
     (case consume_claim sha (pq_id q) (pq_claim q) key t (pl_store s) of
        (Inl e, st) \<Rightarrow> (Some e, s\<lparr>pl_store := st\<rparr>)
      | (Inr r, st) \<Rightarrow>
          (case post_json post (pq_panel q @ ''/api/reus/pairing/receive'')
                  [(''pairing_id'', PStr (pq_id q)), (''claim_token'', PStr (pq_claim q)), (''core_url'', PStr (pq_core q)),
                   (''user_api_key'', PStr key), (''expires_in_seconds'', PInt \<lfloor>pl_ttl s\<rfloor>)] (s\<lparr>pl_store := st\<rparr>) of
             (Some e, s1) \<Rightarrow> (Some e, s1)
           | (None, s1) \<Rightarrow>
               (None, pl_say chat (''Pairing authorization '' @ pg_id r @ '' was sent to the control-plane server over HTTPS. '' @
                        ''The pairing status will appear in the control plane shortly; run the command again if delivery fails.'') s1)))"

definition answer_pairing ::
    "(string \<Rightarrow> string) \<Rightarrow> (string \<Rightarrow> (string \<times> pyval) list \<Rightarrow> raised option) \<Rightarrow> string \<Rightarrow> string \<Rightarrow> string \<Rightarrow> bool \<Rightarrow> real \<Rightarrow> real \<Rightarrow> real
     \<Rightarrow> panels \<Rightarrow> panels" where
  "answer_pairing sha post key chat args approved t1 t2 t =
     answer_gate pl_telegram (\<lambda>g s. s\<lparr>pl_telegram := g\<rparr>) pl_callbacks
       (\<lambda>(c, q). deliver_claim sha post key t c q) (\<lambda>_. id) chat args approved t1 t2"

end
