(* ===== verification/Pairing_Props.thy ===== *)
theory Pairing_Props
  imports Pairing Approval_Props
begin

text \<open>
  Pairings as a machine of requests, answers, checks, revocations and restarts. A pairing that
  is expired or revoked stays so; a key works only through an active pairing, and a pairing is
  active only because an administrator confirmed it in time.
\<close>

datatype panel_op =
    NRequest "string \<Rightarrow> raised + url_parts" "string \<Rightarrow> (string \<times> pyval) list \<Rightarrow> raised option" string string string string real real
  | NAnswer "string \<Rightarrow> (string \<times> pyval) list \<Rightarrow> raised option" string string string bool real real real
  | NVerify string real
  | NRevoke string real
  | NRestart telegram

fun panel_step :: "(string \<Rightarrow> string) \<Rightarrow> panels \<Rightarrow> panel_op \<Rightarrow> panels" where
  "panel_step sha s (NRequest urlparse post chat args new_id claim t now) =
     snd (request_pairing sha urlparse post chat args new_id claim t now s)"
| "panel_step sha s (NAnswer post key chat args ok t1 t2 t) = answer_pairing sha post key chat args ok t1 t2 t s"
| "panel_step sha s (NVerify key t) = s\<lparr>pl_store := snd (verify_user_key sha key t (pl_store s))\<rparr>"
| "panel_step sha s (NRevoke i t) = s\<lparr>pl_store := snd (revoke_pairing i t (pl_store s))\<rparr>"
| "panel_step sha s (NRestart g) =
     s\<lparr>pl_store := load_pairings (ps_file (pl_store s)) (ps_log (pl_store s)), pl_telegram := g, pl_callbacks := []\<rparr>"

text \<open>Identifiers of pairings are fresh.\<close>

fun panel_ok :: "panels \<Rightarrow> panel_op \<Rightarrow> bool" where
  "panel_ok s (NRequest _ _ _ _ new_id _ _ _) \<longleftrightarrow> ''panel-'' @ new_id \<notin> set (dkeys (ps_records (pl_store s)))"
| "panel_ok s _ \<longleftrightarrow> True"

definition pairing_of :: "panels \<Rightarrow> string \<Rightarrow> pairing option" where
  "pairing_of s i = dget (ps_records (pl_store s)) i"

definition filed :: "pairing_store \<Rightarrow> bool" where
  "filed st \<longleftrightarrow> dwf (ps_records st) \<and> (\<forall>(i, r)\<in>set (ps_records st). pg_id r = i) \<and>
     (case ps_file st of None \<Rightarrow> ps_records st = [] | Some rs \<Rightarrow> rs = dvals (ps_records st))"

text \<open>What may become of a pairing.\<close>

definition moves :: "pairing \<Rightarrow> pairing \<Rightarrow> bool" where
  "moves r r' \<longleftrightarrow>
     (pg_status r \<in> {''expired'', ''revoked''} \<longrightarrow> pg_status r' = pg_status r) \<and>
     (pg_status r = ''active'' \<longrightarrow> pg_status r' \<in> {''active'', ''revoked''})"

definition store_moves :: "pairing_store \<Rightarrow> pairing_store \<Rightarrow> bool" where
  "store_moves st st' \<longleftrightarrow> (\<forall>i r. dget (ps_records st) i = Some r \<longrightarrow> (\<exists>r'. dget (ps_records st') i = Some r' \<and> moves r r'))"

lemma moves_trans: "moves a b \<Longrightarrow> moves b c \<Longrightarrow> moves a c"
  by (auto simp: moves_def)

lemma store_moves_trans: "store_moves a b \<Longrightarrow> store_moves b c \<Longrightarrow> store_moves a c"
  unfolding store_moves_def using moves_trans by meson

lemma store_moves_refl: "store_moves a a"
  by (auto simp: store_moves_def moves_def)

section \<open>The store\<close>

lemma audit_pairing_keeps [simp]:
  "ps_records (audit_pairing ev t r st) = ps_records st" "ps_file (audit_pairing ev t r st) = ps_file st"
  by (simp_all add: audit_pairing_def)

lemma audit_pairings_keep [simp]:
  "ps_records (fold (audit_pairing ev t) rs st) = ps_records st" "ps_file (fold (audit_pairing ev t) rs st) = ps_file st"
  by (induction rs arbitrary: st) simp_all

lemma persist_pairings_keeps [simp]:
  "ps_records (persist_pairings st) = ps_records st" "ps_file (persist_pairings st) = Some (dvals (ps_records st))"
  by (simp_all add: persist_pairings_def)

lemma expire_records:
  "ps_records (expire_pairings t st) = dmap (\<lambda>r. if due t r then r\<lparr>pg_status := ''expired''\<rparr> else r) (ps_records st)"
  by (simp add: expire_pairings_def Let_def)

lemma expire_filed:
  assumes "filed st"
  shows "filed (expire_pairings t st) \<and> store_moves st (expire_pairings t st)"
proof
  let ?f = "\<lambda>r. if due t r then r\<lparr>pg_status := ''expired''\<rparr> else r"
  have "dmap ?f (ps_records st) = ps_records st" if "filter (due t) (dvals (ps_records st)) = []"
    using that by (intro dmap_idle) (auto simp: filter_empty_conv)
  then have "case ps_file (expire_pairings t st) of None \<Rightarrow> ps_records (expire_pairings t st) = []
      | Some rs \<Rightarrow> rs = dvals (ps_records (expire_pairings t st))"
    using assms unfolding filed_def by (auto simp: expire_pairings_def Let_def split: option.splits)
  moreover have "pg_id r = i" if "(i, r) \<in> set (ps_records st)" for i r using assms that by (auto simp: filed_def)
  ultimately show "filed (expire_pairings t st)" using assms unfolding filed_def expire_records by (auto simp: in_set_dmap)
  show "store_moves st (expire_pairings t st)"
    unfolding store_moves_def expire_records dget_dmap by (auto simp: moves_def due_def)
qed

lemma put_filed:
  assumes "filed st" "pg_id r = i" "\<And>q. dget (ps_records st) i = Some q \<Longrightarrow> moves q r"
  shows "filed (persist_pairings (st\<lparr>ps_records := dset i r (ps_records st)\<rparr>)) \<and>
     store_moves st (persist_pairings (st\<lparr>ps_records := dset i r (ps_records st)\<rparr>))"
proof -
  have dw: "dwf (ps_records st)" using assms(1) by (simp add: filed_def)
  have "\<forall>(j, x)\<in>set (dset i r (ps_records st)). pg_id x = j"
    using assms(1,2) by (auto simp: in_set_dset [OF dw] filed_def split: if_splits)
  moreover have "moves q r" if "dget (ps_records st) i = Some q" for q using that by (rule assms(3))
  ultimately show ?thesis using dw by (auto simp: filed_def store_moves_def dict_simps moves_def)
qed


text \<open>The operations: the store stays filed, every pairing moves, and where active pairings come from.\<close>

definition store_step :: "pairing_store \<Rightarrow> pairing_store \<Rightarrow> bool" where
  "store_step st st' \<longleftrightarrow> filed st' \<and> store_moves st st' \<and>
     (\<forall>i r. dget (ps_records st') i = Some r \<longrightarrow> pg_status r = ''active'' \<longrightarrow> dget (ps_records st) i = Some r)"

lemma store_step_refl: "filed st \<Longrightarrow> store_step st st"
  by (simp add: store_step_def store_moves_refl)

lemma expire_step: "filed st \<Longrightarrow> store_step st (expire_pairings t st)"
  using expire_filed [of st t] unfolding store_step_def expire_records dget_dmap by auto

lemma filed_audit [simp]: "filed (audit_pairing ev t r st) = filed st"
  "store_moves st' (audit_pairing ev t r st) = store_moves st' st"
  by (simp_all add: filed_def store_moves_def split: option.split)

lemma create_step:
  assumes "filed st" "i \<notin> set (dkeys (ps_records st))" "create_pairing sha i panel core ttl claim t now st = (r, st')"
  shows "store_step st st'"
proof -
  let ?st = "expire_pairings t st"
  have new: "dget (ps_records ?st) i = None" using assms(2) by (simp add: expire_records dget_dmap dget_None_iff)
  have r: "pg_id r = i" "pg_status r = ''pending''" and st': "st' = audit_pairing ''created'' now r
      (persist_pairings (?st\<lparr>ps_records := dset i r (ps_records ?st)\<rparr>))"
    using assms(3) by (auto simp: create_pairing_def Let_def)
  note e = expire_step [OF assms(1), of t]
  have "filed ?st" using e by (simp add: store_step_def)
  then have "filed st' \<and> store_moves ?st st'" using put_filed [of ?st r i] r(1) new unfolding st' filed_audit by simp
  then show ?thesis using e r(2) store_moves_trans unfolding store_step_def st' by (auto simp: dict_simps split: if_splits)
qed

lemma revoke_step:
  assumes "filed st"
  shows "store_step st (snd (revoke_pairing i t st))"
proof (cases "\<exists>r. dget (ps_records st) i = Some r \<and> pg_status r = ''active''")
  case True
  then obtain r where r: "dget (ps_records st) i = Some r" "pg_status r = ''active''" by blast
  let ?r = "r\<lparr>pg_status := ''revoked'', pg_key := None\<rparr>"
  have st': "snd (revoke_pairing i t st) = audit_pairing ''revoked'' t ?r (persist_pairings (st\<lparr>ps_records := dset i ?r (ps_records st)\<rparr>))"
    using r by (simp add: revoke_pairing_def Let_def)
  have "pg_id r = i" using assms dget_in_set [OF r(1)] by (auto simp: filed_def)
  then have "filed (snd (revoke_pairing i t st)) \<and> store_moves st (snd (revoke_pairing i t st))"
    using put_filed [OF assms, of ?r i] r unfolding st' filed_audit by (simp add: moves_def)
  then show ?thesis unfolding store_step_def st' by (auto simp: dict_simps split: if_splits)
next
  case False
  then have "snd (revoke_pairing i t st) = st" by (auto simp: revoke_pairing_def split: option.split)
  then show ?thesis using store_step_refl [OF assms] by simp
qed

text \<open>A claim activates its pairing, which was pending and not expired.\<close>

lemma consume_cases:
  assumes ok: "filed st" and c: "consume_claim sha i claim key t st = (res, st')"
  obtains (refused) "res = Inl claim_error" "store_step st st'"
  | (activated) r where "dget (ps_records st) i = Some r" "pg_status r = ''pending''" "t < pg_expires r" "pg_claim r = sha claim"
      "res = Inr (r\<lparr>pg_status := ''active'', pg_key := Some (sha key)\<rparr>)"
      "filed st'" "store_moves st st'" "dget (ps_records st') i = Some (r\<lparr>pg_status := ''active'', pg_key := Some (sha key)\<rparr>)"
      "\<And>j q. j \<noteq> i \<Longrightarrow> dget (ps_records st') j = Some q \<Longrightarrow> pg_status q = ''active'' \<Longrightarrow> dget (ps_records st) j = Some q"
proof -
  let ?st = "expire_pairings t st"
  note e = expire_step [OF ok, of t]
  show ?thesis
  proof (cases "\<exists>r. dget (ps_records ?st) i = Some r \<and> pg_status r = ''pending'' \<and> pg_claim r = sha claim")
    case True
    then obtain r where r: "dget (ps_records ?st) i = Some r" "pg_status r = ''pending''" "pg_claim r = sha claim" by blast
    let ?r = "r\<lparr>pg_status := ''active'', pg_key := Some (sha key)\<rparr>"
    have st': "st' = audit_pairing ''activated'' t ?r (persist_pairings (?st\<lparr>ps_records := dset i ?r (ps_records ?st)\<rparr>))"
        "res = Inr ?r"
      using c r by (simp_all add: consume_claim_def Let_def)
    obtain q where q: "dget (ps_records st) i = Some q" "r = (if due t q then q\<lparr>pg_status := ''expired''\<rparr> else q)"
      using r(1) unfolding expire_records dget_dmap by auto
    have old: "dget (ps_records st) i = Some r" "\<not> due t r" using q r(2) by (auto split: if_splits)
    have "filed ?st" using e by (simp add: store_step_def)
    moreover have "pg_id r = i" using ok dget_in_set [OF old(1)] by (auto simp: filed_def)
    ultimately have k: "filed st' \<and> store_moves ?st st'"
      using put_filed [of ?st ?r i] r unfolding st'(1) filed_audit by (simp add: moves_def)
    then have m: "store_moves st st'" using e store_moves_trans unfolding store_step_def by blast
    have g: "dget (ps_records st') j = (if j = i then Some ?r else dget (ps_records ?st) j)" for j unfolding st'(1) by (simp add: dict_simps)
    show ?thesis
    proof (rule activated [of r])
      show "t < pg_expires r" using old(2) r(2) by (simp add: due_def)
      show "dget (ps_records st) j = Some q" if "j \<noteq> i" "dget (ps_records st') j = Some q" "pg_status q = ''active''" for j q
        using that e g unfolding store_step_def by simp
    qed (use old r st' k m g in simp_all)
  next
    case False
    then have "res = Inl claim_error" "st' = ?st" using c by (auto simp: consume_claim_def Let_def split: option.splits if_splits)
    then show ?thesis using refused e by simp
  qed
qed

lemma filed_cong: "ps_records a = ps_records b \<Longrightarrow> ps_file a = ps_file b \<Longrightarrow> filed a = filed b"
  by (simp add: filed_def split: option.split)

lemma load_filed:
  assumes "filed st"
  shows "store_step st (load_pairings (ps_file st) lg)"
proof -
  have "ps_records (load_pairings (ps_file st) lg) = ps_records st"
  proof (cases "ps_file st")
    case (Some rs)
    have "fold (\<lambda>r. dset (pg_id r) r) (dvals (ps_records st)) [] = [] @ ps_records st"
      by (rule fold_dset_dvals) (use assms in \<open>auto simp: filed_def\<close>)
    then show ?thesis using assms Some by (simp add: load_pairings_def filed_def)
  qed (use assms in \<open>simp add: load_pairings_def filed_def\<close>)
  moreover have "ps_file (load_pairings (ps_file st) lg) = ps_file st" by (simp add: load_pairings_def)
  ultimately have "filed (load_pairings (ps_file st) lg) \<and> store_moves st (load_pairings (ps_file st) lg)"
    using assms store_moves_refl [of st] filed_cong [of "load_pairings (ps_file st) lg" st] by (simp add: store_moves_def)
  then show ?thesis using \<open>ps_records (load_pairings (ps_file st) lg) = ps_records st\<close> by (simp add: store_step_def)
qed


section \<open>The machine\<close>

lemma pl_say_keeps [simp]:
  "pl_store (pl_say chat txt s) = pl_store s" "pl_callbacks (pl_say chat txt s) = pl_callbacks s"
  by (simp_all add: pl_say_def)

interpretation pairing_gate: gate_client pl_telegram "\<lambda>g s. s\<lparr>pl_telegram := g\<rparr>" pl_callbacks "\<lambda>_. id" pl_store
  by unfold_locales simp_all

lemma request_store:
  "pl_store (snd (request_pairing sha urlparse post chat args new_id claim t now s)) = pl_store s \<or>
   (\<exists>panel core r. create_pairing sha (''panel-'' @ new_id) panel core (pl_ttl s) claim t now (pl_store s) =
      (r, pl_store (snd (request_pairing sha urlparse post chat args new_id claim t now s))))"
proof (cases "parse_urls urlparse args")
  case (Inl e)
  then show ?thesis by (simp add: request_pairing_def refuse_pairing_def)
next
  case (Inr q)
  obtain panel core where q: "q = (panel, core)" by (cases q)
  obtain r st where c: "create_pairing sha (''panel-'' @ new_id) panel core (pl_ttl s) claim t now (pl_store s) = (r, st)"
    by (cases "create_pairing sha (''panel-'' @ new_id) panel core (pl_ttl s) claim t now (pl_store s)")
  have "pl_store (snd (request_pairing sha urlparse post chat args new_id claim t now s)) = st"
    using Inr q c by (simp add: request_pairing_def refuse_pairing_def post_json_def Let_def split: option.split prod.split)
  then show ?thesis using c by blast
qed

lemma deliver_store: "pl_store (snd (deliver_claim sha post key t c q s)) = snd (consume_claim sha (pq_id q) (pq_claim q) key t (pl_store s))"
  by (auto simp: deliver_claim_def post_json_def split: prod.splits sum.splits option.splits)

text \<open>A step keeps the store filed and moves every pairing; it activates a pairing only by a confirmed answer.\<close>

definition activates :: "(string \<Rightarrow> string) \<Rightarrow> panels \<Rightarrow> panel_op \<Rightarrow> string \<Rightarrow> pairing \<Rightarrow> bool" where
  "activates sha s x i r \<longleftrightarrow>
     (\<exists>post key chat args t1 t2 t p g c q r0. x = NAnswer post key chat args True t1 t2 t \<and> pg_key r = Some (sha key) \<and>
        take_pending chat args t1 t2 (pl_telegram s) = (Some p, g) \<and> pa_chat p = chat \<and> t2 < pa_expires p \<and>
        dget (pl_callbacks s) (py_strip args) = Some (c, q) \<and> pq_id q = i \<and>
        pairing_of s i = Some r0 \<and> pg_status r0 = ''pending'' \<and> t < pg_expires r0 \<and> pg_claim r0 = sha (pq_claim q))"

lemma panel_step_keeps:
  assumes ok: "filed (pl_store s)" and fresh: "panel_ok s x"
  shows "filed (pl_store (panel_step sha s x)) \<and> store_moves (pl_store s) (pl_store (panel_step sha s x)) \<and>
     (\<forall>i r. pairing_of (panel_step sha s x) i = Some r \<longrightarrow> pg_status r = ''active'' \<longrightarrow>
        pairing_of s i = Some r \<or> activates sha s x i r)"
proof -
  have quiet: ?thesis if "store_step (pl_store s) (pl_store (panel_step sha s x))"
    using that unfolding store_step_def pairing_of_def by blast
  show ?thesis
  proof (cases x)
    case (NRequest urlparse post chat args new_id claim t now)
    then have "''panel-'' @ new_id \<notin> set (dkeys (ps_records (pl_store s)))" using fresh by simp
    then show ?thesis
      using request_store [of sha urlparse post chat args new_id claim t now s] create_step [OF ok] store_step_refl [OF ok] NRequest
      by (intro quiet) (metis panel_step.simps(1))
  next
    case (NAnswer post key chat args approved t1 t2 t)
    let ?a = "answer_pairing sha post key chat args approved t1 t2 t s"
    show ?thesis
    proof (cases rule: pairing_gate.answer_cases [of "\<lambda>(c, q). deliver_claim sha post key t c q" chat args approved t1 t2 s,
          folded answer_pairing_def, case_names idle executed])
      case idle
      then show ?thesis using store_step_refl [OF ok] NAnswer by (intro quiet) simp
    next
      case (executed p g c s1 res s2)
      obtain cc q where c: "c = (cc, q)" by (cases c)
      obtain res' st' where cons: "consume_claim sha (pq_id q) (pq_claim q) key t (pl_store s) = (res', st')"
        by (cases "consume_claim sha (pq_id q) (pq_claim q) key t (pl_store s)")
      have st': "pl_store ?a = st'"
        using executed(4-6) deliver_store [of sha post key t cc q s1] cons by (simp add: c)
      have pa: "pa_chat p = chat" "t2 < pa_expires p" using take_SomeD [OF executed(2)] by simp_all
      show ?thesis
      proof (cases rule: consume_cases [OF ok cons, case_names refused activated])
        case refused
        show ?thesis using refused(2) by (intro quiet) (simp add: NAnswer st')
      next
        case (activated r)
        have "activates sha s x (pq_id q) (r\<lparr>pg_status := ''active'', pg_key := Some (sha key)\<rparr>)"
          unfolding activates_def pairing_of_def
          by (intro exI conjI) (use activated(1-4) executed(1-3) pa NAnswer c in \<open>simp_all, blast?\<close>)
        moreover have "pairing_of s i = Some r'" if "i \<noteq> pq_id q" "pairing_of (panel_step sha s x) i = Some r'" "pg_status r' = ''active''"
          for i r'
          using activated(9) that st' NAnswer by (simp add: pairing_of_def)
        moreover have "pairing_of (panel_step sha s x) (pq_id q) = Some (r\<lparr>pg_status := ''active'', pg_key := Some (sha key)\<rparr>)"
          using activated(8) st' NAnswer by (simp add: pairing_of_def)
        ultimately show ?thesis using activated(6,7) st' NAnswer by (metis option.inject panel_step.simps(2))
      qed
    qed
  next
    case (NVerify key t)
    then show ?thesis using expire_step [OF ok, of t] by (intro quiet) (simp add: verify_user_key_def Let_def)
  next
    case (NRevoke i t)
    then show ?thesis using revoke_step [OF ok, of i t] by (intro quiet) simp
  next
    case (NRestart g)
    then show ?thesis using load_filed [OF ok] by (intro quiet) simp
  qed
qed


definition panel_inv :: "panels \<Rightarrow> bool" where
  "panel_inv s \<longleftrightarrow> filed (pl_store s)"

definition panel_le :: "panels \<Rightarrow> panels \<Rightarrow> bool" where
  "panel_le s t \<longleftrightarrow> store_moves (pl_store s) (pl_store t)"

interpretation pairings: decision_store "panel_step sha" panel_ok panel_inv panel_le
    "\<lambda>s i. map_option pg_status (pairing_of s i)" "\<lambda>x. x \<in> {''expired'', ''revoked''}"
proof
  show "panel_inv (panel_step sha s x)" "panel_le s (panel_step sha s x)" if "panel_inv s" "panel_ok s x" for s x
    using panel_step_keeps [of s x sha] that by (simp_all add: panel_inv_def panel_le_def)
  show "panel_le s s" for s by (simp add: panel_le_def store_moves_refl)
  show "panel_le s u" if "panel_le s t" "panel_le t u" for s t u
    using that store_moves_trans unfolding panel_le_def by blast
  show "map_option pg_status (pairing_of t i) = Some x"
    if le: "panel_le s t" and st: "map_option pg_status (pairing_of s i) = Some x" and fin: "x \<in> {''expired'', ''revoked''}" for s t i x
  proof -
    obtain r where r: "pairing_of s i = Some r" "pg_status r = x" using st by auto
    then obtain r' where "pairing_of t i = Some r'" "moves r r'"
      using le unfolding panel_le_def store_moves_def pairing_of_def by blast
    then show ?thesis using r(2) fin by (auto simp: moves_def)
  qed
qed

lemma active_origin:
  assumes "panel_inv s" "legal panel_ok (panel_step sha) s ops"
    and "pairing_of (run (panel_step sha) s ops) i = Some r" "pg_status r = ''active''"
  shows "pairing_of s i = Some r \<or>
     (\<exists>before x after. ops = before @ x # after \<and> activates sha (run (panel_step sha) s before) x i r)"
  using assms(2-4)
proof (induction ops rule: rev_induct)
  case (snoc x ops)
  let ?s = "run (panel_step sha) s ops"
  have l: "legal panel_ok (panel_step sha) s ops" "panel_ok ?s x" using snoc.prems(1) by (simp_all add: legal_append)
  have "panel_inv ?s" using pairings.run_inv [OF assms(1) l(1)] .
  then have "pairing_of ?s i = Some r \<or> activates sha ?s x i r"
    using panel_step_keeps [of ?s x sha] l(2) snoc.prems(2,3) by (auto simp: panel_inv_def run_append)
  then show ?case
  proof
    assume "pairing_of ?s i = Some r"
    from snoc.IH [OF l(1) this snoc.prems(3)] show ?thesis by (metis append.assoc append_Cons)
  qed blast
qed simp

lemma verify_active:
  assumes "fst (verify_user_key sha key t st)"
  shows "\<exists>i r. (i, r) \<in> set (ps_records st) \<and> pg_status r = ''active'' \<and> pg_key r = Some (sha key)"
proof -
  obtain i r where "(i, r) \<in> set (ps_records (expire_pairings t st))" "key_matches sha key r"
    using assms by (auto simp: verify_user_key_def Let_def)
  then show ?thesis unfolding expire_records key_matches_def by (fastforce simp: in_set_dmap split: if_splits)
qed

definition unpaired :: "panels \<Rightarrow> bool" where
  "unpaired s \<longleftrightarrow> ps_records (pl_store s) = [] \<and> ps_file (pl_store s) = None"

section \<open>Properties\<close>


text \<open>
  A revocation is final: once an active pairing has been revoked, it is revoked after
  whatever follows, and its key is never accepted again, provided no other pairing has the hash of
  the key and no key with that hash is issued later.
\<close>

theorem revocation_is_final:
  assumes "unpaired s" "legal panel_ok (panel_step sha) s (before @ NRevoke i t # after)"
    and "pairing_of (run (panel_step sha) s before) i = Some r" "pg_status r = ''active''" "pg_key r = Some (sha key)"
    and "\<And>j q. j \<noteq> i \<Longrightarrow> pairing_of (run (panel_step sha) s before) j = Some q \<Longrightarrow> pg_key q \<noteq> Some (sha key)"
    and "\<And>post k chat args ok t1 t2 u. NAnswer post k chat args ok t1 t2 u \<in> set after \<Longrightarrow> sha k \<noteq> sha key"
  shows "map_option pg_status (pairing_of (run (panel_step sha) s (before @ NRevoke i t # after)) i) = Some ''revoked'' \<and>
     \<not> fst (verify_user_key sha key now (pl_store (run (panel_step sha) s (before @ NRevoke i t # after))))"
proof -
  let ?s = "run (panel_step sha) s before" and ?t = "run (panel_step sha) s (before @ NRevoke i t # after)"
  define m where "m = panel_step sha ?s (NRevoke i t)"
  have inv: "panel_inv s" using assms(1) by (simp add: unpaired_def panel_inv_def filed_def)
  have legal: "legal panel_ok (panel_step sha) s ((before @ [NRevoke i t]) @ after)" using assms(2) by simp
  have m: "run (panel_step sha) s (before @ [NRevoke i t]) = m" by (simp add: run_append m_def)
  have t: "?t = run (panel_step sha) m after" by (simp add: run_append m_def)
  have recs: "pairing_of m j = (if j = i then Some (r\<lparr>pg_status := ''revoked'', pg_key := None\<rparr>) else pairing_of ?s j)" for j
    using assms(3,4) by (simp add: m_def pairing_of_def revoke_pairing_def Let_def dict_simps)
  have final: "map_option pg_status (pairing_of ?t i) = Some ''revoked''"
    using pairings.decided_forever [OF inv legal, where i = i and x = "''revoked''"] recs [of i]
    by (simp only: m append_assoc append_Cons append_Nil) simp
  have "\<not> fst (verify_user_key sha key now (pl_store ?t))"
  proof
    assume v: "fst (verify_user_key sha key now (pl_store ?t))"
    have first: "legal panel_ok (panel_step sha) s (before @ [NRevoke i t])" and rest: "legal panel_ok (panel_step sha) m after"
      using legal unfolding legal_append m by simp_all
    have inv': "panel_inv ?t" "panel_inv m" "legal panel_ok (panel_step sha) m after"
      using pairings.run_inv [OF inv legal] pairings.run_inv [OF inv first] rest
      unfolding m by simp_all
    obtain j q where q: "(j, q) \<in> set (ps_records (pl_store ?t))" "pg_status q = ''active''" "pg_key q = Some (sha key)"
      using verify_active [OF v] by blast
    then have j: "pairing_of ?t j = Some q" using inv'(1) by (simp add: pairing_of_def panel_inv_def filed_def dget_iff_in_set)
    then have "j \<noteq> i" using final q(2) by auto
    from active_origin [OF inv'(2,3) j [unfolded t] q(2)] show False
    proof (elim disjE exE conjE)
      assume "pairing_of m j = Some q"
      then show False using recs [of j] \<open>j \<noteq> i\<close> assms(6) [OF \<open>j \<noteq> i\<close>] q(3) by simp
    next
      fix b x a assume x: "after = b @ x # a" "activates sha (run (panel_step sha) m b) x j q"
      then obtain post k chat args t1 t2 u where k: "x = NAnswer post k chat args True t1 t2 u" "pg_key q = Some (sha k)"
        unfolding activates_def by blast
      then have "NAnswer post k chat args True t1 t2 u \<in> set after" using x(1) by simp
      then have "sha k \<noteq> sha key" by (rule assms(7))
      then show False using k(2) q(3) by simp
    qed
  qed
  then show ?thesis using final by simp
qed


section \<open>Witnesses\<close>

definition demo_urls :: "string \<Rightarrow> raised + url_parts" where
  "demo_urls u = Inr \<lparr>ur_scheme = ''https'', ur_netloc = u, ur_username = None, ur_password = None, ur_query = [], ur_fragment = [],
     ur_hostname = Some u\<rparr>"

definition demo_panels :: panels where
  "demo_panels = \<lparr>pl_store = load_pairings None [], pl_ttl = 600, pl_telegram = demo_telegram, pl_callbacks = [], pl_posts = []\<rparr>"

definition demo_pairing_ops :: "panel_op list" where
  "demo_pairing_ops =
     [NRequest demo_urls (\<lambda>_ _. None) ''adm'' ''p/ c'' ''1'' ''claim'' 10 10,
      NAnswer (\<lambda>_ _. None) ''key'' ''adm'' ''panel-1'' True 20 20 20]"

lemma demo_pairings_legal: "legal panel_ok (panel_step (\<lambda>x. CHR ''h'' # x)) demo_panels (demo_pairing_ops @ [NRevoke ''panel-1'' 30])"
  by code_simp


theorem revocation_is_final_witness:
  "\<not> fst (verify_user_key (\<lambda>x. CHR ''h'' # x) ''key'' 40
     (pl_store (run (panel_step (\<lambda>x. CHR ''h'' # x)) demo_panels (demo_pairing_ops @ NRevoke ''panel-1'' 30 # []))))"
proof -
  let ?sha = "\<lambda>x. CHR ''h'' # x" and ?s = "run (panel_step (\<lambda>x. CHR ''h'' # x)) demo_panels demo_pairing_ops"
  have u: "unpaired demo_panels" by code_simp
  have d: "dkeys (ps_records (pl_store ?s)) = [''panel-1'']"
    "map_option pg_status (pairing_of ?s ''panel-1'') = Some ''active''" "map_option pg_key (pairing_of ?s ''panel-1'') = Some (Some ''hkey'')"
    by code_simp+
  then obtain r where r: "pairing_of ?s ''panel-1'' = Some r" "pg_status r = ''active''" "pg_key r = Some (?sha ''key'')" by auto
  have o: "pg_key q \<noteq> Some (?sha ''key'')" if "j \<noteq> ''panel-1''" "pairing_of ?s j = Some q" for j q
    using that d(1) dget_None_iff [of "ps_records (pl_store ?s)" j] by (simp add: pairing_of_def)
  from revocation_is_final [OF u _ r o, where after = "[]"] demo_pairings_legal show ?thesis by simp
qed

end
