(* ===== verification/Agents.thy ===== *)
theory Agents
  imports Prelude
begin

text \<open>
  Agents, their tokens and their semantic memory: the entities (\<open>domain/entities.py\<close>,
  \<open>domain/agent_token.py\<close>, \<open>domain/memory.py\<close>), the in-memory repositories
  (\<open>infrastructure/memory_repository.py\<close>, \<open>agent_token_repository.py\<close>), the vector store
  (\<open>faiss_memory_repository.py\<close>) and the services (\<open>application/agent_service.py\<close>,
  \<open>agent_token_service.py\<close>, \<open>memory_service.py\<close>).

  A repository hands out the stored object, so that a change through it is in the store at once.
  Sets of permissions are lists; of several invalid permissions the code names an arbitrary one,
  the model the first. Fresh identifiers, plaintexts, the clock and the hash are arguments, and
  so is the embedding of a text and \<open>nearest q k rows\<close>, the search of the vector index for
  the \<open>k\<close> rows nearest to \<open>q\<close>, each a score and a row number (-1 pads). Times of creation and
  of operations, which nothing here reads, are left out.
\<close>

section \<open>Agents\<close>

datatype agent_state = Created | Idle | Running | Paused | Errored | Terminated

fun agent_state_value :: "agent_state \<Rightarrow> string" where
  "agent_state_value Created = ''created''"
| "agent_state_value Idle = ''idle''"
| "agent_state_value Running = ''running''"
| "agent_state_value Paused = ''paused''"
| "agent_state_value Errored = ''error''"
| "agent_state_value Terminated = ''terminated''"

fun allowed_transitions :: "agent_state \<Rightarrow> agent_state list" where
  "allowed_transitions Created = [Idle, Errored, Terminated]"
| "allowed_transitions Idle = [Running, Paused, Terminated, Errored]"
| "allowed_transitions Running = [Idle, Paused, Errored, Terminated]"
| "allowed_transitions Paused = [Running, Idle, Terminated, Errored]"
| "allowed_transitions Errored = [Idle, Terminated]"
| "allowed_transitions Terminated = []"

definition allowed_permissions :: "string list" where
  "allowed_permissions = [''read:memory'', ''write:memory'', ''invoke:model'', ''invoke:tool'', ''read:metrics'',
     ''network:outbound'', ''spawn:subagent'']"

datatype agent_error =
    AgentNotFound string
  | PermissionDenied string
  | InvalidStateTransition agent_state agent_state
  | EmptyContent
  | MemoryNotFound string
  | AgentTokenNotFound string
  | TokenAlreadyRevoked string
  | ScopeExceeds "string list"
  | MissingAttribute string

record operation =
  op_action :: string
  op_result :: string
  op_metadata :: "(string, pyval) dict"

record metrics =
  mt_requests :: int
  mt_latency :: real
  mt_errors :: int

record agent =
  ag_id :: string
  ag_name :: string
  ag_permissions :: "string list"
  ag_goals :: "string list"
  ag_state :: agent_state
  ag_memory :: "string list"
  ag_log :: "operation list"
  ag_metrics :: metrics

definition avg_latency :: "metrics \<Rightarrow> real" where
  "avg_latency m = (if mt_requests m = 0 then 0 else mt_latency m / real_of_int (mt_requests m))"

definition new_agent :: "string \<Rightarrow> string \<Rightarrow> string list \<Rightarrow> string list \<Rightarrow> agent_error + agent" where
  "new_agent i name permissions goals =
     (case filter (\<lambda>p. p \<notin> set allowed_permissions) permissions of
        p # _ \<Rightarrow> Inl (PermissionDenied p)
      | [] \<Rightarrow> Inr \<lparr>ag_id = i, ag_name = name, ag_permissions = permissions, ag_goals = goals, ag_state = Created,
          ag_memory = [], ag_log = [], ag_metrics = \<lparr>mt_requests = 0, mt_latency = 0, mt_errors = 0\<rparr>\<rparr>)"

definition record_operation :: "string \<Rightarrow> string \<Rightarrow> (string, pyval) dict \<Rightarrow> agent \<Rightarrow> agent" where
  "record_operation action result metadata a =
     a\<lparr>ag_log := ag_log a @ [\<lparr>op_action = action, op_result = result, op_metadata = metadata\<rparr>]\<rparr>"

definition agent_transition :: "agent_state \<Rightarrow> agent \<Rightarrow> agent_error + agent" where
  "agent_transition target a =
     (if target \<notin> set (allowed_transitions (ag_state a)) then Inl (InvalidStateTransition (ag_state a) target)
      else Inr ((record_operation ''state_transition''
             (agent_state_value (ag_state a) @ ''->'' @ agent_state_value target) [] a)\<lparr>ag_state := target\<rparr>))"

definition record_request :: "real \<Rightarrow> bool \<Rightarrow> agent \<Rightarrow> agent" where
  "record_request ms ok a =
     (let m = ag_metrics a in
      a\<lparr>ag_metrics := \<lparr>mt_requests = mt_requests m + 1, mt_latency = mt_latency m + ms,
                      mt_errors = (if ok then mt_errors m else mt_errors m + 1)\<rparr>\<rparr>)"

section \<open>The repository of agents and its service\<close>

type_synonym agents = "(string, agent) dict"

definition agent_add :: "agent \<Rightarrow> agents \<Rightarrow> agents" where
  "agent_add a d = dset (ag_id a) a d"

definition agent_get :: "string \<Rightarrow> agents \<Rightarrow> agent_error + agent" where
  "agent_get i d = (case dget d i of None \<Rightarrow> Inl (AgentNotFound i) | Some a \<Rightarrow> Inr a)"

text \<open>\<open>get_by_token_hash\<close> reads an attribute that agents do not have.\<close>

definition agent_by_token_hash :: "string \<Rightarrow> agents \<Rightarrow> agent_error + agent option" where
  "agent_by_token_hash h d = (if d = [] then Inr None else Inl (MissingAttribute ''token_hash''))"

definition agent_list :: "agents \<Rightarrow> agent list" where
  "agent_list d = dvals d"

definition agent_update :: "agent \<Rightarrow> agents \<Rightarrow> (agent_error + unit) \<times> agents" where
  "agent_update a d =
     (case dget d (ag_id a) of None \<Rightarrow> (Inl (AgentNotFound (ag_id a)), d) | Some _ \<Rightarrow> (Inr (), dset (ag_id a) a d))"

definition agent_delete :: "string \<Rightarrow> agents \<Rightarrow> (agent_error + unit) \<times> agents" where
  "agent_delete i d = (case dget d i of None \<Rightarrow> (Inl (AgentNotFound i), d) | Some _ \<Rightarrow> (Inr (), ddel i d))"

record token =
  tk_id :: string
  tk_agent :: string
  tk_hash :: string
  tk_label :: string
  tk_scopes :: "string list"
  tk_revoked :: bool
  tk_used :: "real option"

record memory_record =
  mm_id :: string
  mm_agent :: string
  mm_content :: string
  mm_tags :: "string list"

text \<open>Rows of the index are never removed: deleted identifiers are skipped when reading.\<close>

record 'v vectors =
  vs_rows :: "(string \<times> 'v) list"
  vs_records :: "(string, memory_record) dict"
  vs_deleted :: "string list"

record 'v office =
  of_agents :: agents
  of_tokens :: "(string, token) dict"
  of_vectors :: "'v vectors"
  of_events :: "(string \<times> (string \<times> string) list) list"

definition announce :: "string \<Rightarrow> (string \<times> string) list \<Rightarrow> 'v office \<Rightarrow> 'v office" where
  "announce name payload s = s\<lparr>of_events := of_events s @ [(name, payload)]\<rparr>"

definition register_agent :: "string \<Rightarrow> string \<Rightarrow> string list \<Rightarrow> string list \<Rightarrow> 'v office \<Rightarrow> (agent_error + agent) \<times> 'v office" where
  "register_agent i name permissions goals s =
     (case new_agent i name permissions goals of
        Inl e \<Rightarrow> (Inl e, s)
      | Inr a0 \<Rightarrow>
          (let a = record_operation ''register'' ''success'' [] a0 in
           (Inr a, announce ''agent.created'' [(''agent_id'', i), (''name'', name)] (s\<lparr>of_agents := agent_add a (of_agents s)\<rparr>))))"

definition change_state :: "string \<Rightarrow> agent_state \<Rightarrow> 'v office \<Rightarrow> (agent_error + agent) \<times> 'v office" where
  "change_state i target s =
     (case agent_get i (of_agents s) of
        Inl e \<Rightarrow> (Inl e, s)
      | Inr a0 \<Rightarrow>
          (case agent_transition target a0 of
             Inl e \<Rightarrow> (Inl e, s)
           | Inr a \<Rightarrow>
               (case agent_update a (of_agents s) of
                  (Inl e, d) \<Rightarrow> (Inl e, s\<lparr>of_agents := d\<rparr>)
                | (Inr _, d) \<Rightarrow>
                    (Inr a, announce ''agent.state_changed'' [(''agent_id'', i), (''state'', agent_state_value target)]
                       (s\<lparr>of_agents := d\<rparr>)))))"

text \<open>\<open>outcome\<close> is what the operation returns or raises, \<open>ms\<close> the time it takes.\<close>

definition record_call :: "string \<Rightarrow> real \<Rightarrow> agent_error + 'r \<Rightarrow> 'v office \<Rightarrow> (agent_error + 'r) \<times> 'v office" where
  "record_call i ms outcome s =
     (case agent_get i (of_agents s) of
        Inl e \<Rightarrow> (Inl e, s)
      | Inr a0 \<Rightarrow>
          (case agent_update (record_request ms (\<not> isl outcome) a0) (of_agents s) of
             (Inl e, d) \<Rightarrow> (Inl e, s\<lparr>of_agents := d\<rparr>)
           | (Inr _, d) \<Rightarrow> (outcome, s\<lparr>of_agents := d\<rparr>)))"

section \<open>Tokens\<close>

definition revoke :: "token \<Rightarrow> agent_error + token" where
  "revoke t = (if tk_revoked t then Inl (TokenAlreadyRevoked (tk_id t)) else Inr (t\<lparr>tk_revoked := True\<rparr>))"

definition token_by_hash :: "string \<Rightarrow> (string, token) dict \<Rightarrow> token option" where
  "token_by_hash h d = find (\<lambda>t. tk_hash t = h) (dvals d)"

definition tokens_of :: "string \<Rightarrow> (string, token) dict \<Rightarrow> token list" where
  "tokens_of i d = filter (\<lambda>t. tk_agent t = i) (dvals d)"

definition token_update :: "token \<Rightarrow> (string, token) dict \<Rightarrow> (agent_error + unit) \<times> (string, token) dict" where
  "token_update t d =
     (case dget d (tk_id t) of None \<Rightarrow> (Inl (AgentTokenNotFound (tk_id t)), d) | Some _ \<Rightarrow> (Inr (), dset (tk_id t) t d))"

text \<open>\<open>tid\<close> and \<open>plain\<close> are the fresh identifier and plaintext.\<close>

definition issue_token ::
    "(string \<Rightarrow> string) \<Rightarrow> string \<Rightarrow> string \<Rightarrow> string \<Rightarrow> string \<Rightarrow> string list option \<Rightarrow> 'v office
     \<Rightarrow> (agent_error + token \<times> string) \<times> 'v office" where
  "issue_token sha tid plain i label scopes s =
     (case agent_get i (of_agents s) of
        Inl e \<Rightarrow> (Inl e, s)
      | Inr a \<Rightarrow>
          (case (case scopes of
                   None \<Rightarrow> Inr (ag_permissions a)
                 | Some req \<Rightarrow>
                     (let excess = filter (\<lambda>p. p \<notin> set (ag_permissions a)) req in
                      if excess \<noteq> [] then Inl (ScopeExceeds excess) else Inr req)) of
             Inl e \<Rightarrow> (Inl e, s)
           | Inr effective \<Rightarrow>
               (let t = \<lparr>tk_id = tid, tk_agent = i, tk_hash = sha plain, tk_label = label, tk_scopes = effective,
                         tk_revoked = False, tk_used = None\<rparr>
                in (Inr (t, plain), s\<lparr>of_tokens := dset tid t (of_tokens s)\<rparr>))))"

definition list_tokens :: "string \<Rightarrow> 'v office \<Rightarrow> agent_error + token list" where
  "list_tokens i s = (case agent_get i (of_agents s) of Inl e \<Rightarrow> Inl e | Inr _ \<Rightarrow> Inr (tokens_of i (of_tokens s)))"

definition revoke_token :: "string \<Rightarrow> string \<Rightarrow> 'v office \<Rightarrow> (agent_error + token) \<times> 'v office" where
  "revoke_token i tid s =
     (case filter (\<lambda>t. tk_id t = tid) (tokens_of i (of_tokens s)) of
        [] \<Rightarrow> (Inl (AgentTokenNotFound tid), s)
      | t # _ \<Rightarrow>
          (case revoke t of
             Inl e \<Rightarrow> (Inl e, s)
           | Inr t' \<Rightarrow>
               (case token_update t' (of_tokens s) of
                  (Inl e, d) \<Rightarrow> (Inl e, s\<lparr>of_tokens := d\<rparr>)
                | (Inr _, d) \<Rightarrow> (Inr t', s\<lparr>of_tokens := d\<rparr>))))"

definition authenticate :: "(string \<Rightarrow> string) \<Rightarrow> string \<Rightarrow> real \<Rightarrow> 'v office \<Rightarrow> (agent_error + token option) \<times> 'v office" where
  "authenticate sha plain now s =
     (case token_by_hash (sha plain) (of_tokens s) of
        None \<Rightarrow> (Inr None, s)
      | Some t \<Rightarrow>
          if tk_revoked t then (Inr None, s)
          else
            (let t' = t\<lparr>tk_used := Some now\<rparr> in
             case token_update t' (of_tokens s) of
               (Inl e, d) \<Rightarrow> (Inl e, s\<lparr>of_tokens := d\<rparr>)
             | (Inr _, d) \<Rightarrow> (Inr (Some t'), s\<lparr>of_tokens := d\<rparr>)))"

definition effective_scopes :: "token \<Rightarrow> 'v office \<Rightarrow> agent_error + string list" where
  "effective_scopes t s =
     (case agent_get (tk_agent t) (of_agents s) of
        Inl e \<Rightarrow> Inl e
      | Inr a \<Rightarrow> Inr (filter (\<lambda>p. p \<in> set (ag_permissions a)) (tk_scopes t)))"

section \<open>The vector store\<close>

definition vector_add :: "memory_record \<Rightarrow> 'v \<Rightarrow> 'v vectors \<Rightarrow> 'v vectors" where
  "vector_add r e v = v\<lparr>vs_rows := vs_rows v @ [(mm_id r, e)], vs_records := dset (mm_id r) r (vs_records v)\<rparr>"

definition vector_get :: "string \<Rightarrow> 'v vectors \<Rightarrow> agent_error + memory_record" where
  "vector_get m v =
     (case dget (vs_records v) m of
        None \<Rightarrow> Inl (MemoryNotFound m)
      | Some r \<Rightarrow> if m \<in> set (vs_deleted v) then Inl (MemoryNotFound m) else Inr r)"

definition vector_delete :: "string \<Rightarrow> 'v vectors \<Rightarrow> (agent_error + unit) \<times> 'v vectors" where
  "vector_delete m v =
     (if m \<notin> set (dkeys (vs_records v)) \<or> m \<in> set (vs_deleted v) then (Inl (MemoryNotFound m), v)
      else (Inr (), v\<lparr>vs_deleted := List.insert m (vs_deleted v)\<rparr>))"

definition vector_list :: "string \<Rightarrow> 'v vectors \<Rightarrow> memory_record list" where
  "vector_list i v = filter (\<lambda>r. mm_agent r = i \<and> mm_id r \<notin> set (vs_deleted v)) (dvals (vs_records v))"

text \<open>What the loop of a search takes from a row, and the loop, which stops once enough is found.\<close>

definition row_record :: "string option \<Rightarrow> 'v vectors \<Rightarrow> int \<Rightarrow> memory_record option" where
  "row_record who v row =
     (if row = - 1 \<or> row < 0 \<or> nat row \<ge> length (vs_rows v) then None
      else
        (let m = fst (vs_rows v ! nat row) in
         if m \<in> set (vs_deleted v) then None
         else
           (case dget (vs_records v) m of
              None \<Rightarrow> None
            | Some r \<Rightarrow> if who \<noteq> None \<and> Some (mm_agent r) \<noteq> who then None else Some r)))"

fun collect :: "string option \<Rightarrow> 'v vectors \<Rightarrow> int \<Rightarrow> nat \<Rightarrow> (real \<times> int) list \<Rightarrow> (memory_record \<times> real) list" where
  "collect who v k n [] = []"
| "collect who v k n (h # hs) =
     (case row_record who v (snd h) of
        None \<Rightarrow> collect who v k n hs
      | Some r \<Rightarrow> (r, fst h) # (if int (n + 1) \<ge> k then [] else collect who v k (n + 1) hs))"

definition vector_search ::
    "('v \<Rightarrow> int \<Rightarrow> 'v list \<Rightarrow> (real \<times> int) list) \<Rightarrow> 'v \<Rightarrow> int \<Rightarrow> string option \<Rightarrow> 'v vectors \<Rightarrow> (memory_record \<times> real) list" where
  "vector_search nearest q k who v =
     (if vs_rows v = [] then []
      else
        (let fetch = min (int (length (vs_rows v))) (max (k * 5) (k + int (length (vs_deleted v)) + 10))
         in collect who v k 0 (nearest q fetch (map snd (vs_rows v)))))"

section \<open>The memory service\<close>

definition require_permission :: "string \<Rightarrow> string \<Rightarrow> 'v office \<Rightarrow> agent_error + agent" where
  "require_permission i p s =
     (case agent_get i (of_agents s) of
        Inl e \<Rightarrow> Inl e
      | Inr a \<Rightarrow> if p \<notin> set (ag_permissions a) then Inl (PermissionDenied p) else Inr a)"

definition store_memory ::
    "(string \<Rightarrow> 'v) \<Rightarrow> string \<Rightarrow> string \<Rightarrow> string \<Rightarrow> string list \<Rightarrow> 'v office \<Rightarrow> (agent_error + memory_record) \<times> 'v office" where
  "store_memory emb m i words tags s =
     (case require_permission i ''write:memory'' s of
        Inl e \<Rightarrow> (Inl e, s)
      | Inr a \<Rightarrow>
          if py_strip words = [] then (Inl EmptyContent, s)
          else
            (let r = \<lparr>mm_id = m, mm_agent = i, mm_content = words, mm_tags = tags\<rparr>;
                 a' = record_operation ''store_memory'' ''success'' [(''memory_id'', PStr m)] (a\<lparr>ag_memory := ag_memory a @ [m]\<rparr>);
                 s1 = s\<lparr>of_vectors := vector_add r (emb words) (of_vectors s)\<rparr>
             in case agent_update a' (of_agents s1) of
                  (Inl e, d) \<Rightarrow> (Inl e, s1\<lparr>of_agents := d\<rparr>)
                | (Inr _, d) \<Rightarrow> (Inr r, s1\<lparr>of_agents := d\<rparr>)))"

definition search_memory ::
    "(string \<Rightarrow> 'v) \<Rightarrow> ('v \<Rightarrow> int \<Rightarrow> 'v list \<Rightarrow> (real \<times> int) list) \<Rightarrow> string \<Rightarrow> string \<Rightarrow> int \<Rightarrow> 'v office
     \<Rightarrow> agent_error + (memory_record \<times> real) list" where
  "search_memory emb nearest i q k s =
     (case require_permission i ''read:memory'' s of
        Inl e \<Rightarrow> Inl e
      | Inr _ \<Rightarrow> Inr (vector_search nearest (emb q) k (Some i) (of_vectors s)))"

definition list_for_agent :: "string \<Rightarrow> 'v office \<Rightarrow> agent_error + memory_record list" where
  "list_for_agent i s =
     (case require_permission i ''read:memory'' s of Inl e \<Rightarrow> Inl e | Inr _ \<Rightarrow> Inr (vector_list i (of_vectors s)))"

definition forget_memory :: "string \<Rightarrow> string \<Rightarrow> 'v office \<Rightarrow> (agent_error + unit) \<times> 'v office" where
  "forget_memory i m s =
     (case require_permission i ''write:memory'' s of
        Inl e \<Rightarrow> (Inl e, s)
      | Inr a \<Rightarrow>
          (case vector_delete m (of_vectors s) of
             (Inl e, _) \<Rightarrow> (Inl e, s)
           | (Inr _, v) \<Rightarrow>
               (let a' = record_operation ''forget_memory'' ''success'' [(''memory_id'', PStr m)]
                           (a\<lparr>ag_memory := remove1 m (ag_memory a)\<rparr>);
                    s1 = s\<lparr>of_vectors := v\<rparr>
                in case agent_update a' (of_agents s1) of
                     (Inl e, d) \<Rightarrow> (Inl e, s1\<lparr>of_agents := d\<rparr>)
                   | (Inr _, d) \<Rightarrow> (Inr (), s1\<lparr>of_agents := d\<rparr>))))"

end
