(* ===== verification/Access.thy ===== *)
theory Access
  imports Agents Rate_Limiter Pairing
begin

text \<open>
  The HTTP surface of agents, tokens and memory: the guards of \<open>infrastructure/security.py\<close> and
  the handlers of \<open>api/routes/agents.py\<close>, \<open>agent_tokens.py\<close>, \<open>memory.py\<close> and \<open>chat.py\<close>,
  with the bounds on request bodies of \<open>api/schemas.py\<close>.

  A reply is the status and the body, or the reason there is none: an HTTP error, a 429 with
  its retry delay, or an exception nothing handles, which the application turns into a 500.
  FastAPI runs the dependencies of a route before it validates the fields of the body. The
  clock readings, the fresh identifier and plaintext, the hash, the embedding and the index
  search are the fields of an environment.
\<close>

section \<open>Requests and replies\<close>

record request =
  rq_key :: "string option"
  rq_forwarded :: "string option"
  rq_host :: "string option"

datatype stop = Stop int | Limited int | Fault

record 'v site =
  si_office :: "'v office"
  si_limiter :: limiter
  si_chat :: limiter
  si_pairings :: pairing_store
  si_api :: string
  si_user :: string
  si_trust :: bool

record 'v site_env =
  se_sha :: "string \<Rightarrow> string"
  se_now :: real
  se_id :: string
  se_plain :: string
  se_emb :: "string \<Rightarrow> 'v"
  se_nearest :: "'v \<Rightarrow> int \<Rightarrow> 'v list \<Rightarrow> (real \<times> int) list"

definition is_ascii :: "string \<Rightarrow> bool" where
  "is_ascii s \<longleftrightarrow> (\<forall>c\<in>set s. (of_char c :: nat) < 128)"

text \<open>\<open>hmac.compare_digest\<close> raises on strings that are not ASCII.\<close>

definition compare_digest :: "string \<Rightarrow> string \<Rightarrow> stop + bool" where
  "compare_digest a b = (if is_ascii a \<and> is_ascii b then Inr (a = b) else Inl Fault)"

definition key_given :: "request \<Rightarrow> string option" where
  "key_given rq = (case rq_key rq of Some (c # k) \<Rightarrow> Some (c # k) | _ \<Rightarrow> None)"

section \<open>Guards\<close>

definition admin_limit :: "'v site_env \<Rightarrow> request \<Rightarrow> 'v site \<Rightarrow> (stop + unit) \<times> 'v site" where
  "admin_limit e rq s =
     (case allow (se_sha e) (client_key (si_trust s) (rq_forwarded rq) (rq_host rq)) (se_now e) (si_limiter s) of
        ((ok, wait), l) \<Rightarrow> (if ok then Inr () else Inl (Limited (\<lfloor>wait\<rfloor> + 1)), s\<lparr>si_limiter := l\<rparr>))"

definition chat_limit :: "'v site_env \<Rightarrow> request \<Rightarrow> 'v site \<Rightarrow> (stop + unit) \<times> 'v site" where
  "chat_limit e rq s =
     (case allow (se_sha e) (client_key (si_trust s) (rq_forwarded rq) (rq_host rq)) (se_now e) (si_chat s) of
        ((ok, wait), l) \<Rightarrow> (if ok then Inr () else Inl (Limited (\<lfloor>wait\<rfloor> + 1)), s\<lparr>si_chat := l\<rparr>))"

definition verify_api_key :: "'v site_env \<Rightarrow> request \<Rightarrow> 'v site \<Rightarrow> (stop + string) \<times> 'v site" where
  "verify_api_key e rq s =
     (case admin_limit e rq s of
        (Inl x, s1) \<Rightarrow> (Inl x, s1)
      | (Inr _, s1) \<Rightarrow>
          (case key_given rq of
             None \<Rightarrow> (Inl (Stop 401), s1)
           | Some k \<Rightarrow>
               (case compare_digest k (si_api s1) of
                  Inl x \<Rightarrow> (Inl x, s1)
                | Inr same \<Rightarrow> (if same then Inr k else Inl (Stop 401), s1))))"

definition verify_user_api_key :: "'v site_env \<Rightarrow> request \<Rightarrow> 'v site \<Rightarrow> (stop + string) \<times> 'v site" where
  "verify_user_api_key e rq s =
     (case key_given rq of
        None \<Rightarrow> (Inl (Stop 401), s)
      | Some k \<Rightarrow>
          (let (paired, st) = verify_user_key (se_sha e) k (se_now e) (si_pairings s); s1 = s\<lparr>si_pairings := st\<rparr> in
           case (if si_user s1 = [] then Inr False else compare_digest k (si_user s1)) of
             Inl x \<Rightarrow> (Inl x, s1)
           | Inr same \<Rightarrow> (if \<not> same \<and> \<not> paired then Inl (Stop 401) else Inr k, s1)))"

text \<open>Common to the two guards of agents: the rate limit, then the administrative key, then a token.\<close>

definition agent_guard ::
    "(token \<Rightarrow> 'v site \<Rightarrow> stop + unit) \<Rightarrow> string \<Rightarrow> 'v site_env \<Rightarrow> request \<Rightarrow> 'v site \<Rightarrow> (stop + string) \<times> 'v site" where
  "agent_guard accept i e rq s =
     (case admin_limit e rq s of
        (Inl x, s1) \<Rightarrow> (Inl x, s1)
      | (Inr _, s1) \<Rightarrow>
          (case key_given rq of
             None \<Rightarrow> (Inl (Stop 401), s1)
           | Some k \<Rightarrow>
               (case compare_digest k (si_api s1) of
                  Inl x \<Rightarrow> (Inl x, s1)
                | Inr True \<Rightarrow> (Inr i, s1)
                | Inr False \<Rightarrow>
                    (case authenticate (se_sha e) k (se_now e) (si_office s1) of
                       (Inl _, off) \<Rightarrow> (Inl Fault, s1\<lparr>si_office := off\<rparr>)
                     | (Inr None, off) \<Rightarrow> (Inl (Stop 401), s1\<lparr>si_office := off\<rparr>)
                     | (Inr (Some t), off) \<Rightarrow>
                         (let s2 = s1\<lparr>si_office := off\<rparr> in
                          case compare_digest (tk_agent t) i of
                            Inl x \<Rightarrow> (Inl x, s2)
                          | Inr same \<Rightarrow>
                              (if \<not> same then Inl (Stop 401)
                               else (case accept t s2 of Inl x \<Rightarrow> Inl x | Inr _ \<Rightarrow> Inr i), s2))))))"

definition verify_agent_access :: "string \<Rightarrow> 'v site_env \<Rightarrow> request \<Rightarrow> 'v site \<Rightarrow> (stop + string) \<times> 'v site" where
  "verify_agent_access = agent_guard (\<lambda>_ _. Inr ())"

definition require_agent_scope :: "string \<Rightarrow> string \<Rightarrow> 'v site_env \<Rightarrow> request \<Rightarrow> 'v site \<Rightarrow> (stop + string) \<times> 'v site" where
  "require_agent_scope p =
     agent_guard (\<lambda>t s. case effective_scopes t (si_office s) of
        Inl _ \<Rightarrow> Inl Fault | Inr scopes \<Rightarrow> if p \<in> set scopes then Inr () else Inl (Stop 403))"

definition guarded ::
    "('v site_env \<Rightarrow> request \<Rightarrow> 'v site \<Rightarrow> (stop + string) \<times> 'v site) \<Rightarrow> bool \<Rightarrow> ('v site \<Rightarrow> (stop + 'r) \<times> 'v site) \<Rightarrow>
     'v site_env \<Rightarrow> request \<Rightarrow> 'v site \<Rightarrow> (stop + 'r) \<times> 'v site" where
  "guarded dependency valid body e rq s =
     (case dependency e rq s of
        (Inl x, s1) \<Rightarrow> (Inl x, s1)
      | (Inr _, s1) \<Rightarrow> if valid then body s1 else (Inl (Stop 422), s1))"

definition fits :: "nat \<Rightarrow> nat \<Rightarrow> string \<Rightarrow> bool" where
  "fits lo hi x \<longleftrightarrow> lo \<le> length x \<and> length x \<le> hi"


section \<open>Responses\<close>

record agent_view =
  gv_id :: string
  gv_name :: string
  gv_state :: agent_state
  gv_permissions :: "string list"
  gv_goals :: "string list"
  gv_memory :: "string list"
  gv_requests :: int
  gv_latency :: real
  gv_errors :: int

record token_view =
  tv_id :: string
  tv_label :: string
  tv_scopes :: "string list"
  tv_revoked :: bool
  tv_used :: "real option"

datatype body =
    AgentBody agent_view
  | AgentsBody "agent_view list"
  | IssuedBody string string string "string list"
  | TokenBody token_view
  | TokensBody "token_view list"
  | MemoryBody memory_record
  | MemoriesBody "memory_record list"
  | HitsBody "(memory_record \<times> real) list"
  | NoBody

type_synonym http_reply = "stop + int \<times> body"

text \<open>\<open>sorted(...)\<close> of a set.\<close>

definition py_sorted :: "string list \<Rightarrow> string list" where
  "py_sorted xs = sort (remdups xs)"

definition view_agent :: "agent \<Rightarrow> agent_view" where
  "view_agent a =
     \<lparr>gv_id = ag_id a, gv_name = ag_name a, gv_state = ag_state a, gv_permissions = py_sorted (ag_permissions a),
      gv_goals = ag_goals a, gv_memory = ag_memory a, gv_requests = mt_requests (ag_metrics a),
      gv_latency = avg_latency (ag_metrics a), gv_errors = mt_errors (ag_metrics a)\<rparr>"

definition view_token :: "token \<Rightarrow> token_view" where
  "view_token t =
     \<lparr>tv_id = tk_id t, tv_label = tk_label t, tv_scopes = py_sorted (tk_scopes t), tv_revoked = tk_revoked t, tv_used = tk_used t\<rparr>"

text \<open>A handler: what the service raises is an HTTP error if the handler catches it.\<close>

definition in_office ::
    "(agent_error \<Rightarrow> int option) \<Rightarrow> int \<Rightarrow> ('a \<Rightarrow> body) \<Rightarrow> ('v office \<Rightarrow> (agent_error + 'a) \<times> 'v office) \<Rightarrow> 'v site
     \<Rightarrow> http_reply \<times> 'v site" where
  "in_office caught code view f s =
     (case f (si_office s) of
        (Inl x, off) \<Rightarrow> (Inl (case caught x of None \<Rightarrow> Fault | Some c \<Rightarrow> Stop c), s\<lparr>si_office := off\<rparr>)
      | (Inr a, off) \<Rightarrow> (Inr (code, view a), s\<lparr>si_office := off\<rparr>))"

fun caught_register :: "agent_error \<Rightarrow> int option" where
  "caught_register (PermissionDenied _) = Some 400"
| "caught_register _ = None"

fun caught_state :: "agent_error \<Rightarrow> int option" where
  "caught_state (AgentNotFound _) = Some 404"
| "caught_state (InvalidStateTransition _ _) = Some 409"
| "caught_state _ = None"

fun caught_issue :: "agent_error \<Rightarrow> int option" where
  "caught_issue (AgentNotFound _) = Some 404"
| "caught_issue (ScopeExceeds _) = Some 400"
| "caught_issue _ = None"

fun caught_revoke :: "agent_error \<Rightarrow> int option" where
  "caught_revoke (AgentTokenNotFound _) = Some 404"
| "caught_revoke _ = None"

fun caught_memory :: "agent_error \<Rightarrow> int option" where
  "caught_memory (AgentNotFound _) = Some 404"
| "caught_memory (PermissionDenied _) = Some 403"
| "caught_memory _ = None"

fun caught_forget :: "agent_error \<Rightarrow> int option" where
  "caught_forget (MemoryNotFound _) = Some 404"
| "caught_forget e = caught_memory e"

section \<open>Routes\<close>

definition post_agent :: "'v site_env \<Rightarrow> string \<Rightarrow> string list \<Rightarrow> string list \<Rightarrow> request \<Rightarrow> 'v site \<Rightarrow> http_reply \<times> 'v site" where
  "post_agent e name permissions goals =
     guarded verify_api_key (fits 1 200 name)
       (in_office caught_register 201 (AgentBody \<circ> view_agent) (register_agent (se_id e) name permissions goals)) e"

definition list_agents :: "'v site_env \<Rightarrow> request \<Rightarrow> 'v site \<Rightarrow> http_reply \<times> 'v site" where
  "list_agents e =
     guarded verify_api_key True (\<lambda>s. (Inr (200, AgentsBody (map view_agent (agent_list (of_agents (si_office s))))), s)) e"

definition get_agent :: "'v site_env \<Rightarrow> string \<Rightarrow> request \<Rightarrow> 'v site \<Rightarrow> http_reply \<times> 'v site" where
  "get_agent e i =
     guarded verify_api_key True
       (in_office caught_state 200 (AgentBody \<circ> view_agent) (\<lambda>off. (agent_get i (of_agents off), off))) e"

definition patch_state :: "'v site_env \<Rightarrow> string \<Rightarrow> agent_state option \<Rightarrow> request \<Rightarrow> 'v site \<Rightarrow> http_reply \<times> 'v site" where
  "patch_state e i target =
     guarded verify_api_key (target \<noteq> None) (in_office caught_state 200 (AgentBody \<circ> view_agent) (change_state i (the target))) e"

definition post_token :: "'v site_env \<Rightarrow> string \<Rightarrow> string \<Rightarrow> string list option \<Rightarrow> request \<Rightarrow> 'v site \<Rightarrow> http_reply \<times> 'v site" where
  "post_token e i label scopes =
     guarded verify_api_key (fits 0 200 label)
       (in_office caught_issue 201 (\<lambda>(t, plain). IssuedBody (tk_id t) plain (tk_label t) (py_sorted (tk_scopes t)))
          (issue_token (se_sha e) (se_id e) (se_plain e) i label scopes)) e"

definition get_tokens :: "'v site_env \<Rightarrow> string \<Rightarrow> request \<Rightarrow> 'v site \<Rightarrow> http_reply \<times> 'v site" where
  "get_tokens e i =
     guarded verify_api_key True (in_office caught_issue 200 (TokensBody \<circ> map view_token) (\<lambda>off. (list_tokens i off, off))) e"

definition delete_token :: "'v site_env \<Rightarrow> string \<Rightarrow> string \<Rightarrow> request \<Rightarrow> 'v site \<Rightarrow> http_reply \<times> 'v site" where
  "delete_token e i tid =
     guarded verify_api_key True (in_office caught_revoke 200 (TokenBody \<circ> view_token) (revoke_token i tid)) e"

definition post_memory :: "'v site_env \<Rightarrow> string \<Rightarrow> string \<Rightarrow> string list \<Rightarrow> request \<Rightarrow> 'v site \<Rightarrow> http_reply \<times> 'v site" where
  "post_memory e i words tags =
     guarded (require_agent_scope ''write:memory'' i) (fits 1 10000 words)
       (in_office caught_memory 201 MemoryBody (store_memory (se_emb e) (se_id e) i words tags)) e"

definition get_memory :: "'v site_env \<Rightarrow> string \<Rightarrow> request \<Rightarrow> 'v site \<Rightarrow> http_reply \<times> 'v site" where
  "get_memory e i =
     guarded (require_agent_scope ''read:memory'' i) True
       (in_office caught_memory 200 MemoriesBody (\<lambda>off. (list_for_agent i off, off))) e"

definition post_search :: "'v site_env \<Rightarrow> string \<Rightarrow> string \<Rightarrow> int \<Rightarrow> request \<Rightarrow> 'v site \<Rightarrow> http_reply \<times> 'v site" where
  "post_search e i q k =
     guarded (require_agent_scope ''read:memory'' i) (fits 1 2000 q \<and> 1 \<le> k \<and> k \<le> 50)
       (in_office caught_memory 200 HitsBody (\<lambda>off. (search_memory (se_emb e) (se_nearest e) i q k off, off))) e"

definition delete_memory :: "'v site_env \<Rightarrow> string \<Rightarrow> string \<Rightarrow> request \<Rightarrow> 'v site \<Rightarrow> http_reply \<times> 'v site" where
  "delete_memory e i m =
     guarded (require_agent_scope ''write:memory'' i) True (in_office caught_forget 204 (\<lambda>_. NoBody) (forget_memory i m)) e"

text \<open>The public route: \<open>execute\<close> is the task executor, which returns or raises; the body is what it returns.\<close>

definition post_chat ::
    "'v site_env \<Rightarrow> (string \<Rightarrow> string option \<Rightarrow> raised + 'r) \<Rightarrow> string \<Rightarrow> string option \<Rightarrow> request \<Rightarrow> 'v site
     \<Rightarrow> (stop + int \<times> 'r) \<times> 'v site" where
  "post_chat e execute prompt system rq s =
     (case chat_limit e rq s of
        (Inl x, s1) \<Rightarrow> (Inl x, s1)
      | (Inr _, s1) \<Rightarrow>
          guarded verify_user_api_key (fits 1 8000 prompt \<and> fits 0 2000 (case system of None \<Rightarrow> [] | Some x \<Rightarrow> x))
            (\<lambda>s2. (case execute prompt system of
                     Inl x \<Rightarrow> Inl (if fst x = ''TaskExecutionError'' then Stop 502 else Fault)
                   | Inr r \<Rightarrow> Inr (200, r), s2)) e rq s1)"

datatype http =
    PostAgent string "string list" "string list"
  | ListAgents
  | GetAgent string
  | PatchState string "agent_state option"
  | PostToken string string "string list option"
  | ListTokens string
  | DeleteToken string string
  | PostMemory string string "string list"
  | ListMemory string
  | PostSearch string string int
  | DeleteMemory string string

fun serve :: "'v site_env \<Rightarrow> http \<Rightarrow> request \<Rightarrow> 'v site \<Rightarrow> http_reply \<times> 'v site" where
  "serve e (PostAgent name permissions goals) = post_agent e name permissions goals"
| "serve e ListAgents = list_agents e"
| "serve e (GetAgent i) = get_agent e i"
| "serve e (PatchState i target) = patch_state e i target"
| "serve e (PostToken i label scopes) = post_token e i label scopes"
| "serve e (ListTokens i) = get_tokens e i"
| "serve e (DeleteToken i tid) = delete_token e i tid"
| "serve e (PostMemory i words tags) = post_memory e i words tags"
| "serve e (ListMemory i) = get_memory e i"
| "serve e (PostSearch i q k) = post_search e i q k"
| "serve e (DeleteMemory i m) = delete_memory e i m"

end
