(* ===== verification/Access_Props.thy ===== *)
theory Access_Props
  imports Access
begin

text \<open>
  The HTTP surface as a machine of calls. What a memory call needs; what the list of memories
  and a search return, in terms of the calls made before; who can delete a memory; and the log
  of an agent as a record of its life.
\<close>

section \<open>Guards\<close>

lemma admin_limit_keeps [simp]:
  "si_office (snd (admin_limit e rq s)) = si_office s" "si_api (snd (admin_limit e rq s)) = si_api s"
  by (auto simp: admin_limit_def split: prod.split)

lemma admin_limit_keeps' :
  assumes "admin_limit e rq s = (r, s1)"
  shows "si_office s1 = si_office s \<and> si_api s1 = si_api s"
  using admin_limit_keeps [of e rq s] assms by simp

lemma key_given_Some: "key_given rq = Some k \<longleftrightarrow> rq_key rq = Some k \<and> k \<noteq> []"
  by (auto simp: key_given_def split: option.splits list.splits)

lemma compare_Inr: "compare_digest a b = Inr r \<Longrightarrow> r = (a = b)"
  by (simp add: compare_digest_def split: if_splits)

lemma verify_api_key_spec:
  assumes "verify_api_key e rq s = (r, s1)"
  shows "si_office s1 = si_office s \<and> si_api s1 = si_api s \<and> (\<forall>k. r = Inr k \<longrightarrow> rq_key rq = Some (si_api s))"
  using assms
  by (auto simp: verify_api_key_def key_given_Some dest!: admin_limit_keeps' compare_Inr
           split: prod.splits sum.splits option.splits if_splits)

text \<open>The tokens without the time of their last use, which the guards change.\<close>

definition tok :: "'v site \<Rightarrow> string \<Rightarrow> token option" where
  "tok s i = map_option (\<lambda>t. t\<lparr>tk_used := None\<rparr>) (dget (of_tokens (si_office s)) i)"

definition tokens_ok :: "(string, token) dict \<Rightarrow> bool" where
  "tokens_ok d \<longleftrightarrow> dwf d \<and> (\<forall>i t. dget d i = Some t \<longrightarrow> tk_id t = i) \<and> distinct (map tk_hash (dvals d))"

definition agents_ok :: "agents \<Rightarrow> bool" where
  "agents_ok d \<longleftrightarrow> (\<forall>i a. dget d i = Some a \<longrightarrow> ag_id a = i)"

definition records_ok :: "'v vectors \<Rightarrow> bool" where
  "records_ok v \<longleftrightarrow> dwf (vs_records v) \<and> (\<forall>m r. dget (vs_records v) m = Some r \<longrightarrow> mm_id r = m) \<and>
     map fst (vs_rows v) = dkeys (vs_records v)"

definition site_inv :: "'v site \<Rightarrow> bool" where
  "site_inv s \<longleftrightarrow> tokens_ok (of_tokens (si_office s)) \<and> agents_ok (of_agents (si_office s)) \<and> records_ok (of_vectors (si_office s))"

definition untouched :: "'v site \<Rightarrow> 'v site \<Rightarrow> bool" where
  "untouched s s' \<longleftrightarrow> of_agents (si_office s') = of_agents (si_office s) \<and> of_vectors (si_office s') = of_vectors (si_office s) \<and>
     si_api s' = si_api s \<and> tok s' = tok s \<and> site_inv s'"

lemma token_by_hash_Some:
  assumes "token_by_hash h d = Some t" "tokens_ok d"
  shows "dget d (tk_id t) = Some t \<and> tk_hash t = h"
proof -
  have t: "t \<in> set (dvals d)" "tk_hash t = h"
    using assms(1) unfolding token_by_hash_def find_Some_iff by auto
  then obtain i where "dget d i = Some t" using assms(2) by (auto simp: dget_iff_in_set tokens_ok_def)
  then show ?thesis using assms(2) t(2) by (auto simp: tokens_ok_def)
qed

lemma dset_same_hash:
  assumes "dwf d" "dget d i = Some t" "tk_hash t' = tk_hash t"
  shows "map tk_hash (dvals (dset i t' d)) = map tk_hash (dvals d)"
  using assms by (induction d) (auto simp: dset_def)

lemma tokens_ok_change:
  assumes "tokens_ok d" "dget d i = Some t" "tk_hash t' = tk_hash t" "tk_id t' = i"
  shows "tokens_ok (dset i t' d)"
  unfolding tokens_ok_def
proof (intro conjI)
  show "dwf (dset i t' d)" using assms(1) by (simp add: tokens_ok_def)
  show "distinct (map tk_hash (dvals (dset i t' d)))"
    using assms dset_same_hash [of d i t t'] by (simp only: tokens_ok_def)
  show "\<forall>j u. dget (dset i t' d) j = Some u \<longrightarrow> tk_id u = j"
    using assms by (simp add: tokens_ok_def dget_dset)
qed

lemma tokens_ok_new:
  assumes "tokens_ok d" "i \<notin> set (dkeys d)" "tk_hash t \<notin> tk_hash ` set (dvals d)" "tk_id t = i"
  shows "tokens_ok (dset i t d)"
  using assms unfolding dset_new [OF assms(2)] tokens_ok_def by (auto simp: map_add_def split: option.splits)

lemma authenticate_spec:
  assumes inv: "site_inv s" and a: "authenticate sha k now (si_office s) = (r, off)"
  shows "untouched s (s\<lparr>si_office := off\<rparr>) \<and>
     (\<exists>x. r = Inr x \<and> (\<forall>t. x = Some t \<longrightarrow> tok s (tk_id t) = Some (t\<lparr>tk_used := None\<rparr>) \<and> tk_hash t = sha k \<and> \<not> tk_revoked t))"
proof (cases "token_by_hash (sha k) (of_tokens (si_office s))")
  case None
  then show ?thesis using a inv by (auto simp: authenticate_def untouched_def)
next
  case (Some t)
  let ?d = "of_tokens (si_office s)"
  have ok: "tokens_ok ?d" using inv by (simp add: site_inv_def)
  have g: "dget ?d (tk_id t) = Some t" and t: "tk_hash t = sha k" using token_by_hash_Some [OF Some ok] by simp_all
  show ?thesis
  proof (cases "tk_revoked t")
    case True
    then show ?thesis using a inv Some by (auto simp: authenticate_def untouched_def)
  next
    case False
    let ?t = "t\<lparr>tk_used := Some now\<rparr>"
    have off: "off = si_office s\<lparr>of_tokens := dset (tk_id t) ?t ?d\<rparr>" "r = Inr (Some ?t)"
      using a Some False g by (simp_all add: authenticate_def token_update_def Let_def)
    have "tok (s\<lparr>si_office := off\<rparr>) i = tok s i" for i using g by (simp add: tok_def off dget_dset)
    moreover have "site_inv (s\<lparr>si_office := off\<rparr>)"
      using inv tokens_ok_change [OF ok g, of ?t] by (simp add: site_inv_def off)
    ultimately show ?thesis using g t False off by (auto simp: untouched_def tok_def)
  qed
qed


text \<open>What a guard of agents has seen of a request it lets through.\<close>

definition authority :: "(string \<Rightarrow> string) \<Rightarrow> 'v site \<Rightarrow> request \<Rightarrow> string \<Rightarrow> string \<Rightarrow> bool" where
  "authority sha s rq i p \<longleftrightarrow> rq_key rq = Some (si_api s) \<or>
     (\<exists>k tid t. rq_key rq = Some k \<and> tok s tid = Some t \<and> tk_hash t = sha k \<and> \<not> tk_revoked t \<and> tk_agent t = i \<and>
        p \<in> set (tk_scopes t))"

lemma untouched_refl: "site_inv s \<Longrightarrow> si_office s1 = si_office s \<Longrightarrow> si_api s1 = si_api s \<Longrightarrow> untouched s s1"
  by (simp add: untouched_def site_inv_def tok_def fun_eq_iff)

lemma untouched_after: "si_office s1 = si_office s \<Longrightarrow> si_api s1 = si_api s \<Longrightarrow> untouched s (s\<lparr>si_office := off\<rparr>) \<Longrightarrow> untouched s (s1\<lparr>si_office := off\<rparr>)"
  by (auto simp: untouched_def site_inv_def tok_def fun_eq_iff)

lemma require_agent_scope_spec:
  assumes inv: "site_inv s" and g: "require_agent_scope p i e rq s = (r, s2)"
  shows "untouched s s2 \<and> (\<forall>x. r = Inr x \<longrightarrow> authority (se_sha e) s rq i p)"
proof -
  obtain l s1 where l: "admin_limit e rq s = (l, s1)" by (cases "admin_limit e rq s")
  note keep = admin_limit_keeps' [OF l]
  note g = g [unfolded require_agent_scope_def agent_guard_def l]
  have stay: "untouched s s1" using untouched_refl [OF inv] keep by simp
  show ?thesis
  proof (cases l)
    case (Inl x)
    then show ?thesis using g stay by auto
  next
    case (Inr u)
    show ?thesis
    proof (cases "key_given rq")
      case None
      then show ?thesis using g Inr stay by auto
    next
      case (Some k)
      have k: "rq_key rq = Some k" using Some by (simp add: key_given_Some)
      show ?thesis
      proof (cases "compare_digest k (si_api s1)")
        case (Inl x)
        then show ?thesis using g Inr Some stay by auto
      next
        case c: (Inr same)
        have same: "same = (k = si_api s)" using compare_Inr [OF c] keep by simp
        show ?thesis
        proof (cases same)
          case True
          then show ?thesis using g Inr Some c stay k same by (auto simp: authority_def)
        next
          case False
          obtain a off where a: "authenticate (se_sha e) k (se_now e) (si_office s) = (a, off)"
            by (cases "authenticate (se_sha e) k (se_now e) (si_office s)")
          have spec: "untouched s (s\<lparr>si_office := off\<rparr>)"
            "\<exists>x. a = Inr x \<and> (\<forall>t. x = Some t \<longrightarrow> tok s (tk_id t) = Some (t\<lparr>tk_used := None\<rparr>) \<and>
                tk_hash t = se_sha e k \<and> \<not> tk_revoked t)"
            using authenticate_spec [OF inv a] by simp_all
          have q: "untouched s (s1\<lparr>si_office := off\<rparr>)" using untouched_after [of s1 s off] keep spec(1) by simp
          obtain x where x: "a = Inr x" using spec(2) by blast
          have g': "(case x of None \<Rightarrow> (Inl (Stop 401), s1\<lparr>si_office := off\<rparr>)
              | Some t \<Rightarrow> (case compare_digest (tk_agent t) i of Inl y \<Rightarrow> (Inl y, s1\<lparr>si_office := off\<rparr>)
                 | Inr same \<Rightarrow> (if \<not> same then Inl (Stop 401) else
                     (case (case effective_scopes t (si_office (s1\<lparr>si_office := off\<rparr>)) of Inl _ \<Rightarrow> Inl Fault
                        | Inr scopes \<Rightarrow> if p \<in> set scopes then Inr () else Inl (Stop 403)) of Inl y \<Rightarrow> Inl y | Inr _ \<Rightarrow> Inr i),
                   s1\<lparr>si_office := off\<rparr>))) = (r, s2)"
            using g Inr Some c False a keep x by (simp add: Let_def split: option.splits)
          show ?thesis
          proof (cases x)
            case None
            then show ?thesis using g' q by auto
          next
            case (Some t)
            have t: "tok s (tk_id t) = Some (t\<lparr>tk_used := None\<rparr>)" "tk_hash t = se_sha e k" "\<not> tk_revoked t"
              using spec(2) x Some by auto
            have "s2 = s1\<lparr>si_office := off\<rparr>" using g' Some by (auto split: sum.splits)
            moreover have "authority (se_sha e) s rq i p" if "r = Inr y" for y
            proof -
              have "tk_agent t = i" "p \<in> set (tk_scopes t)"
                using g' Some that by (auto simp: effective_scopes_def dest!: compare_Inr split: sum.splits if_splits)
              then show ?thesis unfolding authority_def using t k
                by (intro disjI2 exI [of _ k] exI [of _ "tk_id t"] exI [of _ "t\<lparr>tk_used := None\<rparr>"]) simp
            qed
            ultimately show ?thesis using q by blast
          qed
        qed
      qed
    qed
  qed
qed

section \<open>Routes\<close>

text \<open>A service operation that raises leaves the office as it was, on a consistent office.\<close>

definition atomic :: "('v office \<Rightarrow> (agent_error + 'a) \<times> 'v office) \<Rightarrow> bool" where
  "atomic f \<longleftrightarrow> (\<forall>off x off'. agents_ok (of_agents off) \<longrightarrow> tokens_ok (of_tokens off) \<longrightarrow> f off = (Inl x, off') \<longrightarrow> off' = off)"

lemma route:
  assumes dep: "\<And>x s1. dep e rq s = (x, s1) \<Longrightarrow> untouched s s1 \<and> (\<forall>y. x = Inr y \<longrightarrow> P)" and at: "atomic f"
    and g: "guarded dep valid (in_office caught code view f) e rq s = (r, s')"
  obtains (still) x where "r = Inl x" "untouched s s'"
  | (ran) s1 a off where "P" "valid" "untouched s s1" "f (si_office s1) = (Inr a, off)" "s' = s1\<lparr>si_office := off\<rparr>"
      "r = Inr (code, view a)"
proof -
  obtain x s1 where d: "dep e rq s = (x, s1)" by (cases "dep e rq s")
  obtain out off where f: "f (si_office s1) = (out, off)" by (cases "f (si_office s1)")
  have q: "untouched s s1" using dep [OF d] by simp
  show ?thesis
  proof (cases "isl x \<or> \<not> valid")
    case True
    then have "s' = s1" "\<exists>x. r = Inl x" using g d by (auto simp: guarded_def split: sum.splits if_splits)
    then show ?thesis using q still by blast
  next
    case False
    then obtain y where y: "x = Inr y" "valid" by (cases x) auto
    show ?thesis
    proof (cases out)
      case (Inl z)
      have "agents_ok (of_agents (si_office s1))" "tokens_ok (of_tokens (si_office s1))"
        using q unfolding untouched_def site_inv_def by blast+
      then have "off = si_office s1" using at f Inl unfolding atomic_def by blast
      then have "s' = s1" "\<exists>x. r = Inl x" using g d f y Inl by (auto simp: guarded_def in_office_def)
      then show ?thesis using q still by blast
    next
      case (Inr a)
      have "P" using dep [OF d] y(1) by simp
      then show ?thesis using g d f y q Inr by (intro ran [of s1 a off]) (auto simp: guarded_def in_office_def)
    qed
  qed
qed

lemma admin_route:
  assumes inv: "site_inv s" and g: "guarded verify_api_key valid (in_office caught code view f) e rq s = (r, s')" and at: "atomic f"
  obtains (still) x where "r = Inl x" "untouched s s'"
  | (ran) s1 a off where "rq_key rq = Some (si_api s)" "valid" "untouched s s1" "f (si_office s1) = (Inr a, off)"
      "s' = s1\<lparr>si_office := off\<rparr>" "r = Inr (code, view a)"
proof (rule route [OF _ at g])
  show "untouched s s1 \<and> (\<forall>y. x = Inr y \<longrightarrow> rq_key rq = Some (si_api s))" if "verify_api_key e rq s = (x, s1)" for x s1
    using verify_api_key_spec [OF that] untouched_refl [OF inv, of s1] by blast
qed (use that in blast)+

lemma memory_route:
  assumes inv: "site_inv s" and g: "guarded (require_agent_scope p i) valid (in_office caught code view f) e rq s = (r, s')" and at: "atomic f"
  obtains (still) x where "r = Inl x" "untouched s s'"
  | (ran) s1 a off where "authority (se_sha e) s rq i p" "valid" "untouched s s1" "f (si_office s1) = (Inr a, off)"
      "s' = s1\<lparr>si_office := off\<rparr>" "r = Inr (code, view a)"
  by (rule route [OF _ at g, of "authority (se_sha e) s rq i p"]) (use require_agent_scope_spec [OF inv] that in blast)+

lemma atomic_register: "atomic (register_agent i name permissions goals)"
  by (auto simp: atomic_def register_agent_def Let_def split: sum.splits)

lemma atomic_change: "atomic (change_state i t)"
  by (auto simp: atomic_def change_state_def agent_get_def agent_update_def split: sum.splits option.splits)

lemma atomic_issue: "atomic (issue_token sha tid plain i label scopes)"
  by (auto simp: atomic_def issue_token_def Let_def split: sum.splits)

lemma atomic_revoke: "atomic (revoke_token i tid)"
  by (auto simp: atomic_def revoke_token_def token_update_def split: list.splits sum.splits option.splits)

lemma required:
  "require_permission i p off = Inr a \<longleftrightarrow> dget (of_agents off) i = Some a \<and> p \<in> set (ag_permissions a)"
  by (auto simp: require_permission_def agent_get_def split: option.splits)

lemma update_known: "agents_ok d \<Longrightarrow> dget d i = Some a \<Longrightarrow> ag_id a' = ag_id a \<Longrightarrow> agent_update a' d = (Inr (), dset i a' d)"
  by (simp add: agent_update_def agents_ok_def)

definition stored_agent :: "string \<Rightarrow> agent \<Rightarrow> agent" where
  "stored_agent m a = record_operation ''store_memory'' ''success'' [(''memory_id'', PStr m)] (a\<lparr>ag_memory := ag_memory a @ [m]\<rparr>)"

definition forgot_agent :: "string \<Rightarrow> agent \<Rightarrow> agent" where
  "forgot_agent m a = record_operation ''forget_memory'' ''success'' [(''memory_id'', PStr m)] (a\<lparr>ag_memory := remove1 m (ag_memory a)\<rparr>)"

lemma store_memory_eq:
  assumes "agents_ok (of_agents off)"
  shows "store_memory emb m i words tags off =
     (case require_permission i ''write:memory'' off of
        Inl e \<Rightarrow> (Inl e, off)
      | Inr a \<Rightarrow> if py_strip words = [] then (Inl EmptyContent, off)
          else (let r = \<lparr>mm_id = m, mm_agent = i, mm_content = words, mm_tags = tags\<rparr> in
            (Inr r, off\<lparr>of_agents := dset i (stored_agent m a) (of_agents off), of_vectors := vector_add r (emb words) (of_vectors off)\<rparr>)))"
proof (cases "require_permission i ''write:memory'' off")
  case (Inr a)
  then have "dget (of_agents off) i = Some a" by (simp add: required)
  then show ?thesis
    using update_known [OF assms, of i a "stored_agent m a"] Inr
    by (simp add: store_memory_def stored_agent_def record_operation_def Let_def)
qed (simp add: store_memory_def)

lemma forget_memory_eq:
  assumes "agents_ok (of_agents off)"
  shows "forget_memory i m off =
     (case require_permission i ''write:memory'' off of
        Inl e \<Rightarrow> (Inl e, off)
      | Inr a \<Rightarrow>
          (case vector_delete m (of_vectors off) of
             (Inl e, _) \<Rightarrow> (Inl e, off)
           | (Inr _, v) \<Rightarrow> (Inr (), off\<lparr>of_agents := dset i (forgot_agent m a) (of_agents off), of_vectors := v\<rparr>)))"
proof (cases "require_permission i ''write:memory'' off")
  case (Inr a)
  then have "dget (of_agents off) i = Some a" by (simp add: required)
  then show ?thesis
    using update_known [OF assms, of i a "forgot_agent m a"] Inr
    by (auto simp: forget_memory_def forgot_agent_def record_operation_def Let_def split: prod.splits sum.splits)
qed (simp add: forget_memory_def)

lemma atomic_store: "atomic (store_memory emb m i words tags)"
  unfolding atomic_def by (auto simp: store_memory_eq Let_def split: sum.splits if_splits)

lemma atomic_forget: "atomic (forget_memory i m)"
  unfolding atomic_def by (auto simp: forget_memory_eq split: sum.splits prod.splits)

section \<open>What a call does\<close>

text \<open>Identifiers and tokens are fresh.\<close>

fun fresh_for :: "(string \<Rightarrow> string) \<Rightarrow> 'v site \<Rightarrow> 'v site_env \<Rightarrow> http \<Rightarrow> bool" where
  "fresh_for sha s e (PostAgent _ _ _) \<longleftrightarrow> se_id e \<notin> set (dkeys (of_agents (si_office s)))"
| "fresh_for sha s e (PostToken _ _ _) \<longleftrightarrow> se_id e \<notin> set (dkeys (of_tokens (si_office s))) \<and>
     sha (se_plain e) \<notin> tk_hash ` set (dvals (of_tokens (si_office s)))"
| "fresh_for sha s e (PostMemory _ _ _) \<longleftrightarrow> se_id e \<notin> set (dkeys (vs_records (of_vectors (si_office s))))"
| "fresh_for sha s e _ \<longleftrightarrow> True"

lemma agents_ok_set: "agents_ok d \<Longrightarrow> ag_id a = i \<Longrightarrow> agents_ok (dset i a d)"
  by (simp add: agents_ok_def dget_dset)

lemma dget_dset_same [simp]: "dget (dset k v d) k = Some v"
  by (simp add: dget_dset)

definition with_agents :: "'v site \<Rightarrow> 'v site \<Rightarrow> string \<Rightarrow> agent \<Rightarrow> bool" where
  "with_agents s s' i a \<longleftrightarrow> of_agents (si_office s') = dset i a (of_agents (si_office s)) \<and> ag_id a = i \<and>
     si_api s' = si_api s \<and> site_inv s'"

lemma post_agent_cases:
  assumes inv: "site_inv s" and g: "serve e (PostAgent name permissions goals) rq s = (r, s')"
  obtains (still) x where "r = Inl x" "untouched s s'"
  | (registered) a0 v where "rq_key rq = Some (si_api s)" "new_agent (se_id e) name permissions goals = Inr a0" "r = Inr v"
      "with_agents s s' (se_id e) (record_operation ''register'' ''success'' [] a0)"
      "of_vectors (si_office s') = of_vectors (si_office s)" "tok s' = tok s"
proof (cases rule: admin_route [OF inv g [unfolded serve.simps post_agent_def] atomic_register, case_names still ran])
  case (ran s1 a off)
  then obtain a0 where a0: "new_agent (se_id e) name permissions goals = Inr a0"
      "off = announce ''agent.created'' [(''agent_id'', se_id e), (''name'', name)]
         (si_office s1\<lparr>of_agents := dset (se_id e) (record_operation ''register'' ''success'' [] a0) (of_agents (si_office s1))\<rparr>)"
    by (auto simp: register_agent_def agent_add_def Let_def record_operation_def new_agent_def split: sum.splits list.splits)
  have i: "ag_id (record_operation ''register'' ''success'' [] a0) = se_id e"
    using a0(1) by (auto simp: new_agent_def record_operation_def split: list.splits)
  show ?thesis
  proof (rule registered [OF ran(1) a0(1) ran(6)])
    show "with_agents s s' (se_id e) (record_operation ''register'' ''success'' [] a0)"
      using ran(3,5) a0(2) i by (auto simp: with_agents_def untouched_def site_inv_def announce_def intro!: agents_ok_set)
  qed (use ran(3,5) a0(2) in \<open>simp_all add: untouched_def announce_def tok_def fun_eq_iff\<close>)
qed (use still in blast)

lemma patch_state_cases:
  assumes inv: "site_inv s" and g: "serve e (PatchState i target) rq s = (r, s')"
  obtains (still) x where "r = Inl x" "untouched s s'"
  | (changed) t a a' v where "rq_key rq = Some (si_api s)" "target = Some t" "dget (of_agents (si_office s)) i = Some a"
      "agent_transition t a = Inr a'" "r = Inr v" "with_agents s s' i a'"
      "of_vectors (si_office s') = of_vectors (si_office s)" "tok s' = tok s"
proof (cases rule: admin_route [OF inv g [unfolded serve.simps patch_state_def] atomic_change, case_names still ran])
  case (ran s1 a' off)
  obtain t where t: "target = Some t" using ran(2) by auto
  have ag: "of_agents (si_office s1) = of_agents (si_office s)" "agents_ok (of_agents (si_office s))"
    using ran(3) inv by (simp_all add: untouched_def site_inv_def)
  obtain a where a: "dget (of_agents (si_office s)) i = Some a" "agent_transition t a = Inr a'"
    using ran(4) t ag(1) by (auto simp: change_state_def agent_get_def split: option.splits sum.splits prod.splits)
  have i: "ag_id a' = i" "ag_id a' = ag_id a"
    using a ag(2) by (auto simp: agents_ok_def agent_transition_def record_operation_def split: if_splits)
  have off: "off = announce ''agent.state_changed'' [(''agent_id'', i), (''state'', agent_state_value t)]
      (si_office s1\<lparr>of_agents := dset i a' (of_agents (si_office s))\<rparr>)"
    using ran(4) t a ag(1) update_known [OF ag(2) a(1) i(2)] by (simp add: change_state_def agent_get_def)
  show ?thesis
  proof (rule changed [OF ran(1) t a ran(6)])
    show "with_agents s s' i a'"
      using ran(3,5) off i(1) ag by (auto simp: with_agents_def untouched_def site_inv_def announce_def intro!: agents_ok_set)
  qed (use ran(3,5) off in \<open>simp_all add: untouched_def announce_def tok_def fun_eq_iff\<close>)
qed (use still in blast)


lemma untouched_ok: "untouched s s1 \<Longrightarrow> tokens_ok (of_tokens (si_office s1)) \<and> agents_ok (of_agents (si_office s1)) \<and> records_ok (of_vectors (si_office s1))"
  unfolding untouched_def site_inv_def by blast

lemma untouched_keys:
  assumes "untouched s s1"
  shows "set (dkeys (of_tokens (si_office s1))) = set (dkeys (of_tokens (si_office s)))"
    "dget (of_tokens (si_office s1)) i = Some t \<Longrightarrow> \<exists>u. dget (of_tokens (si_office s)) i = Some u \<and> tk_hash u = tk_hash t"
proof -
  have k: "tok s1 i = tok s i" for i using assms by (simp add: untouched_def)
  have "dget (of_tokens (si_office s1)) i = None \<longleftrightarrow> dget (of_tokens (si_office s)) i = None" for i
    using k [of i] by (auto simp: tok_def)
  then show "set (dkeys (of_tokens (si_office s1))) = set (dkeys (of_tokens (si_office s)))"
    unfolding dget_None_iff by blast
  assume t: "dget (of_tokens (si_office s1)) i = Some t"
  then obtain u where "dget (of_tokens (si_office s)) i = Some u" "t\<lparr>tk_used := None\<rparr> = u\<lparr>tk_used := None\<rparr>"
    using k [of i] by (cases "dget (of_tokens (si_office s)) i") (auto simp: tok_def)
  moreover have "tk_hash (v\<lparr>tk_used := None\<rparr>) = tk_hash v" for v by simp
  ultimately show "\<exists>u. dget (of_tokens (si_office s)) i = Some u \<and> tk_hash u = tk_hash t" by metis
qed

definition issued :: "(string \<Rightarrow> string) \<Rightarrow> 'v site_env \<Rightarrow> string \<Rightarrow> string \<Rightarrow> string list \<Rightarrow> token" where
  "issued sha e i label eff = \<lparr>tk_id = se_id e, tk_agent = i, tk_hash = sha (se_plain e), tk_label = label, tk_scopes = eff,
     tk_revoked = False, tk_used = None\<rparr>"

lemma post_token_cases:
  assumes inv: "site_inv s" and fresh: "fresh_for (se_sha e) s e (PostToken i label scopes)"
    and g: "serve e (PostToken i label scopes) rq s = (r, s')"
  obtains (still) x where "r = Inl x" "untouched s s'"
  | (issued) a eff where "rq_key rq = Some (si_api s)" "dget (of_agents (si_office s)) i = Some a" "set eff \<subseteq> set (ag_permissions a)"
      "r = Inr (201, IssuedBody (se_id e) (se_plain e) label (py_sorted eff))"
      "tok s' = (tok s)(se_id e \<mapsto> issued (se_sha e) e i label eff)"
      "of_agents (si_office s') = of_agents (si_office s)" "of_vectors (si_office s') = of_vectors (si_office s)"
      "si_api s' = si_api s" "site_inv s'"
proof (cases rule: admin_route [OF inv g [unfolded serve.simps post_token_def] atomic_issue, case_names still ran])
  case (ran s1 tp off)
  have same: "of_agents (si_office s1) = of_agents (si_office s)" "of_vectors (si_office s1) = of_vectors (si_office s)"
    "si_api s1 = si_api s" "tok s1 = tok s"
    using ran(3) by (simp_all add: untouched_def)
  obtain a eff where a: "dget (of_agents (si_office s)) i = Some a" "set eff \<subseteq> set (ag_permissions a)"
      "tp = (issued (se_sha e) e i label eff, se_plain e)"
      "off = si_office s1\<lparr>of_tokens := dset (se_id e) (issued (se_sha e) e i label eff) (of_tokens (si_office s1))\<rparr>"
    using ran(4) same(1)
    by (auto simp: issue_token_def agent_get_def issued_def Let_def filter_empty_conv subset_iff split: option.splits sum.splits if_splits)
  have "tokens_ok (dset (se_id e) (issued (se_sha e) e i label eff) (of_tokens (si_office s1)))"
  proof (rule tokens_ok_new)
    show "tokens_ok (of_tokens (si_office s1))" using untouched_ok [OF ran(3)] by blast
    show "se_id e \<notin> set (dkeys (of_tokens (si_office s1)))" using untouched_keys(1) [OF ran(3)] fresh by simp
    show "tk_hash (issued (se_sha e) e i label eff) \<notin> tk_hash ` set (dvals (of_tokens (si_office s1)))"
    proof
      assume "tk_hash (issued (se_sha e) e i label eff) \<in> tk_hash ` set (dvals (of_tokens (si_office s1)))"
      then obtain j t where "(j, t) \<in> set (of_tokens (si_office s1))" "tk_hash t = se_sha e (se_plain e)"
        by (auto simp: issued_def)
      then have "dget (of_tokens (si_office s1)) j = Some t"
        using untouched_ok [OF ran(3)] by (simp add: tokens_ok_def dget_iff_in_set)
      then obtain u where "dget (of_tokens (si_office s)) j = Some u" "tk_hash u = se_sha e (se_plain e)"
        using untouched_keys(2) [OF ran(3)] \<open>tk_hash t = _\<close> by fastforce
      then show False using fresh dget_in_set [of "of_tokens (si_office s)" j u] by force
    qed
    show "tk_id (issued (se_sha e) e i label eff) = se_id e" by (simp add: issued_def)
  qed
  then have inv': "site_inv s'" using untouched_ok [OF ran(3)] ran(5) a(4) by (simp add: site_inv_def)
  have tk: "tok s' = (tok s)(se_id e \<mapsto> issued (se_sha e) e i label eff)"
    unfolding same(4) [symmetric] by (auto simp: ran(5) a(4) tok_def dget_dset issued_def)
  show ?thesis
    by (rule issued [OF ran(1) a(1,2) _ tk _ _ _ inv']) (use ran(5,6) a(3,4) same in \<open>simp_all add: issued_def\<close>)
qed (use still in blast)

lemma delete_token_cases:
  assumes inv: "site_inv s" and g: "serve e (DeleteToken i tid) rq s = (r, s')"
  obtains (still) x where "r = Inl x" "untouched s s'"
  | (revoked) t v where "rq_key rq = Some (si_api s)" "tok s tid = Some t" "tk_agent t = i" "r = Inr v"
      "tok s' = (tok s)(tid \<mapsto> t\<lparr>tk_revoked := True\<rparr>)"
      "of_agents (si_office s') = of_agents (si_office s)" "of_vectors (si_office s') = of_vectors (si_office s)"
      "si_api s' = si_api s" "site_inv s'"
proof (cases rule: admin_route [OF inv g [unfolded serve.simps delete_token_def] atomic_revoke, case_names still ran])
  case (ran s1 t' off)
  have same: "of_agents (si_office s1) = of_agents (si_office s)" "of_vectors (si_office s1) = of_vectors (si_office s)"
    "si_api s1 = si_api s" "tok s1 = tok s"
    using ran(3) by (simp_all add: untouched_def)
  obtain t ts where t: "filter (\<lambda>t. tk_id t = tid) (tokens_of i (of_tokens (si_office s1))) = t # ts" "revoke t = Inr t'"
    using ran(4) by (auto simp: revoke_token_def split: list.splits sum.splits prod.splits)
  have "t \<in> set (filter (\<lambda>t. tk_id t = tid) (tokens_of i (of_tokens (si_office s1))))" using t(1) by simp
  then have m: "tk_id t = tid" "tk_agent t = i" "t \<in> set (dvals (of_tokens (si_office s1)))" by (auto simp: tokens_of_def)
  have ok: "tokens_ok (of_tokens (si_office s1))" using untouched_ok [OF ran(3)] by blast
  then obtain j where "dget (of_tokens (si_office s1)) j = Some t" using m(3) by (auto simp: tokens_ok_def dget_iff_in_set)
  then have g1: "dget (of_tokens (si_office s1)) tid = Some t" using ok m(1) by (auto simp: tokens_ok_def)
  have t': "t' = t\<lparr>tk_revoked := True\<rparr>" using t(2) by (simp add: revoke_def split: if_splits)
  have off: "off = si_office s1\<lparr>of_tokens := dset tid t' (of_tokens (si_office s1))\<rparr>"
    using ran(4) t t' g1 m(1) by (simp add: revoke_token_def token_update_def)
  have inv': "site_inv s'"
    using tokens_ok_change [OF ok g1, of t'] untouched_ok [OF ran(3)] m(1) t' ran(5) off by (simp add: site_inv_def)
  show ?thesis
  proof (rule revoked [OF ran(1) _ _ ran(6) _ _ _ _ inv'])
    show "tok s tid = Some (t\<lparr>tk_used := None\<rparr>)" unfolding same(4) [symmetric] by (simp add: tok_def g1)
    show "tok s' = (tok s)(tid \<mapsto> t\<lparr>tk_used := None\<rparr>\<lparr>tk_revoked := True\<rparr>)"
      unfolding same(4) [symmetric] by (auto simp: ran(5) off tok_def dget_dset t')
  qed (use ran(5) off same m(2) in simp_all)
qed (use still in blast)


lemma post_memory_cases:
  assumes inv: "site_inv s" and fresh: "fresh_for sha s e (PostMemory i words tags)"
    and g: "serve e (PostMemory i words tags) rq s = (r, s')"
  obtains (still) x where "r = Inl x" "untouched s s'"
  | (stored) a rec where "authority (se_sha e) s rq i ''write:memory''" "dget (of_agents (si_office s)) i = Some a"
      "''write:memory'' \<in> set (ag_permissions a)" "rec = \<lparr>mm_id = se_id e, mm_agent = i, mm_content = words, mm_tags = tags\<rparr>"
      "r = Inr (201, MemoryBody rec)" "with_agents s s' i (stored_agent (se_id e) a)"
      "of_vectors (si_office s') = vector_add rec (se_emb e words) (of_vectors (si_office s))" "tok s' = tok s"
proof (cases rule: memory_route [OF inv g [unfolded serve.simps post_memory_def] atomic_store, case_names still ran])
  case (ran s1 rec off)
  have same: "of_agents (si_office s1) = of_agents (si_office s)" "of_vectors (si_office s1) = of_vectors (si_office s)"
    "si_api s1 = si_api s" "tok s1 = tok s"
    using ran(3) by (simp_all add: untouched_def)
  have ok: "agents_ok (of_agents (si_office s1))" "tokens_ok (of_tokens (si_office s1))" "records_ok (of_vectors (si_office s1))"
    using untouched_ok [OF ran(3)] by simp_all
  obtain a where a: "dget (of_agents (si_office s)) i = Some a" "''write:memory'' \<in> set (ag_permissions a)"
      "rec = \<lparr>mm_id = se_id e, mm_agent = i, mm_content = words, mm_tags = tags\<rparr>"
      "off = si_office s1\<lparr>of_agents := dset i (stored_agent (se_id e) a) (of_agents (si_office s1)),
         of_vectors := vector_add rec (se_emb e words) (of_vectors (si_office s1))\<rparr>"
    using ran(4) unfolding store_memory_eq [OF ok(1)] same(1) [symmetric]
    by (auto simp: required Let_def split: sum.splits if_splits)
  have i: "ag_id (stored_agent (se_id e) a) = i"
    using ok(1) a(1) same(1) by (simp add: stored_agent_def record_operation_def agents_ok_def)
  have "se_id e \<notin> set (dkeys (vs_records (of_vectors (si_office s1))))" using fresh same(2) by simp
  then have rec: "records_ok (vector_add rec (se_emb e words) (of_vectors (si_office s1)))"
    using ok(3) a(3) dset_new [of "se_id e" "vs_records (of_vectors (si_office s1))" rec]
    by (auto simp: records_ok_def vector_add_def map_add_def split: option.splits)
  show ?thesis
  proof (rule stored [OF ran(1) a(1-3) ran(6)])
    show "with_agents s s' i (stored_agent (se_id e) a)"
      unfolding with_agents_def site_inv_def
      using ran(5) a(4) ok rec agents_ok_set [OF ok(1) i] i same by simp
  qed (use ran(5) a(4) same in \<open>auto simp: tok_def fun_eq_iff\<close>)
qed (use still in blast)

lemma delete_memory_cases:
  assumes inv: "site_inv s" and g: "serve e (DeleteMemory i m) rq s = (r, s')"
  obtains (still) x where "r = Inl x" "untouched s s'"
  | (forgot) a v where "authority (se_sha e) s rq i ''write:memory''" "dget (of_agents (si_office s)) i = Some a"
      "''write:memory'' \<in> set (ag_permissions a)" "r = Inr v" "with_agents s s' i (forgot_agent m a)"
      "vector_delete m (of_vectors (si_office s)) = (Inr (), of_vectors (si_office s'))" "tok s' = tok s"
proof (cases rule: memory_route [OF inv g [unfolded serve.simps delete_memory_def] atomic_forget, case_names still ran])
  case (ran s1 u off)
  have same: "of_agents (si_office s1) = of_agents (si_office s)" "of_vectors (si_office s1) = of_vectors (si_office s)"
    "si_api s1 = si_api s" "tok s1 = tok s"
    using ran(3) by (simp_all add: untouched_def)
  have ok: "agents_ok (of_agents (si_office s1))" "tokens_ok (of_tokens (si_office s1))" "records_ok (of_vectors (si_office s1))"
    using untouched_ok [OF ran(3)] by simp_all
  obtain a v where a: "dget (of_agents (si_office s)) i = Some a" "''write:memory'' \<in> set (ag_permissions a)"
      "vector_delete m (of_vectors (si_office s)) = (Inr (), v)"
      "off = si_office s1\<lparr>of_agents := dset i (forgot_agent m a) (of_agents (si_office s1)), of_vectors := v\<rparr>"
    using ran(4) unfolding forget_memory_eq [OF ok(1)] same(1,2) [symmetric]
    by (auto simp: required split: sum.splits prod.splits)
  have i: "ag_id (forgot_agent m a) = i"
    using ok(1) a(1) same(1) by (simp add: forgot_agent_def record_operation_def agents_ok_def)
  have rec: "records_ok v"
    using ok(3) a(3) same(2) by (auto simp: records_ok_def vector_delete_def split: if_splits)
  show ?thesis
  proof (rule forgot [OF ran(1) a(1,2) ran(6)])
    show "with_agents s s' i (forgot_agent m a)"
      unfolding with_agents_def site_inv_def
      using ran(5) a(4) ok rec agents_ok_set [OF ok(1) i] i same by simp
  qed (use ran(5) a(3,4) same in \<open>auto simp: tok_def fun_eq_iff\<close>)
qed (use still in blast)

text \<open>Calls that read change nothing, and say what is there.\<close>

fun reads :: "http \<Rightarrow> bool" where
  "reads ListAgents = True"
| "reads (GetAgent i) = True"
| "reads (ListTokens i) = True"
| "reads (ListMemory i) = True"
| "reads (PostSearch i q k) = True"
| "reads _ = False"

lemma atomic_pure: "atomic (\<lambda>off. (f off, off))"
  by (simp add: atomic_def)

lemma put_back [simp]: "s1\<lparr>si_office := si_office s1\<rparr> = s1"
  by simp

lemma admin_read:
  assumes "site_inv s" "guarded verify_api_key valid (in_office caught code view (\<lambda>off. (f off, off))) e rq s = (r, s')"
  shows "untouched s s'"
  by (rule admin_route [OF assms atomic_pure]) auto

lemma memory_read:
  assumes "site_inv s" "guarded (require_agent_scope p i) valid (in_office caught code view (\<lambda>off. (f off, off))) e rq s = (r, s')"
  shows "untouched s s' \<and> (\<forall>v. r = Inr v \<longrightarrow> authority (se_sha e) s rq i p \<and> valid \<and> (\<exists>a. f (si_office s') = Inr a \<and> v = (code, view a)))"
  by (rule memory_route [OF assms atomic_pure]) auto

lemma reads_untouched:
  assumes inv: "site_inv s" and r: "reads c" and g: "serve e c rq s = (r, s')"
  shows "untouched s s'"
proof (cases c)
  case ListAgents
  obtain x s1 where d: "verify_api_key e rq s = (x, s1)" by (cases "verify_api_key e rq s")
  then have "s' = s1" using g ListAgents by (auto simp: list_agents_def guarded_def split: sum.splits)
  then show ?thesis using verify_api_key_spec [OF d] untouched_refl [OF inv] by blast
next
  case (GetAgent i)
  show ?thesis by (rule admin_read [OF inv g [unfolded GetAgent serve.simps get_agent_def]])
next
  case (ListTokens i)
  show ?thesis by (rule admin_read [OF inv g [unfolded ListTokens serve.simps get_tokens_def]])
next
  case (ListMemory i)
  show ?thesis using memory_read [OF inv g [unfolded ListMemory serve.simps get_memory_def]] by blast
next
  case (PostSearch i q k)
  show ?thesis using memory_read [OF inv g [unfolded PostSearch serve.simps post_search_def]] by blast
qed (use r in simp_all)

section \<open>The machine of calls\<close>

type_synonym 'v visit = "'v site_env \<times> http \<times> request"

fun site_step :: "'v site \<Rightarrow> 'v visit \<Rightarrow> 'v site" where
  "site_step s (e, c, rq) = snd (serve e c rq s)"

fun visit_ok :: "(string \<Rightarrow> string) \<Rightarrow> 'v site \<Rightarrow> 'v visit \<Rightarrow> bool" where
  "visit_ok sha s (e, c, rq) \<longleftrightarrow> se_sha e = sha \<and> fresh_for sha s e c"

definition reply_to :: "'v site \<Rightarrow> 'v visit \<Rightarrow> http_reply" where
  "reply_to s x = fst (serve (fst x) (fst (snd x)) (snd (snd x)) s)"

lemma serve_split: "serve e c rq s = (reply_to s (e, c, rq), site_step s (e, c, rq))"
  by (simp add: reply_to_def)

text \<open>A site with no agents, tokens or memories.\<close>

definition vacant :: "'v site \<Rightarrow> bool" where
  "vacant s \<longleftrightarrow> of_agents (si_office s) = [] \<and> of_tokens (si_office s) = [] \<and>
     of_vectors (si_office s) = \<lparr>vs_rows = [], vs_records = [], vs_deleted = []\<rparr>"

lemma vacant_inv: "vacant s \<Longrightarrow> site_inv s"
  by (simp add: vacant_def site_inv_def tokens_ok_def agents_ok_def records_ok_def)

text \<open>Issuing and revoking, seen from outside; a token never changes but by its revocation.\<close>

definition issues :: "(string \<Rightarrow> string) \<Rightarrow> 'v site \<Rightarrow> 'v visit \<Rightarrow> string \<Rightarrow> token \<Rightarrow> bool" where
  "issues sha s x tid t \<longleftrightarrow>
     (\<exists>e i label scopes rq a eff. x = (e, PostToken i label scopes, rq) \<and> se_id e = tid \<and> rq_key rq = Some (si_api s) \<and>
        dget (of_agents (si_office s)) i = Some a \<and> set eff \<subseteq> set (ag_permissions a) \<and>
        reply_to s x = Inr (201, IssuedBody tid (se_plain e) label (py_sorted eff)) \<and> t = issued sha e i label eff)"

definition revokes :: "'v site \<Rightarrow> 'v visit \<Rightarrow> string \<Rightarrow> bool" where
  "revokes s x tid \<longleftrightarrow> (\<exists>e i rq v. x = (e, DeleteToken i tid, rq) \<and> rq_key rq = Some (si_api s) \<and> reply_to s x = Inr v)"

definition tokens_move :: "(string \<Rightarrow> string) \<Rightarrow> 'v site \<Rightarrow> 'v visit \<Rightarrow> bool" where
  "tokens_move sha s x \<longleftrightarrow>
     tok (site_step s x) = tok s \<and> (\<forall>tid. \<not> revokes s x tid) \<or>
     (\<exists>tid t. tok s tid = None \<and> issues sha s x tid t \<and> tok (site_step s x) = (tok s)(tid \<mapsto> t)) \<or>
     (\<exists>tid t. tok s tid = Some t \<and> revokes s x tid \<and> tok (site_step s x) = (tok s)(tid \<mapsto> t\<lparr>tk_revoked := True\<rparr>))"

lemma visit_effect:
  assumes inv: "site_inv s" and ok: "visit_ok sha s (e, c, rq)"
  shows "site_inv (site_step s (e, c, rq)) \<and> si_api (site_step s (e, c, rq)) = si_api s \<and> tokens_move sha s (e, c, rq)"
proof -
  have same: ?thesis if "site_inv (site_step s (e, c, rq))" "si_api (site_step s (e, c, rq)) = si_api s"
    "tok (site_step s (e, c, rq)) = tok s" "\<And>tid. \<not> revokes s (e, c, rq) tid"
    using that by (simp add: tokens_move_def)
  have untouched: ?thesis if "untouched s (site_step s (e, c, rq))" "\<And>tid. \<not> revokes s (e, c, rq) tid"
    using that by (intro same) (simp_all add: untouched_def)
  show ?thesis
  proof (cases c)
    case (PostAgent name permissions goals)
    show ?thesis
      by (rule post_agent_cases [OF inv serve_split [of e c rq s, unfolded PostAgent]])
        (rule untouched same; simp add: PostAgent with_agents_def revokes_def)+
  next
    case (PatchState i t)
    show ?thesis
      by (rule patch_state_cases [OF inv serve_split [of e c rq s, unfolded PatchState]])
        (rule untouched same; simp add: PatchState with_agents_def revokes_def)+
  next
    case (PostToken i label scopes)
    have f: "fresh_for (se_sha e) s e (PostToken i label scopes)" and sha: "se_sha e = sha" using ok PostToken by simp_all
    show ?thesis
    proof (cases rule: post_token_cases [OF inv f serve_split [of e c rq s, unfolded PostToken], case_names still issued])
      case (still x)
      then show ?thesis by (intro untouched) (simp_all add: PostToken revokes_def)
    next
      case (issued a eff)
      have "issues sha s (e, c, rq) (se_id e) (issued sha e i label eff)"
        unfolding issues_def using issued(1-4) PostToken by auto
      moreover have "tok s (se_id e) = None" using f by (simp add: tok_def map_of_eq_None_iff)
      ultimately show ?thesis using issued(5,8,9) PostToken sha unfolding tokens_move_def by auto
    qed
  next
    case (DeleteToken i tid)
    show ?thesis
    proof (cases rule: delete_token_cases [OF inv serve_split [of e c rq s, unfolded DeleteToken], case_names still revoked])
      case (still x)
      then show ?thesis by (intro untouched) (auto simp: DeleteToken revokes_def)
    next
      case (revoked t v)
      then have "revokes s (e, c, rq) tid" by (simp add: revokes_def DeleteToken)
      then show ?thesis using revoked(2,5,8,9) DeleteToken unfolding tokens_move_def by auto
    qed
  next
    case (PostMemory i words tags)
    have f: "fresh_for sha s e (PostMemory i words tags)" using ok PostMemory by simp
    show ?thesis
      by (rule post_memory_cases [OF inv f serve_split [of e c rq s, unfolded PostMemory]])
        (rule untouched same; simp add: PostMemory with_agents_def revokes_def)+
  next
    case (DeleteMemory i m)
    show ?thesis
      by (rule delete_memory_cases [OF inv serve_split [of e c rq s, unfolded DeleteMemory]])
        (rule untouched same; simp add: DeleteMemory with_agents_def revokes_def)+
  qed (rule untouched; use reads_untouched [OF inv _ serve_split [of e c rq s]] in \<open>simp add: revokes_def\<close>)+
qed

definition tokens_kept :: "'v site \<Rightarrow> 'v site \<Rightarrow> bool" where
  "tokens_kept s s' \<longleftrightarrow> si_api s' = si_api s \<and>
     (\<forall>tid t. tok s tid = Some t \<longrightarrow> (\<exists>r. tok s' tid = Some (t\<lparr>tk_revoked := r\<rparr>) \<and> (tk_revoked t \<longrightarrow> r)))"

lemma tokens_kept_trans: "tokens_kept s t \<Longrightarrow> tokens_kept t u \<Longrightarrow> tokens_kept s u"
  unfolding tokens_kept_def by fastforce

lemma tokens_kept_refl: "tokens_kept s s"
  unfolding tokens_kept_def by (metis token.surjective token.update_convs(6))

lemma tokens_move_kept: "tokens_move sha s x \<Longrightarrow> si_api (site_step s x) = si_api s \<Longrightarrow> tokens_kept s (site_step s x)"
  using tokens_kept_refl [of s] unfolding tokens_move_def tokens_kept_def by fastforce

interpretation sites: decision_store site_step "visit_ok sha" site_inv tokens_kept
    "\<lambda>s tid. map_option tk_revoked (tok s tid)" "\<lambda>x. x"
proof
  show "site_inv (site_step s x)" "tokens_kept s (site_step s x)" if "site_inv s" "visit_ok sha s x" for s x
    using visit_effect [of s sha "fst x" "fst (snd x)" "snd (snd x)"] tokens_move_kept [of sha s x] that by simp_all
  show "tokens_kept s s" for s by (rule tokens_kept_refl)
  show "tokens_kept s u" if "tokens_kept s t" "tokens_kept t u" for s t u by (rule tokens_kept_trans [OF that])
  show "map_option tk_revoked (tok t tid) = Some x"
    if k: "tokens_kept s t" and st: "map_option tk_revoked (tok s tid) = Some x" and x: x for s t tid x
  proof -
    obtain u where "tok s tid = Some u" "tk_revoked u" using st x by auto
    then obtain r where "tok t tid = Some (u\<lparr>tk_revoked := r\<rparr>)" r using k unfolding tokens_kept_def by blast
    then show ?thesis using x by simp
  qed
qed


text \<open>The life of a token: it was issued once, and is revoked if a call has revoked it since.\<close>

lemma token_life:
  assumes "vacant s" "legal (visit_ok sha) site_step s ops" "tok (run site_step s ops) tid = Some t"
  shows "\<exists>before x after t0. ops = before @ x # after \<and> issues sha (run site_step s before) x tid t0 \<and>
     t = t0\<lparr>tk_revoked := tk_revoked t\<rparr> \<and>
     (\<not> tk_revoked t \<longrightarrow> (\<forall>b y a. after = b @ y # a \<longrightarrow> \<not> revokes (run site_step s (before @ x # b)) y tid))"
  using assms(2,3)
proof (induction ops arbitrary: t rule: rev_induct)
  case Nil
  then show ?case using assms(1) by (simp add: tok_def vacant_def)
next
  case (snoc y ops)
  let ?s = "run site_step s ops"
  have l: "legal (visit_ok sha) site_step s ops" "visit_ok sha ?s y" using snoc.prems(1) by (simp_all add: legal_append)
  have inv: "site_inv ?s" by (rule sites.run_inv [OF vacant_inv [OF assms(1)] l(1)])
  have t: "tok (site_step ?s y) tid = Some t" using snoc.prems(2) by (simp add: run_append)
  have older: ?case if old: "tok ?s tid = Some u" "t = u\<lparr>tk_revoked := tk_revoked t\<rparr>"
      "\<not> tk_revoked t \<Longrightarrow> \<not> tk_revoked u \<and> \<not> revokes ?s y tid" for u
  proof -
    obtain before x after t0 where o: "ops = before @ x # after" "issues sha (run site_step s before) x tid t0"
        "u = t0\<lparr>tk_revoked := tk_revoked u\<rparr>"
        "\<not> tk_revoked u \<longrightarrow> (\<forall>b y a. after = b @ y # a \<longrightarrow> \<not> revokes (run site_step s (before @ x # b)) y tid)"
      using snoc.IH [OF l(1) old(1)] by blast
    have "t = t0\<lparr>tk_revoked := tk_revoked t\<rparr>" using old(2) o(3) by (metis token.update_convs(6) token.surjective)
    moreover have "\<not> revokes (run site_step s (before @ x # b)) z tid"
      if "\<not> tk_revoked t" "after @ [y] = b @ z # a" for b z a
    proof (cases a rule: rev_cases)
      case Nil
      then show ?thesis using that old(3) o(1) by simp
    next
      case (snoc a' w)
      then have "after = b @ z # a'" using that(2) by simp
      then show ?thesis using that(1) old(3) o(4) by blast
    qed
    ultimately show ?thesis using o(1,2) by (intro exI [of _ before] exI [of _ x] exI [of _ "after @ [y]"] exI [of _ t0]) auto
  qed
  have "tokens_move sha ?s y" using visit_effect [OF inv, of sha "fst y" "fst (snd y)" "snd (snd y)"] l(2) by simp
  then consider (same) "tok (site_step ?s y) = tok ?s" "\<not> revokes ?s y tid"
    | (made) j u where "tok ?s j = None" "issues sha ?s y j u" "tok (site_step ?s y) = (tok ?s)(j \<mapsto> u)"
    | (dead) j u where "tok ?s j = Some u" "revokes ?s y j" "tok (site_step ?s y) = (tok ?s)(j \<mapsto> u\<lparr>tk_revoked := True\<rparr>)"
    unfolding tokens_move_def by blast
  then show ?case
  proof cases
    case same
    then show ?thesis using t by (intro older [of t]) auto
  next
    case made
    have no: "\<not> revokes ?s y k" for k using made(2) by (auto simp: issues_def revokes_def)
    show ?thesis
    proof (cases "j = tid")
      case True
      then have "issues sha ?s y tid t" using made t by simp
      then show ?thesis by (intro exI [of _ ops] exI [of _ y] exI [of _ "[]"] exI [of _ t]) auto
    next
      case False
      then show ?thesis using made t no by (intro older [of t]) auto
    qed
  next
    case dead
    have only: "k = j" if "revokes ?s y k" for k
      using that dead(2) by (auto simp: revokes_def)
    show ?thesis
    proof (cases "j = tid")
      case True
      then show ?thesis using dead t by (intro older [of u]) auto
    next
      case False
      then have "tok ?s tid = Some t" "\<not> revokes ?s y tid" using dead(3) t only by auto
      then show ?thesis by (intro older [of t]) simp_all
    qed
  qed
qed


section \<open>Memory calls\<close>

fun memory_call :: "http \<Rightarrow> (string \<times> string) option" where
  "memory_call (PostMemory i _ _) = Some (i, ''write:memory'')"
| "memory_call (DeleteMemory i _) = Some (i, ''write:memory'')"
| "memory_call (ListMemory i) = Some (i, ''read:memory'')"
| "memory_call (PostSearch i _ _) = Some (i, ''read:memory'')"
| "memory_call _ = None"

lemma memory_call_needs:
  assumes inv: "site_inv s" and ok: "visit_ok sha s (e, c, rq)" and v: "reply_to s (e, c, rq) = Inr v" and m: "memory_call c = Some (i, p)"
  shows "authority sha s rq i p \<and> (\<exists>a. dget (of_agents (si_office s)) i = Some a \<and> p \<in> set (ag_permissions a))"
proof -
  have sha: "se_sha e = sha" using ok by simp
  obtain code b where v': "v = (code, b)" by (cases v)
  show ?thesis
  proof (cases c)
    case (PostMemory j words tags)
    have f: "fresh_for sha s e (PostMemory j words tags)" using ok PostMemory by simp
    show ?thesis
      by (rule post_memory_cases [OF inv f serve_split [of e c rq s, unfolded PostMemory]])
        (use v m sha PostMemory in auto)
  next
    case (DeleteMemory j mid)
    show ?thesis
      by (rule delete_memory_cases [OF inv serve_split [of e c rq s, unfolded DeleteMemory]])
        (use v m sha DeleteMemory in auto)
  next
    case (ListMemory j)
    then show ?thesis
      using memory_read [OF inv serve_split [of e c rq s, unfolded ListMemory serve.simps get_memory_def]] v v' m sha
      by (auto simp: untouched_def list_for_agent_def required split: sum.splits)
  next
    case (PostSearch j q k)
    then show ?thesis
      using memory_read [OF inv serve_split [of e c rq s, unfolded PostSearch serve.simps post_search_def]] v v' m sha
      by (auto simp: untouched_def search_memory_def required split: sum.splits)
  qed (use m in simp_all)
qed

text \<open>The memories posted and those deleted, by the calls that were answered.\<close>

fun posted :: "'v site \<Rightarrow> 'v visit list \<Rightarrow> memory_record list" where
  "posted s [] = []"
| "posted s (x # xs) =
     (case (fst (snd x), reply_to s x) of
        (PostMemory i words tags, Inr _) \<Rightarrow> [\<lparr>mm_id = se_id (fst x), mm_agent = i, mm_content = words, mm_tags = tags\<rparr>]
      | _ \<Rightarrow> []) @ posted (site_step s x) xs"

fun forgotten :: "'v site \<Rightarrow> 'v visit list \<Rightarrow> string list" where
  "forgotten s [] = []"
| "forgotten s (x # xs) =
     (case (fst (snd x), reply_to s x) of (DeleteMemory i m, Inr _) \<Rightarrow> [m] | _ \<Rightarrow> []) @ forgotten (site_step s x) xs"

lemma visit_memories:
  assumes inv: "site_inv s" and ok: "visit_ok sha s x"
  shows "dvals (vs_records (of_vectors (si_office (site_step s x)))) = dvals (vs_records (of_vectors (si_office s))) @ posted s [x] \<and>
     set (vs_deleted (of_vectors (si_office (site_step s x)))) = set (vs_deleted (of_vectors (si_office s))) \<union> set (forgotten s [x])"
proof -
  obtain e c rq where x: "x = (e, c, rq)" by (cases x)
  have none: ?thesis if "of_vectors (si_office (site_step s x)) = of_vectors (si_office s)" "posted s [x] = []" "forgotten s [x] = []"
    using that by simp
  have idle: ?thesis if "untouched s (site_step s x)" "posted s [x] = []" "forgotten s [x] = []"
    using that by (intro none) (simp_all add: untouched_def)
  show ?thesis
  proof (cases c)
    case (PostAgent name permissions goals)
    show ?thesis
      by (rule post_agent_cases [OF inv serve_split [of e c rq s, unfolded PostAgent]])
        (rule idle none; simp add: PostAgent x)+
  next
    case (PatchState i t)
    show ?thesis
      by (rule patch_state_cases [OF inv serve_split [of e c rq s, unfolded PatchState]])
        (rule idle none; simp add: PatchState x)+
  next
    case (PostToken i label scopes)
    have f: "fresh_for (se_sha e) s e (PostToken i label scopes)" using ok PostToken x by simp
    show ?thesis
      by (rule post_token_cases [OF inv f serve_split [of e c rq s, unfolded PostToken]])
        (rule idle none; simp add: PostToken x)+
  next
    case (DeleteToken i tid)
    show ?thesis
      by (rule delete_token_cases [OF inv serve_split [of e c rq s, unfolded DeleteToken]])
        (rule idle none; simp add: DeleteToken x)+
  next
    case (PostMemory i words tags)
    have f: "fresh_for sha s e (PostMemory i words tags)" using ok PostMemory x by simp
    show ?thesis
    proof (cases rule: post_memory_cases [OF inv f serve_split [of e c rq s, unfolded PostMemory], case_names still stored])
      case (still y)
      then show ?thesis by (intro idle) (simp_all add: PostMemory x)
    next
      case (stored a rec)
      have n: "se_id e \<notin> set (dkeys (vs_records (of_vectors (si_office s))))" using f by simp
      have "dvals (dset (se_id e) rec (vs_records (of_vectors (si_office s)))) = dvals (vs_records (of_vectors (si_office s))) @ [rec]"
        unfolding dset_new [OF n] by simp
      then show ?thesis using stored(4,5,7) by (simp add: vector_add_def PostMemory x)
    qed
  next
    case (DeleteMemory i m)
    show ?thesis
    proof (cases rule: delete_memory_cases [OF inv serve_split [of e c rq s, unfolded DeleteMemory], case_names still forgot])
      case (still y)
      then show ?thesis by (intro idle) (simp_all add: DeleteMemory x)
    next
      case (forgot a v)
      then have "of_vectors (si_office (site_step s x)) =
          of_vectors (si_office s)\<lparr>vs_deleted := List.insert m (vs_deleted (of_vectors (si_office s)))\<rparr>"
        by (simp add: vector_delete_def DeleteMemory x split: if_splits)
      then show ?thesis using forgot(4) by (simp add: DeleteMemory x)
    qed
  qed (rule idle; use reads_untouched [OF inv _ serve_split [of e c rq s]] in \<open>simp add: x split: sum.split\<close>)+
qed

lemma posted_append: "posted s (xs @ ys) = posted s xs @ posted (run site_step s xs) ys"
  by (induction xs arbitrary: s) auto

lemma forgotten_append: "forgotten s (xs @ ys) = forgotten s xs @ forgotten (run site_step s xs) ys"
  by (induction xs arbitrary: s) auto

lemma memories_of_run:
  assumes "vacant s" "legal (visit_ok sha) site_step s ops"
  shows "dvals (vs_records (of_vectors (si_office (run site_step s ops)))) = posted s ops \<and>
     set (vs_deleted (of_vectors (si_office (run site_step s ops)))) = set (forgotten s ops)"
  using assms(2)
proof (induction ops rule: rev_induct)
  case Nil
  then show ?case using assms(1) by (simp add: vacant_def)
next
  case (snoc x ops)
  have l: "legal (visit_ok sha) site_step s ops" "visit_ok sha (run site_step s ops) x" using snoc.prems by (simp_all add: legal_append)
  show ?case
    using visit_memories [OF sites.run_inv [OF vacant_inv [OF assms(1)] l(1)] l(2)] snoc.IH [OF l(1)]
    by (simp add: run_append posted_append forgotten_append del: posted.simps forgotten.simps)
qed


section \<open>Search\<close>

lemma collect_take:
  assumes "int n < k"
  shows "collect who v k n hs =
     take (nat (k - int n)) (List.map_filter (\<lambda>h. map_option (\<lambda>r. (r, fst h)) (row_record who v (snd h))) hs)"
  using assms
proof (induction hs arbitrary: n)
  case (Cons h hs)
  show ?case
  proof (cases "row_record who v (snd h)")
    case None
    then show ?thesis using Cons by (simp add: List.map_filter_simps)
  next
    case (Some r)
    have "nat (k - int n) = Suc (nat (k - int (n + 1)))" using Cons.prems by simp
    then show ?thesis using Some Cons.IH [of "n + 1"] by (auto simp: List.map_filter_simps)
  qed
qed (simp add: List.map_filter_simps)

text \<open>What the index search promises: the best rows, best first, each once.\<close>

definition ranks :: "('v \<Rightarrow> 'v \<Rightarrow> real) \<Rightarrow> ('v \<Rightarrow> int \<Rightarrow> 'v list \<Rightarrow> (real \<times> int) list) \<Rightarrow> bool" where
  "ranks score nearest \<longleftrightarrow>
     (\<forall>q n rows. 0 \<le> n \<and> n \<le> int (length rows) \<longrightarrow>
        length (nearest q n rows) = nat n \<and> distinct (map snd (nearest q n rows)) \<and> sorted_wrt (\<ge>) (map fst (nearest q n rows)) \<and>
        (\<forall>(x, j)\<in>set (nearest q n rows). 0 \<le> j \<and> j < int (length rows) \<and> x = score q (rows ! nat j)))"

lemma ranksD:
  assumes "ranks score nearest" "0 \<le> n" "n \<le> int (length rows)"
  shows "length (nearest q n rows) = nat n" "distinct (map snd (nearest q n rows))" "sorted_wrt (\<ge>) (map fst (nearest q n rows))"
    "\<forall>(x, j)\<in>set (nearest q n rows). 0 \<le> j \<and> j < int (length rows) \<and> x = score q (rows ! nat j)"
  using assms unfolding ranks_def by blast+

lemma row_record_own:
  assumes "records_ok v" "j < length (vs_rows v)"
  shows "row_record (Some i) v (int j) =
     (let r = dvals (vs_records v) ! j in if mm_agent r = i \<and> mm_id r \<notin> set (vs_deleted v) then Some r else None)"
proof -
  have len: "j < length (vs_records v)" and dk: "fst (vs_rows v ! j) = fst (vs_records v ! j)"
    using assms unfolding records_ok_def by (metis length_map, metis length_map nth_map)
  have r: "dget (vs_records v) (fst (vs_records v ! j)) = Some (snd (vs_records v ! j))"
    using len assms(1) by (metis dget_iff_in_set nth_mem prod.collapse records_ok_def)
  then have "mm_id (snd (vs_records v ! j)) = fst (vs_records v ! j)" using assms(1) by (simp add: records_ok_def)
  then show ?thesis using assms(2) len r dk by (simp add: row_record_def Let_def)
qed

lemma set_map_filter: "set (List.map_filter f xs) = {y. \<exists>x\<in>set xs. f x = Some y}"
  by (induction xs) (auto simp: List.map_filter_simps split: option.splits)

text \<open>The candidates of a search over all rows: the agent's live records, each with its score, best first.\<close>

lemma map_filter_sorted:
  assumes "sorted_wrt (\<ge>) (map fst hs)" "\<And>h y. f h = Some y \<Longrightarrow> snd y = (fst h :: real)"
  shows "sorted_wrt (\<ge>) (map snd (List.map_filter f hs))"
  using assms(1)
proof (induction hs)
  case (Cons h hs)
  have "\<forall>y\<in>set (List.map_filter f hs). snd y \<le> fst h"
    using Cons.prems assms(2) by (fastforce simp: set_map_filter)
  then show ?case using Cons assms(2) [of h] by (auto simp: List.map_filter_simps split: option.split)
qed (simp add: List.map_filter_simps)

lemma map_filter_distinct:
  assumes "distinct (map snd hs)" "\<And>h h' y. h \<in> set hs \<Longrightarrow> h' \<in> set hs \<Longrightarrow> f h = Some y \<Longrightarrow> map_option fst (f h') = Some (fst y) \<Longrightarrow> snd h = snd h'"
  shows "distinct (map fst (List.map_filter f hs))"
  using assms
proof (induction hs)
  case (Cons h hs)
  have IH: "distinct (map fst (List.map_filter f hs))" using Cons by auto
  show ?case
  proof (cases "f h")
    case (Some y)
    have "fst y \<notin> fst ` set (List.map_filter f hs)"
    proof
      assume "fst y \<in> fst ` set (List.map_filter f hs)"
      then obtain h' z where "h' \<in> set hs" "f h' = Some z" "fst z = fst y" by (auto simp: set_map_filter)
      then have "snd h = snd h'" using Cons.prems(2) [of h h' y] Some by simp
      then show False using Cons.prems(1) \<open>h' \<in> set hs\<close> by auto
    qed
    then show ?thesis using IH Some by (simp add: List.map_filter_simps)
  qed (use IH in \<open>simp add: List.map_filter_simps\<close>)
qed (simp add: List.map_filter_simps)


definition row_of :: "'v vectors \<Rightarrow> memory_record \<Rightarrow> 'v" where
  "row_of v r = the (dget (vs_rows v) (mm_id r))"

text \<open>The hits are the best \<open>k\<close> of the records \<open>rs\<close>.\<close>

definition best_of :: "(memory_record \<Rightarrow> real) \<Rightarrow> nat \<Rightarrow> memory_record set \<Rightarrow> (memory_record \<times> real) list \<Rightarrow> bool" where
  "best_of sc k rs hits \<longleftrightarrow>
     length hits \<le> k \<and> distinct (map fst hits) \<and> sorted_wrt (\<ge>) (map snd hits) \<and> (\<forall>(r, x)\<in>set hits. r \<in> rs \<and> x = sc r) \<and>
     (\<forall>r\<in>rs. r \<in> fst ` set hits \<or> length hits = k \<and> (\<forall>x\<in>snd ` set hits. sc r \<le> x))"

lemma best_of_take:
  assumes "distinct (map fst xs)" "sorted_wrt (\<ge>) (map snd xs)" "\<And>r x. (r, x) \<in> set xs \<longleftrightarrow> r \<in> rs \<and> x = sc r"
  shows "best_of sc k rs (take k xs)"
  unfolding best_of_def
proof (intro conjI ballI)
  show "length (take k xs) \<le> k" "distinct (map fst (take k xs))" using assms(1) by (simp_all add: take_map [symmetric])
  show "sorted_wrt (\<ge>) (map snd (take k xs))" using sorted_wrt_take [OF assms(2)] by (simp add: take_map)
  show "case p of (r, x) \<Rightarrow> r \<in> rs \<and> x = sc r" if p: "p \<in> set (take k xs)" for p
  proof -
    obtain r x where rx: "p = (r, x)" by (cases p)
    then have "(r, x) \<in> set xs" using in_set_takeD [OF p] by blast
    then show ?thesis using assms(3) rx by blast
  qed
  fix r assume "r \<in> rs"
  then have "(r, sc r) \<in> set (take k xs @ drop k xs)" using assms(3) by simp
  then consider "(r, sc r) \<in> set (take k xs)" | "(r, sc r) \<in> set (drop k xs)" unfolding set_append by blast
  then show "r \<in> fst ` set (take k xs) \<or> length (take k xs) = k \<and> (\<forall>x\<in>snd ` set (take k xs). sc r \<le> x)"
  proof cases
    case 1
    then show ?thesis by force
  next
    case 2
    then have "length (take k xs) = k" by (cases "k \<le> length xs") auto
    moreover have "sorted_wrt (\<ge>) (map snd (take k xs) @ map snd (drop k xs))"
      using assms(2) by (metis append_take_drop_id map_append)
    then have "\<forall>x\<in>snd ` set (take k xs). sc r \<le> x" using 2 by (force simp: sorted_wrt_append)
    ultimately show ?thesis by simp
  qed
qed

lemma vector_search_best:
  assumes ok: "records_ok v" and nearest: "ranks score nearest" and k: "1 \<le> k"
    and small: "int (length (vs_rows v)) \<le> max (k * 5) (k + int (length (vs_deleted v)) + 10)"
  shows "best_of (\<lambda>r. score q (row_of v r)) (nat k) (set (vector_list i v)) (vector_search nearest q k (Some i) v)"
proof (cases "vs_rows v = []")
  case True
  then have "vs_records v = []" using ok by (simp add: records_ok_def)
  then show ?thesis using True by (simp add: vector_search_def vector_list_def best_of_def)
next
  case False
  let ?n = "length (vs_rows v)" and ?f = "\<lambda>h. map_option (\<lambda>r. (r, fst h)) (row_record (Some i) v (snd h))"
  define hs where "hs = nearest q (int ?n) (map snd (vs_rows v))"
  note r = ranksD [OF nearest, of "int ?n" "map snd (vs_rows v)" q, folded hs_def]
  have h: "length hs = ?n" "distinct (map snd hs)" "sorted_wrt (\<ge>) (map fst hs)"
    and each: "\<forall>(x, j)\<in>set hs. 0 \<le> j \<and> j < int (length (map snd (vs_rows v))) \<and> x = score q (map snd (vs_rows v) ! nat j)"
    using r by simp_all
  have hj: "0 \<le> j \<and> j < int ?n \<and> x = score q (snd (vs_rows v ! nat j))" if "(x, j) \<in> set hs" for x j
    using bspec [OF each that] by (simp add: nat_less_iff)
  have len: "length (vs_records v) = ?n" using ok unfolding records_ok_def by (metis length_map)
  have dist: "distinct (map fst (vs_rows v))" "distinct (map fst (vs_records v))" using ok by (simp_all add: records_ok_def)
  have all: "snd ` set hs = int ` {..<?n}"
  proof (rule card_subset_eq)
    show "snd ` set hs \<subseteq> int ` {..<?n}"
    proof
      fix j assume "j \<in> snd ` set hs"
      then have "0 \<le> j" "j < int ?n" using hj by force+
      then show "j \<in> int ` {..<?n}" by (intro image_eqI [of _ _ "nat j"]) auto
    qed
    show "card (snd ` set hs) = card (int ` {..<?n})"
      using h(1,2) distinct_card [of "map snd hs"] by (simp add: card_image)
  qed simp
  have key: "mm_id (snd (vs_records v ! j)) = fst (vs_rows v ! j)" "dget (vs_rows v) (fst (vs_rows v ! j)) = Some (snd (vs_rows v ! j))"
      if "j < ?n" for j
  proof -
    have "dget (vs_records v) (fst (vs_records v ! j)) = Some (snd (vs_records v ! j))"
      using that len dist(2) by (simp add: dget_iff_in_set)
    moreover have "fst (vs_records v ! j) = fst (vs_rows v ! j)" using that len ok unfolding records_ok_def by (metis nth_map)
    ultimately show "mm_id (snd (vs_records v ! j)) = fst (vs_rows v ! j)" using ok by (simp add: records_ok_def)
    show "dget (vs_rows v) (fst (vs_rows v ! j)) = Some (snd (vs_rows v ! j))" using that dist(1) by (simp add: dget_iff_in_set)
  qed
  have f: "?f (x, j) = Some (r, y) \<longleftrightarrow> r = snd (vs_records v ! nat j) \<and> r \<in> set (vector_list i v) \<and> y = x" if m: "(x, j) \<in> set hs" for x j r y
  proof -
    have j: "nat j < ?n" "int (nat j) = j" using hj [OF m] by auto
    have "snd (vs_records v ! nat j) \<in> set (dvals (vs_records v))" using j(1) len by simp
    then show ?thesis using row_record_own [OF ok j(1), of i] j len by (auto simp: vector_list_def Let_def)
  qed
  have "vector_search nearest q k (Some i) v = collect (Some i) v k 0 hs"
    using False small by (simp add: vector_search_def hs_def Let_def min_def)
  then have eq: "vector_search nearest q k (Some i) v = take (nat k) (List.map_filter ?f hs)"
    using collect_take [of 0 k "Some i" v hs] k by simp
  show ?thesis unfolding eq
  proof (rule best_of_take)
    show "sorted_wrt (\<ge>) (map snd (List.map_filter ?f hs))" by (rule map_filter_sorted [OF h(3)]) auto
    show "distinct (map fst (List.map_filter ?f hs))"
    proof (rule map_filter_distinct [OF h(2)])
      fix p p' z assume p: "p \<in> set hs" "p' \<in> set hs" "?f p = Some z" "map_option fst (?f p') = Some (fst z)"
      obtain x j x' j' r y where pp: "p = (x, j)" "p' = (x', j')" "z = (r, y)" by (cases p, cases p', cases z) auto
      obtain y' where "?f (x', j') = Some (r, y')" using p(4) pp by auto
      then have "snd (vs_records v ! nat j) = snd (vs_records v ! nat j')" using f p pp by auto
      then have "fst (vs_rows v ! nat j) = fst (vs_rows v ! nat j')" using key(1) hj p(1,2) pp by (metis nat_less_iff)
      then have "nat j = nat j'" using dist(1) hj p(1,2) pp by (metis length_map nat_less_iff nth_eq_iff_index_eq nth_map)
      then show "snd p = snd p'" using hj p(1,2) pp by (metis int_nat_eq snd_conv)
    qed
    show "(r, x) \<in> set (List.map_filter ?f hs) \<longleftrightarrow> r \<in> set (vector_list i v) \<and> x = score q (row_of v r)" for r x
    proof -
      have sc: "score q (row_of v (snd (vs_records v ! nat j))) = y" if "(y, j) \<in> set hs" for y j
        using key [of "nat j"] hj [OF that] by (simp add: row_of_def nat_less_iff)
      have occurs: "\<exists>y j. (y, j) \<in> set hs \<and> r = snd (vs_records v ! nat j)" if mem: "r \<in> set (vector_list i v)"
      proof -
        obtain j where "j < ?n" "r = snd (vs_records v ! j)"
          using mem len by (auto simp: vector_list_def in_set_conv_nth)
        moreover from this(1) obtain y where "(y, int j) \<in> set hs" using all by force
        ultimately show ?thesis by (intro exI [of _ y] exI [of _ "int j"]) simp
      qed
      show ?thesis
      proof
        assume "(r, x) \<in> set (List.map_filter ?f hs)"
        then obtain p where p: "p \<in> set hs" "?f p = Some (r, x)" unfolding set_map_filter by blast
        obtain y j where m: "p = (y, j)" by (cases p)
        note e = f [OF p(1) [unfolded m], THEN iffD1, OF p(2) [unfolded m]]
        have "x = score q (row_of v r)" using e sc [OF p(1) [unfolded m]] by blast
        then show "r \<in> set (vector_list i v) \<and> x = score q (row_of v r)" using e by blast
      next
        assume a: "r \<in> set (vector_list i v) \<and> x = score q (row_of v r)"
        then obtain y j where m: "(y, j) \<in> set hs" "r = snd (vs_records v ! nat j)" using occurs by blast
        then have "?f (y, j) = Some (r, y)" "y = x" using f [of y j r y] sc [of y j] a by simp_all
        then show "(r, x) \<in> set (List.map_filter ?f hs)" unfolding set_map_filter using m(1) by blast
      qed
    qed
  qed
qed


section \<open>The log of an agent\<close>

text \<open>The state a log leads to from a state, if its transitions are allowed one after the other.\<close>

fun replay :: "agent_state \<Rightarrow> operation list \<Rightarrow> agent_state option" where
  "replay st [] = Some st"
| "replay st (x # xs) =
     (if op_action x = ''state_transition''
      then (case find (\<lambda>t. op_result x = agent_state_value st @ ''->'' @ agent_state_value t) (allowed_transitions st) of
              None \<Rightarrow> None | Some t \<Rightarrow> replay t xs)
      else replay st xs)"

lemma replay_append: "replay st (xs @ ys) = (case replay st xs of None \<Rightarrow> None | Some t \<Rightarrow> replay t ys)"
  by (induction st xs rule: replay.induct) (auto split: option.split)

definition lives_by_log :: "agent \<Rightarrow> bool" where
  "lives_by_log a \<longleftrightarrow> set (ag_permissions a) \<subseteq> set allowed_permissions \<and> replay Created (ag_log a) = Some (ag_state a) \<and>
     map op_action (take 1 (ag_log a)) = [''register'']"

lemma replay_transition:
  "t \<in> set (allowed_transitions st) \<Longrightarrow>
     replay st [\<lparr>op_action = ''state_transition'', op_result = agent_state_value st @ ''->'' @ agent_state_value t, op_metadata = d\<rparr>] = Some t"
  by (cases st; cases t) simp_all

lemma lives_add:
  assumes "lives_by_log a" "replay (ag_state a) [x] = Some st"
  shows "lives_by_log (a\<lparr>ag_log := ag_log a @ [x], ag_state := st, ag_memory := m\<rparr>)"
proof -
  have "replay Created (ag_log a @ [x]) = Some st" using assms by (simp add: lives_by_log_def replay_append del: replay.simps(2))
  moreover have "map op_action (take 1 (ag_log a @ [x])) = [''register'']"
    using assms(1) by (cases "ag_log a") (auto simp: lives_by_log_def)
  ultimately show ?thesis using assms(1) by (simp add: lives_by_log_def)
qed

lemma lives_transition:
  assumes "lives_by_log a" "agent_transition t a = Inr a'"
  shows "lives_by_log a'"
proof -
  have t: "t \<in> set (allowed_transitions (ag_state a))" using assms(2) by (simp add: agent_transition_def split: if_splits)
  have a': "a' = a\<lparr>ag_log := ag_log a @ [\<lparr>op_action = ''state_transition'',
      op_result = agent_state_value (ag_state a) @ ''->'' @ agent_state_value t, op_metadata = []\<rparr>], ag_state := t, ag_memory := ag_memory a\<rparr>"
    using assms(2) by (auto simp: agent_transition_def record_operation_def split: if_splits)
  show ?thesis unfolding a' by (rule lives_add [OF assms(1) replay_transition [OF t]])
qed

lemma lives_record:
  assumes "lives_by_log a" "act \<noteq> ''state_transition''"
  shows "lives_by_log (record_operation act x d (a\<lparr>ag_memory := m\<rparr>))"
proof -
  have r: "record_operation act x d (a\<lparr>ag_memory := m\<rparr>) =
      a\<lparr>ag_log := ag_log a @ [\<lparr>op_action = act, op_result = x, op_metadata = d\<rparr>], ag_state := ag_state a, ag_memory := m\<rparr>"
    by (simp add: record_operation_def)
  show ?thesis unfolding r by (rule lives_add [OF assms(1)]) (simp add: assms(2))
qed

lemma lives_registered:
  "new_agent i name permissions goals = Inr a \<Longrightarrow> lives_by_log (record_operation ''register'' ''success'' [] a)"
  by (auto simp: new_agent_def lives_by_log_def record_operation_def filter_empty_conv split: list.splits)

lemma visit_agents:
  assumes inv: "site_inv s" and ok: "visit_ok sha s (e, c, rq)" and all: "\<forall>i a. dget (of_agents (si_office s)) i = Some a \<longrightarrow> lives_by_log a"
  shows "\<forall>i a. dget (of_agents (si_office (site_step s (e, c, rq)))) i = Some a \<longrightarrow> lives_by_log a"
proof -
  have same: ?thesis if "of_agents (si_office (site_step s (e, c, rq))) = of_agents (si_office s)"
    using that all by simp
  have put: ?thesis if "with_agents s (site_step s (e, c, rq)) i a" "lives_by_log a" for i a
    using that all by (simp add: with_agents_def dget_dset)
  have untouched: ?thesis if "untouched s (site_step s (e, c, rq))" using that by (intro same) (simp add: untouched_def)
  show ?thesis
  proof (cases c)
    case (PostAgent name permissions goals)
    show ?thesis
      by (rule post_agent_cases [OF inv serve_split [of e c rq s, unfolded PostAgent]])
        (use untouched put lives_registered PostAgent in blast)+
  next
    case (PatchState i t)
    show ?thesis
      by (rule patch_state_cases [OF inv serve_split [of e c rq s, unfolded PatchState]])
        (use untouched put lives_transition all PatchState in blast)+
  next
    case (PostToken i label scopes)
    have f: "fresh_for (se_sha e) s e (PostToken i label scopes)" using ok PostToken by simp
    show ?thesis
      by (rule post_token_cases [OF inv f serve_split [of e c rq s, unfolded PostToken]]) (use untouched same PostToken in blast)+
  next
    case (DeleteToken i tid)
    show ?thesis
      by (rule delete_token_cases [OF inv serve_split [of e c rq s, unfolded DeleteToken]]) (use untouched same DeleteToken in blast)+
  next
    case (PostMemory i words tags)
    have f: "fresh_for sha s e (PostMemory i words tags)" using ok PostMemory by simp
    have l: "lives_by_log a \<Longrightarrow> lives_by_log (stored_agent m a)" for m a unfolding stored_agent_def by (rule lives_record) simp_all
    show ?thesis
      by (rule post_memory_cases [OF inv f serve_split [of e c rq s, unfolded PostMemory]])
        (use untouched put l all PostMemory in blast)+
  next
    case (DeleteMemory i m)
    have l: "lives_by_log a \<Longrightarrow> lives_by_log (forgot_agent m a)" for a unfolding forgot_agent_def by (rule lives_record) simp_all
    show ?thesis
      by (rule delete_memory_cases [OF inv serve_split [of e c rq s, unfolded DeleteMemory]])
        (use untouched put l all DeleteMemory in blast)+
  qed (rule untouched; use reads_untouched [OF inv _ serve_split [of e c rq s]] in simp)+
qed


section \<open>Properties\<close>

text \<open>
  C28: a memory call without the administrative key is served only on a token: after any calls on
  a site that started empty, the key of a served call is that of a token which an administrative
  call issued before, for this very agent and with the permission the call needs, and which no
  call has revoked since; and whoever calls, the agent itself has the permission now.
\<close>

theorem memory_needs_authority:
  assumes "vacant s" "legal (visit_ok sha) site_step s ops" "visit_ok sha (run site_step s ops) (e, c, rq)"
    and "reply_to (run site_step s ops) (e, c, rq) = Inr v" "memory_call c = Some (i, p)"
  shows "(\<exists>a. dget (of_agents (si_office (run site_step s ops))) i = Some a \<and> p \<in> set (ag_permissions a)) \<and>
     (rq_key rq = Some (si_api s) \<or>
      (\<exists>k tid before x after t. rq_key rq = Some k \<and> ops = before @ x # after \<and> issues sha (run site_step s before) x tid t \<and>
         tk_hash t = sha k \<and> tk_agent t = i \<and> p \<in> set (tk_scopes t) \<and>
         (\<forall>b y a. after = b @ y # a \<longrightarrow> \<not> revokes (run site_step s (before @ x # b)) y tid)))"
proof -
  let ?s = "run site_step s ops"
  have inv: "site_inv ?s" by (rule sites.run_inv [OF vacant_inv [OF assms(1)] assms(2)])
  have api: "si_api ?s = si_api s" using sites.run_progress [OF vacant_inv [OF assms(1)] assms(2)] by (simp add: tokens_kept_def)
  note n = memory_call_needs [OF inv assms(3-5)]
  have "\<exists>k tid before x after t. rq_key rq = Some k \<and> ops = before @ x # after \<and> issues sha (run site_step s before) x tid t \<and>
         tk_hash t = sha k \<and> tk_agent t = i \<and> p \<in> set (tk_scopes t) \<and>
         (\<forall>b y a. after = b @ y # a \<longrightarrow> \<not> revokes (run site_step s (before @ x # b)) y tid)"
    if no: "rq_key rq \<noteq> Some (si_api s)"
  proof -
    obtain k tid t where t: "rq_key rq = Some k" "tok ?s tid = Some t" "tk_hash t = sha k" "\<not> tk_revoked t" "tk_agent t = i"
        "p \<in> set (tk_scopes t)"
      using n no api unfolding authority_def by auto
    obtain before x after t0 where o: "ops = before @ x # after" "issues sha (run site_step s before) x tid t0"
        "t = t0\<lparr>tk_revoked := tk_revoked t\<rparr>"
        "\<forall>b y a. after = b @ y # a \<longrightarrow> \<not> revokes (run site_step s (before @ x # b)) y tid"
      using token_life [OF assms(1,2) t(2)] t(4) by blast
    have "tk_hash t0 = sha k \<and> tk_agent t0 = i \<and> p \<in> set (tk_scopes t0)"
      using t(3,5,6) o(3) by (metis token.select_convs(2,3,5) token.surjective token.update_convs(6))
    then show ?thesis using t(1) o(1,2,4) by blast
  qed
  then show ?thesis using n by blast
qed

text \<open>
  C29: the list of an agent's memories is what the calls say: after any calls on a site that
  started empty, an answered list holds, in order, exactly the memories that answered calls posted
  for this agent, without those that answered calls deleted.
\<close>

theorem listing_is_history:
  assumes "vacant s" "legal (visit_ok sha) site_step s ops"
    and "reply_to (run site_step s ops) (e, ListMemory i, rq) = Inr v"
  shows "v = (200, MemoriesBody (filter (\<lambda>r. mm_agent r = i \<and> mm_id r \<notin> set (forgotten s ops)) (posted s ops)))"
proof -
  let ?s = "run site_step s ops"
  have inv: "site_inv ?s" by (rule sites.run_inv [OF vacant_inv [OF assms(1)] assms(2)])
  show ?thesis
    using memory_read [OF inv serve_split [of e "ListMemory i" rq ?s, unfolded serve.simps get_memory_def]] assms(3)
      memories_of_run [OF assms(1,2)]
    by (auto simp: untouched_def list_for_agent_def vector_list_def split: sum.splits)
qed

text \<open>
  A search returns the best hits: if the index ranks rows by a score and holds no more rows
  than the search fetches, an answered search on a site that started empty returns the best
  \<open>k\<close> of the memories posted for this agent and not deleted, best first, each once, with its score.
\<close>

theorem search_returns_best:
  assumes "vacant s" "legal (visit_ok sha) site_step s ops"
    and "reply_to (run site_step s ops) (e, PostSearch i q k, rq) = Inr v" "ranks score (se_nearest e)"
    and "int (length (posted s ops)) \<le>
      max (k * 5) (k + int (length (vs_deleted (of_vectors (si_office (run site_step s ops))))) + 10)"
  shows "\<exists>hits. v = (200, HitsBody hits) \<and>
     best_of (\<lambda>r. score (se_emb e q) (row_of (of_vectors (si_office (run site_step s ops))) r)) (nat k)
       {r \<in> set (posted s ops). mm_agent r = i \<and> mm_id r \<notin> set (forgotten s ops)} hits"
proof -
  let ?s = "run site_step s ops"
  let ?v = "of_vectors (si_office ?s)"
  have inv: "site_inv ?s" by (rule sites.run_inv [OF vacant_inv [OF assms(1)] assms(2)])
  have ok: "records_ok ?v" using inv by (simp add: site_inv_def)
  note m = memories_of_run [OF assms(1,2)]
  have "length (vs_rows ?v) = length (posted s ops)" using ok m unfolding records_ok_def by (metis length_map)
  moreover have r: "1 \<le> k" "v = (200, HitsBody (vector_search (se_nearest e) (se_emb e q) k (Some i) ?v))"
    using memory_read [OF inv serve_split [of e "PostSearch i q k" rq ?s, unfolded serve.simps post_search_def]] assms(3)
    by (auto simp: untouched_def search_memory_def split: sum.splits)
  moreover have "set (vector_list i ?v) = {r \<in> set (posted s ops). mm_agent r = i \<and> mm_id r \<notin> set (forgotten s ops)}"
    using m by (auto simp: vector_list_def)
  ultimately show ?thesis using vector_search_best [OF ok assms(4) r(1), of "se_emb e q" i] assms(5) by simp
qed


text \<open>
  An agent is what its log says: after any calls on a site that started empty, every agent's
  permissions are known ones, its log begins with its registration, and the transitions in it are
  allowed one after the other and lead from the first state to the present one.
\<close>

theorem agents_live_by_log:
  assumes "vacant s" "legal (visit_ok sha) site_step s ops"
    and "dget (of_agents (si_office (run site_step s ops))) i = Some a"
  shows "set (ag_permissions a) \<subseteq> set allowed_permissions \<and> replay Created (ag_log a) = Some (ag_state a) \<and>
     map op_action (take 1 (ag_log a)) = [''register'']"
proof -
  have "\<forall>i a. dget (of_agents (si_office (run site_step s ops))) i = Some a \<longrightarrow> lives_by_log a"
    using assms(2)
  proof (induction ops rule: rev_induct)
    case Nil
    then show ?case using assms(1) by (simp add: vacant_def)
  next
    case (snoc x ops)
    obtain e c rq where x: "x = (e, c, rq)" by (cases x)
    have l: "legal (visit_ok sha) site_step s ops" "visit_ok sha (run site_step s ops) x" using snoc.prems by (simp_all add: legal_append)
    show ?case
      using visit_agents [OF sites.run_inv [OF vacant_inv [OF assms(1)] l(1)] l(2) [unfolded x] snoc.IH [OF l(1)]]
      by (simp only: run_append run.simps x)
  qed
  then show ?thesis using assms(3) by (simp add: lives_by_log_def)
qed


section \<open>Witnesses\<close>

text \<open>An exhaustive index: every row with its score, the best first.\<close>

definition exhaustive :: "('v \<Rightarrow> 'v \<Rightarrow> real) \<Rightarrow> 'v \<Rightarrow> int \<Rightarrow> 'v list \<Rightarrow> (real \<times> int) list" where
  "exhaustive score q n rows =
     take (nat n) (sort_key (\<lambda>h. - fst h) (map (\<lambda>j. (score q (rows ! j), int j)) [0..<length rows]))"

lemma exhaustive_ranks: "ranks score (exhaustive score)"
  unfolding ranks_def
proof (intro allI impI conjI)
  fix q n and rows :: "'a list" assume n: "0 \<le> n \<and> n \<le> int (length rows)"
  define xs where "xs = map (\<lambda>j. (score q (rows ! j), int j)) [0..<length rows]"
  have ex: "exhaustive score q n rows = take (nat n) (sort_key (\<lambda>h. - fst h) xs)" by (simp add: exhaustive_def xs_def)
  have "nat n \<le> length rows" using n by (simp add: nat_le_iff)
  then show "length (exhaustive score q n rows) = nat n" by (simp add: ex xs_def)
  have "distinct (map snd xs)" by (simp add: xs_def o_def distinct_map inj_on_def)
  then have "distinct (map snd (sort_key (\<lambda>h. - fst h) xs))" by (simp add: distinct_map)
  then show "distinct (map snd (exhaustive score q n rows))" unfolding ex take_map [symmetric] by (rule distinct_take)
  have "sorted_wrt (\<le>) (map (\<lambda>h. - fst h) (sort_key (\<lambda>h. - fst h) xs))" by (rule sorted_sort_key)
  then have "sorted_wrt (\<ge>) (map fst (sort_key (\<lambda>h. - fst h) xs))" by (simp add: sorted_wrt_map)
  then show "sorted_wrt (\<ge>) (map fst (exhaustive score q n rows))" unfolding ex take_map [symmetric] by (rule sorted_wrt_take)
  show "\<forall>(x, j)\<in>set (exhaustive score q n rows). 0 \<le> j \<and> j < int (length rows) \<and> x = score q (rows ! nat j)"
    using set_take_subset [of "nat n" "sort_key (\<lambda>h. - fst h) xs"] by (auto simp: ex xs_def)
qed

definition demo_visit :: "string \<Rightarrow> real site_env" where
  "demo_visit i = \<lparr>se_sha = (\<lambda>x. CHR ''h'' # x), se_now = 0, se_id = i, se_plain = i, se_emb = (\<lambda>x. real (length x)),
     se_nearest = exhaustive (*)\<rparr>"

definition with_key :: "string \<Rightarrow> request" where
  "with_key k = \<lparr>rq_key = Some k, rq_forwarded = None, rq_host = None\<rparr>"

definition demo_site :: "real site" where
  "demo_site =
     (let l = \<lparr>rl_max = 100, rl_window = 60, rl_keys = 10, rl_interval = 60, rl_hits = [], rl_cleaned = 0\<rparr> in
      \<lparr>si_office = \<lparr>of_agents = [], of_tokens = [], of_vectors = \<lparr>vs_rows = [], vs_records = [], vs_deleted = []\<rparr>, of_events = []\<rparr>,
       si_limiter = l, si_chat = l, si_pairings = load_pairings None [], si_api = ''adm'', si_user = [], si_trust = False\<rparr>)"

definition demo_visits :: "real visit list" where
  "demo_visits =
     [(demo_visit ''a'', PostAgent ''n'' [''read:memory'', ''write:memory''] [], with_key ''adm''),
      (demo_visit ''t'', PostToken ''a'' [] None, with_key ''adm''),
      (demo_visit ''m'', PostMemory ''a'' ''x'' [], with_key ''t''),
      (demo_visit ''k'', PostMemory ''a'' ''xy'' [], with_key ''t''),
      (demo_visit ''d'', DeleteMemory ''a'' ''m'', with_key ''t'')]"

lemma demo_vacant: "vacant demo_site"
  by code_simp

lemma legal_visits:
  "legal (visit_ok sha) site_step s xs \<longleftrightarrow>
     (\<forall>x\<in>set xs. se_sha (fst x) = sha) \<and> legal (\<lambda>s x. fresh_for sha s (fst x) (fst (snd x))) site_step s xs"
  by (induction xs arbitrary: s) auto

lemma demo_visits_legal: "legal (visit_ok (\<lambda>x. CHR ''h'' # x)) site_step demo_site demo_visits"
proof -
  have "legal (\<lambda>s x. fresh_for (\<lambda>x. CHR ''h'' # x) s (fst x) (fst (snd x))) site_step demo_site demo_visits" by code_simp
  moreover have "\<forall>x\<in>set demo_visits. se_sha (fst x) = (\<lambda>x. CHR ''h'' # x)" by (simp add: demo_visits_def demo_visit_def)
  ultimately show ?thesis by (simp add: legal_visits)
qed

theorem memory_needs_authority_witness:
  "\<exists>tid before x after t. demo_visits = before @ x # after \<and>
     issues (\<lambda>x. CHR ''h'' # x) (run site_step demo_site before) x tid t \<and> tk_agent t = ''a''"
proof -
  have "\<exists>v. reply_to (run site_step demo_site demo_visits) (demo_visit ''z'', ListMemory ''a'', with_key ''t'') = Inr v"
    by (rule exI [of _ "(200, MemoriesBody [\<lparr>mm_id = ''k'', mm_agent = ''a'', mm_content = ''xy'', mm_tags = []\<rparr>])"]) code_simp
  then obtain v where v: "reply_to (run site_step demo_site demo_visits) (demo_visit ''z'', ListMemory ''a'', with_key ''t'') = Inr v" ..
  have ok: "visit_ok (\<lambda>x. CHR ''h'' # x) (run site_step demo_site demo_visits) (demo_visit ''z'', ListMemory ''a'', with_key ''t'')"
    by (simp add: demo_visit_def)
  have ne: "rq_key (with_key ''t'') \<noteq> Some (si_api demo_site)" by code_simp
  from memory_needs_authority [OF demo_vacant demo_visits_legal ok v, of "''a''" "''read:memory''"] ne show ?thesis
    by simp blast
qed

theorem listing_is_history_witness:
  "reply_to (run site_step demo_site demo_visits) (demo_visit ''z'', ListMemory ''a'', with_key ''t'') =
     Inr (200, MemoriesBody [\<lparr>mm_id = ''k'', mm_agent = ''a'', mm_content = ''xy'', mm_tags = []\<rparr>])"
proof -
  have "\<not> isl (reply_to (run site_step demo_site demo_visits) (demo_visit ''z'', ListMemory ''a'', with_key ''t''))" by code_simp
  then obtain v where v: "reply_to (run site_step demo_site demo_visits) (demo_visit ''z'', ListMemory ''a'', with_key ''t'') = Inr v"
    by (metis isl_def sum.exhaust)
  moreover have "filter (\<lambda>r. mm_agent r = ''a'' \<and> mm_id r \<notin> set (forgotten demo_site demo_visits)) (posted demo_site demo_visits) =
      [\<lparr>mm_id = ''k'', mm_agent = ''a'', mm_content = ''xy'', mm_tags = []\<rparr>]" by code_simp
  ultimately show ?thesis using listing_is_history [OF demo_vacant demo_visits_legal v] by simp
qed

theorem search_returns_best_witness:
  "\<exists>hits. reply_to (run site_step demo_site demo_visits) (demo_visit ''z'', PostSearch ''a'' ''q'' 1, with_key ''t'') =
     Inr (200, HitsBody hits) \<and> length hits \<le> 1"
proof -
  have "\<not> isl (reply_to (run site_step demo_site demo_visits) (demo_visit ''z'', PostSearch ''a'' ''q'' 1, with_key ''t''))" by code_simp
  then obtain v where v: "reply_to (run site_step demo_site demo_visits) (demo_visit ''z'', PostSearch ''a'' ''q'' 1, with_key ''t'') = Inr v"
    by (metis isl_def sum.exhaust)
  have r: "ranks (*) (se_nearest (demo_visit ''z''))" by (simp add: demo_visit_def exhaustive_ranks)
  have "length (posted demo_site demo_visits) = 2" by code_simp
  with search_returns_best [OF demo_vacant demo_visits_legal v r] v show ?thesis by (auto simp: best_of_def)
qed


theorem agents_live_by_log_witness:
  "\<exists>a. dget (of_agents (si_office (run site_step demo_site demo_visits))) ''a'' = Some a \<and> replay Created (ag_log a) = Some (ag_state a)"
proof -
  have "dget (of_agents (si_office (run site_step demo_site demo_visits))) ''a'' \<noteq> None" by code_simp
  then obtain a where a: "dget (of_agents (si_office (run site_step demo_site demo_visits))) ''a'' = Some a" by blast
  from agents_live_by_log [OF demo_vacant demo_visits_legal a] a show ?thesis by blast
qed

end
