(* ===== verification/Env_File.thy ===== *)
theory Env_File
  imports Prelude
begin

text \<open>
  The allowlisted editor of the settings file (\<open>infrastructure/env_file_writer.py\<close>) behind the
  route of \<open>api/routes/settings.py\<close>. The file is its text, None if there is none; Python reads it
  with universal newlines and gives the lines with their ends. A dictionary of updates has each key
  once. The properties: what was written is read back, and every other line stays as it was.
\<close>

section \<open>Lines\<close>

abbreviation nl :: char where
  "nl \<equiv> CHR 0x0A"

abbreviation cr :: char where
  "cr \<equiv> CHR 0x0D"

text \<open>Universal newlines: a carriage return, alone or before a newline, is a newline.\<close>

fun universal :: "string \<Rightarrow> string" where
  "universal [] = []"
| "universal (c # s) =
     (if c = cr then nl # universal (if s \<noteq> [] \<and> hd s = nl then tl s else s) else c # universal s)"

fun split_lines :: "string \<Rightarrow> string list" where
  "split_lines [] = []"
| "split_lines (c # s) =
     (if c = nl then [c] # split_lines s
      else (case split_lines s of [] \<Rightarrow> [[c]] | l # ls \<Rightarrow> (c # l) # ls))"

definition file_lines :: "string option \<Rightarrow> string list" where
  "file_lines f = (case f of None \<Rightarrow> [] | Some t \<Rightarrow> split_lines (universal t))"

section \<open>Keys\<close>

definition allowed_settings :: "string list" where
  "allowed_settings =
     [''REUS_TELEGRAM_ENABLED'', ''REUS_TELEGRAM_BOT_TOKEN'', ''REUS_TELEGRAM_ALLOWED_CHAT_IDS'', ''REUS_TASK_EXECUTOR'',
      ''REUS_ANTHROPIC_API_KEY'', ''REUS_OPENAI_API_KEY'', ''REUS_GOOGLE_API_KEY'', ''REUS_OLLAMA_ENABLED'',
      ''REUS_OLLAMA_BASE_URL'', ''REUS_OLLAMA_MODEL'']"

definition secret_settings :: "string list" where
  "secret_settings = [''REUS_TELEGRAM_BOT_TOKEN'', ''REUS_ANTHROPIC_API_KEY'', ''REUS_OPENAI_API_KEY'', ''REUS_GOOGLE_API_KEY'']"

definition shown_value :: "string \<Rightarrow> string \<Rightarrow> string" where
  "shown_value k v =
     (if k \<in> set secret_settings then (if py_strip v \<noteq> [] then ''***configured***'' else []) else py_strip v)"

text \<open>The key and the value a line gives when the file is read.\<close>

definition line_setting :: "string \<Rightarrow> (string \<times> string) option" where
  "line_setting l =
     (let s = py_strip l in
      if s = [] \<or> hd s = CHR ''#'' \<or> CHR ''='' \<notin> set s then None
      else Some (py_strip (takeWhile (\<lambda>c. c \<noteq> CHR ''='') s), tl (dropWhile (\<lambda>c. c \<noteq> CHR ''='') s)))"

definition read_env_file :: "string option \<Rightarrow> (string, string) dict" where
  "read_env_file f =
     fold (\<lambda>l d. case line_setting l of
             None \<Rightarrow> d
           | Some (k, v) \<Rightarrow> if k \<in> set allowed_settings then dset k (shown_value k v) d else d) (file_lines f) []"

definition key_start :: "char \<Rightarrow> bool" where
  "key_start c \<longleftrightarrow> (CHR ''A'' \<le> c \<and> c \<le> CHR ''Z'') \<or> (CHR ''a'' \<le> c \<and> c \<le> CHR ''z'') \<or> c = CHR ''_''"

definition key_char :: "char \<Rightarrow> bool" where
  "key_char c \<longleftrightarrow> key_start c \<or> (CHR ''0'' \<le> c \<and> c \<le> CHR ''9'')"

text \<open>The key by which a line is replaced: an identifier, blanks, an equals sign.\<close>

definition line_key :: "string \<Rightarrow> string option" where
  "line_key l =
     (let s = py_strip l in
      if s = [] \<or> hd s = CHR ''#'' \<or> \<not> key_start (hd s) then None
      else
        (let k = takeWhile key_char s; rest = dropWhile is_space (dropWhile key_char s) in
         if rest \<noteq> [] \<and> hd rest = CHR ''='' then Some k else None))"

section \<open>Writing\<close>

definition setting_line :: "string \<Rightarrow> string \<Rightarrow> string" where
  "setting_line k v = k @ ''='' @ v @ [nl]"

fun rewrite :: "(string, string) dict \<Rightarrow> string list \<Rightarrow> string list" where
  "rewrite rem [] = map (\<lambda>(k, v). setting_line k v) rem"
| "rewrite rem (l # ls) =
     (case line_key l of
        None \<Rightarrow> l # rewrite rem ls
      | Some k \<Rightarrow>
          (case dget rem k of
             None \<Rightarrow> l # rewrite rem ls
           | Some v \<Rightarrow> setting_line k v # rewrite (ddel k rem) ls))"

fun check_updates :: "(string, string) dict \<Rightarrow> raised option" where
  "check_updates [] = None"
| "check_updates ((k, v) # ups) =
     (if k \<notin> set allowed_settings then Some (''InvalidSettingKey'', k)
      else if nl \<in> set v \<or> cr \<in> set v then Some (''InvalidSettingValue'', k)
      else check_updates ups)"

definition update_env_file :: "(string, string) dict \<Rightarrow> string option \<Rightarrow> raised option \<times> string option" where
  "update_env_file ups f =
     (case check_updates ups of
        Some e \<Rightarrow> (Some e, f)
      | None \<Rightarrow> (None, Some (concat (rewrite ups (file_lines f)))))"

text \<open>The route: 400 for a refused update.\<close>

definition update_settings_values :: "(string, string) dict \<Rightarrow> string option \<Rightarrow> int \<times> string option" where
  "update_settings_values ups f = (case update_env_file ups f of (Some _, f') \<Rightarrow> (400, f') | (None, f') \<Rightarrow> (200, f'))"

section \<open>Lines of a written file\<close>

definition full_line :: "string \<Rightarrow> bool" where
  "full_line l \<longleftrightarrow> (\<exists>t. l = t @ [nl] \<and> nl \<notin> set t \<and> cr \<notin> set t)"

lemma split_full: "full_line l \<Longrightarrow> split_lines (l @ s) = l # split_lines s"
proof -
  assume "full_line l"
  then obtain t where t: "l = t @ [nl]" "nl \<notin> set t" by (auto simp: full_line_def)
  have "split_lines (t @ nl # s) = (t @ [nl]) # split_lines s" if "nl \<notin> set t" for t
    using that by (induction t) auto
  then show ?thesis using t by simp
qed

lemma split_concat: "\<forall>l\<in>set ls. full_line l \<Longrightarrow> split_lines (concat ls) = ls"
  by (induction ls) (auto simp: split_full)

lemma universal_id: "cr \<notin> set s \<Longrightarrow> universal s = s"
  by (induction s) auto

lemma universal_no_cr: "cr \<notin> set (universal s)"
  by (induction s rule: universal.induct) auto

lemma universal_last: "s \<noteq> [] \<Longrightarrow> universal s \<noteq> [] \<and> (last s = nl \<longrightarrow> last (universal s) = nl)"
  by (induction s rule: universal.induct) (auto simp: last_tl neq_Nil_conv split: if_splits)

lemma split_lines_full:
  "cr \<notin> set s \<Longrightarrow> s = [] \<or> last s = nl \<Longrightarrow> \<forall>l\<in>set (split_lines s). full_line l"
proof (induction s rule: split_lines.induct)
  case (2 c s)
  show ?case
  proof (cases "c = nl")
    case True
    have "full_line [nl]" by (simp add: full_line_def)
    then show ?thesis using 2 True by (auto split: if_splits)
  next
    case False
    then have s: "s \<noteq> []" "last s = nl" using 2(4) by (auto split: if_splits)
    then have IH: "\<forall>l\<in>set (split_lines s). full_line l" using 2 False by auto
    have "split_lines s \<noteq> []" using s by (cases s) (auto split: list.split)
    then obtain l ls where ls: "split_lines s = l # ls" by (cases "split_lines s") auto
    then obtain t where "l = t @ [nl]" "nl \<notin> set t" "cr \<notin> set t" using IH by (auto simp: full_line_def)
    then have "full_line (c # l)" using False 2(3) by (auto simp: full_line_def intro!: exI [of _ "c # t"])
    then show ?thesis using IH ls False by auto
  qed
qed simp

text \<open>The file ends with a newline, if it has anything.\<close>

definition ends_line :: "string option \<Rightarrow> bool" where
  "ends_line f \<longleftrightarrow> (case f of None \<Rightarrow> True | Some t \<Rightarrow> t = [] \<or> last t = nl)"

lemma file_lines_full: "ends_line f \<Longrightarrow> \<forall>l\<in>set (file_lines f). full_line l"
proof (cases f)
  case (Some t)
  assume "ends_line f"
  then have "universal t = [] \<or> last (universal t) = nl"
    using Some universal_last [of t] by (cases "t = []") (simp_all add: ends_line_def)
  then show ?thesis using split_lines_full [OF universal_no_cr] Some by (simp add: file_lines_def)
qed (simp add: file_lines_def)


section \<open>Stripping\<close>

abbreviation rstrip :: "string \<Rightarrow> string" where
  "rstrip s \<equiv> rev (dropWhile is_space (rev s))"

lemma rstrip_keep: "\<not> is_space c \<Longrightarrow> rstrip (a @ c # b) = a @ c # rstrip b"
  by (simp add: dropWhile_append)

lemma rstrip_space: "is_space c \<Longrightarrow> rstrip (a @ [c]) = rstrip a"
  by simp

lemma all_space_rstrip: "\<forall>c\<in>set s. is_space c \<Longrightarrow> rstrip s = []"
  by simp

lemma split_space: "\<exists>sp. (\<forall>c\<in>set sp. is_space c) \<and> s = sp @ dropWhile is_space s"
  by (metis set_takeWhileD takeWhile_dropWhile_id)

lemma strip_swap: "dropWhile is_space (rstrip v) = rstrip (dropWhile is_space v)"
proof (cases "dropWhile is_space v")
  case Nil
  then have "\<forall>c\<in>set v. is_space c" by (simp add: dropWhile_eq_Nil_conv)
  then have r: "rstrip v = []" by (rule all_space_rstrip)
  show ?thesis unfolding r Nil by simp
next
  case (Cons c d)
  have c: "\<not> is_space c" using Cons hd_dropWhile [of is_space v] by simp
  obtain sp where sp: "\<forall>x\<in>set sp. is_space x" "v = sp @ c # d" using split_space [of v] Cons by auto
  have "rstrip v = sp @ c # rstrip d" unfolding sp(2) by (rule rstrip_keep [OF c])
  moreover have "dropWhile is_space (sp @ c # rstrip d) = c # rstrip d" using sp(1) c by (simp add: dropWhile_append2)
  moreover have "rstrip (c # d) = c # rstrip d" using rstrip_keep [OF c, of "[]" d] by simp
  ultimately show ?thesis using Cons by simp
qed

lemma rstrip_idem: "rstrip (rstrip v) = rstrip v"
  by (simp add: dropWhile_idem)

lemma strip_rstrip: "py_strip (rstrip v) = py_strip v"
  unfolding py_strip_def strip_swap by (rule rstrip_idem)

lemma strip_hd: "py_strip s \<noteq> [] \<Longrightarrow> \<not> is_space (hd (py_strip s))"
proof -
  assume ne: "py_strip s \<noteq> []"
  have "py_strip s = dropWhile is_space (rstrip s)" by (simp add: py_strip_def strip_swap)
  then show ?thesis using ne hd_dropWhile by metis
qed

text \<open>A setting name.\<close>

definition setting_name :: "string \<Rightarrow> bool" where
  "setting_name k \<longleftrightarrow> k \<noteq> [] \<and> key_start (hd k) \<and> (\<forall>c\<in>set k. key_char c)"

lemma allowed_names: "k \<in> set allowed_settings \<Longrightarrow> setting_name k"
proof -
  have "\<forall>k\<in>set allowed_settings. setting_name k" by code_simp
  then show "k \<in> set allowed_settings \<Longrightarrow> setting_name k" by blast
qed

lemma key_char_plain:
  assumes "key_char c"
  shows "\<not> is_space c" "c \<noteq> CHR ''=''" "c \<noteq> CHR ''#''" "c \<noteq> nl" "c \<noteq> cr"
  using assms by (auto simp: key_char_def key_start_def is_space_def less_eq_char_def Let_def)

lemma space_plain: "is_space c \<Longrightarrow> \<not> key_char c \<and> c \<noteq> CHR ''=''"
  using key_char_plain(1) by (auto simp: is_space_def)


section \<open>Keys of lines\<close>

lemma take_drop_name:
  assumes "\<forall>c\<in>set k. key_char c" "\<forall>c\<in>set sp. is_space c"
  shows "takeWhile key_char (k @ sp @ CHR ''='' # r) = k" "dropWhile key_char (k @ sp @ CHR ''='' # r) = sp @ CHR ''='' # r"
    "dropWhile is_space (sp @ CHR ''='' # r) = CHR ''='' # r" "takeWhile (\<lambda>c. c \<noteq> CHR ''='') (k @ sp @ CHR ''='' # r) = k @ sp"
    "dropWhile (\<lambda>c. c \<noteq> CHR ''='') (k @ sp @ CHR ''='' # r) = CHR ''='' # r"
proof -
  have eq: "\<not> key_char (CHR ''='')" "\<not> is_space (CHR ''='')" by code_simp+
  have sp: "takeWhile key_char (sp @ CHR ''='' # r) = []" "dropWhile key_char (sp @ CHR ''='' # r) = sp @ CHR ''='' # r"
    using assms(2) eq(1) space_plain by (cases sp; simp)+
  show "takeWhile key_char (k @ sp @ CHR ''='' # r) = k" "dropWhile key_char (k @ sp @ CHR ''='' # r) = sp @ CHR ''='' # r"
    using assms(1) sp by (simp_all add: takeWhile_append2 dropWhile_append2)
  show "dropWhile is_space (sp @ CHR ''='' # r) = CHR ''='' # r" using assms(2) eq(2) by (simp add: dropWhile_append2)
  have no: "\<forall>c\<in>set (k @ sp). c \<noteq> CHR ''=''" using assms key_char_plain(2) space_plain by fastforce
  show "takeWhile (\<lambda>c. c \<noteq> CHR ''='') (k @ sp @ CHR ''='' # r) = k @ sp"
    "dropWhile (\<lambda>c. c \<noteq> CHR ''='') (k @ sp @ CHR ''='' # r) = CHR ''='' # r"
    using no takeWhile_append2 [of "k @ sp" "\<lambda>c. c \<noteq> CHR ''=''" "CHR ''='' # r"]
      dropWhile_append2 [of "k @ sp" "\<lambda>c. c \<noteq> CHR ''=''" "CHR ''='' # r"] by simp_all
qed

lemma name_strip: "setting_name k \<Longrightarrow> \<forall>c\<in>set sp. is_space c \<Longrightarrow> py_strip (k @ sp) = k"
proof -
  assume k: "setting_name k" and sp: "\<forall>c\<in>set sp. is_space c"
  have ns: "\<forall>c\<in>set k. \<not> is_space c" "k \<noteq> []" using k key_char_plain(1) by (auto simp: setting_name_def)
  then have "dropWhile is_space (k @ sp) = k @ sp" by (cases k) simp_all
  moreover have "rstrip (k @ sp) = k"
  proof (cases k rule: rev_cases)
    case (snoc ys y)
    have "dropWhile is_space (rev sp @ y # rev ys) = dropWhile is_space (y # rev ys)"
      by (rule dropWhile_append2) (use sp in simp)
    then show ?thesis using ns snoc by simp
  qed (use ns in simp)
  ultimately show ?thesis by (simp add: py_strip_def)
qed

text \<open>A line has the key \<open>k\<close> when it is \<open>k\<close>, blanks and an equals sign, but for blanks around it.\<close>

lemma line_key_iff:
  assumes "setting_name k"
  shows "line_key l = Some k \<longleftrightarrow> (\<exists>sp r. py_strip l = k @ sp @ CHR ''='' # r \<and> (\<forall>c\<in>set sp. is_space c))"
proof
  let ?s = "py_strip l"
  assume "line_key l = Some k"
  then have k: "k = takeWhile key_char ?s" "dropWhile is_space (dropWhile key_char ?s) \<noteq> []"
      "hd (dropWhile is_space (dropWhile key_char ?s)) = CHR ''=''"
    by (auto simp: line_key_def Let_def split: if_splits)
  obtain sp where sp: "\<forall>c\<in>set sp. is_space c" "dropWhile key_char ?s = sp @ dropWhile is_space (dropWhile key_char ?s)"
    using split_space by blast
  obtain r where "dropWhile is_space (dropWhile key_char ?s) = CHR ''='' # r"
    using k(2,3) by (cases "dropWhile is_space (dropWhile key_char ?s)") auto
  then have "?s = k @ sp @ CHR ''='' # r" using k(1) sp(2) by (metis takeWhile_dropWhile_id)
  then show "\<exists>sp r. ?s = k @ sp @ CHR ''='' # r \<and> (\<forall>c\<in>set sp. is_space c)" using sp(1) by blast
next
  assume "\<exists>sp r. py_strip l = k @ sp @ CHR ''='' # r \<and> (\<forall>c\<in>set sp. is_space c)"
  then obtain sp r where s: "py_strip l = k @ sp @ CHR ''='' # r" "\<forall>c\<in>set sp. is_space c" by blast
  have k: "k \<noteq> []" "key_start (hd k)" "\<forall>c\<in>set k. key_char c" using assms by (simp_all add: setting_name_def)
  have h: "hd k \<noteq> CHR ''#''" using k key_char_plain(3) by simp
  show "line_key l = Some k"
    unfolding line_key_def Let_def s(1) take_drop_name [OF k(3) s(2)] using k h by simp
qed

lemma line_setting_iff:
  assumes "setting_name k"
  shows "(\<exists>v. line_setting l = Some (k, v)) \<longleftrightarrow> line_key l = Some k"
proof
  let ?s = "py_strip l"
  assume "\<exists>v. line_setting l = Some (k, v)"
  then have p: "?s \<noteq> []" "CHR ''='' \<in> set ?s" "k = py_strip (takeWhile (\<lambda>c. c \<noteq> CHR ''='') ?s)"
    by (auto simp: line_setting_def Let_def split: if_splits)
  obtain a r where s: "?s = a @ CHR ''='' # r" "CHR ''='' \<notin> set a" using split_list_first [OF p(2)] by blast
  have "takeWhile (\<lambda>c. c \<noteq> CHR ''='') (a @ CHR ''='' # r) = a @ takeWhile (\<lambda>c. c \<noteq> CHR ''='') (CHR ''='' # r)"
    by (rule takeWhile_append2) (use s(2) in auto)
  then have k: "k = py_strip a" unfolding p(3) s(1) by simp
  have "a \<noteq> []" using assms k by (auto simp: setting_name_def py_strip_def)
  then have "\<not> is_space (hd a)" using strip_hd [OF p(1)] s(1) by simp
  then have "k = rstrip a" using k \<open>a \<noteq> []\<close> by (cases a) (simp_all add: py_strip_def)
  moreover have "\<exists>sp. (\<forall>c\<in>set sp. is_space c) \<and> a = rstrip a @ sp"
  proof -
    obtain sp where "\<forall>c\<in>set sp. is_space c" "rev a = sp @ dropWhile is_space (rev a)" using split_space by blast
    then have "\<forall>c\<in>set (rev sp). is_space c" "a = rstrip a @ rev sp" by (simp, metis rev_append rev_rev_ident)
    then show ?thesis by blast
  qed
  ultimately show "line_key l = Some k" unfolding line_key_iff [OF assms] s(1) by (metis append_assoc)
next
  assume "line_key l = Some k"
  then obtain sp r where s: "py_strip l = k @ sp @ CHR ''='' # r" "\<forall>c\<in>set sp. is_space c"
    unfolding line_key_iff [OF assms] by blast
  have k: "k \<noteq> []" "\<forall>c\<in>set k. key_char c" using assms by (simp_all add: setting_name_def)
  have h: "hd k \<noteq> CHR ''#''" using k key_char_plain(3) by simp
  show "\<exists>v. line_setting l = Some (k, v)"
    unfolding line_setting_def Let_def s(1) take_drop_name [OF k(2) s(2)] using k(1) h name_strip [OF assms s(2)] by simp
qed

text \<open>A written line is a full line, with its key and its value.\<close>

lemma strip_written:
  assumes "setting_name k"
  shows "py_strip (setting_line k v) = k @ CHR ''='' # rstrip v"
proof -
  have k: "k \<noteq> []" "\<not> is_space (hd k)" using assms key_char_plain(1) by (auto simp: setting_name_def)
  have eq: "\<not> is_space (CHR ''='')" and n: "is_space nl" by code_simp+
  have "dropWhile is_space (setting_line k v) = setting_line k v" using k by (cases k) (simp_all add: setting_line_def)
  then have "py_strip (setting_line k v) = rstrip (k @ CHR ''='' # v @ [nl])" by (simp add: py_strip_def setting_line_def)
  also have "\<dots> = k @ CHR ''='' # rstrip (v @ [nl])" by (rule rstrip_keep [OF eq])
  also have "rstrip (v @ [nl]) = rstrip v" by (rule rstrip_space [OF n])
  finally show ?thesis .
qed

lemma written_line:
  assumes "setting_name k" "nl \<notin> set v" "cr \<notin> set v"
  shows "full_line (setting_line k v)" "line_key (setting_line k v) = Some k" "line_setting (setting_line k v) = Some (k, rstrip v)"
proof -
  have k: "k \<noteq> []" "\<forall>c\<in>set k. key_char c" using assms(1) by (simp_all add: setting_name_def)
  have h: "hd k \<noteq> CHR ''#''" using k key_char_plain(3) by simp
  have "nl \<notin> set k \<and> cr \<notin> set k" using k(2) key_char_plain(4,5) by blast
  then show "full_line (setting_line k v)"
    using assms(2,3) by (auto simp: full_line_def setting_line_def intro!: exI [of _ "k @ CHR ''='' # v"])
  show "line_key (setting_line k v) = Some k"
    unfolding line_key_iff [OF assms(1)] strip_written [OF assms(1)] by (intro exI [of _ "[]"] exI [of _ "rstrip v"]) simp
  have sp: "\<forall>c\<in>set []. is_space c" by simp
  show "line_setting (setting_line k v) = Some (k, rstrip v)"
    using take_drop_name(4,5) [OF k(2) sp, of "rstrip v"] name_strip [OF assms(1) sp] k(1) h
    unfolding line_setting_def Let_def strip_written [OF assms(1)] by simp
qed

lemma shown_rstrip: "shown_value k (rstrip v) = shown_value k v"
  unfolding shown_value_def strip_rstrip ..


section \<open>Rewriting\<close>

abbreviation defs_of :: "string \<Rightarrow> string list \<Rightarrow> string list" where
  "defs_of k ls \<equiv> filter (\<lambda>l. line_key l = Some k) ls"

definition updates_ok :: "(string, string) dict \<Rightarrow> bool" where
  "updates_ok ups \<longleftrightarrow> (\<forall>(k, v)\<in>set ups. k \<in> set allowed_settings \<and> nl \<notin> set v \<and> cr \<notin> set v)"

lemma check_updates_None: "check_updates ups = None \<longleftrightarrow> updates_ok ups"
  by (induction ups rule: check_updates.induct) (auto simp: updates_ok_def)

lemma updates_written: "updates_ok ups \<Longrightarrow> (k, v) \<in> set ups \<Longrightarrow> full_line (setting_line k v) \<and> line_key (setting_line k v) = Some k"
proof -
  assume "updates_ok ups" "(k, v) \<in> set ups"
  then have "k \<in> set allowed_settings" "nl \<notin> set v" "cr \<notin> set v" unfolding updates_ok_def by blast+
  then show ?thesis using written_line(1,2) [OF allowed_names] by blast
qed

lemma updates_del: "updates_ok ups \<Longrightarrow> updates_ok (ddel k ups)"
  by (auto simp: updates_ok_def ddel_def)

lemma rewrite_full:
  assumes "updates_ok rem" "\<forall>l\<in>set ls. full_line l"
  shows "\<forall>l\<in>set (rewrite rem ls). full_line l"
  using assms
proof (induction rem ls rule: rewrite.induct)
  case (1 rem)
  show ?case using updates_written [OF 1(1)] by auto
next
  case (2 rem l ls)
  have ls: "\<forall>x\<in>set ls. full_line x" "full_line l" using 2(5) by simp_all
  show ?case
  proof (cases "line_key l")
    case (Some k)
    show ?thesis
    proof (cases "dget rem k")
      case None
      then show ?thesis using 2(2) [OF Some None 2(4) ls(1)] ls(2) Some by simp
    next
      case v: (Some v)
      have "full_line (setting_line k v)" using updates_written [OF 2(4)] dget_in_set [OF v] by blast
      then show ?thesis using 2(3) [OF Some v updates_del [OF 2(4)] ls(1)] Some v by simp
    qed
  next
    case None
    then show ?thesis using 2(1) [OF None 2(4) ls(1)] ls(2) by simp
  qed
qed

text \<open>Lines of other keys, and lines without a key, stay as and where they are.\<close>

lemma rewrite_others:
  assumes "updates_ok rem" "set (dkeys rem) \<subseteq> K"
  shows "filter (\<lambda>l. \<forall>k\<in>K. line_key l \<noteq> Some k) (rewrite rem ls) = filter (\<lambda>l. \<forall>k\<in>K. line_key l \<noteq> Some k) ls"
  using assms
proof (induction rem ls rule: rewrite.induct)
  case (1 rem)
  have "\<not> (\<forall>k\<in>K. line_key l \<noteq> Some k)" if mem: "l \<in> set (rewrite rem [])" for l
  proof -
    obtain k v where kv: "(k, v) \<in> set rem" "l = setting_line k v" using mem by auto
    have "k \<in> K" using kv(1) 1(2) by force
    then show ?thesis using updates_written [OF 1(1) kv(1)] kv(2) by blast
  qed
  then show ?case using filter_False by simp
next
  case (2 rem l ls)
  show ?case
  proof (cases "line_key l")
    case (Some k)
    show ?thesis
    proof (cases "dget rem k")
      case None
      then show ?thesis using 2(2) [OF Some None 2(4,5)] Some by auto
    next
      case v: (Some v)
      have k: "k \<in> K" using dget_in_set [OF v] 2(5) by force
      have "line_key (setting_line k v) = Some k" using updates_written [OF 2(4)] dget_in_set [OF v] by blast
      moreover have "set (dkeys (ddel k rem)) \<subseteq> K" using 2(5) by (auto simp: ddel_def)
      ultimately show ?thesis using 2(3) [OF Some v updates_del [OF 2(4)]] Some v k by auto
    qed
  qed (use 2 in simp)
qed

text \<open>The first line of an updated key is replaced; if there is none, one is appended.\<close>

lemma rewrite_defs:
  assumes "updates_ok rem" "dwf rem"
  shows "defs_of k (rewrite rem ls) =
     (case dget rem k of
        None \<Rightarrow> defs_of k ls
      | Some v \<Rightarrow> setting_line k v # tl (defs_of k ls))"
  using assms
proof (induction rem ls rule: rewrite.induct)
  case (1 rem)
  have "defs_of k (map (\<lambda>(k, v). setting_line k v) rem) = map (\<lambda>(k, v). setting_line k v) (filter (\<lambda>p. fst p = k) rem)"
    using updates_written [OF 1(1)] by (auto simp: filter_map o_def intro!: arg_cong [of _ _ "map _"] filter_cong)
  moreover have "filter (\<lambda>p. fst p = k) rem = (case dget rem k of None \<Rightarrow> [] | Some v \<Rightarrow> [(k, v)])"
    using 1(2) by (induction rem) (auto simp: map_of_eq_None_iff filter_empty_conv rev_image_eqI split: option.splits)
  ultimately show ?case by (auto split: option.split)
next
  case (2 rem l ls)
  show ?case
  proof (cases "line_key l")
    case None
    then show ?thesis using 2(1) [OF None 2(4,5)] by (auto split: option.split)
  next
    case (Some j)
    show ?thesis
    proof (cases "dget rem j")
      case None
      then show ?thesis using 2(2) [OF Some None 2(4,5)] Some by (auto split: option.split)
    next
      case v: (Some v)
      have "line_key (setting_line j v) = Some j" using updates_written [OF 2(4)] dget_in_set [OF v] by blast
      moreover have "dwf (ddel j rem)" using 2(5) by (simp add: ddel_def distinct_map_filter)
      ultimately show ?thesis
        using 2(3) [OF Some v updates_del [OF 2(4)]] Some v by (auto simp: dget_ddel split: option.split)
    qed
  qed
qed

lemma update_lines:
  assumes "update_env_file ups f = (None, f')" "ends_line f"
  shows "updates_ok ups" "file_lines f' = rewrite ups (file_lines f)"
proof -
  show ok: "updates_ok ups"
    using assms(1) check_updates_None [of ups] by (auto simp: update_env_file_def split: option.splits)
  have f': "f' = Some (concat (rewrite ups (file_lines f)))"
    using assms(1) by (auto simp: update_env_file_def split: option.splits)
  have full: "\<forall>l\<in>set (rewrite ups (file_lines f)). full_line l" by (rule rewrite_full [OF ok file_lines_full [OF assms(2)]])
  then have "cr \<notin> set (concat (rewrite ups (file_lines f)))" by (fastforce simp: full_line_def)
  then show "file_lines f' = rewrite ups (file_lines f)"
    using split_concat [OF full] by (simp add: f' file_lines_def universal_id)
qed

text \<open>Reading gives the value of the last line with a key.\<close>

definition last_value :: "string \<Rightarrow> string list \<Rightarrow> string option" where
  "last_value k ls = (if defs_of k ls = [] then None else map_option (\<lambda>p. shown_value k (snd p)) (line_setting (last (defs_of k ls))))"

lemma read_value:
  assumes "k \<in> set allowed_settings"
  shows "dget (read_env_file f) k = last_value k (file_lines f)"
proof -
  define F where "F = (\<lambda>l (d :: (string, string) dict). case line_setting l of None \<Rightarrow> d
      | Some (k, v) \<Rightarrow> if k \<in> set allowed_settings then dset k (shown_value k v) d else d)"
  have "dget (fold F ls []) k = last_value k ls" for ls
  proof (induction ls rule: rev_induct)
    case (snoc l ls)
    show ?case
    proof (cases "line_key l = Some k")
      case True
      then obtain v where "line_setting l = Some (k, v)" using line_setting_iff [OF allowed_names [OF assms]] by blast
      then show ?thesis using True assms by (simp add: F_def last_value_def dget_dset)
    next
      case False
      then have "\<forall>v. line_setting l \<noteq> Some (k, v)" using line_setting_iff [OF allowed_names [OF assms]] by blast
      then have "dget (F l (fold F ls [])) k = dget (fold F ls []) k" by (auto simp: F_def dget_dset split: option.split)
      then show ?thesis using False snoc by (simp add: last_value_def)
    qed
  qed (simp add: last_value_def)
  then show ?thesis by (simp add: read_env_file_def F_def)
qed

section \<open>Properties\<close>


text \<open>
  An update touches nothing else: only editable keys can be updated, and in a file that ends
  with a newline every line that does not set an updated key stays as and where it was, and no
  other line appears; so the administrative keys cannot be changed or added this way.
\<close>

theorem update_keeps_other_lines:
  assumes "update_env_file ups f = (None, f')" "ends_line f"
  shows "set (dkeys ups) \<subseteq> set allowed_settings \<and>
     filter (\<lambda>l. \<forall>k\<in>set (dkeys ups). line_key l \<noteq> Some k) (file_lines f') =
     filter (\<lambda>l. \<forall>k\<in>set (dkeys ups). line_key l \<noteq> Some k) (file_lines f)"
proof -
  note u = update_lines [OF assms]
  have "set (dkeys ups) \<subseteq> set allowed_settings" using u(1) by (auto simp: updates_ok_def)
  then show ?thesis unfolding u(2) using rewrite_others [OF u(1) subset_refl] by simp
qed

definition demo_file :: "string option" where
  "demo_file = Some (''REUS_API_KEY=k'' @ [nl] @ ''REUS_OLLAMA_MODEL=a'' @ [nl])"


theorem update_keeps_other_lines_witness:
  "''REUS_API_KEY=k'' @ [nl] \<in> set (file_lines (snd (update_env_file [(''REUS_OLLAMA_MODEL'', ''b'')] demo_file)))"
proof -
  have u: "update_env_file [(''REUS_OLLAMA_MODEL'', ''b'')] demo_file = (None, snd (update_env_file [(''REUS_OLLAMA_MODEL'', ''b'')] demo_file))"
    by code_simp
  have e: "ends_line demo_file" by code_simp
  have "''REUS_API_KEY=k'' @ [nl] \<in> set (filter (\<lambda>l. \<forall>k\<in>set (dkeys [(''REUS_OLLAMA_MODEL'', ''b'')]). line_key l \<noteq> Some k) (file_lines demo_file))"
    by code_simp
  then have "''REUS_API_KEY=k'' @ [nl] \<in> set (filter (\<lambda>l. \<forall>k\<in>set (dkeys [(''REUS_OLLAMA_MODEL'', ''b'')]). line_key l \<noteq> Some k)
      (file_lines (snd (update_env_file [(''REUS_OLLAMA_MODEL'', ''b'')] demo_file))))"
    unfolding conjunct2 [OF update_keeps_other_lines [OF u e]] .
  then show ?thesis unfolding set_filter by blast
qed

end
