(* ===== verification/Shell.thy ===== *)
theory Shell
  imports Prelude
begin

text \<open>
  The parts of Python's \<open>shlex\<close> the cloud commands use: splitting a line into words and quoting a
  word, and the first-boot script of a cloud node that is built with them
  (\<open>infrastructure/cloud/node_cloud_init.py\<close>). The property: a line of quoted words splits into
  these words, whatever they contain.
\<close>

section \<open>Splitting\<close>

text \<open>
  \<open>shlex.split\<close>: between words, in a word, in quotes, after a backslash. The current word and
  whether it was quoted go along; a word is given at its end, an empty one only if it was quoted.
\<close>

datatype shlex_state = Between | Inside | Quoted char | Escaped "char option"

definition shlex_space :: "char \<Rightarrow> bool" where
  "shlex_space c \<longleftrightarrow> c = CHR '' '' \<or> c = CHR 0x09 \<or> c = CHR 0x0D \<or> c = CHR 0x0A"

abbreviation squote :: char where
  "squote \<equiv> CHR 0x27"

abbreviation dquote :: char where
  "dquote \<equiv> CHR 0x22"

abbreviation bslash :: char where
  "bslash \<equiv> CHR 0x5C"

definition finish_word :: "string \<Rightarrow> bool \<Rightarrow> string list" where
  "finish_word w q = (if w \<noteq> [] \<or> q then [w] else [])"

fun shlex_go :: "shlex_state \<Rightarrow> string \<Rightarrow> bool \<Rightarrow> string \<Rightarrow> raised + string list" where
  "shlex_go (Quoted _) w q [] = Inl (''ValueError'', ''No closing quotation'')"
| "shlex_go (Escaped _) w q [] = Inl (''ValueError'', ''No escaped character'')"
| "shlex_go st w q [] = Inr (finish_word w q)"
| "shlex_go Between w q (c # s) =
     (if shlex_space c then map_sum id ((@) (finish_word w q)) (shlex_go Between [] False s)
      else if c = bslash then shlex_go (Escaped None) w q s
      else if c = squote \<or> c = dquote then shlex_go (Quoted c) w q s
      else shlex_go Inside [c] q s)"
| "shlex_go Inside w q (c # s) =
     (if shlex_space c then map_sum id ((@) (finish_word w q)) (shlex_go Between [] False s)
      else if c = bslash then shlex_go (Escaped None) w q s
      else if c = squote \<or> c = dquote then shlex_go (Quoted c) w q s
      else shlex_go Inside (w @ [c]) q s)"
| "shlex_go (Quoted d) w q (c # s) =
     (if c = d then shlex_go Inside w True s
      else if c = bslash \<and> d = dquote then shlex_go (Escaped (Some d)) w True s
      else shlex_go (Quoted d) (w @ [c]) True s)"
| "shlex_go (Escaped d) w q (c # s) =
     (case d of
        None \<Rightarrow> shlex_go Inside (w @ [c]) q s
      | Some e \<Rightarrow>
          (if c \<noteq> bslash \<and> c \<noteq> e then shlex_go (Quoted e) (w @ [bslash, c]) q s else shlex_go (Quoted e) (w @ [c]) q s))"

definition shlex_split :: "string \<Rightarrow> raised + string list" where
  "shlex_split s = shlex_go Between [] False s"

section \<open>Quoting\<close>

definition shlex_safe :: "char \<Rightarrow> bool" where
  "shlex_safe c \<longleftrightarrow> (CHR ''A'' \<le> c \<and> c \<le> CHR ''Z'') \<or> (CHR ''a'' \<le> c \<and> c \<le> CHR ''z'') \<or> (CHR ''0'' \<le> c \<and> c \<le> CHR ''9'') \<or>
     c \<in> set ''_@%+=:,./-''"

fun escape_quotes :: "string \<Rightarrow> string" where
  "escape_quotes [] = []"
| "escape_quotes (c # s) = (if c = squote then [squote, dquote, squote, dquote, squote] else [c]) @ escape_quotes s"

definition shlex_quote :: "string \<Rightarrow> string" where
  "shlex_quote s =
     (if s = [] then [squote, squote]
      else if \<forall>c\<in>set s. shlex_safe c then s
      else squote # escape_quotes s @ [squote])"

section \<open>The round trip\<close>

lemma safe_plain: "shlex_safe c \<Longrightarrow> \<not> shlex_space c \<and> c \<noteq> bslash \<and> c \<noteq> squote \<and> c \<noteq> dquote"
  by (auto simp: shlex_safe_def shlex_space_def less_eq_char_def)

lemma go_safe: "\<forall>c\<in>set x. shlex_safe c \<Longrightarrow> shlex_go Inside w q (x @ s) = shlex_go Inside (w @ x) q s"
  by (induction x arbitrary: w) (auto dest: safe_plain)

lemma go_quoted: "shlex_go (Quoted squote) w True (escape_quotes x @ squote # s) = shlex_go Inside (w @ x) True s"
proof (induction x arbitrary: w)
  case (Cons c x)
  show ?case
  proof (cases "c = squote")
    case True
    have sp: "\<not> shlex_space squote" "\<not> shlex_space dquote" by (simp_all add: shlex_space_def)
    show ?thesis using True Cons [of "w @ [c]"] sp by simp
  qed (use Cons [of "w @ [c]"] in simp)
qed simp

lemma go_quoted_start: "shlex_go (Quoted squote) [] q (escape_quotes x @ squote # s) = shlex_go Inside x True s" if "x \<noteq> [] \<or> q"
proof (cases x)
  case Nil
  then show ?thesis by simp
next
  case (Cons c y)
  show ?thesis
  proof (cases "c = squote")
    case True
    have sp: "\<not> shlex_space squote" "\<not> shlex_space dquote" by (simp_all add: shlex_space_def)
    show ?thesis using Cons True go_quoted [of "[c]" y s] sp by simp
  qed (use Cons go_quoted [of "[c]" y s] in simp)
qed

lemma go_quote:
  "\<exists>q. shlex_go Between [] False (shlex_quote x @ s) = shlex_go Inside x q s \<and> finish_word x q = [x]"
proof -
  have sp: "\<not> shlex_space squote" by (simp add: shlex_space_def)
  consider (empty) "x = []" | (safe) c y where "x = c # y" "\<forall>c\<in>set x. shlex_safe c" | (other) "x \<noteq> []" "\<not> (\<forall>c\<in>set x. shlex_safe c)"
    by (cases x) auto
  then show ?thesis
  proof cases
    case empty
    have "shlex_go Between [] False (shlex_quote x @ s) = shlex_go Inside x True s" using empty sp by (simp add: shlex_quote_def)
    then show ?thesis by (intro exI [of _ True]) (simp add: finish_word_def)
  next
    case safe
    have "shlex_go Between [] False (shlex_quote x @ s) = shlex_go Inside x False s"
      using safe go_safe [of y "[c]" False s] safe_plain [of c] by (simp add: shlex_quote_def)
    then show ?thesis using safe by (intro exI [of _ False]) (simp add: finish_word_def)
  next
    case other
    then have "shlex_quote x = squote # escape_quotes x @ [squote]" unfolding shlex_quote_def by presburger
    then have "shlex_go Between [] False (shlex_quote x @ s) = shlex_go Inside x True s"
      using go_quoted_start [of x False s] sp other(1) by simp
    then show ?thesis by (intro exI [of _ True]) (simp add: finish_word_def)
  qed
qed

text \<open>
  Quoting is safe: a command line of quoted words splits into exactly these words, whatever
  characters they contain, quotes, blanks and newlines included.
\<close>

lemma shlex_quote_split: "shlex_split (join_sep '' '' (map shlex_quote xs)) = Inr xs"
proof -
  have "shlex_go Between [] False (join_sep '' '' (map shlex_quote xs)) = Inr xs"
  proof (induction xs rule: induct_list012)
    case 1
    show ?case by (simp add: finish_word_def)
  next
    case (2 x)
    show ?case using go_quote [of x "[]"] by auto
  next
    case (3 x y ys)
    have sp: "shlex_space (CHR '' '')" by (simp add: shlex_space_def)
    show ?case using go_quote [of x "CHR '' '' # join_sep '' '' (map shlex_quote (y # ys))"] 3 sp by auto
  qed
  then show ?thesis by (simp add: shlex_split_def)
qed

section \<open>The first-boot script\<close>

definition node_role_ids :: "string list" where
  "node_role_ids = [''text-node'', ''cipher-node'', ''numeric-node'', ''format-node'', ''validation-node'']"

definition run_node_cmd :: "string \<Rightarrow> string option \<Rightarrow> string list" where
  "run_node_cmd role seed =
     [''python3'', ''/opt/reus/scripts/run_node.py'', ''--role'', role, ''--data-dir'', ''/var/lib/reus/node'',
      ''--mtls-port'', ''8443'', ''--bootstrap-port'', ''8080''] @
     (case seed of Some (c # u) \<Rightarrow> [''--seed-url'', c # u] | _ \<Rightarrow> [])"

definition systemd_unit :: "string \<Rightarrow> string \<Rightarrow> string" where
  "systemd_unit role cmd =
     join_sep [CHR 0x0A]
       [''[Unit]'', ''Description=Reus node ('' @ role @ '')'', ''After=network-online.target'', ''Wants=network-online.target'', [],
        ''[Service]'', ''Type=simple'', ''ExecStart='' @ cmd, ''Restart=always'', ''RestartSec=5'', ''WorkingDirectory=/opt/reus'', [],
        ''[Install]'', ''WantedBy=multi-user.target'']"

definition build_node_cloud_init_script :: "string \<Rightarrow> string \<Rightarrow> string option \<Rightarrow> raised + string" where
  "build_node_cloud_init_script role fetch seed =
     (if role \<notin> set node_role_ids then Inl (''ValueError'', ''Unknown node role: '' @ role)
      else if py_strip fetch = [] then Inl (''ValueError'', ''source_fetch_cmd is required'')
      else Inr (join_sep [CHR 0x0A]
        [''#!/bin/bash'', ''set -euxo pipefail'', [], ''# 1) Install prerequisites'', ''apt-get update -y'',
         ''apt-get install -y python3 python3-pip git'', [],
         ''# 2) Fetch source code with the operator-supplied command; no implicit default'',
         ''mkdir -p '' @ shlex_quote ''/opt/reus'', fetch, [],
         ''pip3 install --break-system-packages -r '' @ shlex_quote ''/opt/reus'' @ ''/requirements.txt || true'', [],
         ''# 3) Install and enable the systemd unit for automatic node startup'',
         ''mkdir -p '' @ shlex_quote ''/var/lib/reus/node'',
         ''cat > /etc/systemd/system/reus-node.service << '' @ [squote] @ ''REUS_UNIT_EOF'' @ [squote],
         systemd_unit role (join_sep '' '' (map shlex_quote (run_node_cmd role seed))), ''REUS_UNIT_EOF'',
         ''systemctl daemon-reload'', ''systemctl enable --now reus-node.service''] @ [CHR 0x0A]))"

end
