(* ===== verification/Cloud.thy ===== *)
theory Cloud
  imports Hosting Approval Shell
begin

text \<open>
  Cloud nodes: the deployment manager (\<open>infrastructure/cloud/deployment_manager.py\<close>), the
  provider for DigitalOcean (\<open>digitalocean_provider.py\<close>) and the administrators' commands
  (\<open>application/cloud_telegram_commands.py\<close>) over the purchase gate and the approval gate.

  The manager exists once a configuration has been accepted, so that it is the configuration. The
  answers of the provider's API are the fields of an environment, as are the clock readings,
  fresh identifiers, the hash, the token of a provider, \<open>int()\<close> and \<open>float()\<close> on a text and the
  format of an amount. The calls that create and delete nodes are logged.
\<close>

section \<open>The manager\<close>

record cloud_config =
  cc_provider :: string
  cc_token :: string
  cc_region :: string
  cc_size :: string
  cc_max :: int
  cc_budget :: real
  cc_user_data :: string

record instance_info =
  in_id :: string
  in_name :: string
  in_provider :: string
  in_region :: string
  in_size :: string
  in_status :: string
  in_ip :: "string option"
  in_cost :: real

record deployment_proposal =
  dp_name :: string
  dp_provider :: string
  dp_region :: string
  dp_size :: string
  dp_cost :: real
  dp_count :: int
  dp_spend :: real

datatype cloud_action =
    Deploy string string string authorization hosting_offer
  | Destroy string

record cloud_env =
  ce_sha :: "string \<Rightarrow> string"
  ce_now :: real
  ce_gate :: real
  ce_gate2 :: real
  ce_auth :: string
  ce_uuid :: string
  ce_token :: "string \<Rightarrow> string option"
  ce_seed :: "string option"
  ce_int :: "string \<Rightarrow> int option"
  ce_float :: "string \<Rightarrow> real option"
  ce_money :: "real \<Rightarrow> string"
  ce_list :: "cloud_config \<Rightarrow> raised + instance_info list"
  ce_estimate :: "cloud_config \<Rightarrow> raised + real"
  ce_create :: "string \<Rightarrow> cloud_config \<Rightarrow> raised + instance_info"
  ce_destroy :: "string \<Rightarrow> cloud_config \<Rightarrow> raised option"

record cloud =
  cd_config :: "cloud_config option"
  cd_source :: "string option"
  cd_gate :: purchase_gate
  cd_telegram :: telegram
  cd_callbacks :: "(string, string \<times> cloud_action) dict"
  cd_events :: "(string \<times> (string \<times> pyval) list) list"
  cd_created :: "(string \<times> cloud_config) list"
  cd_destroyed :: "string list"

definition limit_exceeded :: "string \<Rightarrow> raised" where
  "limit_exceeded m = (''CloudLimitExceeded'', m)"

definition current_usage :: "cloud_env \<Rightarrow> cloud_config \<Rightarrow> raised + instance_info list \<times> real" where
  "current_usage e c = (case ce_list e c of Inl x \<Rightarrow> Inl x | Inr is \<Rightarrow> Inr (is, sum_list (map in_cost is)))"

definition propose_new_instance :: "cloud_env \<Rightarrow> string \<Rightarrow> cloud_config option \<Rightarrow> raised + deployment_proposal" where
  "propose_new_instance e name cfg =
     (case cfg of
        None \<Rightarrow> Inl (limit_exceeded ''cloud provider not configured'')
      | Some c \<Rightarrow>
          (case current_usage e c of
             Inl x \<Rightarrow> Inl x
           | Inr (is, spend) \<Rightarrow>
               if int (length is) \<ge> cc_max c then Inl (limit_exceeded ''max_instances limit reached'')
               else
                 (case ce_estimate e c of
                    Inl x \<Rightarrow> Inl x
                  | Inr cost \<Rightarrow>
                      if spend + cost > cc_budget c then Inl (limit_exceeded ''budget cap exceeded'')
                      else Inr \<lparr>dp_name = name, dp_provider = cc_provider c, dp_region = cc_region c, dp_size = cc_size c,
                                dp_cost = cost, dp_count = int (length is), dp_spend = spend\<rparr>)))"

text \<open>\<open>round()\<close>: to the nearest integer, halves to the even one.\<close>

definition py_round :: "real \<Rightarrow> int" where
  "py_round x =
     (let f = \<lfloor>x\<rfloor>; d = x - of_int f in
      if d < 1/2 then f else if d > 1/2 then f + 1 else if even f then f else f + 1)"

definition purchase_offer :: "deployment_proposal \<Rightarrow> hosting_offer" where
  "purchase_offer p =
     \<lparr>ho_id = join_sep '':'' [dp_provider p, dp_region p, dp_size p, dp_name p], ho_provider = dp_provider p, ho_plan = dp_size p,
      ho_region = dp_region p, ho_price = py_round (dp_cost p * 100), ho_currency = ''USD'', ho_period = ''monthly'',
      ho_free = False, ho_boundary = ''provider region '' @ dp_region p,
      ho_compute = ''one '' @ dp_size p @ '' node named '' @ dp_name p\<rparr>"

definition set_user_data :: "string \<Rightarrow> cloud \<Rightarrow> raised option \<times> cloud" where
  "set_user_data u s =
     (case cd_config s of
        None \<Rightarrow> (Some (''AttributeError'', ''set_user_data''), s)
      | Some c \<Rightarrow> (None, s\<lparr>cd_config := Some (c\<lparr>cc_user_data := u\<rparr>)\<rparr>))"

definition execute_new_instance ::
    "cloud_env \<Rightarrow> string \<Rightarrow> authorization \<Rightarrow> hosting_offer \<Rightarrow> cloud \<Rightarrow> (raised + instance_info) \<times> cloud" where
  "execute_new_instance e name a off s =
     (case cd_config s of
        None \<Rightarrow> (Inl (limit_exceeded ''cloud provider not configured''), s)
      | Some c \<Rightarrow>
          (case consume_purchase (ce_sha e) a off (ce_gate2 e) (cd_gate s) of
             (Inl m, g) \<Rightarrow> (Inl (''HostingGovernanceError'', m), s\<lparr>cd_gate := g\<rparr>)
           | (Inr _, g) \<Rightarrow> (ce_create e name c, s\<lparr>cd_gate := g, cd_created := cd_created s @ [(name, c)]\<rparr>)))"

definition destroy_instance :: "cloud_env \<Rightarrow> string \<Rightarrow> cloud \<Rightarrow> raised option \<times> cloud" where
  "destroy_instance e i s =
     (case cd_config s of
        None \<Rightarrow> (Some (limit_exceeded ''cloud provider not configured''), s)
      | Some c \<Rightarrow> (ce_destroy e i c, s\<lparr>cd_destroyed := cd_destroyed s @ [i]\<rparr>))"

section \<open>The provider\<close>

text \<open>
  \<open>request\<close> is the HTTP call: method, path and body, a JSON value or the error it raises. The
  two calls below read what the manager decides on.
\<close>

definition pdict :: "pyval \<Rightarrow> (string, pyval) dict" where
  "pdict v = (case v of PDict d \<Rightarrow> d | _ \<Rightarrow> [])"

definition plist :: "pyval \<Rightarrow> pyval list" where
  "plist v = (case v of PList l \<Rightarrow> l | _ \<Rightarrow> [])"

definition price_of :: "pyval \<Rightarrow> real" where
  "price_of v = (case v of PFloat x \<Rightarrow> x | PInt i \<Rightarrow> of_int i | _ \<Rightarrow> 0)"

definition do_estimate :: "(string \<Rightarrow> string \<Rightarrow> raised + pyval) \<Rightarrow> cloud_config \<Rightarrow> raised + real" where
  "do_estimate request c =
     (case request ''GET'' ''/sizes'' of
        Inl x \<Rightarrow> if fst x = ''DigitalOceanError'' then Inr 0 else Inl x
      | Inr v \<Rightarrow>
          (case find (\<lambda>z. pget (pdict z) ''slug'' = PStr (cc_size c)) (plist (pget (pdict v) ''sizes'')) of
             None \<Rightarrow> Inr 0
           | Some z \<Rightarrow> Inr (price_of (pget (pdict z) ''price_monthly''))))"

section \<open>The commands\<close>

definition cd_say :: "string \<Rightarrow> string \<Rightarrow> cloud \<Rightarrow> cloud" where
  "cd_say chat txt s = s\<lparr>cd_telegram := emit (Say chat (Text txt)) (cd_telegram s)\<rparr>"

definition cd_publish :: "string \<Rightarrow> (string \<times> pyval) list \<Rightarrow> cloud \<Rightarrow> cloud" where
  "cd_publish name payload s = s\<lparr>cd_events := cd_events s @ [(name, payload)]\<rparr>"

definition ask_cloud :: "string \<Rightarrow> string \<Rightarrow> string \<Rightarrow> real \<Rightarrow> cloud_action \<Rightarrow> cloud \<Rightarrow> raised option \<times> cloud" where
  "ask_cloud chat i desc now act s =
     (let (res, g) = request_approval chat i desc now (cd_telegram s) in
      (case res of
         Inl m \<Rightarrow> Some (if is_admin_chat chat (cd_telegram s) then ''ValueError'' else ''PermissionError'', m)
       | Inr _ \<Rightarrow> None,
       s\<lparr>cd_telegram := g,
         cd_callbacks := (if entered i (cd_telegram s) g then dset i (chat, act) (cd_callbacks s) else cd_callbacks s)\<rparr>))"

definition cloud_usage :: string where
  "cloud_usage = ''Usage: /configure_cloud provider=digitalocean region=nyc3 size=s-1vcpu-1gb max_instances=2 budget_cap=20 source_fetch_cmd=...''"

text \<open>\<open>dict(kv.split('=', 1) for kv in words)\<close>; a word without an equals sign raises.\<close>

fun word_pairs :: "string list \<Rightarrow> (string, string) dict \<Rightarrow> (string, string) dict option" where
  "word_pairs [] d = Some d"
| "word_pairs (w # ws) d =
     (if CHR ''='' \<in> set w
      then word_pairs ws (dset (takeWhile (\<lambda>c. c \<noteq> CHR ''='') w) (tl (dropWhile (\<lambda>c. c \<noteq> CHR ''='') w)) d)
      else None)"

definition read_config :: "cloud_env \<Rightarrow> string \<Rightarrow> (string, string) dict \<Rightarrow> (cloud_config \<times> string) option" where
  "read_config e provider d =
     (case (dget d ''source_fetch_cmd'', ce_token e provider) of
        (Some cmd, Some (t # ok)) \<Rightarrow>
          (case (dget d ''region'', dget d ''size'', Option.bind (dget d ''max_instances'') (ce_int e),
                 Option.bind (dget d ''budget_cap'') (ce_float e)) of
             (Some region, Some sz, Some m, Some b) \<Rightarrow>
               Some (\<lparr>cc_provider = provider, cc_token = t # ok, cc_region = region, cc_size = sz, cc_max = m,
                      cc_budget = b, cc_user_data = []\<rparr>, cmd)
           | _ \<Rightarrow> None)
      | _ \<Rightarrow> None)"

definition cmd_configure :: "cloud_env \<Rightarrow> string \<Rightarrow> string \<Rightarrow> cloud \<Rightarrow> cloud" where
  "cmd_configure e chat args s =
     (case shlex_split args of
        Inl _ \<Rightarrow> cd_say chat cloud_usage s
      | Inr ws \<Rightarrow>
          (case word_pairs ws [] of
             None \<Rightarrow> cd_say chat cloud_usage s
           | Some d \<Rightarrow>
               (case dget d ''provider'' of
                  None \<Rightarrow> cd_say chat cloud_usage s
                | Some p0 \<Rightarrow>
                    (let p = py_lower p0 in
                     if p \<noteq> ''digitalocean'' then cd_say chat (''Unknown provider '' @ p) s
                     else
                       (case read_config e p d of
                          None \<Rightarrow> cd_say chat cloud_usage s
                        | Some (c, cmd) \<Rightarrow>
                            cd_say chat (''Cloud configured: '' @ p)
                              (cd_publish ''cloud.configured''
                                 [(''provider'', PStr p), (''region'', PStr (cc_region c)), (''max_instances'', PInt (cc_max c)),
                                  (''budget_cap_usd_per_month'', PFloat (cc_budget c))]
                                 (s\<lparr>cd_config := Some c, cd_source := Some cmd\<rparr>)))))))"

definition node_name :: "cloud_env \<Rightarrow> string \<Rightarrow> string \<Rightarrow> string" where
  "node_name e role rest =
     (if py_strip rest \<noteq> [] then py_strip rest else ''reus-'' @ role @ ''-'' @ show_int \<lfloor>ce_now e\<rfloor>)"

definition deploy_text :: "cloud_env \<Rightarrow> deployment_proposal \<Rightarrow> hosting_offer \<Rightarrow> string \<Rightarrow> string" where
  "deploy_text e p off role =
     ''Create '' @ dp_name p @ '' on '' @ dp_provider p @ '' ('' @ dp_region p @ '', '' @ dp_size p @ '') Estimated cost: '' @
     ce_money e (dp_cost p) @ '' Current usage: '' @ show_int (dp_count p) @ '' instance(s), '' @ ce_money e (dp_spend p) @
     '' Role: '' @ role @ (case ce_seed e of Some (c # u) \<Rightarrow> '' joins through '' @ (c # u) | _ \<Rightarrow> '' independent'') @
     '' This confirmation authorizes one creation only: '' @ ho_provider off @ '', '' @ ho_plan off @ '', '' @ ho_region off @
     '', '' @ ce_money e (of_int (ho_price off) / 100)"

definition cmd_deploy :: "cloud_env \<Rightarrow> string \<Rightarrow> string \<Rightarrow> cloud \<Rightarrow> raised option \<times> cloud" where
  "cmd_deploy e chat args s =
     (if cd_config s = None then (None, cd_say chat ''Cloud is not configured yet. Use /configure_cloud first.'' s)
      else
        (let trimmed = dropWhile is_space args; role = first_word trimmed; rest = rest_of trimmed in
         if role \<notin> set node_role_ids then (None, cd_say chat ''Usage: /deploy_node <role_id> [name]'' s)
         else
           (let name = node_name e role rest in
            case propose_new_instance e name (cd_config s) of
              Inl x \<Rightarrow>
                if fst x = ''CloudLimitExceeded''
                then (None, cd_say chat (''Deployment rejected: '' @ snd x)
                        (cd_publish ''cloud.deploy_rejected'' [(''name'', PStr name), (''role_id'', PStr role), (''reason'', PStr (snd x))] s))
                else (Some x, s)
            | Inr p \<Rightarrow>
                (let off = purchase_offer p in
                 case request_purchase (ce_sha e) (ce_auth e) off 300 (ce_gate e) (cd_gate s) of
                   (Inl m, g) \<Rightarrow> (Some (''HostingGovernanceError'', m), s\<lparr>cd_gate := g\<rparr>)
                 | (Inr a, g) \<Rightarrow>
                     (let s1 = s\<lparr>cd_gate := g\<rparr> in
                      case cd_source s1 of
                        Some (f # fetch) \<Rightarrow>
                          (case build_node_cloud_init_script role (f # fetch) (ce_seed e) of
                             Inl x \<Rightarrow> (None, cd_say chat (''Startup script could not be generated: '' @ snd x) s1)
                           | Inr script \<Rightarrow>
                               ask_cloud chat (''deploy-'' @ ce_uuid e) (deploy_text e p off role) (ce_now e)
                                 (Deploy name role script a off) s1)
                      | _ \<Rightarrow> (None, cd_say chat ''source_fetch_cmd is not configured. Run /configure_cloud again and include it.'' s1))))))"

definition deploy_result :: "string \<Rightarrow> string \<Rightarrow> string \<Rightarrow> raised + instance_info \<Rightarrow> cloud \<Rightarrow> cloud" where
  "deploy_result chat name role res s =
     (case res of
        Inl x \<Rightarrow>
          cd_say chat (''Deployment failed: '' @ snd x)
            (cd_publish ''cloud.deploy_failed'' [(''name'', PStr name), (''role_id'', PStr role), (''error'', PStr (snd x))] s)
      | Inr i \<Rightarrow>
          cd_say chat (''Deployed: '' @ in_name i @ '' ('' @ in_id i @ '') role='' @ role @ '' on '' @ in_provider i)
            (cd_publish ''cloud.instance_deployed''
               [(''name'', PStr (in_name i)), (''id'', PStr (in_id i)), (''role_id'', PStr role), (''provider'', PStr (in_provider i)),
                (''monthly_cost_usd'', PFloat (in_cost i))] s))"

definition execute_deploy ::
    "cloud_env \<Rightarrow> string \<Rightarrow> string \<Rightarrow> string \<Rightarrow> string \<Rightarrow> authorization \<Rightarrow> hosting_offer \<Rightarrow> cloud \<Rightarrow> raised option \<times> cloud" where
  "execute_deploy e chat name role script a off s =
     (case set_user_data script s of
        (Some x, s1) \<Rightarrow> set_user_data [] (deploy_result chat name role (Inl x) s1)
      | (None, s1) \<Rightarrow>
          (let (res, s2) = execute_new_instance e name a off s1 in set_user_data [] (deploy_result chat name role res s2)))"

definition approve_deploy ::
    "cloud_env \<Rightarrow> string \<Rightarrow> string \<Rightarrow> string \<Rightarrow> string \<Rightarrow> authorization \<Rightarrow> hosting_offer \<Rightarrow> cloud \<Rightarrow> raised option \<times> cloud" where
  "approve_deploy e chat name role script a off s =
     (case approve_purchase (ce_sha e) a off (ce_gate e) (cd_gate s) of
        (Inl m, g) \<Rightarrow> (None, cd_say chat (''Deployment approval could not be used: '' @ m) (s\<lparr>cd_gate := g\<rparr>))
      | (Inr b, g) \<Rightarrow> execute_deploy e chat name role script b off (s\<lparr>cd_gate := g\<rparr>))"

definition cancel_deploy :: "cloud_env \<Rightarrow> string \<Rightarrow> string \<Rightarrow> authorization \<Rightarrow> cloud \<Rightarrow> cloud" where
  "cancel_deploy e chat name a s =
     cd_say chat (''Deployment of '' @ name @ '' was cancelled.'') (s\<lparr>cd_gate := snd (cancel_purchase a (ce_gate e) (cd_gate s))\<rparr>)"

definition cmd_list_nodes :: "cloud_env \<Rightarrow> string \<Rightarrow> cloud \<Rightarrow> raised option \<times> cloud" where
  "cmd_list_nodes e chat s =
     (case cd_config s of
        None \<Rightarrow> (None, cd_say chat ''Cloud is not configured yet.'' s)
      | Some c \<Rightarrow>
          (case ce_list e c of
             Inl x \<Rightarrow> (Some x, s)
           | Inr is \<Rightarrow>
               (None, cd_say chat
                  (if is = [] then ''No cloud nodes exist.''
                   else join_sep [CHR 0x0A] (map (\<lambda>i. in_name i @ '' ('' @ in_id i @ ''): '' @ in_status i @ '', '' @
                     (case in_ip i of Some (x # ip) \<Rightarrow> x # ip | _ \<Rightarrow> ''no IP yet'') @ '', $'' @ ce_money e (in_cost i) @ ''/month'') is)) s)))"

definition cmd_destroy :: "cloud_env \<Rightarrow> string \<Rightarrow> string \<Rightarrow> cloud \<Rightarrow> raised option \<times> cloud" where
  "cmd_destroy e chat args s =
     (let i = py_strip args in
      if i = [] then (None, cd_say chat ''Usage: /destroy_node <instance_id>'' s)
      else if cd_config s = None then (None, cd_say chat ''Cloud is not configured yet.'' s)
      else ask_cloud chat (''destroy-'' @ ce_uuid e) (''Delete node '' @ i @ ''? This action is irreversible.'') (ce_now e) (Destroy i) s)"

definition execute_destroy :: "cloud_env \<Rightarrow> string \<Rightarrow> string \<Rightarrow> cloud \<Rightarrow> raised option \<times> cloud" where
  "execute_destroy e chat i s =
     (case destroy_instance e i s of
        (None, s1) \<Rightarrow>
          (None, cd_say chat (''Node '' @ i @ '' was deleted.'') (cd_publish ''cloud.instance_destroyed'' [(''instance_id'', PStr i)] s1))
      | (Some x, s1) \<Rightarrow>
          (None, cd_say chat (''Deletion failed: '' @ snd x)
             (cd_publish ''cloud.destroy_failed'' [(''instance_id'', PStr i), (''error'', PStr (snd x))] s1)))"

fun run_action :: "cloud_env \<Rightarrow> string \<times> cloud_action \<Rightarrow> cloud \<Rightarrow> raised option \<times> cloud" where
  "run_action e (chat, Deploy name role script a off) s = approve_deploy e chat name role script a off s"
| "run_action e (chat, Destroy i) s = execute_destroy e chat i s"

fun decline_action :: "cloud_env \<Rightarrow> string \<times> cloud_action \<Rightarrow> cloud \<Rightarrow> cloud" where
  "decline_action e (chat, Deploy name role script a off) s = cancel_deploy e chat name a s"
| "decline_action e (chat, Destroy i) s = cd_say chat (''Deletion of '' @ i @ '' was cancelled.'') s"

definition answer_cloud :: "cloud_env \<Rightarrow> string \<Rightarrow> string \<Rightarrow> bool \<Rightarrow> real \<Rightarrow> real \<Rightarrow> cloud \<Rightarrow> cloud" where
  "answer_cloud e chat args approved t1 t2 =
     answer_gate cd_telegram (\<lambda>g s. s\<lparr>cd_telegram := g\<rparr>) cd_callbacks (run_action e) (decline_action e) chat args approved t1 t2"

end
