(* ===== verification/Cloud_Props.thy ===== *)
theory Cloud_Props
  imports Cloud Hosting_Props Approval_Props
begin

text \<open>
  The cloud commands as a machine of commands, answers and restarts. A node is created only by
  the confirmation of a deployment that was within the limits when it was proposed, and every
  creation uses up one purchase authorization; the limits are not looked at again when the
  deployment is executed.
\<close>

datatype cloud_op =
    CConfigure cloud_env string string
  | CDeploy cloud_env string string
  | CList cloud_env string
  | CDestroy cloud_env string string
  | CAnswer cloud_env string string bool real real
  | CRestart telegram

fun cloud_step :: "cloud \<Rightarrow> cloud_op \<Rightarrow> cloud" where
  "cloud_step s (CConfigure e chat args) = cmd_configure e chat args s"
| "cloud_step s (CDeploy e chat args) = snd (cmd_deploy e chat args s)"
| "cloud_step s (CList e chat) = snd (cmd_list_nodes e chat s)"
| "cloud_step s (CDestroy e chat args) = snd (cmd_destroy e chat args s)"
| "cloud_step s (CAnswer e chat args ok t1 t2) = answer_cloud e chat args ok t1 t2 s"
| "cloud_step s (CRestart g) =
     s\<lparr>cd_config := None, cd_source := None, cd_gate := (cd_gate s)\<lparr>pg_current := []\<rparr>, cd_telegram := g, cd_callbacks := []\<rparr>"

section \<open>What operations keep\<close>

named_theorems cloud_simps \<open>what the helpers of the commands keep\<close>

lemma cd_say_keeps [cloud_simps]:
  "cd_created (cd_say c t s) = cd_created s" "cd_config (cd_say c t s) = cd_config s" "cd_gate (cd_say c t s) = cd_gate s"
  "cd_callbacks (cd_say c t s) = cd_callbacks s" "cd_source (cd_say c t s) = cd_source s"
  by (simp_all add: cd_say_def)

lemma cd_publish_keeps [cloud_simps]:
  "cd_created (cd_publish n p s) = cd_created s" "cd_config (cd_publish n p s) = cd_config s" "cd_gate (cd_publish n p s) = cd_gate s"
  "cd_callbacks (cd_publish n p s) = cd_callbacks s" "cd_source (cd_publish n p s) = cd_source s"
  by (simp_all add: cd_publish_def)

lemma deploy_result_keeps [cloud_simps]:
  "cd_created (deploy_result c n r res s) = cd_created s" "cd_config (deploy_result c n r res s) = cd_config s"
  "cd_gate (deploy_result c n r res s) = cd_gate s" "cd_callbacks (deploy_result c n r res s) = cd_callbacks s"
  by (simp_all add: deploy_result_def cloud_simps split: sum.split)

lemma ask_cloud_keeps [cloud_simps]:
  "cd_created (snd (ask_cloud c i d now act s)) = cd_created s" "cd_config (snd (ask_cloud c i d now act s)) = cd_config s"
  "cd_gate (snd (ask_cloud c i d now act s)) = cd_gate s"
  by (simp_all add: ask_cloud_def split: prod.split)

lemma ask_cloud_callbacks:
  "dget (cd_callbacks (snd (ask_cloud c i d now act s))) j = Some b \<Longrightarrow> dget (cd_callbacks s) j = Some b \<or> b = (c, act)"
  by (auto simp: ask_cloud_def dget_dset split: prod.splits if_splits)

lemma set_user_data_keeps [cloud_simps]:
  "cd_created (snd (set_user_data u s)) = cd_created s" "cd_gate (snd (set_user_data u s)) = cd_gate s"
  "cd_callbacks (snd (set_user_data u s)) = cd_callbacks s"
  by (simp_all add: set_user_data_def split: option.split)

text \<open>An executed deployment either creates nothing and consumes nothing, or both.\<close>

lemma execute_deploy_cases:
  obtains (none) "cd_created (snd (execute_deploy e chat name role script a off s)) = cd_created s"
      "cd_gate (snd (execute_deploy e chat name role script a off s)) = cd_gate s \<or>
       (\<exists>m. consume_purchase (ce_sha e) a off (ce_gate2 e) (cd_gate s) = (Inl m, cd_gate (snd (execute_deploy e chat name role script a off s))))"
  | (created) c b where "cd_config s = Some c"
      "consume_purchase (ce_sha e) a off (ce_gate2 e) (cd_gate s) =
         (Inr b, cd_gate (snd (execute_deploy e chat name role script a off s)))"
      "cd_created (snd (execute_deploy e chat name role script a off s)) = cd_created s @ [(name, c\<lparr>cc_user_data := script\<rparr>)]"
proof (cases "cd_config s")
  case None
  then show ?thesis by (intro none) (simp_all add: execute_deploy_def set_user_data_def cloud_simps)
next
  case (Some c)
  have s1: "set_user_data script s = (None, s\<lparr>cd_config := Some (c\<lparr>cc_user_data := script\<rparr>)\<rparr>)"
    using Some by (simp add: set_user_data_def)
  obtain r g where g: "consume_purchase (ce_sha e) a off (ce_gate2 e) (cd_gate s) = (r, g)"
    by (cases "consume_purchase (ce_sha e) a off (ce_gate2 e) (cd_gate s)")
  show ?thesis
  proof (cases r)
    case (Inl m)
    then show ?thesis using s1 g by (intro none) (simp_all add: execute_deploy_def execute_new_instance_def cloud_simps)
  next
    case (Inr b)
    then show ?thesis using s1 g
      by (intro created [OF Some, of b]) (simp_all add: execute_deploy_def execute_new_instance_def cloud_simps)
  qed
qed

text \<open>A deployment callback comes from a deployment command that was within the limits.\<close>

definition within_limits :: "cloud_env \<Rightarrow> cloud_config \<Rightarrow> bool" where
  "within_limits e c \<longleftrightarrow>
     (\<exists>is cost. ce_list e c = Inr is \<and> int (length is) < cc_max c \<and> ce_estimate e c = Inr cost \<and>
        sum_list (map in_cost is) + cost \<le> cc_budget c)"

definition proposed :: "cloud_env \<Rightarrow> cloud \<Rightarrow> string \<Rightarrow> hosting_offer \<Rightarrow> bool" where
  "proposed e s name off \<longleftrightarrow>
     (\<exists>c p. cd_config s = Some c \<and> within_limits e c \<and> propose_new_instance e name (Some c) = Inr p \<and> off = purchase_offer p)"

lemma propose_within:
  "propose_new_instance e name (Some c) = Inr p \<Longrightarrow> within_limits e c"
  by (auto simp: propose_new_instance_def current_usage_def within_limits_def not_le not_less split: sum.splits if_splits)

lemma deploy_callback:
  assumes "dget (cd_callbacks (snd (cmd_deploy e chat args s))) j = Some (c, Deploy name role script a off)"
  shows "dget (cd_callbacks s) j = Some (c, Deploy name role script a off) \<or> c = chat \<and> proposed e s name off"
proof (cases "cd_config s")
  case None
  then show ?thesis using assms by (simp add: cmd_deploy_def cloud_simps)
next
  case (Some cfg)
  show ?thesis
  proof (cases "first_word (dropWhile is_space args) \<in> set node_role_ids")
    case False
    then show ?thesis using assms Some by (simp add: cmd_deploy_def Let_def cloud_simps)
  next
    case role: True
    let ?role = "first_word (dropWhile is_space args)" and ?name = "node_name e (first_word (dropWhile is_space args)) (rest_of (dropWhile is_space args))"
    show ?thesis
    proof (cases "propose_new_instance e ?name (Some cfg)")
      case (Inl x)
      then show ?thesis using assms Some role by (auto simp: cmd_deploy_def Let_def cloud_simps split: if_splits)
    next
      case p: (Inr p)
      obtain r g where g: "request_purchase (ce_sha e) (ce_auth e) (purchase_offer p) 300 (ce_gate e) (cd_gate s) = (r, g)"
        by (cases "request_purchase (ce_sha e) (ce_auth e) (purchase_offer p) 300 (ce_gate e) (cd_gate s)")
      show ?thesis
        using assms Some role p g propose_within [OF p]
        by (auto simp: cmd_deploy_def Let_def cloud_simps proposed_def dest!: ask_cloud_callbacks
            split: sum.splits option.splits list.splits)
    qed
  qed
qed


lemma deploy_keeps:
  "cd_created (snd (cmd_deploy e chat args s)) = cd_created s \<and> cd_config (snd (cmd_deploy e chat args s)) = cd_config s"
  "cd_gate (snd (cmd_deploy e chat args s)) = cd_gate s \<or>
   (\<exists>off r. request_purchase (ce_sha e) (ce_auth e) off 300 (ce_gate e) (cd_gate s) = (r, cd_gate (snd (cmd_deploy e chat args s))))"
  by (auto simp: cmd_deploy_def Let_def cloud_simps split: sum.split prod.split option.split list.split)

lemma approve_deploy_cases:
  obtains (none) "cd_created (snd (approve_deploy e chat name role script a off s)) = cd_created s"
  | (created) c where "cd_config s = Some c"
      "cd_created (snd (approve_deploy e chat name role script a off s)) = cd_created s @ [(name, c\<lparr>cc_user_data := script\<rparr>)]"
proof -
  obtain r g where g: "approve_purchase (ce_sha e) a off (ce_gate e) (cd_gate s) = (r, g)"
    by (cases "approve_purchase (ce_sha e) a off (ce_gate e) (cd_gate s)")
  show ?thesis
  proof (cases r)
    case (Inl m)
    then show ?thesis using g by (intro none) (simp add: approve_deploy_def cloud_simps)
  next
    case (Inr b)
    then have "approve_deploy e chat name role script a off s = execute_deploy e chat name role script b off (s\<lparr>cd_gate := g\<rparr>)"
      using g by (simp add: approve_deploy_def)
    then show ?thesis
      using none created by (cases rule: execute_deploy_cases [of e chat name role script b off "s\<lparr>cd_gate := g\<rparr>"]) simp_all
  qed
qed

lemma destroy_keeps [cloud_simps]:
  "cd_created (snd (cmd_destroy e chat args s)) = cd_created s" "cd_gate (snd (cmd_destroy e chat args s)) = cd_gate s"
  "cd_config (snd (cmd_destroy e chat args s)) = cd_config s"
  "cd_created (snd (execute_destroy e chat i s)) = cd_created s" "cd_gate (snd (execute_destroy e chat i s)) = cd_gate s"
  "cd_callbacks (snd (execute_destroy e chat i s)) = cd_callbacks s"
  by (auto simp: cmd_destroy_def execute_destroy_def destroy_instance_def Let_def cloud_simps split: option.splits prod.splits)

lemma configure_keeps [cloud_simps]:
  "cd_created (cmd_configure e chat args s) = cd_created s" "cd_gate (cmd_configure e chat args s) = cd_gate s"
  "cd_callbacks (cmd_configure e chat args s) = cd_callbacks s"
  by (simp_all add: cmd_configure_def Let_def cloud_simps split: sum.split option.split prod.split)

lemma list_keeps [cloud_simps]:
  "cd_created (snd (cmd_list_nodes e chat s)) = cd_created s" "cd_gate (snd (cmd_list_nodes e chat s)) = cd_gate s"
  "cd_callbacks (snd (cmd_list_nodes e chat s)) = cd_callbacks s"
  by (simp_all add: cmd_list_nodes_def cloud_simps split: sum.split option.split)

lemma approve_callbacks: "cd_callbacks (snd (approve_deploy e chat name role script a off s)) = cd_callbacks s"
  by (cases "cd_config s")
    (auto simp: approve_deploy_def execute_deploy_def execute_new_instance_def set_user_data_def Let_def cloud_simps
      split: prod.split sum.split option.split)

interpretation cloud_gate: gate_client cd_telegram "\<lambda>g s. s\<lparr>cd_telegram := g\<rparr>" cd_callbacks "decline_action e"
    "\<lambda>s. (cd_created s, cd_config s)" for e
proof
  show "(cd_created (decline_action e c s), cd_config (decline_action e c s)) = (cd_created s, cd_config s)" for c s
    by (cases "(e, c, s)" rule: decline_action.cases) (simp_all add: cancel_deploy_def cloud_simps)
qed simp

lemma answer_callbacks: "cd_callbacks (answer_cloud e chat args ok t1 t2 s) = cd_callbacks s"
proof -
  have "cd_callbacks (decline_action e c s) = cd_callbacks s" for c s
    by (cases "(e, c, s)" rule: decline_action.cases) (simp_all add: cancel_deploy_def cloud_simps)
  moreover have "cd_callbacks (snd (run_action e c s)) = cd_callbacks s" for c s
    by (cases "(e, c, s)" rule: run_action.cases) (simp_all add: cloud_simps approve_callbacks)
  ultimately show ?thesis
    unfolding answer_cloud_def by (intro gate_answer_keeps [of "\<lambda>t. cd_callbacks t = cd_callbacks s"]) simp_all
qed

lemma creation_cases:
  assumes "cd_created (cloud_step s x) \<noteq> cd_created s"
  obtains e chat args t1 t2 p g c name role script a off cfg where "x = CAnswer e chat args True t1 t2"
    "take_pending chat args t1 t2 (cd_telegram s) = (Some p, g)" "pa_chat p = chat" "t2 < pa_expires p"
    "dget (cd_callbacks s) (py_strip args) = Some (c, Deploy name role script a off)" "cd_config s = Some cfg"
    "cd_created (cloud_step s x) = cd_created s @ [(name, cfg\<lparr>cc_user_data := script\<rparr>)]"
proof (cases x)
  case (CAnswer e chat args ok t1 t2)
  let ?t = "answer_cloud e chat args ok t1 t2 s"
  consider (idle) "(cd_created ?t, cd_config ?t) = (cd_created s, cd_config s)"
    | (executed) p g b s1 res s2 where "ok" "take_pending chat args t1 t2 (cd_telegram s) = (Some p, g)"
      "dget (cd_callbacks s) (py_strip args) = Some b" "(cd_created s1, cd_config s1) = (cd_created s, cd_config s)"
      "run_action e b s1 = (res, s2)" "(cd_created ?t, cd_config ?t) = (cd_created s2, cd_config s2)"
    unfolding answer_cloud_def
    by (rule cloud_gate.answer_cases [where e = e and execute = "run_action e" and chat = chat and args = args and ok = ok
          and ?t1.0 = t1 and ?t2.0 = t2 and s = s])
  then show ?thesis
  proof cases
    case idle
    then show ?thesis using assms CAnswer by simp
  next
    case (executed p g b s1 res s2)
    note tk = take_SomeD [OF executed(2)]
    have s1: "cd_created s1 = cd_created s" "cd_config s1 = cd_config s" and s2: "cd_created (cloud_step s x) = cd_created s2"
      using executed(4,6) CAnswer by simp_all
    obtain c act where b: "b = (c, act)" by (cases b)
    show ?thesis
    proof (cases act)
      case (Destroy i)
      then show ?thesis using executed(5) b s1 s2 assms cloud_simps by (metis run_action.simps(2) snd_conv)
    next
      case (Deploy name role script a off)
      have ex: "approve_deploy e c name role script a off s1 = (res, s2)" using executed(5) b Deploy by simp
      show ?thesis
      proof (cases rule: approve_deploy_cases [of e c name role script a off s1])
        case none
        then show ?thesis using ex s1 s2 assms by simp
      next
        case (created cfg)
        show ?thesis
          by (rule that [of e chat args t1 t2 p g c name role script a off cfg])
            (use executed(1-3) tk created ex s1 s2 b Deploy CAnswer in simp_all)
      qed
    qed
  qed
qed (use assms deploy_keeps cloud_simps in simp_all)

lemma callback_origin:
  assumes "cd_callbacks s = []"
    and "dget (cd_callbacks (run cloud_step s ops)) i = Some (c, Deploy name role script a off)"
  shows "\<exists>before e args after. ops = before @ CDeploy e c args # after \<and> proposed e (run cloud_step s before) name off"
  using assms(2)
proof (induction ops rule: rev_induct)
  case Nil
  then show ?case using assms(1) by simp
next
  case (snoc x ops)
  let ?s = "run cloud_step s ops"
  have old: ?case if mem: "dget (cd_callbacks ?s) i = Some (c, Deploy name role script a off)"
  proof -
    obtain before e args after where "ops = before @ CDeploy e c args # after" "proposed e (run cloud_step s before) name off"
      using snoc.IH [OF mem] by blast
    then show ?thesis by (intro exI [of _ before] exI [of _ e] exI [of _ args] exI [of _ "after @ [x]"]) simp
  qed
  have now: "dget (cd_callbacks (cloud_step ?s x)) i = Some (c, Deploy name role script a off)" using snoc.prems by (simp add: run_append)
  show ?case
  proof (cases x)
    case (CDeploy e chat args)
    then have "dget (cd_callbacks ?s) i = Some (c, Deploy name role script a off) \<or> c = chat \<and> proposed e ?s name off"
      using deploy_callback now by simp
    then show ?thesis
    proof
      assume "c = chat \<and> proposed e ?s name off"
      then show ?thesis using CDeploy by (intro exI [of _ ops] exI [of _ e] exI [of _ args] exI [of _ "[]"]) simp
    qed (rule old)
  next
    case (CDestroy e chat args)
    have "dget (cd_callbacks ?s) i = Some (c, Deploy name role script a off)"
      using now CDestroy by (auto simp: cmd_destroy_def Let_def cloud_simps dest!: ask_cloud_callbacks split: if_splits)
    then show ?thesis by (rule old)
  qed (use now old answer_callbacks cloud_simps in simp_all)
qed

text \<open>The chat that may confirm a pending action is the chat of its callback.\<close>

definition chats_agree :: "cloud \<Rightarrow> bool" where
  "chats_agree s \<longleftrightarrow>
     (\<forall>i p b. dget (tg_pending (cd_telegram s)) i = Some p \<longrightarrow> dget (cd_callbacks s) i = Some b \<longrightarrow> pa_chat p = fst b)"

abbreviation asks :: "cloud \<Rightarrow> (string, pending_approval) dict" where
  "asks s \<equiv> tg_pending (cd_telegram s)"

lemma asks_keep [cloud_simps]:
  "asks (cd_say c t s) = asks s" "asks (cd_publish n p s) = asks s" "asks (deploy_result c n r res s) = asks s"
  "asks (snd (set_user_data u s)) = asks s"
  by (simp_all add: cd_say_def cd_publish_def deploy_result_def set_user_data_def emit_def split: sum.split option.split)

lemma run_asks: "asks (snd (run_action e b s)) = asks s"
  by (cases "(e, b, s)" rule: run_action.cases; cases "cd_config s")
    (auto simp: approve_deploy_def execute_deploy_def execute_new_instance_def execute_destroy_def destroy_instance_def
      set_user_data_def Let_def cloud_simps split: prod.split sum.split option.split)

lemma decline_asks: "asks (decline_action e b s) = asks s"
  by (cases "(e, b, s)" rule: decline_action.cases) (simp_all add: cancel_deploy_def cloud_simps)

lemma agree_keeps:
  assumes "chats_agree s" "asks t = asks s" "cd_callbacks t = cd_callbacks s"
  shows "chats_agree t"
  using assms by (simp add: chats_agree_def)

lemma request_pending:
  assumes "request_approval chat i d now g = (res, g')"
  shows "tg_pending g' = tg_pending g \<or>
     i \<notin> set (dkeys (tg_pending g)) \<and>
     tg_pending g' = dset i \<lparr>pa_id = i, pa_description = d, pa_chat = chat, pa_created = now, pa_expires = now + tg_ttl g\<rparr>
       (tg_pending g)"
  using assms by (auto simp: request_approval_def Let_def emit_def split: if_splits option.splits prod.splits sum.splits)

lemma ask_agree:
  assumes "chats_agree s"
  shows "chats_agree (snd (ask_cloud chat i d now act s))"
proof -
  obtain res g where g: "request_approval chat i d now (cd_telegram s) = (res, g)"
    by (cases "request_approval chat i d now (cd_telegram s)")
  show ?thesis
    using request_pending [OF g] assms g
    by (auto simp: ask_cloud_def chats_agree_def entered_def dget_dset dict_simps split: if_splits)
qed

lemma step_agree:
  assumes "chats_agree s"
  shows "chats_agree (cloud_step s x)"
proof (cases x)
  case (CDeploy e chat args)
  have "chats_agree (s\<lparr>cd_gate := g\<rparr>)" for g using assms by (simp add: chats_agree_def)
  then show ?thesis
    using assms CDeploy
    by (auto simp: cmd_deploy_def Let_def cloud_simps intro!: ask_agree agree_keeps [OF assms]
        split: sum.split prod.split option.split list.split)
next
  case (CDestroy e chat args)
  then show ?thesis
    using assms by (auto simp: cmd_destroy_def Let_def cloud_simps intro!: ask_agree agree_keeps [OF assms])
next
  case (CAnswer e chat args ok t1 t2)
  have less: "dget (asks (answer_cloud e chat args ok t1 t2 s)) j = Some p \<Longrightarrow> dget (asks s) j = Some p" for j p
    unfolding answer_cloud_def
    by (rule answer_pending_less [where get = cd_telegram and decline = "decline_action e" and execute = "run_action e"])
      (simp_all add: run_asks decline_asks)
  show ?thesis using assms less CAnswer by (auto simp: chats_agree_def answer_callbacks)
next
  case (CRestart g)
  then show ?thesis by (simp add: chats_agree_def)
next
  case (CConfigure e chat args)
  then show ?thesis
    by (auto simp: cmd_configure_def Let_def cloud_simps intro!: agree_keeps [OF assms] split: sum.split option.split prod.split)
next
  case (CList e chat)
  then show ?thesis
    by (auto simp: cmd_list_nodes_def cloud_simps intro!: agree_keeps [OF assms] split: sum.split option.split)
qed

lemma run_agree: "cd_callbacks s = [] \<Longrightarrow> chats_agree (run cloud_step s ops)"
  by (induction ops rule: rev_induct) (simp_all add: chats_agree_def [of s] run_append step_agree)

text \<open>
  C32: a cloud node is created only by the confirmation of its deployment: an administrator's chat
  approves, in time, a deployment that the same chat asked for earlier, with this name and start-up script; the
  deployment was within the limit of instances and the budget when it was proposed, and the node
  is created with the configuration in force at the confirmation.
\<close>

theorem creation_needs_confirmation:
  assumes "cd_callbacks s = []"
    and "cd_created (cloud_step (run cloud_step s ops) x) \<noteq> cd_created (run cloud_step s ops)"
  shows "\<exists>e chat args t1 t2 p g name role script a off cfg before e0 args0 after.
     x = CAnswer e chat args True t1 t2 \<and>
     take_pending chat args t1 t2 (cd_telegram (run cloud_step s ops)) = (Some p, g) \<and> pa_chat p = chat \<and> t2 < pa_expires p \<and>
     dget (cd_callbacks (run cloud_step s ops)) (py_strip args) = Some (chat, Deploy name role script a off) \<and>
     ops = before @ CDeploy e0 chat args0 # after \<and> proposed e0 (run cloud_step s before) name off \<and>
     cd_config (run cloud_step s ops) = Some cfg \<and>
     cd_created (cloud_step (run cloud_step s ops) x) =
       cd_created (run cloud_step s ops) @ [(name, cfg\<lparr>cc_user_data := script\<rparr>)]"
proof -
  obtain e chat args t1 t2 p g c name role script a off cfg where x: "x = CAnswer e chat args True t1 t2"
    "take_pending chat args t1 t2 (cd_telegram (run cloud_step s ops)) = (Some p, g)" "pa_chat p = chat" "t2 < pa_expires p"
    "dget (cd_callbacks (run cloud_step s ops)) (py_strip args) = Some (c, Deploy name role script a off)"
    "cd_config (run cloud_step s ops) = Some cfg"
    "cd_created (cloud_step (run cloud_step s ops) x) =
       cd_created (run cloud_step s ops) @ [(name, cfg\<lparr>cc_user_data := script\<rparr>)]"
    using creation_cases [OF assms(2)] .
  have "dget (tg_pending (cd_telegram (run cloud_step s ops))) (py_strip args) = Some p" using take_SomeD [OF x(2)] by simp
  then have "c = chat" using run_agree [OF assms(1), of ops] x(3,5) by (auto simp: chats_agree_def)
  then show ?thesis using x callback_origin [OF assms(1) x(5)] by blast
qed

definition demo_config :: cloud_config where
  "demo_config = \<lparr>cc_provider = ''digitalocean'', cc_token = ''t'', cc_region = ''nyc3'', cc_size = ''s'', cc_max = 1,
     cc_budget = 20, cc_user_data = []\<rparr>"

definition demo_server :: instance_info where
  "demo_server = \<lparr>in_id = ''1'', in_name = ''n'', in_provider = ''digitalocean'', in_region = ''nyc3'', in_size = ''s'',
     in_status = ''new'', in_ip = None, in_cost = 5\<rparr>"

definition demo_cloud_env :: cloud_env where
  "demo_cloud_env = \<lparr>ce_sha = id, ce_now = 10, ce_gate = 10, ce_gate2 = 10, ce_auth = ''a1'', ce_uuid = ''u1'',
     ce_token = (\<lambda>_. Some ''t''), ce_seed = None, ce_int = (\<lambda>_. Some 1), ce_float = (\<lambda>_. Some 20), ce_money = (\<lambda>_. ''5''),
     ce_list = (\<lambda>_. Inr []), ce_estimate = (\<lambda>_. Inr 5), ce_create = (\<lambda>_ _. Inr demo_server), ce_destroy = (\<lambda>_ _. None)\<rparr>"

definition demo_cloud :: cloud where
  "demo_cloud = \<lparr>cd_config = Some demo_config, cd_source = Some ''git clone'', cd_gate = empty_gate, cd_telegram = demo_telegram,
     cd_callbacks = [], cd_events = [], cd_created = [], cd_destroyed = []\<rparr>"

definition demo_ask :: "cloud_op list" where
  "demo_ask = [CDeploy demo_cloud_env ''adm'' ''text-node node7'']"

definition demo_confirm :: cloud_op where
  "demo_confirm = CAnswer demo_cloud_env ''adm'' ''deploy-u1'' True 20 20"

theorem creation_needs_confirmation_witness:
  "\<exists>e0 args0 before after. demo_ask = before @ CDeploy e0 ''adm'' args0 # after \<and>
     (\<exists>name off. proposed e0 (run cloud_step demo_cloud before) name off)"
proof -
  have c: "cd_callbacks demo_cloud = []" by (simp add: demo_cloud_def)
  have n: "map fst (cd_created (cloud_step (run cloud_step demo_cloud demo_ask) demo_confirm)) = [''node7'']" by code_simp
  have o: "map fst (cd_created (run cloud_step demo_cloud demo_ask)) = []" by code_simp
  have "cd_created (cloud_step (run cloud_step demo_cloud demo_ask) demo_confirm) \<noteq> cd_created (run cloud_step demo_cloud demo_ask)"
    (is "?A \<noteq> ?B")
  proof
    assume "?A = ?B"
    then show False using n unfolding o by (simp only: o list.distinct)
  qed
  from creation_needs_confirmation [OF c this] obtain e chat args t1 t2 name off before e0 args0 after where
    d: "demo_confirm = CAnswer e chat args True t1 t2"
    and o: "demo_ask = before @ CDeploy e0 chat args0 # after" "proposed e0 (run cloud_step demo_cloud before) name off"
    by blast
  have "chat = ''adm''" using d by (simp only: demo_confirm_def cloud_op.inject)
  then show ?thesis using o by blast
qed

section \<open>One purchase for every creation\<close>

definition consumed_ids :: "purchase_gate \<Rightarrow> string set" where
  "consumed_ids g = {i. \<exists>a. held g i = Some a \<and> au_consumed_at a \<noteq> None}"

text \<open>A change of an authorization that is neither consumed before nor after.\<close>

lemma commit_consumed:
  assumes "commit_auth ev b now g = (r, g')" "gate_inv g" "au_consumed_at b = None"
    and "\<And>a. held g (au_id b) = Some a \<Longrightarrow> au_consumed_at a = None"
  shows "consumed_ids g' = consumed_ids g"
  using commit_auth_held [OF assms(1)] assms(2-4) by (auto simp: gate_inv_def consumed_ids_def split: if_splits)

lemma request_consumed:
  assumes "request_purchase sha i off ttl now g = (r, g')" "gate_inv g" "held g i = None"
  shows "consumed_ids g' = consumed_ids g"
proof (cases "g' = g")
  case False
  then obtain ev a where c: "commit_auth ev a now g = (r, g')" "au_id a = i" "au_consumed_at a = None"
    using assms(1) by (auto simp: request_purchase_def split: sum.splits if_splits)
  show ?thesis by (rule commit_consumed [OF c(1) assms(2) c(3)]) (use c(2) assms(3) in simp)
qed simp

lemma latest_change_consumed:
  assumes "latest a0 g = Inr a" "commit_auth ev b now g = (r, g')" "gate_inv g" "au_consumed_at a = None"
    "au_consumed_at b = None" "au_id b = au_id a"
  shows "consumed_ids g' = consumed_ids g"
proof (rule commit_consumed [OF assms(2,3,5)])
  have h: "held g (au_id a0) = Some a" using latest_held assms(1,3) by (simp add: gate_inv_def)
  then have "au_id a = au_id a0" using assms(3) by (auto simp: gate_inv_def)
  then show "held g (au_id b) = Some c \<Longrightarrow> au_consumed_at c = None" for c using h assms(4,6) by simp
qed

lemma approve_consumed:
  assumes "approve_purchase sha a0 off now g = (r, g')" "gate_inv g"
  shows "consumed_ids g' = consumed_ids g"
proof (cases "g' = g")
  case False
  then obtain a u where a: "latest a0 g = Inr a" "assert_current sha a off now = Inr u"
      "commit_auth ''hosting_purchase_approved'' (a\<lparr>au_approved_at := Some now\<rparr>) now g = (r, g')"
    using assms(1) by (auto simp: approve_purchase_def split: sum.splits if_splits)
  show ?thesis using latest_change_consumed [OF a(1,3) assms(2)] assert_current_open [OF a(2)] by simp
qed simp

lemma cancel_consumed:
  assumes "cancel_purchase a0 now g = (r, g')" "gate_inv g"
  shows "consumed_ids g' = consumed_ids g"
proof (cases "g' = g")
  case False
  then obtain a where a: "latest a0 g = Inr a" "au_consumed_at a = None"
      "commit_auth ''hosting_purchase_cancelled'' (a\<lparr>au_cancelled_at := Some now\<rparr>) now g = (r, g')"
    using assms(1) by (auto simp: cancel_purchase_def split: sum.splits if_splits)
  show ?thesis using latest_change_consumed [OF a(1,3) assms(2)] a(2) by simp
qed simp

text \<open>A purchase that is used up is marked, and it was not marked before; a refused one leaves no trace.\<close>

lemma consume_consumed:
  assumes "consume_purchase sha a0 off now g = (r, g')" "gate_inv g"
  shows "case r of Inl _ \<Rightarrow> consumed_ids g' = consumed_ids g
    | Inr _ \<Rightarrow> consumed_ids g' = insert (au_id a0) (consumed_ids g) \<and> au_id a0 \<notin> consumed_ids g"
proof -
  consider (refused) m where "r = Inl m" "g' = g"
    | (committed) a u where "latest a0 g = Inr a" "assert_current sha a off now = Inr u"
      "commit_auth ''hosting_purchase_consumed'' (a\<lparr>au_consumed_at := Some now\<rparr>) now g = (r, g')"
    using assms(1) by (auto simp: consume_purchase_def split: sum.splits if_splits) metis
  then show ?thesis
  proof cases
    case a: (committed a u)
  have h: "held g (au_id a0) = Some a" using latest_held a(1) assms(2) by (simp add: gate_inv_def)
  then have "au_id a = au_id a0" using assms(2) by (auto simp: gate_inv_def)
  then show ?thesis
    using commit_auth_held [OF a(3)] assert_current_open [OF a(2)] assms(2) h
    by (auto simp: gate_inv_def consumed_ids_def split: if_splits)
  qed simp
qed

definition books :: "cloud \<Rightarrow> bool" where
  "books s \<longleftrightarrow> gate_inv (cd_gate s) \<and> finite (consumed_ids (cd_gate s)) \<and>
     card (consumed_ids (cd_gate s)) = length (cd_created s)"

lemma books_keeps:
  assumes "books s" "consumed_ids (cd_gate t) = consumed_ids (cd_gate s)" "gate_inv (cd_gate t)" "cd_created t = cd_created s"
  shows "books t"
  using assms by (simp add: books_def)

lemma books_same: "books s \<Longrightarrow> cd_gate t = cd_gate s \<Longrightarrow> cd_created t = cd_created s \<Longrightarrow> books t"
  by (simp add: books_def)

lemma execute_books:
  assumes "books s"
  shows "books (snd (execute_deploy e chat name role script a off s))"
proof (cases rule: execute_deploy_cases [of e chat name role script a off s])
  case none
  let ?t = "snd (execute_deploy e chat name role script a off s)"
  from none(2) show ?thesis
  proof
    assume "cd_gate ?t = cd_gate s"
    then show ?thesis using books_same [OF assms _ none(1)] by simp
  next
    assume "\<exists>m. consume_purchase (ce_sha e) a off (ce_gate2 e) (cd_gate s) = (Inl m, cd_gate ?t)"
    then obtain m where m: "consume_purchase (ce_sha e) a off (ce_gate2 e) (cd_gate s) = (Inl m, cd_gate ?t)" ..
    have g: "gate_inv (cd_gate s)" using assms by (simp add: books_def)
    show ?thesis using books_keeps [OF assms] consume_consumed [OF m g] consume_step [OF g m] none(1) by simp
  qed
next
  case (created c b)
  have g: "gate_inv (cd_gate s)" using assms by (simp add: books_def)
  show ?thesis
    using consume_consumed [OF created(2) g] consume_step [OF g created(2)] created(3) assms by (simp add: books_def)
qed

lemma run_books:
  assumes "books s"
  shows "books (snd (run_action e b s))"
proof (cases "(e, b, s)" rule: run_action.cases)
  case (1 e' chat name role script a off s')
  obtain r g where g: "approve_purchase (ce_sha e) a off (ce_gate e) (cd_gate s) = (r, g)"
    by (cases "approve_purchase (ce_sha e) a off (ce_gate e) (cd_gate s)")
  have inv: "gate_inv (cd_gate s)" using assms by (simp add: books_def)
  have "books (s\<lparr>cd_gate := g\<rparr>)"
    using books_keeps [OF assms] approve_consumed [OF g inv] approve_step [OF inv g] by simp
  then have "books (snd (approve_deploy e chat name role script a off s))"
    using g execute_books by (cases r) (simp_all add: approve_deploy_def books_def cloud_simps)
  then show ?thesis using 1 by simp
next
  case (2 e' chat i s')
  then show ?thesis using books_same [OF assms] by (simp add: cloud_simps)
qed

lemma decline_books:
  assumes "books s"
  shows "books (decline_action e b s)"
proof (cases "(e, b, s)" rule: decline_action.cases)
  case (1 e' chat name role script a off s')
  obtain r g where g: "cancel_purchase a (ce_gate e) (cd_gate s) = (r, g)" by (cases "cancel_purchase a (ce_gate e) (cd_gate s)")
  have inv: "gate_inv (cd_gate s)" using assms by (simp add: books_def)
  show ?thesis
    using 1 g books_keeps [OF assms] cancel_consumed [OF g inv] close_step [OF inv disjI2 [OF g]]
    by (simp add: cancel_deploy_def cloud_simps)
next
  case (2 e' chat i s')
  then show ?thesis using books_same [OF assms] by (simp add: cloud_simps)
qed

text \<open>A fresh identifier is drawn for every purchase.\<close>

fun cloud_ok :: "cloud \<Rightarrow> cloud_op \<Rightarrow> bool" where
  "cloud_ok s (CDeploy e chat args) \<longleftrightarrow> held (cd_gate s) (ce_auth e) = None"
| "cloud_ok s _ \<longleftrightarrow> True"

lemma step_books:
  assumes "books s" "cloud_ok s x"
  shows "books (cloud_step s x)"
proof (cases x)
  case (CDeploy e chat args)
  have inv: "gate_inv (cd_gate s)" using assms by (simp add: books_def)
  from deploy_keeps(2) [of e chat args s] show ?thesis
  proof
    assume "cd_gate (snd (cmd_deploy e chat args s)) = cd_gate s"
    then show ?thesis using CDeploy books_same [OF assms(1)] deploy_keeps(1) by simp
  next
    assume "\<exists>off r. request_purchase (ce_sha e) (ce_auth e) off 300 (ce_gate e) (cd_gate s) = (r, cd_gate (snd (cmd_deploy e chat args s)))"
    then obtain off r where r: "request_purchase (ce_sha e) (ce_auth e) off 300 (ce_gate e) (cd_gate s) =
        (r, cd_gate (snd (cmd_deploy e chat args s)))" by blast
    have f: "held (cd_gate s) (ce_auth e) = None" using assms(2) CDeploy by simp
    show ?thesis
      using CDeploy books_keeps [OF assms(1)] request_consumed [OF r inv f] request_step [OF inv f r] deploy_keeps(1) by simp
  qed
next
  case (CAnswer e chat args ok t1 t2)
  show ?thesis
    unfolding CAnswer cloud_step.simps answer_cloud_def
    by (rule gate_answer_keeps [of books]) (use assms(1) books_same run_books decline_books in auto)
next
  case (CRestart g)
  have "held ((cd_gate s)\<lparr>pg_current := []\<rparr>) = held (cd_gate s)" by (simp add: held_def fun_eq_iff)
  then show ?thesis using CRestart assms(1) by (simp add: books_def gate_inv_def consumed_ids_def)
qed (use assms(1) books_same [OF assms(1)] cloud_simps in simp_all)



section \<open>The limits\<close>

text \<open>The provider lists the nodes that have been created.\<close>

fun honest_listing :: "cloud \<Rightarrow> cloud_op \<Rightarrow> bool" where
  "honest_listing s (CDeploy e chat args) \<longleftrightarrow>
     (case cd_config s of None \<Rightarrow> True
      | Some c \<Rightarrow> (case ce_list e c of Inl _ \<Rightarrow> True | Inr is \<Rightarrow> length is = length (cd_created s)))"
| "honest_listing s _ \<longleftrightarrow> True"

definition demo_cloud_env2 :: cloud_env where
  "demo_cloud_env2 = demo_cloud_env\<lparr>ce_auth := ''a2'', ce_uuid := ''u2''\<rparr>"

definition demo_two :: "cloud_op list" where
  "demo_two = demo_ask @ [CDeploy demo_cloud_env2 ''adm'' ''text-node node8'', demo_confirm,
     CAnswer demo_cloud_env2 ''adm'' ''deploy-u2'' True 20 20]"

text \<open>
  The limits are looked at when a deployment is proposed and not when it is carried out:
  with a limit of one node and a provider that lists every node it has created, two deployments
  asked for before either is confirmed create two nodes, each with a purchase of its own.
\<close>

theorem limits_hold_only_when_proposed:
  "\<exists>s c ops. cd_config s = Some c \<and> cc_max c = 1 \<and> cd_created s = [] \<and> cd_callbacks s = [] \<and>
     legal (\<lambda>s x. cloud_ok s x \<and> honest_listing s x) cloud_step s ops \<and>
     length (cd_created (run cloud_step s ops)) = 2"
proof (intro exI conjI)
  let ?ok = "\<lambda>s x. cloud_ok s x \<and> honest_listing s x"
  have c: "map_option (\<lambda>s. length (cd_created s)) (legal_run ?ok cloud_step demo_cloud demo_two) = Some 2" by code_simp
  show "cd_config demo_cloud = Some demo_config" "cc_max demo_config = 1" "cd_created demo_cloud = []" "cd_callbacks demo_cloud = []"
    by (simp_all add: demo_cloud_def demo_config_def)
  show "legal ?ok cloud_step demo_cloud demo_two" "length (cd_created (run cloud_step demo_cloud demo_two)) = 2"
    using legal_runD [OF c] by simp_all
qed

end
