(* ===== verification/Templates.thy ===== *)
theory Templates
  imports Evolution "HOL-Library.While_Combinator"
begin

text \<open>
  The tools the factory builds without a model: the library of code templates and the synthesizer
  that selects one (\<open>infrastructure/agent_factory/synthesizer.py\<close>).

  A generated tool is its name, its capability and the function its template computes. Texts are
  ASCII: \<open>isalpha\<close>, \<open>isdigit\<close>, \<open>upper\<close> and \<open>lower\<close> are those of ASCII characters. \<open>str(x)\<close> of a float, a
  list or a dictionary is an argument \<open>repr\<close>.
\<close>

section \<open>What the templates use of Python\<close>

definition is_digit :: "char \<Rightarrow> bool" where
  "is_digit c \<longleftrightarrow> CHR ''0'' \<le> c \<and> c \<le> CHR ''9''"

definition is_upper :: "char \<Rightarrow> bool" where
  "is_upper c \<longleftrightarrow> CHR ''A'' \<le> c \<and> c \<le> CHR ''Z''"

definition is_lower :: "char \<Rightarrow> bool" where
  "is_lower c \<longleftrightarrow> CHR ''a'' \<le> c \<and> c \<le> CHR ''z''"

definition is_alpha :: "char \<Rightarrow> bool" where
  "is_alpha c \<longleftrightarrow> is_upper c \<or> is_lower c"

definition is_alnum :: "char \<Rightarrow> bool" where
  "is_alnum c \<longleftrightarrow> is_alpha c \<or> is_digit c"

definition ord :: "char \<Rightarrow> int" where
  "ord c = of_char c"

definition chr :: "int \<Rightarrow> char" where
  "chr n = char_of (nat n)"

text \<open>\<open>s.split()\<close>, \<open>s.split(sep)\<close> for one character, \<open>w.capitalize()\<close>, \<open>s.lstrip(c)\<close> and \<open>s.strip(c)\<close>.\<close>

fun words_from :: "string \<Rightarrow> string \<Rightarrow> string list" where
  "words_from w [] = (if w = [] then [] else [w])"
| "words_from w (c # s) =
     (if is_space c then (if w = [] then [] else [w]) @ words_from [] s else words_from (w @ [c]) s)"

definition py_words :: "string \<Rightarrow> string list" where
  "py_words s = words_from [] s"

fun split_from :: "char \<Rightarrow> string \<Rightarrow> string \<Rightarrow> string list" where
  "split_from d w [] = [w]"
| "split_from d w (c # s) = (if c = d then w # split_from d [] s else split_from d (w @ [c]) s)"

definition split_on :: "char \<Rightarrow> string \<Rightarrow> string list" where
  "split_on d s = split_from d [] s"

fun capitalize :: "string \<Rightarrow> string" where
  "capitalize [] = []"
| "capitalize (c # s) = upper_char c # py_lower s"

definition lstrip_char :: "char \<Rightarrow> string \<Rightarrow> string" where
  "lstrip_char d s = dropWhile (\<lambda>c. c = d) s"

definition strip_char :: "char \<Rightarrow> string \<Rightarrow> string" where
  "strip_char d s = rev (lstrip_char d (rev (lstrip_char d s)))"

definition dash :: char where
  "dash = CHR ''-''"

definition under :: char where
  "under = CHR ''_''"

text \<open>The value of a digit in a base up to 16, and of a numeral.\<close>

definition digit_value :: "char \<Rightarrow> nat" where
  "digit_value c = (if is_digit c then of_char c - 48 else of_char c - 87)"

definition numeral_value :: "nat \<Rightarrow> string \<Rightarrow> nat" where
  "numeral_value b s = foldl (\<lambda>v c. b * v + digit_value c) 0 s"

text \<open>\<open>int(text)\<close>: blanks around, one sign, digits with single underscores between them.\<close>

fun plain_digits :: "string \<Rightarrow> string option" where
  "plain_digits [] = None"
| "plain_digits [c] = (if is_digit c then Some [c] else None)"
| "plain_digits (c # d # s) =
     (if \<not> is_digit c then None
      else map_option ((#) c) (if d = under then plain_digits s else plain_digits (d # s)))"

definition parse_int :: "string \<Rightarrow> int option" where
  "parse_int s =
     (let t = py_strip s in
      if t \<noteq> [] \<and> hd t = dash then map_option (\<lambda>d. - int (numeral_value 10 d)) (plain_digits (tl t))
      else map_option (\<lambda>d. int (numeral_value 10 d)) (plain_digits (if t \<noteq> [] \<and> hd t = CHR ''+'' then tl t else t)))"

definition to_int :: "pyval \<Rightarrow> raised + int" where
  "to_int v =
     (case v of
        PInt i \<Rightarrow> Inr i
      | PBool b \<Rightarrow> Inr (if b then 1 else 0)
      | PFloat x \<Rightarrow> Inr (if x < 0 then \<lceil>x\<rceil> else \<lfloor>x\<rfloor>)
      | PStr s \<Rightarrow> (case parse_int s of None \<Rightarrow> Inl (''ValueError'', ''invalid literal for int() with base 10'') | Some i \<Rightarrow> Inr i)
      | _ \<Rightarrow> Inl (''TypeError'', ''int() argument must be a string, a bytes-like object or a real number''))"

definition py_str :: "(pyval \<Rightarrow> string) \<Rightarrow> pyval \<Rightarrow> string" where
  "py_str repr v =
     (case v of
        PStr s \<Rightarrow> s
      | PInt i \<Rightarrow> show_int i
      | PBool b \<Rightarrow> (if b then ''True'' else ''False'')
      | PNone \<Rightarrow> ''None''
      | _ \<Rightarrow> repr v)"

section \<open>Text\<close>

definition is_palindrome :: "string \<Rightarrow> bool" where
  "is_palindrome s = (let t = map lower_char (filter is_alnum s) in t = rev t)"

definition sort_words :: "string \<Rightarrow> string" where
  "sort_words s = join_sep '' '' (sort (py_words s))"

definition title_case :: "string \<Rightarrow> string" where
  "title_case s = join_sep '' '' (map capitalize (py_words s))"

definition remove_whitespace :: "string \<Rightarrow> string" where
  "remove_whitespace s = concat (py_words s)"

definition vowel_count :: "string \<Rightarrow> nat" where
  "vowel_count s = length (filter (\<lambda>c. c \<in> set ''aeiou'') (py_lower s))"

section \<open>Ciphers\<close>

definition caesar_char :: "int \<Rightarrow> char \<Rightarrow> char" where
  "caesar_char shift c =
     (if is_alpha c then (let base = (if is_upper c then 65 else 97) in chr ((ord c - base + shift) mod 26 + base)) else c)"

definition caesar_encode :: "string \<Rightarrow> string" where
  "caesar_encode s = map (caesar_char 3) s"

definition caesar_decode :: "string \<Rightarrow> string" where
  "caesar_decode s = map (caesar_char (- 3)) s"

fun rle_from :: "char \<Rightarrow> nat \<Rightarrow> string \<Rightarrow> string" where
  "rle_from prev n [] = prev # show_nat n"
| "rle_from prev n (c # s) = (if c = prev then rle_from prev (n + 1) s else prev # show_nat n @ rle_from c 1 s)"

fun run_length_encode :: "string \<Rightarrow> string" where
  "run_length_encode [] = []"
| "run_length_encode (c # s) = rle_from c 1 s"

function run_length_decode :: "string \<Rightarrow> string" where
  "run_length_decode [] = []"
| "run_length_decode (c # s) =
     (let num = takeWhile is_digit s in
      (if num \<noteq> [] then replicate (numeral_value 10 num) c else [c]) @ run_length_decode (dropWhile is_digit s))"
  by pat_completeness auto
termination
  by (relation "measure length") (auto simp: le_imp_less_Suc length_dropWhile_le)

definition checksum_sum :: "string \<Rightarrow> int" where
  "checksum_sum s = sum_list (map ord s) mod 256"

section \<open>Numbers\<close>

definition digit_sum :: "string \<Rightarrow> nat" where
  "digit_sum s = sum_list (map digit_value (filter is_digit s))"

text \<open>\<open>t.replace('.', '', 1)\<close> takes out the first point.\<close>

definition is_numeric :: "string \<Rightarrow> bool" where
  "is_numeric s =
     (let t = remove1 (CHR ''.'') (lstrip_char dash (py_strip s)) in t \<noteq> [] \<and> (\<forall>c\<in>set t. is_digit c))"

text \<open>The loop of the two converters; \<open>hex_chars[d]\<close> is \<open>str(d)\<close> below ten.\<close>

definition hex_chars :: string where
  "hex_chars = ''0123456789abcdef''"

function base_digits :: "nat \<Rightarrow> nat \<Rightarrow> string \<Rightarrow> string" where
  "base_digits b n ds = (if n > 0 \<and> b > 1 then base_digits b (n div b) (hex_chars ! (n mod b) # ds) else ds)"
  by pat_completeness auto
termination
  by (relation "measure (\<lambda>(b, n, ds). n)") auto

declare base_digits.simps [simp del]

definition to_base :: "nat \<Rightarrow> int \<Rightarrow> string" where
  "to_base b n = (if n = 0 then ''0'' else (if n < 0 then ''-'' else []) @ base_digits b (nat \<bar>n\<bar>) [])"

definition decimal_to_binary :: "int \<Rightarrow> string" where
  "decimal_to_binary n = to_base 2 n"

definition decimal_to_hex :: "int \<Rightarrow> string" where
  "decimal_to_hex n = to_base 16 n"

text \<open>Trial division: the loop leaves with the first divisor, or when the counter has passed the root.\<close>

definition is_prime :: "int \<Rightarrow> bool option" where
  "is_prime n =
     (if n < 2 then Some False
      else map_option (\<lambda>(i, composite). \<not> composite)
             (while_option (\<lambda>(i, composite). \<not> composite \<and> i * i \<le> n)
                (\<lambda>(i, composite). if n mod i = 0 then (i, True) else (i + 1, False)) (2, False)))"

definition factorial :: "int \<Rightarrow> int option" where
  "factorial n = (if n < 0 then None else Some (fold (\<lambda>i r. r * i) [2..n] 1))"

section \<open>Formats\<close>

definition slug_char :: "char \<Rightarrow> string" where
  "slug_char c = (if is_alnum c then [c] else if c \<in> {CHR '' '', dash, under} then [dash] else [])"

fun double_dash :: "string \<Rightarrow> bool" where
  "double_dash (c # d # s) \<longleftrightarrow> (c = dash \<and> d = dash) \<or> double_dash (d # s)"
| "double_dash _ \<longleftrightarrow> False"

text \<open>\<open>s.replace('--', '-')\<close>: from the left, without overlaps.\<close>

fun halve_dashes :: "string \<Rightarrow> string" where
  "halve_dashes (c # d # s) = (if c = dash \<and> d = dash then dash # halve_dashes s else c # halve_dashes (d # s))"
| "halve_dashes s = s"

definition slugify :: "string \<Rightarrow> string option" where
  "slugify s =
     map_option (strip_char dash)
       (while_option double_dash halve_dashes (concat (map slug_char (py_lower (py_strip s)))))"

definition snake_to_camel :: "string \<Rightarrow> string" where
  "snake_to_camel s = (let parts = split_on under s in hd parts @ concat (map capitalize (tl parts)))"

definition camel_to_snake :: "string \<Rightarrow> string" where
  "camel_to_snake s = lstrip_char under (concat (map (\<lambda>c. if is_upper c then [under, lower_char c] else [c]) s))"

fun strip_tags :: "bool \<Rightarrow> string \<Rightarrow> string" where
  "strip_tags inside [] = []"
| "strip_tags inside (c # s) =
     (if c = CHR ''<'' then strip_tags True s
      else if c = CHR ''>'' then strip_tags False s
      else (if inside then [] else [c]) @ strip_tags inside s)"

definition strip_html_tags :: "string \<Rightarrow> string" where
  "strip_html_tags s = strip_tags False s"

definition truncate_ellipsis :: "string \<Rightarrow> string" where
  "truncate_ellipsis s = (if length s \<le> 20 then s else take 17 s @ ''...'')"

section \<open>Validation\<close>

definition luhn_term :: "nat \<Rightarrow> nat \<Rightarrow> nat" where
  "luhn_term i d = (if i mod 2 = 1 then (if d * 2 > 9 then d * 2 - 9 else d * 2) else d)"

fun luhn_total :: "nat \<Rightarrow> nat list \<Rightarrow> nat" where
  "luhn_total i [] = 0"
| "luhn_total i (d # ds) = luhn_term i d + luhn_total (i + 1) ds"

definition luhn_check :: "string \<Rightarrow> bool" where
  "luhn_check s =
     (let digits = map digit_value (filter is_digit s) in digits \<noteq> [] \<and> luhn_total 0 (rev digits) mod 10 = 0)"

definition closer_of :: "char \<Rightarrow> char" where
  "closer_of c = (if c = CHR ''('' then CHR '')'' else if c = CHR ''['' then CHR '']'' else CHR ''}'')"

fun brackets_from :: "string \<Rightarrow> string \<Rightarrow> bool" where
  "brackets_from stack [] = (stack = [])"
| "brackets_from stack (c # s) =
     (if c \<in> set ''([{'' then brackets_from (c # stack) s
      else if c \<in> set '')]}'' then (case stack of [] \<Rightarrow> False | b # rest \<Rightarrow> closer_of b = c \<and> brackets_from rest s)
      else brackets_from stack s)"

definition is_balanced_brackets :: "string \<Rightarrow> bool" where
  "is_balanced_brackets s = brackets_from [] s"

fun duplicate_from :: "string list \<Rightarrow> string list \<Rightarrow> bool" where
  "duplicate_from seen [] = False"
| "duplicate_from seen (w # ws) = (w \<in> set seen \<or> duplicate_from (w # seen) ws)"

definition has_duplicate_words :: "string \<Rightarrow> bool" where
  "has_duplicate_words s = duplicate_from [] (py_words (py_lower s))"

definition count_unique_words :: "string \<Rightarrow> nat" where
  "count_unique_words s = length (remdups (py_words (py_lower s)))"

definition mask_sensitive_middle :: "string \<Rightarrow> string" where
  "mask_sensitive_middle s =
     (if length s \<le> 4 then replicate (length s) (CHR ''*'')
      else take 2 s @ replicate (length s - 4) (CHR ''*'') @ drop (length s - 2) s)"

definition is_valid_username :: "string \<Rightarrow> bool" where
  "is_valid_username s \<longleftrightarrow>
     3 \<le> length s \<and> length s \<le> 20 \<and> is_alpha (hd s) \<and> (\<forall>c\<in>set s. is_alnum c \<or> c = under)"

section \<open>The synthesizer\<close>

type_synonym tool_body = "(pyval \<Rightarrow> string) \<Rightarrow> pyval \<Rightarrow> raised + pyval"

definition on_text :: "(string \<Rightarrow> pyval) \<Rightarrow> tool_body" where
  "on_text f repr v = Inr (f (py_str repr v))"

definition on_int :: "(int \<Rightarrow> pyval) \<Rightarrow> tool_body" where
  "on_int f repr v = map_sum id f (to_int v)"

text \<open>A loop that does not end would have no value; \<open>the\<close> is justified by the theorems on the loops.\<close>

definition templates :: "(string, tool_body) dict" where
  "templates =
     [(''uppercase'', on_text (\<lambda>s. PStr (py_upper s))),
      (''lowercase'', on_text (\<lambda>s. PStr (py_lower s))),
      (''reverse_text'', on_text (\<lambda>s. PStr (rev s))),
      (''word_count'', on_text (\<lambda>s. PInt (length (py_words s)))),
      (''char_count'', on_text (\<lambda>s. PInt (length s))),
      (''is_palindrome'', on_text (\<lambda>s. PBool (is_palindrome s))),
      (''sort_words'', on_text (\<lambda>s. PStr (sort_words s))),
      (''title_case'', on_text (\<lambda>s. PStr (title_case s))),
      (''remove_whitespace'', on_text (\<lambda>s. PStr (remove_whitespace s))),
      (''vowel_count'', on_text (\<lambda>s. PInt (vowel_count s))),
      (''caesar_encode'', on_text (\<lambda>s. PStr (caesar_encode s))),
      (''caesar_decode'', on_text (\<lambda>s. PStr (caesar_decode s))),
      (''run_length_encode'', on_text (\<lambda>s. PStr (run_length_encode s))),
      (''run_length_decode'', on_text (\<lambda>s. PStr (run_length_decode s))),
      (''checksum_sum'', on_text (\<lambda>s. PInt (checksum_sum s))),
      (''digit_sum'', on_text (\<lambda>s. PInt (digit_sum s))),
      (''is_numeric'', on_text (\<lambda>s. PBool (is_numeric s))),
      (''decimal_to_binary'', on_int (\<lambda>n. PStr (decimal_to_binary n))),
      (''decimal_to_hex'', on_int (\<lambda>n. PStr (decimal_to_hex n))),
      (''is_prime'', on_int (\<lambda>n. PBool (the (is_prime n)))),
      (''factorial'', on_int (\<lambda>n. case factorial n of None \<Rightarrow> PNone | Some r \<Rightarrow> PInt r)),
      (''slugify'', on_text (\<lambda>s. PStr (the (slugify s)))),
      (''snake_to_camel'', on_text (\<lambda>s. PStr (snake_to_camel s))),
      (''camel_to_snake'', on_text (\<lambda>s. PStr (camel_to_snake s))),
      (''strip_html_tags'', on_text (\<lambda>s. PStr (strip_html_tags s))),
      (''truncate_ellipsis'', on_text (\<lambda>s. PStr (truncate_ellipsis s))),
      (''luhn_check'', on_text (\<lambda>s. PBool (luhn_check s))),
      (''is_balanced_brackets'', on_text (\<lambda>s. PBool (is_balanced_brackets s))),
      (''has_duplicate_words'', on_text (\<lambda>s. PBool (has_duplicate_words s))),
      (''count_unique_words'', on_text (\<lambda>s. PInt (count_unique_words s))),
      (''mask_sensitive_middle'', on_text (\<lambda>s. PStr (mask_sensitive_middle s))),
      (''is_valid_username'', on_text (\<lambda>s. PBool (is_valid_username s)))]"

definition available_templates :: "string list" where
  "available_templates = sort (dkeys templates)"

record generated_tool =
  gt_name :: string
  gt_capability :: string
  gt_run :: tool_body

definition synthesize_template :: "agent_spec \<Rightarrow> raised + generated_tool" where
  "synthesize_template sp =
     (case dget templates (sp_template sp) of
        None \<Rightarrow> Inl (''ValueError'', ''Unknown template '' @ sp_template sp)
      | Some body \<Rightarrow> Inr \<lparr>gt_name = sp_name sp, gt_capability = sp_capability sp, gt_run = body\<rparr>)"

end
