(* ===== verification/Templates_Props.thy ===== *)
theory Templates_Props
  imports Templates
begin

text \<open>
  What the template tools compute: the loops end, the ciphers and the converters can be undone, the
  checks accept what they are meant to accept.
\<close>

section \<open>Loops that end\<close>

definition no_divisor_below :: "int \<Rightarrow> int \<Rightarrow> bool" where
  "no_divisor_below i n \<longleftrightarrow> (\<forall>d. 1 < d \<and> d < i \<longrightarrow> \<not> d dvd n)"

text \<open>A number without a divisor up to its root is prime.\<close>

lemma root_bound:
  assumes "1 < (n::int)" "no_divisor_below i n" "n < i * i" "1 < i"
  shows "no_divisor_below n n"
  unfolding no_divisor_below_def
proof (intro allI impI notI)
  fix d
  assume d: "1 < d \<and> d < n" and dv: "d dvd n"
  obtain e where e: "n = d * e" using dv by (auto elim: dvdE)
  have "\<not> d < i" using assms(2) d dv by (auto simp: no_divisor_below_def)
  moreover have "e < i"
  proof (rule ccontr)
    assume "\<not> e < i"
    then have "i * i \<le> d * e" using \<open>\<not> d < i\<close> assms(4) by (intro mult_mono) auto
    then show False using assms(3) e by simp
  qed
  moreover have "1 < e"
  proof (rule ccontr)
    assume "\<not> 1 < e"
    then have "d * e \<le> d * 1" using d by (intro mult_left_mono) auto
    then have "n \<le> d" unfolding e by simp
    then show False using d by simp
  qed
  ultimately show False using assms(2) e by (auto simp: no_divisor_below_def)
qed

text \<open>
  The primality test ends on every number and tells whether it is prime.
\<close>

theorem is_prime_terminates: "is_prime n = Some (2 \<le> n \<and> no_divisor_below n n)"
proof (cases "n < 2")
  case True
  then show ?thesis by (simp add: is_prime_def)
next
  case False
  let ?b = "\<lambda>(i :: int, c). \<not> c \<and> i * i \<le> n" and ?s = "\<lambda>(i, c). if n mod i = 0 then (i, True) else (i + 1, False)"
  let ?P = "\<lambda>(i, c). 1 < i \<and> i \<le> n \<and> no_divisor_below i n \<and> (c \<longrightarrow> i dvd n \<and> i < n) "
  let ?m = "\<lambda>(i, c :: bool). nat (n + 1 - i) + (if c then 0 else 1)"
  have lt: "i < n" if "1 < i" "i * i \<le> n" for i :: int
  proof -
    have "i * 1 < i * i" using that(1) by (intro mult_strict_left_mono) auto
    then show ?thesis using that(2) by simp
  qed
  have step: "?P (?s x) \<and> ?m (?s x) < ?m x" if P: "?P x" and b: "?b x" for x
  proof -
    obtain i c where x: "x = (i, c)" by (cases x)
    have i: "i < n" using lt P b x by auto
    show ?thesis
    proof (cases "n mod i = 0")
      case True
      then show ?thesis using P b x i by (auto simp: dvd_eq_mod_eq_0)
    next
      case ndiv: False
      have "no_divisor_below (i + 1) n"
        unfolding no_divisor_below_def
      proof (intro allI impI)
        fix d
        assume d: "1 < d \<and> d < i + 1"
        then consider "d < i" | "d = i" by linarith
        then show "\<not> d dvd n" using P x d ndiv by cases (auto simp: no_divisor_below_def dvd_eq_mod_eq_0)
      qed
      then show ?thesis using P b x i ndiv by simp
    qed
  qed
  have start: "?P (2, False)" using False by (auto simp: no_divisor_below_def)
  have "\<exists>t. while_option ?b ?s (2, False) = Some t"
    by (rule measure_while_option_Some [of ?P ?b ?s ?m, OF step start])
  then obtain t where t: "while_option ?b ?s (2, False) = Some t" by blast
  obtain i c where tc: "t = (i, c)" by (cases t)
  have P: "?P (i, c)" unfolding tc [symmetric] by (rule while_option_rule [of ?P ?b ?s, OF conjunct1 [OF step] t start])
  have nb: "\<not> ?b (i, c)" using while_option_stop [OF t] tc by simp
  have "\<not> c \<longleftrightarrow> no_divisor_below n n"
  proof
    assume "\<not> c"
    then show "no_divisor_below n n" using root_bound [of n i] P nb False by auto
  next
    assume a: "no_divisor_below n n"
    show "\<not> c"
    proof
      assume c
      then show False using P a by (auto simp: no_divisor_below_def)
    qed
  qed
  moreover have "is_prime n = Some (\<not> c)" using False t tc by (simp add: is_prime_def)
  ultimately show ?thesis using False by simp
qed

lemma halve_dashes_length: "double_dash s \<Longrightarrow> length (halve_dashes s) < length s"
proof (induction s rule: halve_dashes.induct)
  case (1 c d s)
  have le: "length (halve_dashes u) \<le> length u" for u by (induction u rule: halve_dashes.induct) auto
  show ?case using 1 le [of s] by (auto intro: le_imp_less_Suc less_SucI)
qed auto

lemma halve_dashes_set: "set (halve_dashes s) \<subseteq> set s"
  by (induction s rule: halve_dashes.induct) auto

definition slug_alphabet :: "char \<Rightarrow> bool" where
  "slug_alphabet c \<longleftrightarrow> is_lower c \<or> is_digit c \<or> c = dash"

definition is_slug :: "string \<Rightarrow> bool" where
  "is_slug t \<longleftrightarrow> (\<forall>c\<in>set t. slug_alphabet c) \<and> \<not> double_dash t \<and> (t \<noteq> [] \<longrightarrow> hd t \<noteq> dash \<and> last t \<noteq> dash)"

lemma collapse_dashes:
  "\<exists>t. while_option double_dash halve_dashes s = Some t \<and> \<not> double_dash t \<and> set t \<subseteq> set s"
proof -
  have "\<exists>t. while_option double_dash halve_dashes s = Some t"
    by (rule measure_while_option_Some [of "\<lambda>_. True" _ _ length]) (auto simp: halve_dashes_length)
  then obtain t where t: "while_option double_dash halve_dashes s = Some t" by blast
  have "set t \<subseteq> set s"
    by (rule while_option_rule [of "\<lambda>u. set u \<subseteq> set s", OF _ t]) (use halve_dashes_set in blast)+
  then show ?thesis using t while_option_stop [OF t] by blast
qed

lemma double_dash_append: "\<not> double_dash (u @ v) \<Longrightarrow> \<not> double_dash u \<and> \<not> double_dash v"
proof (induction u)
  case (Cons c u)
  then show ?case by (cases u; cases v) auto
qed simp

lemma strip_char_parts:
  obtains u v where "s = u @ strip_char d s @ v" "strip_char d s \<noteq> [] \<longrightarrow> hd (strip_char d s) \<noteq> d \<and> last (strip_char d s) \<noteq> d"
proof -
  define m where "m = dropWhile (\<lambda>c. c = d) s"
  define u where "u = takeWhile (\<lambda>c. c = d) s"
  define t where "t = rev (dropWhile (\<lambda>c. c = d) (rev m))"
  define v where "v = rev (takeWhile (\<lambda>c. c = d) (rev m))"
  have m: "m = t @ v" unfolding t_def v_def rev_append [symmetric] by simp
  have s: "s = u @ t @ v" unfolding m [symmetric] by (simp add: u_def m_def)
  have l: "t \<noteq> [] \<Longrightarrow> last t \<noteq> d" using hd_dropWhile [of "\<lambda>c. c = d" "rev m"] by (simp add: t_def last_rev)
  have "hd m \<noteq> d" if "m \<noteq> []" using hd_dropWhile [of "\<lambda>c. c = d" s] that unfolding m_def by blast
  then have h: "t \<noteq> [] \<Longrightarrow> hd t \<noteq> d" using m by simp
  have q: "strip_char d s = t" by (simp only: strip_char_def lstrip_char_def t_def m_def)
  show ?thesis
  proof (rule that [of u v])
    show "s = u @ strip_char d s @ v" unfolding q by (rule s)
    show "strip_char d s \<noteq> [] \<longrightarrow> hd (strip_char d s) \<noteq> d \<and> last (strip_char d s) \<noteq> d" unfolding q using l h by blast
  qed
qed


text \<open>Characters as numbers: what the classes and the case conversions are.\<close>

lemmas char_class_defs = is_alnum_def is_alpha_def is_upper_def is_lower_def is_digit_def less_eq_char_def

lemma char_of_nat_of [simp]: "n < 256 \<Longrightarrow> of_char (char_of n :: char) = (n :: nat)"
  by simp

lemma of_char_le: "of_char (c :: char) < (256 :: nat)"
  by (metis of_char_mod_256 mod_less_divisor zero_less_numeral)

lemma lower_slug: "is_alnum c \<Longrightarrow> slug_alphabet (lower_char c)"
  using of_char_le [of c] by (auto simp: char_class_defs slug_alphabet_def lower_char_def Let_def)

lemma lower_char_id: "is_lower c \<or> is_digit c \<or> c = dash \<Longrightarrow> lower_char c = c"
  by (auto simp: char_class_defs lower_char_def Let_def dash_def)

lemma slug_char_alphabet: "x \<in> set (slug_char (lower_char c)) \<Longrightarrow> slug_alphabet x"
  using of_char_le [of c]
  by (auto simp: slug_char_def slug_alphabet_def char_class_defs lower_char_def Let_def split: if_splits)

lemma slug_char_id: "slug_alphabet c \<Longrightarrow> slug_char c = [c]"
  by (auto simp: slug_char_def slug_alphabet_def is_alnum_def is_alpha_def)

lemma slug_no_space: "slug_alphabet c \<Longrightarrow> \<not> is_space c"
  by (auto simp: slug_alphabet_def char_class_defs is_space_def Let_def dash_def)

lemma trim_none:
  assumes "s \<noteq> [] \<Longrightarrow> \<not> P (hd s) \<and> \<not> P (last s)"
  shows "rev (dropWhile P (rev (dropWhile P s))) = s"
proof (cases "s = []")
  case False
  have "dropWhile P s = s" using assms False by (simp add: dropWhile_eq_self_iff)
  moreover have "dropWhile P (rev s) = rev s" using assms False by (simp add: dropWhile_eq_self_iff hd_rev)
  ultimately show ?thesis by (metis rev_rev_ident)
qed simp

lemma strip_none: "(s \<noteq> [] \<Longrightarrow> \<not> is_space (hd s) \<and> \<not> is_space (last s)) \<Longrightarrow> py_strip s = s"
  unfolding py_strip_def by (rule trim_none)

lemma strip_char_none: "(s \<noteq> [] \<Longrightarrow> hd s \<noteq> d \<and> last s \<noteq> d) \<Longrightarrow> strip_char d s = s"
  unfolding strip_char_def lstrip_char_def by (rule trim_none)

text \<open>
  Making a slug ends on every text, and the result is one: lower-case letters, digits and
  single dashes, with no dash at either end; a slug is left as it is.
\<close>

theorem slugify_terminates: "\<exists>t. slugify s = Some t \<and> is_slug t \<and> slugify t = Some t"
proof -
  define r where "r = concat (map slug_char (py_lower (py_strip s)))"
  have r: "\<forall>c\<in>set r. slug_alphabet c" using slug_char_alphabet by (auto simp: r_def py_lower_def)
  obtain u where u: "while_option double_dash halve_dashes r = Some u" "\<not> double_dash u" "set u \<subseteq> set r"
    using collapse_dashes by blast
  define t where "t = strip_char dash u"
  obtain a b where ab: "u = a @ t @ b" "t \<noteq> [] \<longrightarrow> hd t \<noteq> dash \<and> last t \<noteq> dash"
    unfolding t_def using strip_char_parts [of u dash] by blast
  have alpha: "\<forall>c\<in>set t. slug_alphabet c" using r u(3) ab(1) by auto
  have dd: "\<not> double_dash t" using double_dash_append u(2) ab(1) by metis
  have "py_strip t = t" using alpha slug_no_space by (intro strip_none) auto
  moreover have "py_lower t = t"
    using alpha lower_char_id by (auto simp: py_lower_def slug_alphabet_def intro!: map_idI)
  moreover have "concat (map slug_char t) = t"
    using alpha by (induction t) (auto simp: slug_char_id)
  ultimately have "slugify t = Some t"
    using dd strip_char_none ab(2) by (simp add: slugify_def while_option_unfold)
  then show ?thesis using u(1) alpha dd ab(2) by (auto simp: slugify_def is_slug_def t_def r_def [symmetric])
qed


section \<open>Round trips\<close>

lemma digit_range: "is_digit c \<longleftrightarrow> 48 \<le> (of_char c :: nat) \<and> (of_char c :: nat) \<le> 57"
  by (auto simp: is_digit_def less_eq_char_def)

lemma digit_char: "d < 10 \<Longrightarrow> is_digit (char_of (48 + d)) \<and> digit_value (char_of (48 + d)) = d"
  by (simp add: digit_range digit_value_def)

lemma numeral_value_snoc: "numeral_value b (s @ [c]) = b * numeral_value b s + digit_value c"
  by (simp add: numeral_value_def)

lemma show_nat_digits: "show_nat n \<noteq> [] \<and> (\<forall>c\<in>set (show_nat n). is_digit c) \<and> numeral_value 10 (show_nat n) = n"
proof (induction n rule: show_nat.induct)
  case (1 n)
  show ?case
  proof (cases "n < 10")
    case True
    then have "show_nat n = [char_of (48 + n)]" by (subst show_nat.simps) simp
    then show ?thesis using True digit_char [of n] by (simp add: numeral_value_def)
  next
    case False
    then have "show_nat n = show_nat (n div 10) @ [char_of (48 + n mod 10)]" by (subst show_nat.simps) simp
    then show ?thesis using 1 False digit_char [of "n mod 10"] by (auto simp: numeral_value_snoc)
  qed
qed

lemma take_digits:
  assumes "s = [] \<or> \<not> is_digit (hd s)"
  shows "takeWhile is_digit (show_nat n @ s) = show_nat n \<and> dropWhile is_digit (show_nat n @ s) = s"
  using assms show_nat_digits [of n] by (cases s) (auto simp: takeWhile_append2 dropWhile_append2)

lemma rle_from_head: "rle_from c n s \<noteq> [] \<and> hd (rle_from c n s) = c"
  by (induction c n s rule: rle_from.induct) auto

lemma decode_rle_from:
  assumes "\<not> is_digit c" "\<forall>x\<in>set s. \<not> is_digit x"
  shows "run_length_decode (rle_from c n s) = replicate n c @ s"
  using assms
proof (induction c n s rule: rle_from.induct)
  case (1 prev n)
  have t: "takeWhile is_digit (show_nat n) = show_nat n" "dropWhile is_digit (show_nat n) = []"
    using show_nat_digits [of n] by auto
  show ?case using show_nat_digits [of n] by (simp add: t)
next
  case (2 prev n c s)
  show ?case
  proof (cases "c = prev")
    case True
    then show ?thesis using 2 by (simp add: replicate_append_same)
  next
    case False
    have h: "rle_from c 1 s = [] \<or> \<not> is_digit (hd (rle_from c 1 s))" using rle_from_head [of c 1 s] 2(4) by simp
    show ?thesis using False 2 take_digits [OF h, of n] show_nat_digits [of n] by simp
  qed
qed

text \<open>
  The run-length encoding of a text without digits decodes to the text.
\<close>

theorem run_length_round_trip: "(\<forall>c\<in>set s. \<not> is_digit c) \<Longrightarrow> run_length_decode (run_length_encode s) = s"
  by (cases s) (simp_all add: decode_rle_from)

theorem run_length_round_trip_witness: "run_length_decode (run_length_encode ''aaabbc'') = ''aaabbc''"
  by (rule run_length_round_trip) (simp add: digit_range)

text \<open>A text with digits need not come back.\<close>

lemma run_length_digits_lost: "run_length_decode (run_length_encode ''a12'') \<noteq> ''a12''"
  by code_simp

lemma caesar_char_back: "caesar_char (- 3) (caesar_char 3 c) = c"
proof (cases "is_alpha c")
  case False
  then show ?thesis by (simp add: caesar_char_def)
next
  case True
  define b :: int where "b = (if is_upper c then 65 else 97)"
  define o0 where "o0 = ord c - b"
  have oc: "ord d = int (of_char d)" for d by (simp add: ord_def of_nat_of_char)
  have o0: "0 \<le> o0" "o0 < 26" using True by (auto simp: o0_def b_def oc char_class_defs)
  define x where "x = (o0 + 3) mod 26"
  have x: "0 \<le> x" "x < 26" by (simp_all add: x_def)
  have e: "caesar_char 3 c = chr (x + b)" using True by (simp add: caesar_char_def Let_def x_def o0_def b_def)
  have n: "nat (x + b) < 256" using x by (auto simp: b_def)
  have ox: "ord (chr (x + b)) = x + b" using x n by (simp add: oc chr_def b_def)
  have up: "is_upper (chr (x + b)) \<longleftrightarrow> is_upper c"
    using x n by (auto simp: chr_def is_upper_def less_eq_char_def b_def)
  have al: "is_alpha (chr (x + b))"
    using x n True by (auto simp: chr_def char_class_defs b_def split: if_splits)
  have "caesar_char (- 3) (chr (x + b)) = chr ((x - 3) mod 26 + b)"
    using al up ox by (simp add: caesar_char_def Let_def b_def)
  also have "(x - 3) mod 26 = o0" using o0 by (simp add: x_def mod_diff_left_eq)
  also have "chr (o0 + b) = c" by (simp add: o0_def chr_def ord_def)
  finally show ?thesis using e by simp
qed

lemma caesar_round_trip: "caesar_decode (caesar_encode s) = s"
  by (simp add: caesar_decode_def caesar_encode_def caesar_char_back map_idI)

lemma hex_digit: "d < 16 \<Longrightarrow> digit_value (hex_chars ! d) = d"
  by (simp add: hex_chars_def digit_value_def is_digit_def less_eq_char_def nth_Cons' numeral_eq_Suc less_Suc_eq) auto

lemma base_digits_value:
  assumes "1 < b" "b \<le> 16"
  shows "numeral_value b (base_digits b n ds) = foldl (\<lambda>v c. b * v + digit_value c) n ds"
  using assms
proof (induction b n ds rule: base_digits.induct)
  case (1 b n ds)
  show ?case
  proof (cases "n = 0")
    case True
    then show ?thesis by (subst base_digits.simps) (simp add: numeral_value_def)
  next
    case False
    have "numeral_value b (base_digits b n ds) =
        foldl (\<lambda>v c. b * v + digit_value c) (n div b) (hex_chars ! (n mod b) # ds)"
      using 1 False by (subst base_digits.simps) simp
    also have "\<dots> = foldl (\<lambda>v c. b * v + digit_value c) n ds"
      using 1(2,3) hex_digit [OF less_le_trans [OF mod_less_divisor [of b n]]] by simp
    finally show ?thesis .
  qed
qed

lemma base_digits_head: "1 < b \<Longrightarrow> b \<le> 16 \<Longrightarrow> 0 < n \<Longrightarrow>
    base_digits b n ds \<noteq> [] \<and> hd (base_digits b n ds) \<noteq> CHR ''0'' \<and> hd (base_digits b n ds) \<noteq> dash"
proof (induction b n ds rule: base_digits.induct)
  case (1 b n ds)
  let ?ds = "hex_chars ! (n mod b) # ds"
  have u: "base_digits b n ds = base_digits b (n div b) ?ds" using 1(2,4) by (subst base_digits.simps) simp
  show ?case
  proof (cases "n div b = 0")
    case True
    then have "n mod b = n" "n < 16" using 1(2,3) by (auto simp: div_eq_0_iff)
    moreover have "hex_chars ! n \<noteq> CHR ''0'' \<and> hex_chars ! n \<noteq> dash"
      using 1(4) \<open>n < 16\<close> by (simp add: hex_chars_def dash_def nth_Cons' numeral_eq_Suc less_Suc_eq) auto
    ultimately show ?thesis unfolding u using True by (subst (1 2 3) base_digits.simps) simp
  next
    case False
    then show ?thesis unfolding u using 1 by simp
  qed
qed

text \<open>What a numeral with an optional sign stands for.\<close>

definition signed_value :: "nat \<Rightarrow> string \<Rightarrow> int" where
  "signed_value b s = (if s \<noteq> [] \<and> hd s = dash then - int (numeral_value b (tl s)) else int (numeral_value b s))"

lemma to_base_value:
  assumes "1 < b" "b \<le> 16"
  shows "signed_value b (to_base b n) = n"
proof (cases "n = 0")
  case True
  then show ?thesis by (simp add: to_base_def signed_value_def dash_def numeral_value_def digit_value_def is_digit_def)
next
  case False
  have "numeral_value b (base_digits b (nat \<bar>n\<bar>) []) = nat \<bar>n\<bar>" using base_digits_value [OF assms] by simp
  moreover have "hd (base_digits b (nat \<bar>n\<bar>) []) \<noteq> dash" using base_digits_head [OF assms] False by simp
  ultimately show ?thesis using False by (auto simp: to_base_def signed_value_def dash_def)
qed

text \<open>
  The binary and the hexadecimal numeral of a number have its value; only zero begins with a zero.
\<close>

lemma converters_represent:
  "signed_value 2 (decimal_to_binary n) = n" "signed_value 16 (decimal_to_hex n) = n"
  "n > 0 \<Longrightarrow> hd (decimal_to_binary n) \<noteq> CHR ''0'' \<and> hd (decimal_to_hex n) \<noteq> CHR ''0''"
  by (simp_all add: decimal_to_binary_def decimal_to_hex_def to_base_value)
    (simp add: to_base_def base_digits_head)


section \<open>Checks\<close>

lemma luhn_term_small: "d < 10 \<Longrightarrow> luhn_term i d < 10"
  by (auto simp: luhn_term_def)

lemma luhn_term_inj: "d < 10 \<Longrightarrow> e < 10 \<Longrightarrow> luhn_term i d = luhn_term i e \<Longrightarrow> d = e"
  unfolding luhn_term_def by (simp split: if_splits) presburger+

lemma luhn_total_append: "luhn_total i (us @ vs) = luhn_total i us + luhn_total (i + length us) vs"
  by (induction us arbitrary: i) simp_all

lemma digit_value_small: "is_digit c \<Longrightarrow> digit_value c < 10"
  by (auto simp: digit_value_def digit_range)

lemma same_last_digit:
  assumes "(a + x + z) mod 10 = 0" "(a + y + z) mod 10 = 0" "x < 10" "y < (10 :: nat)"
  shows "x = y"
proof -
  have no: "\<not> p < q" if "10 dvd a + p + z" "10 dvd a + q + z" "q < 10" for p q
  proof
    assume l: "p < q"
    have "10 dvd (a + q + z) - (a + p + z)" by (rule dvd_diff_nat [OF that(2,1)])
    then have "10 dvd q - p" by simp
    then have "10 \<le> q - p" using l by (intro dvd_imp_le) simp_all
    then show False using that(3) by simp
  qed
  have "10 dvd a + x + z" "10 dvd a + y + z" using assms(1,2) by (simp_all add: dvd_eq_mod_eq_0)
  then show ?thesis using no [of x y] no [of y x] assms(3,4) by simp
qed

lemma digit_value_inj: "is_digit c \<Longrightarrow> is_digit d \<Longrightarrow> digit_value c = digit_value d \<Longrightarrow> c = d"
  by (auto simp: digit_value_def digit_range) (metis char_of_char diff_add_inverse2 le_add_diff_inverse2)

text \<open>
  The check of a number finds every error in a single digit: a valid number is not valid
  any more when one of its digits is replaced by another digit.
\<close>

theorem luhn_finds_single_errors:
  assumes "luhn_check (u @ [c] @ v)" "is_digit c" "is_digit d" "c \<noteq> d"
  shows "\<not> luhn_check (u @ [d] @ v)"
proof
  assume other: "luhn_check (u @ [d] @ v)"
  define k where "k = length (filter is_digit v)"
  define a where "a = luhn_total 0 (rev (map digit_value (filter is_digit v)))"
  define z where "z = luhn_total (k + 1) (rev (map digit_value (filter is_digit u)))"
  have total: "luhn_total 0 (rev (map digit_value (filter is_digit (u @ [x] @ v)))) = a + luhn_term k (digit_value x) + z"
    if "is_digit x" for x
    using that by (simp add: luhn_total_append a_def z_def k_def)
  let ?c = "luhn_term k (digit_value c)" and ?d = "luhn_term k (digit_value d)"
  have m: "luhn_total 0 (rev (map digit_value (filter is_digit s))) mod 10 = 0" if "luhn_check s" for s
    using that unfolding luhn_check_def Let_def by blast
  have "(a + ?c + z) mod 10 = 0" "(a + ?d + z) mod 10 = 0"
    using m [OF assms(1)] m [OF other] unfolding total [OF assms(2)] total [OF assms(3)] by blast+
  moreover have "?c < 10" "?d < 10" using assms(2,3) digit_value_small luhn_term_small by blast+
  ultimately have "?c = ?d" by (rule same_last_digit)
  then have "c = d"
    using luhn_term_inj digit_value_inj digit_value_small assms(2,3) by blast
  then show False using assms(4) by simp
qed

theorem luhn_finds_single_errors_witness: "\<not> luhn_check ''4532015112830367''"
proof -
  have "\<not> luhn_check (''453201511283036'' @ [CHR ''7''] @ [])"
  proof (rule luhn_finds_single_errors)
    show "luhn_check (''453201511283036'' @ [CHR ''6''] @ [])" by code_simp
  qed (simp_all add: is_digit_def less_eq_char_def)
  then show ?thesis by simp
qed

text \<open>Balanced texts as a grammar: other characters, and bracketed parts in a row.\<close>

definition opens :: "char \<Rightarrow> bool" where
  "opens c \<longleftrightarrow> c \<in> set ''([{''"

definition shuts :: "char \<Rightarrow> bool" where
  "shuts c \<longleftrightarrow> c \<in> set '')]}''"

inductive bracketed :: "string \<Rightarrow> bool" where
  empty: "bracketed []"
| other: "\<not> opens c \<Longrightarrow> \<not> shuts c \<Longrightarrow> bracketed s \<Longrightarrow> bracketed (c # s)"
| nest: "opens b \<Longrightarrow> bracketed s \<Longrightarrow> bracketed t \<Longrightarrow> bracketed (b # s @ closer_of b # t)"

inductive_cases bracketed_ConsE: "bracketed (c # s)"

lemma closer_shuts: "shuts (closer_of b)"
  by (simp add: closer_of_def shuts_def)

lemma opens_not_shuts: "opens c \<Longrightarrow> \<not> shuts c"
  by (auto simp: opens_def shuts_def)

lemma bracketed_closer: "shuts c \<Longrightarrow> \<not> bracketed (c # s)"
  using opens_not_shuts by (blast elim: bracketed_ConsE)

lemma bracketed_open: "opens b \<Longrightarrow> bracketed (b # s) \<longleftrightarrow> (\<exists>u v. s = u @ closer_of b # v \<and> bracketed u \<and> bracketed v)"
  by (rule iffI) (blast elim: bracketed_ConsE, blast intro: bracketed.nest)

lemma bracketed_other: "\<not> opens c \<Longrightarrow> \<not> shuts c \<Longrightarrow> bracketed (c # s) \<longleftrightarrow> bracketed s"
  by (rule iffI) (blast elim: bracketed_ConsE, blast intro: bracketed.other)

text \<open>What may follow when the brackets on the stack are open.\<close>

fun closes :: "string \<Rightarrow> string \<Rightarrow> bool" where
  "closes [] s \<longleftrightarrow> bracketed s"
| "closes (b # stack) s \<longleftrightarrow> (\<exists>u v. s = u @ closer_of b # v \<and> bracketed u \<and> closes stack v)"

lemma closes_Nil: "closes stack [] \<longleftrightarrow> stack = []"
  by (cases stack) (auto intro: bracketed.empty)

lemma brackets_from_closes: "brackets_from stack s \<longleftrightarrow> closes stack s"
proof (induction s arbitrary: stack)
  case Nil
  show ?case by (simp add: closes_Nil)
next
  case (Cons c s)
  consider (left) "opens c" | (shut) "shuts c" "\<not> opens c" | (other) "\<not> opens c" "\<not> shuts c" by blast
  then show ?case
  proof cases
    case left
    have step: "closes (c # stack) s \<longleftrightarrow> closes stack (c # s)"
    proof (cases stack)
      case Nil
      then show ?thesis using bracketed_open [OF left] by auto
    next
      case (Cons b rest)
      have "c \<noteq> closer_of b" using left opens_not_shuts closer_shuts by blast
      then have r: "closes stack (c # s) \<longleftrightarrow> (\<exists>u v. s = u @ closer_of b # v \<and> bracketed (c # u) \<and> closes rest v)"
        unfolding Cons closes.simps by (auto simp: Cons_eq_append_conv)
      have "(\<exists>u v. s = u @ closer_of b # v \<and> bracketed (c # u) \<and> closes rest v) \<longleftrightarrow>
          (\<exists>p q v. s = p @ closer_of c # q @ closer_of b # v \<and> bracketed p \<and> bracketed q \<and> closes rest v)"
        unfolding bracketed_open [OF left] by (metis append.assoc append_Cons)
      also have "\<dots> \<longleftrightarrow> closes (c # stack) s" unfolding Cons closes.simps by blast
      finally show ?thesis using r by simp
    qed
    have "brackets_from stack (c # s) \<longleftrightarrow> brackets_from (c # stack) s" using left by (auto simp: opens_def)
    then show ?thesis using Cons.IH step by blast
  next
    case shut
    have l: "brackets_from stack (c # s) \<longleftrightarrow>
        (case stack of [] \<Rightarrow> False | b # rest \<Rightarrow> closer_of b = c \<and> brackets_from rest s)"
      using shut unfolding opens_def shuts_def by (simp split: list.split)
    show ?thesis
    proof (cases stack)
      case Nil
      then show ?thesis using l bracketed_closer [OF shut(1)] by simp
    next
      case (Cons b rest)
      have "closes stack (c # s) \<longleftrightarrow> closer_of b = c \<and> closes rest s"
        unfolding Cons closes.simps using bracketed_closer [OF shut(1)] by (auto simp: Cons_eq_append_conv intro: bracketed.empty)
      then show ?thesis using l Cons Cons.IH by simp
    qed
  next
    case other
    have l: "brackets_from stack (c # s) \<longleftrightarrow> brackets_from stack s"
      using other unfolding opens_def shuts_def by simp
    have "closes stack (c # s) \<longleftrightarrow> closes stack s"
    proof (cases stack)
      case Nil
      then show ?thesis using bracketed_other [OF other] by simp
    next
      case (Cons b rest)
      have "c \<noteq> closer_of b" using other closer_shuts by blast
      then show ?thesis unfolding Cons closes.simps
        using bracketed_other [OF other] by (auto simp: Cons_eq_append_conv)
    qed
    then show ?thesis using l Cons.IH by simp
  qed
qed


lemma duplicate_from_iff: "duplicate_from seen ws \<longleftrightarrow> \<not> (distinct ws \<and> set ws \<inter> set seen = {})"
  by (induction ws arbitrary: seen) auto

lemma has_duplicate_words_iff: "has_duplicate_words s \<longleftrightarrow> \<not> distinct (py_words (py_lower s))"
  by (simp add: has_duplicate_words_def duplicate_from_iff)

text \<open>A masked text shows its length and two characters at either end, and nothing of a short text.\<close>

lemma mask_hides_middle:
  "length (mask_sensitive_middle s) = length s"
  "length s = length t \<Longrightarrow> take 2 s = take 2 t \<Longrightarrow> drop (length s - 2) s = drop (length t - 2) t \<Longrightarrow>
     mask_sensitive_middle s = mask_sensitive_middle t"
  by (auto simp: mask_sensitive_middle_def)

end
