(* ===== verification/Node_Roles.thy ===== *)
theory Node_Roles
  imports Templates Shell
begin

text \<open>
  The sandbox that tries a generated tool on the tests of its specification
  (\<open>infrastructure/agent_factory/sandbox.py\<close>), the baseline capabilities and their publication at
  start-up (\<open>infrastructure/seed_capabilities.py\<close>), and the ready-made node roles
  (\<open>infrastructure/node_roles.py\<close>).

  Executing the source text of a tool is an argument: the function its \<open>run\<close> computes, or the
  error of loading it; so is how the process of the sandbox ends.
\<close>

section \<open>The sandbox\<close>

text \<open>\<open>==\<close> of Python: truth values are numbers, dictionaries are compared without order.\<close>

definition as_number :: "pyval \<Rightarrow> real option" where
  "as_number v =
     (case v of PBool b \<Rightarrow> Some (if b then 1 else 0) | PInt i \<Rightarrow> Some (of_int i) | PFloat x \<Rightarrow> Some x | _ \<Rightarrow> None)"

function py_eq :: "pyval \<Rightarrow> pyval \<Rightarrow> bool" where
  "py_eq v w =
     (case (v, w) of
        (PNone, PNone) \<Rightarrow> True
      | (PStr s, PStr t) \<Rightarrow> s = t
      | (PList xs, PList ys) \<Rightarrow> length xs = length ys \<and> (\<forall>p\<in>set (zip xs ys). py_eq (fst p) (snd p))
      | (PDict d, PDict e) \<Rightarrow>
          length d = length e \<and> (\<forall>p\<in>set d. case dget e (fst p) of None \<Rightarrow> False | Some u \<Rightarrow> py_eq (snd p) u)
      | _ \<Rightarrow> as_number v \<noteq> None \<and> as_number v = as_number w)"
  by pat_completeness auto
termination
  by (relation "measure (\<lambda>(v, w). size v)")
    (auto dest!: set_zip_leftD simp: less_Suc_eq_le size_list_estimation' trans_le_add1)

datatype process_end = TimedOut | NoOutput | Finished

record case_result =
  cr_input :: pyval
  cr_output :: "string + pyval"
  cr_expected :: pyval
  cr_passed :: bool

record sandbox_result =
  sb_all_passed :: bool
  sb_load_error :: "string option"
  sb_results :: "case_result list"

definition sandbox_summary :: "sandbox_result \<Rightarrow> string" where
  "sandbox_summary r =
     (case sb_load_error r of
        Some (c # e) \<Rightarrow> ''failed to load: '' @ (c # e)
      | _ \<Rightarrow> show_nat (length (filter cr_passed (sb_results r))) @ ''/'' @ show_nat (length (sb_results r)) @ '' test cases passed'')"

definition run_case :: "(pyval \<Rightarrow> raised + pyval) \<Rightarrow> test_case \<Rightarrow> case_result" where
  "run_case tool c =
     (case tool (tc_input c) of
        Inl x \<Rightarrow> \<lparr>cr_input = tc_input c, cr_output = Inl (snd x), cr_expected = tc_expected c, cr_passed = False\<rparr>
      | Inr v \<Rightarrow> \<lparr>cr_input = tc_input c, cr_output = Inr v, cr_expected = tc_expected c, cr_passed = py_eq v (tc_expected c)\<rparr>)"

definition failed_run :: "string \<Rightarrow> sandbox_result" where
  "failed_run e = \<lparr>sb_all_passed = False, sb_load_error = Some e, sb_results = []\<rparr>"

definition sandbox_run ::
    "(string \<Rightarrow> string + (pyval \<Rightarrow> raised + pyval)) \<Rightarrow> process_end \<Rightarrow> string \<Rightarrow> agent_spec \<Rightarrow> sandbox_result" where
  "sandbox_run load ending source sp =
     (case ending of
        TimedOut \<Rightarrow> failed_run ''sandbox timed out''
      | NoOutput \<Rightarrow> failed_run ''sandbox produced no output (crashed?)''
      | Finished \<Rightarrow>
          (case load source of
             Inl e \<Rightarrow>
               if e \<noteq> [] then failed_run e else \<lparr>sb_all_passed = False, sb_load_error = None, sb_results = []\<rparr>
           | Inr tool \<Rightarrow>
               (let rs = map (run_case tool) (sp_tests sp) in
                \<lparr>sb_all_passed = rs \<noteq> [] \<and> (\<forall>r\<in>set rs. cr_passed r), sb_load_error = None, sb_results = rs\<rparr>)))"

section \<open>Baseline capabilities\<close>

definition role_spec :: "string \<Rightarrow> string \<Rightarrow> string \<Rightarrow> string \<Rightarrow> test_case list \<Rightarrow> agent_spec" where
  "role_spec name cap desc tpl tests =
     \<lparr>sp_name = name, sp_capability = cap, sp_description = desc, sp_template = tpl, sp_tests = tests\<rparr>"

definition default_specs :: "agent_spec list" where
  "default_specs = [
      role_spec ''uppercaser'' ''text.uppercase'' ''Converts text to uppercase'' ''uppercase''
        [\<lparr>tc_input = PStr ''hello world'', tc_expected = PStr ''HELLO WORLD''\<rparr>],
      role_spec ''lowercaser'' ''text.lowercase'' ''Converts text to lowercase'' ''lowercase''
        [\<lparr>tc_input = PStr ''HELLO WORLD'', tc_expected = PStr ''hello world''\<rparr>],
      role_spec ''reverser'' ''text.reverse'' ''Reverses the order of text characters'' ''reverse_text''
        [\<lparr>tc_input = PStr ''abc'', tc_expected = PStr ''cba''\<rparr>],
      role_spec ''word_counter'' ''text.word_count'' ''Counts words in text'' ''word_count''
        [\<lparr>tc_input = PStr ''one two three'', tc_expected = PInt 3\<rparr>],
      role_spec ''char_counter'' ''text.char_count'' ''Counts characters in text'' ''char_count''
        [\<lparr>tc_input = PStr ''abcd'', tc_expected = PInt 4\<rparr>],
      role_spec ''palindrome_checker'' ''text.is_palindrome'' ''Checks whether text is a palindrome while ignoring case and symbols'' ''is_palindrome''
        [\<lparr>tc_input = PStr ''a man a plan a canal panama'', tc_expected = PBool True\<rparr>, \<lparr>tc_input = PStr ''hello'', tc_expected = PBool False\<rparr>],
      role_spec ''word_sorter'' ''text.sort_words'' ''Sorts text words alphabetically'' ''sort_words''
        [\<lparr>tc_input = PStr ''banana apple cherry'', tc_expected = PStr ''apple banana cherry''\<rparr>]]"

text \<open>
  The environment of the registry (clock, identifier, signature) of each publication is in \<open>cenvs\<close>.
  Only a rejected binding is caught; the capabilities published before another exception are lost
  from the answer, not from the registry.
\<close>

fun seed_capabilities :: "build_env \<Rightarrow> cap_env list \<Rightarrow> agent_spec list \<Rightarrow> factory \<Rightarrow> (raised + string list) \<times> factory" where
  "seed_capabilities benv (ce # cenvs) (sp # specs) f =
     (case find_by_name (sp_capability sp) (cl_registry (fa_layer f)) of
        None \<Rightarrow> (Inl (''KeyError'', sp_capability sp), f)
      | Some (d # ds) \<Rightarrow> seed_capabilities benv cenvs specs f
      | Some [] \<Rightarrow>
          (case build_and_bind benv ce sp f of
             (Inl x, f1) \<Rightarrow>
               if fst x = ''CapabilityBindingRejected'' then seed_capabilities benv cenvs specs f1 else (Inl x, f1)
           | (Inr _, f1) \<Rightarrow>
               (let (res, f2) = seed_capabilities benv cenvs specs f1 in (map_sum id ((#) (sp_capability sp)) res, f2))))"
| "seed_capabilities benv _ _ f = (Inr [], f)"

section \<open>Node roles\<close>

record node_role =
  nr_id :: string
  nr_label :: string
  nr_description :: string
  nr_specs :: "agent_spec list"

definition text_node_extra :: "agent_spec list" where
  "text_node_extra = [
      role_spec ''title_caser'' ''text.title_case'' ''Converts the first letter of every word to uppercase'' ''title_case''
        [\<lparr>tc_input = PStr ''hello world'', tc_expected = PStr ''Hello World''\<rparr>],
      role_spec ''whitespace_remover'' ''text.remove_whitespace'' ''Removes all whitespace from text'' ''remove_whitespace''
        [\<lparr>tc_input = PStr ''a b  c'', tc_expected = PStr ''abc''\<rparr>],
      role_spec ''vowel_counter'' ''text.vowel_count'' ''Counts English vowels in text'' ''vowel_count''
        [\<lparr>tc_input = PStr ''Hello World'', tc_expected = PInt 3\<rparr>]]"

definition cipher_node_specs :: "agent_spec list" where
  "cipher_node_specs = [
      role_spec ''caesar_encoder'' ''cipher.caesar_encode'' ''Encodes text with a Caesar cipher (shift 3)'' ''caesar_encode''
        [\<lparr>tc_input = PStr ''abc'', tc_expected = PStr ''def''\<rparr>],
      role_spec ''caesar_decoder'' ''cipher.caesar_decode'' ''Decodes a Caesar cipher (shift 3)'' ''caesar_decode''
        [\<lparr>tc_input = PStr ''def'', tc_expected = PStr ''abc''\<rparr>],
      role_spec ''rle_encoder'' ''cipher.run_length_encode'' ''Run-length encoding'' ''run_length_encode''
        [\<lparr>tc_input = PStr ''aaabbc'', tc_expected = PStr ''a3b2c1''\<rparr>],
      role_spec ''rle_decoder'' ''cipher.run_length_decode'' ''Run-length decoding'' ''run_length_decode''
        [\<lparr>tc_input = PStr ''a3b2c1'', tc_expected = PStr ''aaabbc''\<rparr>],
      role_spec ''checksum_calculator'' ''cipher.checksum_sum'' ''Simple checksum: sum of character values modulo 256'' ''checksum_sum''
        [\<lparr>tc_input = PStr ''abc'', tc_expected = PInt 38\<rparr>]]"

definition numeric_node_specs :: "agent_spec list" where
  "numeric_node_specs = [
      role_spec ''digit_summer'' ''numeric.digit_sum'' ''Sums all digits found in text'' ''digit_sum''
        [\<lparr>tc_input = PStr ''a1b2c3'', tc_expected = PInt 6\<rparr>],
      role_spec ''numeric_checker'' ''numeric.is_numeric'' ''Checks whether text represents an integer or decimal number'' ''is_numeric''
        [\<lparr>tc_input = PStr ''123'', tc_expected = PBool True\<rparr>],
      role_spec ''binary_converter'' ''numeric.decimal_to_binary'' ''Converts a decimal number to binary without bin()'' ''decimal_to_binary''
        [\<lparr>tc_input = PInt 10, tc_expected = PStr ''1010''\<rparr>],
      role_spec ''hex_converter'' ''numeric.decimal_to_hex'' ''Converts a decimal number to hexadecimal without hex()'' ''decimal_to_hex''
        [\<lparr>tc_input = PInt 255, tc_expected = PStr ''ff''\<rparr>],
      role_spec ''prime_checker'' ''numeric.is_prime'' ''Checks whether a number is prime'' ''is_prime''
        [\<lparr>tc_input = PInt 17, tc_expected = PBool True\<rparr>],
      role_spec ''factorial_calculator'' ''numeric.factorial'' ''Calculates the factorial of a non-negative integer'' ''factorial''
        [\<lparr>tc_input = PInt 5, tc_expected = PInt 120\<rparr>]]"

definition format_node_specs :: "agent_spec list" where
  "format_node_specs = [
      role_spec ''slugifier'' ''format.slugify'' ''Converts text to a URL-safe slug'' ''slugify''
        [\<lparr>tc_input = PStr ''Hello World!'', tc_expected = PStr ''hello-world''\<rparr>],
      role_spec ''snake_to_camel_converter'' ''format.snake_to_camel'' ''Converts snake_case to camelCase'' ''snake_to_camel''
        [\<lparr>tc_input = PStr ''hello_world'', tc_expected = PStr ''helloWorld''\<rparr>],
      role_spec ''camel_to_snake_converter'' ''format.camel_to_snake'' ''Converts camelCase to snake_case'' ''camel_to_snake''
        [\<lparr>tc_input = PStr ''helloWorld'', tc_expected = PStr ''hello_world''\<rparr>],
      role_spec ''html_tag_stripper'' ''format.strip_html_tags'' ''Strips HTML tags with no nested comments or CDATA support'' ''strip_html_tags''
        [\<lparr>tc_input = PStr ''<b>hi</b>'', tc_expected = PStr ''hi''\<rparr>],
      role_spec ''ellipsis_truncator'' ''format.truncate_ellipsis'' ''Truncates long text to twenty characters and adds an ellipsis'' ''truncate_ellipsis''
        [\<lparr>tc_input = PStr ''short'', tc_expected = PStr ''short''\<rparr>]]"

definition validation_node_specs :: "agent_spec list" where
  "validation_node_specs = [
      role_spec ''luhn_checker'' ''validation.luhn_check'' ''Validates a number with the Luhn algorithm for card or identifier formats'' ''luhn_check''
        [\<lparr>tc_input = PStr ''4532015112830366'', tc_expected = PBool True\<rparr>],
      role_spec ''bracket_balance_checker'' ''validation.is_balanced_brackets'' ''Checks whether brackets of every type are balanced in text'' ''is_balanced_brackets''
        [\<lparr>tc_input = PStr ''([{}])'', tc_expected = PBool True\<rparr>],
      role_spec ''duplicate_word_checker'' ''validation.has_duplicate_words'' ''Checks whether text contains a repeated word'' ''has_duplicate_words''
        [\<lparr>tc_input = PStr ''a b a'', tc_expected = PBool True\<rparr>],
      role_spec ''unique_word_counter'' ''validation.count_unique_words'' ''Counts distinct words in text'' ''count_unique_words''
        [\<lparr>tc_input = PStr ''a a b c'', tc_expected = PInt 3\<rparr>],
      role_spec ''sensitive_masker'' ''validation.mask_sensitive_middle'' ''Masks the middle of sensitive text, retaining its first and last two characters'' ''mask_sensitive_middle''
        [\<lparr>tc_input = PStr ''1234567890'', tc_expected = PStr ''12******90''\<rparr>],
      role_spec ''username_validator'' ''validation.is_valid_username'' ''Validates a username against simple rules'' ''is_valid_username''
        [\<lparr>tc_input = PStr ''user_123'', tc_expected = PBool True\<rparr>]]"

definition node_roles :: "(string, node_role) dict" where
  "node_roles =
     map (\<lambda>r. (nr_id r, r))
       [\<lparr>nr_id = ''text-node'', nr_label = ''Text node'',
         nr_description = ''Core text processing: case conversion, reversal, counting, sorting, and whitespace cleanup.'',
         nr_specs = default_specs @ text_node_extra\<rparr>,
        \<lparr>nr_id = ''cipher-node'', nr_label = ''Cipher node'',
         nr_description = ''Basic symbolic ciphers and encoding: Caesar, run-length, and checksum operations.'',
         nr_specs = cipher_node_specs\<rparr>,
        \<lparr>nr_id = ''numeric-node'', nr_label = ''Numeric node'',
         nr_description = ''Numeric operations: base conversion, primality checks, factorials, and digit sums.'',
         nr_specs = numeric_node_specs\<rparr>,
        \<lparr>nr_id = ''format-node'', nr_label = ''Format node'',
         nr_description = ''Text and identifier formatting: slugs, naming conversions, HTML cleanup, and truncation.'',
         nr_specs = format_node_specs\<rparr>,
        \<lparr>nr_id = ''validation-node'', nr_label = ''Validation node'',
         nr_description = ''Data validation and integrity: Luhn, bracket balancing, repetition checks, masking, and identifier validation.'',
         nr_specs = validation_node_specs\<rparr>]"

definition get_node_role :: "string \<Rightarrow> raised + node_role" where
  "get_node_role i =
     (case dget node_roles i of None \<Rightarrow> Inl (''ValueError'', ''Unknown node role: '' @ i) | Some r \<Rightarrow> Inr r)"

text \<open>
  The skills of a node (\<open>build_node\<close> of \<open>infrastructure/node_runtime.py\<close>): every specification of the
  role is built and bound, and the first failure stops the construction.
\<close>

fun bind_skills :: "build_env \<Rightarrow> cap_env list \<Rightarrow> agent_spec list \<Rightarrow> factory \<Rightarrow> (raised + nat) \<times> factory" where
  "bind_skills benv (ce # cenvs) (sp # specs) f =
     (case build_and_bind benv ce sp f of
        (Inl x, f1) \<Rightarrow> (Inl x, f1)
      | (Inr _, f1) \<Rightarrow> (let (res, f2) = bind_skills benv cenvs specs f1 in (map_sum id Suc res, f2)))"
| "bind_skills benv _ _ f = (Inr 0, f)"

definition build_node :: "build_env \<Rightarrow> cap_env list \<Rightarrow> string \<Rightarrow> factory \<Rightarrow> (raised + nat) \<times> factory" where
  "build_node benv cenvs role f =
     (case get_node_role role of Inl x \<Rightarrow> (Inl x, f) | Inr r \<Rightarrow> bind_skills benv cenvs (nr_specs r) f)"

end
