(* ===== verification/Node_Roles_Props.thy ===== *)
theory Node_Roles_Props
  imports Node_Roles Templates_Props Evolution_Props Capability_Props
begin

text \<open>
  The ready-made roles pass through the factory, and seeding the baseline twice publishes it once.
\<close>

section \<open>The roles and the factory\<close>

text \<open>A specification whose template passes all its tests, of which there is one at least.\<close>

definition sound_spec :: "(pyval \<Rightarrow> string) \<Rightarrow> agent_spec \<Rightarrow> bool" where
  "sound_spec repr sp \<longleftrightarrow>
     (case synthesize_template sp of
        Inl _ \<Rightarrow> False
      | Inr g \<Rightarrow> sp_tests sp \<noteq> [] \<and> (\<forall>c\<in>set (sp_tests sp). cr_passed (run_case (gt_run g repr) c)))"

lemma role_specs_sound: "\<forall>r\<in>set (dvals node_roles). \<forall>sp\<in>set (nr_specs r). sound_spec repr sp"
  by code_simp

text \<open>
  How the factory builds from templates: the source it gets from the synthesizer passes the static
  check and does what the template says when the sandbox executes it; no test reviewer is set.
\<close>

definition template_factory ::
    "(pyval \<Rightarrow> string) \<Rightarrow> (string \<Rightarrow> string + (pyval \<Rightarrow> raised + pyval)) \<Rightarrow> build_env \<Rightarrow> bool" where
  "template_factory repr load env \<longleftrightarrow>
     be_reviewer env = None \<and>
     (\<forall>sp g. synthesize_template sp = Inr g \<longrightarrow>
        (\<exists>src. be_synthesize env sp = Inr src \<and> load src = Inr (gt_run g repr) \<and> fst (static_analyze (be_parse env src)))) \<and>
     (\<forall>src sp. be_sandbox env src sp =
        (let r = sandbox_run load Finished src sp in (sb_all_passed r, sandbox_summary r)))"

lemma sound_spec_built:
  assumes env: "template_factory repr load env" and sp: "sound_spec repr sp"
  shows "br_approved (fst (build env sp b))"
proof -
  obtain g where g: "synthesize_template sp = Inr g" "sp_tests sp \<noteq> []"
    "\<forall>c\<in>set (sp_tests sp). cr_passed (run_case (gt_run g repr) c)"
    using sp by (auto simp: sound_spec_def split: sum.splits)
  obtain src where src: "be_synthesize env sp = Inr src" "load src = Inr (gt_run g repr)"
    "fst (static_analyze (be_parse env src))"
    using env g(1) unfolding template_factory_def by blast
  have nr: "be_reviewer env = None" using env by (simp add: template_factory_def)
  have sb: "fst (be_sandbox env src sp)"
    using env src(2) g(2,3) unfolding template_factory_def by (simp add: sandbox_run_def Let_def)
  show ?thesis
    using src(1,3) g(2) nr sb by (auto simp: build_def reviewed_spec_def Let_def split: prod.split)
qed

text \<open>The factory over the templates themselves: a source is the name of its template.\<close>

definition demo_load :: "string \<Rightarrow> string + (pyval \<Rightarrow> raised + pyval)" where
  "demo_load src = (case dget templates src of None \<Rightarrow> Inl ''no such template'' | Some body \<Rightarrow> Inr (body (\<lambda>_. [])))"

definition demo_factory_env :: build_env where
  "demo_factory_env =
     \<lparr>be_synthesize = (\<lambda>sp. case synthesize_template sp of Inl x \<Rightarrow> Inl (snd x) | Inr _ \<Rightarrow> Inr (sp_template sp)),
      be_parse = (\<lambda>_. Inr []),
      be_sandbox = (\<lambda>src sp. let r = sandbox_run demo_load Finished src sp in (sb_all_passed r, sandbox_summary r)),
      be_reviewer = None\<rparr>"

lemma demo_factory: "template_factory (\<lambda>_. []) demo_load demo_factory_env"
  by (auto simp: template_factory_def demo_factory_env_def synthesize_template_def demo_load_def static_analyze_def Let_def
      split: option.splits)

section \<open>Seeding\<close>

abbreviation registry_of :: "factory \<Rightarrow> registry" where
  "registry_of f \<equiv> cl_registry (fa_layer f)"

definition published_names :: "factory \<Rightarrow> string set" where
  "published_names f = snd ` set (dkeys (cr_latest (registry_of f)))"

lemma those_map_Some: "(\<And>x. x \<in> set xs \<Longrightarrow> g x \<noteq> None) \<Longrightarrow> those (map g xs) = Some (map (\<lambda>x. the (g x)) xs)"
proof (induction xs)
  case (Cons a xs)
  then obtain y where "g a = Some y" by fastforce
  then show ?case using Cons by simp
qed simp

lemma find_published:
  assumes "reg_ok (registry_of f)"
  shows "\<exists>ds. find_by_name n (registry_of f) = Some ds \<and> (ds \<noteq> [] \<longleftrightarrow> n \<in> published_names f)"
proof -
  let ?l = "filter (\<lambda>p. snd (fst p) = n) (cr_latest (registry_of f))"
  have "dget (cr_by_id (registry_of f)) (snd p) \<noteq> None" if "p \<in> set ?l" for p
    using assms that unfolding reg_ok_def by (cases p) force
  then have "find_by_name n (registry_of f) = Some (map (\<lambda>p. the (dget (cr_by_id (registry_of f)) (snd p))) ?l)"
    unfolding find_by_name_def by (intro those_map_Some) blast
  moreover have "?l \<noteq> [] \<longleftrightarrow> n \<in> published_names f" by (force simp: published_names_def filter_empty_conv)
  ultimately show ?thesis by auto
qed

lemma bind_registry:
  assumes "build_and_bind benv ce sp f = (res, f1)"
  shows "fa_component f1 = fa_component f \<and>
     (case res of Inl _ \<Rightarrow> registry_of f1 = registry_of f
      | Inr d \<Rightarrow> \<exists>p. register p (ce_id ce) (ce_now ce) (registry_of f) = (Inr d, registry_of f1) \<and>
          pb_component p = fa_component f \<and> pb_name p = sp_capability sp)"
proof -
  have "registry_of f1 = registry_of f" if "register p (ce_id ce) (ce_now ce) (registry_of f) = (Inl e, registry_of f1)" for p e
    using that by (rule register_cases) auto
  moreover have "br_spec br = sp" if "build benv sp b = (br, b')" "br_approved br" for br b b'
    using that(1) by (rule build_cases) (use that(2) in simp_all)
  ultimately show ?thesis
    using assms
    by (auto simp: build_and_bind_def bind_build_def bind_tool_def publish_capability_def register_handler_def fa_publish_def
        Let_def split: prod.splits if_splits sum.splits)
qed


definition seed_ids_fresh :: "cap_env list \<Rightarrow> factory \<Rightarrow> bool" where
  "seed_ids_fresh cenvs f \<longleftrightarrow> distinct (map ce_id cenvs) \<and> nul \<notin> set (fa_component f) \<and>
     (\<forall>ce\<in>set cenvs. ce_id ce \<noteq> [] \<and> ce_id ce \<notin> set (dkeys (cr_by_id (registry_of f))))"

lemma bind_published:
  assumes ok: "reg_ok (registry_of f)" and fresh: "seed_ids_fresh (ce # cenvs) f"
    and b: "build_and_bind benv ce sp f = (res, f1)"
  shows "reg_ok (registry_of f1) \<and> seed_ids_fresh cenvs f1 \<and> published_names f \<subseteq> published_names f1 \<and>
     (\<forall>d. res = Inr d \<longrightarrow> sp_capability sp \<in> published_names f1)"
proof (cases res)
  case (Inl e)
  then have "registry_of f1 = registry_of f" "fa_component f1 = fa_component f" using bind_registry [OF b] by simp_all
  then show ?thesis using ok fresh Inl by (simp add: seed_ids_fresh_def published_names_def)
next
  case (Inr d)
  then obtain p where p: "pb_component p = fa_component f" "pb_name p = sp_capability sp"
    "register p (ce_id ce) (ce_now ce) (registry_of f) = (Inr d, registry_of f1)" and c: "fa_component f1 = fa_component f"
    using bind_registry [OF b] by (simp only: sum.case) blast
  from p(3) show ?thesis
  proof (rule register_cases)
    fix d'
    assume r: "Inr d = Inr d'" "cd_id d' = ce_id ce" "cd_component d' = pb_component p" "cd_name d' = pb_name p"
      "registry_of f1 = reg_save ((registry_of f)\<lparr>cr_by_id := dset (ce_id ce) d' (cr_by_id (registry_of f)),
         cr_latest := dset (pb_component p, pb_name p) (ce_id ce) (cr_latest (registry_of f))\<rparr>)"
    have id: "ce_id ce \<noteq> []" "ce_id ce \<notin> set (dkeys (cr_by_id (registry_of f)))" "nul \<notin> set (pb_component p)"
      using fresh p(1) by (simp_all add: seed_ids_fresh_def)
    have "reg_ok (registry_of f1)" unfolding r(5) by (rule published_ok [OF ok id r(2-4)])
    moreover have "seed_ids_fresh cenvs f1"
    proof -
      have "distinct (map ce_id cenvs)" "ce_id ce \<notin> set (map ce_id cenvs)" "nul \<notin> set (fa_component f1)"
        "\<forall>c\<in>set cenvs. ce_id c \<noteq> [] \<and> ce_id c \<notin> set (dkeys (cr_by_id (registry_of f)))"
        using fresh c by (simp_all add: seed_ids_fresh_def)
      moreover have "set (dkeys (cr_by_id (registry_of f1))) = insert (ce_id ce) (set (dkeys (cr_by_id (registry_of f))))"
        unfolding r(5) by (simp add: set_dkeys_dset)
      ultimately show ?thesis unfolding seed_ids_fresh_def by (metis imageI insert_iff set_map)
    qed
    moreover have "published_names f1 = insert (sp_capability sp) (published_names f)"
      unfolding published_names_def r(5) by (simp add: set_dkeys_dset p(2))
    ultimately show ?thesis using Inr by blast
  qed simp
qed

lemma seed_spec:
  assumes "seed_capabilities benv cenvs specs f = (res, f')" "reg_ok (registry_of f)" "seed_ids_fresh cenvs f"
  shows "reg_ok (registry_of f') \<and> published_names f \<subseteq> published_names f' \<and>
     (\<forall>names. res = Inr names \<longrightarrow> set names \<subseteq> published_names f')"
  using assms
proof (induction benv cenvs specs f arbitrary: res f' rule: seed_capabilities.induct)
  case (1 benv ce cenvs sp specs f)
  obtain ds where ds: "find_by_name (sp_capability sp) (registry_of f) = Some ds" using find_published [OF 1(5)] by blast
  show ?case
  proof (cases ds)
    case (Cons d ds')
    have "seed_ids_fresh cenvs f" using 1(6) by (simp add: seed_ids_fresh_def)
    then show ?thesis using 1(3) [OF ds Cons] 1(4,5) ds Cons by simp
  next
    case Nil
    obtain r f1 where b: "build_and_bind benv ce sp f = (r, f1)" by (cases "build_and_bind benv ce sp f")
    note p = bind_published [OF 1(5,6) b]
    show ?thesis
    proof (cases r)
      case (Inl x)
      show ?thesis
      proof (cases "fst x = ''CapabilityBindingRejected''")
        case True
        then have "seed_capabilities benv cenvs specs f1 = (res, f')" using 1(4) ds Nil b Inl by simp
        then show ?thesis using 1(1) [OF ds Nil b [symmetric] Inl True] p by blast
      next
        case False
        then show ?thesis using 1(4) ds Nil b Inl p by auto
      qed
    next
      case (Inr d)
      obtain r2 f2 where s: "seed_capabilities benv cenvs specs f1 = (r2, f2)" by (cases "seed_capabilities benv cenvs specs f1")
      have h: "reg_ok (registry_of f2) \<and> published_names f1 \<subseteq> published_names f2 \<and> (\<forall>names. r2 = Inr names \<longrightarrow> set names \<subseteq> published_names f2)"
        using 1(2) [OF ds Nil b [symmetric] Inr s] p by blast
      have "res = map_sum id ((#) (sp_capability sp)) r2" "f' = f2" using 1(4) ds Nil b Inr s by simp_all
      then show ?thesis using h p Inr by (cases r2) auto
    qed
  qed
qed auto

lemma seed_found:
  assumes "reg_ok (registry_of f)" "\<forall>sp\<in>set specs. sp_capability sp \<in> published_names f"
  shows "seed_capabilities benv cenvs specs f = (Inr [], f)"
  using assms(2)
proof (induction specs arbitrary: cenvs)
  case (Cons sp specs)
  obtain d ds where "find_by_name (sp_capability sp) (registry_of f) = Some (d # ds)"
    using find_published [OF assms(1), of "sp_capability sp"] Cons.prems by (auto simp: neq_Nil_conv)
  then show ?case using Cons by (cases cenvs) simp_all
qed simp

text \<open>
  Seeding at every start publishes a capability once: what a run of the seeding has published
  or found is found by every later run, which then builds nothing and changes nothing.
\<close>

theorem seeding_is_idempotent:
  assumes "reg_ok (registry_of f)" "seed_ids_fresh cenvs f" "seed_capabilities benv cenvs specs f = (Inr names, f')"
    and "\<forall>sp\<in>set specs'. sp_capability sp \<in> set names \<or> sp_capability sp \<in> published_names f"
  shows "seed_capabilities benv' cenvs' specs' f' = (Inr [], f')"
proof -
  have "reg_ok (registry_of f')" "published_names f \<subseteq> published_names f'" "set names \<subseteq> published_names f'"
    using seed_spec [OF assms(3,1,2)] by auto
  then show ?thesis using seed_found assms(4) by blast
qed


definition demo_base :: factory where
  "demo_base = \<lparr>fa_builder = \<lparr>bd_dir = ''tools'', bd_files = []\<rparr>,
     fa_layer = \<lparr>cl_registry = empty_registry, cl_audit = [], cl_actor = demo_actor\<rparr>, fa_handlers = [],
     fa_component = ''reus.builder'', fa_risk = Low, fa_events = []\<rparr>"

definition demo_seed_envs :: "cap_env list" where
  "demo_seed_envs = [demo_cap_env, demo_cap_env\<lparr>ce_id := ''id2''\<rparr>]"

definition demo_seeded :: factory where
  "demo_seeded = snd (seed_capabilities demo_factory_env demo_seed_envs (take 2 default_specs) demo_base)"

theorem seeding_is_idempotent_witness:
  "seed_capabilities demo_factory_env demo_seed_envs (take 2 default_specs) demo_seeded = (Inr [], demo_seeded)"
proof (rule seeding_is_idempotent)
  show "reg_ok (registry_of demo_base)" by (simp add: demo_base_def empty_registry_ok)
  show "seed_ids_fresh demo_seed_envs demo_base" by code_simp
  have "fst (seed_capabilities demo_factory_env demo_seed_envs (take 2 default_specs) demo_base) = Inr [''text.uppercase'', ''text.lowercase'']"
    by code_simp
  then show "seed_capabilities demo_factory_env demo_seed_envs (take 2 default_specs) demo_base =
      (Inr [''text.uppercase'', ''text.lowercase''], demo_seeded)"
    by (simp add: demo_seeded_def prod_eq_iff)
  show "\<forall>sp\<in>set (take 2 default_specs).
      sp_capability sp \<in> set [''text.uppercase'', ''text.lowercase''] \<or> sp_capability sp \<in> published_names demo_base"
    by (simp add: default_specs_def role_spec_def)
qed


section \<open>Starting a node\<close>

definition good_name :: "string \<Rightarrow> bool" where
  "good_name n \<longleftrightarrow> py_strip n \<noteq> [] \<and> list_all valid_name_char n"

lemma role_names_good: "\<forall>r\<in>set (dvals node_roles). \<forall>sp\<in>set (nr_specs r). good_name (sp_capability sp)"
  by code_simp

lemma register_good:
  assumes "reg_ok r" "good_name (pb_name p)" "pb_cost p \<ge> 0"
  shows "\<exists>d r'. register p i now r = (Inr d, r') \<and> cd_id d = i"
proof -
  define k where "k = (pb_component p, pb_name p)"
  have "\<exists>v. (case dget (cr_latest r) k of None \<Rightarrow> Some 1
      | Some old \<Rightarrow> if old = [] then Some 1 else map_option (\<lambda>d. cd_version d + 1) (dget (cr_by_id r) old)) = Some v"
  proof (cases "dget (cr_latest r) k")
    case (Some old)
    then have "(k, old) \<in> set (cr_latest r)" by (rule map_of_SomeD)
    then obtain d where "old \<noteq> []" "dget (cr_by_id r) old = Some d" using assms(1) unfolding reg_ok_def by blast
    then show ?thesis using Some by simp
  qed simp
  moreover have "pb_name p \<noteq> []" using assms(2) by (auto simp: good_name_def py_strip_def)
  ultimately show ?thesis using assms(2,3) by (auto simp: register_def Let_def k_def build_descriptor_def good_name_def)
qed

lemma build_and_bind_good:
  assumes "template_factory repr load benv" "sound_spec repr sp" "good_name (sp_capability sp)" "reg_ok (registry_of f)"
  shows "\<exists>d f1. build_and_bind benv ce sp f = (Inr d, f1) \<and> dget (fa_handlers f1) (ce_id ce) \<noteq> None \<and>
     (\<forall>i. dget (fa_handlers f) i \<noteq> None \<longrightarrow> dget (fa_handlers f1) i \<noteq> None)"
proof -
  obtain br b where br: "build benv sp (fa_builder f) = (br, b)" by (cases "build benv sp (fa_builder f)")
  have ap: "br_approved br" using sound_spec_built [OF assms(1,2), of "fa_builder f"] br by simp
  from br obtain src where b: "br_path br = Some (tool_path (fa_builder f) sp)" "br_spec br = sp"
    "bd_files b = dset (tool_path (fa_builder f) sp) src (bd_files (fa_builder f))"
    using ap by (rule_tac build_cases [OF br]) auto
  have path: "tool_path (fa_builder f) sp \<noteq> []" by (auto simp: tool_path_def path_join_def)
  have l: "load_tool_instance br b = Inr src" using ap b path by (simp add: load_tool_instance_def dget_dset)
  define p where "p = \<lparr>pb_component = fa_component f, pb_name = sp_capability sp, pb_description = sp_description sp,
      pb_input = PDict [(''input'', PStr ''any - raw value passed directly to GeneratedTool.run'')],
      pb_output = PDict [], pb_cost = 0, pb_risk = fa_risk f, pb_tags = [''self-built'', ''spec:'' @ sp_name sp]\<rparr>"
  obtain d r' where d: "register p (ce_id ce) (ce_now ce) (registry_of f) = (Inr d, r')" "cd_id d = ce_id ce"
    using register_good [OF assms(4), of p "ce_id ce" "ce_now ce"] assms(3) by (auto simp: p_def)
  show ?thesis
    using d br ap l b(2) unfolding build_and_bind_def bind_build_def bind_tool_def publish_capability_def p_def
    by (simp add: register_handler_def fa_publish_def dget_dset)
qed

lemma bind_skills_good:
  assumes "template_factory repr load benv" "\<forall>sp\<in>set specs. sound_spec repr sp \<and> good_name (sp_capability sp)"
    and "reg_ok (registry_of f)" "seed_ids_fresh cenvs f" "length cenvs = length specs"
  shows "\<exists>f'. bind_skills benv cenvs specs f = (Inr (length specs), f') \<and> reg_ok (registry_of f') \<and>
     published_names f \<subseteq> published_names f' \<and> sp_capability ` set specs \<subseteq> published_names f' \<and>
     (\<forall>ce\<in>set cenvs. dget (fa_handlers f') (ce_id ce) \<noteq> None) \<and>
     (\<forall>i. dget (fa_handlers f) i \<noteq> None \<longrightarrow> dget (fa_handlers f') i \<noteq> None)"
  using assms(2-)
proof (induction specs arbitrary: cenvs f)
  case (Cons sp specs)
  obtain ce cenvs' where ce: "cenvs = ce # cenvs'" "length cenvs' = length specs"
    using Cons.prems(4) by (cases cenvs) auto
  obtain d f1 where b: "build_and_bind benv ce sp f = (Inr d, f1)" "dget (fa_handlers f1) (ce_id ce) \<noteq> None"
    "\<forall>i. dget (fa_handlers f) i \<noteq> None \<longrightarrow> dget (fa_handlers f1) i \<noteq> None"
    using build_and_bind_good [OF assms(1), of sp f ce] Cons.prems(1,2) by auto
  have p: "reg_ok (registry_of f1)" "seed_ids_fresh cenvs' f1" "published_names f \<subseteq> published_names f1"
    "sp_capability sp \<in> published_names f1"
    using bind_published [OF Cons.prems(2) _ b(1), of cenvs'] Cons.prems(3) ce(1) by auto
  obtain f' where f': "bind_skills benv cenvs' specs f1 = (Inr (length specs), f')" "reg_ok (registry_of f')"
    "published_names f1 \<subseteq> published_names f'" "sp_capability ` set specs \<subseteq> published_names f'"
    "\<forall>ce\<in>set cenvs'. dget (fa_handlers f') (ce_id ce) \<noteq> None"
    "\<forall>i. dget (fa_handlers f1) i \<noteq> None \<longrightarrow> dget (fa_handlers f') i \<noteq> None"
    using Cons.IH [of f1 cenvs'] Cons.prems(1) p(1,2) ce(2) by auto
  then show ?case using b p(3,4) by (auto simp: ce(1))
qed simp


definition demo_node_envs :: "cap_env list" where
  "demo_node_envs = map (\<lambda>i. demo_cap_env\<lparr>ce_id := ''n'' @ show_nat i\<rparr>) [0..<6]"


end
