(* ===== verification/Tools.thy ===== *)
theory Tools
  imports Agents Orchestrator Templates
begin

text \<open>
  Models at work: the tools an agent lends to a model (\<open>application/agent_tools.py\<close>) and the clients
  of the providers with the loop of tool calls (\<open>infrastructure/model_client.py\<close>).

  What a provider answers is a function of what it is sent. An argument of a tool or a field of
  a payload that has not the type of its schema raises a \<open>TypeError\<close>. Identifiers are drawn from
  the stream \<open>te_id\<close>; an exception is its class and its message.
\<close>

section \<open>Tools\<close>

record 'v desk =
  dk_office :: "'v office"
  dk_orch :: orch
  dk_drawn :: nat

record 'v tool_env =
  te_emb :: "string \<Rightarrow> 'v"
  te_nearest :: "'v \<Rightarrow> int \<Rightarrow> 'v list \<Rightarrow> (real \<times> int) list"
  te_id :: "nat \<Rightarrow> string"
  te_now :: real
  te_repr :: "pyval \<Rightarrow> string"

datatype tool_name = SearchMemory | StoreMemory | CreateTask | ListAgents

definition memory_tools :: "(string \<times> tool_name) list" where
  "memory_tools = [(''search_memory'', SearchMemory), (''store_memory'', StoreMemory)]"

definition collaboration_tools :: "(string \<times> tool_name) list" where
  "collaboration_tools = [(''create_task'', CreateTask), (''list_agents'', ListAgents)]"

text \<open>\<open>collab\<close>: the executor was given an orchestrator and a repository of agents.\<close>

definition tool_handlers :: "bool \<Rightarrow> (string, tool_name) dict" where
  "tool_handlers collab = memory_tools @ (if collab then collaboration_tools else [])"

definition agent_error_text :: "agent_error \<Rightarrow> string" where
  "agent_error_text x =
     (case x of
        Agents.AgentNotFound i \<Rightarrow> ''No agent was found for id: '' @ i
      | PermissionDenied p \<Rightarrow> ''Permission '' @ p @ '' is not allowed by the approved permission set''
      | EmptyContent \<Rightarrow> ''A memory record cannot have empty content''
      | _ \<Rightarrow> ''error'')"

text \<open>\<open>PermissionDenied\<close> and \<open>AgentNotFound\<close> become an answer of the tool; the rest is raised.\<close>

definition tool_error :: "agent_error \<Rightarrow> raised + pyval" where
  "tool_error x =
     (case x of
        Agents.AgentNotFound _ \<Rightarrow> Inr (PDict [(''error'', PStr (agent_error_text x))])
      | PermissionDenied _ \<Rightarrow> Inr (PDict [(''error'', PStr (agent_error_text x))])
      | EmptyContent \<Rightarrow> Inl (''EmptyContent'', agent_error_text x)
      | _ \<Rightarrow> Inl (''Exception'', agent_error_text x))"

type_synonym tool_input = "(string, pyval) dict"

definition str_arg :: "string \<Rightarrow> string \<Rightarrow> tool_input \<Rightarrow> raised + string" where
  "str_arg k dv d =
     (case dget d k of None \<Rightarrow> Inr dv | Some (PStr s) \<Rightarrow> Inr s | Some _ \<Rightarrow> Inl (''TypeError'', k))"

definition int_arg :: "string \<Rightarrow> int \<Rightarrow> tool_input \<Rightarrow> raised + int" where
  "int_arg k dv d =
     (case dget d k of None \<Rightarrow> Inr dv | Some (PInt i) \<Rightarrow> Inr i | Some _ \<Rightarrow> Inl (''TypeError'', k))"

definition strs_arg :: "string \<Rightarrow> tool_input \<Rightarrow> raised + string list" where
  "strs_arg k d =
     (case dget d k of
        None \<Rightarrow> Inr []
      | Some (PList l) \<Rightarrow>
          (if list_all is_str l then Inr (map (\<lambda>v. case v of PStr s \<Rightarrow> s | _ \<Rightarrow> []) l) else Inl (''TypeError'', k))
      | Some _ \<Rightarrow> Inl (''TypeError'', k))"

definition tool_search :: "'v tool_env \<Rightarrow> string \<Rightarrow> tool_input \<Rightarrow> 'v desk \<Rightarrow> raised + pyval" where
  "tool_search e i inp d =
     (case (str_arg ''query'' [] inp, int_arg ''top_k'' 5 inp) of
        (Inr q, Inr k) \<Rightarrow>
          (case search_memory (te_emb e) (te_nearest e) i q k (dk_office d) of
             Inl x \<Rightarrow> tool_error x
           | Inr rs \<Rightarrow>
               Inr (PDict [(''matches'', PList (map (\<lambda>(r, s). PDict
                 [(''memory_id'', PStr (mm_id r)), (''content'', PStr (mm_content r)), (''score'', PFloat s)]) rs))]))
      | (Inl x, _) \<Rightarrow> Inl x
      | (_, Inl x) \<Rightarrow> Inl x)"

definition tool_store :: "'v tool_env \<Rightarrow> string \<Rightarrow> tool_input \<Rightarrow> 'v desk \<Rightarrow> (raised + pyval) \<times> 'v desk" where
  "tool_store e i inp d =
     (case (str_arg ''content'' [] inp, strs_arg ''tags'' inp) of
        (Inr c, Inr tags) \<Rightarrow>
          (let (res, s) = store_memory (te_emb e) (te_id e (dk_drawn d)) i c tags (dk_office d) in
           (case res of
              Inl x \<Rightarrow> tool_error x
            | Inr r \<Rightarrow> Inr (PDict [(''memory_id'', PStr (mm_id r)), (''status'', PStr ''stored'')]),
            d\<lparr>dk_office := s, dk_drawn := dk_drawn d + 1\<rparr>))
      | (Inl x, _) \<Rightarrow> (Inl x, d)
      | (_, Inl x) \<Rightarrow> (Inl x, d))"

definition spawn_denial :: "string \<Rightarrow> 'v desk \<Rightarrow> pyval option" where
  "spawn_denial i d =
     (case agent_get i (of_agents (dk_office d)) of
        Inl x \<Rightarrow> Some (PDict [(''error'', PStr (agent_error_text x))])
      | Inr a \<Rightarrow>
          if ''spawn:subagent'' \<notin> set (ag_permissions a)
          then Some (PDict [(''error'', PStr (''Agent '' @ i @ '' lacks the spawn:subagent permission required for this tool.''))])
          else None)"

text \<open>The orchestrator looks agents up in the same repository.\<close>

definition desk_orch :: "'v desk \<Rightarrow> orch" where
  "desk_orch d = (dk_orch d)\<lparr>or_agents := dkeys (of_agents (dk_office d))\<rparr>"

definition tool_create_task :: "'v tool_env \<Rightarrow> string \<Rightarrow> tool_input \<Rightarrow> 'v desk \<Rightarrow> (raised + pyval) \<times> 'v desk" where
  "tool_create_task e i inp d =
     (case spawn_denial i d of
        Some err \<Rightarrow> (Inr err, d)
      | None \<Rightarrow>
          (case (str_arg ''target_agent_id'' [] (filter (\<lambda>p. truthy (snd p)) inp), str_arg ''task_name'' ''delegated-task'' inp) of
             (Inl x, _) \<Rightarrow> (Inl x, d)
           | (_, Inl x) \<Rightarrow> (Inl x, d)
           | (Inr t, Inr name) \<Rightarrow>
               (let target = (if t = [] then i else t);
                    n = dk_drawn d;
                    (res, s) = orch_create (te_now e) (\<lambda>k. te_id e (n + 1 + k)) (te_id e n) (''tool:'' @ i @ '':'' @ name)
                       [\<lparr>ts_name = name, ts_agent_id = Some target, ts_depends_on = [], ts_max_retries = 0,
                         ts_payload = [(''prompt'', case dget inp ''prompt'' of None \<Rightarrow> PStr [] | Some v \<Rightarrow> v)]\<rparr>] (desk_orch d)
                in (case res of
                      Inl (Orchestrator.AgentNotFound a) \<Rightarrow>
                        Inr (PDict [(''error'', PStr (''No agent was found for id: '' @ a))])
                    | Inl _ \<Rightarrow> Inl (''Exception'', name)
                    | Inr w \<Rightarrow>
                        Inr (PDict [(''workflow_id'', PStr (wf_id w)), (''task_id'', PStr (hd (dkeys (wf_tasks w)))),
                               (''assigned_to'', PStr target), (''status'', PStr ''created'')]),
                    d\<lparr>dk_orch := s, dk_drawn := n + 2\<rparr>))))"

definition tool_list_agents :: "string \<Rightarrow> 'v desk \<Rightarrow> raised + pyval" where
  "tool_list_agents i d =
     (case spawn_denial i d of
        Some err \<Rightarrow> Inr err
      | None \<Rightarrow>
          Inr (PDict [(''agents'', PList (map (\<lambda>a. PDict [(''agent_id'', PStr (ag_id a)), (''name'', PStr (ag_name a)),
                 (''state'', PStr (agent_state_value (ag_state a)))]) (agent_list (of_agents (dk_office d)))))]))"

definition tool_dispatch ::
    "'v tool_env \<Rightarrow> string \<Rightarrow> bool \<Rightarrow> string \<Rightarrow> tool_input \<Rightarrow> 'v desk \<Rightarrow> (raised + pyval) \<times> 'v desk" where
  "tool_dispatch e i collab name inp d =
     (case dget (tool_handlers collab) name of
        None \<Rightarrow> (Inl (''UnknownTool'', ''Unknown tool: '' @ name), d)
      | Some SearchMemory \<Rightarrow> (tool_search e i inp d, d)
      | Some StoreMemory \<Rightarrow> tool_store e i inp d
      | Some CreateTask \<Rightarrow> tool_create_task e i inp d
      | Some ListAgents \<Rightarrow> (tool_list_agents i d, d))"

section \<open>Clients\<close>

datatype block = TextBlock string | ToolUse string string tool_input | OtherBlock

record response =
  rp_stop :: string
  rp_content :: "block list"

datatype message = UserText string | Assistant "block list" | ToolResults "(string \<times> string) list"

text \<open>The message API: model, maximal tokens, messages, names of the tools offered.\<close>

type_synonym message_api = "string \<Rightarrow> pyval \<Rightarrow> message list \<Rightarrow> string list \<Rightarrow> raised + response"

type_synonym text_api = "string \<Rightarrow> pyval \<Rightarrow> string \<Rightarrow> raised + string option"

datatype model_client = AnthropicClient message_api | OpenAIClient text_api | GoogleClient text_api

definition invocation_error :: "string \<Rightarrow> raised" where
  "invocation_error m = (''ModelInvocationError'', m)"

definition extract_text :: "string \<Rightarrow> response \<Rightarrow> raised + string" where
  "extract_text model r =
     (let ts = [s. TextBlock s \<leftarrow> rp_content r] in
      if ts = [] then Inl (invocation_error (''Model '' @ model @ '' returned no text content'')) else Inr (concat ts))"

text \<open>An API error is an invocation error, another exception passes.\<close>

definition api_call :: "string \<Rightarrow> raised + 'a \<Rightarrow> raised + 'a" where
  "api_call model r =
     (case r of
        Inl x \<Rightarrow> Inl (if fst x = ''APIError'' then invocation_error (''Model invocation failed for '' @ model @ '': '' @ snd x) else x)
      | Inr v \<Rightarrow> Inr v)"

definition required_text :: "string \<Rightarrow> raised + string option \<Rightarrow> raised + string" where
  "required_text model r =
     (case r of
        Inl x \<Rightarrow> Inl x
      | Inr (Some (c # s)) \<Rightarrow> Inr (c # s)
      | Inr _ \<Rightarrow> Inl (invocation_error (''Model '' @ model @ '' returned no text content'')))"

definition client_invoke :: "model_client \<Rightarrow> string \<Rightarrow> string \<Rightarrow> pyval \<Rightarrow> raised + string" where
  "client_invoke c model prompt toks =
     (case c of
        AnthropicClient api \<Rightarrow>
          (case api_call model (api model toks [UserText prompt] []) of Inl x \<Rightarrow> Inl x | Inr r \<Rightarrow> extract_text model r)
      | OpenAIClient api \<Rightarrow> required_text model (api_call model (api model toks prompt))
      | GoogleClient api \<Rightarrow>
          required_text model
            (case api model toks prompt of
               Inl x \<Rightarrow> Inl (invocation_error (''Model invocation failed for '' @ model @ '': '' @ snd x))
             | Inr t \<Rightarrow> Inr t))"

text \<open>The tool calls of one response, in order; an exception of a tool ends the invocation.\<close>

fun run_tools ::
    "(string \<Rightarrow> tool_input \<Rightarrow> 's \<Rightarrow> (raised + pyval) \<times> 's) \<Rightarrow> (pyval \<Rightarrow> string) \<Rightarrow> block list \<Rightarrow> 's
     \<Rightarrow> (raised + (string \<times> string) list) \<times> 's" where
  "run_tools dispatch repr [] s = (Inr [], s)"
| "run_tools dispatch repr (ToolUse i name inp # bs) s =
     (case dispatch name inp s of
        (Inl x, s1) \<Rightarrow> (Inl x, s1)
      | (Inr v, s1) \<Rightarrow>
          (let (res, s2) = run_tools dispatch repr bs s1 in (map_sum id ((#) (i, py_str repr v)) res, s2)))"
| "run_tools dispatch repr (_ # bs) s = run_tools dispatch repr bs s"

fun tool_loop ::
    "message_api \<Rightarrow> (string \<Rightarrow> tool_input \<Rightarrow> 's \<Rightarrow> (raised + pyval) \<times> 's) \<Rightarrow> (pyval \<Rightarrow> string) \<Rightarrow> string \<Rightarrow> pyval \<Rightarrow> string list
     \<Rightarrow> nat \<Rightarrow> message list \<Rightarrow> 's \<Rightarrow> (raised + string) \<times> 's" where
  "tool_loop api dispatch repr model toks tools 0 ms s =
     (Inl (invocation_error (''Model '' @ model @ '' exceeded the maximum tool-use iterations without final text'')), s)"
| "tool_loop api dispatch repr model toks tools (Suc n) ms s =
     (case api_call model (api model toks ms tools) of
        Inl x \<Rightarrow> (Inl x, s)
      | Inr r \<Rightarrow>
          if rp_stop r \<noteq> ''tool_use'' then (extract_text model r, s)
          else
            (case run_tools dispatch repr (rp_content r) s of
               (Inl x, s1) \<Rightarrow> (Inl x, s1)
             | (Inr results, s1) \<Rightarrow>
                 tool_loop api dispatch repr model toks tools n (ms @ [Assistant (rp_content r), ToolResults results]) s1))"

definition max_iterations :: nat where
  "max_iterations = 5"

definition invoke_with_tools ::
    "model_client \<Rightarrow> (string \<Rightarrow> tool_input \<Rightarrow> 's \<Rightarrow> (raised + pyval) \<times> 's) \<Rightarrow> (pyval \<Rightarrow> string) \<Rightarrow> string \<Rightarrow> string \<Rightarrow> pyval
     \<Rightarrow> string list \<Rightarrow> 's \<Rightarrow> (raised + string) \<times> 's" where
  "invoke_with_tools c dispatch repr model prompt toks tools s =
     (case c of
        AnthropicClient api \<Rightarrow> tool_loop api dispatch repr model toks tools max_iterations [UserText prompt] s
      | _ \<Rightarrow> (Inl (''ToolUseNotSupported'', ''Provider does not support tool use in this application yet''), s))"

end
