(* ===== verification/Executors.thy ===== *)
theory Executors
  imports Tools Learning
begin

text \<open>
  The choice of a model and the executors of tasks over the tools and clients of \<open>Tools\<close>:
  \<open>application/model_router.py\<close>, \<open>infrastructure/model_registry.py\<close>, \<open>model_client_registry.py\<close>,
  \<open>application/model_routing_executor.py\<close>, \<open>application/ollama_task_executor.py\<close>,
  \<open>infrastructure/default_task_executor.py\<close> and \<open>infrastructure/cognitive_task_executor.py\<close>. The
  texts of messages are shortened.
\<close>

section \<open>The router\<close>

record model_profile =
  mp_name :: string
  mp_provider :: string
  mp_tags :: "string list"
  mp_input_cost :: real
  mp_output_cost :: real
  mp_context :: int
  mp_speed :: int

record requirements =
  tr_capabilities :: "string list"
  tr_context :: int
  tr_max_cost :: "real option"
  tr_prefer :: string

definition no_suitable_model :: "string \<Rightarrow> raised" where
  "no_suitable_model m = (''NoSuitableModel'', m)"

definition new_router :: "model_profile list \<Rightarrow> raised + model_profile list" where
  "new_router ps =
     (if ps = [] then Inl (''ValueError'', ''ModelRouter requires at least one registered model.'') else Inr ps)"

definition select_preferred :: "string \<Rightarrow> model_profile \<Rightarrow> model_profile list \<Rightarrow> model_profile" where
  "select_preferred prefer p ps =
     (if prefer = ''fastest'' then min_by mp_speed p ps
      else if prefer = ''most_capable'' then max_by (\<lambda>p. length (remdups (mp_tags p))) p ps
      else min_by (\<lambda>p. (mp_input_cost p, mp_output_cost p)) p ps)"

definition select_model :: "requirements \<Rightarrow> model_profile list \<Rightarrow> raised + model_profile" where
  "select_model q profiles =
     (let c1 = filter (\<lambda>p. set (tr_capabilities q) \<subseteq> set (mp_tags p)) profiles in
      if c1 = [] then Inl (no_suitable_model ''no model has every required capability'')
      else
        (let c2 = filter (\<lambda>p. tr_context q \<le> mp_context p) c1 in
         if c2 = [] then Inl (no_suitable_model ''no model has a large enough context window'')
         else
           (let c3 = (case tr_max_cost q of None \<Rightarrow> c2 | Some m \<Rightarrow> filter (\<lambda>p. mp_input_cost p \<le> m) c2) in
            case c3 of
              [] \<Rightarrow> Inl (no_suitable_model ''no model is within the input-cost ceiling'')
            | p # ps \<Rightarrow> Inr (select_preferred (tr_prefer q) p ps))))"

definition default_profiles :: "model_profile list" where
  "default_profiles =
     [\<lparr>mp_name = ''claude-haiku-4-5-20251001'', mp_provider = ''anthropic'',
         mp_tags = [''chat'', ''summarization'', ''classification'', ''fast''],
         mp_input_cost = 1 / 1000, mp_output_cost = 1 / 200, mp_context = 200000, mp_speed = 1\<rparr>,
      \<lparr>mp_name = ''claude-sonnet-5'', mp_provider = ''anthropic'',
         mp_tags = [''chat'', ''summarization'', ''classification'', ''reasoning'', ''code'', ''fast''],
         mp_input_cost = 3 / 1000, mp_output_cost = 3 / 200, mp_context = 200000, mp_speed = 2\<rparr>,
      \<lparr>mp_name = ''claude-opus-4-8'', mp_provider = ''anthropic'',
         mp_tags = [''chat'', ''summarization'', ''classification'', ''reasoning'', ''code'', ''deep-research''],
         mp_input_cost = 3 / 200, mp_output_cost = 3 / 40, mp_context = 200000, mp_speed = 3\<rparr>,
      \<lparr>mp_name = ''gpt-5-mini'', mp_provider = ''openai'',
         mp_tags = [''chat'', ''summarization'', ''classification'', ''fast''],
         mp_input_cost = 1 / 1000, mp_output_cost = 1 / 250, mp_context = 128000, mp_speed = 1\<rparr>,
      \<lparr>mp_name = ''gpt-5'', mp_provider = ''openai'',
         mp_tags = [''chat'', ''summarization'', ''classification'', ''reasoning'', ''code''],
         mp_input_cost = 1 / 200, mp_output_cost = 1 / 50, mp_context = 128000, mp_speed = 2\<rparr>,
      \<lparr>mp_name = ''gemini-2.5-flash'', mp_provider = ''google'',
         mp_tags = [''chat'', ''summarization'', ''classification'', ''fast''],
         mp_input_cost = 1 / 2000, mp_output_cost = 3 / 1000, mp_context = 1000000, mp_speed = 1\<rparr>,
      \<lparr>mp_name = ''gemini-2.5-pro'', mp_provider = ''google'',
         mp_tags = [''chat'', ''summarization'', ''classification'', ''reasoning'', ''code'', ''deep-research''],
         mp_input_cost = 7 / 2000, mp_output_cost = 7 / 500, mp_context = 1000000, mp_speed = 2\<rparr>]"

definition kimi_profile :: model_profile where
  "kimi_profile =
      \<lparr>mp_name = ''kimi-k3'', mp_provider = ''kimi'',
         mp_tags = [''chat'', ''summarization'', ''classification'', ''reasoning'', ''code''],
         mp_input_cost = 0, mp_output_cost = 0, mp_context = 256000, mp_speed = 2\<rparr>"

definition build_default_router :: "bool \<Rightarrow> raised + model_profile list" where
  "build_default_router include_kimi = new_router (default_profiles @ (if include_kimi then [kimi_profile] else []))"

type_synonym clients = "(string, model_client) dict"

definition client_register :: "string \<Rightarrow> model_client \<Rightarrow> clients \<Rightarrow> clients" where
  "client_register p c cs = dset p c cs"

definition client_get :: "string \<Rightarrow> clients \<Rightarrow> raised + model_client" where
  "client_get p cs =
     (case dget cs p of None \<Rightarrow> Inl (''UnknownProvider'', ''No client is registered for provider: '' @ p) | Some c \<Rightarrow> Inr c)"

definition client_providers :: "clients \<Rightarrow> string list" where
  "client_providers cs = dkeys cs"

section \<open>The executor that routes to a model\<close>

definition task_error :: "string \<Rightarrow> raised" where
  "task_error m = (''TaskExecutionError'', m)"

text \<open>\<open>except (names) as exc: raise TaskExecutionError(str(exc))\<close>.\<close>

definition as_task_error :: "string list \<Rightarrow> raised + 'a \<Rightarrow> raised + 'a" where
  "as_task_error names r =
     (case r of Inl x \<Rightarrow> Inl (if fst x \<in> set names then task_error (snd x) else x) | Inr v \<Rightarrow> Inr v)"

definition prompt_of :: "task_node \<Rightarrow> raised + string" where
  "prompt_of n =
     (case pget (tn_payload n) ''prompt'' of
        PStr (c # s) \<Rightarrow> Inr (c # s)
      | v \<Rightarrow> if truthy v then Inl (''TypeError'', ''prompt'')
             else Inl (task_error (''Task '' @ tn_name n @ '' has no payload prompt and cannot be routed to a model.'')))"

definition max_cost_of :: "task_node \<Rightarrow> raised + real option" where
  "max_cost_of n =
     (case pget (tn_payload n) ''max_input_cost_per_1k_tokens_usd'' of
        PNone \<Rightarrow> Inr None
      | PFloat x \<Rightarrow> Inr (Some x)
      | PInt i \<Rightarrow> Inr (Some (of_int i))
      | _ \<Rightarrow> Inl (''TypeError'', ''max_input_cost_per_1k_tokens_usd''))"

definition requirements_of :: "task_node \<Rightarrow> raised + requirements" where
  "requirements_of n =
     (case (strs_arg ''required_capabilities'' (tn_payload n), int_arg ''min_context_tokens'' 0 (tn_payload n), max_cost_of n) of
        (Inr caps, Inr ctx, Inr cost) \<Rightarrow>
          Inr \<lparr>tr_capabilities = caps, tr_context = ctx, tr_max_cost = cost,
               tr_prefer = (case dget (tn_payload n) ''prefer'' of Some (PStr s) \<Rightarrow> s | _ \<Rightarrow> ''cheapest'')\<rparr>
      | (Inl x, _, _) \<Rightarrow> Inl x
      | (_, Inl x, _) \<Rightarrow> Inl x
      | (_, _, Inl x) \<Rightarrow> Inl x)"

record routing =
  ro_profiles :: "model_profile list"
  ro_clients :: clients
  ro_memory :: bool
  ro_collab :: bool

definition model_answer :: "string \<Rightarrow> string \<Rightarrow> string \<Rightarrow> pyval" where
  "model_answer model provider txt =
     PDict [(''model_used'', PStr model), (''provider'', PStr provider), (''response'', PStr txt)]"

definition route_invoke ::
    "'v tool_env \<Rightarrow> routing \<Rightarrow> task_node \<Rightarrow> string \<Rightarrow> model_profile \<Rightarrow> model_client \<Rightarrow> 'v desk \<Rightarrow> (raised + string) \<times> 'v desk" where
  "route_invoke e r n prompt m c d =
     (let toks = (case dget (tn_payload n) ''max_tokens'' of None \<Rightarrow> PInt 1024 | Some v \<Rightarrow> v) in
      if truthy (pget (tn_payload n) ''enable_tools'') then
        (case tn_agent_id n of
           None \<Rightarrow> (Inl (task_error ''Tool use requires the task to be assigned to an agent (agent_id).''), d)
         | Some i \<Rightarrow>
             if \<not> ro_memory r then (Inl (task_error ''Tool use requires ModelRoutingExecutor to receive MemoryService.''), d)
             else
               (let (res, d1) = invoke_with_tools c (tool_dispatch e i (ro_collab r)) (te_repr e) (mp_name m) prompt toks
                      (map fst (tool_handlers (ro_collab r))) d
                in (as_task_error [''ModelInvocationError'', ''ToolUseNotSupported''] res, d1)))
      else (as_task_error [''ModelInvocationError''] (client_invoke c (mp_name m) prompt toks), d))"

definition execute_routed :: "'v tool_env \<Rightarrow> routing \<Rightarrow> task_node \<Rightarrow> 'v desk \<Rightarrow> (raised + pyval) \<times> 'v desk" where
  "execute_routed e r n d =
     (case prompt_of n of
        Inl x \<Rightarrow> (Inl x, d)
      | Inr prompt \<Rightarrow>
          (case requirements_of n of
             Inl x \<Rightarrow> (Inl x, d)
           | Inr q \<Rightarrow>
               (case as_task_error [''NoSuitableModel''] (select_model q (ro_profiles r)) of
                  Inl x \<Rightarrow> (Inl x, d)
                | Inr m \<Rightarrow>
                    (case as_task_error [''UnknownProvider''] (client_get (mp_provider m) (ro_clients r)) of
                       Inl x \<Rightarrow> (Inl x, d)
                     | Inr c \<Rightarrow>
                         (let (res, d1) = route_invoke e r n prompt m c d
                          in (map_sum id (model_answer (mp_name m) (mp_provider m)) res, d1))))))"

section \<open>The local model with its fallback\<close>

text \<open>
  \<open>generate\<close> is the call of the local server: prompt, system prompt, JSON mode, model; \<open>active\<close> is
  the promoted model, if a store of promotions is given.
\<close>

record 'v ollama =
  ol_generate :: "string \<Rightarrow> pyval \<Rightarrow> bool \<Rightarrow> string option \<Rightarrow> raised + string"
  ol_model :: string
  ol_active :: "string option"
  ol_fallback :: "(task_node \<Rightarrow> 'v desk \<Rightarrow> (raised + pyval) \<times> 'v desk) option"

definition fallback_or_raise :: "'v ollama \<Rightarrow> task_node \<Rightarrow> string \<Rightarrow> 'v desk \<Rightarrow> (raised + pyval) \<times> 'v desk" where
  "fallback_or_raise h n reason d =
     (case ol_fallback h of
        None \<Rightarrow> (Inl (task_error (''Ollama is unavailable and no fallback executor is configured: '' @ reason)), d)
      | Some fb \<Rightarrow>
          (let d1 = d\<lparr>dk_office := announce ''task.ollama_fallback_used''
                 [(''task_id'', tn_task_id n), (''task_name'', tn_name n), (''reason'', reason)] (dk_office d)\<rparr>;
               (res, d2) = fb n d1
           in (case res of
                 Inl x \<Rightarrow> Inl (task_error (''Ollama is unavailable ('' @ reason @ '') and the fallback executor also failed: '' @ snd x))
               | Inr (PDict p) \<Rightarrow> Inr (PDict (dset ''fallback_reason'' (PStr reason) (dset ''fallback_from'' (PStr ''ollama'') p)))
               | Inr v \<Rightarrow> Inr v,
               d2)))"

definition execute_ollama :: "'v ollama \<Rightarrow> task_node \<Rightarrow> 'v desk \<Rightarrow> (raised + pyval) \<times> 'v desk" where
  "execute_ollama h n d =
     (case prompt_of n of
        Inl x \<Rightarrow> (Inl x, d)
      | Inr prompt \<Rightarrow>
          (case ol_generate h prompt (pget (tn_payload n) ''system'') (truthy (pget (tn_payload n) ''json_mode'')) (ol_active h) of
             Inl x \<Rightarrow> if fst x = ''OllamaError'' then fallback_or_raise h n (snd x) d else (Inl x, d)
           | Inr txt \<Rightarrow>
               (Inr (model_answer (case ol_active h of Some (c # m) \<Rightarrow> c # m | _ \<Rightarrow> ol_model h) ''ollama'' txt), d)))"

section \<open>The default executor\<close>

text \<open>\<open>stamp\<close> is the time of the summary. Denied reading or writing is skipped, other errors pass.\<close>

definition execute_default :: "'v tool_env \<Rightarrow> string \<Rightarrow> task_node \<Rightarrow> 'v desk \<Rightarrow> (raised + pyval) \<times> 'v desk" where
  "execute_default e stamp n d =
     (case tn_agent_id n of
        None \<Rightarrow>
          (Inl (task_error (if ''prompt'' \<in> set (dkeys (tn_payload n))
             then ''REUS_TASK_EXECUTOR=default does not support free-text /chat.''
             else ''Task '' @ tn_name n @ '' has no assigned agent and cannot be executed'')), d)
      | Some i \<Rightarrow>
          (case agent_get i (of_agents (dk_office d)) of
             Inl x \<Rightarrow> (Inl (task_error (agent_error_text x)), d)
           | Inr a \<Rightarrow>
               (let context = (case search_memory (te_emb e) (te_nearest e) i (tn_name n) 3 (dk_office d) of
                      Inl _ \<Rightarrow> [] | Inr rs \<Rightarrow> map (\<lambda>p. mm_content (fst p)) rs);
                    summary = ''Task '' @ tn_name n @ '' executed at '' @ stamp;
                    (res, s) = store_memory (te_emb e) (te_id e (dk_drawn d)) i summary [''task-execution''] (dk_office d)
                in (Inr (PDict [(''task_name'', PStr (tn_name n)), (''agent_id'', PStr i),
                                (''context_used'', PList (map PStr context)), (''summary'', PStr summary)]),
                    d\<lparr>dk_office := s, dk_drawn := dk_drawn d + 1\<rparr>))))"

section \<open>The cognitive executor\<close>

definition routing_keys :: "string list" where
  "routing_keys = [''required_capability_name'', ''required_tags'']"

definition build_goal :: "task_node \<Rightarrow> raised + goal" where
  "build_goal n =
     (let name = pget (tn_payload n) ''required_capability_name'' in
      case strs_arg ''required_tags'' (tn_payload n) of
        Inl x \<Rightarrow> Inl x
      | Inr tags \<Rightarrow>
          if \<not> truthy name \<and> tags = [] then Inl (task_error (''Task '' @ tn_task_id n @ '' specifies neither required_capability_name nor required_tags in its payload''))
          else if truthy name \<and> \<not> is_str name then Inl (''TypeError'', ''required_capability_name'')
          else
            (case make_goal \<lparr>gl_id = tn_task_id n, gl_description = tn_name n,
                    gl_payload = filter (\<lambda>p. fst p \<notin> set routing_keys) (tn_payload n),
                    gl_capability = (case name of PStr s \<Rightarrow> Some s | _ \<Rightarrow> None), gl_tags = tags\<rparr> of
               Inl m \<Rightarrow> Inl (''ValueError'', m)
             | Inr g \<Rightarrow> Inr g))"

definition execute_cognitive ::
    "mind_env \<Rightarrow> (plan_step \<Rightarrow> (string, pyval) dict \<Rightarrow> string + step_result) \<Rightarrow> task_node \<Rightarrow> mind \<Rightarrow> (raised + pyval) \<times> mind" where
  "execute_cognitive v execute n m =
     (case build_goal n of
        Inl x \<Rightarrow> (Inl x, m)
      | Inr g \<Rightarrow>
          (let (res, m1) = run_goal v execute g m in
           (case res of
              Inl (NoCapabilityFound x) \<Rightarrow> Inl (task_error x)
            | Inl (Raised x) \<Rightarrow> Inl (if x = ''generate_plans() produced zero plans.'' then task_error x else (''Exception'', x))
            | Inr cy \<Rightarrow>
                (if sr_success (cy_result cy) then Inr (PDict (sr_output (cy_result cy)))
                 else Inl (task_error (case sr_error (cy_result cy) of Some (c # x) \<Rightarrow> c # x
                        | _ \<Rightarrow> ''Selected capability execution failed for task '' @ tn_task_id n))),
            m1)))"

end
