(* ===== verification/Executors_Props.thy ===== *)
theory Executors_Props
  imports Executors
begin

text \<open>
  The router chooses a best model among those that qualify; and whatever a model answers, the
  tools lent to it stay within the permissions of the agent it works for.
\<close>

section \<open>The router\<close>

definition qualifies :: "requirements \<Rightarrow> model_profile \<Rightarrow> bool" where
  "qualifies q p \<longleftrightarrow> set (tr_capabilities q) \<subseteq> set (mp_tags p) \<and> tr_context q \<le> mp_context p \<and>
     (\<forall>m. tr_max_cost q = Some m \<longrightarrow> mp_input_cost p \<le> m)"

definition at_least_as_good :: "string \<Rightarrow> model_profile \<Rightarrow> model_profile \<Rightarrow> bool" where
  "at_least_as_good prefer p p' \<longleftrightarrow>
     (if prefer = ''fastest'' then mp_speed p \<le> mp_speed p'
      else if prefer = ''most_capable'' then card (set (mp_tags p')) \<le> card (set (mp_tags p))
      else mp_input_cost p < mp_input_cost p' \<or> mp_input_cost p = mp_input_cost p' \<and> mp_output_cost p \<le> mp_output_cost p')"

lemma select_preferred_best:
  assumes "p' \<in> set (p # ps)"
  shows "select_preferred prefer p ps \<in> set (p # ps) \<and> at_least_as_good prefer (select_preferred prefer p ps) p'"
  using min_by_in [of mp_speed p ps] min_by_le [OF assms, of mp_speed]
    max_by_in [of "\<lambda>p. length (remdups (mp_tags p))" p ps] max_by_ge [OF assms, of "\<lambda>p. length (remdups (mp_tags p))"]
    min_by_in [of "\<lambda>p. (mp_input_cost p, mp_output_cost p)" p ps]
    min_by_le [OF assms, of "\<lambda>p. (mp_input_cost p, mp_output_cost p)"]
  by (auto simp: select_preferred_def at_least_as_good_def less_eq_prod_def length_remdups_card_conv)

text \<open>
  C36: the router answers with a model that has every required capability, context and price,
  and that none of the others that have them beats in what is preferred; it refuses exactly
  when no model qualifies.
\<close>

theorem select_model_best:
  "case select_model q ps of
     Inl x \<Rightarrow> fst x = ''NoSuitableModel'' \<and> (\<forall>p\<in>set ps. \<not> qualifies q p)
   | Inr p \<Rightarrow> p \<in> set ps \<and> qualifies q p \<and> (\<forall>p'\<in>set ps. qualifies q p' \<longrightarrow> at_least_as_good (tr_prefer q) p p')"
proof -
  define c1 where "c1 = filter (\<lambda>p. set (tr_capabilities q) \<subseteq> set (mp_tags p)) ps"
  define c2 where "c2 = filter (\<lambda>p. tr_context q \<le> mp_context p) c1"
  define c3 where "c3 = (case tr_max_cost q of None \<Rightarrow> c2 | Some m \<Rightarrow> filter (\<lambda>p. mp_input_cost p \<le> m) c2)"
  have c3: "set c3 = {p \<in> set ps. qualifies q p}"
    by (auto simp: c3_def c2_def c1_def qualifies_def split: option.split)
  have sub: "set c3 \<subseteq> set c2" "set c2 \<subseteq> set c1" by (auto simp: c3_def c2_def split: option.split)
  have eq: "select_model q ps =
      (if c1 = [] then Inl (no_suitable_model ''no model has every required capability'')
       else if c2 = [] then Inl (no_suitable_model ''no model has a large enough context window'')
       else case c3 of [] \<Rightarrow> Inl (no_suitable_model ''no model is within the input-cost ceiling'')
            | p # ps \<Rightarrow> Inr (select_preferred (tr_prefer q) p ps))"
    unfolding select_model_def Let_def c3_def c2_def c1_def ..
  show ?thesis
  proof (cases c3)
    case Nil
    then show ?thesis using c3 unfolding eq by (auto simp: no_suitable_model_def)
  next
    case (Cons p rest)
    then have "c1 \<noteq> []" "c2 \<noteq> []" using sub by auto
    then have s: "select_model q ps = Inr (select_preferred (tr_prefer q) p rest)" using Cons unfolding eq by simp
    have "select_preferred (tr_prefer q) p rest \<in> set c3" using select_preferred_best [of p p rest] Cons by simp
    moreover have "at_least_as_good (tr_prefer q) (select_preferred (tr_prefer q) p rest) p'" if "p' \<in> set ps" "qualifies q p'" for p'
      using select_preferred_best [of p' p rest] that c3 Cons by auto
    ultimately show ?thesis using c3 s by auto
  qed
qed

definition demo_requirements :: requirements where
  "demo_requirements = \<lparr>tr_capabilities = [''reasoning'', ''chat''], tr_context = 150000, tr_max_cost = Some (1 / 100),
     tr_prefer = ''cheapest''\<rparr>"

theorem select_model_best_witness:
  "map_sum fst mp_name (select_model demo_requirements default_profiles) = Inr ''claude-sonnet-5'' \<and>
   mp_input_cost (projr (select_model demo_requirements default_profiles)) \<le> 7 / 2000"
proof -
  define r where "r = select_model demo_requirements default_profiles"
  have r: "map_sum fst mp_name r = Inr ''claude-sonnet-5''"
    by (simp add: r_def select_model_def demo_requirements_def default_profiles_def select_preferred_def)
  then obtain p where p: "r = Inr p" by (cases r) auto
  define g where "g = default_profiles ! 6"
  have g: "g \<in> set default_profiles" by (simp add: g_def default_profiles_def)
  have q: "qualifies demo_requirements g" by (simp add: g_def default_profiles_def qualifies_def demo_requirements_def)
  have "\<forall>p'\<in>set default_profiles. qualifies demo_requirements p' \<longrightarrow> at_least_as_good (tr_prefer demo_requirements) p p'"
    using select_model_best [where q = demo_requirements and ps = default_profiles] p by (simp add: r_def)
  with g q have "at_least_as_good (tr_prefer demo_requirements) p g" by blast
  then have "mp_input_cost p \<le> 7 / 2000"
    by (auto simp: at_least_as_good_def demo_requirements_def g_def default_profiles_def)
  then show ?thesis using r p by (simp add: r_def)
qed

section \<open>Tools\<close>

text \<open>
  A user of tools: whatever is called, each call leads from an acceptable state to an acceptable
  one, and the two are related; then so does every invocation of a model, however it answers.
\<close>

locale tool_user =
  fixes dispatch :: "string \<Rightarrow> tool_input \<Rightarrow> 's \<Rightarrow> (raised + pyval) \<times> 's" and ok :: "'s \<Rightarrow> bool" and rel :: "'s \<Rightarrow> 's \<Rightarrow> bool"
  assumes rel_refl: "rel s s"
    and rel_trans: "rel s t \<Longrightarrow> rel t u \<Longrightarrow> rel s u"
    and call: "ok s \<Longrightarrow> dispatch name inp s = (res, t) \<Longrightarrow> ok t \<and> rel s t"
begin

lemma run_tools_keeps: "ok s \<Longrightarrow> run_tools dispatch repr bs s = (res, t) \<Longrightarrow> ok t \<and> rel s t"
proof (induction bs arbitrary: s res t)
  case Nil
  then show ?case by (simp add: rel_refl)
next
  case (Cons b bs)
  show ?case
  proof (cases b)
    case (ToolUse i name inp)
    obtain r u where c: "dispatch name inp s = (r, u)" by (cases "dispatch name inp s")
    have u: "ok u" "rel s u" using call [OF Cons.prems(1) c] by simp_all
    show ?thesis
    proof (cases r)
      case (Inl x)
      then show ?thesis using Cons.prems(2) c u ToolUse by simp
    next
      case (Inr v)
      obtain r2 w where w: "run_tools dispatch repr bs u = (r2, w)" by (cases "run_tools dispatch repr bs u")
      then show ?thesis using Cons.IH [OF u(1) w] Cons.prems(2) c u(2) ToolUse Inr rel_trans by auto
    qed
  qed (use Cons in simp_all)
qed

lemma tool_loop_keeps:
  "ok s \<Longrightarrow> tool_loop api dispatch repr model toks tools n ms s = (res, t) \<Longrightarrow> ok t \<and> rel s t"
proof (induction n arbitrary: ms s)
  case 0
  then show ?case by (simp add: rel_refl)
next
  case (Suc n)
  show ?case
  proof (cases "api_call model (api model toks ms tools)")
    case (Inl x)
    then show ?thesis using Suc.prems by (simp add: rel_refl)
  next
    case (Inr r)
    obtain rs u where u: "run_tools dispatch repr (rp_content r) s = (rs, u)" by (cases "run_tools dispatch repr (rp_content r) s")
    have k: "ok u" "rel s u" using run_tools_keeps [OF Suc.prems(1) u] by simp_all
    show ?thesis
    proof (cases "rp_stop r = ''tool_use''")
      case False
      then show ?thesis using Suc.prems Inr by (simp add: rel_refl)
    next
      case True
      show ?thesis
      proof (cases rs)
        case (Inl x)
        then show ?thesis using Suc.prems(2) Inr True u k by simp
      next
        case results: (Inr vs)
        have "tool_loop api dispatch repr model toks tools n (ms @ [Assistant (rp_content r), ToolResults vs]) u = (res, t)"
          using Suc.prems(2) Inr True u results by simp
        then show ?thesis using Suc.IH [OF k(1)] k(2) rel_trans by blast
      qed
    qed
  qed
qed

lemma invoke_keeps:
  "ok s \<Longrightarrow> invoke_with_tools c dispatch repr model prompt toks tools s = (res, t) \<Longrightarrow> ok t \<and> rel s t"
  by (cases c) (auto simp: invoke_with_tools_def rel_refl dest: tool_loop_keeps)

end

abbreviation agents_at :: "'v desk \<Rightarrow> agents" where
  "agents_at d \<equiv> of_agents (dk_office d)"

abbreviation vectors_at :: "'v desk \<Rightarrow> 'v vectors" where
  "vectors_at d \<equiv> of_vectors (dk_office d)"

definition desk_keyed :: "'v desk \<Rightarrow> bool" where
  "desk_keyed d \<longleftrightarrow> (\<forall>i a. dget (agents_at d) i = Some a \<longrightarrow> ag_id a = i)"

definition may :: "string \<Rightarrow> string \<Rightarrow> 'v desk \<Rightarrow> bool" where
  "may i p d \<longleftrightarrow> (\<exists>a. dget (agents_at d) i = Some a \<and> p \<in> set (ag_permissions a))"

text \<open>What a model may do for agent \<open>i\<close>.\<close>

definition within_permissions :: "string \<Rightarrow> 'v desk \<Rightarrow> 'v desk \<Rightarrow> bool" where
  "within_permissions i d d' \<longleftrightarrow>
     (\<forall>j. map_option ag_permissions (dget (agents_at d') j) = map_option ag_permissions (dget (agents_at d) j)) \<and>
     (\<forall>j. j \<noteq> i \<longrightarrow> dget (agents_at d') j = dget (agents_at d) j) \<and>
     of_tokens (dk_office d') = of_tokens (dk_office d) \<and> vs_deleted (vectors_at d') = vs_deleted (vectors_at d) \<and>
     (\<forall>m r. dget (vs_records (vectors_at d')) m = Some r \<longrightarrow> dget (vs_records (vectors_at d)) m = Some r \<or> mm_agent r = i) \<and>
     (\<not> may i ''write:memory'' d \<longrightarrow> agents_at d' = agents_at d \<and> vectors_at d' = vectors_at d) \<and>
     (\<not> may i ''spawn:subagent'' d \<longrightarrow> dk_orch d' = dk_orch d)"

lemma within_refl: "within_permissions i d d"
  by (simp add: within_permissions_def)

lemma may_same:
  assumes "\<forall>j. map_option ag_permissions (dget (agents_at d') j) = map_option ag_permissions (dget (agents_at d) j)"
  shows "may i p d' \<longleftrightarrow> may i p d"
proof -
  have "map_option ag_permissions (dget (agents_at d') i) = map_option ag_permissions (dget (agents_at d) i)" using assms by blast
  then show ?thesis unfolding may_def by (cases "dget (agents_at d') i"; cases "dget (agents_at d) i") simp_all
qed

lemma within_trans: "within_permissions i a b \<Longrightarrow> within_permissions i b c \<Longrightarrow> within_permissions i a c"
proof -
  assume "within_permissions i a b" and "within_permissions i b c"
  note ab = this(1) [unfolded within_permissions_def] and bc = this(2) [unfolded within_permissions_def]
  have m: "may i p b \<longleftrightarrow> may i p a" for p using may_same ab by blast
  show ?thesis
    unfolding within_permissions_def
  proof (intro conjI)
    show "\<forall>j. map_option ag_permissions (dget (agents_at c) j) = map_option ag_permissions (dget (agents_at a) j)"
      using ab bc by metis
    show "\<forall>j. j \<noteq> i \<longrightarrow> dget (agents_at c) j = dget (agents_at a) j" using ab bc by metis
    show "\<forall>k r. dget (vs_records (vectors_at c)) k = Some r \<longrightarrow> dget (vs_records (vectors_at a)) k = Some r \<or> mm_agent r = i"
      using ab bc by blast
  qed (use ab bc m in simp_all)
qed

text \<open>Storing a memory: refused, or one more record of the agent.\<close>

lemma store_within:
  assumes k: "desk_keyed d" and s: "store_memory emb m i c tags (dk_office d) = (res, off)"
  shows "desk_keyed (d\<lparr>dk_office := off, dk_drawn := k'\<rparr>) \<and> within_permissions i d (d\<lparr>dk_office := off, dk_drawn := k'\<rparr>)"
proof (cases "off = dk_office d")
  case True
  then show ?thesis using k by (simp add: desk_keyed_def within_permissions_def)
next
  case False
  obtain a where a: "dget (agents_at d) i = Some a" "''write:memory'' \<in> set (ag_permissions a)"
    using s False by (auto simp: store_memory_def require_permission_def agent_get_def split: option.splits sum.splits if_splits)
  have id: "ag_id a = i" using k a(1) by (auto simp: desk_keyed_def)
  define a' where "a' = record_operation ''store_memory'' ''success'' [(''memory_id'', PStr m)] (a\<lparr>ag_memory := ag_memory a @ [m]\<rparr>)"
  have a': "ag_id a' = i" "ag_permissions a' = ag_permissions a" using id by (simp_all add: a'_def record_operation_def)
  have off: "off = (dk_office d)\<lparr>of_vectors := vector_add \<lparr>mm_id = m, mm_agent = i, mm_content = c, mm_tags = tags\<rparr> (emb c) (vectors_at d),
      of_agents := dset i a' (agents_at d)\<rparr>"
    using s False a a' id
    by (auto simp: store_memory_def require_permission_def agent_get_def Let_def agent_update_def a'_def [symmetric] split: if_splits)
  let ?d = "d\<lparr>dk_office := off, dk_drawn := k'\<rparr>"
  have ags: "dget (agents_at ?d) j = (if j = i then Some a' else dget (agents_at d) j)" for j
    unfolding off by (simp add: dget_dset)
  have recs: "dget (vs_records (vectors_at ?d)) j =
      (if j = m then Some \<lparr>mm_id = m, mm_agent = i, mm_content = c, mm_tags = tags\<rparr> else dget (vs_records (vectors_at d)) j)" for j
    unfolding off by (simp add: vector_add_def dget_dset)
  have rest: "of_tokens (dk_office ?d) = of_tokens (dk_office d)" "vs_deleted (vectors_at ?d) = vs_deleted (vectors_at d)"
    "dk_orch ?d = dk_orch d" unfolding off by (simp_all add: vector_add_def)
  have w: "may i ''write:memory'' d" using a by (auto simp: may_def)
  have "desk_keyed ?d" using k a'(1) unfolding desk_keyed_def ags by simp
  moreover have "within_permissions i d ?d"
    unfolding within_permissions_def ags recs rest using w a(1) a'(2) by simp
  ultimately show ?thesis by blast
qed

lemma dispatch_within:
  assumes k: "desk_keyed d" and c: "tool_dispatch e i collab name inp d = (res, d')"
  shows "desk_keyed d' \<and> within_permissions i d d'"
proof (cases "dget (tool_handlers collab) name")
  case None
  then show ?thesis using c k by (auto simp: tool_dispatch_def within_refl)
next
  case (Some t)
  show ?thesis
  proof (cases t)
    case StoreMemory
    show ?thesis
      using c Some StoreMemory k
      by (auto simp: tool_dispatch_def tool_store_def within_refl store_within split: sum.splits prod.splits)
  next
    case CreateTask
    show ?thesis
    proof (cases "spawn_denial i d")
      case None
      then have m: "may i ''spawn:subagent'' d"
        by (auto simp: spawn_denial_def agent_get_def may_def split: option.splits sum.splits if_splits)
      have "desk_keyed (d\<lparr>dk_orch := s, dk_drawn := n\<rparr>) \<and> within_permissions i d (d\<lparr>dk_orch := s, dk_drawn := n\<rparr>)" for s n
        using k m by (simp add: desk_keyed_def within_permissions_def)
      then show ?thesis
        using c Some CreateTask k None
        by (auto simp: tool_dispatch_def tool_create_task_def within_refl Let_def split: sum.splits prod.splits)
    qed (use c Some CreateTask k in \<open>auto simp: tool_dispatch_def tool_create_task_def within_refl\<close>)
  qed (use c Some k in \<open>auto simp: tool_dispatch_def within_refl\<close>)
qed

interpretation lent: tool_user "tool_dispatch e i collab" desk_keyed "within_permissions i"
  for e :: "'v tool_env" and i collab
  by unfold_locales (blast intro: within_refl within_trans dest: dispatch_within)+


lemma routed_within:
  assumes "desk_keyed d" "tn_agent_id n = Some i" "execute_routed e r n d = (res, d')"
  shows "desk_keyed d' \<and> within_permissions i d d'"
proof -
  have inv: "desk_keyed t \<and> within_permissions i d t" if "route_invoke e r n prompt m c d = (out, t)" for prompt m c out t
    using that assms(1,2)
    by (auto simp: route_invoke_def Let_def within_refl split: if_splits prod.splits dest!: lent.invoke_keeps [OF assms(1)])
  show ?thesis
    using assms(3,1) unfolding execute_routed_def
    by (auto simp: within_refl dest: inv split: sum.splits prod.splits)
qed

lemma announced_within: "desk_keyed d \<Longrightarrow> desk_keyed (d\<lparr>dk_office := announce x y (dk_office d)\<rparr>) \<and>
    within_permissions i d (d\<lparr>dk_office := announce x y (dk_office d)\<rparr>)"
  by (simp add: desk_keyed_def within_permissions_def announce_def)

lemma ollama_within:
  assumes "desk_keyed d" "tn_agent_id n = Some i" "ol_fallback h = None \<or> ol_fallback h = Some (execute_routed e r)"
    and "execute_ollama h n d = (res, d')"
  shows "desk_keyed d' \<and> within_permissions i d d'"
proof -
  have fb: "desk_keyed t \<and> within_permissions i d t" if f: "fallback_or_raise h n reason d = (out, t)" for reason out t
  proof (cases "ol_fallback h")
    case None
    then show ?thesis using f assms(1) by (auto simp: fallback_or_raise_def within_refl)
  next
    case (Some fbx)
    define d1 where "d1 = d\<lparr>dk_office := announce ''task.ollama_fallback_used''
        [(''task_id'', tn_task_id n), (''task_name'', tn_name n), (''reason'', reason)] (dk_office d)\<rparr>"
    obtain rs d2 where x: "execute_routed e r n d1 = (rs, d2)" by (cases "execute_routed e r n d1")
    have t: "t = d2" using f Some assms(3) x by (auto simp: fallback_or_raise_def d1_def [symmetric] Let_def)
    have d1: "desk_keyed d1" "within_permissions i d d1" using announced_within [OF assms(1)] by (simp_all add: d1_def)
    show ?thesis unfolding t using routed_within [OF d1(1) assms(2) x] d1(2) within_trans by blast
  qed
  show ?thesis
    using assms(4,1) unfolding execute_ollama_def by (auto simp: within_refl dest: fb split: sum.splits if_splits)
qed

lemma default_within:
  assumes "desk_keyed d" "tn_agent_id n = Some i" "execute_default e stamp n d = (res, d')"
  shows "desk_keyed d' \<and> within_permissions i d d'"
  using assms by (auto simp: execute_default_def within_refl store_within Let_def split: sum.splits prod.splits)

text \<open>
  C37: whatever a model answers and whichever tools it calls, executing a task of an agent changes
  nothing the agent may not change: no permission and no other agent, no token, no foreign
  memory; without the permission to write no memory at all, and without the permission to
  delegate no workflow. This holds for the routed executor, for the local model with that
  executor as its fallback, and for the default executor.
\<close>

theorem model_stays_within_permissions:
  assumes "desk_keyed d" "tn_agent_id n = Some i"
    and "execute = execute_routed e r \<or> execute = execute_default e stamp \<or>
         execute = execute_ollama h \<and> (ol_fallback h = None \<or> ol_fallback h = Some (execute_routed e r))"
    and "execute n d = (res, d')"
  shows "desk_keyed d' \<and> within_permissions i d d'"
  using assms(3)
proof (elim disjE conjE)
  assume "execute = execute_routed e r"
  then show ?thesis using routed_within [OF assms(1,2)] assms(4) by blast
next
  assume "execute = execute_default e stamp"
  then show ?thesis using default_within [OF assms(1,2)] assms(4) by blast
qed (use ollama_within [OF assms(1,2)] assms(4) in blast)+

definition demo_reader :: agent where
  "demo_reader = \<lparr>ag_id = ''a'', ag_name = ''reader'', ag_permissions = [''read:memory''], ag_goals = [], ag_state = Idle,
     ag_memory = [], ag_log = [], ag_metrics = \<lparr>mt_requests = 0, mt_latency = 0, mt_errors = 0\<rparr>\<rparr>"

definition demo_desk :: "unit desk" where
  "demo_desk = \<lparr>dk_office = \<lparr>of_agents = [(''a'', demo_reader)], of_tokens = [],
       of_vectors = \<lparr>vs_rows = [], vs_records = [], vs_deleted = []\<rparr>, of_events = []\<rparr>,
     dk_orch = \<lparr>or_store = [], or_agents = [], or_trace = []\<rparr>, dk_drawn = 0\<rparr>"

text \<open>A model that asks for a memory to be stored, and for a task to be created, and then answers.\<close>

definition demo_model :: message_api where
  "demo_model model toks ms tools =
     Inr (if length ms = 1
          then \<lparr>rp_stop = ''tool_use'', rp_content =
             [ToolUse ''t1'' ''store_memory'' [(''content'', PStr ''x'')],
              ToolUse ''t2'' ''create_task'' [(''task_name'', PStr ''x'')]]\<rparr>
          else \<lparr>rp_stop = ''end_turn'', rp_content = [TextBlock ''done'']\<rparr>)"

definition demo_routing :: routing where
  "demo_routing = \<lparr>ro_profiles = take 1 default_profiles, ro_clients = [(''anthropic'', AnthropicClient demo_model)],
     ro_memory = True, ro_collab = True\<rparr>"

definition demo_tool_env :: "unit tool_env" where
  "demo_tool_env = \<lparr>te_emb = (\<lambda>_. ()), te_nearest = (\<lambda>_ _ _. []), te_id = show_nat, te_now = 0, te_repr = (\<lambda>_. [])\<rparr>"

definition demo_tool_task :: task_node where
  "demo_tool_task = \<lparr>tn_name = ''t'', tn_agent_id = Some ''a'', tn_depends_on = [], tn_max_retries = 0,
     tn_payload = [(''prompt'', PStr ''do it''), (''enable_tools'', PBool True)], tn_task_id = ''t'', tn_state = RUNNING,
     tn_retry_count = 0, tn_result = PNone, tn_error = None, tn_created_at = 0, tn_started_at = None, tn_completed_at = None\<rparr>"

theorem model_stays_within_permissions_witness:
  "fst (execute_routed demo_tool_env demo_routing demo_tool_task demo_desk) =
     Inr (model_answer ''claude-haiku-4-5-20251001'' ''anthropic'' ''done'') \<and>
   vectors_at (snd (execute_routed demo_tool_env demo_routing demo_tool_task demo_desk)) = vectors_at demo_desk \<and>
   dk_orch (snd (execute_routed demo_tool_env demo_routing demo_tool_task demo_desk)) = dk_orch demo_desk"
proof -
  let ?x = "execute_routed demo_tool_env demo_routing demo_tool_task demo_desk"
  have a: "fst ?x = Inr (model_answer ''claude-haiku-4-5-20251001'' ''anthropic'' ''done'')" by code_simp
  have k: "desk_keyed demo_desk" by (simp add: desk_keyed_def demo_desk_def demo_reader_def)
  have t: "tn_agent_id demo_tool_task = Some ''a''" by (simp add: demo_tool_task_def)
  have "within_permissions ''a'' demo_desk (snd ?x)"
    using model_stays_within_permissions [OF k t disjI1 [OF refl], of _ _ "fst ?x" "snd ?x"] by simp
  moreover have "\<not> may ''a'' ''write:memory'' demo_desk" "\<not> may ''a'' ''spawn:subagent'' demo_desk"
    by (simp_all add: may_def demo_desk_def demo_reader_def)
  ultimately show ?thesis using a unfolding within_permissions_def by blast
qed

end
