(* ===== verification/Snapshot.thy ===== *)
theory Snapshot
  imports Memory Capability Joining
begin

text \<open>
  What a node hands to a peer that has joined: the snapshot of its capabilities and facts
  (\<open>infrastructure/cognitive_core/cluster/snapshot.py\<close>), the directory of peers
  (\<open>peer_directory.py\<close>), the delegate that serves the snapshot and the client side that takes it in
  (\<open>infrastructure/cluster_network/cluster_snapshot_node.py\<close>).

  A snapshot is a Python value. A field of another type than the sender writes raises a
  \<open>TypeError\<close>. What an operation draws from outside is a stream, read from a given position.
\<close>

section \<open>Reading the items of a snapshot\<close>

type_synonym item = "(string, pyval) dict"

text \<open>\<open>item[k]\<close> and \<open>item.get(k, d)\<close> for the types that occur.\<close>

definition need_str :: "item \<Rightarrow> string \<Rightarrow> raised + string" where
  "need_str d k =
     (case dget d k of
        None \<Rightarrow> Inl (''KeyError'', in_quotes k) | Some (PStr s) \<Rightarrow> Inr s | Some _ \<Rightarrow> Inl (''TypeError'', k))"

definition str_or :: "string \<Rightarrow> item \<Rightarrow> string \<Rightarrow> raised + string" where
  "str_or dflt d k = (case dget d k of None \<Rightarrow> Inr dflt | Some (PStr s) \<Rightarrow> Inr s | Some _ \<Rightarrow> Inl (''TypeError'', k))"

definition real_or :: "real \<Rightarrow> item \<Rightarrow> string \<Rightarrow> raised + real" where
  "real_or dflt d k =
     (case dget d k of
        None \<Rightarrow> Inr dflt | Some (PFloat r) \<Rightarrow> Inr r | Some (PInt i) \<Rightarrow> Inr (of_int i) | Some _ \<Rightarrow> Inl (''TypeError'', k))"

definition schema_or_empty :: "item \<Rightarrow> string \<Rightarrow> pyval" where
  "schema_or_empty d k = (if truthy (pget d k) then pget d k else PDict [])"

section \<open>Capabilities\<close>

text \<open>\<open>None\<close>: the registry lists an identifier it does not hold.\<close>

definition build_capability_snapshot :: "cap_layer \<Rightarrow> item list option" where
  "build_capability_snapshot l = map_option (map desc_to_dict) (list_capabilities None None (cl_registry l))"

definition item_publication :: "item \<Rightarrow> raised + publication" where
  "item_publication d =
     (case need_str d ''component_id'' of Inl x \<Rightarrow> Inl x | Inr c \<Rightarrow>
     (case need_str d ''name'' of Inl x \<Rightarrow> Inl x | Inr n \<Rightarrow>
     (case str_or [] d ''description'' of Inl x \<Rightarrow> Inl x | Inr ds \<Rightarrow>
     (case real_or 0 d ''estimated_cost'' of Inl x \<Rightarrow> Inl x | Inr cost \<Rightarrow>
     (case str_or ''low'' d ''risk_level'' of Inl x \<Rightarrow> Inl x | Inr r \<Rightarrow>
     (case risk_of r of
        None \<Rightarrow> Inl (''ValueError'', in_quotes r @ '' is not a valid RiskLevel'')
      | Some risk \<Rightarrow>
     (case as_strs (dget d ''tags'') of
        None \<Rightarrow> Inl (''TypeError'', ''tags'')
      | Some tags \<Rightarrow>
          Inr \<lparr>pb_component = c, pb_name = n, pb_description = ds, pb_input = schema_or_empty d ''input_schema'',
               pb_output = schema_or_empty d ''output_schema'', pb_cost = cost, pb_risk = risk, pb_tags = tags\<rparr>)))))))"

fun apply_capability_snapshot ::
    "(nat \<Rightarrow> cap_env) \<Rightarrow> nat \<Rightarrow> item list \<Rightarrow> cap_layer \<Rightarrow> (raised + descriptor list) \<times> cap_layer" where
  "apply_capability_snapshot envs k [] l = (Inr [], l)"
| "apply_capability_snapshot envs k (x # xs) l =
     (case item_publication x of
        Inl e \<Rightarrow> (Inl e, l)
      | Inr p \<Rightarrow>
          (case publish_capability (envs k) p l of
             (Inl m, l1) \<Rightarrow> (Inl (''InvalidDescriptorError'', m), l1)
           | (Inr d, l1) \<Rightarrow>
               (let (res, l2) = apply_capability_snapshot envs (k + 1) xs l1 in (map_sum id ((#) d) res, l2))))"

section \<open>Facts\<close>

definition portable :: "entity \<Rightarrow> fact \<Rightarrow> entity \<Rightarrow> item" where
  "portable s f ob =
     [(''subject_name'', PStr (se_name s)), (''subject_type'', PStr (se_type s)), (''predicate'', PStr (sf_pred f)),
      (''object_name'', PStr (se_name ob)), (''object_type'', PStr (se_type ob)), (''confidence'', PFloat (sf_conf f))]"

fun portable_facts :: "fact list \<Rightarrow> semantic \<Rightarrow> string + item list" where
  "portable_facts [] m = Inr []"
| "portable_facts (f # fs) m =
     (case get_entity (sf_subject f) m of
        Inl e \<Rightarrow> Inl e
      | Inr s \<Rightarrow>
          (case get_entity (sf_object f) m of
             Inl e \<Rightarrow> Inl e
           | Inr ob \<Rightarrow> map_sum id ((#) (portable s f ob)) (portable_facts fs m)))"

definition build_semantic_snapshot :: "semantic \<Rightarrow> string + item list" where
  "build_semantic_snapshot m = portable_facts (query_facts None None None m) m"

text \<open>One item; it draws from the stream three times.\<close>

definition apply_fact :: "(nat \<Rightarrow> mem_env) \<Rightarrow> nat \<Rightarrow> item \<Rightarrow> mem_layer \<Rightarrow> (raised + unit) \<times> mem_layer" where
  "apply_fact envs k x l =
     (case (need_str x ''subject_name'', need_str x ''subject_type'') of
        (Inl e, _) \<Rightarrow> (Inl e, l)
      | (_, Inl e) \<Rightarrow> (Inl e, l)
      | (Inr sn, Inr st) \<Rightarrow>
          (let (s, l1) = ml_add_entity (envs k) sn st l in
           case (need_str x ''object_name'', need_str x ''object_type'') of
             (Inl e, _) \<Rightarrow> (Inl e, l1)
           | (_, Inl e) \<Rightarrow> (Inl e, l1)
           | (Inr on, Inr ot) \<Rightarrow>
               (let (ob, l2) = ml_add_entity (envs (k + 1)) on ot l1 in
                case (need_str x ''predicate'', real_or 1 x ''confidence'') of
                  (Inl e, _) \<Rightarrow> (Inl e, l2)
                | (_, Inl e) \<Rightarrow> (Inl e, l2)
                | (Inr p, Inr c) \<Rightarrow>
                    (case ml_add_fact (envs (k + 2)) (se_id s) p (se_id ob) c l2 of
                       (Inl m, l3) \<Rightarrow> (Inl (''UnknownEntityError'', m), l3)
                     | (Inr _, l3) \<Rightarrow> (Inr (), l3)))))"

fun apply_semantic_snapshot :: "(nat \<Rightarrow> mem_env) \<Rightarrow> nat \<Rightarrow> item list \<Rightarrow> mem_layer \<Rightarrow> (raised + nat) \<times> mem_layer" where
  "apply_semantic_snapshot envs k [] l = (Inr 0, l)"
| "apply_semantic_snapshot envs k (x # xs) l =
     (case apply_fact envs k x l of
        (Inl e, l1) \<Rightarrow> (Inl e, l1)
      | (Inr _, l1) \<Rightarrow>
          (let (res, l2) = apply_semantic_snapshot envs (k + 3) xs l1 in (map_sum id Suc res, l2)))"

section \<open>The directory of peers\<close>

record peer_directory =
  pd_addresses :: "(string, string) dict"
  pd_origins :: "(string, string) dict"
  pd_file :: "((string, string) dict \<times> (string, string) dict) option"

definition directory_load :: "((string, string) dict \<times> (string, string) dict) option \<Rightarrow> peer_directory" where
  "directory_load f =
     (case f of
        None \<Rightarrow> \<lparr>pd_addresses = [], pd_origins = [], pd_file = None\<rparr>
      | Some (a, c) \<Rightarrow> \<lparr>pd_addresses = a, pd_origins = c, pd_file = f\<rparr>)"

definition directory_save :: "peer_directory \<Rightarrow> peer_directory" where
  "directory_save d = d\<lparr>pd_file := Some (pd_addresses d, pd_origins d)\<rparr>"

definition register_node :: "string \<Rightarrow> string \<Rightarrow> peer_directory \<Rightarrow> peer_directory" where
  "register_node n url d = directory_save (d\<lparr>pd_addresses := dset n url (pd_addresses d)\<rparr>)"

definition register_origin :: "string \<Rightarrow> string \<Rightarrow> peer_directory \<Rightarrow> peer_directory" where
  "register_origin c n d = directory_save (d\<lparr>pd_origins := dset c n (pd_origins d)\<rparr>)"

definition node_address :: "string \<Rightarrow> peer_directory \<Rightarrow> string option" where
  "node_address n d = dget (pd_addresses d) n"

definition capability_origin :: "string \<Rightarrow> peer_directory \<Rightarrow> string option" where
  "capability_origin c d = dget (pd_origins d) c"

section \<open>Serving and taking in\<close>

definition handle_get_peers :: "string \<Rightarrow> trust \<Rightarrow> item" where
  "handle_get_peers node tr = [(''node_id'', PStr node), (''peers'', PList (map PStr (dkeys (tr_peers tr))))]"

definition handle_cluster_snapshot :: "string \<Rightarrow> cap_layer \<Rightarrow> mem_layer \<Rightarrow> raised + item" where
  "handle_cluster_snapshot node caps mem =
     (case build_capability_snapshot caps of
        None \<Rightarrow> Inl (''KeyError'', ''capability'')
      | Some cs \<Rightarrow>
          (case build_semantic_snapshot (ml_semantic mem) of
             Inl e \<Rightarrow> Inl (''UnknownEntityError'', e)
           | Inr fs \<Rightarrow>
               Inr [(''node_id'', PStr node), (''capabilities'', PList (map PDict cs)),
                    (''semantic_facts'', PList (map PDict fs))]))"

text \<open>A node of a cluster adds the voters of its consensus group.\<close>

definition cluster_snapshot_answer :: "item \<Rightarrow> string \<Rightarrow> cap_layer \<Rightarrow> mem_layer \<Rightarrow> raised + item" where
  "cluster_snapshot_answer membership node caps mem =
     map_sum id (dset ''raft_membership'' (PDict membership)) (handle_cluster_snapshot node caps mem)"

definition items_of :: "item \<Rightarrow> string \<Rightarrow> raised + item list" where
  "items_of d k =
     (case dget d k of
        None \<Rightarrow> Inr []
      | Some (PList l) \<Rightarrow>
          (if list_all is_dict l then Inr (map (\<lambda>v. case v of PDict x \<Rightarrow> x | _ \<Rightarrow> []) l) else Inl (''TypeError'', k))
      | Some _ \<Rightarrow> Inl (''TypeError'', k))"

text \<open>What a joining node keeps; \<open>na_member\<close> is what its callback for the voters was given.\<close>

record newcomer =
  na_caps :: cap_layer
  na_memory :: mem_layer
  na_directory :: peer_directory
  na_member :: "item list"

definition note_membership :: "bool \<Rightarrow> item \<Rightarrow> newcomer \<Rightarrow> newcomer" where
  "note_membership wanted response a =
     (case dget response ''raft_membership'' of
        Some (PDict m) \<Rightarrow> if wanted then a\<lparr>na_member := na_member a @ [m]\<rparr> else a
      | _ \<Rightarrow> a)"

definition take_in ::
    "(nat \<Rightarrow> cap_env) \<Rightarrow> (nat \<Rightarrow> mem_env) \<Rightarrow> string \<Rightarrow> bool \<Rightarrow> item option \<Rightarrow> newcomer
     \<Rightarrow> (raised + nat \<times> nat) \<times> newcomer" where
  "take_in cenv menv node wanted response a =
     (case response of
        None \<Rightarrow> (Inr (0, 0), a)
      | Some [] \<Rightarrow> (Inr (0, 0), a)
      | Some r \<Rightarrow>
          (case items_of r ''capabilities'' of
             Inl e \<Rightarrow> (Inl e, a)
           | Inr cs \<Rightarrow>
               (case apply_capability_snapshot cenv 0 cs (na_caps a) of
                  (Inl e, cl) \<Rightarrow> (Inl e, a\<lparr>na_caps := cl\<rparr>)
                | (Inr ds, cl) \<Rightarrow>
                    (let a1 = a\<lparr>na_caps := cl,
                                na_directory := fold (\<lambda>d. register_origin (cd_id d) node) ds (na_directory a)\<rparr> in
                     case items_of r ''semantic_facts'' of
                       Inl e \<Rightarrow> (Inl e, a1)
                     | Inr fs \<Rightarrow>
                         (case apply_semantic_snapshot menv 0 fs (na_memory a1) of
                            (Inl e, ml) \<Rightarrow> (Inl e, a1\<lparr>na_memory := ml\<rparr>)
                          | (Inr n, ml) \<Rightarrow>
                              (Inr (length ds, n), note_membership wanted r (a1\<lparr>na_memory := ml\<rparr>)))))))"

end
