(* ===== verification/Snapshot_Props.thy ===== *)
theory Snapshot_Props
  imports Snapshot Memory_Props Capability_Props
begin

text \<open>
  The exchange of a snapshot merges what the two nodes know: as graphs the facts of the joining
  node become its own overridden by those of its peer, and every capability of the peer is
  registered under an identifier of its own whose origin is the peer.
\<close>

section \<open>Facts\<close>

text \<open>The identifiers the stream still gives are new, and no two are the same.\<close>

definition fresh_draws :: "(nat \<Rightarrow> mem_env) \<Rightarrow> nat \<Rightarrow> semantic \<Rightarrow> bool" where
  "fresh_draws envs k m \<longleftrightarrow>
     (\<forall>i\<ge>k. me_id (envs i) \<notin> se_id ` set (sm_entities m) \<and> me_id (envs i) \<notin> sf_id ` set (sm_facts m)) \<and>
     inj_on (\<lambda>i. me_id (envs i)) {k..}"

lemma fresh_entity:
  assumes "fresh_draws envs k m"
  shows "fresh_draws envs (Suc k) (snd (add_entity (envs k) n ty m))"
proof -
  have "me_id (envs i) \<noteq> me_id (envs k)" if "i \<ge> Suc k" for i
    using assms that unfolding fresh_draws_def by (auto dest!: inj_onD [of _ "{k..}" i k])
  moreover have "inj_on (\<lambda>i. me_id (envs i)) {Suc k..}"
    using assms unfolding fresh_draws_def by (auto elim: inj_on_subset)
  ultimately show ?thesis
    using assms by (auto simp: fresh_draws_def add_entity_def Let_def split: option.split)
qed

lemma fresh_fact:
  assumes fr: "fresh_draws envs k m" and a: "add_fact (envs k) s p ob c m = (r, m')"
  shows "fresh_draws envs (Suc k) m'"
proof -
  have ne: "me_id (envs i) \<noteq> me_id (envs k)" if "i \<ge> Suc k" for i
    using fr that unfolding fresh_draws_def by (auto dest!: inj_onD [of _ "{k..}" i k])
  have inj: "inj_on (\<lambda>i. me_id (envs i)) {Suc k..}"
    using fr unfolding fresh_draws_def by (auto elim: inj_on_subset)
  have "sf_id ` set (sm_facts (snd (add_fact (envs k) s p ob c m))) \<subseteq> insert (me_id (envs k)) (sf_id ` set (sm_facts m))"
    by (auto simp: add_fact_def Let_def split: sum.split option.split) (metis image_eqI)+
  then have sub: "sf_id ` set (sm_facts m') \<subseteq> insert (me_id (envs k)) (sf_id ` set (sm_facts m))" using a by simp
  have "sm_entities (snd (add_fact (envs k) s p ob c m)) = sm_entities m"
    by (auto simp: add_fact_def Let_def split: sum.split option.split)
  then have ents: "sm_entities m' = sm_entities m" using a by simp
  have "me_id (envs i) \<notin> se_id ` set (sm_entities m') \<and> me_id (envs i) \<notin> sf_id ` set (sm_facts m')" if "i \<ge> Suc k" for i
  proof -
    have old: "me_id (envs i) \<notin> se_id ` set (sm_entities m)" "me_id (envs i) \<notin> sf_id ` set (sm_facts m)"
      using fr that by (simp_all add: fresh_draws_def)
    then have "me_id (envs i) \<notin> insert (me_id (envs k)) (sf_id ` set (sm_facts m))" using ne [OF that] by simp
    then show ?thesis using contra_subsetD [OF sub] old(1) by (simp add: ents)
  qed
  then show ?thesis using inj unfolding fresh_draws_def by blast
qed

lemma added_entity:
  assumes ok: "sem_ok m" and fr: "fresh_draws envs k m" and a: "add_entity (envs k) n ty m = (e, m')"
  shows "sem_ok m' \<and> fresh_draws envs (Suc k) m' \<and> e \<in> set (sm_entities m') \<and> ent_key e = (n, ty) \<and>
     graph_of m' = (insert (n, ty) (fst (graph_of m)), edge m) \<and> set (sm_entities m) \<subseteq> set (sm_entities m') \<and>
     sm_facts m' = sm_facts m"
proof -
  have "me_id (envs k) \<notin> se_id ` set (sm_entities m)" using fr by (auto simp: fresh_draws_def)
  from add_entity_ok [OF ok this, of n ty] have "sem_ok m'" "graph_of m' = (insert (n, ty) (fst (graph_of m)), edge m)"
    using a by simp_all
  moreover have "fresh_draws envs (Suc k) m'" using fresh_entity [OF fr, of n ty] a by simp
  moreover have "e \<in> set (sm_entities m') \<and> ent_key e = (n, ty) \<and> set (sm_entities m) \<subseteq> set (sm_entities m') \<and> sm_facts m' = sm_facts m"
    using a find_entity_iff [OF ok, of n ty e]
    by (auto simp: add_entity_def Let_def ent_key_def split: option.splits)
  ultimately show ?thesis by blast
qed

text \<open>Taking in one fact sets one edge.\<close>

lemma apply_fact_merges:
  assumes ok: "sem_ok (ml_semantic l)" and fr: "fresh_draws envs k (ml_semantic l)"
  shows "\<exists>l'. apply_fact envs k (portable s f ob) l = (Inr (), l') \<and> sem_ok (ml_semantic l') \<and>
     fresh_draws envs (k + 3) (ml_semantic l') \<and>
     graph_of (ml_semantic l') =
       (fst (graph_of (ml_semantic l)) \<union> {ent_key s, ent_key ob},
        (edge (ml_semantic l))((ent_key s, sf_pred f, ent_key ob) \<mapsto> sf_conf f))"
proof -
  let ?m = "ml_semantic l"
  obtain x m1 where m1: "add_entity (envs k) (se_name s) (se_type s) ?m = (x, m1)" by fastforce
  obtain y m2 where m2: "add_entity (envs (Suc k)) (se_name ob) (se_type ob) m1 = (y, m2)" by fastforce
  note 1 = added_entity [OF ok fr m1]
  have ok1: "sem_ok m1" and fr1: "fresh_draws envs (Suc k) m1" using 1 by simp_all
  note 2 = added_entity [OF ok1 fr1 m2]
  have ok2: "sem_ok m2" and fr2: "fresh_draws envs (Suc (Suc k)) m2" using 2 by simp_all
  have xy: "x \<in> set (sm_entities m2)" "y \<in> set (sm_entities m2)" "ent_key x = ent_key s" "ent_key y = ent_key ob"
    using 1 2 by (auto simp: ent_key_def)
  have "me_id (envs (Suc (Suc k))) \<notin> sf_id ` set (sm_facts m2)" using fr2 by (auto simp: fresh_draws_def)
  note 3 = add_fact_ok [OF ok2 xy(1,2) this, of "sf_pred f" "sf_conf f"]
  have g: "get_entity (se_id x) m2 = Inr x" "get_entity (se_id y) m2 = Inr y" using get_entity_iff [OF ok2] xy by auto
  obtain r m3 where m3: "add_fact (envs (Suc (Suc k))) (se_id x) (sf_pred f) (se_id y) (sf_conf f) m2 = (Inr r, m3)"
    using g by (cases "find (is_fact (se_id x) (sf_pred f) (se_id y)) (sm_facts m2)") (simp_all add: add_fact_def Let_def)
  have fr3: "fresh_draws envs (k + 3) m3" using fresh_fact [OF fr2 m3] by (simp add: numeral_3_eq_3)
  have ents: "graph_of m3 = (fst (graph_of ?m) \<union> {ent_key s, ent_key ob}, (edge ?m)((ent_key s, sf_pred f, ent_key ob) \<mapsto> sf_conf f))"
    using 1 2 3 m3 xy by (auto simp: graph_of_def ent_key_def)
  define l' where "l' = snd (apply_fact envs k (portable s f ob) l)"
  have "apply_fact envs k (portable s f ob) l = (Inr (), l') \<and> ml_semantic l' = m3"
    using m1 m2 m3
    by (simp add: l'_def apply_fact_def portable_def need_str_def real_or_def ml_add_entity_def ml_add_fact_def log_action_def)
  then show ?thesis using 3 m3 fr3 ents by auto
qed

text \<open>The edges of a list of facts, written one after the other.\<close>

definition fact_node :: "semantic \<Rightarrow> string \<Rightarrow> node" where
  "fact_node m i = the (node_of m i)"

definition fact_edge :: "semantic \<Rightarrow> fact \<Rightarrow> node \<times> string \<times> node" where
  "fact_edge m f = (fact_node m (sf_subject f), sf_pred f, fact_node m (sf_object f))"

text \<open>Taking in the items \<open>xs\<close> has the effect of writing the facts \<open>fs\<close> of another node.\<close>

definition absorbs :: "(nat \<Rightarrow> mem_env) \<Rightarrow> semantic \<Rightarrow> fact list \<Rightarrow> item list \<Rightarrow> bool" where
  "absorbs envs m fs xs \<longleftrightarrow>
     (\<forall>(l :: mem_layer) k. sem_ok (ml_semantic l) \<longrightarrow> fresh_draws envs k (ml_semantic l) \<longrightarrow>
       (\<exists>l'. apply_semantic_snapshot envs k xs l = (Inr (length fs), l') \<and> sem_ok (ml_semantic l') \<and>
          graph_of (ml_semantic l') =
            (fst (graph_of (ml_semantic l)) \<union> (\<Union>f\<in>set fs. {fact_node m (sf_subject f), fact_node m (sf_object f)}),
             fold (\<lambda>f E. E(fact_edge m f \<mapsto> sf_conf f)) fs (edge (ml_semantic l)))))"

lemma absorbs_Cons:
  assumes xs: "absorbs envs m fs xs"
    and n: "fact_node m (sf_subject f) = ent_key s" "fact_node m (sf_object f) = ent_key ob"
  shows "absorbs envs m (f # fs) (portable s f ob # xs)"
  unfolding absorbs_def
proof (intro allI impI)
  fix l :: mem_layer and k
  assume l: "sem_ok (ml_semantic l)" "fresh_draws envs k (ml_semantic l)"
  obtain l1 where l1: "apply_fact envs k (portable s f ob) l = (Inr (), l1)" "sem_ok (ml_semantic l1)"
    "fresh_draws envs (k + 3) (ml_semantic l1)"
    and g1: "graph_of (ml_semantic l1) = (fst (graph_of (ml_semantic l)) \<union> {ent_key s, ent_key ob},
       (edge (ml_semantic l))((ent_key s, sf_pred f, ent_key ob) \<mapsto> sf_conf f))"
    using apply_fact_merges [OF l] by blast
  obtain l2 where l2: "apply_semantic_snapshot envs (k + 3) xs l1 = (Inr (length fs), l2)" "sem_ok (ml_semantic l2)"
    and g2: "graph_of (ml_semantic l2) =
          (fst (graph_of (ml_semantic l1)) \<union> (\<Union>f\<in>set fs. {fact_node m (sf_subject f), fact_node m (sf_object f)}),
           fold (\<lambda>f E. E(fact_edge m f \<mapsto> sf_conf f)) fs (edge (ml_semantic l1)))"
    using xs l1(2,3) unfolding absorbs_def by blast
  have e1: "edge (ml_semantic l1) = (edge (ml_semantic l))((ent_key s, sf_pred f, ent_key ob) \<mapsto> sf_conf f)"
    "fst (graph_of (ml_semantic l1)) = fst (graph_of (ml_semantic l)) \<union> {ent_key s, ent_key ob}"
    using g1 by (simp_all add: graph_of_def)
  have fe: "fact_edge m f = (ent_key s, sf_pred f, ent_key ob)" by (simp add: fact_edge_def n)
  show "\<exists>l'. apply_semantic_snapshot envs k (portable s f ob # xs) l = (Inr (length (f # fs)), l') \<and> sem_ok (ml_semantic l') \<and>
      graph_of (ml_semantic l') =
        (fst (graph_of (ml_semantic l)) \<union> (\<Union>f\<in>set (f # fs). {fact_node m (sf_subject f), fact_node m (sf_object f)}),
         fold (\<lambda>f E. E(fact_edge m f \<mapsto> sf_conf f)) (f # fs) (edge (ml_semantic l)))"
    using l1(1) l2 g2 by (intro exI [of _ l2]) (simp add: e1 fe n)
qed

lemma portable_facts_merge:
  assumes ok: "sem_ok m"
  shows "set fs \<subseteq> set (sm_facts m) \<Longrightarrow> \<exists>xs. portable_facts fs m = Inr xs \<and> absorbs envs m fs xs"
proof (induction fs)
  case Nil
  then show ?case by (simp add: graph_of_def absorbs_def)
next
  case (Cons f fs)
  then obtain xs where xs: "portable_facts fs m = Inr xs" "absorbs envs m fs xs" by auto
  have "sf_subject f \<in> se_id ` set (sm_entities m)" "sf_object f \<in> se_id ` set (sm_entities m)"
    using Cons.prems ok by (auto simp: sem_ok_def)
  then obtain s ob where s: "get_entity (sf_subject f) m = Inr s" "get_entity (sf_object f) m = Inr ob"
    using get_entity_known [OF ok] by meson
  have n: "fact_node m (sf_subject f) = ent_key s" "fact_node m (sf_object f) = ent_key ob"
    using s by (simp_all add: fact_node_def node_of_def)
  have "portable_facts (f # fs) m = Inr (portable s f ob # xs)" using s xs by simp
  then show ?case using absorbs_Cons [OF xs(2) n] by blast
qed

lemma fold_fact_edges:
  "distinct (map key fs) \<Longrightarrow> fold (\<lambda>f E. E(key f \<mapsto> v f)) fs E = E ++ map_of (map (\<lambda>f. (key f, v f)) fs)"
proof (induction fs arbitrary: E)
  case (Cons f fs)
  have "map_of (map (\<lambda>f. (key f, v f)) fs) (key f) = None" using Cons.prems by (force simp: map_of_eq_None_iff)
  then show ?case using Cons by (auto simp: map_add_def fun_eq_iff split: option.split)
qed simp

lemma map_of_find: "map_of (map (\<lambda>f. (key f, v f)) fs) k = map_option v (find (\<lambda>f. key f = k) fs)"
  by (induction fs) auto

lemma node_known:
  assumes ok: "sem_ok m" and f: "f \<in> set (sm_facts m)"
  obtains x y where "x \<in> set (sm_entities m)" "se_id x = sf_subject f" "y \<in> set (sm_entities m)" "se_id y = sf_object f"
    "fact_edge m f = (ent_key x, sf_pred f, ent_key y)"
proof -
  obtain x y where xy: "x \<in> set (sm_entities m)" "se_id x = sf_subject f" "y \<in> set (sm_entities m)" "se_id y = sf_object f"
    using f ok by (auto simp: sem_ok_def dest!: bspec [of _ _ f])
  have "node_of m (sf_subject f) = Some (ent_key x)" "node_of m (sf_object f) = Some (ent_key y)"
    using xy by (auto simp: node_ofD [OF ok])
  then show ?thesis using that xy by (simp add: fact_edge_def fact_node_def)
qed

lemma same_entity:
  "sem_ok m \<Longrightarrow> w \<in> set (sm_entities m) \<Longrightarrow> z \<in> set (sm_entities m) \<Longrightarrow> ent_key w = ent_key z \<longleftrightarrow> se_id w = se_id z"
  by (auto simp: sem_ok_def distinct_map dest: inj_onD)

lemma fact_edge_iff:
  assumes ok: "sem_ok m" and f: "f \<in> set (sm_facts m)" and x: "x \<in> set (sm_entities m)" "y \<in> set (sm_entities m)"
  shows "fact_edge m f = (ent_key x, p, ent_key y) \<longleftrightarrow> is_fact (se_id x) p (se_id y) f"
proof -
  obtain u v where "u \<in> set (sm_entities m)" "se_id u = sf_subject f" "v \<in> set (sm_entities m)" "se_id v = sf_object f"
    "fact_edge m f = (ent_key u, sf_pred f, ent_key v)" using node_known [OF ok f] by metis
  then show ?thesis using same_entity [OF ok _ x(1), of u] same_entity [OF ok _ x(2), of v] by (auto simp: is_fact_def)
qed

text \<open>The table of facts is the map of edges.\<close>

lemma edges_of_facts:
  assumes ok: "sem_ok m"
  shows "map_of (map (\<lambda>f. (fact_edge m f, sf_conf f)) (sm_facts m)) = edge m"
proof (rule ext)
  fix k :: "node \<times> string \<times> node"
  obtain a p b where k: "k = (a, p, b)" by (cases k)
  show "map_of (map (\<lambda>f. (fact_edge m f, sf_conf f)) (sm_facts m)) k = edge m k"
  proof (cases "a \<in> ent_key ` set (sm_entities m) \<and> b \<in> ent_key ` set (sm_entities m)")
    case True
    then obtain x y where xy: "x \<in> set (sm_entities m)" "y \<in> set (sm_entities m)" "a = ent_key x" "b = ent_key y" by blast
    have "find (\<lambda>f. fact_edge m f = (ent_key x, p, ent_key y)) (sm_facts m) = find (is_fact (se_id x) p (se_id y)) (sm_facts m)"
      using fact_edge_iff [OF ok _ xy(1,2)] by (intro find_cong) auto
    then show ?thesis unfolding k map_of_find using edge_ids [OF ok xy(1,2), of p] xy(3,4) by simp
  next
    case False
    then have "find (\<lambda>f. fact_edge m f = k) (sm_facts m) = None"
      unfolding find_None_iff k using node_known [OF ok] by (metis image_eqI prod.inject)
    then show ?thesis unfolding map_of_find k using False edge_unknown [of a m b p] by auto
  qed
qed

lemma distinct_edges:
  assumes ok: "sem_ok m"
  shows "distinct (map (fact_edge m) (sm_facts m))"
proof -
  have "f = g" if fg: "f \<in> set (sm_facts m)" "g \<in> set (sm_facts m)" "fact_edge m f = fact_edge m g" for f g
  proof -
    obtain x y where xy: "x \<in> set (sm_entities m)" "se_id x = sf_subject f" "y \<in> set (sm_entities m)" "se_id y = sf_object f"
      "fact_edge m f = (ent_key x, sf_pred f, ent_key y)" using node_known [OF ok fg(1)] by metis
    have "is_fact (se_id x) (sf_pred f) (se_id y) g" using fact_edge_iff [OF ok fg(2) xy(1,3), of "sf_pred f"] fg(3) xy(5) by simp
    then have "fact_key g = fact_key f" using xy by (simp add: is_fact_def fact_key_def)
    then show ?thesis using fg ok by (auto simp: sem_ok_def distinct_map dest: inj_onD)
  qed
  moreover have "distinct (sm_facts m)" using ok by (auto simp: sem_ok_def distinct_map)
  ultimately show ?thesis by (auto simp: distinct_map inj_on_def)
qed

section \<open>Capabilities\<close>

text \<open>What \<open>build_descriptor\<close> accepts; every registered descriptor is of this kind.\<close>

definition publishable :: "descriptor \<Rightarrow> bool" where
  "publishable d \<longleftrightarrow> py_strip (cd_name d) \<noteq> [] \<and> list_all valid_name_char (cd_name d) \<and> 0 \<le> cd_cost d"

definition same_capability :: "descriptor \<Rightarrow> descriptor \<Rightarrow> bool" where
  "same_capability d d' \<longleftrightarrow> cd_component d' = cd_component d \<and> cd_name d' = cd_name d \<and>
     cd_description d' = cd_description d \<and> cd_cost d' = cd_cost d \<and> cd_risk d' = cd_risk d \<and> cd_tags d' = cd_tags d"

definition fresh_caps :: "(nat \<Rightarrow> cap_env) \<Rightarrow> nat \<Rightarrow> registry \<Rightarrow> bool" where
  "fresh_caps envs k r \<longleftrightarrow>
     (\<forall>i\<ge>k. ce_id (envs i) \<noteq> [] \<and> ce_id (envs i) \<notin> set (dkeys (cr_by_id r))) \<and> inj_on (\<lambda>i. ce_id (envs i)) {k..}"

lemma py_strip_Nil [simp]: "py_strip [] = []"
  by (simp add: py_strip_def)

definition republication :: "descriptor \<Rightarrow> publication" where
  "republication d = \<lparr>pb_component = cd_component d, pb_name = cd_name d, pb_description = cd_description d,
     pb_input = (if truthy (cd_input d) then cd_input d else PDict []),
     pb_output = (if truthy (cd_output d) then cd_output d else PDict []),
     pb_cost = cd_cost d, pb_risk = cd_risk d, pb_tags = cd_tags d\<rparr>"

lemma item_of_descriptor: "item_publication (desc_to_dict d) = Inr (republication d)"
  by (simp add: item_publication_def desc_to_dict_def need_str_def str_or_def real_or_def schema_or_empty_def pget_def
      republication_def)

lemma republish:
  assumes ok: "reg_ok (cl_registry l)" and fr: "fresh_caps envs k (cl_registry l)"
    and d: "publishable d" "nul \<notin> set (cd_component d)"
  shows "\<exists>d' l'. publish_capability (envs k) (republication d) l = (Inr d', l') \<and> cd_id d' = ce_id (envs k) \<and>
     same_capability d d' \<and> dget (cr_by_id (cl_registry l')) (ce_id (envs k)) = Some d' \<and> reg_ok (cl_registry l') \<and>
     reg_le (cl_registry l) (cl_registry l') \<and> fresh_caps envs (Suc k) (cl_registry l')"
proof -
  let ?r = "cl_registry l" and ?p = "republication d" and ?i = "ce_id (envs k)" and ?t = "ce_now (envs k)"
  have nn: "cd_name d \<noteq> []" using d(1) by (auto simp: publishable_def)
  have b: "\<exists>d'. build_descriptor ?p v ?i ?t = Inr d' \<and> same_capability d d'" for v
    using d(1) nn by (simp add: build_descriptor_def republication_def publishable_def same_capability_def)
  have old: "\<exists>x. dget (cr_by_id ?r) j = Some x" if "dget (cr_latest ?r) (cd_component d, cd_name d) = Some j" for j
    using dget_in_set [OF that] ok unfolding reg_ok_def by blast
  define v where "v = (case dget (cr_latest ?r) (cd_component d, cd_name d) of
      None \<Rightarrow> 1 | Some j \<Rightarrow> if j = [] then 1 else cd_version (the (dget (cr_by_id ?r) j)) + 1)"
  obtain d' where d': "build_descriptor ?p v ?i ?t = Inr d'" "same_capability d d'" using b by blast
  have c: "pb_component ?p = cd_component d" "pb_name ?p = cd_name d" by (simp_all add: republication_def)
  have "\<exists>r'. register ?p ?i ?t ?r = (Inr d', r')"
  proof (cases "dget (cr_latest ?r) (cd_component d, cd_name d)")
    case None
    then show ?thesis using d'(1) by (simp add: register_def c v_def)
  next
    case (Some j)
    obtain x where "dget (cr_by_id ?r) j = Some x" using old [OF Some] by blast
    then show ?thesis using d'(1) Some by (cases "j = []") (simp_all add: register_def c v_def)
  qed
  then obtain r' where reg: "register ?p ?i ?t ?r = (Inr d', r')" by blast
  have id: "cd_id d' = ?i" using build_descriptorD [OF d'(1)] by simp
  have step: "reg_fresh ?r (Register ?p ?i ?t)" using fr d(2) by (auto simp: fresh_caps_def republication_def)
  have keep: "reg_ok r'" "reg_le ?r r'" using reg_step_keeps [OF ok step] reg by simp_all
  have by_id: "cr_by_id r' = dset ?i d' (cr_by_id ?r)"
    using reg by (cases rule: register_cases) auto
  have "fresh_caps envs (Suc k) r'"
    using fr by (auto simp: fresh_caps_def by_id set_dkeys_dset elim: inj_on_subset dest: inj_onD [of _ "{k..}"])
  then show ?thesis using reg id d'(2) keep by_id by (auto simp: publish_capability_def dget_dset)
qed

lemma apply_capabilities:
  "reg_ok (cl_registry l) \<Longrightarrow> fresh_caps envs k (cl_registry l) \<Longrightarrow> \<forall>d\<in>set ds. publishable d \<and> nul \<notin> set (cd_component d) \<Longrightarrow>
   \<exists>ds' l'. apply_capability_snapshot envs k (map desc_to_dict ds) l = (Inr ds', l') \<and> list_all2 same_capability ds ds' \<and>
     (\<forall>d'\<in>set ds'. dget (cr_by_id (cl_registry l')) (cd_id d') = Some d') \<and> reg_le (cl_registry l) (cl_registry l')"
proof (induction ds arbitrary: l k)
  case Nil
  then show ?case by (simp add: reg_le_def)
next
  case (Cons d ds)
  obtain d' l1 where d': "publish_capability (envs k) (republication d) l = (Inr d', l1)" "cd_id d' = ce_id (envs k)"
     "same_capability d d'" "dget (cr_by_id (cl_registry l1)) (ce_id (envs k)) = Some d'" "reg_ok (cl_registry l1)"
     "reg_le (cl_registry l) (cl_registry l1)" "fresh_caps envs (Suc k) (cl_registry l1)"
    using republish [OF Cons.prems(1,2), of d] Cons.prems(3) by auto
  obtain ds' l2 where l2: "apply_capability_snapshot envs (Suc k) (map desc_to_dict ds) l1 = (Inr ds', l2)"
     "list_all2 same_capability ds ds'" "\<forall>d'\<in>set ds'. dget (cr_by_id (cl_registry l2)) (cd_id d') = Some d'"
     "reg_le (cl_registry l1) (cl_registry l2)"
    using Cons.IH [OF d'(5,7)] Cons.prems(3) by auto
  then show ?case using d' item_of_descriptor [of d] by (auto simp: reg_le_def)
qed

lemma those_map:
  "\<forall>x\<in>set xs. \<exists>y. f x = Some y \<and> P y \<Longrightarrow> \<exists>ys. those (map f xs) = Some ys \<and> (\<forall>y\<in>set ys. P y)"
  by (induction xs) auto

lemma listed:
  assumes ok: "reg_ok r"
  shows "\<exists>ds. list_capabilities None None r = Some ds \<and> (\<forall>d\<in>set ds. d \<in> set (dvals (cr_by_id r)) \<and> nul \<notin> set (cd_component d))"
proof -
  have "\<exists>d. dget (cr_by_id r) (snd p) = Some d \<and> d \<in> set (dvals (cr_by_id r)) \<and> nul \<notin> set (cd_component d)"
    if "p \<in> set (cr_latest r)" for p
  proof -
    have "(fst p, snd p) \<in> set (cr_latest r)" using that by simp
    then obtain d where d: "nul \<notin> set (fst (fst p))" "dget (cr_by_id r) (snd p) = Some d" "(cd_component d, cd_name d) = fst p"
      using ok unfolding reg_ok_def by blast
    then have "cd_component d = fst (fst p)" by (metis fst_conv)
    then show ?thesis using d dget_in_set [OF d(2)] by force
  qed
  then have "\<exists>ds. those (map (\<lambda>p. dget (cr_by_id r) (snd p)) (cr_latest r)) = Some ds \<and>
      (\<forall>d\<in>set ds. d \<in> set (dvals (cr_by_id r)) \<and> nul \<notin> set (cd_component d))"
    by (intro those_map) blast
  then show ?thesis by (auto simp: list_capabilities_def)
qed

lemma origins:
  "c \<in> f ` set ds \<or> capability_origin c d = Some n \<Longrightarrow>
     capability_origin c (fold (\<lambda>x. register_origin (f x) n) ds d) = Some n"
proof (induction ds arbitrary: d)
  case (Cons x ds)
  then show ?case
    by (auto simp: register_origin_def directory_save_def capability_origin_def dget_dset intro!: Cons.IH)
qed simp

definition ends :: "(node \<times> string \<times> node \<Rightarrow> real option) \<Rightarrow> node set" where
  "ends E = {a. \<exists>p b. E (a, p, b) \<noteq> None \<or> E (b, p, a) \<noteq> None}"

lemma ends_of_facts:
  assumes "sem_ok m"
  shows "(\<Union>f\<in>set (sm_facts m). {fact_node m (sf_subject f), fact_node m (sf_object f)}) = ends (edge m)"
proof -
  define E where "E = edge m"
  have "E k \<noteq> None \<longleftrightarrow> (\<exists>f\<in>set (sm_facts m). k = fact_edge m f)" for k
    unfolding E_def edges_of_facts [OF assms, symmetric] map_of_eq_None_iff by (auto simp: image_iff)
  then have "ends E = {a. \<exists>p b. (\<exists>f\<in>set (sm_facts m). (a, p, b) = fact_edge m f) \<or> (\<exists>f\<in>set (sm_facts m). (b, p, a) = fact_edge m f)}"
    by (simp add: ends_def)
  also have "\<dots> = (\<Union>f\<in>set (sm_facts m). {fact_node m (sf_subject f), fact_node m (sf_object f)})"
    unfolding fact_edge_def by blast
  finally show ?thesis by (simp add: E_def)
qed

lemma items_of_dicts: "dget r k = Some (PList (map PDict xs)) \<Longrightarrow> items_of r k = Inr xs"
  by (simp add: items_of_def list_all_iff is_dict_def o_def)

section \<open>The exchange\<close>

text \<open>
  C38: a node that takes in the snapshot of a peer succeeds; afterwards its graph of facts is its
  old one overridden by that of the peer, every capability the peer lists is registered here
  with the same description, risk, cost and tags and with the peer as its origin, what was
  registered before is unchanged, and it has been told the voters of the peer's group.
\<close>

theorem snapshot_merges_knowledge:
  assumes peer: "reg_ok (cl_registry caps)" "\<forall>d\<in>set (dvals (cr_by_id (cl_registry caps))). publishable d"
      "sem_ok (ml_semantic mem)"
    and here: "reg_ok (cl_registry (na_caps a))" "sem_ok (ml_semantic (na_memory a))"
    and fresh: "fresh_caps cenv 0 (cl_registry (na_caps a))" "fresh_draws menv 0 (ml_semantic (na_memory a))"
  shows "\<exists>r ds a'. cluster_snapshot_answer voters node caps mem = Inr r \<and>
     list_capabilities None None (cl_registry caps) = Some ds \<and>
     take_in cenv menv node True (Some r) a = (Inr (length ds, length (sm_facts (ml_semantic mem))), a') \<and>
     graph_of (ml_semantic (na_memory a')) =
       (fst (graph_of (ml_semantic (na_memory a))) \<union> ends (edge (ml_semantic mem)),
        edge (ml_semantic (na_memory a)) ++ edge (ml_semantic mem)) \<and>
     (\<forall>d\<in>set ds. \<exists>d'. same_capability d d' \<and> reg_get (cd_id d') (cl_registry (na_caps a')) = Inr d' \<and>
        capability_origin (cd_id d') (na_directory a') = Some node) \<and>
     reg_le (cl_registry (na_caps a)) (cl_registry (na_caps a')) \<and> na_member a' = na_member a @ [voters]"
proof -
  let ?m = "ml_semantic mem"
  obtain ds where ds: "list_capabilities None None (cl_registry caps) = Some ds"
    "\<forall>d\<in>set ds. d \<in> set (dvals (cr_by_id (cl_registry caps))) \<and> nul \<notin> set (cd_component d)"
    using listed [OF peer(1)] by blast
  have pub: "\<forall>d\<in>set ds. publishable d \<and> nul \<notin> set (cd_component d)" using ds(2) peer(2) by blast
  obtain xs where xs: "portable_facts (sm_facts ?m) ?m = Inr xs" "absorbs menv ?m (sm_facts ?m) xs"
    using portable_facts_merge [OF peer(3) order_refl] by blast
  define r where "r = [(''node_id'', PStr node), (''capabilities'', PList (map PDict (map desc_to_dict ds))),
      (''semantic_facts'', PList (map PDict xs)), (''raft_membership'', PDict voters)]"
  have answer: "cluster_snapshot_answer voters node caps mem = Inr r"
    using ds(1) xs(1) by (simp add: cluster_snapshot_answer_def handle_cluster_snapshot_def build_capability_snapshot_def
        build_semantic_snapshot_def query_facts_def matches_def r_def)
  obtain ds' cl where cl: "apply_capability_snapshot cenv 0 (map desc_to_dict ds) (na_caps a) = (Inr ds', cl)"
    "list_all2 same_capability ds ds'" "\<forall>d'\<in>set ds'. dget (cr_by_id (cl_registry cl)) (cd_id d') = Some d'"
    "reg_le (cl_registry (na_caps a)) (cl_registry cl)"
    using apply_capabilities [OF here(1) fresh(1) pub] by blast
  obtain ml where ml: "apply_semantic_snapshot menv 0 xs (na_memory a) = (Inr (length (sm_facts ?m)), ml)"
    and g: "graph_of (ml_semantic ml) =
       (fst (graph_of (ml_semantic (na_memory a))) \<union> (\<Union>f\<in>set (sm_facts ?m). {fact_node ?m (sf_subject f), fact_node ?m (sf_object f)}),
        fold (\<lambda>f E. E(fact_edge ?m f \<mapsto> sf_conf f)) (sm_facts ?m) (edge (ml_semantic (na_memory a))))"
    using xs(2) here(2) fresh(2) unfolding absorbs_def by blast
  define dir where "dir = fold (\<lambda>d. register_origin (cd_id d) node) ds' (na_directory a)"
  define a' where "a' = a\<lparr>na_caps := cl, na_directory := dir, na_memory := ml, na_member := na_member a @ [voters]\<rparr>"
  have r: "items_of r ''capabilities'' = Inr (map desc_to_dict ds)" "items_of r ''semantic_facts'' = Inr xs"
    "r \<noteq> []" "dget r ''raft_membership'' = Some (PDict voters)"
    by (rule items_of_dicts, simp add: r_def)+ (simp_all add: r_def)
  have len: "length ds' = length ds" using cl(2) by (simp add: list_all2_lengthD)
  obtain r0 rs where r0: "r = r0 # rs" using r(3) by (cases r) auto
  have t: "take_in cenv menv node True (Some r) a = (Inr (length ds, length (sm_facts ?m)), a')"
    using r(1,2,4) cl(1) ml len unfolding r0
    by (simp add: take_in_def Let_def note_membership_def a'_def dir_def)
  have "\<exists>d'. same_capability d d' \<and> reg_get (cd_id d') (cl_registry (na_caps a')) = Inr d' \<and>
        capability_origin (cd_id d') (na_directory a') = Some node" if "d \<in> set ds" for d
  proof -
    obtain d' where d': "d' \<in> set ds'" "same_capability d d'"
      using cl(2) \<open>d \<in> set ds\<close> by (metis in_set_conv_nth list_all2_conv_all_nth)
    have "capability_origin (cd_id d') dir = Some node" unfolding dir_def using d'(1) by (intro origins) simp
    then show ?thesis using d' cl(3) by (auto simp: reg_get_def a'_def)
  qed
  then show ?thesis
    using answer ds(1) t g cl(4)
    by (intro exI [of _ r] exI [of _ ds] exI [of _ a'])
      (simp add: a'_def ends_of_facts [OF peer(3)] fold_fact_edges [OF distinct_edges [OF peer(3)]] edges_of_facts [OF peer(3)])
qed

definition demo_node_actor :: actor where
  "demo_node_actor = \<lparr>ac_id = ''node'', ac_public = ''k'', ac_private = ''k''\<rparr>"

definition demo_sender_caps :: cap_layer where
  "demo_sender_caps = \<lparr>cl_registry = run reg_step empty_registry demo_reg_ops, cl_audit = [], cl_actor = demo_node_actor\<rparr>"

definition demo_sender_memory :: mem_layer where
  "demo_sender_memory = \<lparr>ml_working = [], ml_episodes = [], ml_semantic = run sem_step empty_semantic demo_sem_ops,
     ml_audit = [], ml_actor = demo_node_actor\<rparr>"

definition demo_newcomer :: newcomer where
  "demo_newcomer = \<lparr>na_caps = \<lparr>cl_registry = empty_registry, cl_audit = [], cl_actor = demo_node_actor\<rparr>,
     na_memory = \<lparr>ml_working = [], ml_episodes = [], ml_semantic = empty_semantic, ml_audit = [], ml_actor = demo_node_actor\<rparr>,
     na_directory = directory_load None, na_member = []\<rparr>"

definition demo_draw :: "nat \<Rightarrow> string" where
  "demo_draw i = replicate (Suc i) CHR ''x''"

definition demo_cap_stream :: "nat \<Rightarrow> cap_env" where
  "demo_cap_stream i = \<lparr>ce_sha = demo_sha, ce_sign = (\<lambda>k h. k @ h), ce_now = ''t'', ce_id = demo_draw i\<rparr>"

theorem snapshot_merges_knowledge_witness:
  "\<exists>r a'. cluster_snapshot_answer [] ''peer'' demo_sender_caps demo_sender_memory = Inr r \<and>
     take_in demo_cap_stream (\<lambda>i. demo_mem_env (demo_draw i)) ''peer'' True (Some r) demo_newcomer = (Inr (1, 1), a') \<and>
     edge (ml_semantic (na_memory a')) ((''cap'', ''capability''), ''has_reliability'', (''reliable'', ''reliability_label'')) =
       Some (1 / 2)"
proof -
  have inj: "inj_on demo_draw A" for A by (auto simp: inj_on_def demo_draw_def)
  have "reg_ok (cl_registry demo_sender_caps)"
    using registries.run_inv [OF empty_registry_ok demo_reg_legal] by (simp add: demo_sender_caps_def)
  moreover have "\<forall>d\<in>set (dvals (cr_by_id (cl_registry demo_sender_caps))). publishable d"
    by (simp add: demo_sender_caps_def demo_reg_ops_def demo_publication_def register_def Let_def empty_registry_def build_descriptor_def
        publishable_def valid_name_char_def py_strip_def is_space_def)
  moreover have "legal sem_fresh sem_step empty_semantic demo_sem_ops" by code_simp
  then have "sem_ok (ml_semantic demo_sender_memory)"
    using semantics.run_inv [OF empty_semantic_ok] by (simp add: demo_sender_memory_def)
  moreover have "reg_ok (cl_registry (na_caps demo_newcomer))" "sem_ok (ml_semantic (na_memory demo_newcomer))"
    by (simp_all add: demo_newcomer_def empty_registry_ok empty_semantic_ok)
  moreover have "fresh_caps demo_cap_stream 0 (cl_registry (na_caps demo_newcomer))"
    using inj by (simp add: fresh_caps_def demo_cap_stream_def demo_newcomer_def empty_registry_def demo_draw_def [symmetric])
      (simp add: demo_draw_def)
  moreover have "fresh_draws (\<lambda>i. demo_mem_env (demo_draw i)) 0 (ml_semantic (na_memory demo_newcomer))"
    using inj by (simp add: fresh_draws_def demo_mem_env_def demo_newcomer_def empty_semantic_def)
  ultimately obtain r ds a' where x: "cluster_snapshot_answer [] ''peer'' demo_sender_caps demo_sender_memory = Inr r"
    "list_capabilities None None (cl_registry demo_sender_caps) = Some ds"
    "take_in demo_cap_stream (\<lambda>i. demo_mem_env (demo_draw i)) ''peer'' True (Some r) demo_newcomer =
       (Inr (length ds, length (sm_facts (ml_semantic demo_sender_memory))), a')"
    "graph_of (ml_semantic (na_memory a')) =
       (fst (graph_of (ml_semantic (na_memory demo_newcomer))) \<union> ends (edge (ml_semantic demo_sender_memory)),
        edge (ml_semantic (na_memory demo_newcomer)) ++ edge (ml_semantic demo_sender_memory))"
    using snapshot_merges_knowledge [of demo_sender_caps demo_sender_memory demo_newcomer demo_cap_stream
        "\<lambda>i. demo_mem_env (demo_draw i)" "[]" "''peer''"] by blast
  have e: "edge (ml_semantic (na_memory a')) = edge (ml_semantic (na_memory demo_newcomer)) ++ edge (ml_semantic demo_sender_memory)"
    using x(4) by (simp add: graph_of_def)
  have f: "edge (ml_semantic demo_sender_memory)
      ((''cap'', ''capability''), ''has_reliability'', (''reliable'', ''reliability_label'')) = Some (1 / 2)"
    by code_simp
  have "map_option length (list_capabilities None None (cl_registry demo_sender_caps)) = Some 1"
    "length (sm_facts (ml_semantic demo_sender_memory)) = 1" by code_simp+
  then have "take_in demo_cap_stream (\<lambda>i. demo_mem_env (demo_draw i)) ''peer'' True (Some r) demo_newcomer = (Inr (1, 1), a')"
    using x(2,3) by simp
  moreover have "edge (ml_semantic (na_memory a'))
      ((''cap'', ''capability''), ''has_reliability'', (''reliable'', ''reliability_label'')) = Some (1 / 2)"
    unfolding e by (rule map_add_find_right) (rule f)
  ultimately show ?thesis using x(1) by blast
qed

end
