(* ===== verification/Joiner.thy ===== *)
theory Joiner
  imports Snapshot
begin

text \<open>
  The joining side: identities of components and their registry
  (\<open>infrastructure/cognitive_core/identity/\<close>), the identity files of a node and its discovery of
  peers (\<open>infrastructure/cluster_network/identity.py\<close>, \<open>discovery.py\<close>), the client of the bootstrap
  endpoints (\<open>bootstrap_client.py\<close>) and the client that joins a cluster
  (\<open>infrastructure/cognitive_core/cluster/mtls_join_client.py\<close>).

  Keys are their raw bytes in hexadecimal; \<open>pub\<close> gives the public key of a private one, and
  \<open>check\<close> verifies a signature or raises. The peer is what it answers: to the request, to the
  \<open>k\<close>-th poll, and to the request for its snapshot. The loop that polls reads the clock before
  each round.
\<close>

section \<open>Identities\<close>

record manifest =
  im_id :: string
  im_type :: string
  im_key :: string
  im_created :: string

definition manifest_to_dict :: "manifest \<Rightarrow> item" where
  "manifest_to_dict m =
     [(''component_id'', PStr (im_id m)), (''component_type'', PStr (im_type m)), (''public_key_hex'', PStr (im_key m)),
      (''created_at'', PStr (im_created m))]"

definition manifest_from_dict :: "item \<Rightarrow> raised + manifest" where
  "manifest_from_dict d =
     (case need_str d ''component_id'' of Inl e \<Rightarrow> Inl e | Inr i \<Rightarrow>
     (case need_str d ''component_type'' of Inl e \<Rightarrow> Inl e | Inr ty \<Rightarrow>
     (case need_str d ''public_key_hex'' of Inl e \<Rightarrow> Inl e | Inr k \<Rightarrow>
     (case need_str d ''created_at'' of Inl e \<Rightarrow> Inl e | Inr c \<Rightarrow>
        Inr \<lparr>im_id = i, im_type = ty, im_key = k, im_created = c\<rparr>))))"

record component =
  ci_type :: string
  ci_private :: string
  ci_id :: string
  ci_created :: string

definition create_component :: "string \<Rightarrow> string \<Rightarrow> string \<Rightarrow> string \<Rightarrow> raised + component" where
  "create_component ty key i now =
     (if ty = [] \<or> py_strip ty = [] then Inl (''ValueError'', ''component_type must be a non-empty string.'')
      else Inr \<lparr>ci_type = ty, ci_private = key, ci_id = i, ci_created = now\<rparr>)"

definition component_from_persisted :: "string \<Rightarrow> string \<Rightarrow> string \<Rightarrow> string \<Rightarrow> component" where
  "component_from_persisted i ty key created = \<lparr>ci_type = ty, ci_private = key, ci_id = i, ci_created = created\<rparr>"

definition export_private_key :: "component \<Rightarrow> string" where
  "export_private_key c = ci_private c"

definition component_manifest :: "(string \<Rightarrow> string) \<Rightarrow> component \<Rightarrow> manifest" where
  "component_manifest pub c =
     \<lparr>im_id = ci_id c, im_type = ci_type c, im_key = pub (ci_private c), im_created = ci_created c\<rparr>"

text \<open>\<open>verify\<close> turns the exception of the library into its own; \<open>is_valid\<close> turns that into an answer.\<close>

definition verify_key :: "(string \<Rightarrow> string \<Rightarrow> string \<Rightarrow> raised + unit) \<Rightarrow> string \<Rightarrow> string \<Rightarrow> string \<Rightarrow> raised + unit" where
  "verify_key check key payload sig =
     (case check key payload sig of
        Inl x \<Rightarrow> Inl (if fst x = ''InvalidSignature''
            then (''InvalidSignatureError'', ''Signature verification failed for the given public key.'') else x)
      | Inr u \<Rightarrow> Inr u)"

definition is_valid :: "(string \<Rightarrow> string \<Rightarrow> string \<Rightarrow> raised + unit) \<Rightarrow> string \<Rightarrow> string \<Rightarrow> string \<Rightarrow> raised + bool" where
  "is_valid check key payload sig =
     (case verify_key check key payload sig of
        Inl x \<Rightarrow> if fst x = ''InvalidSignatureError'' then Inr False else Inl x
      | Inr _ \<Rightarrow> Inr True)"

text \<open>The registry, with the content of its file when it has a path.\<close>

record identities =
  ir_manifests :: "(string, manifest) dict"
  ir_durable :: bool
  ir_file :: "item list option"

definition register_manifest :: "manifest \<Rightarrow> identities \<Rightarrow> identities" where
  "register_manifest m r =
     (let r1 = r\<lparr>ir_manifests := dset (im_id m) m (ir_manifests r)\<rparr>
      in if ir_durable r then r1\<lparr>ir_file := Some (map manifest_to_dict (dvals (ir_manifests r1)))\<rparr> else r1)"

definition get_manifest :: "string \<Rightarrow> identities \<Rightarrow> raised + manifest" where
  "get_manifest i r =
     (case dget (ir_manifests r) i of
        None \<Rightarrow> Inl (''UnknownComponentError'', ''No component registered with id='' @ in_quotes i) | Some m \<Rightarrow> Inr m)"

definition is_registered :: "string \<Rightarrow> identities \<Rightarrow> bool" where
  "is_registered i r \<longleftrightarrow> i \<in> set (dkeys (ir_manifests r))"

definition list_components :: "string option \<Rightarrow> identities \<Rightarrow> manifest list" where
  "list_components ty r =
     (case ty of None \<Rightarrow> dvals (ir_manifests r) | Some t \<Rightarrow> filter (\<lambda>m. im_type m = t) (dvals (ir_manifests r)))"

definition verify_actor_signature ::
    "(string \<Rightarrow> string \<Rightarrow> string \<Rightarrow> raised + unit) \<Rightarrow> string \<Rightarrow> string \<Rightarrow> string \<Rightarrow> identities \<Rightarrow> raised + bool" where
  "verify_actor_signature check i payload sig r =
     (case get_manifest i r of Inl e \<Rightarrow> Inl e | Inr m \<Rightarrow> is_valid check (im_key m) payload sig)"

fun load_manifests :: "item list \<Rightarrow> (string, manifest) dict \<Rightarrow> raised + (string, manifest) dict" where
  "load_manifests [] m = Inr m"
| "load_manifests (x # xs) m =
     (case manifest_from_dict x of Inl e \<Rightarrow> Inl e | Inr y \<Rightarrow> load_manifests xs (dset (im_id y) y m))"

definition open_identities :: "bool \<Rightarrow> item list option \<Rightarrow> raised + identities" where
  "open_identities durable f =
     (case (if durable then f else None) of
        None \<Rightarrow> Inr \<lparr>ir_manifests = [], ir_durable = durable, ir_file = f\<rparr>
      | Some xs \<Rightarrow> map_sum id (\<lambda>m. \<lparr>ir_manifests = m, ir_durable = durable, ir_file = f\<rparr>) (load_manifests xs []))"

section \<open>The files of a node's identity\<close>

record node_files =
  nf_cert :: "string option"
  nf_tls :: "string option"
  nf_key :: "string option"
  nf_pub :: "string option"

definition ensure_tls_cert :: "string \<times> string \<Rightarrow> node_files \<Rightarrow> node_files" where
  "ensure_tls_cert new f =
     (if nf_cert f \<noteq> None \<and> nf_tls f \<noteq> None then f else f\<lparr>nf_cert := Some (fst new), nf_tls := Some (snd new)\<rparr>)"

definition load_or_create_key :: "(string \<Rightarrow> string) \<Rightarrow> string \<Rightarrow> node_files \<Rightarrow> string \<times> node_files" where
  "load_or_create_key pub new f =
     (case nf_key f of Some k \<Rightarrow> (k, f) | None \<Rightarrow> (new, f\<lparr>nf_key := Some new, nf_pub := Some (pub new)\<rparr>))"

definition open_node_identity ::
    "(string \<Rightarrow> string) \<Rightarrow> string \<times> string \<Rightarrow> string \<Rightarrow> node_files \<Rightarrow> string \<times> node_files" where
  "open_node_identity pub new_cert new_key f = load_or_create_key pub new_key (ensure_tls_cert new_cert f)"

text \<open>The static check of a payload: every exception counts as a wrong signature.\<close>

definition node_verify :: "(string \<Rightarrow> string \<Rightarrow> string \<Rightarrow> raised + unit) \<Rightarrow> string \<Rightarrow> string \<Rightarrow> string \<Rightarrow> bool" where
  "node_verify check key payload sig = (case check key payload sig of Inl _ \<Rightarrow> False | Inr _ \<Rightarrow> True)"

section \<open>The bootstrap client\<close>

record bootstrap_approval =
  bo_node :: string
  bo_host :: string
  bo_port :: int
  bo_cert :: string
  bo_signing :: string
  bo_component_key :: string
  bo_created :: string

record join_env =
  je_cn :: "string \<Rightarrow> raised + string"
  je_post :: "item \<Rightarrow> raised + nat \<times> item"
  je_status :: "string \<Rightarrow> nat \<Rightarrow> raised + item"
  je_clock :: "nat \<Rightarrow> real"
  je_max_wait :: real
  je_payload :: item
  je_snapshot :: "string \<Rightarrow> int \<Rightarrow> raised + item option"
  je_caps :: "nat \<Rightarrow> cap_env"
  je_memory :: "nat \<Rightarrow> mem_env"
  je_wanted :: bool

definition connection_error :: "raised + 'a \<Rightarrow> raised + 'a" where
  "connection_error r =
     (case r of
        Inl x \<Rightarrow> Inl (if fst x = ''RequestException'' then (''BootstrapConnectionError'', ''Could not reach bootstrap server: '' @ snd x) else x)
      | Inr v \<Rightarrow> Inr v)"

definition request_join :: "join_env \<Rightarrow> raised + string" where
  "request_join v =
     (case connection_error (je_post v (je_payload v)) of
        Inl x \<Rightarrow> Inl x
      | Inr (code, d) \<Rightarrow>
          if code \<noteq> 202 then Inl (''BootstrapConnectionError'', ''Bootstrap server rejected the request (status '' @ show_nat code @ '')'')
          else need_str d ''request_id'')"

definition need_int :: "item \<Rightarrow> string \<Rightarrow> raised + int" where
  "need_int d k =
     (case dget d k of None \<Rightarrow> Inl (''KeyError'', in_quotes k) | Some (PInt i) \<Rightarrow> Inr i | Some _ \<Rightarrow> Inl (''TypeError'', k))"

definition approval_of :: "item \<Rightarrow> raised + bootstrap_approval" where
  "approval_of d =
     (case dget d ''responder'' of
        None \<Rightarrow> Inl (''KeyError'', in_quotes ''responder'')
      | Some (PDict r) \<Rightarrow>
          (case need_str r ''node_id'' of Inl e \<Rightarrow> Inl e | Inr n \<Rightarrow>
          (case need_str r ''host'' of Inl e \<Rightarrow> Inl e | Inr h \<Rightarrow>
          (case need_int r ''mtls_port'' of Inl e \<Rightarrow> Inl e | Inr p \<Rightarrow>
          (case need_str r ''cert_pem'' of Inl e \<Rightarrow> Inl e | Inr c \<Rightarrow>
          (case need_str r ''signing_pubkey_hex'' of Inl e \<Rightarrow> Inl e | Inr s \<Rightarrow>
          (case need_str r ''component_public_key_hex'' of Inl e \<Rightarrow> Inl e | Inr ck \<Rightarrow>
          (case need_str r ''component_created_at'' of Inl e \<Rightarrow> Inl e | Inr cr \<Rightarrow>
             Inr \<lparr>bo_node = n, bo_host = h, bo_port = p, bo_cert = c, bo_signing = s, bo_component_key = ck, bo_created = cr\<rparr>)))))))
      | Some _ \<Rightarrow> Inl (''TypeError'', ''responder''))"

text \<open>The loop may run for ever if the clock does not reach the deadline: then its value is \<open>None\<close>.\<close>

partial_function (option) poll :: "join_env \<Rightarrow> string \<Rightarrow> real \<Rightarrow> nat \<Rightarrow> (raised + bootstrap_approval) option" where
  "poll v rid deadline k =
     (if je_clock v (Suc k) < deadline then
        (case connection_error (je_status v rid k) of
           Inl x \<Rightarrow> Some (Inl x)
         | Inr d \<Rightarrow>
             if dget d ''status'' = Some (PStr ''approved'') then Some (approval_of d)
             else if dget d ''status'' = Some (PStr ''rejected'') then Some (Inl (''BootstrapRejected'', ''Peer rejected join request '' @ rid))
             else poll v rid deadline (Suc k))
      else Some (Inl (''BootstrapTimedOut'', ''No human decision on join request '' @ rid)))"

definition poll_until_decided :: "join_env \<Rightarrow> string \<Rightarrow> (raised + bootstrap_approval) option" where
  "poll_until_decided v rid = poll v rid (je_clock v 0 + je_max_wait v) 0"

section \<open>Joining\<close>

record joiner =
  jn_trust :: trust
  jn_bundle :: "string list"
  jn_identities :: identities
  jn_new :: newcomer

definition join_error :: "raised \<Rightarrow> raised" where
  "join_error x =
     (if fst x = ''BootstrapRejected'' then (''ClusterJoinRejectedError'', snd x) else (''ClusterConnectionError'', snd x))"

definition after_approval :: "join_env \<Rightarrow> string \<Rightarrow> bootstrap_approval \<Rightarrow> joiner \<Rightarrow> (raised + string \<times> nat \<times> nat) \<times> joiner" where
  "after_approval v url ap s =
     (case add_peer (je_cn v) (bo_node ap) (bo_host ap) (bo_port ap) (bo_cert ap) (bo_signing ap) (jn_trust s) of
        (Inl x, tr) \<Rightarrow> (Inl x, s\<lparr>jn_trust := tr\<rparr>)
      | (Inr _, tr) \<Rightarrow>
          (let s1 = s\<lparr>jn_trust := save_trust tr, jn_bundle := build_trust_bundle None tr,
                      jn_identities := register_manifest
                        \<lparr>im_id = bo_node ap, im_type = ''node'', im_key = bo_component_key ap, im_created = bo_created ap\<rparr> (jn_identities s),
                      jn_new := (jn_new s)\<lparr>na_directory := register_node (bo_node ap) url (na_directory (jn_new s))\<rparr>\<rparr> in
           case je_snapshot v (bo_host ap) (bo_port ap) of
             Inl x \<Rightarrow> (Inl x, s1)
           | Inr response \<Rightarrow>
               (let (res, a) = take_in (je_caps v) (je_memory v) (bo_node ap) (je_wanted v) response (jn_new s1)
                in (map_sum id (\<lambda>(c, f). (bo_node ap, c, f)) res, s1\<lparr>jn_new := a\<rparr>))))"

definition join_peer :: "join_env \<Rightarrow> string \<Rightarrow> joiner \<Rightarrow> ((raised + string \<times> nat \<times> nat) \<times> joiner) option" where
  "join_peer v url s =
     (case request_join v of
        Inl x \<Rightarrow> Some (Inl (join_error x), s)
      | Inr rid \<Rightarrow>
          (case poll_until_decided v rid of
             None \<Rightarrow> None
           | Some (Inl x) \<Rightarrow> Some (Inl (join_error x), s)
           | Some (Inr ap) \<Rightarrow> Some (after_approval v url ap s)))"

section \<open>Discovery\<close>

text \<open>
  One round: what each peer answers is a function; \<open>None\<close> is a failed call. Trust is extended only
  when that is allowed. An answer lists the peers with their addresses and certificates.
\<close>

definition learn :: "(string \<Rightarrow> raised + string) \<Rightarrow> string \<Rightarrow> (string \<times> peer) list \<Rightarrow> trust \<Rightarrow> (raised + bool) \<times> trust" where
  "learn cn own candidates tr =
     fold (\<lambda>(i, p) (res, t).
         case res of
           Inl e \<Rightarrow> (Inl e, t)
         | Inr learned \<Rightarrow>
             if i = own \<or> i \<in> set (dkeys (tr_peers t)) then (Inr learned, t)
             else (case add_peer cn i (pe_host p) (pe_port p) (pe_cert p) (pe_key p) t of
                 (Inl e, t1) \<Rightarrow> (Inl e, t1) | (Inr _, t1) \<Rightarrow> (Inr True, t1)))
       candidates (Inr False, tr)"

fun gossip ::
    "(string \<Rightarrow> raised + string) \<Rightarrow> string \<Rightarrow> bool \<Rightarrow> (string \<Rightarrow> int \<Rightarrow> (string \<times> peer) list option) \<Rightarrow> peer list \<Rightarrow> trust
     \<Rightarrow> (raised + unit) \<times> trust" where
  "gossip cn own allow ask [] tr = (Inr (), tr)"
| "gossip cn own allow ask (q # qs) tr =
     (case ask (pe_host q) (pe_port q) of
        None \<Rightarrow> gossip cn own allow ask qs tr
      | Some candidates \<Rightarrow>
          if candidates = [] \<or> \<not> allow then gossip cn own allow ask qs tr
          else
            (case learn cn own candidates tr of
               (Inl e, t) \<Rightarrow> (Inl e, t)
             | (Inr learned, t) \<Rightarrow> gossip cn own allow ask qs (if learned then save_trust t else t)))"

definition gossip_round ::
    "(string \<Rightarrow> raised + string) \<Rightarrow> string \<Rightarrow> bool \<Rightarrow> bool \<Rightarrow> (string \<Rightarrow> int \<Rightarrow> (string \<times> peer) list option) \<Rightarrow> trust
     \<Rightarrow> (raised + unit) \<times> trust" where
  "gossip_round cn own online allow ask tr =
     (if online then gossip cn own allow ask (dvals (tr_peers tr)) tr else (Inr (), tr))"

end
