(* ===== verification/Joiner_Props.thy ===== *)
theory Joiner_Props
  imports Joiner Joining_Props
begin

text \<open>
  Joining ends, trust is mutual, the registry of identities and the identity of a node survive a
  restart, and discovery does not extend trust unless it is told to.
\<close>

section \<open>Restarts\<close>

lemma manifest_roundtrip [simp]: "manifest_from_dict (manifest_to_dict m) = Inr m"
  by (simp add: manifest_from_dict_def manifest_to_dict_def need_str_def)

lemma load_manifests_fold:
  "load_manifests (map manifest_to_dict ms) d = Inr (fold (\<lambda>m. dset (im_id m) m) ms d)"
  by (induction ms arbitrary: d) auto

definition ids_ok :: "identities \<Rightarrow> bool" where
  "ids_ok r \<longleftrightarrow> dwf (ir_manifests r) \<and> (\<forall>i m. (i, m) \<in> set (ir_manifests r) \<longrightarrow> im_id m = i) \<and>
     (ir_durable r \<longrightarrow> (if ir_file r = None then ir_manifests r = [] else ir_file r = Some (map manifest_to_dict (dvals (ir_manifests r)))))"

lemma register_manifest_ok: "ids_ok r \<Longrightarrow> ids_ok (register_manifest m r)"
  by (auto simp: ids_ok_def register_manifest_def Let_def in_set_dset split: if_splits)

text \<open>A durable registry is read back from its file as it was.\<close>

theorem identities_survive_restart:
  assumes "ids_ok r" "ir_durable r"
  shows "open_identities True (ir_file r) = Inr r"
proof (cases "ir_file r")
  case None
  then show ?thesis using assms by (cases r) (simp add: ids_ok_def open_identities_def)
next
  case (Some f)
  have "fold (\<lambda>m. dset (im_id m) m) (dvals (ir_manifests r)) [] = ir_manifests r"
    using fold_dset_dvals [of "[]" "ir_manifests r" im_id] assms(1) by (auto simp: ids_ok_def)
  then show ?thesis
    using Some assms load_manifests_fold [of "dvals (ir_manifests r)" "[]"]
    by (cases r) (simp add: ids_ok_def open_identities_def)
qed

lemma node_identity_stays:
  "open_node_identity pub cert key (snd (open_node_identity pub cert' key' f)) = open_node_identity pub cert' key' f"
  by (auto simp: open_node_identity_def load_or_create_key_def ensure_tls_cert_def split: option.split)

section \<open>Discovery\<close>

lemma no_transitive_trust: "gossip_round cn own online False ask tr = (Inr (), tr)"
proof -
  have "gossip cn own False ask qs tr = (Inr (), tr)" for qs
    by (induction qs) (simp_all split: option.split)
  then show ?thesis by (simp add: gossip_round_def)
qed

section \<open>Polling\<close>

lemma poll_returns:
  assumes step: "\<And>k. je_clock v k + \<delta> \<le> je_clock v (Suc k)" and pos: "0 < \<delta>"
  shows "deadline - je_clock v (Suc k) \<le> real n * \<delta> \<Longrightarrow> \<exists>r. poll v rid deadline k = Some r"
proof (induction n arbitrary: k)
  case 0
  then show ?case by (simp add: poll.simps)
next
  case (Suc n)
  have "deadline - je_clock v (Suc (Suc k)) \<le> real n * \<delta>"
    using Suc.prems step [of "Suc k"] by (simp add: algebra_simps)
  from Suc.IH [OF this] show ?case
    by (subst poll.simps) (auto split: sum.split)
qed

lemma poll_approved:
  "poll v rid deadline k = Some r \<Longrightarrow>
     \<forall>ap. r = Inr ap \<longrightarrow>
       (\<exists>j st. je_status v rid j = Inr st \<and> dget st ''status'' = Some (PStr ''approved'') \<and> approval_of st = Inr ap)"
  by (erule poll.raw_induct [rotated]) (auto simp: connection_error_def split: if_splits sum.splits)

text \<open>
  C39: joining always returns: if each round of the loop that waits for the decision takes a
  positive amount of time, the loop ends, whatever the peer answers.
\<close>

theorem joining_returns:
  assumes "0 < \<delta>" "\<And>k. je_clock v k + \<delta> \<le> je_clock v (Suc k)"
  shows "\<exists>res s'. join_peer v url s = Some (res, s')"
proof -
  have "\<exists>r. poll_until_decided v rid = Some r" for rid
  proof -
    let ?d = "je_clock v 0 + je_max_wait v"
    obtain n :: nat where "(?d - je_clock v (Suc 0)) / \<delta> \<le> real n" using real_arch_simple by blast
    then have "?d - je_clock v (Suc 0) \<le> real n * \<delta>" using assms(1) by (simp add: field_simps)
    from poll_returns [OF assms(2,1) this] show ?thesis by (simp add: poll_until_decided_def)
  qed
  note ends = this
  show ?thesis
  proof (cases "request_join v")
    case (Inr rid)
    obtain r where r: "poll_until_decided v rid = Some r" using ends by blast
    then show ?thesis using Inr
      by (cases r; cases "after_approval v url (projr r) s") (simp_all add: join_peer_def)
  qed (simp add: join_peer_def)
qed

section \<open>Mutual trust\<close>

lemma add_peer_adds:
  "add_peer cn node host port cert key tr = (Inr b, tr') \<Longrightarrow>
     \<exists>tid. tr_peers tr' = dset node \<lparr>pe_host = host, pe_port = port, pe_cert = cert, pe_key = key, pe_transport = tid\<rparr> (tr_peers tr)"
  by (auto simp: add_peer_def Let_def dget_dset split: sum.splits if_splits)

lemma add_peer_refused: "add_peer cn node host port cert key tr = (Inl e, tr') \<Longrightarrow> tr' = tr"
  by (auto simp: add_peer_def Let_def split: sum.splits if_splits)

lemma after_approval_trust:
  assumes "after_approval v url ap s = (res, s')" "s' \<noteq> s"
  shows "\<exists>q. get_peer (bo_node ap) (jn_trust s') = Some q \<and> pe_cert q = bo_cert ap \<and> pe_key q = bo_signing ap \<and>
     (\<forall>j. j \<noteq> bo_node ap \<longrightarrow> get_peer j (jn_trust s') = get_peer j (jn_trust s)) \<and>
     tr_file (jn_trust s') = Some (tr_peers (jn_trust s'))"
proof -
  obtain b tr where a: "add_peer (je_cn v) (bo_node ap) (bo_host ap) (bo_port ap) (bo_cert ap) (bo_signing ap) (jn_trust s) = (b, tr)"
    by fastforce
  show ?thesis
  proof (cases b)
    case (Inl e)
    then show ?thesis using assms a add_peer_refused [of _ _ _ _ _ _ _ e tr] by (auto simp: after_approval_def)
  next
    case (Inr x)
    have "jn_trust s' = save_trust tr"
      using assms(1) a Inr by (auto simp: after_approval_def Let_def split: sum.splits prod.splits)
    moreover obtain tid where "tr_peers tr = dset (bo_node ap) \<lparr>pe_host = bo_host ap, pe_port = bo_port ap, pe_cert = bo_cert ap,
        pe_key = bo_signing ap, pe_transport = tid\<rparr> (tr_peers (jn_trust s))"
      using add_peer_adds a Inr by blast
    ultimately show ?thesis unfolding get_peer_def save_trust_def by (auto simp: dget_dset)
  qed
qed

lemma approval_of_own:
  "approval_of d = Inr ap \<Longrightarrow> dget d ''responder'' = Some (PDict own) \<Longrightarrow>
     dget own ''node_id'' = Some (PStr (bo_node ap)) \<and> dget own ''cert_pem'' = Some (PStr (bo_cert ap)) \<and>
     dget own ''signing_pubkey_hex'' = Some (PStr (bo_signing ap))"
  by (auto simp: approval_of_def need_str_def need_int_def split: option.splits pyval.splits sum.splits)

lemma approved_answer:
  assumes "dget (snd (fst (bootstrap_get (PDict own) path t s))) ''status'' = Some (PStr ''approved'')"
  shows "fst (bootstrap_get (PDict own) path t s) = (200, (''status'', PStr ''approved'') # [(''responder'', PDict own)])"
  using assms by (auto simp: bootstrap_get_def Let_def split: prod.splits option.splits if_splits)


definition demo_own :: item where
  "demo_own = [(''node_id'', PStr ''core''), (''host'', PStr ''h0''), (''mtls_port'', PInt 8443), (''cert_pem'', PStr ''c0''),
     (''signing_pubkey_hex'', PStr ''k0''), (''component_public_key_hex'', PStr ''p0''), (''component_created_at'', PStr ''t0'')]"

definition demo_join_env :: join_env where
  "demo_join_env = \<lparr>je_cn = Inr, je_post = (\<lambda>_. Inr (202, [(''request_id'', PStr ''peer-1'')])),
     je_status = (\<lambda>rid k. Inr (snd (fst (bootstrap_get (PDict demo_own) (status_prefix @ rid) 900
        (run (join_step demo_cn) demo_joins (demo_join_ops 850 850)))))),
     je_clock = real, je_max_wait = 5, je_payload = [], je_snapshot = (\<lambda>_ _. Inr None),
     je_caps = (\<lambda>_. \<lparr>ce_sha = (\<lambda>_. []), ce_sign = (\<lambda>_ _. []), ce_now = [], ce_id = []\<rparr>),
     je_memory = (\<lambda>_. \<lparr>me_sha = (\<lambda>_. []), me_sign = (\<lambda>_ _. []), me_now = [], me_id = []\<rparr>), je_wanted = False\<rparr>"

definition demo_joiner :: joiner where
  "demo_joiner = \<lparr>jn_trust = open_trust None, jn_bundle = [],
     jn_identities = \<lparr>ir_manifests = [], ir_durable = False, ir_file = None\<rparr>,
     jn_new = \<lparr>na_caps = \<lparr>cl_registry = \<lparr>cr_by_id = [], cr_latest = [], cr_file = None\<rparr>, cl_audit = [],
         cl_actor = \<lparr>ac_id = [], ac_public = [], ac_private = []\<rparr>\<rparr>,
       na_memory = \<lparr>ml_working = [], ml_episodes = [], ml_semantic = \<lparr>sm_entities = [], sm_facts = []\<rparr>, ml_audit = [],
         ml_actor = \<lparr>ac_id = [], ac_public = [], ac_private = []\<rparr>\<rparr>,
       na_directory = directory_load None, na_member = []\<rparr>\<rparr>"


theorem joining_returns_witness:
  "\<exists>res s'. join_peer (demo_join_env\<lparr>je_status := (\<lambda>_ _. Inr [(''status'', PStr ''pending'')])\<rparr>) ''u'' demo_joiner = Some (res, s')"
  by (rule joining_returns [of 1]) (simp_all add: demo_join_env_def)

end
