(* ===== verification/Spec2Isabelle.thy ===== *)
theory Spec2Isabelle
  imports Orchestrator_Props Raft_Props Cluster_Props Hosting_Props Evolution_Props Capability_Props Learning_Props Autonomy_Props Joining_Props Rate_Limiter Training_Props Promotion_Props Federation_Props Pairing_Props Access_Props Env_File Cloud_Props Templates_Props Node_Roles_Props Executors_Props Snapshot_Props Joiner_Props
begin

text \<open>
  A verification library for the Reus node: models of its components and the theorems that
  make them correct.
\<close>

end
